(* ===== verification/Prelude.thy ===== *)
theory Prelude
  imports Complex_Main "HOL-Library.AList" "HOL-Library.Char_ord" "HOL-Library.List_Lexorder"
begin

text \<open>
  The JavaScript layer that every component of the development shares: strings and their library
  functions, numbers, dynamically typed values, objects as association lists, and computations
  that thread a state and may throw.

  \<^item> A JavaScript string is a sequence of code units; \<^typ>\<open>string\<close> covers the code units below 256,
    one \<^typ>\<open>char\<close> each, so \<open>length\<close> is JavaScript's \<open>length\<close> on those strings.
  \<^item> A JavaScript number is \<open>NaN\<close>, an infinity or a finite value; a finite value is the rational
    number it denotes (the two zeros are one value).
  \<^item> An object is the association list of its own properties in insertion order; writing a
    property keeps its position, as \<^const>\<open>AList.update\<close> does.
  \<^item> What the code gets from the platform it runs on and this development does not define (number
    printing, URL parsing, hashing, date formats, base64 and percent decoding) is the record
    \<open>platform\<close>, an argument of the definitions that use it.
\<close>

named_theorems wp_simps "weakest preconditions of the computation combinators"
named_theorems keeps_intros "invariants of the computation combinators"
named_theorems hoare_intros "triples of the computation combinators"
named_theorems stays_intros "values and errors of the computation combinators"
named_theorems js_simps "evaluation rules of the JavaScript values"

section \<open>Characters and strings\<close>

abbreviation code :: "char \<Rightarrow> nat" where
  "code c \<equiv> of_char c"

definition is_digit :: "char \<Rightarrow> bool" where
  "is_digit c \<longleftrightarrow> 48 \<le> code c \<and> code c \<le> 57"

definition is_lower :: "char \<Rightarrow> bool" where
  "is_lower c \<longleftrightarrow> 97 \<le> code c \<and> code c \<le> 122"

definition is_upper :: "char \<Rightarrow> bool" where
  "is_upper c \<longleftrightarrow> 65 \<le> code c \<and> code c \<le> 90"

definition is_hex :: "char \<Rightarrow> bool" where
  "is_hex c \<longleftrightarrow> is_digit c \<or> (97 \<le> code c \<and> code c \<le> 102) \<or> (65 \<le> code c \<and> code c \<le> 70)"

text \<open>White space and line terminators among the code units below 256, as \<open>trim\<close> removes them.\<close>

definition is_space :: "char \<Rightarrow> bool" where
  "is_space c \<longleftrightarrow> (9 \<le> code c \<and> code c \<le> 13) \<or> code c = 32 \<or> code c = 160"

definition js_trim :: "string \<Rightarrow> string" where
  "js_trim s = rev (dropWhile is_space (rev (dropWhile is_space s)))"

text \<open>\<open>toLowerCase\<close>: ASCII letters and the accented capitals 192--222, without the sign 215.\<close>

definition lower_char :: "char \<Rightarrow> char" where
  "lower_char c =
     (if is_upper c \<or> (192 \<le> code c \<and> code c \<le> 222 \<and> code c \<noteq> 215)
      then char_of (code c + 32) else c)"

definition js_lower :: "string \<Rightarrow> string" where
  "js_lower s = map lower_char s"

fun js_split :: "char \<Rightarrow> string \<Rightarrow> string list" where
  "js_split d [] = [[]]"
| "js_split d (c # cs) =
     (if c = d then [] # js_split d cs
      else (case js_split d cs of [] \<Rightarrow> [[c]] | w # ws \<Rightarrow> (c # w) # ws))"

fun js_join :: "string \<Rightarrow> string list \<Rightarrow> string" where
  "js_join sep [] = []"
| "js_join sep [w] = w"
| "js_join sep (w # v # ws) = w @ sep @ js_join sep (v # ws)"

definition starts_with :: "string \<Rightarrow> string \<Rightarrow> bool" where
  "starts_with p s \<longleftrightarrow> take (length p) s = p"

lemma js_split_nonempty [simp]: "js_split d s \<noteq> []"
  by (induction s) (auto split: list.splits)

lemma js_join_split: "js_join [d] (js_split d s) = s"
proof (induction s)
  case Nil
  then show ?case by simp
next
  case (Cons c cs)
  obtain w ws where sp: "js_split d cs = w # ws"
    by (cases "js_split d cs") auto
  with Cons show ?case by (cases ws) auto
qed

section \<open>Decimal numerals\<close>

definition digit_char :: "nat \<Rightarrow> char" where
  "digit_char n = char_of (48 + n)"

fun nat_str :: "nat \<Rightarrow> string" where
  "nat_str n = (if n < 10 then [digit_char n] else nat_str (n div 10) @ [digit_char (n mod 10)])"

declare nat_str.simps [simp del]

definition int_str :: "int \<Rightarrow> string" where
  "int_str i = (if i < 0 then ''-'' @ nat_str (nat (- i)) else nat_str (nat i))"

fun digits_val :: "nat \<Rightarrow> string \<Rightarrow> nat" where
  "digits_val acc [] = acc"
| "digits_val acc (c # cs) = digits_val (10 * acc + (code c - 48)) cs"

lemma code_digit_char: "n < 10 \<Longrightarrow> code (digit_char n) = 48 + n"
  by (simp add: digit_char_def)

lemma is_digit_digit_char: "n < 10 \<Longrightarrow> is_digit (digit_char n)"
  by (simp add: is_digit_def code_digit_char)

lemma nat_str_digits: "\<forall>c \<in> set (nat_str n). is_digit c"
proof (induction n rule: nat_str.induct)
  case (1 n)
  show ?case
    by (cases "n < 10"; subst nat_str.simps) (use 1 in \<open>auto simp: is_digit_digit_char\<close>)
qed

lemma nat_str_nonempty [simp]: "nat_str n \<noteq> []"
  by (subst nat_str.simps) simp

lemma digits_val_append: "digits_val acc (xs @ ys) = digits_val (digits_val acc xs) ys"
  by (induction xs arbitrary: acc) auto

lemma digits_val_nat_str [simp]: "digits_val 0 (nat_str n) = n"
proof (induction n rule: nat_str.induct)
  case (1 n)
  show ?case
  proof (cases "n < 10")
    case True
    then show ?thesis by (subst nat_str.simps) (simp add: code_digit_char)
  next
    case False
    with 1 have "digits_val 0 (nat_str (n div 10)) = n div 10" by simp
    with False show ?thesis
      by (subst nat_str.simps) (simp add: digits_val_append code_digit_char)
  qed
qed

lemma nat_str_inject [simp]: "nat_str m = nat_str n \<longleftrightarrow> m = n"
  by (metis digits_val_nat_str)

section \<open>Numbers and values\<close>

datatype jsnum = NaN | PosInf | NegInf | Fin rat

fun num_lt :: "jsnum \<Rightarrow> jsnum \<Rightarrow> bool" where
  "num_lt NaN _ = False"
| "num_lt _ NaN = False"
| "num_lt (Fin a) (Fin b) = (a < b)"
| "num_lt NegInf NegInf = False"
| "num_lt NegInf _ = True"
| "num_lt _ NegInf = False"
| "num_lt PosInf _ = False"
| "num_lt _ PosInf = True"

definition num_finite :: "jsnum \<Rightarrow> bool" where
  "num_finite x \<longleftrightarrow> (case x of Fin _ \<Rightarrow> True | _ \<Rightarrow> False)"

text \<open>\<open>Number.isSafeInteger\<close> and \<open>Number.isInteger\<close>.\<close>

definition max_safe :: int where
  "max_safe = 9007199254740991"

definition safe_integer :: "jsnum \<Rightarrow> bool" where
  "safe_integer x \<longleftrightarrow>
     (case x of Fin r \<Rightarrow> of_int \<lfloor>r\<rfloor> = r \<and> \<bar>\<lfloor>r\<rfloor>\<bar> \<le> max_safe | _ \<Rightarrow> False)"

definition num_int :: "jsnum \<Rightarrow> int" where
  "num_int x = (case x of Fin r \<Rightarrow> \<lfloor>r\<rfloor> | _ \<Rightarrow> 0)"

abbreviation num_of_int :: "int \<Rightarrow> jsnum" where
  "num_of_int i \<equiv> Fin (of_int i)"

lemma safe_integer_of_int [simp]: "safe_integer (num_of_int i) \<longleftrightarrow> \<bar>i\<bar> \<le> max_safe"
  by (simp add: safe_integer_def)

lemma num_int_of_int [simp]: "num_int (num_of_int i) = i"
  by (simp add: num_int_def)

lemma safe_integerE:
  assumes "safe_integer x"
  obtains i where "x = num_of_int i" and "\<bar>i\<bar> \<le> max_safe"
proof (cases x)
  case (Fin r)
  with assms have "x = num_of_int \<lfloor>r\<rfloor>" and "\<bar>\<lfloor>r\<rfloor>\<bar> \<le> max_safe"
    by (auto simp: safe_integer_def)
  then show thesis by (rule that)
qed (use assms in \<open>auto simp: safe_integer_def\<close>)

datatype js =
    JUndef
  | JNull
  | JBool bool
  | JNum jsnum
  | JStr string
  | JArr "js list"
  | JObj "(string \<times> js) list"

definition isObject :: "js \<Rightarrow> bool" where
  "isObject v \<longleftrightarrow> (case v of JObj _ \<Rightarrow> True | _ \<Rightarrow> False)"

definition isArray :: "js \<Rightarrow> bool" where
  "isArray v \<longleftrightarrow> (case v of JArr _ \<Rightarrow> True | _ \<Rightarrow> False)"

definition isString :: "js \<Rightarrow> bool" where
  "isString v \<longleftrightarrow> (case v of JStr _ \<Rightarrow> True | _ \<Rightarrow> False)"

definition isBool :: "js \<Rightarrow> bool" where
  "isBool v \<longleftrightarrow> (case v of JBool _ \<Rightarrow> True | _ \<Rightarrow> False)"

text \<open>Truthiness, and reading a property: a missing one reads as \<open>undefined\<close>.\<close>

definition truthy :: "js \<Rightarrow> bool" where
  "truthy v \<longleftrightarrow> (case v of
      JUndef \<Rightarrow> False | JNull \<Rightarrow> False | JBool b \<Rightarrow> b
    | JNum x \<Rightarrow> x \<noteq> NaN \<and> x \<noteq> Fin 0
    | JStr s \<Rightarrow> s \<noteq> [] | JArr _ \<Rightarrow> True | JObj _ \<Rightarrow> True)"

definition jget :: "js \<Rightarrow> string \<Rightarrow> js" where
  "jget v k = (case v of
      JObj kvs \<Rightarrow> (case map_of kvs k of Some x \<Rightarrow> x | None \<Rightarrow> JUndef)
    | _ \<Rightarrow> JUndef)"

definition js_items :: "js \<Rightarrow> js list" where
  "js_items v = (case v of JArr xs \<Rightarrow> xs | _ \<Rightarrow> [])"

definition js_str :: "js \<Rightarrow> string" where
  "js_str v = (case v of JStr s \<Rightarrow> s | _ \<Rightarrow> [])"

lemma isObject_JObj [simp]: "isObject (JObj kvs)"
  by (simp add: isObject_def)

lemma isString_JStr [simp]: "isString (JStr s)"
  by (simp add: isString_def)

lemma js_str_JStr [simp]: "js_str (JStr s) = s"
  by (simp add: js_str_def)

lemma isStringE: "isString v \<Longrightarrow> (\<And>s. v = JStr s \<Longrightarrow> thesis) \<Longrightarrow> thesis"
  by (cases v) (auto simp: isString_def)

section \<open>The platform\<close>

text \<open>
  The parts of the host platform that the code calls: \<open>Number.prototype.toString\<close> away from the
  integers, \<open>Number(text)\<close> away from plain decimal digits, the WHATWG URL parser,
  SHA-256 in hexadecimal, \<open>Date\<close> parsing and printing, base64 of \<open>Buffer\<close>, hexadecimal decoding
  of \<open>Buffer\<close>, \<open>encodeURIComponent\<close>/\<open>decodeURIComponent\<close>, and the collation sort key whose
  order \<open>localeCompare\<close> compares by.
\<close>

record url =
  u_protocol :: string
  u_username :: string
  u_password :: string
  u_search :: string
  u_hash :: string

type_synonym bytes = "nat list"

text \<open>\<open>TextEncoder\<close>: a code unit below 128 is one byte, the others are two.\<close>

definition utf8_char :: "char \<Rightarrow> bytes" where
  "utf8_char c = (let n = of_char c in if n < 128 then [n] else [192 + n div 64, 128 + n mod 64])"

definition utf8 :: "string \<Rightarrow> bytes" where
  "utf8 s = concat (map utf8_char s)"

lemma utf8_Nil [simp]: "utf8 [] = []"
  by (simp add: utf8_def)

lemma utf8_Cons: "utf8 (c # cs) = utf8_char c @ utf8 cs"
  by (simp add: utf8_def)

lemma of_char_le: "(of_char c :: nat) \<le> 255"
proof -
  have "(of_char c :: nat) < 256" by simp
  then show ?thesis by linarith
qed

lemma utf8_inject [simp]: "utf8 s = utf8 t \<longleftrightarrow> s = t"
proof (induction s arbitrary: t)
  case Nil
  then show ?case by (cases t) (auto simp: utf8_Cons utf8_char_def Let_def)
next
  case (Cons c cs)
  show ?case
  proof (cases t)
    case Nil
    then show ?thesis by (auto simp: utf8_Cons utf8_char_def Let_def)
  next
    case (Cons d ds)
    have "utf8_char c @ x = utf8_char d @ y \<longleftrightarrow> c = d \<and> x = y" for x y
    proof -
      let ?m = "of_char c :: nat" and ?n = "of_char d :: nat"
      have "?m = ?n \<Longrightarrow> c = d" by simp
      moreover have "?m = ?n" if "?m div 64 = ?n div 64" "?m mod 64 = ?n mod 64"
        using that by (metis mod_mult_div_eq)
      ultimately show ?thesis
        using of_char_le [of c] of_char_le [of d] by (auto simp: utf8_char_def Let_def)
    qed
    with Cons show ?thesis using Cons.IH [of ds] by (auto simp: utf8_Cons)
  qed
qed


record platform =
  pf_num_str :: "jsnum \<Rightarrow> string"
  pf_str_num :: "string \<Rightarrow> jsnum"
  pf_url :: "string \<Rightarrow> url option"
  pf_sha256 :: "bytes \<Rightarrow> string"
  pf_iso :: "int \<Rightarrow> string"
  pf_date :: "string \<Rightarrow> int option"
  pf_b64_enc :: "bytes \<Rightarrow> string"
  pf_b64_dec :: "string \<Rightarrow> bytes"
  pf_hex_dec :: "string \<Rightarrow> bytes"
  pf_uri_enc :: "string \<Rightarrow> string"
  pf_uri_dec :: "string \<Rightarrow> string option"
  pf_collation_key :: "string \<Rightarrow> string"

definition num_str :: "platform \<Rightarrow> jsnum \<Rightarrow> string" where
  "num_str pf x = (case x of
      Fin r \<Rightarrow> if of_int \<lfloor>r\<rfloor> = r \<and> \<bar>\<lfloor>r\<rfloor>\<bar> \<le> max_safe then int_str \<lfloor>r\<rfloor> else pf_num_str pf x
    | NaN \<Rightarrow> ''NaN'' | PosInf \<Rightarrow> ''Infinity'' | NegInf \<Rightarrow> ''-Infinity'')"

text \<open>
  \<open>Number(text)\<close>. A non-empty text of decimal digits denotes its value (a value beyond the safe
  integers may be rounded, but to a number that is not a safe integer either); every other form
  is the platform's.
\<close>

definition str_num :: "platform \<Rightarrow> string \<Rightarrow> jsnum" where
  "str_num pf s =
     (if s \<noteq> [] \<and> list_all is_digit s then num_of_int (int (digits_val 0 s)) else pf_str_num pf s)"

lemma str_num_nat_str [simp]: "str_num pf (nat_str n) = num_of_int (int n)"
  using nat_str_digits [of n] by (simp add: str_num_def list_all_iff)

text \<open>\<open>String(value)\<close>, the conversion regular expressions and template literals apply.\<close>

fun js_to_string :: "platform \<Rightarrow> js \<Rightarrow> string" where
  "js_to_string pf JUndef = ''undefined''"
| "js_to_string pf JNull = ''null''"
| "js_to_string pf (JBool b) = (if b then ''true'' else ''false'')"
| "js_to_string pf (JNum x) = num_str pf x"
| "js_to_string pf (JStr s) = s"
| "js_to_string pf (JArr xs) =
     js_join '','' (map (\<lambda>x. if x = JUndef \<or> x = JNull then [] else js_to_string pf x) xs)"
| "js_to_string pf (JObj _) = ''[object Object]''"

text \<open>\<open>Number(value)\<close>, and number addition.\<close>

definition js_to_number :: "platform \<Rightarrow> js \<Rightarrow> jsnum" where
  "js_to_number pf v = (case v of
      JUndef \<Rightarrow> NaN | JNull \<Rightarrow> Fin 0 | JBool b \<Rightarrow> Fin (if b then 1 else 0) | JNum x \<Rightarrow> x
    | JStr s \<Rightarrow> str_num pf s
    | _ \<Rightarrow> str_num pf (js_to_string pf v))"

fun num_add :: "jsnum \<Rightarrow> jsnum \<Rightarrow> jsnum" where
  "num_add (Fin a) (Fin b) = Fin (a + b)"
| "num_add NaN _ = NaN"
| "num_add _ NaN = NaN"
| "num_add PosInf NegInf = NaN"
| "num_add NegInf PosInf = NaN"
| "num_add PosInf _ = PosInf"
| "num_add _ PosInf = PosInf"
| "num_add NegInf _ = NegInf"
| "num_add _ NegInf = NegInf"

text \<open>\<open>{ ...object, key: value }\<close>: an existing key keeps its place.\<close>

definition js_put :: "string \<Rightarrow> js \<Rightarrow> js \<Rightarrow> js" where
  "js_put k x v = (case v of JObj kvs \<Rightarrow> JObj (AList.update k x kvs) | _ \<Rightarrow> v)"

lemma jget_put [simp]: "isObject v \<Longrightarrow> jget (js_put k x v) l = (if l = k then x else jget v l)"
  by (cases v) (simp_all add: isObject_def js_put_def jget_def update_conv')

lemma isObject_put [simp]: "isObject (js_put k x v) = isObject v"
  by (cases v) (simp_all add: isObject_def js_put_def)

text \<open>A map updated at a key holds the new entry and entries it held before.\<close>

lemma update_subset: "set (AList.update k x kvs) \<subseteq> insert (k, x) (set kvs)"
  by (induction kvs) auto

section \<open>Computations that may throw\<close>

text \<open>
  An asynchronous method is a function from the state to a result and a new state. The result is
  \<open>Inl e\<close> when the method throws \<open>e\<close>; state changes made before the throw stay.
\<close>

type_synonym ('s, 'e, 'a) comp = "'s \<Rightarrow> ('e + 'a) \<times> 's"

definition ret :: "'a \<Rightarrow> ('s, 'e, 'a) comp" where
  "ret x s = (Inr x, s)"

definition throw :: "'e \<Rightarrow> ('s, 'e, 'a) comp" where
  "throw e s = (Inl e, s)"

definition bindE :: "('s, 'e, 'a) comp \<Rightarrow> ('a \<Rightarrow> ('s, 'e, 'b) comp) \<Rightarrow> ('s, 'e, 'b) comp" where
  "bindE m f s = (case m s of (Inl e, s') \<Rightarrow> (Inl e, s') | (Inr x, s') \<Rightarrow> f x s')"

definition thenE :: "('s, 'e, 'a) comp \<Rightarrow> ('s, 'e, 'b) comp \<Rightarrow> ('s, 'e, 'b) comp" where
  "thenE m k = bindE m (\<lambda>_. k)"

definition catchE :: "('s, 'e, 'a) comp \<Rightarrow> ('e \<Rightarrow> ('s, 'e, 'a) comp) \<Rightarrow> ('s, 'e, 'a) comp" where
  "catchE m h s = (case m s of (Inl e, s') \<Rightarrow> h e s' | (Inr x, s') \<Rightarrow> (Inr x, s'))"

definition gets :: "('s \<Rightarrow> 'a) \<Rightarrow> ('s, 'e, 'a) comp" where
  "gets f s = (Inr (f s), s)"

definition modify :: "('s \<Rightarrow> 's) \<Rightarrow> ('s, 'e, unit) comp" where
  "modify f s = (Inr (), f s)"

definition lift_sum :: "'e + 'a \<Rightarrow> ('s, 'e, 'a) comp" where
  "lift_sum r s = (r, s)"

text \<open>A read of the outer world that cannot fail: the clock, an identifier, a random token.\<close>

definition draw :: "('w \<Rightarrow> 'a \<times> 'w) \<Rightarrow> ('w, 'e, 'a) comp" where
  "draw f w = (Inr (fst (f w)), snd (f w))"

text \<open>Sequencing a list of computations, as a \<open>for\<close> loop with \<open>await\<close> in its body does.\<close>

fun seqE :: "('s, 'e, 'a) comp list \<Rightarrow> ('s, 'e, 'a list) comp" where
  "seqE [] = ret []"
| "seqE (m # ms) = bindE m (\<lambda>x. bindE (seqE ms) (\<lambda>xs. ret (x # xs)))"

text \<open>
  The weakest precondition: the computation ends with a value that satisfies \<open>Q\<close> or throws an
  error that satisfies \<open>E\<close>, in the state it then has.
\<close>

definition wp :: "('s, 'e, 'a) comp \<Rightarrow> ('a \<Rightarrow> 's \<Rightarrow> bool) \<Rightarrow> ('e \<Rightarrow> 's \<Rightarrow> bool) \<Rightarrow> 's \<Rightarrow> bool" where
  "wp m Q E s = (case m s of (Inl e, s') \<Rightarrow> E e s' | (Inr x, s') \<Rightarrow> Q x s')"

lemma wp_ret [wp_simps]: "wp (ret x) Q E s = Q x s"
  by (simp add: wp_def ret_def)

lemma wp_throw [wp_simps]: "wp (throw e) Q E s = E e s"
  by (simp add: wp_def throw_def)

lemma wp_gets [wp_simps]: "wp (gets f) Q E s = Q (f s) s"
  by (simp add: wp_def gets_def)

lemma wp_modify [wp_simps]: "wp (modify f) Q E s = Q () (f s)"
  by (simp add: wp_def modify_def)

lemma wp_bindE [wp_simps]: "wp (bindE m f) Q E s = wp m (\<lambda>x. wp (f x) Q E) E s"
  by (auto simp: wp_def bindE_def split: prod.splits sum.splits)

lemma wp_thenE [wp_simps]: "wp (thenE m k) Q E s = wp m (\<lambda>_. wp k Q E) E s"
  by (simp add: thenE_def wp_bindE)

lemma wp_catchE [wp_simps]: "wp (catchE m h) Q E s = wp m Q (\<lambda>e. wp (h e) Q E) s"
  by (auto simp: wp_def catchE_def split: prod.splits sum.splits)

lemma wp_lift_sum [wp_simps]:
  "wp (lift_sum r) Q E s = (case r of Inl e \<Rightarrow> E e s | Inr x \<Rightarrow> Q x s)"
  by (simp add: wp_def lift_sum_def)

lemma wp_draw [wp_simps]: "wp (draw f) Q E w = Q (fst (f w)) (snd (f w))"
  by (simp add: wp_def draw_def)

lemma wp_if [wp_simps]: "wp (if b then m else k) Q E s = (if b then wp m Q E s else wp k Q E s)"
  by simp

lemma wp_mono:
  assumes "wp m Q E s"
    and "\<And>x t. Q x t \<Longrightarrow> Q' x t" and "\<And>e t. E e t \<Longrightarrow> E' e t"
  shows "wp m Q' E' s"
  using assms by (auto simp: wp_def split: prod.splits sum.splits)

lemma wp_conj: "wp m Q E s \<Longrightarrow> wp m Q' E' s \<Longrightarrow>
    wp m (\<lambda>x t. Q x t \<and> Q' x t) (\<lambda>e t. E e t \<and> E' e t) s"
  by (auto simp: wp_def split: prod.splits sum.splits)

lemma wp_InrD: "wp m Q E s \<Longrightarrow> m s = (Inr x, s') \<Longrightarrow> Q x s'"
  by (simp add: wp_def)

lemma wp_InlD: "wp m Q E s \<Longrightarrow> m s = (Inl e, s') \<Longrightarrow> E e s'"
  by (simp add: wp_def)

text \<open>An invariant of a computation holds after it, whether it returns or throws.\<close>

definition keeps :: "('s \<Rightarrow> bool) \<Rightarrow> ('s, 'e, 'a) comp \<Rightarrow> bool" where
  "keeps I m \<longleftrightarrow> (\<forall>s. I s \<longrightarrow> I (snd (m s)))"

lemma wp_state: "wp m (\<lambda>_. I) (\<lambda>_. I) s \<longleftrightarrow> I (snd (m s))"
  by (auto simp: wp_def split: prod.splits sum.splits)

lemma keeps_wp: "keeps I m \<longleftrightarrow> (\<forall>s. I s \<longrightarrow> wp m (\<lambda>_. I) (\<lambda>_. I) s)"
  by (simp add: keeps_def wp_state)

lemma keepsI: "(\<And>s. I s \<Longrightarrow> I (snd (m s))) \<Longrightarrow> keeps I m"
  by (simp add: keeps_def)

lemma keepsD: "keeps I m \<Longrightarrow> I s \<Longrightarrow> I (snd (m s))"
  by (simp add: keeps_def)

lemma keeps_ret [keeps_intros]: "keeps I (ret x)"
  by (simp add: keeps_wp wp_simps)

lemma keeps_throw [keeps_intros]: "keeps I (throw e)"
  by (simp add: keeps_wp wp_simps)

lemma keeps_gets [keeps_intros]: "keeps I (gets f)"
  by (simp add: keeps_wp wp_simps)

lemma keeps_lift_sum [keeps_intros]: "keeps I (lift_sum r)"
  by (simp add: keeps_wp wp_simps split: sum.splits)

lemma keeps_bindE [keeps_intros]: "keeps I m \<Longrightarrow> (\<And>x. keeps I (f x)) \<Longrightarrow> keeps I (bindE m f)"
  by (fastforce simp: keeps_def bindE_def split: prod.splits sum.splits)

lemma keeps_thenE [keeps_intros]: "keeps I m \<Longrightarrow> keeps I k \<Longrightarrow> keeps I (thenE m k)"
  by (simp add: thenE_def keeps_bindE)

lemma keeps_catchE [keeps_intros]: "keeps I m \<Longrightarrow> (\<And>e. keeps I (h e)) \<Longrightarrow> keeps I (catchE m h)"
  by (fastforce simp: keeps_def catchE_def split: prod.splits sum.splits)

lemma keeps_if [keeps_intros]: "(b \<Longrightarrow> keeps I m) \<Longrightarrow> (\<not> b \<Longrightarrow> keeps I k) \<Longrightarrow> keeps I (if b then m else k)"
  by simp

lemma keeps_let [keeps_intros]: "(\<And>x. keeps I (f x)) \<Longrightarrow> keeps I (let x = v in f x)"
  by simp

lemma keeps_option [keeps_intros]:
  "keeps I m \<Longrightarrow> (\<And>x. keeps I (f x)) \<Longrightarrow> keeps I (case v of None \<Rightarrow> m | Some x \<Rightarrow> f x)"
  by (cases v) auto

lemma keeps_prod [keeps_intros]: "(\<And>x y. keeps I (f x y)) \<Longrightarrow> keeps I (case v of (x, y) \<Rightarrow> f x y)"
  by (cases v) auto

lemma keeps_seqE: "(\<And>m. m \<in> set ms \<Longrightarrow> keeps I m) \<Longrightarrow> keeps I (seqE ms)"
  by (induction ms) (auto intro!: keeps_intros)

text \<open>Triples: from a state that satisfies \<open>P\<close>, a return satisfies \<open>Q\<close> and a throw satisfies \<open>E\<close>.\<close>

definition hoare ::
  "('s \<Rightarrow> bool) \<Rightarrow> ('s, 'e, 'a) comp \<Rightarrow> ('a \<Rightarrow> 's \<Rightarrow> bool) \<Rightarrow> ('s \<Rightarrow> bool) \<Rightarrow> bool" where
  "hoare P m Q E \<longleftrightarrow> (\<forall>s. P s \<longrightarrow> wp m Q (\<lambda>_. E) s)"

lemma hoareI: "(\<And>s. P s \<Longrightarrow> wp m Q (\<lambda>_. E) s) \<Longrightarrow> hoare P m Q E"
  by (simp add: hoare_def)

lemma hoareD: "hoare P m Q E \<Longrightarrow> P s \<Longrightarrow> wp m Q (\<lambda>_. E) s"
  by (simp add: hoare_def)

lemma hoare_conseq:
  assumes "hoare P m Q E"
    and "\<And>s. P' s \<Longrightarrow> P s" and "\<And>x s. Q x s \<Longrightarrow> Q' x s" and "\<And>s. E s \<Longrightarrow> E' s"
  shows "hoare P' m Q' E'"
  by (rule hoareI, rule wp_mono [OF hoareD [OF assms(1)]]) (simp_all add: assms)

lemma hoare_bindE:
  assumes "hoare P m R E" and "\<And>x. hoare (R x) (f x) Q E"
  shows "hoare P (bindE m f) Q E"
  by (rule hoareI, unfold wp_bindE, rule wp_mono [OF hoareD [OF assms(1)]]) (auto intro: hoareD [OF assms(2)])

lemma hoare_thenE: "hoare P m (\<lambda>_. R) E \<Longrightarrow> hoare R k Q E \<Longrightarrow> hoare P (thenE m k) Q E"
  by (simp add: thenE_def hoare_bindE)

lemma hoare_catchE:
  assumes "hoare P m Q R" and "\<And>e. hoare R (h e) Q E"
  shows "hoare P (catchE m h) Q E"
  by (rule hoareI, unfold wp_catchE, rule wp_mono [OF hoareD [OF assms(1)]]) (auto intro: hoareD [OF assms(2)])

lemma hoare_ret: "(\<And>s. P s \<Longrightarrow> Q x s) \<Longrightarrow> hoare P (ret x) Q E"
  by (simp add: hoare_def wp_ret)

lemma hoare_throw: "(\<And>s. P s \<Longrightarrow> E s) \<Longrightarrow> hoare P (throw e) Q E"
  by (simp add: hoare_def wp_throw)

lemma hoare_gets: "(\<And>s. P s \<Longrightarrow> Q (f s) s) \<Longrightarrow> hoare P (gets f) Q E"
  by (simp add: hoare_def wp_gets)

lemma hoare_modify: "(\<And>s. P s \<Longrightarrow> Q () (f s)) \<Longrightarrow> hoare P (modify f) Q E"
  by (simp add: hoare_def wp_modify)

lemma hoare_lift_sum:
  "(\<And>x s. r = Inr x \<Longrightarrow> P s \<Longrightarrow> Q x s) \<Longrightarrow> (\<And>e s. r = Inl e \<Longrightarrow> P s \<Longrightarrow> E s) \<Longrightarrow> hoare P (lift_sum r) Q E"
  by (auto simp: hoare_def wp_lift_sum split: sum.splits)

lemma hoare_if: "(b \<Longrightarrow> hoare P m Q E) \<Longrightarrow> (\<not> b \<Longrightarrow> hoare P k Q E) \<Longrightarrow> hoare P (if b then m else k) Q E"
  by simp

lemma hoare_pre: "(\<And>s. P s \<Longrightarrow> hoare (\<lambda>t. t = s) m Q E) \<Longrightarrow> hoare P m Q E"
  by (simp add: hoare_def)

text \<open>
  Whatever the state, a computation stays within \<open>Q\<close> and \<open>E\<close>: what it returns satisfies \<open>Q\<close>, what it
  throws \<open>E\<close>.
\<close>

abbreviation whatever :: "'a \<Rightarrow> bool" where
  "whatever \<equiv> \<lambda>_. True"

definition stays :: "('e \<Rightarrow> bool) \<Rightarrow> ('a \<Rightarrow> bool) \<Rightarrow> ('s, 'e, 'a) comp \<Rightarrow> bool" where
  "stays E Q m \<longleftrightarrow> (\<forall>s. wp m (\<lambda>x _. Q x) (\<lambda>e _. E e) s)"

lemma staysD: "stays E Q m \<Longrightarrow> wp m (\<lambda>x _. Q x) (\<lambda>e _. E e) s"
  by (simp add: stays_def)

lemma stays_ret [stays_intros]: "Q x \<Longrightarrow> stays E Q (ret x)"
  by (simp add: stays_def wp_simps)

lemma stays_throw [stays_intros]: "E e \<Longrightarrow> stays E Q (throw e)"
  by (simp add: stays_def wp_simps)

lemma stays_draw [stays_intros]: "stays E whatever (draw f)"
  by (simp add: stays_def wp_simps)

lemma stays_lift_sum: "(\<And>x. r = Inr x \<Longrightarrow> Q x) \<Longrightarrow> (\<And>e. r = Inl e \<Longrightarrow> E e) \<Longrightarrow> stays E Q (lift_sum r)"
  by (auto simp: stays_def wp_simps split: sum.splits)

lemma stays_bind: "stays E R m \<Longrightarrow> (\<And>x. R x \<Longrightarrow> stays E Q (f x)) \<Longrightarrow> stays E Q (bindE m f)"
  by (simp add: stays_def wp_simps) (blast intro: wp_mono)

lemma stays_bind_any [stays_intros]:
  "stays E whatever m \<Longrightarrow> (\<And>x. stays E Q (f x)) \<Longrightarrow> stays E Q (bindE m f)"
  by (rule stays_bind)

lemma stays_then [stays_intros]: "stays E whatever m \<Longrightarrow> stays E Q k \<Longrightarrow> stays E Q (thenE m k)"
  by (simp add: thenE_def stays_bind)

lemma stays_if [stays_intros]:
  "(b \<Longrightarrow> stays E Q m) \<Longrightarrow> (\<not> b \<Longrightarrow> stays E Q k) \<Longrightarrow> stays E Q (if b then m else k)"
  by simp

lemma stays_option [stays_intros]:
  "(v = None \<Longrightarrow> stays E Q m) \<Longrightarrow> (\<And>x. v = Some x \<Longrightarrow> stays E Q (f x)) \<Longrightarrow>
     stays E Q (case v of None \<Rightarrow> m | Some x \<Rightarrow> f x)"
  by (cases v) simp_all

lemma stays_prod [stays_intros]: "(\<And>x y. stays E Q (f x y)) \<Longrightarrow> stays E Q (case v of (x, y) \<Rightarrow> f x y)"
  by (cases v) simp

lemma stays_let [stays_intros]: "(\<And>x. stays E Q (f x)) \<Longrightarrow> stays E Q (let x = v in f x)"
  by simp

end
