(* ===== verification/Execution_Types.thy ===== *)
theory Execution_Types
  imports Prelude
begin

text \<open>
  The data of the agent-execution contract: \<open>packages/runtime/src/agent-execution.ts\<close>,
  \<open>agent-sandbox.ts\<close>, and the lease, receipt and error types at the head of
  \<open>packages/control-plane/src/execution.ts\<close> (all under \<open>src/mezair-cloud\<close>).

  String-literal unions are datatypes with one constructor per literal and a function that
  gives the literal; object types are records; optional properties are options. An instant that
  the code keeps as an ISO-8601 string made by \<open>toISOString\<close> is the integer number of milliseconds
  it denotes. Values that reach the code as untyped JSON (an execution request, event data,
  metadata) stay \<^typ>\<open>js\<close> values.
\<close>

section \<open>Statuses and event types\<close>

datatype exec_status =
    Queued | Starting | Running | WaitingForApproval | WaitingForInput | Suspended
  | Completed | Failed | Cancelled | Expired

fun exec_status_str :: "exec_status \<Rightarrow> string" where
  "exec_status_str Queued = ''queued''"
| "exec_status_str Starting = ''starting''"
| "exec_status_str Running = ''running''"
| "exec_status_str WaitingForApproval = ''waiting-for-approval''"
| "exec_status_str WaitingForInput = ''waiting-for-input''"
| "exec_status_str Suspended = ''suspended''"
| "exec_status_str Completed = ''completed''"
| "exec_status_str Failed = ''failed''"
| "exec_status_str Cancelled = ''cancelled''"
| "exec_status_str Expired = ''expired''"

datatype sandbox_status =
    SbStarting | SbActive | SbWaitingForApproval | SbSuspended | SbTerminating
  | SbTerminated | SbExpired | SbFailed

fun sandbox_status_str :: "sandbox_status \<Rightarrow> string" where
  "sandbox_status_str SbStarting = ''starting''"
| "sandbox_status_str SbActive = ''active''"
| "sandbox_status_str SbWaitingForApproval = ''waiting-for-approval''"
| "sandbox_status_str SbSuspended = ''suspended''"
| "sandbox_status_str SbTerminating = ''terminating''"
| "sandbox_status_str SbTerminated = ''terminated''"
| "sandbox_status_str SbExpired = ''expired''"
| "sandbox_status_str SbFailed = ''failed''"

datatype event_type =
    ExecutionCreated | ExecutionStarted | ExecutionCompleted | ExecutionFailed
  | ExecutionCancelled | SandboxStarted | SandboxSuspended | SandboxResumed
  | SandboxTerminated | AgentMessage | AgentReasoning | ToolStarted | ToolCompleted
  | CommandStarted | CommandOutput | CommandCompleted | FileChanged | SubagentStarted
  | SubagentCompleted | ApprovalRequested | ApprovalResolved | InputRequested
  | InputSubmitted | ArtifactAvailable | PatchReady | UsageUpdated | Heartbeat
  | ExpiryWarning | CleanupCompleted

datatype result_status = ResCompleted | ResFailed | ResCancelled

fun status_of_result :: "result_status \<Rightarrow> exec_status" where
  "status_of_result ResCompleted = Completed"
| "status_of_result ResFailed = Failed"
| "status_of_result ResCancelled = Cancelled"

section \<open>Sandbox sessions\<close>

record session_image =
  im_arn :: string
  im_version :: "string option"

record session =
  ss_id :: string
  ss_agent :: string
  ss_status :: sandbox_status
  ss_endpointUrl :: "string option"
  ss_provider :: string
  ss_region :: "string option"
  ss_startedAt :: "int option"
  ss_terminatedAt :: "int option"
  ss_expiresAt :: "int option"
  ss_image :: "session_image option"
  ss_metadata :: js

text \<open>
  What \<open>start\<close> receives; \<open>manifest\<close> and \<open>credentialBroker\<close> are parts of the request's JSON and
  \<open>snapshot\<close> is the one workspace field the control plane fills.
\<close>

record sandbox_start_input =
  si_manifest :: js
  si_cell :: js
  si_environment :: js
  si_snapshot :: string
  si_credentialBroker :: js
  si_clientToken :: string

section \<open>Events, handles, results\<close>

record provider_event =
  pe_id :: string
  pe_type :: event_type
  pe_timestamp :: "int option"
  pe_data :: js

record exec_event =
  ev_id :: string
  ev_type :: event_type
  ev_data :: js
  ev_executionId :: string
  ev_sequence :: nat
  ev_cursor :: string
  ev_timestamp :: int

record event_batch =
  eb_events :: "provider_event list"
  eb_cursor :: "string option"
  eb_done :: bool

record handle =
  h_sessionId :: string
  h_runId :: string

record exec_workspace =
  ws_id :: string
  ws_source :: js
  ws_writable :: bool
  ws_metadata :: js

record source_access =
  sa_kind :: string
  sa_endpoint :: string
  sa_grantId :: string
  sa_token :: string
  sa_expiresAt :: string

record exec_start_input =
  xi_executionId :: string
  xi_task :: js
  xi_source :: js
  xi_policy :: js
  xi_modelAuth :: js

datatype artifact_kind = Canvas | Evidence | Log | Patch | Report | TestOutput

datatype artifact_storage = RepositoryStorage | SessionStorage

record artifact =
  ar_id :: string
  ar_name :: string
  ar_kind :: artifact_kind
  ar_storage :: artifact_storage
  ar_sha256 :: string
  ar_sizeBytes :: int
  ar_downloadUrl :: "string option"
  ar_mediaType :: "string option"

record command_evidence =
  ce_command :: string
  ce_exitCode :: "int option"
  ce_durationMs :: "int option"
  ce_outputArtifactId :: "string option"

datatype test_status = Passed | TestFailed | Skipped

record test_evidence =
  te_command :: string
  te_status :: test_status
  te_summary :: "string option"
  te_outputArtifactId :: "string option"

record provider_result =
  pr_status :: result_status
  pr_summary :: string
  pr_changedFiles :: "string list"
  pr_artifacts :: "artifact list"
  pr_commands :: "command_evidence list"
  pr_tests :: "test_evidence list"
  pr_errors :: "(string \<times> string) list"
  pr_evidence :: "(string \<times> string) list"
  pr_usage :: "js option"
  pr_patch :: "artifact option"

section \<open>Providers\<close>

datatype exec_mode = ReadOnly | ReadWrite

datatype model_auth_kind = ControlPlaneAuth | ProviderSubscription

datatype subscription_provider = Codex | Cursor

record capabilities =
  ca_modes :: "exec_mode list"
  ca_modelAuth :: "model_auth_kind list"
  ca_subscriptionProviders :: "subscription_provider list option"
  ca_maxTtlSeconds :: int
  ca_resumableEvents :: bool
  ca_approvals :: bool
  ca_input :: bool
  ca_steering :: bool
  ca_artifacts :: bool
  ca_patches :: bool

record availability =
  av_configured :: bool
  av_reasons :: "string list"

record provider_descriptor =
  pd_id :: string
  pd_capabilities :: capabilities
  pd_availability :: availability

record approval_decision =
  ad_requestId :: js
  ad_decision :: js
  ad_actor :: js
  ad_reason :: js

section \<open>Errors\<close>

datatype cp_code =
    InvalidRequest | IdempotencyConflict | NotFound | ProviderNotFound
  | ProviderUnsupported | InvalidCursor | InvalidState | StartFailed

fun cp_code_str :: "cp_code \<Rightarrow> string" where
  "cp_code_str InvalidRequest = ''EXECUTION_INVALID_REQUEST''"
| "cp_code_str IdempotencyConflict = ''EXECUTION_IDEMPOTENCY_CONFLICT''"
| "cp_code_str NotFound = ''EXECUTION_NOT_FOUND''"
| "cp_code_str ProviderNotFound = ''EXECUTION_PROVIDER_NOT_FOUND''"
| "cp_code_str ProviderUnsupported = ''EXECUTION_PROVIDER_UNSUPPORTED''"
| "cp_code_str InvalidCursor = ''EXECUTION_INVALID_CURSOR''"
| "cp_code_str InvalidState = ''EXECUTION_INVALID_STATE''"
| "cp_code_str StartFailed = ''EXECUTION_START_FAILED''"

datatype snap_code =
    SnapshotInvalid | SnapshotTooLarge | SnapshotNotFound | GrantInvalid | GrantExpired | GrantUsed

fun snap_code_str :: "snap_code \<Rightarrow> string" where
  "snap_code_str SnapshotInvalid = ''EXECUTION_SNAPSHOT_INVALID''"
| "snap_code_str SnapshotTooLarge = ''EXECUTION_SNAPSHOT_TOO_LARGE''"
| "snap_code_str SnapshotNotFound = ''EXECUTION_SNAPSHOT_NOT_FOUND''"
| "snap_code_str GrantInvalid = ''EXECUTION_SNAPSHOT_GRANT_INVALID''"
| "snap_code_str GrantExpired = ''EXECUTION_SNAPSHOT_GRANT_EXPIRED''"
| "snap_code_str GrantUsed = ''EXECUTION_SNAPSHOT_GRANT_USED''"

text \<open>
  What a method can throw: the control plane's own error with its message and details, the
  snapshot store's, or any other value (a provider's error), with its \<open>code\<close> property if it
  has one and its message.
\<close>

datatype exn =
    CPError cp_code string js
  | SnapError snap_code string
  | JsError "string option" string

fun errorCode :: "exn \<Rightarrow> string \<Rightarrow> string" where
  "errorCode (CPError c _ _) fallback = cp_code_str c"
| "errorCode (SnapError c _) fallback = snap_code_str c"
| "errorCode (JsError (Some c) _) fallback = c"
| "errorCode (JsError None _) fallback = fallback"

fun errorMessage :: "exn \<Rightarrow> string" where
  "errorMessage (CPError _ m _) = m"
| "errorMessage (SnapError _ m) = m"
| "errorMessage (JsError _ m) = m"

section \<open>Leases\<close>

datatype receipt_status = Requested | Verified | CleanupFailed

fun receipt_status_str :: "receipt_status \<Rightarrow> string" where
  "receipt_status_str Requested = ''requested''"
| "receipt_status_str Verified = ''verified''"
| "receipt_status_str CleanupFailed = ''failed''"

record receipt =
  rc_executionId :: string
  rc_sandboxId :: string
  rc_provider :: string
  rc_requestedAt :: int
  rc_completedAt :: "int option"
  rc_status :: receipt_status
  rc_finalSandboxStatus :: "sandbox_status option"
  rc_error :: "(string \<times> string) option"

record lease =
  le_schemaVersion :: string
  le_id :: string
  le_status :: exec_status
  le_provider :: string
  le_request :: js
  le_createdAt :: int
  le_updatedAt :: int
  le_expiresAt :: int
  le_sandbox :: "session option"
  le_workspace :: "exec_workspace option"
  le_handle :: "handle option"
  le_providerCursor :: "string option"
  le_seenProviderEventIds :: "string list"
  le_lastEventSequence :: nat
  le_result :: "provider_result option"
  le_cleanup :: "receipt option"
  le_failure :: "(string \<times> string) option"

record cursor_batch =
  cb_executionId :: string
  cb_events :: "exec_event list"
  cb_cursor :: string
  cb_done :: bool

definition isTerminal :: "exec_status \<Rightarrow> bool" where
  "isTerminal st \<longleftrightarrow> st \<in> {Completed, Failed, Cancelled, Expired}"

definition invalidState :: "lease \<Rightarrow> string \<Rightarrow> exn" where
  "invalidState l message =
     CPError InvalidState message
       (JObj [(''executionId'', JStr (le_id l)), (''status'', JStr (exec_status_str (le_status l)))])"

lemma exec_status_str_inject: "exec_status_str a = exec_status_str b \<longleftrightarrow> a = b"
  by (cases a; cases b) simp_all

lemma isTerminal_of_result [simp]: "isTerminal (status_of_result r)"
  by (cases r) (simp_all add: isTerminal_def)

lemma isTerminal_simps [simp]:
  "isTerminal Completed" "isTerminal Failed" "isTerminal Cancelled" "isTerminal Expired"
  "\<not> isTerminal Queued" "\<not> isTerminal Starting" "\<not> isTerminal Running"
  "\<not> isTerminal WaitingForApproval" "\<not> isTerminal WaitingForInput" "\<not> isTerminal Suspended"
  by (simp_all add: isTerminal_def)

end
