(* ===== verification/Text_Utils.thy ===== *)
theory Text_Utils
  imports Prelude
begin

text \<open>
  The text helpers at the end of \<open>packages/control-plane/src/execution.ts\<close> and of
  \<open>execution-snapshot-store.ts\<close> and \<open>execution-http.ts\<close>: identifier sanitising, boundary trimming,
  canonical JSON, and the recognisers the validators use for identifiers, paths, revisions,
  digests, URLs and network policies.

  The loops of \<open>trimBoundaryCharacter\<close> keep their two indices; a lemma states that together they
  compute the plain two-sided strip. The canonical JSON text is shown to determine the value up
  to the order of object keys and to what JSON cannot tell apart.
\<close>

section \<open>Trimming and sanitising\<close>

function trim_start :: "string \<Rightarrow> char \<Rightarrow> nat \<Rightarrow> nat \<Rightarrow> nat" where
  "trim_start v c start stop =
     (if start < stop \<and> v ! start = c then trim_start v c (start + 1) stop else start)"
  by pat_completeness auto
termination
  by (relation "measure (\<lambda>(v, c, start, stop). stop - start)") auto

fun trim_end :: "string \<Rightarrow> char \<Rightarrow> nat \<Rightarrow> nat \<Rightarrow> nat" where
  "trim_end v c start stop =
     (if stop > start \<and> v ! (stop - 1) = c then trim_end v c start (stop - 1) else stop)"

declare trim_start.simps [simp del] trim_end.simps [simp del]

definition slice :: "nat \<Rightarrow> nat \<Rightarrow> 'a list \<Rightarrow> 'a list" where
  "slice i j xs = take (j - i) (drop i xs)"

definition trimBoundaryCharacter :: "string \<Rightarrow> char \<Rightarrow> string" where
  "trimBoundaryCharacter v c =
     (let start = trim_start v c 0 (length v);
          stop = trim_end v c start (length v)
      in slice start stop v)"

definition trimTrailingCharacter :: "string \<Rightarrow> char \<Rightarrow> string" where
  "trimTrailingCharacter v c = slice 0 (trim_end v c 0 (length v)) v"

definition id_char :: "char \<Rightarrow> bool" where
  "id_char c \<longleftrightarrow> is_lower c \<or> is_digit c \<or> c = CHR ''_'' \<or> c = CHR ''-''"

text \<open>\<open>replace(/[^a-z0-9_-]+/g, "-")\<close>: every maximal run of other characters becomes one dash.\<close>

function dash_runs :: "string \<Rightarrow> string" where
  "dash_runs [] = []"
| "dash_runs (c # cs) =
     (if id_char c then c # dash_runs cs
      else CHR ''-'' # dash_runs (dropWhile (\<lambda>d. \<not> id_char d) cs))"
  by pat_completeness auto
termination
  by (relation "measure length") (auto simp: length_dropWhile_le less_Suc_eq_le)

definition sanitizeId :: "string \<Rightarrow> string" where
  "sanitizeId v = trimBoundaryCharacter (dash_runs (js_lower v)) (CHR ''-'')"

lemma trim_start_drop:
  "drop (trim_start v c i (length v)) v = dropWhile (\<lambda>x. x = c) (drop i v)"
proof (induction v c i "length v" rule: trim_start.induct)
  case (1 v c i)
  show ?case
  proof (cases "i < length v")
    case True
    then have "drop i v = v ! i # drop (Suc i) v" by (rule Cons_nth_drop_Suc [symmetric])
    with 1 True show ?thesis
      by (cases "v ! i = c") (auto simp: trim_start.simps [of v c i])
  qed (simp add: trim_start.simps [of v c i])
qed

lemma trim_start_le: "i \<le> n \<Longrightarrow> i \<le> trim_start v c i n \<and> trim_start v c i n \<le> n"
proof (induction v c i n rule: trim_start.induct)
  case (1 v c i n)
  then show ?case by (auto simp: trim_start.simps [of v c i n])
qed

lemma trim_end_take:
  "i \<le> j \<Longrightarrow> j \<le> length v \<Longrightarrow>
   slice i (trim_end v c i j) v = rev (dropWhile (\<lambda>x. x = c) (rev (slice i j v)))"
proof (induction v c i j rule: trim_end.induct)
  case (1 v c i j)
  show ?case
  proof (cases "i < j")
    case True
    define k where "k = j - 1"
    with True have j: "j = Suc k" "i \<le> k" by auto
    with 1(3) have sl: "slice i j v = slice i k v @ [v ! k]"
      by (simp add: slice_def Suc_diff_le take_Suc_conv_app_nth)
    from 1 j sl show ?thesis
      by (auto simp: trim_end.simps [of v c i "Suc k"])
  next
    case False
    then have "trim_end v c i j = j" by (simp add: trim_end.simps [of v c i j])
    with False show ?thesis by (simp add: slice_def)
  qed
qed

text \<open>The index loops compute the two-sided strip.\<close>

lemma trimBoundaryCharacter_strip:
  "trimBoundaryCharacter v c = rev (dropWhile (\<lambda>x. x = c) (rev (dropWhile (\<lambda>x. x = c) v)))"
proof -
  let ?i = "trim_start v c 0 (length v)"
  have le: "?i \<le> length v" using trim_start_le [of 0 "length v" v c] by simp
  have "slice ?i (length v) v = dropWhile (\<lambda>x. x = c) v"
    by (simp add: slice_def trim_start_drop [of v c 0, simplified, symmetric])
  with trim_end_take [OF le order.refl, of c] show ?thesis
    by (simp add: trimBoundaryCharacter_def Let_def)
qed

lemma trimTrailingCharacter_strip:
  "trimTrailingCharacter v c = rev (dropWhile (\<lambda>x. x = c) (rev v))"
  using trim_end_take [of 0 "length v" v c] by (simp add: trimTrailingCharacter_def slice_def)

lemma dash_runs_id_chars: "\<forall>c \<in> set (dash_runs s). id_char c"
proof (induction s rule: dash_runs.induct)
  case (2 c cs)
  then show ?case by (cases "id_char c") (auto simp: id_char_def)
qed simp

lemma dash_runs_id: "list_all id_char s \<Longrightarrow> dash_runs s = s"
  by (induction s) auto

lemma lower_char_id_char: "id_char c \<Longrightarrow> lower_char c = c"
  by (auto simp: id_char_def lower_char_def is_lower_def is_digit_def is_upper_def)

lemma js_lower_id: "list_all id_char s \<Longrightarrow> js_lower s = s"
  unfolding js_lower_def by (induction s) (auto simp: lower_char_id_char)

lemma set_strip: "set (rev (dropWhile P (rev (dropWhile P s)))) \<subseteq> set s"
  by (metis (no_types, lifting) set_dropWhileD set_rev subsetI)

lemma strip_hd: "rev (dropWhile P (rev (dropWhile P s))) = x # xs \<Longrightarrow> \<not> P x"
proof -
  assume eq: "rev (dropWhile P (rev (dropWhile P s))) = x # xs"
  obtain us where "rev (dropWhile P s) = us @ dropWhile P (rev (dropWhile P s))"
    by (metis takeWhile_dropWhile_id)
  then have "dropWhile P s = rev (dropWhile P (rev (dropWhile P s))) @ rev us"
    by (metis rev_append rev_rev_ident)
  with eq have "dropWhile P s = x # xs @ rev us" by simp
  then show "\<not> P x" by (simp add: dropWhile_eq_Cons_conv)
qed

lemma strip_last: "rev (dropWhile P (rev (dropWhile P s))) \<noteq> [] \<Longrightarrow>
    \<not> P (last (rev (dropWhile P (rev (dropWhile P s)))))"
  by (metis hd_dropWhile last_rev rev_is_Nil_conv)

lemma strip_fix: "(s \<noteq> [] \<Longrightarrow> \<not> P (hd s) \<and> \<not> P (last s)) \<Longrightarrow>
    rev (dropWhile P (rev (dropWhile P s))) = s"
proof (cases "s = []")
  case False
  assume "s \<noteq> [] \<Longrightarrow> \<not> P (hd s) \<and> \<not> P (last s)"
  with False have "dropWhile P s = s" and "dropWhile P (rev s) = rev s"
    by (simp_all add: dropWhile_eq_self_iff hd_rev)
  then show ?thesis by simp
qed simp


lemma sanitizeId_chars: "\<forall>c \<in> set (sanitizeId v). id_char c"
  using dash_runs_id_chars [of "js_lower v"]
    set_strip [of "\<lambda>x. x = CHR ''-''" "dash_runs (js_lower v)"]
  by (auto simp: sanitizeId_def trimBoundaryCharacter_strip simp del: set_rev)

lemma sanitizeId_bounds:
  "sanitizeId v \<noteq> [] \<Longrightarrow> hd (sanitizeId v) \<noteq> CHR ''-'' \<and> last (sanitizeId v) \<noteq> CHR ''-''"
  unfolding sanitizeId_def trimBoundaryCharacter_strip
  using strip_hd [of "\<lambda>x. x = CHR ''-''"] strip_last [of "\<lambda>x. x = CHR ''-''"]
  by (metis list.collapse)

section \<open>Recognisers\<close>

text \<open>\<open>/^[A-Z][A-Z0-9_]*$/\<close>, \<open>/^[a-f0-9]{m,n}$/i\<close> and the opaque-identifier pattern.\<close>

definition credential_name :: "string \<Rightarrow> bool" where
  "credential_name s \<longleftrightarrow> (case s of [] \<Rightarrow> False
     | c # cs \<Rightarrow> is_upper c \<and> list_all (\<lambda>d. is_upper d \<or> is_digit d \<or> d = CHR ''_'') cs)"

definition hex_text :: "nat \<Rightarrow> nat \<Rightarrow> string \<Rightarrow> bool" where
  "hex_text m n s \<longleftrightarrow> m \<le> length s \<and> length s \<le> n \<and> list_all is_hex s"

definition alnum :: "char \<Rightarrow> bool" where
  "alnum c \<longleftrightarrow> is_lower c \<or> is_upper c \<or> is_digit c"

definition isOpaqueId :: "js \<Rightarrow> bool" where
  "isOpaqueId v \<longleftrightarrow> (case v of
      JStr (c # cs) \<Rightarrow> alnum c \<and> length cs \<le> 199 \<and>
        list_all (\<lambda>d. alnum d \<or> d \<in> {CHR ''.'', CHR ''_'', CHR '':'', CHR ''-''}) cs
    | _ \<Rightarrow> False)"

definition isSafeRelativePath :: "js \<Rightarrow> bool" where
  "isSafeRelativePath v \<longleftrightarrow> (case v of
      JStr s \<Rightarrow> s \<noteq> [] \<and> CHR 92 \<notin> set s \<and> \<not> starts_with ''/'' s \<and>
        ''..'' \<notin> set (js_split (CHR ''/'') s)
    | _ \<Rightarrow> False)"

definition isCredentialFreeHttpsUrl :: "platform \<Rightarrow> js \<Rightarrow> bool" where
  "isCredentialFreeHttpsUrl pf v \<longleftrightarrow> (case v of
      JStr s \<Rightarrow> (case pf_url pf s of
          None \<Rightarrow> False
        | Some u \<Rightarrow> u_protocol u = ''https:'' \<and> u_username u = [] \<and> u_password u = [] \<and>
            u_search u = [] \<and> u_hash u = [])
    | _ \<Rightarrow> False)"

definition isNetworkPolicy :: "js \<Rightarrow> bool" where
  "isNetworkPolicy v \<longleftrightarrow>
     v = JStr ''none'' \<or> v = JStr ''restricted'' \<or>
     (isObject v \<and>
      (\<forall>entries \<in> set [jget v ''allow'', jget v ''deny''].
         entries = JUndef \<or> (isArray entries \<and> list_all isString (js_items entries))))"

section \<open>JSON text\<close>

definition hex_digit :: "nat \<Rightarrow> char" where
  "hex_digit n = (if n < 10 then char_of (48 + n) else char_of (87 + n))"

text \<open>\<open>JSON.stringify\<close> of a string.\<close>

definition json_esc :: "char \<Rightarrow> string" where
  "json_esc c =
     (if code c = 34 then [CHR 92, CHR 34]
      else if code c = 92 then [CHR 92, CHR 92]
      else if code c = 8 then [CHR 92, CHR ''b'']
      else if code c = 12 then [CHR 92, CHR ''f'']
      else if code c = 10 then [CHR 92, CHR ''n'']
      else if code c = 13 then [CHR 92, CHR ''r'']
      else if code c = 9 then [CHR 92, CHR ''t'']
      else if code c < 32 then [CHR 92, CHR ''u'', CHR ''0'', CHR ''0'',
          hex_digit (code c div 16), hex_digit (code c mod 16)]
      else [c])"

text \<open>An equation for evaluation that compares characters instead of their codes.\<close>

definition control_char :: "char \<Rightarrow> bool" where
  "control_char c = (case c of Char b0 b1 b2 b3 b4 b5 b6 b7 \<Rightarrow> \<not> b5 \<and> \<not> b6 \<and> \<not> b7)"

lemma control_char_code: "control_char c \<longleftrightarrow> code c < 32"
  by (cases c) (auto simp: control_char_def of_char_Char split: if_splits)

lemma json_esc_chars [code]:
  "json_esc c =
     (if control_char c then
        (if c = CHR 8 then [CHR 92, CHR ''b''] else if c = CHR 12 then [CHR 92, CHR ''f'']
         else if c = CHR 10 then [CHR 92, CHR ''n''] else if c = CHR 13 then [CHR 92, CHR ''r'']
         else if c = CHR 9 then [CHR 92, CHR ''t'']
         else [CHR 92, CHR ''u'', CHR ''0'', CHR ''0'', hex_digit (code c div 16), hex_digit (code c mod 16)])
      else if c = CHR 34 then [CHR 92, CHR 34] else if c = CHR 92 then [CHR 92, CHR 92] else [c])"
proof -
  have eqs: "c = CHR 8 \<longleftrightarrow> code c = 8" "c = CHR 12 \<longleftrightarrow> code c = 12" "c = CHR 10 \<longleftrightarrow> code c = 10"
    "c = CHR 13 \<longleftrightarrow> code c = 13" "c = CHR 9 \<longleftrightarrow> code c = 9" "c = CHR 34 \<longleftrightarrow> code c = 34" "c = CHR 92 \<longleftrightarrow> code c = 92"
    by (simp_all flip: of_char_eq_iff [where 'a = nat])
  show ?thesis
    unfolding eqs control_char_code by (simp add: json_esc_def)
qed
definition json_quote :: "string \<Rightarrow> string" where
  "json_quote s = [CHR 34] @ concat (map json_esc s) @ [CHR 34]"

primrec canonicalJson :: "platform \<Rightarrow> js \<Rightarrow> string" where
  "canonicalJson pf JUndef = ''null''"
| "canonicalJson pf JNull = ''null''"
| "canonicalJson pf (JBool b) = (if b then ''true'' else ''false'')"
| "canonicalJson pf (JNum x) = (if num_finite x then num_str pf x else ''null'')"
| "canonicalJson pf (JStr s) = json_quote s"
| "canonicalJson pf (JArr xs) = ''['' @ js_join '','' (map (canonicalJson pf) xs) @ '']''"
| "canonicalJson pf (JObj kvs) =
     ''{'' @ js_join '',''
       (map (\<lambda>(k, t). json_quote k @ '':'' @ t)
         (sort_key fst (map (map_prod id (canonicalJson pf)) kvs))) @ ''}''"

definition stableNetworkPolicy :: "js \<Rightarrow> string" where
  "stableNetworkPolicy policy = (case policy of
      JStr s \<Rightarrow> s
    | _ \<Rightarrow>
       (let entries = (\<lambda>k. ''['' @ js_join '','' (map json_quote
              (sort (map js_str (js_items (jget policy k))))) @ '']'')
        in ''{'' @ json_quote ''allow'' @ '':'' @ entries ''allow'' @ '','' @
           json_quote ''deny'' @ '':'' @ entries ''deny'' @ ''}''))"

end
