(* ===== verification/Execution_Validation.thy ===== *)
theory Execution_Validation
  imports Execution_Types Text_Utils
begin

text \<open>
  \<open>validateExecutionRequest\<close> of \<open>packages/control-plane/src/execution.ts\<close> and the accessors through
  which the control plane reads a request. A request is untyped JSON: a \<^typ>\<open>js\<close> value read with
  \<^const>\<open>jget\<close>. The checks are grouped as the code orders them, each group the list of the messages
  it pushes; the request is accepted when all groups are empty. The section on soundness says what
  acceptance means: the \<open>valid_request\<close> record of bounds the rest of the system relies on.
\<close>

section \<open>Reading a request\<close>

definition rq_policy :: "js \<Rightarrow> js" where "rq_policy r = jget r ''policy''"
definition rq_source :: "js \<Rightarrow> js" where "rq_source r = jget r ''source''"
definition rq_selection :: "js \<Rightarrow> js" where "rq_selection r = jget (rq_source r) ''selection''"
definition rq_agent :: "js \<Rightarrow> js" where "rq_agent r = jget r ''agent''"
definition rq_capabilities :: "js \<Rightarrow> js" where
  "rq_capabilities r = jget (rq_agent r) ''capabilities''"
definition rq_preference :: "js \<Rightarrow> js" where "rq_preference r = jget r ''providerPreference''"
definition rq_modelAuth :: "js \<Rightarrow> js" where "rq_modelAuth r = jget r ''modelAuth''"
definition rq_clientToken :: "js \<Rightarrow> js" where "rq_clientToken r = jget r ''clientToken''"

definition js_num :: "js \<Rightarrow> jsnum" where
  "js_num v = (case v of JNum x \<Rightarrow> x | _ \<Rightarrow> NaN)"

definition isNum :: "js \<Rightarrow> bool" where
  "isNum v \<longleftrightarrow> (case v of JNum _ \<Rightarrow> True | _ \<Rightarrow> False)"

text \<open>\<open>Number.isSafeInteger\<close> of any value: false on what is not a number.\<close>

definition js_safe_integer :: "js \<Rightarrow> bool" where
  "js_safe_integer v \<longleftrightarrow> safe_integer (js_num v)"

definition js_int :: "js \<Rightarrow> int" where
  "js_int v = num_int (js_num v)"

text \<open>The budgets of a policy; exact on the requests the validator accepts.\<close>

definition rq_ttlSeconds :: "js \<Rightarrow> int" where
  "rq_ttlSeconds r = js_int (jget (rq_policy r) ''ttlSeconds'')"

definition rq_maxEvents :: "js \<Rightarrow> int option" where
  "rq_maxEvents r = (let v = jget (rq_policy r) ''maxEvents'' in if v = JUndef then None else Some (js_int v))"

definition rq_maxCostUsd :: "js \<Rightarrow> jsnum option" where
  "rq_maxCostUsd r = (let v = jget (rq_policy r) ''maxCostUsd'' in if v = JUndef then None else Some (js_num v))"

section \<open>The checks\<close>

definition check :: "bool \<Rightarrow> string \<Rightarrow> string list" where
  "check bad message = (if bad then [message] else [])"

text \<open>\<open>typeof v !== "string" || v.trim().length === 0 || v.length > n\<close>\<close>

definition bad_text :: "nat \<Rightarrow> js \<Rightarrow> bool" where
  "bad_text n v \<longleftrightarrow> (case v of JStr s \<Rightarrow> js_trim s = [] \<or> length s > n | _ \<Rightarrow> True)"

definition request_shape_ok :: "js \<Rightarrow> bool" where
  "request_shape_ok r \<longleftrightarrow>
     isObject r \<and> isObject (rq_policy r) \<and> isObject (rq_agent r) \<and> isObject (rq_capabilities r) \<and>
     isObject (rq_source r) \<and> isObject (rq_selection r) \<and>
     isArray (jget (rq_selection r) ''excluded'') \<and>
     isObject (rq_preference r) \<and> isObject (rq_modelAuth r)"

definition identity_errors :: "js \<Rightarrow> string list" where
  "identity_errors r =
     check (jget r ''schemaVersion'' \<noteq> JStr ''0.1'') ''schemaVersion must be 0.1'' @
     check (bad_text 200 (jget r ''clientToken''))
       ''clientToken must contain between 1 and 200 characters'' @
     check (bad_text 200 (jget r ''cell'')) ''cell must contain between 1 and 200 characters'' @
     check (bad_text 200 (jget r ''workspace''))
       ''workspace must contain between 1 and 200 characters'' @
     check (bad_text 200 (jget r ''environment''))
       ''environment must contain between 1 and 200 characters'' @
     check (bad_text 100000 (jget r ''task''))
       ''task must contain between 1 and 100000 characters'' @
     check (bad_text 200 (jget (rq_agent r) ''name''))
       ''agent manifest name must contain between 1 and 200 characters''"

definition policy_errors :: "js \<Rightarrow> string list" where
  "policy_errors r =
     (let p = rq_policy r; filesystem = jget (rq_capabilities r) ''filesystem'';
          mode = jget p ''mode''; ttl = jget p ''ttlSeconds''; maxEvents = jget p ''maxEvents'';
          maxCost = jget p ''maxCostUsd'' in
     check (filesystem \<notin> {JStr ''none'', JStr ''read'', JStr ''read-write''})
       ''agent manifest filesystem capability is invalid'' @
     check (mode \<noteq> JStr ''read-only'' \<and> mode \<noteq> JStr ''read-write'')
       ''mode must be read-only or read-write'' @
     check (\<not> js_safe_integer ttl \<or> js_int ttl < 60 \<or> js_int ttl > 28800)
       ''ttlSeconds must be between 60 and 28800'' @
     check (maxEvents \<noteq> JUndef \<and>
         (\<not> js_safe_integer maxEvents \<or> js_int maxEvents < 1 \<or> js_int maxEvents > 100000))
       ''maxEvents must be an integer between 1 and 100000'' @
     check (maxCost \<noteq> JUndef \<and> (\<not> num_finite (js_num maxCost) \<or> \<not> num_lt (Fin 0) (js_num maxCost)))
       ''maxCostUsd must be a positive number'' @
     check (\<not> isBool (jget p ''requireApprovalForExternalActions''))
       ''requireApprovalForExternalActions must be a boolean'' @
     check (mode = JStr ''read-write'' \<and> filesystem \<noteq> JStr ''read-write'')
       ''read-write execution requires agent filesystem read-write capability'')"

definition network_errors :: "js \<Rightarrow> string list" where
  "network_errors r =
     (let policyNetwork = jget (rq_policy r) ''network'';
          manifestNetwork = jget (rq_capabilities r) ''network'';
          policyNetworkValid = isNetworkPolicy policyNetwork;
          manifestNetworkValid = isNetworkPolicy manifestNetwork in
     check (\<not> policyNetworkValid) ''execution network policy is invalid'' @
     check (\<not> manifestNetworkValid) ''agent manifest network capability is invalid'' @
     check (policyNetworkValid \<and> manifestNetworkValid \<and>
         stableNetworkPolicy policyNetwork \<noteq> stableNetworkPolicy manifestNetwork)
       ''execution network policy must match the agent manifest'')"

definition modelAuth_errors :: "js \<Rightarrow> string list" where
  "modelAuth_errors r =
     (let a = rq_modelAuth r; kind = jget a ''kind'' in
     if kind = JStr ''control-plane'' then
       (let credential = jget a ''credential'' in
        check (\<not> isString credential \<or> length (js_str credential) > 200 \<or>
            \<not> credential_name (js_str credential))
          ''modelAuth credential must be a control-plane credential name'')
     else if kind = JStr ''provider-subscription'' then
       check ((jget a ''provider'' \<noteq> JStr ''codex'' \<and> jget a ''provider'' \<noteq> JStr ''cursor'') \<or>
           jget a ''persistence'' \<noteq> JStr ''sandbox-session'')
         ''provider subscription auth must use codex or cursor with sandbox-session persistence''
     else [''modelAuth kind must be control-plane or provider-subscription''])"

definition preference_errors :: "js \<Rightarrow> string list" where
  "preference_errors r =
     (let p = rq_preference r; kind = jget p ''kind'' in
     if kind \<noteq> JStr ''auto'' \<and> kind \<noteq> JStr ''provider'' then
       [''providerPreference kind must be auto or provider'']
     else check (kind = JStr ''provider'' \<and> bad_text 200 (jget p ''provider''))
       ''providerPreference provider must not be empty'')"

definition requiredExclusions :: "string list" where
  "requiredExclusions =
     [''git-metadata'', ''ignored-files'', ''secret-files'', ''unrelated-untracked-files'']"

definition selection_errors :: "js \<Rightarrow> string list" where
  "selection_errors r =
     (let excluded = js_items (jget (rq_selection r) ''excluded'') in
     concat (map (\<lambda>required. check (JStr required \<notin> set excluded)
       (''source selection must exclude '' @ required)) requiredExclusions) @
     check (\<exists>entry \<in> set excluded. entry \<notin> set (map JStr requiredExclusions))
       ''source selection contains an unknown exclusion'' @
     check (\<not> isBool (jget (rq_selection r) ''includesWorkingTreePatch''))
       ''source selection working-tree patch flag must be a boolean'')"

definition git_errors :: "platform \<Rightarrow> js \<Rightarrow> string list" where
  "git_errors pf r =
     (let src = rq_source r; subdirectory = jget src ''subdirectory'' in
     check (\<not> isCredentialFreeHttpsUrl pf (jget src ''repository''))
       ''git source must use a credential-free HTTPS repository URL'' @
     check (\<not> hex_text 7 64 (js_to_string pf (jget src ''commit'')))
       ''git source commit must be an immutable hexadecimal revision'' @
     check (truthy (jget (rq_selection r) ''includesWorkingTreePatch''))
       ''git source cannot include a working-tree patch'' @
     check (subdirectory \<noteq> JUndef \<and> \<not> isSafeRelativePath subdirectory)
       ''git source subdirectory must be a safe relative path'')"

text \<open>\<open>!Number.isSafeInteger(v) || v <= 0\<close>\<close>

definition bad_size :: "js \<Rightarrow> bool" where
  "bad_size v \<longleftrightarrow> \<not> js_safe_integer v \<or> js_int v \<le> 0"

definition patch_errors :: "platform \<Rightarrow> js \<Rightarrow> string list" where
  "patch_errors pf p =
     (if truthy p then
       check (\<not> isOpaqueId (jget p ''artifactId''))
         ''snapshot patch artifactId must be an opaque identifier'' @
       check (\<not> hex_text 64 64 (js_to_string pf (jget p ''sha256'')))
         ''snapshot patch sha256 must contain 64 hexadecimal characters'' @
       check (bad_size (jget p ''sizeBytes'')) ''snapshot patch sizeBytes must be a positive integer''
      else [])"

definition snapshot_errors :: "platform \<Rightarrow> js \<Rightarrow> string list" where
  "snapshot_errors pf r =
     (let src = rq_source r; repository = jget src ''repository'' in
     check (\<not> isOpaqueId (jget src ''snapshotId'')) ''snapshotId must be an opaque identifier'' @
     check (\<not> hex_text 64 64 (js_to_string pf (jget src ''sha256'')))
       ''snapshot sha256 must contain 64 hexadecimal characters'' @
     check (bad_size (jget src ''sizeBytes'')) ''snapshot sizeBytes must be a positive integer'' @
     check (\<not> hex_text 7 64 (js_to_string pf (jget src ''baseCommit'')))
       ''snapshot baseCommit must be a hexadecimal revision'' @
     check (repository \<noteq> JUndef \<and> \<not> isCredentialFreeHttpsUrl pf repository)
       ''snapshot repository must use a credential-free HTTPS repository URL'' @
     check (jget (rq_selection r) ''includesWorkingTreePatch'' \<noteq> JBool (jget src ''patch'' \<noteq> JUndef))
       ''snapshot working-tree patch flag must match the patch reference'' @
     patch_errors pf (jget src ''patch''))"

definition source_errors :: "platform \<Rightarrow> js \<Rightarrow> string list" where
  "source_errors pf r =
     (let kind = jget (rq_source r) ''kind'' in
     if kind = JStr ''git'' then git_errors pf r
     else if kind = JStr ''snapshot'' then snapshot_errors pf r
     else [''source kind must be git or snapshot''])"

definition request_errors :: "platform \<Rightarrow> js \<Rightarrow> string list" where
  "request_errors pf r =
     identity_errors r @ policy_errors r @ network_errors r @ modelAuth_errors r @
     preference_errors r @ selection_errors r @ source_errors pf r"

definition validateExecutionRequest :: "platform \<Rightarrow> js \<Rightarrow> exn + unit" where
  "validateExecutionRequest pf r =
     (if \<not> request_shape_ok r then
        Inl (CPError InvalidRequest
          ''Invalid execution request: request, policy, agent, source, source selection, providerPreference, and modelAuth must use the execution schema.''
          (JObj []))
      else if request_errors pf r \<noteq> [] then
        Inl (CPError InvalidRequest
          (''Invalid execution request: '' @ js_join ''; '' (request_errors pf r) @ ''.'')
          (JObj [(''errors'', JArr (map JStr (request_errors pf r)))]))
      else Inr ())"

definition sourceIdentity :: "platform \<Rightarrow> js \<Rightarrow> string" where
  "sourceIdentity pf r =
     (if jget (rq_source r) ''kind'' = JStr ''snapshot''
      then js_to_string pf (jget (rq_source r) ''snapshotId'')
      else js_to_string pf (jget (rq_source r) ''repository'') @ ''#'' @
        js_to_string pf (jget (rq_source r) ''commit''))"

text \<open>The checks \<open>resolveApproval\<close>, \<open>submitInput\<close> and \<open>steer\<close> make on their arguments.\<close>

definition bad_id :: "js \<Rightarrow> bool" where
  "bad_id v \<longleftrightarrow> bad_text 200 v"

definition bad_decision :: "js \<Rightarrow> bool" where
  "bad_decision d \<longleftrightarrow>
     \<not> isObject d \<or> bad_id (jget d ''requestId'') \<or>
     (jget d ''decision'' \<noteq> JStr ''approved'' \<and> jget d ''decision'' \<noteq> JStr ''rejected'') \<or>
     bad_id (jget d ''actor'') \<or>
     (jget d ''reason'' \<noteq> JUndef \<and>
       (\<not> isString (jget d ''reason'') \<or> length (js_str (jget d ''reason'')) > 2000))"

definition bad_input :: "js \<Rightarrow> bool" where
  "bad_input i \<longleftrightarrow> \<not> isObject i \<or> bad_id (jget i ''requestId'') \<or> \<not> isObject (jget i ''values'')"

definition bad_steer :: "js \<Rightarrow> bool" where
  "bad_steer m \<longleftrightarrow> bad_text 20000 m"

section \<open>Soundness\<close>

text \<open>What the rest of the system may rely on once a request has been accepted.\<close>

definition valid_request :: "platform \<Rightarrow> js \<Rightarrow> bool" where
  "valid_request pf r \<longleftrightarrow> validateExecutionRequest pf r = Inr ()"

lemma check_Nil [simp]: "check b m = [] \<longleftrightarrow> \<not> b"
  by (simp add: check_def)

lemma valid_requestD:
  assumes "valid_request pf r"
  shows "request_shape_ok r" and "identity_errors r = []" and "policy_errors r = []"
    and "network_errors r = []" and "modelAuth_errors r = []" and "preference_errors r = []"
    and "selection_errors r = []" and "source_errors pf r = []"
  using assms
  by (auto simp: valid_request_def validateExecutionRequest_def request_errors_def split: if_splits)

lemma js_safe_integerE:
  assumes "js_safe_integer v"
  obtains i where "v = JNum (num_of_int i)" and "\<bar>i\<bar> \<le> max_safe"
proof -
  obtain x where "v = JNum x" and "safe_integer x"
    using assms by (cases v) (auto simp: js_safe_integer_def js_num_def safe_integer_def)
  then show thesis using that by (auto elim: safe_integerE)
qed

lemma bad_text_JStr: "\<not> bad_text n v \<Longrightarrow> \<exists>s. v = JStr s \<and> s \<noteq> [] \<and> length s \<le> n"
  by (auto simp: bad_text_def js_trim_def split: js.splits)

lemma valid_ttl:
  assumes "valid_request pf r"
  shows "60 \<le> rq_ttlSeconds r" and "rq_ttlSeconds r \<le> 28800"
  using valid_requestD(3) [OF assms] by (auto simp: policy_errors_def rq_ttlSeconds_def Let_def)

lemma valid_maxEvents:
  assumes "valid_request pf r" and "rq_maxEvents r = Some n"
  shows "1 \<le> n" and "n \<le> 100000"
  using valid_requestD(3) [OF assms(1)] assms(2)
  by (auto simp: policy_errors_def rq_maxEvents_def Let_def split: if_splits)

lemma valid_clientToken:
  assumes "valid_request pf r"
  shows "\<exists>s. rq_clientToken r = JStr s \<and> s \<noteq> [] \<and> length s \<le> 200"
  using valid_requestD(2) [OF assms]
  by (auto simp: identity_errors_def rq_clientToken_def intro: bad_text_JStr)

end
