(* ===== verification/Execution_Store.thy ===== *)
theory Execution_Store
  imports Execution_Types Execution_Validation
begin

text \<open>
  \<open>packages/control-plane/src/execution-store.ts\<close>: the store interface \<open>AgentExecutionStore\<close> as a
  locale, its two implementations and the facts the control plane needs about event logs.

  \<open>leases\<close> and \<open>events\<close> are JavaScript objects, so association lists in insertion order. The clones
  the code makes on every read and write are what makes these operations functions on values:
  no caller shares a lease or an event with the store. The file store holds what its JSON file
  holds: nothing yet, a text that does not parse to a store state, or a state.
\<close>

section \<open>The in-memory store\<close>

record exec_store =
  leases :: "(string \<times> lease) list"
  events :: "(string \<times> exec_event list) list"

definition emptyState :: exec_store where
  "emptyState = \<lparr>leases = [], events = []\<rparr>"

definition store_get :: "string \<Rightarrow> exec_store \<Rightarrow> lease option" where
  "store_get executionId st = map_of (leases st) executionId"

definition store_findByClientToken :: "js \<Rightarrow> exec_store \<Rightarrow> lease option" where
  "store_findByClientToken clientToken st =
     find (\<lambda>l. rq_clientToken (le_request l) = clientToken) (map snd (leases st))"

text \<open>Newest first; leases created at the same instant keep their insertion order.\<close>

definition store_list :: "exec_store \<Rightarrow> lease list" where
  "store_list st = sort_key (\<lambda>l. - le_createdAt l) (map snd (leases st))"

definition store_put :: "lease \<Rightarrow> exec_store \<Rightarrow> exec_store" where
  "store_put l st = st\<lparr>leases := AList.update (le_id l) l (leases st)\<rparr>"

definition events_of :: "string \<Rightarrow> exec_store \<Rightarrow> exec_event list" where
  "events_of executionId st =
     (case map_of (events st) executionId of Some es \<Rightarrow> es | None \<Rightarrow> [])"

definition store_appendEvents :: "string \<Rightarrow> exec_event list \<Rightarrow> exec_store \<Rightarrow> exec_store" where
  "store_appendEvents executionId es st =
     st\<lparr>events := AList.update executionId (events_of executionId st @ es) (events st)\<rparr>"

definition store_events :: "string \<Rightarrow> nat \<Rightarrow> exec_store \<Rightarrow> exec_event list" where
  "store_events executionId afterSequence st =
     filter (\<lambda>e. ev_sequence e > afterSequence) (events_of executionId st)"

lemma store_get_put [simp]:
  "store_get i (store_put l st) = (if i = le_id l then Some l else store_get i st)"
  by (simp add: store_get_def store_put_def update_conv')

lemma store_get_append [simp]: "store_get i (store_appendEvents j es st) = store_get i st"
  by (simp add: store_get_def store_appendEvents_def)

lemma events_of_put [simp]: "events_of i (store_put l st) = events_of i st"
  by (simp add: events_of_def store_put_def)

lemma events_of_append [simp]:
  "events_of i (store_appendEvents j es st) = (if i = j then events_of j st @ es else events_of i st)"
  by (simp add: events_of_def store_appendEvents_def update_conv')

lemma distinct_leases_put: "distinct (map fst (leases st)) \<Longrightarrow>
    distinct (map fst (leases (store_put l st)))"
  by (simp add: store_put_def distinct_update)

lemma store_list_set: "set (store_list st) = snd ` set (leases st)"
  by (simp add: store_list_def)

lemma store_list_get: "distinct (map fst (leases st)) \<Longrightarrow>
    l \<in> set (store_list st) \<Longrightarrow> \<exists>i. store_get i st = Some l"
  by (auto simp: store_list_set store_get_def)

lemma store_get_list: "store_get i st = Some l \<Longrightarrow> l \<in> set (store_list st)"
  by (force simp: store_list_set store_get_def dest: map_of_SomeD)

lemma store_find_Some:
  "store_findByClientToken tok st = Some l \<Longrightarrow> l \<in> set (store_list st) \<and> rq_clientToken (le_request l) = tok"
  by (auto simp: store_findByClientToken_def store_list_def find_Some_iff)

lemma store_find_None:
  "store_findByClientToken tok st = None \<Longrightarrow> store_get i st = Some l \<Longrightarrow> rq_clientToken (le_request l) \<noteq> tok"
  by (force simp: store_findByClientToken_def store_get_def find_None_iff dest: map_of_SomeD)

section \<open>The file store\<close>

datatype json_file = Missing | Unparsed string | Holds exec_store

definition file_read :: "json_file \<Rightarrow> exn + exec_store" where
  "file_read f = (case f of
      Missing \<Rightarrow> Inr emptyState
    | Unparsed message \<Rightarrow> Inl (JsError None message)
    | Holds st \<Rightarrow> Inr st)"

definition file_write :: "exec_store \<Rightarrow> json_file \<Rightarrow> json_file" where
  "file_write st f = Holds st"

text \<open>\<open>withStateMutation\<close>: read, change, write; a failed read leaves the file as it was.\<close>

definition file_mutate :: "(exec_store \<Rightarrow> exec_store) \<Rightarrow> json_file \<Rightarrow> (exn + unit) \<times> json_file" where
  "file_mutate change f = (case file_read f of
      Inl e \<Rightarrow> (Inl e, f)
    | Inr st \<Rightarrow> (Inr (), file_write (change st) f))"

definition file_get :: "string \<Rightarrow> json_file \<Rightarrow> exn + lease option" where
  "file_get executionId f = map_sum id (store_get executionId) (file_read f)"

definition file_findByClientToken :: "js \<Rightarrow> json_file \<Rightarrow> exn + lease option" where
  "file_findByClientToken tok f = map_sum id (store_findByClientToken tok) (file_read f)"

definition file_list :: "json_file \<Rightarrow> exn + lease list" where
  "file_list f = map_sum id store_list (file_read f)"

definition file_put :: "lease \<Rightarrow> json_file \<Rightarrow> (exn + unit) \<times> json_file" where
  "file_put l = file_mutate (store_put l)"

definition file_appendEvents :: "string \<Rightarrow> exec_event list \<Rightarrow> json_file \<Rightarrow> (exn + unit) \<times> json_file" where
  "file_appendEvents executionId es = file_mutate (store_appendEvents executionId es)"

definition file_events :: "string \<Rightarrow> nat \<Rightarrow> json_file \<Rightarrow> exn + exec_event list" where
  "file_events executionId afterSequence f =
     map_sum id (store_events executionId afterSequence) (file_read f)"

text \<open>The store state a readable file stands for.\<close>

definition file_abs :: "json_file \<Rightarrow> exec_store option" where
  "file_abs f = (case file_read f of Inl _ \<Rightarrow> None | Inr st \<Rightarrow> Some st)"

section \<open>The interface\<close>

text \<open>
  \<open>sequenced lg\<close>: the lg numbers its events 1, 2, 3, \dots. The locale states what the control
  plane relies on of a store; inside it, reading after a sequence number is dropping a prefix.
\<close>

definition sequenced :: "exec_event list \<Rightarrow> bool" where
  "sequenced lg \<longleftrightarrow> map ev_sequence lg = [1..<Suc (length lg)]"

lemma sequenced_Nil [simp]: "sequenced []"
  by (simp add: sequenced_def)

lemma sequenced_append:
  "sequenced lg \<Longrightarrow> map ev_sequence es = [Suc (length lg)..<Suc (length lg + length es)] \<Longrightarrow>
   sequenced (lg @ es)"
  using upt_add_eq_append [of 1 "Suc (length lg)" "length es"] by (simp add: sequenced_def)

lemma sequenced_nth: "sequenced lg \<Longrightarrow> i < length lg \<Longrightarrow> ev_sequence (lg ! i) = Suc i"
proof -
  assume "sequenced lg" and i: "i < length lg"
  then have "map ev_sequence lg ! i = [1..<Suc (length lg)] ! i" by (simp add: sequenced_def)
  with i show ?thesis by (simp del: upt_Suc)
qed

lemma filter_after_upt: "filter (\<lambda>k. n < k) [Suc m..<Suc (m + l)] = drop (n - m) [Suc m..<Suc (m + l)]"
proof (induction l)
  case 0
  then show ?case by simp
next
  case (Suc l)
  then show ?case by (cases "n < Suc (m + l)") (auto simp: drop_append)
qed

lemma sequenced_filter:
  assumes "sequenced lg"
  shows "filter (\<lambda>e. n < ev_sequence e) lg = drop n lg"
  using assms
proof (induction lg rule: rev_induct)
  case Nil
  then show ?case by simp
next
  case (snoc e lg)
  then have sq: "sequenced lg" and e: "ev_sequence e = Suc (length lg)"
    by (auto simp: sequenced_def)
  from snoc.IH [OF sq] e show ?case by (cases "n \<le> length lg") auto
qed

locale event_store =
  fixes get :: "string \<Rightarrow> 's \<Rightarrow> lease option"
    and put :: "lease \<Rightarrow> 's \<Rightarrow> 's"
    and append :: "string \<Rightarrow> exec_event list \<Rightarrow> 's \<Rightarrow> 's"
    and after :: "string \<Rightarrow> nat \<Rightarrow> 's \<Rightarrow> exec_event list"
    and ok :: "'s \<Rightarrow> bool"
  assumes get_put: "ok s \<Longrightarrow> get i (put l s) = (if i = le_id l then Some l else get i s)"
    and get_append: "ok s \<Longrightarrow> get i (append j es s) = get i s"
    and after_put: "ok s \<Longrightarrow> after i n (put l s) = after i n s"
    and after_append: "ok s \<Longrightarrow>
      after i n (append j es s) =
        after i n s @ (if i = j then filter (\<lambda>e. n < ev_sequence e) es else [])"
    and after_filter: "ok s \<Longrightarrow> after i n s = filter (\<lambda>e. n < ev_sequence e) (after i 0 s)"
    and ok_put: "ok s \<Longrightarrow> ok (put l s)"
    and ok_append: "ok s \<Longrightarrow> ok (append j es s)"
begin

lemma after_drop: "ok s \<Longrightarrow> sequenced (after i 0 s) \<Longrightarrow> after i n s = drop n (after i 0 s)"
  by (metis after_filter sequenced_filter)

lemma after_resume:
  assumes "ok s" and "sequenced (after i 0 s)"
  shows "after i n s = take k (after i n s) @ after i (n + k) s"
proof -
  have "after i (n + k) s = drop k (after i n s)"
    by (metis after_drop [OF assms] add.commute drop_drop)
  then show ?thesis by simp
qed

lemma after_grows:
  assumes "ok s" and "sequenced (after i 0 s)" and "\<forall>e \<in> set es. length (after i 0 s) < ev_sequence e"
    and "n \<le> length (after i 0 s)"
  shows "after i n (append i es s) = after i n s @ es"
proof -
  from assms(3,4) have "filter (\<lambda>e. n < ev_sequence e) es = es"
    by (fastforce simp: filter_id_conv)
  with assms(1) show ?thesis by (simp add: after_append)
qed

end

lemma filter_after0:
  "filter (\<lambda>e. n < ev_sequence e) (filter (\<lambda>e. 0 < ev_sequence e) es) =
   filter (\<lambda>e. n < ev_sequence e) es"
  by (induction es) auto

lemma store_events_filter:
  "store_events i n st = filter (\<lambda>e. n < ev_sequence e) (store_events i 0 st)"
  by (simp only: store_events_def filter_after0)

interpretation mem: event_store store_get store_put store_appendEvents store_events "\<lambda>_. True"
  by unfold_locales (simp_all add: store_events_def filter_after0 del: filter_filter)

text \<open>The file store satisfies the interface wherever its file can be read.\<close>

definition file_lookup :: "string \<Rightarrow> json_file \<Rightarrow> lease option" where
  "file_lookup i f = (case file_get i f of Inr r \<Rightarrow> r | Inl _ \<Rightarrow> None)"

definition file_after :: "string \<Rightarrow> nat \<Rightarrow> json_file \<Rightarrow> exec_event list" where
  "file_after i n f = (case file_events i n f of Inr es \<Rightarrow> es | Inl _ \<Rightarrow> [])"

lemmas file_defs = file_lookup_def file_after_def file_get_def file_events_def file_put_def
  file_appendEvents_def file_mutate_def file_write_def file_read_def file_abs_def file_list_def
  file_findByClientToken_def

interpretation jsonfile: event_store file_lookup "\<lambda>l f. snd (file_put l f)"
    "\<lambda>i es f. snd (file_appendEvents i es f)" file_after "\<lambda>f. file_abs f \<noteq> None"
proof unfold_locales
  fix s i n
  show "file_after i n s = filter (\<lambda>e. n < ev_sequence e) (file_after i 0 s)"
    using store_events_filter [of i n] by (cases s) (auto simp: file_defs simp del: filter_filter)
qed (auto simp: file_defs store_events_def split: json_file.splits)

text \<open>Reading the file store is reading the state its file stands for, and changing it is changing
  that state: it refines the in-memory store.\<close>

lemma file_refines_reads:
  assumes "file_abs f = Some st"
  shows "file_get i f = Inr (store_get i st)"
    and "file_findByClientToken tok f = Inr (store_findByClientToken tok st)"
    and "file_list f = Inr (store_list st)"
    and "file_events i n f = Inr (store_events i n st)"
  using assms by (auto simp: file_defs split: json_file.splits)

lemma file_refines_writes:
  assumes "file_abs f = Some st"
  shows "fst (file_put l f) = Inr ()" and "file_abs (snd (file_put l f)) = Some (store_put l st)"
    and "fst (file_appendEvents i es f) = Inr ()"
    and "file_abs (snd (file_appendEvents i es f)) = Some (store_appendEvents i es st)"
  using assms by (auto simp: file_defs split: json_file.splits)

end
