(* ===== verification/Control_Plane.thy ===== *)
theory Control_Plane
  imports Execution_Store Execution_Validation
begin

text \<open>
  The class \<open>AgentExecutionControlPlane\<close> of \<open>packages/control-plane/src/execution.ts\<close>, method by
  method, over the in-memory store.

  The state has three parts: the store, the world outside the control plane (providers, clock,
  identifier supply; a type variable, changed only through the operations of the environment),
  and \<open>cur\<close>, the lease object that the running method's local variable \<open>lease\<close> refers to. The
  private helpers change that object, and a change made before a throw is visible in the handler
  that catches it, as in the code. One method runs at a time.
\<close>

section \<open>Providers, environment, state\<close>

record 'w provider =
  pv_id :: string
  pv_capabilities :: capabilities
  pv_describe :: "availability option"
  pv_supports :: "js \<Rightarrow> bool \<times> string list"
  pv_start :: "sandbox_start_input \<Rightarrow> 'w \<Rightarrow> (exn + session) \<times> 'w"
  pv_inspect :: "string \<Rightarrow> 'w \<Rightarrow> (exn + session) \<times> 'w"
  pv_suspend :: "string \<Rightarrow> 'w \<Rightarrow> (exn + unit) \<times> 'w"
  pv_resume :: "string \<Rightarrow> 'w \<Rightarrow> (exn + session) \<times> 'w"
  pv_terminate :: "string \<Rightarrow> 'w \<Rightarrow> (exn + unit) \<times> 'w"
  pv_prepareWorkspace :: "session \<Rightarrow> string \<Rightarrow> js \<Rightarrow> source_access option \<Rightarrow> 'w \<Rightarrow> (exn + exec_workspace) \<times> 'w"
  pv_startExecution :: "session \<Rightarrow> exec_start_input \<Rightarrow> 'w \<Rightarrow> (exn + handle) \<times> 'w"
  pv_readEvents :: "handle \<Rightarrow> string option \<Rightarrow> int option \<Rightarrow> 'w \<Rightarrow> (exn + event_batch) \<times> 'w"
  pv_resolveApproval :: "handle \<Rightarrow> js \<Rightarrow> 'w \<Rightarrow> (exn + unit) \<times> 'w"
  pv_submitInput :: "handle \<Rightarrow> js \<Rightarrow> 'w \<Rightarrow> (exn + unit) \<times> 'w"
  pv_steer :: "handle \<Rightarrow> js \<Rightarrow> 'w \<Rightarrow> (exn + unit) \<times> 'w"
  pv_collectResult :: "handle \<Rightarrow> 'w \<Rightarrow> (exn + provider_result) \<times> 'w"

record broker_input =
  bi_executionId :: string
  bi_workspace :: js
  bi_source :: js
  bi_ttlSeconds :: int

record 'w cp_env =
  env_providers :: "'w provider list"
  env_sourceBroker :: "(broker_input \<Rightarrow> 'w \<Rightarrow> (exn + source_access option) \<times> 'w) option"
  env_idFactory :: "'w \<Rightarrow> string \<times> 'w"
  env_now :: "'w \<Rightarrow> int \<times> 'w"

record 'w cps =
  st :: exec_store
  wd :: 'w
  cur :: lease

type_synonym ('w, 'a) cp = "('w cps, exn, 'a) comp"

definition call :: "('w \<Rightarrow> (exn + 'a) \<times> 'w) \<Rightarrow> ('w, 'a) cp" where
  "call f s = (case f (wd s) of (r, w) \<Rightarrow> (r, s\<lparr>wd := w\<rparr>))"

definition now :: "'w cp_env \<Rightarrow> ('w, int) cp" where
  "now env s = (case env_now env (wd s) of (t, w) \<Rightarrow> (Inr t, s\<lparr>wd := w\<rparr>))"

definition newId :: "'w cp_env \<Rightarrow> ('w, string) cp" where
  "newId env s = (case env_idFactory env (wd s) of (i, w) \<Rightarrow> (Inr i, s\<lparr>wd := w\<rparr>))"

definition setCur :: "(lease \<Rightarrow> lease) \<Rightarrow> ('w, unit) cp" where
  "setCur f = modify (\<lambda>s. s\<lparr>cur := f (cur s)\<rparr>)"

definition putLease :: "('w, unit) cp" where
  "putLease = modify (\<lambda>s. s\<lparr>st := store_put (cur s) (st s)\<rparr>)"

text \<open>\<open>lease.updatedAt = this.now().toISOString()\<close>\<close>

definition touch :: "'w cp_env \<Rightarrow> ('w, unit) cp" where
  "touch env = bindE (now env) (\<lambda>t. setCur (\<lambda>l. l\<lparr>le_updatedAt := t\<rparr>))"

section \<open>Providers\<close>

text \<open>The constructor's \<open>Map\<close>: a later provider with the same id replaces an earlier one in place.\<close>

definition providers :: "'w cp_env \<Rightarrow> (string \<times> 'w provider) list" where
  "providers env = fold (\<lambda>p m. AList.update (pv_id p) p m) (env_providers env) []"

definition listProviders :: "platform \<Rightarrow> 'w cp_env \<Rightarrow> provider_descriptor list" where
  "listProviders pf env =
     sort_key (\<lambda>d. pf_collation_key pf (pd_id d))
       (map (\<lambda>(_, p). \<lparr>pd_id = pv_id p, pd_capabilities = pv_capabilities p,
           pd_availability = (case pv_describe p of
               Some a \<Rightarrow> a
             | None \<Rightarrow> \<lparr>av_configured = False,
                 av_reasons = [''Provider did not report configuration status.'']\<rparr>)\<rparr>)
         (providers env))"

definition provider_candidates :: "'w cp_env \<Rightarrow> js \<Rightarrow> 'w provider list" where
  "provider_candidates env r =
     (if jget (rq_preference r) ''kind'' = JStr ''provider''
      then (case map_of (providers env) (js_str (jget (rq_preference r) ''provider'')) of
          Some p \<Rightarrow> [p] | None \<Rightarrow> [])
      else map snd (providers env))"

definition selectProvider :: "platform \<Rightarrow> 'w cp_env \<Rightarrow> js \<Rightarrow> exn + 'w provider" where
  "selectProvider pf env r =
     (let candidates = provider_candidates env r in
      if candidates = [] then
        Inl (CPError ProviderNotFound
          (if jget (rq_preference r) ''kind'' = JStr ''provider''
           then ''Execution provider '' @ [CHR 39] @ js_to_string pf (jget (rq_preference r) ''provider'') @
             [CHR 39] @ '' is not registered.''
           else ''No execution providers are registered.'') (JObj []))
      else (case find (\<lambda>p. fst (pv_supports p r)) candidates of
          Some p \<Rightarrow> Inr p
        | None \<Rightarrow> Inl (CPError ProviderUnsupported
            ''No selected execution provider supports this request.''
            (JObj [(''providers'', JArr (map (\<lambda>p. JObj [(''provider'', JStr (pv_id p)),
               (''reasons'', JArr (map JStr (snd (pv_supports p r))))]) candidates))]))))"

definition providerFor :: "'w cp_env \<Rightarrow> lease \<Rightarrow> exn + 'w provider" where
  "providerFor env l = (case map_of (providers env) (le_provider l) of
      Some p \<Rightarrow> Inr p
    | None \<Rightarrow> Inl (CPError ProviderNotFound
        (''Execution provider '' @ [CHR 39] @ le_provider l @ [CHR 39] @ '' is not registered.'')
        (JObj [(''executionId'', JStr (le_id l))])))"

section \<open>Events and cleanup\<close>

text \<open>
  \<open>appendEvents\<close> numbers the events from the lease's counter, which it advances, and stamps those
  that carry no time.
\<close>

fun normalizeEvents :: "'w cp_env \<Rightarrow> provider_event list \<Rightarrow> ('w, exec_event list) cp" where
  "normalizeEvents env [] = ret []"
| "normalizeEvents env (e # es) =
     thenE (setCur (\<lambda>l. l\<lparr>le_lastEventSequence := le_lastEventSequence l + 1\<rparr>))
     (bindE (gets cur) (\<lambda>l.
      bindE (case pe_timestamp e of Some t \<Rightarrow> ret t | None \<Rightarrow> now env) (\<lambda>t.
      bindE (normalizeEvents env es) (\<lambda>rest.
        ret (\<lparr>ev_id = pe_id e, ev_type = pe_type e, ev_data = pe_data e,
          ev_executionId = le_id l, ev_sequence = le_lastEventSequence l,
          ev_cursor = nat_str (le_lastEventSequence l), ev_timestamp = t\<rparr> # rest)))))"

definition appendEvents :: "'w cp_env \<Rightarrow> provider_event list \<Rightarrow> ('w, unit) cp" where
  "appendEvents env es =
     bindE (normalizeEvents env es) (\<lambda>normalized.
       modify (\<lambda>s. s\<lparr>st := store_appendEvents (le_id (cur s)) normalized (st s)\<rparr>))"

definition cp_event :: "string \<Rightarrow> event_type \<Rightarrow> js \<Rightarrow> provider_event" where
  "cp_event i ty d = \<lparr>pe_id = i, pe_type = ty, pe_timestamp = None, pe_data = d\<rparr>"

definition failure_js :: "string \<times> string \<Rightarrow> js" where
  "failure_js f = JObj [(''code'', JStr (fst f)), (''message'', JStr (snd f))]"

definition receipt_js :: "platform \<Rightarrow> receipt \<Rightarrow> js" where
  "receipt_js pf r = JObj (
     [(''executionId'', JStr (rc_executionId r)), (''sandboxId'', JStr (rc_sandboxId r)),
      (''provider'', JStr (rc_provider r)), (''requestedAt'', JStr (pf_iso pf (rc_requestedAt r))),
      (''status'', JStr (receipt_status_str (rc_status r)))] @
     (case rc_completedAt r of None \<Rightarrow> [] | Some t \<Rightarrow> [(''completedAt'', JStr (pf_iso pf t))]) @
     (case rc_finalSandboxStatus r of None \<Rightarrow> []
      | Some x \<Rightarrow> [(''finalSandboxStatus'', JStr (sandbox_status_str x))]) @
     (case rc_error r of None \<Rightarrow> [] | Some f \<Rightarrow> [(''error'', failure_js f)]))"

text \<open>
  \<open>cleanup\<close> asks the provider to terminate the sandbox and inspects it; an error of either call
  ends up in the receipt, never in the caller. It reads \<open>lease.sandbox!\<close>, so it takes the sandbox.
\<close>

definition cleanup :: "'w cp_env \<Rightarrow> 'w provider \<Rightarrow> session \<Rightarrow> ('w, receipt) cp" where
  "cleanup env provider sandbox =
     bindE (now env) (\<lambda>requestedAt.
     bindE (gets cur) (\<lambda>l.
     (let receipt = \<lparr>rc_executionId = le_id l, rc_sandboxId = ss_id sandbox,
            rc_provider = pv_id provider, rc_requestedAt = requestedAt, rc_completedAt = None,
            rc_status = Requested, rc_finalSandboxStatus = None, rc_error = None\<rparr> in
      catchE
        (thenE (call (pv_terminate provider (ss_id sandbox)))
         (bindE (call (pv_inspect provider (ss_id sandbox))) (\<lambda>inspected.
          bindE (now env) (\<lambda>completedAt.
            ret (receipt\<lparr>rc_completedAt := Some completedAt,
              rc_finalSandboxStatus := Some (ss_status inspected),
              rc_status := (if ss_status inspected = SbTerminated \<or> ss_status inspected = SbExpired
                            then Verified else Requested)\<rparr>)))))
        (\<lambda>error. ret (receipt\<lparr>rc_status := CleanupFailed,
           rc_error := Some (errorCode error ''EXECUTION_CLEANUP_FAILED'', errorMessage error)\<rparr>)))))"

definition setCleanup :: "receipt \<Rightarrow> ('w, unit) cp" where
  "setCleanup r = setCur (\<lambda>l. l\<lparr>le_cleanup := Some r\<rparr>)"

definition setStatus :: "exec_status \<Rightarrow> ('w, unit) cp" where
  "setStatus x = setCur (\<lambda>l. l\<lparr>le_status := x\<rparr>)"

definition failForPolicy :: "'w cp_env \<Rightarrow> string \<Rightarrow> string \<Rightarrow> bool \<Rightarrow> ('w, unit) cp" where
  "failForPolicy env cod message force =
     bindE (gets cur) (\<lambda>l.
     if isTerminal (le_status l) \<and> \<not> force then ret ()
     else
       thenE (setCur (\<lambda>l. l\<lparr>le_status := Failed, le_failure := Some (cod, message)\<rparr>))
       (thenE (touch env)
       (thenE
         (case (le_sandbox l, le_cleanup l) of
            (Some sandbox, None) \<Rightarrow>
              bindE (lift_sum (providerFor env l)) (\<lambda>provider.
              bindE (cleanup env provider sandbox) setCleanup)
          | _ \<Rightarrow> ret ())
       (bindE (gets cur) (\<lambda>l.
         appendEvents env [cp_event
           (le_id l @ '':policy-failed:'' @ nat_str (le_lastEventSequence l + 1)) ExecutionFailed
           (failure_js (cod, message))])))))"

section \<open>Pulling provider events\<close>

fun status_after :: "event_type \<Rightarrow> exec_status \<Rightarrow> exec_status" where
  "status_after ExecutionStarted _ = Running"
| "status_after ApprovalResolved _ = Running"
| "status_after InputSubmitted _ = Running"
| "status_after SandboxResumed _ = Running"
| "status_after ApprovalRequested _ = WaitingForApproval"
| "status_after InputRequested _ = WaitingForInput"
| "status_after SandboxSuspended _ = Suspended"
| "status_after ExecutionCompleted _ = Completed"
| "status_after ExecutionFailed _ = Failed"
| "status_after ExecutionCancelled _ = Cancelled"
| "status_after _ s = s"

definition updateStatusFromEvents :: "exec_status \<Rightarrow> provider_event list \<Rightarrow> exec_status" where
  "updateStatusFromEvents s es = foldl (\<lambda>x e. status_after (pe_type e) x) s es"

definition latestEstimatedCost :: "provider_event list \<Rightarrow> jsnum option" where
  "latestEstimatedCost es =
     foldl (\<lambda>latest e.
       let v = jget (pe_data e) ''estimatedCostUsd'' in
       if pe_type e = UsageUpdated \<and> isNum v then Some (js_num v) else latest) None es"

definition remainingEvents :: "lease \<Rightarrow> int option" where
  "remainingEvents l = map_option (\<lambda>m. max 0 (m - int (length (le_seenProviderEventIds l))))
     (rq_maxEvents (le_request l))"

definition providerLimit :: "int option \<Rightarrow> int option \<Rightarrow> int option" where
  "providerLimit limit remaining = (case remaining of
      None \<Rightarrow> limit
    | Some r \<Rightarrow> (case limit of None \<Rightarrow> Some r | Some k \<Rightarrow> Some (min k r)))"

definition budget_message :: "lease \<Rightarrow> string" where
  "budget_message l = ''Execution exceeded its '' @
     (case rq_maxEvents (le_request l) of Some m \<Rightarrow> int_str m | None \<Rightarrow> ''undefined'') @
     '' provider-event limit.''"

definition cost_message :: "platform \<Rightarrow> jsnum \<Rightarrow> jsnum \<Rightarrow> string" where
  "cost_message pf cost maxCost = ''Execution estimated cost '' @ num_str pf cost @
     '' USD exceeded its '' @ num_str pf maxCost @ '' USD limit.''"

definition unseen_events :: "lease \<Rightarrow> event_batch \<Rightarrow> provider_event list" where
  "unseen_events l batch = filter (\<lambda>e. pe_id e \<notin> set (le_seenProviderEventIds l)) (eb_events batch)"

definition cap_events :: "int option \<Rightarrow> 'a list \<Rightarrow> 'a list" where
  "cap_events remaining es = (case remaining of None \<Rightarrow> es | Some r \<Rightarrow> take (nat r) es)"

text \<open>
  What is done with a batch once the provider has returned it: record the events not seen before,
  up to the remaining budget, advance the provider cursor, enforce the event and cost budgets,
  store the lease. \<open>l\<close> is the lease as it was when the budget was computed.
\<close>

definition recordUnseen :: "'w cp_env \<Rightarrow> provider_event list \<Rightarrow> ('w, unit) cp" where
  "recordUnseen env unseen =
     (if unseen = [] then ret ()
      else thenE (appendEvents env unseen)
        (setCur (\<lambda>l. l\<lparr>le_seenProviderEventIds := le_seenProviderEventIds l @ map pe_id unseen,
           le_status := updateStatusFromEvents (le_status l) unseen\<rparr>)))"

definition enforceBudgets ::
  "platform \<Rightarrow> 'w cp_env \<Rightarrow> lease \<Rightarrow> bool \<Rightarrow> provider_event list \<Rightarrow> ('w, unit) cp" where
  "enforceBudgets pf env l eventBudgetExceeded unseen =
     (if eventBudgetExceeded then
        failForPolicy env ''EXECUTION_EVENT_BUDGET_EXCEEDED'' (budget_message l) True
      else (case (rq_maxCostUsd (le_request l), latestEstimatedCost unseen) of
          (Some maxCost, Some cost) \<Rightarrow>
            if num_lt maxCost cost then
              failForPolicy env ''EXECUTION_COST_BUDGET_EXCEEDED'' (cost_message pf cost maxCost) True
            else ret ()
        | _ \<Rightarrow> ret ()))"

definition ingestBatch :: "platform \<Rightarrow> 'w cp_env \<Rightarrow> lease \<Rightarrow> event_batch \<Rightarrow> ('w, unit) cp" where
  "ingestBatch pf env l batch =
     (let remaining = remainingEvents l;
          fresh = unseen_events l batch;
          eventBudgetExceeded = (case remaining of None \<Rightarrow> False | Some r \<Rightarrow> int (length fresh) > r);
          unseen = cap_events remaining fresh in
      thenE (recordUnseen env unseen)
      (thenE
        (case eb_cursor batch of None \<Rightarrow> ret ()
         | Some c \<Rightarrow> setCur (\<lambda>l. l\<lparr>le_providerCursor := Some c\<rparr>))
      (thenE (touch env)
      (thenE (enforceBudgets pf env l eventBudgetExceeded unseen)
       putLease))))"

definition pullProviderEvents :: "platform \<Rightarrow> 'w cp_env \<Rightarrow> int option \<Rightarrow> ('w, event_batch option) cp" where
  "pullProviderEvents pf env limit =
     bindE (gets cur) (\<lambda>l.
     case le_handle l of
       None \<Rightarrow> ret None
     | Some handle \<Rightarrow>
        if remainingEvents l = Some 0 then
          thenE (failForPolicy env ''EXECUTION_EVENT_BUDGET_EXCEEDED'' (budget_message l) False)
          (thenE putLease
            (ret (Some \<lparr>eb_events = [], eb_cursor = None, eb_done = True\<rparr>)))
        else
          bindE (lift_sum (providerFor env l)) (\<lambda>provider.
          bindE (call (pv_readEvents provider handle (le_providerCursor l)
            (providerLimit limit (remainingEvents l)))) (\<lambda>batch.
          thenE (ingestBatch pf env l batch)
            (ret (Some batch)))))"

section \<open>Reading executions\<close>

definition not_found :: "string \<Rightarrow> exn" where
  "not_found executionId =
     CPError NotFound (''Execution '' @ [CHR 39] @ executionId @ [CHR 39] @ '' was not found.'')
       (JObj [(''executionId'', JStr executionId)])"

definition getExecution :: "string \<Rightarrow> ('w, lease) cp" where
  "getExecution executionId =
     bindE (gets (\<lambda>s. store_get executionId (st s))) (\<lambda>r.
     case r of None \<Rightarrow> throw (not_found executionId) | Some l \<Rightarrow> ret l)"

text \<open>\<open>const lease = await this.getExecution(executionId)\<close>\<close>

definition loadLease :: "string \<Rightarrow> ('w, lease) cp" where
  "loadLease executionId = bindE (getExecution executionId) (\<lambda>l. thenE (setCur (\<lambda>_. l)) (ret l))"

definition listExecutions :: "('w, lease list) cp" where
  "listExecutions = gets (\<lambda>s. store_list (st s))"

text \<open>The active lease with its handle and its sandbox, which the callers read with \<open>!\<close>.\<close>

definition getRunnable :: "string \<Rightarrow> ('w, lease \<times> handle \<times> session) cp" where
  "getRunnable executionId =
     bindE (loadLease executionId) (\<lambda>l.
     case (le_handle l, le_sandbox l) of
       (Some h, Some sb) \<Rightarrow>
         if isTerminal (le_status l) then throw (invalidState l ''Execution is not active.'')
         else ret (l, h, sb)
     | _ \<Rightarrow> throw (invalidState l ''Execution is not active.''))"

definition parseCursor :: "platform \<Rightarrow> string option \<Rightarrow> exn + nat" where
  "parseCursor pf cursor = (case cursor of
      None \<Rightarrow> Inr 0
    | Some [] \<Rightarrow> Inr 0
    | Some c \<Rightarrow>
        (let v = str_num pf c in
         if \<not> safe_integer v \<or> num_int v < 0 then
           Inl (CPError InvalidCursor
             (''Execution cursor '' @ [CHR 39] @ c @ [CHR 39] @ '' is invalid.'')
             (JObj [(''cursor'', JStr c)]))
         else Inr (nat (num_int v))))"

definition limit_events :: "int option \<Rightarrow> 'a list \<Rightarrow> 'a list" where
  "limit_events limit es = (case limit of
      None \<Rightarrow> es | Some k \<Rightarrow> if k \<ge> 0 then take (nat k) es else es)"

definition streamEvents ::
  "platform \<Rightarrow> 'w cp_env \<Rightarrow> string \<Rightarrow> string option \<Rightarrow> int option \<Rightarrow> ('w, cursor_batch) cp" where
  "streamEvents pf env executionId cursor limit =
     bindE (lift_sum (parseCursor pf cursor)) (\<lambda>afterSequence.
     bindE (loadLease executionId) (\<lambda>l.
     thenE (if le_handle l \<noteq> None \<and> \<not> isTerminal (le_status l)
            then thenE (pullProviderEvents pf env limit) (ret ()) else ret ())
     (bindE (getExecution executionId) (\<lambda>current.
      bindE (gets (\<lambda>s. limit_events limit (store_events executionId afterSequence (st s)))) (\<lambda>es.
      ret \<lparr>cb_executionId = executionId, cb_events = es,
        cb_cursor = (if es = [] then nat_str afterSequence else ev_cursor (last es)),
        cb_done = isTerminal (le_status current)\<rparr>)))))"

section \<open>Creating an execution\<close>

definition new_lease :: "'w provider \<Rightarrow> js \<Rightarrow> int \<Rightarrow> string \<Rightarrow> lease" where
  "new_lease provider r createdAt i =
     \<lparr>le_schemaVersion = ''0.1'', le_id = ''exec_'' @ sanitizeId i, le_status = Starting,
      le_provider = pv_id provider, le_request = r, le_createdAt = createdAt,
      le_updatedAt = createdAt, le_expiresAt = createdAt + rq_ttlSeconds r * 1000,
      le_sandbox = None, le_workspace = None, le_handle = None, le_providerCursor = None,
      le_seenProviderEventIds = [], le_lastEventSequence = 0, le_result = None,
      le_cleanup = None, le_failure = None\<rparr>"

definition created_event :: "platform \<Rightarrow> lease \<Rightarrow> provider_event" where
  "created_event pf l =
     \<lparr>pe_id = le_id l @ '':created'', pe_type = ExecutionCreated, pe_timestamp = Some (le_createdAt l),
      pe_data = JObj [(''provider'', JStr (le_provider l)),
        (''mode'', jget (rq_policy (le_request l)) ''mode''),
        (''expiresAt'', JStr (pf_iso pf (le_expiresAt l)))]\<rparr>"

definition sandbox_started_event :: "platform \<Rightarrow> lease \<Rightarrow> session \<Rightarrow> provider_event" where
  "sandbox_started_event pf l sb = cp_event (le_id l @ '':sandbox-started'') SandboxStarted
     (JObj [(''sandboxId'', JStr (ss_id sb)), (''provider'', JStr (ss_provider sb)),
       (''expiresAt'', JStr (pf_iso pf (case ss_expiresAt sb of Some t \<Rightarrow> t | None \<Rightarrow> le_expiresAt l)))])"

text \<open>The body of the \<open>try\<close>: start the sandbox, prepare its workspace, start the run, pull.\<close>

definition startSequence :: "platform \<Rightarrow> 'w cp_env \<Rightarrow> 'w provider \<Rightarrow> ('w, lease) cp" where
  "startSequence pf env provider =
     bindE (gets cur) (\<lambda>l.
     (let r = le_request l in
     bindE (call (pv_start provider
       \<lparr>si_manifest = rq_agent r, si_cell = jget r ''cell'', si_environment = jget r ''environment'',
        si_snapshot = sourceIdentity pf r, si_credentialBroker = jget (rq_agent r) ''credentialBroker'',
        si_clientToken = le_id l\<rparr>)) (\<lambda>sandbox.
     thenE (setCur (\<lambda>l. l\<lparr>le_sandbox := Some sandbox\<rparr>))
     (thenE (appendEvents env [sandbox_started_event pf l sandbox])
     (bindE (case env_sourceBroker env of
               None \<Rightarrow> ret None
             | Some prepareAccess \<Rightarrow> call (prepareAccess \<lparr>bi_executionId = le_id l,
                 bi_workspace = jget r ''workspace'', bi_source = rq_source r,
                 bi_ttlSeconds = rq_ttlSeconds r\<rparr>)) (\<lambda>access.
      bindE (call (pv_prepareWorkspace provider sandbox (le_id l) (rq_source r) access)) (\<lambda>ws.
      thenE (setCur (\<lambda>l. l\<lparr>le_workspace := Some ws\<rparr>))
      (bindE (call (pv_startExecution provider sandbox
        \<lparr>xi_executionId = le_id l, xi_task = jget r ''task'', xi_source = rq_source r,
         xi_policy = rq_policy r, xi_modelAuth = rq_modelAuth r\<rparr>)) (\<lambda>handle.
       thenE (setCur (\<lambda>l. l\<lparr>le_handle := Some handle\<rparr>))
       (thenE (setStatus Running)
       (thenE (touch env)
       (thenE putLease
       (thenE (pullProviderEvents pf env None)
        (getExecution (le_id l)))))))))))))))"

definition start_failed :: "lease \<Rightarrow> string \<Rightarrow> string \<times> string \<Rightarrow> exn" where
  "start_failed l provider failure =
     CPError StartFailed (''Execution '' @ le_id l @ '' could not start: '' @ snd failure)
       (JObj [(''executionId'', JStr (le_id l)), (''provider'', JStr provider),
         (''cause'', failure_js failure)])"

text \<open>The \<open>catch\<close>: mark the lease failed, clean up a sandbox that was started, record, rethrow.\<close>

definition startFailure :: "'w cp_env \<Rightarrow> 'w provider \<Rightarrow> exn \<Rightarrow> ('w, lease) cp" where
  "startFailure env provider error =
     (let failure = (errorCode error ''EXECUTION_START_FAILED'', errorMessage error) in
     thenE (setCur (\<lambda>l. l\<lparr>le_status := Failed, le_failure := Some failure\<rparr>))
     (thenE (touch env)
     (bindE (gets cur) (\<lambda>l.
      thenE (case le_sandbox l of None \<Rightarrow> ret ()
        | Some sandbox \<Rightarrow> bindE (cleanup env provider sandbox) setCleanup)
      (thenE (appendEvents env [cp_event (le_id l @ '':start-failed'') ExecutionFailed (failure_js failure)])
      (thenE putLease
        (throw (start_failed l (pv_id provider) failure))))))))"

definition idempotency_conflict :: "platform \<Rightarrow> js \<Rightarrow> lease \<Rightarrow> exn" where
  "idempotency_conflict pf r existing =
     CPError IdempotencyConflict (''Client token '' @ [CHR 39] @ js_to_string pf (rq_clientToken r) @ [CHR 39] @
        '' is already bound to a different execution request.'')
       (JObj [(''executionId'', JStr (le_id existing))])"

definition createExecution :: "platform \<Rightarrow> 'w cp_env \<Rightarrow> js \<Rightarrow> ('w, lease) cp" where
  "createExecution pf env request =
     thenE (lift_sum (validateExecutionRequest pf request))
     (bindE (gets (\<lambda>s. store_findByClientToken (rq_clientToken request) (st s))) (\<lambda>existing.
     case existing of
       Some l \<Rightarrow>
         if canonicalJson pf (le_request l) \<noteq> canonicalJson pf request
         then throw (idempotency_conflict pf request l) else ret l
     | None \<Rightarrow>
         bindE (lift_sum (selectProvider pf env request)) (\<lambda>provider.
         bindE (now env) (\<lambda>createdAt.
         bindE (newId env) (\<lambda>i.
         thenE (setCur (\<lambda>_. new_lease provider request createdAt i))
         (thenE putLease
         (thenE (appendEvents env [created_event pf (new_lease provider request createdAt i)])
          (catchE (startSequence pf env provider) (startFailure env provider)))))))))"

section \<open>Driving a running execution\<close>

text \<open>
  \<open>resolveApproval\<close>, \<open>submitInput\<close> and \<open>steer\<close> have one shape: check the argument, require an
  active execution, hand the argument to its provider, pull.
\<close>

definition forwardInput ::
  "platform \<Rightarrow> 'w cp_env \<Rightarrow> bool \<Rightarrow> string \<Rightarrow> string \<Rightarrow> ('w provider \<Rightarrow> handle \<Rightarrow> 'w \<Rightarrow> (exn + unit) \<times> 'w) \<Rightarrow> ('w, lease) cp" where
  "forwardInput pf env bad message executionId deliver =
     thenE (if bad then throw (CPError InvalidRequest message (JObj [])) else ret ())
     (bindE (getRunnable executionId) (\<lambda>(l, handle, sandbox).
      bindE (lift_sum (providerFor env l)) (\<lambda>provider.
      thenE (call (deliver provider handle))
      (thenE (pullProviderEvents pf env None)
       (getExecution executionId)))))"

definition resolveApproval :: "platform \<Rightarrow> 'w cp_env \<Rightarrow> string \<Rightarrow> js \<Rightarrow> ('w, lease) cp" where
  "resolveApproval pf env executionId decision =
     forwardInput pf env (bad_decision decision) ''Execution approval decision is invalid.'' executionId
       (\<lambda>provider handle. pv_resolveApproval provider handle decision)"

definition submitInput :: "platform \<Rightarrow> 'w cp_env \<Rightarrow> string \<Rightarrow> js \<Rightarrow> ('w, lease) cp" where
  "submitInput pf env executionId input =
     forwardInput pf env (bad_input input) ''Execution input submission is invalid.'' executionId
       (\<lambda>provider handle. pv_submitInput provider handle input)"

definition steer :: "platform \<Rightarrow> 'w cp_env \<Rightarrow> string \<Rightarrow> js \<Rightarrow> ('w, lease) cp" where
  "steer pf env executionId message =
     forwardInput pf env (bad_steer message)
       ''Steering messages must contain between 1 and 20000 characters.'' executionId
       (\<lambda>provider handle. pv_steer provider handle message)"

definition suspend :: "'w cp_env \<Rightarrow> string \<Rightarrow> ('w, lease) cp" where
  "suspend env executionId =
     bindE (getRunnable executionId) (\<lambda>(l, handle, sandbox).
     bindE (lift_sum (providerFor env l)) (\<lambda>provider.
     thenE (call (pv_suspend provider (ss_id sandbox)))
     (thenE (setStatus Suspended)
     (thenE (touch env)
     (thenE (appendEvents env [cp_event
        (le_id l @ '':suspended:'' @ nat_str (le_lastEventSequence l + 1)) SandboxSuspended
        (JObj [(''sandboxId'', JStr (ss_id sandbox))])])
     (thenE putLease
      (getExecution executionId)))))))"

definition resume :: "platform \<Rightarrow> 'w cp_env \<Rightarrow> string \<Rightarrow> ('w, lease) cp" where
  "resume pf env executionId =
     bindE (loadLease executionId) (\<lambda>l.
     case le_sandbox l of
       None \<Rightarrow> throw (invalidState l ''Only suspended executions can resume.'')
     | Some sandbox \<Rightarrow>
       if le_status l \<noteq> Suspended
       then throw (invalidState l ''Only suspended executions can resume.'')
       else
         bindE (lift_sum (providerFor env l)) (\<lambda>provider.
         bindE (call (pv_resume provider (ss_id sandbox))) (\<lambda>resumed.
         thenE (setCur (\<lambda>l. l\<lparr>le_sandbox := Some resumed\<rparr>))
         (thenE (setStatus Running)
         (thenE (touch env)
         (thenE (appendEvents env [cp_event
            (le_id l @ '':resumed:'' @ nat_str (le_lastEventSequence l + 1)) SandboxResumed
            (JObj [(''sandboxId'', JStr (ss_id resumed))])])
         (thenE putLease
         (thenE (pullProviderEvents pf env None)
          (getExecution executionId)))))))))"

section \<open>Ending an execution\<close>

definition collectResult :: "platform \<Rightarrow> 'w cp_env \<Rightarrow> string \<Rightarrow> ('w, lease) cp" where
  "collectResult pf env executionId =
     bindE (loadLease executionId) (\<lambda>l.
     if le_result l \<noteq> None \<and> le_cleanup l \<noteq> None then ret l
     else if le_failure l \<noteq> None \<and> le_cleanup l \<noteq> None then ret l
     else (case (le_handle l, le_sandbox l) of
       (Some handle, Some sandbox) \<Rightarrow>
         thenE (pullProviderEvents pf env None)
         (bindE (lift_sum (providerFor env l)) (\<lambda>provider.
          bindE (call (pv_collectResult provider handle)) (\<lambda>result.
          thenE (setCur (\<lambda>l. l\<lparr>le_result := Some result\<rparr>))
          (thenE (setStatus (status_of_result (pr_status result)))
          (bindE (cleanup env provider sandbox) (\<lambda>receipt.
           thenE (setCleanup receipt)
           (thenE (touch env)
           (thenE (appendEvents env [cp_event (le_id l @ '':cleanup'') CleanupCompleted (receipt_js pf receipt)])
           (thenE putLease
            (getExecution executionId))))))))))
     | _ \<Rightarrow> throw (invalidState l ''Execution has no active provider handle.'')))"

definition terminate :: "platform \<Rightarrow> 'w cp_env \<Rightarrow> string \<Rightarrow> ('w, lease) cp" where
  "terminate pf env executionId =
     bindE (loadLease executionId) (\<lambda>l.
     case (le_sandbox l, le_cleanup l) of
       (Some sandbox, None) \<Rightarrow>
         bindE (lift_sum (providerFor env l)) (\<lambda>provider.
         bindE (cleanup env provider sandbox) (\<lambda>receipt.
         thenE (setCleanup receipt)
         (thenE (if isTerminal (le_status l) then ret () else setStatus Cancelled)
         (thenE (touch env)
         (thenE (appendEvents env [cp_event (le_id l @ '':terminated'') SandboxTerminated (receipt_js pf receipt)])
         (thenE putLease
          (getExecution executionId)))))))
     | _ \<Rightarrow> ret l)"

text \<open>\<open>reapExpired\<close>: the body of its loop, then the loop over the leases that were due.\<close>

definition reapOne :: "platform \<Rightarrow> 'w cp_env \<Rightarrow> string \<Rightarrow> ('w, lease) cp" where
  "reapOne pf env executionId =
     bindE (terminate pf env executionId) (\<lambda>terminated.
     thenE (setCur (\<lambda>_. terminated\<lparr>le_status := Expired\<rparr>))
     (thenE (touch env)
     (thenE putLease
      (gets cur))))"

definition due_leases :: "int \<Rightarrow> exec_store \<Rightarrow> lease list" where
  "due_leases t store = filter (\<lambda>l. \<not> isTerminal (le_status l) \<and> le_expiresAt l \<le> t) (store_list store)"

definition reapExpired :: "platform \<Rightarrow> 'w cp_env \<Rightarrow> ('w, lease list) cp" where
  "reapExpired pf env =
     bindE (now env) (\<lambda>t.
     bindE (gets (\<lambda>s. due_leases t (st s))) (\<lambda>expired.
     seqE (map (\<lambda>l. reapOne pf env (le_id l)) expired)))"

end
