(* ===== verification/Control_Plane_Invariants.thy ===== *)
theory Control_Plane_Invariants
  imports Control_Plane
begin

text \<open>
  The invariant of the control plane and the proof that every API method keeps it.

  \<open>store_ok\<close> says of every stored lease that it is filed under its own id, that its event log is
  numbered 1 to n with n the lease's counter, that its request passed validation, that its recorded
  provider events stay within the policy's budget, and that no two leases share a client token.
  While a method runs, the lease object in \<open>cur\<close> is ahead of its stored copy: \<open>frame_ok\<close> is the
  weaker invariant of those states, and \<open>synced\<close> holds where both do. The methods are shown to
  throw only in synced states.
\<close>

section \<open>The invariant\<close>

definition log_ok :: "string \<Rightarrow> exec_event list \<Rightarrow> bool" where
  "log_ok i es \<longleftrightarrow> sequenced es \<and>
     (\<forall>e \<in> set es. ev_executionId e = i \<and> ev_cursor e = nat_str (ev_sequence e))"

definition within_budget :: "lease \<Rightarrow> bool" where
  "within_budget l \<longleftrightarrow>
     (\<forall>m. rq_maxEvents (le_request l) = Some m \<longrightarrow> int (length (le_seenProviderEventIds l)) \<le> m)"

definition lease_ok :: "platform \<Rightarrow> string \<Rightarrow> exec_event list \<Rightarrow> lease \<Rightarrow> bool" where
  "lease_ok pf i es l \<longleftrightarrow>
     le_id l = i \<and> log_ok i es \<and> le_lastEventSequence l = length es \<and>
     valid_request pf (le_request l) \<and> within_budget l"

definition tokens_unique :: "exec_store \<Rightarrow> bool" where
  "tokens_unique store \<longleftrightarrow> (\<forall>i j l k. store_get i store = Some l \<longrightarrow> store_get j store = Some k \<longrightarrow>
     rq_clientToken (le_request l) = rq_clientToken (le_request k) \<longrightarrow> i = j)"

definition keys_ok :: "exec_store \<Rightarrow> bool" where
  "keys_ok store \<longleftrightarrow> distinct (map fst (leases store)) \<and>
     (\<forall>i. store_get i store = None \<longrightarrow> events_of i store = [])"

definition store_ok :: "platform \<Rightarrow> exec_store \<Rightarrow> bool" where
  "store_ok pf store \<longleftrightarrow> keys_ok store \<and> tokens_unique store \<and>
     (\<forall>i l. store_get i store = Some l \<longrightarrow> lease_ok pf i (events_of i store) l)"

definition frame_ok :: "platform \<Rightarrow> 'w cps \<Rightarrow> bool" where
  "frame_ok pf s \<longleftrightarrow> keys_ok (st s) \<and> tokens_unique (st s) \<and>
     (\<forall>i l. i \<noteq> le_id (cur s) \<longrightarrow> store_get i (st s) = Some l \<longrightarrow> lease_ok pf i (events_of i (st s)) l) \<and>
     (\<exists>k. store_get (le_id (cur s)) (st s) = Some k \<and> le_request k = le_request (cur s)) \<and>
     lease_ok pf (le_id (cur s)) (events_of (le_id (cur s)) (st s)) (cur s)"

definition synced :: "platform \<Rightarrow> 'w cps \<Rightarrow> bool" where
  "synced pf s \<longleftrightarrow> store_ok pf (st s) \<and> frame_ok pf s"

lemma store_ok_empty: "store_ok pf emptyState"
  by (simp add: store_ok_def emptyState_def keys_ok_def tokens_unique_def store_get_def events_of_def)

lemma store_ok_get: "store_ok pf store \<Longrightarrow> store_get i store = Some l \<Longrightarrow> lease_ok pf i (events_of i store) l"
  by (simp add: store_ok_def)

section \<open>What the primitive steps do\<close>

lemma stamp_run:
  obtains t w where "(case tm of Some t \<Rightarrow> ret t | None \<Rightarrow> now env) s = (Inr t, s\<lparr>wd := w\<rparr>)"
proof (cases tm)
  case None
  obtain t w where "env_now env (wd s) = (t, w)" by fastforce
  with None that show thesis by (simp add: now_def)
next
  case (Some t)
  with that [of t "wd s"] show thesis by (simp add: ret_def)
qed

lemma normalizeEvents_run:
  "\<exists>ns w. normalizeEvents env es s =
       (Inr ns, s\<lparr>wd := w, cur := (cur s)\<lparr>le_lastEventSequence := le_lastEventSequence (cur s) + length es\<rparr>\<rparr>) \<and>
     map ev_sequence ns = [Suc (le_lastEventSequence (cur s))..<Suc (le_lastEventSequence (cur s) + length es)] \<and>
     map ev_id ns = map pe_id es \<and> map ev_type ns = map pe_type es \<and> map ev_data ns = map pe_data es \<and>
     (\<forall>e \<in> set ns. ev_executionId e = le_id (cur s) \<and> ev_cursor e = nat_str (ev_sequence e))"
proof (induction es arbitrary: s)
  case Nil
  show ?case by (simp add: ret_def) (rule exI [of _ "wd s"], simp)
next
  case (Cons e es)
  let ?n = "le_lastEventSequence (cur s)"
  let ?s1 = "s\<lparr>cur := (cur s)\<lparr>le_lastEventSequence := ?n + 1\<rparr>\<rparr>"
  obtain t w1 where t: "(case pe_timestamp e of Some t \<Rightarrow> ret t | None \<Rightarrow> now env) ?s1 = (Inr t, ?s1\<lparr>wd := w1\<rparr>)"
    by (rule stamp_run)
  obtain ns w where IH: "normalizeEvents env es (?s1\<lparr>wd := w1\<rparr>) =
        (Inr ns, s\<lparr>wd := w, cur := (cur s)\<lparr>le_lastEventSequence := ?n + 1 + length es\<rparr>\<rparr>)"
      "map ev_sequence ns = [Suc (?n + 1)..<Suc (?n + 1 + length es)]"
      "map ev_id ns = map pe_id es" "map ev_type ns = map pe_type es" "map ev_data ns = map pe_data es"
      "\<forall>e \<in> set ns. ev_executionId e = le_id (cur s) \<and> ev_cursor e = nat_str (ev_sequence e)"
    using Cons.IH [of "?s1\<lparr>wd := w1\<rparr>"] by (auto simp del: upt_Suc)
  let ?e = "\<lparr>ev_id = pe_id e, ev_type = pe_type e, ev_data = pe_data e, ev_executionId = le_id (cur s),
      ev_sequence = ?n + 1, ev_cursor = nat_str (?n + 1), ev_timestamp = t\<rparr>"
  have "normalizeEvents env (e # es) s =
      (Inr (?e # ns), s\<lparr>wd := w, cur := (cur s)\<lparr>le_lastEventSequence := ?n + length (e # es)\<rparr>\<rparr>)"
    using t IH(1) by (simp add: thenE_def bindE_def setCur_def modify_def gets_def ret_def)
  moreover have "map ev_sequence (?e # ns) = [Suc ?n..<Suc (?n + length (e # es))]"
    using IH(2) by (simp add: upt_conv_Cons del: upt_Suc)
  ultimately show ?case using IH(3-6) by (intro exI [of _ "?e # ns"] exI [of _ w]) auto
qed

text \<open>The events a successful append adds to the log of the lease in \<open>cur\<close>.\<close>

definition appended :: "lease \<Rightarrow> provider_event list \<Rightarrow> exec_event list \<Rightarrow> bool" where
  "appended l es ns \<longleftrightarrow>
     map ev_sequence ns = [Suc (le_lastEventSequence l)..<Suc (le_lastEventSequence l + length es)] \<and>
     map ev_id ns = map pe_id es \<and> map ev_type ns = map pe_type es \<and> map ev_data ns = map pe_data es \<and>
     (\<forall>e \<in> set ns. ev_executionId e = le_id l \<and> ev_cursor e = nat_str (ev_sequence e))"

definition after_append :: "provider_event list \<Rightarrow> exec_event list \<Rightarrow> 'w \<Rightarrow> 'w cps \<Rightarrow> 'w cps" where
  "after_append es ns w s = s\<lparr>wd := w, st := store_appendEvents (le_id (cur s)) ns (st s),
     cur := (cur s)\<lparr>le_lastEventSequence := le_lastEventSequence (cur s) + length es\<rparr>\<rparr>"

lemma appendEvents_run:
  obtains ns w where "appendEvents env es s = (Inr (), after_append es ns w s)"
    and "appended (cur s) es ns"
proof -
  obtain ns w where r: "normalizeEvents env es s =
       (Inr ns, s\<lparr>wd := w, cur := (cur s)\<lparr>le_lastEventSequence := le_lastEventSequence (cur s) + length es\<rparr>\<rparr>)"
      and a: "appended (cur s) es ns"
    using normalizeEvents_run [of env es s] unfolding appended_def by blast
  have "appendEvents env es s = (Inr (), after_append es ns w s)"
    by (simp add: appendEvents_def bindE_def modify_def r after_append_def)
  from this a show thesis by (rule that)
qed

lemma wp_appendEvents:
  "(\<And>ns w. appended (cur s) es ns \<Longrightarrow> Q () (after_append es ns w s)) \<Longrightarrow> wp (appendEvents env es) Q E s"
  by (rule appendEvents_run [of env es s]) (simp add: wp_def)

lemma wp_ret_fun: "wp (ret x) Q E = Q x"
  by (rule ext) (simp add: wp_ret)

lemma wp_call:
  "(\<And>x w. f (wd s) = (Inr x, w) \<Longrightarrow> Q x (s\<lparr>wd := w\<rparr>)) \<Longrightarrow>
   (\<And>e w. f (wd s) = (Inl e, w) \<Longrightarrow> E e (s\<lparr>wd := w\<rparr>)) \<Longrightarrow> wp (call f) Q E s"
  by (auto simp: wp_def call_def split: prod.splits sum.splits)

lemma wp_now: "(\<And>t w. env_now env (wd s) = (t, w) \<Longrightarrow> Q t (s\<lparr>wd := w\<rparr>)) \<Longrightarrow> wp (now env) Q E s"
  by (auto simp: wp_def now_def split: prod.splits)

lemma wp_newId: "(\<And>i w. env_idFactory env (wd s) = (i, w) \<Longrightarrow> Q i (s\<lparr>wd := w\<rparr>)) \<Longrightarrow> wp (newId env) Q E s"
  by (auto simp: wp_def newId_def split: prod.splits)

lemma wp_setCur [wp_simps]: "wp (setCur f) Q E s = Q () (s\<lparr>cur := f (cur s)\<rparr>)"
  by (simp add: setCur_def wp_modify)

lemma wp_putLease: "wp putLease Q E s = Q () (s\<lparr>st := store_put (cur s) (st s)\<rparr>)"
  by (simp add: putLease_def wp_modify)

lemma wp_setCleanup [wp_simps]: "wp (setCleanup r) Q E s = Q () (s\<lparr>cur := (cur s)\<lparr>le_cleanup := Some r\<rparr>\<rparr>)"
  by (simp add: setCleanup_def wp_setCur)

lemma wp_setStatus [wp_simps]: "wp (setStatus x) Q E s = Q () (s\<lparr>cur := (cur s)\<lparr>le_status := x\<rparr>\<rparr>)"
  by (simp add: setStatus_def wp_setCur)

lemma wp_touch:
  "(\<And>t w. Q () (s\<lparr>wd := w, cur := (cur s)\<lparr>le_updatedAt := t\<rparr>\<rparr>)) \<Longrightarrow> wp (touch env) Q E s"
  unfolding touch_def wp_bindE wp_setCur by (rule wp_now) simp

text \<open>\<open>cleanup\<close> never throws and changes only the world.\<close>

lemma cleanup_run:
  obtains r w where "cleanup env p sb s = (Inr r, s\<lparr>wd := w\<rparr>)"
    and "rc_executionId r = le_id (cur s)" and "rc_sandboxId r = ss_id sb" and "rc_provider r = pv_id p"
proof -
  have "wp (cleanup env p sb) (\<lambda>r t. t = s\<lparr>wd := wd t\<rparr> \<and> rc_executionId r = le_id (cur s) \<and>
      rc_sandboxId r = ss_id sb \<and> rc_provider r = pv_id p) (\<lambda>_ _. False) s"
    unfolding cleanup_def Let_def
    by (auto simp: wp_simps intro!: wp_now wp_call)
  then show thesis using that by (auto simp: wp_def split: prod.splits sum.splits)
qed

lemma wp_cleanup:
  "(\<And>r w. rc_executionId r = le_id (cur s) \<Longrightarrow> rc_sandboxId r = ss_id sb \<Longrightarrow> Q r (s\<lparr>wd := w\<rparr>)) \<Longrightarrow>
   wp (cleanup env p sb) Q E s"
  by (rule cleanup_run [of env p sb s]) (simp add: wp_def)

lemmas wp_intros = wp_appendEvents wp_call wp_now wp_newId wp_touch wp_cleanup

section \<open>Steps that keep the frame\<close>

text \<open>What the helpers never change of the lease they work on.\<close>

definition kin :: "lease \<Rightarrow> lease \<Rightarrow> bool" where
  "kin l k \<longleftrightarrow> le_id k = le_id l \<and> le_request k = le_request l \<and> le_provider k = le_provider l \<and>
     le_handle k = le_handle l \<and> le_sandbox k = le_sandbox l \<and> le_createdAt k = le_createdAt l \<and>
     le_expiresAt k = le_expiresAt l \<and> le_result k = le_result l"

lemma kin_refl [simp]: "kin l l"
  by (simp add: kin_def)

lemma kin_trans: "kin a b \<Longrightarrow> kin b c \<Longrightarrow> kin a c"
  by (simp add: kin_def)

lemma providerFor_kin: "kin l k \<Longrightarrow> providerFor env k = providerFor env l"
  by (simp add: kin_def providerFor_def cong: option.case_cong)

lemma frame_ok_wd [simp]: "frame_ok pf (s\<lparr>wd := w\<rparr>) = frame_ok pf s"
  by (simp add: frame_ok_def)

lemma synced_wd [simp]: "synced pf (s\<lparr>wd := w\<rparr>) = synced pf s"
  by (simp add: synced_def)

lemma frame_ok_cur:
  assumes "frame_ok pf s" and "le_id c = le_id (cur s)" and "le_request c = le_request (cur s)"
    and "le_lastEventSequence c = le_lastEventSequence (cur s)" and "within_budget c"
  shows "frame_ok pf (s\<lparr>cur := c\<rparr>)"
  using assms by (simp add: frame_ok_def lease_ok_def)

lemma frame_ok_budget: "frame_ok pf s \<Longrightarrow> within_budget (cur s)"
  by (simp add: frame_ok_def lease_ok_def)

lemma frame_ok_fields [simp]:
  "within_budget (l\<lparr>le_status := a\<rparr>) = within_budget l"
  "within_budget (l\<lparr>le_updatedAt := t\<rparr>) = within_budget l"
  "within_budget (l\<lparr>le_failure := f\<rparr>) = within_budget l"
  "within_budget (l\<lparr>le_cleanup := r\<rparr>) = within_budget l"
  "within_budget (l\<lparr>le_sandbox := sb\<rparr>) = within_budget l"
  "within_budget (l\<lparr>le_workspace := ws\<rparr>) = within_budget l"
  "within_budget (l\<lparr>le_handle := h\<rparr>) = within_budget l"
  "within_budget (l\<lparr>le_result := rs\<rparr>) = within_budget l"
  "within_budget (l\<lparr>le_providerCursor := c\<rparr>) = within_budget l"
  "within_budget (l\<lparr>le_lastEventSequence := n\<rparr>) = within_budget l"
  by (simp_all add: within_budget_def)

lemma frame_ok_update:
  assumes "frame_ok pf s"
  shows "frame_ok pf (s\<lparr>cur := (cur s)\<lparr>le_status := a\<rparr>\<rparr>)"
    and "frame_ok pf (s\<lparr>cur := (cur s)\<lparr>le_updatedAt := t\<rparr>\<rparr>)"
    and "frame_ok pf (s\<lparr>cur := (cur s)\<lparr>le_status := a, le_failure := f\<rparr>\<rparr>)"
    and "frame_ok pf (s\<lparr>cur := (cur s)\<lparr>le_cleanup := r\<rparr>\<rparr>)"
    and "frame_ok pf (s\<lparr>cur := (cur s)\<lparr>le_sandbox := sb\<rparr>\<rparr>)"
    and "frame_ok pf (s\<lparr>cur := (cur s)\<lparr>le_workspace := ws\<rparr>\<rparr>)"
    and "frame_ok pf (s\<lparr>cur := (cur s)\<lparr>le_handle := h\<rparr>\<rparr>)"
    and "frame_ok pf (s\<lparr>cur := (cur s)\<lparr>le_result := rs\<rparr>\<rparr>)"
    and "frame_ok pf (s\<lparr>cur := (cur s)\<lparr>le_providerCursor := c\<rparr>\<rparr>)"
  using frame_ok_budget [OF assms] by (auto intro!: frame_ok_cur [OF assms])

lemma log_ok_append:
  assumes "log_ok (le_id l) es" and "le_lastEventSequence l = length es" and "appended l new ns"
  shows "log_ok (le_id l) (es @ ns)" and "length ns = length new"
proof -
  from assms(3) have "length (map ev_id ns) = length (map pe_id new)" by (simp add: appended_def)
  then show "length ns = length new" by simp
  with assms have "sequenced (es @ ns)"
    by (intro sequenced_append) (auto simp: log_ok_def appended_def simp del: upt_Suc)
  with assms show "log_ok (le_id l) (es @ ns)"
    by (auto simp: log_ok_def appended_def)
qed

lemma keys_ok_append:
  "keys_ok store \<Longrightarrow> store_get i store \<noteq> None \<Longrightarrow> keys_ok (store_appendEvents i es store)"
  by (auto simp: keys_ok_def store_appendEvents_def store_get_def events_of_def update_conv')

lemma frame_ok_append:
  assumes "frame_ok pf s" and "appended (cur s) es ns"
  shows "frame_ok pf (after_append es ns w s)"
proof -
  let ?i = "le_id (cur s)"
  from assms(1) have old: "log_ok ?i (events_of ?i (st s))"
      "le_lastEventSequence (cur s) = length (events_of ?i (st s))"
    by (simp_all add: frame_ok_def lease_ok_def)
  note new = log_ok_append [OF old assms(2)]
  from assms(1) have "keys_ok (store_appendEvents ?i ns (st s))"
    and "tokens_unique (store_appendEvents ?i ns (st s))"
    by (auto simp: frame_ok_def tokens_unique_def intro!: keys_ok_append)
  moreover have "lease_ok pf ?i (events_of ?i (st s) @ ns)
      ((cur s)\<lparr>le_lastEventSequence := le_lastEventSequence (cur s) + length es\<rparr>)"
    using assms(1) new old(2) by (simp add: frame_ok_def lease_ok_def)
  ultimately show ?thesis using assms(1) by (simp add: frame_ok_def after_append_def)
qed

lemma after_append_cur [simp]:
  "cur (after_append es ns w s) =
     (cur s)\<lparr>le_lastEventSequence := le_lastEventSequence (cur s) + length es\<rparr>"
  by (simp add: after_append_def)

lemma kin_update [simp]:
  "kin l (k\<lparr>le_lastEventSequence := n\<rparr>) = kin l k" "kin l (k\<lparr>le_status := a\<rparr>) = kin l k"
  "kin l (k\<lparr>le_updatedAt := t\<rparr>) = kin l k" "kin l (k\<lparr>le_failure := f\<rparr>) = kin l k"
  "kin l (k\<lparr>le_cleanup := r\<rparr>) = kin l k" "kin l (k\<lparr>le_providerCursor := c\<rparr>) = kin l k"
  "kin l (k\<lparr>le_seenProviderEventIds := ids\<rparr>) = kin l k" "kin l (k\<lparr>le_workspace := ws\<rparr>) = kin l k"
  by (simp_all add: kin_def)

lemma store_ok_put:
  assumes "frame_ok pf s"
  shows "store_ok pf (store_put (cur s) (st s))"
proof -
  let ?c = "cur s"
  from assms have keys: "keys_ok (store_put ?c (st s))"
    by (auto simp: frame_ok_def keys_ok_def distinct_leases_put)
  from assms obtain k where k: "store_get (le_id ?c) (st s) = Some k" "le_request k = le_request ?c"
    by (auto simp: frame_ok_def)
  with assms have "tokens_unique (store_put ?c (st s))"
    by (auto simp: frame_ok_def tokens_unique_def split: if_splits)
  with keys assms show ?thesis by (auto simp: store_ok_def frame_ok_def split: if_splits)
qed

lemma synced_put:
  assumes "frame_ok pf s"
  shows "synced pf (s\<lparr>st := store_put (cur s) (st s)\<rparr>)"
proof -
  have "store_ok pf (store_put (cur s) (st s))" by (rule store_ok_put [OF assms])
  with assms show ?thesis by (auto simp: synced_def store_ok_def frame_ok_def)
qed

lemma synced_load:
  "store_ok pf (st s) \<Longrightarrow> store_get i (st s) = Some l \<Longrightarrow> synced pf (s\<lparr>cur := l\<rparr>)"
  by (auto simp: synced_def store_ok_def frame_ok_def lease_ok_def)

lemma syncedI: "frame_ok pf t \<Longrightarrow> st t = st s \<Longrightarrow> store_ok pf (st s) \<Longrightarrow> synced pf t"
  by (simp add: synced_def)

lemma synced_frame: "synced pf s \<Longrightarrow> frame_ok pf s"
  by (simp add: synced_def)

lemma synced_store: "synced pf s \<Longrightarrow> store_ok pf (st s)"
  by (simp add: synced_def)

section \<open>The helpers\<close>

lemma wp_failForPolicy:
  assumes f: "frame_ok pf s"
    and Q: "\<And>t. frame_ok pf t \<Longrightarrow> kin (cur s) (cur t) \<Longrightarrow> Q () t"
    and E: "\<And>e t. providerFor env (cur s) = Inl e \<Longrightarrow> frame_ok pf t \<Longrightarrow> kin (cur s) (cur t) \<Longrightarrow> st t = st s \<Longrightarrow> E e t"
  shows "wp (failForPolicy env cod m force) Q E s"
proof (cases "isTerminal (le_status (cur s)) \<and> \<not> force")
  case True
  with Q [OF f] show ?thesis by (simp add: failForPolicy_def wp_simps)
next
  case False
  have append: "wp (appendEvents env es) Q E t" if "frame_ok pf t" "kin (cur s) (cur t)" for es t
    using that by (intro wp_appendEvents Q) (simp_all add: frame_ok_append)
  let ?s1 = "\<lambda>t w. s\<lparr>wd := w, cur := (cur s)\<lparr>le_status := Failed, le_failure := Some (cod, m), le_updatedAt := t\<rparr>\<rparr>"
  have f1: "frame_ok pf (?s1 t w)" for t w
    by (rule frame_ok_cur) (simp_all add: f frame_ok_budget [OF f])
  show ?thesis
    using False unfolding failForPolicy_def wp_simps
    by (auto simp: wp_simps split: option.split sum.split
        intro!: wp_touch wp_cleanup append E f1 frame_ok_update(4) [OF f1, simplified])
qed

lemma cap_events_length: "cap_events (Some r) es = unseen \<Longrightarrow> 0 \<le> r \<Longrightarrow> int (length unseen) \<le> r"
  by (auto simp: cap_events_def)

lemma remainingEvents_nonneg: "remainingEvents l = Some r \<Longrightarrow> 0 \<le> r"
  by (auto simp: remainingEvents_def)

text \<open>Recording at most as many events as the budget leaves keeps the lease within it.\<close>

lemma within_budget_record:
  assumes "within_budget l" and "unseen = cap_events (remainingEvents l) fresh"
  shows "within_budget (l\<lparr>le_seenProviderEventIds := le_seenProviderEventIds l @ map pe_id unseen, le_status := a\<rparr>)"
proof -
  have "int (length (le_seenProviderEventIds l) + length unseen) \<le> m"
    if m: "rq_maxEvents (le_request l) = Some m" for m
  proof -
    from assms(1) m have le: "int (length (le_seenProviderEventIds l)) \<le> m"
      by (simp add: within_budget_def)
    with m have r: "remainingEvents l = Some (m - int (length (le_seenProviderEventIds l)))"
      by (simp add: remainingEvents_def)
    from cap_events_length [of "m - int (length (le_seenProviderEventIds l))" fresh unseen] r assms(2) le
    show ?thesis by simp
  qed
  then show ?thesis by (simp add: within_budget_def)
qed

lemma wp_recordUnseen:
  assumes f: "frame_ok pf s" and u: "unseen = cap_events (remainingEvents (cur s)) fresh"
    and Q: "\<And>t. frame_ok pf t \<Longrightarrow> kin (cur s) (cur t) \<Longrightarrow> Q () t"
  shows "wp (recordUnseen env unseen) Q E s"
proof (cases "unseen = []")
  case True
  with Q [OF f] show ?thesis by (simp add: recordUnseen_def wp_simps)
next
  case False
  have "Q () ((after_append unseen ns w s)\<lparr>cur := (cur (after_append unseen ns w s))
      \<lparr>le_seenProviderEventIds := le_seenProviderEventIds (cur s) @ map pe_id unseen, le_status := a\<rparr>\<rparr>)"
    if "appended (cur s) unseen ns" for ns w a
    using frame_ok_append [OF f that] within_budget_record [OF frame_ok_budget [OF f] u, of a]
    by (intro Q frame_ok_cur) (simp_all add: within_budget_def)
  with False show ?thesis by (auto simp: recordUnseen_def wp_simps intro!: wp_appendEvents)
qed

lemma wp_ingestBatch:
  assumes f: "frame_ok pf s" and p: "providerFor env (cur s) = Inr p"
    and Q: "\<And>t. synced pf t \<Longrightarrow> kin (cur s) (cur t) \<Longrightarrow> Q () t"
  shows "wp (ingestBatch pf env (cur s) batch) Q E s"
proof -
  let ?l = "cur s"
  have put: "wp putLease Q E t" if "frame_ok pf t" "kin ?l (cur t)" for t
    using Q [OF synced_put [OF that(1)]] that(2) by (simp add: wp_putLease)
  have fail: "wp (failForPolicy env c m b) (\<lambda>_. wp putLease Q E) E t" if "frame_ok pf t" "kin ?l (cur t)" for c m b t
    using that p by (auto intro!: wp_failForPolicy put dest: kin_trans providerFor_kin [of _ _ env])
  have enforce: "wp (enforceBudgets pf env ?l ex unseen) (\<lambda>_. wp putLease Q E) E t"
    if "frame_ok pf t" "kin ?l (cur t)" for ex unseen t
    using fail [OF that] put [OF that]
    by (auto simp: enforceBudgets_def wp_simps split: option.split)
  have touch: "wp (touch env) (\<lambda>_. wp (enforceBudgets pf env ?l ex unseen) (\<lambda>_. wp putLease Q E) E) E t"
    if "frame_ok pf t" "kin ?l (cur t)" for ex unseen t
    using that by (auto intro!: wp_touch enforce frame_ok_cur simp: frame_ok_budget)
  show ?thesis
    unfolding ingestBatch_def Let_def wp_simps
    by (rule wp_recordUnseen [OF f refl])
      (auto simp: wp_simps split: option.split intro!: touch frame_ok_update)
qed

lemma wp_pull:
  assumes sy: "synced pf s"
    and Q: "\<And>b t. synced pf t \<Longrightarrow> kin (cur s) (cur t) \<Longrightarrow> Q b t"
    and E: "\<And>e t. synced pf t \<Longrightarrow> kin (cur s) (cur t) \<Longrightarrow> E e t"
  shows "wp (pullProviderEvents pf env limit) Q E s"
proof -
  note f = synced_frame [OF sy]
  have put: "wp (thenE putLease (ret b)) Q E t" if "frame_ok pf t" "kin (cur s) (cur t)" for t b
    using Q [OF synced_put [OF that(1)]] that(2) by (simp add: wp_putLease wp_simps)
  have budget: "wp (failForPolicy env c m b) (\<lambda>_. wp (thenE putLease (ret x)) Q E) E s" for c m b x
    by (rule wp_failForPolicy [OF f])
      (auto intro!: put E syncedI [OF _ _ synced_store [OF sy]])
  have ingest: "wp (ingestBatch pf env (cur s) batch) (\<lambda>_. wp (ret x) Q E) E (s\<lparr>wd := w\<rparr>)"
    if "providerFor env (cur s) = Inr p" for p batch x w
    using wp_ingestBatch [of pf "s\<lparr>wd := w\<rparr>" env p "\<lambda>_. Q x" batch E] f that Q
    by (simp add: wp_ret_fun)
  show ?thesis
    unfolding pullProviderEvents_def wp_bindE wp_gets
    using budget sy Q [OF sy] E [OF sy]
    by (auto simp: wp_bindE wp_thenE wp_ret wp_lift_sum split: option.split sum.split
        intro!: wp_call [where E = E] ingest E)
qed

end
