(* ===== verification/Control_Plane_Api.thy ===== *)
theory Control_Plane_Api
  imports Control_Plane_Invariants
begin

text \<open>
  Every API method of the control plane keeps the store invariant, only extends the event logs and
  never changes the identity of a lease. The methods are then the steps of a transition system in
  which the world may move on its own between two calls, and the invariant holds in its reachable
  states.
\<close>

section \<open>The store invariant\<close>

lemma appended_single:
  assumes "appended l [e] ns"
  obtains n where "ns = [n]" and "ev_type n = pe_type e" and "ev_id n = pe_id e" and "ev_data n = pe_data e"
    and "ev_sequence n = Suc (le_lastEventSequence l)"
proof -
  from assms have "map ev_id ns = [pe_id e]" and "map ev_type ns = [pe_type e]" and "map ev_data ns = [pe_data e]"
    and "map ev_sequence ns = [Suc (le_lastEventSequence l)]"
    by (simp_all add: appended_def)
  then show thesis using that by (cases ns) auto
qed

lemma wp_loadLease:
  assumes so: "store_ok pf (st s)"
    and Q: "\<And>l. store_get i (st s) = Some l \<Longrightarrow> le_id l = i \<Longrightarrow> synced pf (s\<lparr>cur := l\<rparr>) \<Longrightarrow> Q l (s\<lparr>cur := l\<rparr>)"
    and E: "store_get i (st s) = None \<Longrightarrow> E (not_found i) s"
  shows "wp (loadLease i) Q E s"
proof (cases "store_get i (st s)")
  case None
  with E show ?thesis by (simp add: loadLease_def getExecution_def wp_simps)
next
  case (Some l)
  from store_ok_get [OF so Some] have "le_id l = i" by (simp add: lease_ok_def)
  with Some Q synced_load [OF so Some] show ?thesis
    by (simp add: loadLease_def getExecution_def wp_simps)
qed

lemma wp_getExecution: "wp (getExecution i) Q E s =
    (case store_get i (st s) of None \<Rightarrow> E (not_found i) s | Some l \<Rightarrow> Q l s)"
  by (simp add: getExecution_def wp_simps split: option.split)

lemma frame_ok_like:
  assumes "frame_ok pf t" and "st s = st t" and "le_id (cur s) = le_id (cur t)"
    and "le_request (cur s) = le_request (cur t)"
    and "le_lastEventSequence (cur s) = le_lastEventSequence (cur t)"
    and "le_seenProviderEventIds (cur s) = le_seenProviderEventIds (cur t)"
  shows "frame_ok pf s"
  using assms by (simp add: frame_ok_def lease_ok_def within_budget_def)

abbreviation store_kept :: "platform \<Rightarrow> 'a \<Rightarrow> 'w cps \<Rightarrow> bool" where
  "store_kept pf x s \<equiv> store_ok pf (st s)"

lemma getExecution_kept: "store_ok pf (st s) \<Longrightarrow> wp (getExecution i) (store_kept pf) (store_kept pf) s"
  by (simp add: wp_getExecution split: option.split)

lemma synced_kept: "synced pf s \<Longrightarrow> store_kept pf x s"
  by (rule synced_store)

lemma put_kept:
  assumes "frame_ok pf s"
  shows "wp (thenE putLease (getExecution i)) (store_kept pf) (store_kept pf) s"
    and "wp putLease (store_kept pf) E s"
  using store_ok_put [OF assms] by (simp_all add: wp_thenE wp_putLease getExecution_kept)

lemma pull_kept:
  assumes "synced pf s"
  shows "wp (thenE (pullProviderEvents pf env k) (getExecution i)) (store_kept pf) (store_kept pf) s"
  unfolding wp_thenE
  by (rule wp_pull [OF assms]) (auto intro: getExecution_kept synced_kept)

lemma wp_getRunnable:
  assumes so: "store_ok pf (st s)"
    and Q: "\<And>l h sb. store_get i (st s) = Some l \<Longrightarrow> le_handle l = Some h \<Longrightarrow> le_sandbox l = Some sb \<Longrightarrow>
      \<not> isTerminal (le_status l) \<Longrightarrow> synced pf (s\<lparr>cur := l\<rparr>) \<Longrightarrow> le_id l = i \<Longrightarrow> Q (l, h, sb) (s\<lparr>cur := l\<rparr>)"
    and E: "\<And>e c. E e (s\<lparr>cur := c\<rparr>)" "\<And>e. E e s"
  shows "wp (getRunnable i) Q E s"
  unfolding getRunnable_def wp_bindE
  by (rule wp_loadLease [OF so]) (auto simp: wp_simps intro: Q E split: option.split)

lemma forwardInput_kept:
  assumes so: "store_ok pf (st s)"
  shows "wp (forwardInput pf env bad m i d) (store_kept pf) (store_kept pf) s"
  unfolding forwardInput_def wp_thenE wp_if wp_bindE wp_ret wp_throw
  by (auto simp: so wp_bindE wp_thenE wp_lift_sum split: sum.split
      intro!: wp_getRunnable [OF so] wp_call pull_kept [unfolded wp_thenE])

lemma suspend_kept:
  assumes so: "store_ok pf (st s)"
  shows "wp (suspend env i) (store_kept pf) (store_kept pf) s"
  unfolding suspend_def wp_bindE
  apply (rule wp_getRunnable [OF so])
  subgoal premises p for l h sb
    by (auto simp: so wp_simps split: sum.split intro!: wp_call wp_touch wp_appendEvents
        put_kept [unfolded wp_simps] frame_ok_append frame_ok_like [OF synced_frame [OF p(5)]])
  by (simp_all add: so)

lemma sync_put_kept:
  assumes "frame_ok pf s"
  shows "wp (thenE putLease (thenE (pullProviderEvents pf env k) (getExecution i))) (store_kept pf) (store_kept pf) s"
  unfolding wp_thenE [of putLease] wp_putLease by (rule pull_kept [OF synced_put [OF assms]])

lemma resume_kept:
  assumes so: "store_ok pf (st s)"
  shows "wp (resume pf env i) (store_kept pf) (store_kept pf) s"
  unfolding resume_def wp_bindE
  apply (rule wp_loadLease [OF so])
  subgoal premises p for l
    by (auto simp: so wp_bindE wp_thenE [of _ "thenE _ _"] wp_throw wp_lift_sum wp_setCur wp_setStatus
        split: sum.split option.split intro!: wp_call wp_touch wp_appendEvents
        sync_put_kept [unfolded wp_thenE [of putLease]] frame_ok_append frame_ok_like [OF synced_frame [OF p(3)]])
  by (simp add: so)

lemma streamEvents_kept:
  assumes so: "store_ok pf (st s)"
  shows "wp (streamEvents pf env i c k) (store_kept pf) (store_kept pf) s"
  unfolding streamEvents_def wp_bindE [of "lift_sum _"] wp_lift_sum wp_bindE [of "loadLease _"]
  by (auto simp: so wp_simps wp_getExecution split: sum.split option.split
      intro!: wp_loadLease [OF so] wp_pull simp: synced_store)


lemma terminate_kept:
  assumes so: "store_ok pf (st s)"
  shows "wp (terminate pf env i) (store_kept pf) (store_kept pf) s"
  unfolding terminate_def wp_bindE
  apply (rule wp_loadLease [OF so])
  subgoal premises p for l
    by (auto simp: so wp_simps split: sum.split option.split intro!: wp_touch wp_cleanup wp_appendEvents
        put_kept [unfolded wp_simps] frame_ok_append frame_ok_like [OF synced_frame [OF p(3)]])
  by (simp add: so)

lemma collect_tail_kept:
  assumes "frame_ok pf s"
  shows "wp (bindE (cleanup env p sb) (\<lambda>receipt. thenE (setCleanup receipt) (thenE (touch env)
     (thenE (appendEvents env [h receipt]) (thenE putLease (getExecution i))))))
     (store_kept pf) (store_kept pf) s"
  by (auto simp: wp_simps intro!: wp_touch wp_cleanup wp_appendEvents
      put_kept [unfolded wp_simps] frame_ok_append frame_ok_like [OF assms])

lemma collectResult_kept:
  assumes so: "store_ok pf (st s)"
  shows "wp (collectResult pf env i) (store_kept pf) (store_kept pf) s"
proof -
  have rest: "wp (bindE (lift_sum (providerFor env l)) (\<lambda>provider.
      bindE (call (pv_collectResult provider h)) (\<lambda>result.
      thenE (setCur (\<lambda>l. l\<lparr>le_result := Some result\<rparr>))
      (thenE (setStatus (status_of_result (pr_status result)))
      (bindE (cleanup env provider sb) (\<lambda>receipt. thenE (setCleanup receipt) (thenE (touch env)
        (thenE (appendEvents env [cp_event (le_id l @ '':cleanup'') CleanupCompleted (receipt_js pf receipt)])
        (thenE putLease (getExecution j))))))))))
     (store_kept pf) (store_kept pf) t" if "synced pf t" for l h sb t j
    unfolding wp_bindE [of "lift_sum _"] wp_bindE [of "call _"] wp_lift_sum wp_thenE [of "setCur _"]
      wp_setCur wp_thenE [of "setStatus _"] wp_setStatus
    using that by (auto split: sum.split intro!: wp_call collect_tail_kept
        frame_ok_like [OF synced_frame [OF that]] intro: synced_store)
  show ?thesis
    unfolding collectResult_def wp_bindE [of "loadLease _"]
    by (rule wp_loadLease [OF so])
      (auto simp: so wp_ret wp_throw wp_thenE split: option.split simp: synced_store intro!: wp_pull rest)
qed


lemma terminate_returns:
  assumes so: "store_ok pf (st s)"
  shows "wp (terminate pf env i) (\<lambda>l t. store_ok pf (st t) \<and> store_get i (st t) = Some l \<and> le_id l = i)
    (store_kept pf) s"
  unfolding terminate_def wp_bindE
  apply (rule wp_loadLease [OF so])
  subgoal premises p for l
  proof -
    have put: "wp (thenE putLease (getExecution j)) (\<lambda>l t. store_ok pf (st t) \<and> store_get j (st t) = Some l \<and> le_id l = j)
        (store_kept pf) t" if "frame_ok pf t" "le_id (cur t) = j" for t j
      using store_ok_put [OF that(1)] that(2) by (simp add: wp_thenE wp_putLease wp_getExecution)
    show ?thesis
      using p by (auto simp: so wp_simps split: sum.split option.split intro!: wp_touch wp_cleanup wp_appendEvents
        put [unfolded wp_thenE] frame_ok_append frame_ok_like [OF synced_frame [OF p(3)]])
  qed
  by (simp add: so)

lemma reapOne_kept:
  assumes so: "store_ok pf (st s)"
  shows "wp (reapOne pf env i) (store_kept pf) (store_kept pf) s"
proof -
  have put: "wp putLease (\<lambda>_. wp (gets cur) (store_kept pf) (store_kept pf)) (store_kept pf) t"
    if "frame_ok pf t" for t
    using store_ok_put [OF that] by (simp add: wp_putLease wp_gets)
  show ?thesis
    unfolding reapOne_def wp_bindE
    apply (rule wp_mono [OF terminate_returns [OF so]])
    subgoal premises p for l t
      using p synced_load [of pf t i l]
      by (auto simp: wp_thenE wp_setCur intro!: wp_touch put frame_ok_like [OF synced_frame])
    by simp
qed

lemma reapExpired_kept:
  assumes so: "store_ok pf (st s)"
  shows "wp (reapExpired pf env) (store_kept pf) (store_kept pf) s"
proof -
  have loop: "wp (seqE (map (\<lambda>l. reapOne pf env (le_id l)) ls)) (store_kept pf) (store_kept pf) t"
    if "store_ok pf (st t)" for ls t
  proof -
    have "keeps (\<lambda>s. store_ok pf (st s)) (seqE (map (\<lambda>l. reapOne pf env (le_id l)) ls))"
      by (rule keeps_seqE) (auto simp: keeps_wp reapOne_kept)
    with that show ?thesis by (simp add: keeps_wp)
  qed
  show ?thesis
    unfolding reapExpired_def wp_bindE wp_gets by (intro wp_now loop) (simp add: so)
qed

section \<open>Creating\<close>

text \<open>The identifier the next lease would get, and that it is not taken.\<close>

definition next_id :: "'w cp_env \<Rightarrow> 'w \<Rightarrow> string" where
  "next_id env w = ''exec_'' @ sanitizeId (fst (env_idFactory env (snd (env_now env w))))"

definition fresh_id :: "'w cp_env \<Rightarrow> 'w cps \<Rightarrow> bool" where
  "fresh_id env s \<longleftrightarrow> store_get (next_id env (wd s)) (st s) = None"

lemma new_lease_simps [simp]:
  "le_id (new_lease p r t i) = ''exec_'' @ sanitizeId i" "le_request (new_lease p r t i) = r"
  "le_lastEventSequence (new_lease p r t i) = 0" "le_seenProviderEventIds (new_lease p r t i) = []"
  "le_sandbox (new_lease p r t i) = None" "le_status (new_lease p r t i) = Starting"
  "le_handle (new_lease p r t i) = None" "le_cleanup (new_lease p r t i) = None"
  by (simp_all add: new_lease_def)

lemma within_budget_new: "valid_request pf r \<Longrightarrow> within_budget (new_lease p r t i)"
  using valid_maxEvents [of pf r] by (auto simp: within_budget_def)

lemma store_ok_new:
  assumes so: "store_ok pf (st s)" and v: "valid_request pf r"
    and none: "store_get (le_id l) (st s) = None"
    and tok: "store_findByClientToken (rq_clientToken r) (st s) = None"
    and l: "l = new_lease p r t i"
  shows "synced pf (s\<lparr>cur := l, st := store_put l (st s)\<rparr>)"
proof -
  have "events_of (le_id l) (st s) = []" using so none by (simp add: store_ok_def keys_ok_def)
  then have lease: "lease_ok pf (le_id l) (events_of (le_id l) (st s)) l"
    using v by (simp add: lease_ok_def log_ok_def sequenced_def l within_budget_new del: upt_Suc)
  have keys: "keys_ok (store_put l (st s))"
    using so by (auto simp: store_ok_def keys_ok_def distinct_leases_put)
  have "tokens_unique (store_put l (st s))"
    using so store_find_None [OF tok] l by (fastforce simp: store_ok_def tokens_unique_def split: if_splits)
  with keys lease so show ?thesis
    by (auto simp: synced_def frame_ok_def store_ok_def split: if_splits)
qed


lemma startFailure_kept:
  assumes "frame_ok pf s"
  shows "wp (startFailure env p e) (store_kept pf) (store_kept pf) s"
proof -
  have put: "wp putLease (\<lambda>_. wp (throw x) Q (store_kept pf)) E t" if "frame_ok pf t" for t x Q E
    using store_ok_put [OF that] by (simp add: wp_putLease wp_throw)
  show ?thesis
    unfolding startFailure_def Let_def
    by (auto simp: wp_simps split: option.split intro!: wp_touch wp_cleanup wp_appendEvents put
        frame_ok_append frame_ok_like [OF assms])
qed

text \<open>The start sequence may throw between two writes of the lease; its handler writes it.\<close>

lemma startSequence_frame:
  assumes f: "frame_ok pf s"
  shows "wp (startSequence pf env p) (store_kept pf) (\<lambda>_. frame_ok pf) s"
proof -
  have pull: "wp (thenE putLease (thenE (pullProviderEvents pf env k) (getExecution j))) (store_kept pf) (\<lambda>_. frame_ok pf) t"
    if "frame_ok pf t" for k j t
    unfolding wp_thenE wp_putLease
    by (rule wp_pull [OF synced_put [OF that]])
      (auto simp: wp_getExecution synced_store synced_frame split: option.split)
  have later: "frame_ok pf (t\<lparr>wd := w, cur := c\<rparr>)"
    if "frame_ok pf t" "le_id c = le_id (cur t)" "le_request c = le_request (cur t)"
      "le_lastEventSequence c = le_lastEventSequence (cur t)"
      "le_seenProviderEventIds c = le_seenProviderEventIds (cur t)" for t w c
    by (rule frame_ok_like [OF that(1)]) (simp_all add: that)
  have later': "frame_ok pf (t\<lparr>cur := c\<rparr>)"
    if "frame_ok pf t" "le_id c = le_id (cur t)" "le_request c = le_request (cur t)"
      "le_lastEventSequence c = le_lastEventSequence (cur t)"
      "le_seenProviderEventIds c = le_seenProviderEventIds (cur t)" for t c
    by (rule frame_ok_like [OF that(1)]) (simp_all add: that)
  show ?thesis
    unfolding startSequence_def Let_def
    by (auto simp: f wp_bindE wp_gets wp_ret wp_thenE [of _ "thenE _ _"] wp_thenE [of _ "bindE _ _"] wp_setCur wp_setStatus
        split: option.split
        intro!: wp_call wp_touch wp_appendEvents pull frame_ok_append later later')
qed

lemma createExecution_kept:
  assumes so: "store_ok pf (st s)" and fresh: "fresh_id env s"
  shows "wp (createExecution pf env r) (store_kept pf) (store_kept pf) s"
proof -
  have attempt: "wp (catchE (startSequence pf env p) (startFailure env p)) (store_kept pf) (store_kept pf) t"
    if "frame_ok pf t" for p t
    unfolding wp_catchE
    by (rule wp_mono [OF startSequence_frame [OF that]]) (auto intro: startFailure_kept)
  have "wp (thenE (setCur (\<lambda>_. new_lease p r createdAt i)) (thenE putLease
         (thenE (appendEvents env [created_event pf (new_lease p r createdAt i)])
          (catchE (startSequence pf env p) (startFailure env p))))) (store_kept pf) (store_kept pf) (s\<lparr>wd := w\<rparr>)"
    if v: "valid_request pf r" and tok: "store_findByClientToken (rq_clientToken r) (st s) = None"
      and t: "env_now env (wd s) = (createdAt, w1)" and i: "env_idFactory env w1 = (i, w)" for p createdAt w1 i w
  proof -
    have "synced pf (s\<lparr>cur := new_lease p r createdAt i,
        st := store_put (new_lease p r createdAt i) (st s)\<rparr>)"
      using fresh t i by (intro store_ok_new [OF so v _ tok refl]) (simp add: fresh_id_def next_id_def)
    note f = synced_frame [OF this]
    show ?thesis
      unfolding wp_thenE wp_setCur wp_putLease
      by (intro wp_appendEvents attempt frame_ok_append frame_ok_like [OF f]) simp_all
  qed
  then show ?thesis
    unfolding createExecution_def
    by (auto simp: so valid_request_def wp_bindE wp_lift_sum wp_ret wp_throw wp_gets
        wp_thenE [of "lift_sum _"] split: option.split sum.split intro!: wp_now wp_newId)
qed

section \<open>Event logs only grow\<close>

definition grown :: "exec_store \<Rightarrow> 'w cps \<Rightarrow> bool" where
  "grown store s \<longleftrightarrow> (\<forall>i. \<exists>es. events_of i (st s) = events_of i store @ es)"

lemma grown_refl: "grown (st s) s"
  by (simp add: grown_def)

lemma keeps_quiet:
  assumes "\<And>s. st (snd (m s)) = st s"
  shows "keeps (grown store) m"
  by (rule keepsI) (simp add: grown_def assms)

lemma quiet_steps [simp]:
  "st (snd (call f s)) = st s" "st (snd (now env s)) = st s" "st (snd (newId env s)) = st s"
  "st (snd (setCur g s)) = st s"
  by (simp_all add: call_def now_def newId_def setCur_def modify_def split: prod.split)

lemma keeps_grown [keeps_intros]:
  "keeps (grown store) (call f)" "keeps (grown store) (now env)" "keeps (grown store) (newId env)"
  "keeps (grown store) (setCur g)"
  by (simp_all add: keeps_quiet)

lemma keeps_grown_put [keeps_intros]: "keeps (grown store) putLease"
  by (rule keepsI) (simp add: grown_def putLease_def modify_def)

lemma keeps_grown_append [keeps_intros]: "keeps (grown store) (appendEvents env es)"
  unfolding keeps_wp
proof (intro allI impI wp_appendEvents)
  fix s :: "'a cps" and ns w
  assume g: "grown store s"
  show "grown store (after_append es ns w s)"
    unfolding grown_def
  proof (intro allI)
    fix i
    from g obtain xs where "events_of i (st s) = events_of i store @ xs" by (auto simp: grown_def)
    then show "\<exists>es'. events_of i (st (after_append es ns w s)) = events_of i store @ es'"
      by (cases "i = le_id (cur s)") (auto simp: after_append_def)
  qed
qed

lemma helpers_grown [keeps_intros]:
  "keeps (grown store) (touch env)" "keeps (grown store) (setStatus a)" "keeps (grown store) (setCleanup c)"
  "keeps (grown store) (cleanup env p sb)"
  by (auto simp: touch_def setStatus_def setCleanup_def cleanup_def Let_def intro!: keeps_intros)

lemma failForPolicy_grown [keeps_intros]: "keeps (grown store) (failForPolicy env c m b)"
  by (auto simp: failForPolicy_def intro!: keeps_intros split: option.split)

lemma enforce_grown [keeps_intros]: "keeps (grown store) (enforceBudgets pf env l b unseen)"
  by (simp add: enforceBudgets_def keeps_ret failForPolicy_grown split: option.split)

lemma record_grown [keeps_intros]: "keeps (grown store) (recordUnseen env unseen)"
  unfolding recordUnseen_def by (intro keeps_intros)

lemma ingest_grown [keeps_intros]: "keeps (grown store) (ingestBatch pf env l batch)"
  unfolding ingestBatch_def Let_def by (intro keeps_intros)

lemma pull_grown [keeps_intros]: "keeps (grown store) (pullProviderEvents pf env k)"
  by (auto simp: pullProviderEvents_def intro!: keeps_intros split: option.split)

lemma load_grown [keeps_intros]:
  "keeps (grown store) (getExecution i)" "keeps (grown store) (loadLease i)" "keeps (grown store) (getRunnable i)"
  by (auto simp: getExecution_def loadLease_def getRunnable_def intro!: keeps_intros split: option.split)

lemma create_grown: "keeps (grown store) (createExecution pf env r)"
  by (auto simp: createExecution_def startSequence_def startFailure_def Let_def intro!: keeps_intros
      split: option.split)

lemma methods_grown:
  "keeps (grown store) (streamEvents pf env i c k)" "keeps (grown store) (resolveApproval pf env i d)"
  "keeps (grown store) (submitInput pf env i d)" "keeps (grown store) (steer pf env i d)"
  "keeps (grown store) (suspend env i)" "keeps (grown store) (resume pf env i)"
  "keeps (grown store) (collectResult pf env i)" "keeps (grown store) (terminate pf env i)"
  by (auto simp: streamEvents_def resolveApproval_def submitInput_def steer_def forwardInput_def
      suspend_def resume_def collectResult_def terminate_def intro!: keeps_intros split: option.split)

lemma reap_grown: "keeps (grown store) (reapExpired pf env)"
  by (auto simp: reapExpired_def reapOne_def intro!: keeps_intros keeps_seqE methods_grown)

section \<open>Leases keep their identity\<close>

definition same_identity :: "lease \<Rightarrow> lease \<Rightarrow> bool" where
  "same_identity l k \<longleftrightarrow> le_id k = le_id l \<and> le_request k = le_request l \<and>
     le_provider k = le_provider l \<and> le_createdAt k = le_createdAt l \<and>
     le_expiresAt k = le_expiresAt l \<and> le_schemaVersion k = le_schemaVersion l"

definition identified :: "exec_store \<Rightarrow> 'w cps \<Rightarrow> bool" where
  "identified store s \<longleftrightarrow>
     (\<forall>i l. store_get i store = Some l \<longrightarrow> (\<exists>k. store_get i (st s) = Some k \<and> same_identity l k)) \<and>
     (\<forall>i k. store_get i (st s) = Some k \<longrightarrow> le_id k = i) \<and>
     (\<forall>k. store_get (le_id (cur s)) (st s) = Some k \<longrightarrow> same_identity k (cur s))"

lemma same_identity_refl [simp]: "same_identity l l"
  by (simp add: same_identity_def)

lemma same_identity_trans: "same_identity a b \<Longrightarrow> same_identity b c \<Longrightarrow> same_identity a c"
  by (simp add: same_identity_def)

lemma identified_get:
  "identified store s \<Longrightarrow> store_get i store = Some l \<Longrightarrow>
   \<exists>k. store_get i (st s) = Some k \<and> same_identity l k"
  unfolding identified_def by blast

lemma identified_id: "identified store s \<Longrightarrow> store_get i (st s) = Some k \<Longrightarrow> le_id k = i"
  unfolding identified_def by blast

lemma identified_same: "identified store s \<Longrightarrow> store_get (le_id (cur s)) (st s) = Some k \<Longrightarrow> same_identity k (cur s)"
  unfolding identified_def by blast

lemma identifiedI:
  assumes "\<And>i l. store_get i store = Some l \<Longrightarrow> \<exists>k. store_get i (st s) = Some k \<and> same_identity l k"
    and "\<And>i k. store_get i (st s) = Some k \<Longrightarrow> le_id k = i"
    and "\<And>k. store_get (le_id (cur s)) (st s) = Some k \<Longrightarrow> same_identity k (cur s)"
  shows "identified store s"
  unfolding identified_def using assms by blast

lemma identified_like:
  assumes "identified store s" and "\<And>i. store_get i (st t) = store_get i (st s)"
    and "same_identity (cur s) (cur t)"
  shows "identified store t"
proof (rule identifiedI)
  fix k assume "store_get (le_id (cur t)) (st t) = Some k"
  with assms(2,3) have "store_get (le_id (cur s)) (st s) = Some k" by (simp add: same_identity_def)
  then show "same_identity k (cur t)"
    by (rule same_identity_trans [OF identified_same [OF assms(1)] assms(3)])
qed (simp_all add: assms(2) identified_get [OF assms(1)] identified_id [OF assms(1)])

lemma identified_cur:
  "identified store s \<Longrightarrow> same_identity (cur s) c \<Longrightarrow> identified store (s\<lparr>cur := c\<rparr>)"
  by (rule identified_like) simp_all

lemma identified_load:
  assumes "identified store s" and "\<And>k. store_get (le_id l) (st s) = Some k \<Longrightarrow> same_identity k l"
  shows "identified store (s\<lparr>wd := w, cur := l\<rparr>)"
  by (rule identifiedI) (simp_all add: assms identified_get [OF assms(1)] identified_id [OF assms(1)])

lemma identified_wd [simp]: "identified store (s\<lparr>wd := w\<rparr>) = identified store s"
  by (simp add: identified_def)

lemma keeps_identified [keeps_intros]:
  "keeps (identified store) (call f)" "keeps (identified store) (now env)" "keeps (identified store) (newId env)"
  by (auto simp: keeps_def call_def now_def newId_def split: prod.split)

lemma keeps_identified_setCur [keeps_intros]:
  "(\<And>l. same_identity l (g l)) \<Longrightarrow> keeps (identified store) (setCur g)"
  by (simp add: keeps_def setCur_def modify_def identified_cur)

lemma identified_put:
  assumes id: "identified store s"
  shows "identified store (s\<lparr>st := store_put (cur s) (st s)\<rparr>)"
proof (rule identifiedI)
  fix i l assume "store_get i store = Some l"
  from identified_get [OF id this] obtain k where "store_get i (st s) = Some k" "same_identity l k" by blast
  with identified_same [OF id] show "\<exists>k. store_get i (st (s\<lparr>st := store_put (cur s) (st s)\<rparr>)) = Some k \<and> same_identity l k"
    by (auto intro: same_identity_trans)
qed (auto simp: identified_id [OF id] split: if_splits)

lemma keeps_identified_put [keeps_intros]: "keeps (identified store) putLease"
  by (simp add: keeps_def putLease_def modify_def identified_put)

lemma keeps_identified_append [keeps_intros]: "keeps (identified store) (appendEvents env es)"
  unfolding keeps_wp
proof (intro allI impI wp_appendEvents)
  fix s :: "'w cps" and ns w
  assume "identified store s"
  then show "identified store (after_append es ns w s)"
    by (rule identified_like) (simp_all add: after_append_def same_identity_def)
qed

lemma loadLease_identified [keeps_intros]: "keeps (identified store) (loadLease i)"
  unfolding keeps_wp
proof (intro allI impI)
  fix s :: "'w cps"
  assume id: "identified store s"
  have "identified store (s\<lparr>cur := l\<rparr>)" if "store_get i (st s) = Some l" for l
    using identified_load [OF id, of l "wd s"] identified_id [OF id that] that by simp
  with id show "wp (loadLease i) (\<lambda>_. identified store) (\<lambda>_. identified store) s"
    by (simp add: loadLease_def getExecution_def wp_simps split: option.split)
qed

lemma helpers_identified [keeps_intros]:
  "keeps (identified store) (touch env)" "keeps (identified store) (setStatus a)"
  "keeps (identified store) (setCleanup c)" "keeps (identified store) (cleanup env p sb)"
  "keeps (identified store) (getExecution i)"
  by (auto simp: touch_def setStatus_def setCleanup_def cleanup_def getExecution_def Let_def same_identity_def
      intro!: keeps_intros split: option.split)

lemma failForPolicy_identified [keeps_intros]: "keeps (identified store) (failForPolicy env c m b)"
  by (auto simp: failForPolicy_def same_identity_def intro!: keeps_intros split: option.split)

lemma enforce_identified [keeps_intros]: "keeps (identified store) (enforceBudgets pf env l b unseen)"
  by (simp add: enforceBudgets_def keeps_ret failForPolicy_identified split: option.split)

lemma record_identified [keeps_intros]: "keeps (identified store) (recordUnseen env unseen)"
  unfolding recordUnseen_def by (intro keeps_intros) (simp_all add: same_identity_def)

lemma ingest_identified [keeps_intros]: "keeps (identified store) (ingestBatch pf env l batch)"
  unfolding ingestBatch_def Let_def by (intro keeps_intros) (simp_all add: same_identity_def)

lemma pull_identified [keeps_intros]: "keeps (identified store) (pullProviderEvents pf env k)"
  by (auto simp: pullProviderEvents_def intro!: keeps_intros split: option.split)

lemma getRunnable_identified [keeps_intros]: "keeps (identified store) (getRunnable i)"
  by (auto simp: getRunnable_def intro!: keeps_intros split: option.split)

lemma methods_identified:
  "keeps (identified store) (streamEvents pf env i c k)" "keeps (identified store) (resolveApproval pf env i d)"
  "keeps (identified store) (submitInput pf env i d)" "keeps (identified store) (steer pf env i d)"
  "keeps (identified store) (suspend env i)" "keeps (identified store) (resume pf env i)"
  "keeps (identified store) (collectResult pf env i)" "keeps (identified store) (terminate pf env i)"
  by (auto simp: streamEvents_def resolveApproval_def submitInput_def steer_def forwardInput_def
      suspend_def resume_def collectResult_def terminate_def same_identity_def
      intro!: keeps_intros split: option.split)

lemma keeps_wp_conj: "keeps I m \<Longrightarrow> I s \<Longrightarrow> wp m Q E s \<Longrightarrow> wp m (\<lambda>x t. Q x t \<and> I t) (\<lambda>e t. E e t \<and> I t) s"
  by (auto simp: keeps_def wp_def split: prod.splits sum.splits)

lemma reapOne_identified:
  fixes s :: "'w cps"
  assumes so: "store_ok pf (st s)" and id: "identified store s"
  shows "wp (reapOne pf env i) (\<lambda>_. identified store) (\<lambda>_. identified store) s"
  unfolding reapOne_def wp_bindE
proof (rule wp_mono [OF keeps_wp_conj [OF methods_identified(8) id terminate_returns [OF so]]])
  fix l and t :: "'w cps"
  assume a: "(store_ok pf (st t) \<and> store_get i (st t) = Some l \<and> le_id l = i) \<and> identified store t"
  then have "identified store (t\<lparr>cur := l\<lparr>le_status := Expired\<rparr>\<rparr>)"
    using identified_load [of store t "l\<lparr>le_status := Expired\<rparr>" "wd t"] by (simp add: same_identity_def)
  moreover have "keeps (identified store) (thenE (touch env) (thenE putLease (gets cur)))"
    by (intro keeps_intros)
  ultimately show "wp (thenE (setCur (\<lambda>_. l\<lparr>le_status := Expired\<rparr>)) (thenE (touch env) (thenE putLease (gets cur))))
      (\<lambda>_. identified store) (\<lambda>_. identified store) t"
    by (simp add: wp_thenE [of "setCur _"] wp_setCur keeps_wp)
qed simp

lemma reapExpired_identified:
  assumes so: "store_ok pf (st s)" and id: "identified store s"
  shows "wp (reapExpired pf env) (\<lambda>_. identified store) (\<lambda>_. identified store) s"
proof -
  have one: "keeps (\<lambda>s. identified store s \<and> store_ok pf (st s)) (reapOne pf env i)" for i
    unfolding keeps_wp by (auto intro!: wp_conj reapOne_identified reapOne_kept)
  have "keeps (\<lambda>s. identified store s \<and> store_ok pf (st s)) (seqE (map (\<lambda>l. reapOne pf env (le_id l)) ls))" for ls
    by (rule keeps_seqE) (auto simp: one)
  note run = keepsD [OF this]
  have loop: "wp (seqE (map (\<lambda>l. reapOne pf env (le_id l)) ls)) (\<lambda>_. identified store) (\<lambda>_. identified store) t"
    if "store_ok pf (st t)" "identified store t" for ls t
    using run [of t ls] that by (simp add: wp_state)
  show ?thesis
    unfolding reapExpired_def wp_bindE wp_gets by (intro wp_now loop) (simp_all add: so id)
qed

lemma createExecution_identified:
  assumes id: "identified store s" and fresh: "fresh_id env s"
  shows "wp (createExecution pf env r) (\<lambda>_. identified store) (\<lambda>_. identified store) s"
proof -
  have rest: "keeps (identified store) (thenE putLease (thenE (appendEvents env es)
      (catchE (startSequence pf env p) (startFailure env p))))" for es p
    by (auto simp: startSequence_def startFailure_def Let_def same_identity_def intro!: keeps_intros
        split: option.split)
  have new: "identified store (s\<lparr>wd := w, cur := new_lease p r t i\<rparr>)"
    if "env_now env (wd s) = (t, w1)" "env_idFactory env w1 = (i, w)" for p t i w1 w
    by (rule identified_load [OF id]) (use fresh that in \<open>simp add: fresh_id_def next_id_def\<close>)
  show ?thesis
    unfolding createExecution_def
    by (auto simp: id wp_bindE wp_lift_sum wp_ret wp_throw wp_gets wp_setCur
        wp_thenE [of "lift_sum _"] wp_thenE [of "setCur _"] split: option.split sum.split
        intro!: wp_now wp_newId new rest [unfolded keeps_wp, rule_format])
qed

section \<open>The control plane as a transition system\<close>

datatype cp_request =
    RqCreate js
  | RqGet string
  | RqList
  | RqStream string "string option" "int option"
  | RqResolve string js
  | RqSubmit string js
  | RqSteer string js
  | RqSuspend string
  | RqResume string
  | RqCollect string
  | RqTerminate string
  | RqReap

fun run_request :: "platform \<Rightarrow> 'w cp_env \<Rightarrow> cp_request \<Rightarrow> 'w cps \<Rightarrow> 'w cps" where
  "run_request pf env (RqCreate r) s = snd (createExecution pf env r s)"
| "run_request pf env (RqGet i) s = snd (getExecution i s)"
| "run_request pf env RqList s = snd (listExecutions s)"
| "run_request pf env (RqStream i c k) s = snd (streamEvents pf env i c k s)"
| "run_request pf env (RqResolve i d) s = snd (resolveApproval pf env i d s)"
| "run_request pf env (RqSubmit i d) s = snd (submitInput pf env i d s)"
| "run_request pf env (RqSteer i d) s = snd (steer pf env i d s)"
| "run_request pf env (RqSuspend i) s = snd (suspend env i s)"
| "run_request pf env (RqResume i) s = snd (resume pf env i s)"
| "run_request pf env (RqCollect i) s = snd (collectResult pf env i s)"
| "run_request pf env (RqTerminate i) s = snd (terminate pf env i s)"
| "run_request pf env RqReap s = snd (reapExpired pf env s)"

text \<open>
  A step runs one request, or the world (providers, clock, identifier supply) moves by itself. A
  request that creates an execution must draw an identifier that no lease has, which is what the
  code expects of the identifier factory (random UUIDs unless configured).
\<close>

definition draws_fresh :: "'w cp_env \<Rightarrow> cp_request \<Rightarrow> 'w cps \<Rightarrow> bool" where
  "draws_fresh env q s = (case q of RqCreate _ \<Rightarrow> fresh_id env s | _ \<Rightarrow> True)"

inductive cp_step :: "platform \<Rightarrow> 'w cp_env \<Rightarrow> 'w cps \<Rightarrow> 'w cps \<Rightarrow> bool" for pf env where
  request: "draws_fresh env q s \<Longrightarrow> cp_step pf env s (run_request pf env q s)"
| world: "cp_step pf env s (s\<lparr>wd := w\<rparr>)"

inductive cp_steps :: "platform \<Rightarrow> 'w cp_env \<Rightarrow> 'w cps \<Rightarrow> 'w cps \<Rightarrow> bool" for pf env where
  here: "cp_steps pf env s s"
| next_step: "cp_steps pf env s t \<Longrightarrow> cp_step pf env t u \<Longrightarrow> cp_steps pf env s u"

inductive reachable :: "platform \<Rightarrow> 'w cp_env \<Rightarrow> 'w cps \<Rightarrow> bool" for pf env where
  reachableI: "st s = emptyState \<Longrightarrow> cp_steps pf env s t \<Longrightarrow> reachable pf env t"

inductive_cases cp_stepE: "cp_step pf env s t"
inductive_cases reachableE: "reachable pf env t"

lemma reachable_step: "reachable pf env s \<Longrightarrow> cp_step pf env s t \<Longrightarrow> reachable pf env t"
  by (auto elim!: reachableE intro: reachableI cp_steps.next_step)

lemma run_request_kept:
  assumes "store_ok pf (st s)" and "draws_fresh env q s"
  shows "store_ok pf (st (run_request pf env q s))"
  using assms createExecution_kept [of pf s env] streamEvents_kept [of pf s env]
    forwardInput_kept [of pf s env] suspend_kept [of pf s env] resume_kept [of pf s env]
    collectResult_kept [of pf s env] terminate_kept [of pf s env] reapExpired_kept [of pf s env]
    getExecution_kept [of pf s]
  by (cases q) (simp_all add: wp_state draws_fresh_def resolveApproval_def submitInput_def steer_def
      listExecutions_def gets_def)

lemma run_request_grown: "grown (st s) (run_request pf env q s)"
  using keepsD [OF create_grown grown_refl] keepsD [OF methods_grown(1) grown_refl]
    keepsD [OF methods_grown(2) grown_refl] keepsD [OF methods_grown(3) grown_refl]
    keepsD [OF methods_grown(4) grown_refl] keepsD [OF methods_grown(5) grown_refl]
    keepsD [OF methods_grown(6) grown_refl] keepsD [OF methods_grown(7) grown_refl]
    keepsD [OF methods_grown(8) grown_refl] keepsD [OF reap_grown grown_refl]
    keepsD [OF load_grown(1) grown_refl]
  by (cases q) (simp_all add: listExecutions_def gets_def grown_refl)

lemma run_request_identified:
  assumes "store_ok pf (st s)" and "identified store s" and "draws_fresh env q s"
  shows "identified store (run_request pf env q s)"
  using assms(1,3) createExecution_identified [OF assms(2), of env pf]
    reapExpired_identified [OF assms(1,2)] keepsD [OF methods_identified(1) assms(2)]
    keepsD [OF methods_identified(2) assms(2)] keepsD [OF methods_identified(3) assms(2)]
    keepsD [OF methods_identified(4) assms(2)] keepsD [OF methods_identified(5) assms(2)]
    keepsD [OF methods_identified(6) assms(2)] keepsD [OF methods_identified(7) assms(2)]
    keepsD [OF methods_identified(8) assms(2)] keepsD [OF helpers_identified(5) assms(2)]
  by (cases q) (simp_all add: wp_state draws_fresh_def listExecutions_def gets_def assms(2))

lemma cp_step_kept:
  assumes "cp_step pf env s t" and "store_ok pf (st s)"
  shows "store_ok pf (st t)" and "identified store s \<Longrightarrow> identified store t"
  using assms by (auto elim!: cp_stepE intro: run_request_kept run_request_identified)

lemma cp_steps_kept:
  assumes "cp_steps pf env s t" and "store_ok pf (st s)"
  shows "store_ok pf (st t) \<and> (identified store s \<longrightarrow> identified store t)"
  using assms by induction (auto intro: cp_step_kept)

lemma reachable_ok: "reachable pf env s \<Longrightarrow> store_ok pf (st s)"
  by (auto elim!: reachableE dest: cp_steps_kept simp: store_ok_empty)

lemma reachable_identified: "reachable pf env s \<Longrightarrow> identified (st s) s"
proof -
  assume "reachable pf env s"
  then obtain s0 where s0: "st s0 = emptyState" "cp_steps pf env s0 s" by (auto elim: reachableE)
  have "identified emptyState s0" by (rule identifiedI) (simp_all add: s0(1) emptyState_def store_get_def)
  with cp_steps_kept [OF s0(2), of emptyState] s0(1) have id: "identified emptyState s"
    by (simp add: store_ok_empty)
  show ?thesis
    by (rule identifiedI) (auto simp: identified_id [OF id] identified_same [OF id])
qed

lemma cp_steps_grown:
  assumes "cp_steps pf env s t"
  shows "grown (st s) t"
  using assms
proof induction
  case (next_step s t u)
  from next_step.hyps(2) have "grown (st t) u"
  proof (rule cp_stepE)
    fix q assume "u = run_request pf env q t"
    then show ?thesis by (simp add: run_request_grown)
  qed (simp add: grown_def)
  show ?case
    unfolding grown_def
  proof
    fix i
    from next_step.IH obtain a where "events_of i (st t) = events_of i (st s) @ a" by (auto simp: grown_def)
    moreover from \<open>grown (st t) u\<close> obtain b where "events_of i (st u) = events_of i (st t) @ b"
      by (auto simp: grown_def)
    ultimately show "\<exists>es. events_of i (st u) = events_of i (st s) @ es" by simp
  qed
qed (rule grown_refl)

lemma steps_identity:
  assumes r: "reachable pf env s" and st: "cp_steps pf env s t" and l: "store_get i (st s) = Some l"
  shows "\<exists>k. store_get i (st t) = Some k \<and> same_identity l k"
  using cp_steps_kept [OF st reachable_ok [OF r], of "st s"] reachable_identified [OF r]
  by (auto intro: identified_get [OF _ l])

end
