(* ===== verification/Control_Plane_Budget.thy ===== *)
theory Control_Plane_Budget
  imports Control_Plane_Api
begin

text \<open>
  What is in an event log: the provider's events that were recorded for the budget, in the order they
  were recorded, interleaved with events of the control plane's own - and nothing else. So a bound on the
  recorded identifiers is a bound on the provider events in the log. The invariant holds of every stored
  lease between two calls; while a batch is ingested the log is ahead of the stored lease, and the lease
  in \<open>cur\<close> accounts for it.
\<close>

section \<open>Interleaved lists\<close>

lemma shuffles_left: "zs \<in> shuffles xs ys \<Longrightarrow> zs @ ws \<in> shuffles (xs @ ws) ys"
proof (induction zs arbitrary: xs ys)
  case (Cons z zs)
  from Cons.prems consider (left) xs' where "xs = z # xs'" "zs \<in> shuffles xs' ys"
    | (right) ys' where "ys = z # ys'" "zs \<in> shuffles xs ys'"
    unfolding Cons_in_shuffles_iff by (cases xs; cases ys) auto
  then show ?case
  proof cases
    case left
    then show ?thesis using Cons.IH [OF left(2)] Cons_in_shuffles_leftI by simp
  next
    case right
    then show ?thesis using Cons.IH [OF right(2)] Cons_in_shuffles_rightI by simp
  qed
qed simp

lemma shuffles_right: "zs \<in> shuffles xs ys \<Longrightarrow> zs @ ws \<in> shuffles xs (ys @ ws)"
  using shuffles_left [of zs ys xs ws] by (simp add: shuffles_commutes)

section \<open>The control plane's own events\<close>

text \<open>They are named after an execution and what happened to it, and have the type of that happening.\<close>

definition own_name :: "string \<Rightarrow> event_type \<Rightarrow> bool" where
  "own_name x ty \<longleftrightarrow>
     (x, ty) \<in> {(''created'', ExecutionCreated), (''sandbox-started'', SandboxStarted),
       (''start-failed'', ExecutionFailed), (''cleanup'', CleanupCompleted), (''terminated'', SandboxTerminated)} \<or>
     (\<exists>n. (x, ty) \<in> {(''policy-failed:'' @ nat_str n, ExecutionFailed), (''suspended:'' @ nat_str n, SandboxSuspended),
       (''resumed:'' @ nat_str n, SandboxResumed)})"

definition own_event :: "string \<Rightarrow> event_type \<Rightarrow> bool" where
  "own_event i ty \<longleftrightarrow> (\<exists>execution x. i = execution @ '':'' @ x \<and> own_name x ty)"

lemma own_events:
  "own_event (j @ '':created'') ExecutionCreated" "own_event (j @ '':sandbox-started'') SandboxStarted"
  "own_event (j @ '':start-failed'') ExecutionFailed" "own_event (j @ '':cleanup'') CleanupCompleted"
  "own_event (j @ '':terminated'') SandboxTerminated"
  "own_event (j @ '':policy-failed:'' @ nat_str n) ExecutionFailed"
  "own_event (j @ '':suspended:'' @ nat_str n) SandboxSuspended" "own_event (j @ '':resumed:'' @ nat_str n) SandboxResumed"
  by (auto simp: own_event_def own_name_def)

lemmas own_events_simp [simp] = own_events [simplified]

definition tallied :: "lease \<Rightarrow> exec_event list \<Rightarrow> bool" where
  "tallied l es \<longleftrightarrow> (\<exists>ps cs. es \<in> shuffles ps cs \<and> map ev_id ps = le_seenProviderEventIds l \<and>
     (\<forall>e \<in> set cs. own_event (ev_id e) (ev_type e)))"

lemma tallied_new: "tallied (new_lease p r t i) []"
  by (simp add: tallied_def)

lemma tallied_same: "tallied l es \<Longrightarrow> le_seenProviderEventIds k = le_seenProviderEventIds l \<Longrightarrow> tallied k es"
  by (simp add: tallied_def)

abbreviation own_pe :: "provider_event \<Rightarrow> bool" where
  "own_pe e \<equiv> own_event (pe_id e) (pe_type e)"

lemma own_copies:
  "map ev_id ns = map pe_id es \<Longrightarrow> map ev_type ns = map pe_type es \<Longrightarrow> list_all own_pe es \<Longrightarrow>
   \<forall>n \<in> set ns. own_event (ev_id n) (ev_type n)"
  by (induction ns arbitrary: es) (auto simp: Cons_eq_map_conv)

lemma appended_own: "appended l es ns \<Longrightarrow> list_all own_pe es \<Longrightarrow> \<forall>n \<in> set ns. own_event (ev_id n) (ev_type n)"
  by (rule own_copies) (simp_all add: appended_def)

lemma tallied_own: "tallied l es \<Longrightarrow> \<forall>n \<in> set ns. own_event (ev_id n) (ev_type n) \<Longrightarrow> tallied l (es @ ns)"
proof -
  assume t: "tallied l es" and ns: "\<forall>n \<in> set ns. own_event (ev_id n) (ev_type n)"
  from t obtain ps cs where "es \<in> shuffles ps cs" "map ev_id ps = le_seenProviderEventIds l"
    "\<forall>e \<in> set cs. own_event (ev_id e) (ev_type e)" by (auto simp: tallied_def)
  with ns show ?thesis
    unfolding tallied_def by (intro exI [of _ ps] exI [of _ "cs @ ns"]) (auto intro: shuffles_right)
qed

lemma tallied_recorded:
  assumes "tallied l es" and "le_seenProviderEventIds k = le_seenProviderEventIds l @ map ev_id ns"
  shows "tallied k (es @ ns)"
proof -
  from assms(1) obtain ps cs where "es \<in> shuffles ps cs" "map ev_id ps = le_seenProviderEventIds l"
    "\<forall>e \<in> set cs. own_event (ev_id e) (ev_type e)" by (auto simp: tallied_def)
  with assms(2) show ?thesis
    unfolding tallied_def by (intro exI [of _ "ps @ ns"] exI [of _ cs]) (auto intro: shuffles_left)
qed

section \<open>The invariant\<close>

definition accounted :: "exec_store \<Rightarrow> bool" where
  "accounted store \<longleftrightarrow> (\<forall>i l. store_get i store = Some l \<longrightarrow> le_id l = i \<and> tallied l (events_of i store))"

text \<open>Inside a method: the lease it works on is stored with the recorded identifiers it has.\<close>

definition loaded :: "'w cps \<Rightarrow> bool" where
  "loaded s \<longleftrightarrow> accounted (st s) \<and>
     (\<exists>k. store_get (le_id (cur s)) (st s) = Some k \<and> le_seenProviderEventIds k = le_seenProviderEventIds (cur s))"

text \<open>While a batch is ingested: the log of that lease is accounted for by \<open>cur\<close>.\<close>

definition ingesting :: "string \<Rightarrow> 'w cps \<Rightarrow> bool" where
  "ingesting p s \<longleftrightarrow> le_provider (cur s) = p \<and> store_get (le_id (cur s)) (st s) \<noteq> None \<and>
     (\<forall>i l. i \<noteq> le_id (cur s) \<longrightarrow> store_get i (st s) = Some l \<longrightarrow> le_id l = i \<and> tallied l (events_of i (st s))) \<and>
     tallied (cur s) (events_of (le_id (cur s)) (st s))"

lemma loaded_store: "loaded s \<Longrightarrow> accounted (st s)"
  by (simp add: loaded_def)

lemma loaded_ingesting: "loaded s \<Longrightarrow> ingesting (le_provider (cur s)) s"
  by (auto simp: loaded_def ingesting_def accounted_def intro: tallied_same [OF _ sym])

lemma ingesting_put: "ingesting p s \<Longrightarrow> loaded (s\<lparr>st := store_put (cur s) (st s)\<rparr>)"
  by (auto simp: ingesting_def loaded_def accounted_def split: if_splits)

lemma loaded_load: "accounted (st s) \<Longrightarrow> store_get i (st s) = Some l \<Longrightarrow> loaded (s\<lparr>cur := l\<rparr>)"
  by (simp add: loaded_def accounted_def)

lemma loaded_wd [simp]: "loaded (s\<lparr>wd := w\<rparr>) = loaded s" "ingesting p (s\<lparr>wd := w\<rparr>) = ingesting p s"
  by (simp_all add: loaded_def ingesting_def)

section \<open>Steps of a method\<close>

definition same_tally :: "lease \<Rightarrow> lease \<Rightarrow> bool" where
  "same_tally l k \<longleftrightarrow> le_id k = le_id l \<and> le_provider k = le_provider l \<and>
     le_seenProviderEventIds k = le_seenProviderEventIds l"

lemma keeps_tally [keeps_intros]:
  "keeps loaded (call f)" "keeps loaded (now env)" "keeps loaded (newId env)"
  "keeps (ingesting p) (call f)" "keeps (ingesting p) (now env)"
  by (auto simp: keeps_def call_def now_def newId_def split: prod.split)

lemma keeps_tally_setCur [keeps_intros]:
  "(\<And>l. same_tally l (g l)) \<Longrightarrow> keeps loaded (setCur g)"
  "(\<And>l. same_tally l (g l)) \<Longrightarrow> keeps (ingesting p) (setCur g)"
  by (auto simp: keeps_def setCur_def modify_def loaded_def ingesting_def same_tally_def intro: tallied_same)

lemma keeps_tally_put [keeps_intros]: "keeps loaded putLease"
  using ingesting_put [OF loaded_ingesting] by (auto simp: keeps_def putLease_def modify_def)

lemma keeps_tally_append [keeps_intros]:
  assumes "list_all own_pe es"
  shows "keeps loaded (appendEvents env es)" and "keeps (ingesting p) (appendEvents env es)"
proof -
  have own: "\<forall>n \<in> set ns. own_event (ev_id n) (ev_type n)" if "appended l es ns" for l ns
    by (rule appended_own [OF that assms])
  show "keeps loaded (appendEvents env es)"
    unfolding keeps_wp
    by (intro allI impI wp_appendEvents)
      (auto simp: after_append_def loaded_def accounted_def intro: tallied_own dest: own)
  show "keeps (ingesting p) (appendEvents env es)"
    unfolding keeps_wp
    by (intro allI impI wp_appendEvents)
      (auto simp: after_append_def ingesting_def intro!: tallied_same [OF tallied_own] dest: own)
qed

lemma keeps_tally_get [keeps_intros]: "keeps loaded (getExecution i)"
  by (auto simp: getExecution_def intro!: keeps_intros split: option.split)

lemma helpers_tally [keeps_intros]:
  "keeps loaded (touch env)" "keeps loaded (setStatus a)" "keeps loaded (setCleanup c)" "keeps loaded (cleanup env v sb)"
  "keeps (ingesting p) (touch env)" "keeps (ingesting p) (setStatus a)" "keeps (ingesting p) (setCleanup c)"
  "keeps (ingesting p) (cleanup env v sb)"
  by (auto simp: touch_def setStatus_def setCleanup_def cleanup_def Let_def same_tally_def intro!: keeps_intros)

lemma failForPolicy_tally [keeps_intros]:
  "keeps loaded (failForPolicy env c m b)" "keeps (ingesting p) (failForPolicy env c m b)"
  by (auto simp: failForPolicy_def same_tally_def cp_event_def
      intro!: keeps_intros split: option.split)

lemma failForPolicy_returns:
  "providerFor env (cur s) = Inr p \<Longrightarrow> wp (failForPolicy env c m b) (\<lambda>_ _. True) (\<lambda>_ _. False) s"
  by (auto simp: failForPolicy_def wp_simps split: option.split intro!: wp_touch wp_cleanup wp_appendEvents)

lemma enforce_tally:
  assumes "ingesting p s" and "providerFor env (cur s) = Inr v"
  shows "wp (enforceBudgets pf env l b unseen) (\<lambda>_. ingesting p) (\<lambda>_ _. False) s"
  using keeps_wp_conj [OF failForPolicy_tally(2) assms(1) failForPolicy_returns [OF assms(2)]] assms(1)
  by (auto simp: enforceBudgets_def wp_simps split: option.split)

lemma record_tally:
  assumes "loaded s"
  shows "wp (recordUnseen env unseen) (\<lambda>_ t. ingesting (le_provider (cur s)) t) E s"
proof (cases "unseen = []")
  case True
  with loaded_ingesting [OF assms] show ?thesis by (simp add: recordUnseen_def wp_ret)
next
  case False
  have "ingesting (le_provider (cur s)) ((after_append unseen ns w s)\<lparr>cur := (cur (after_append unseen ns w s))
      \<lparr>le_seenProviderEventIds := le_seenProviderEventIds (cur s) @ map pe_id unseen, le_status := a\<rparr>\<rparr>)"
    if "appended (cur s) unseen ns" for ns w a
    using loaded_ingesting [OF assms] that
    by (auto simp: ingesting_def after_append_def appended_def intro: tallied_recorded)
  with False show ?thesis by (auto simp: recordUnseen_def wp_simps intro!: wp_appendEvents)
qed

lemma ingest_tally:
  assumes "loaded s" and p: "providerFor env (cur s) = Inr v"
  shows "wp (ingestBatch pf env l batch) (\<lambda>_. loaded) E s"
proof -
  let ?p = "le_provider (cur s)"
  have v: "providerFor env k = Inr v" if "le_provider k = ?p" for k
    using p that by (simp add: providerFor_def split: option.splits)
  have enforce: "wp (thenE (enforceBudgets pf env l b unseen) putLease) (\<lambda>_. loaded) E t" if "ingesting ?p t" for t b unseen
  proof -
    from that have "providerFor env (cur t) = Inr v" by (intro v) (simp add: ingesting_def)
    show ?thesis
      unfolding wp_thenE wp_putLease
      by (rule wp_mono [OF enforce_tally [OF that \<open>providerFor env (cur t) = Inr v\<close>]]) (auto intro: ingesting_put)
  qed
  have mid: "keeps (ingesting ?p) (case eb_cursor batch of None \<Rightarrow> ret () | Some c \<Rightarrow> setCur (\<lambda>l. l\<lparr>le_providerCursor := Some c\<rparr>))"
    by (auto intro!: keeps_intros simp: same_tally_def split: option.split)
  have rest: "wp (thenE (touch env) (thenE (enforceBudgets pf env l b unseen) putLease)) (\<lambda>_. loaded) E t"
    if "ingesting ?p t" for t b unseen
    unfolding wp_thenE [of "touch _"]
    by (rule wp_touch, rule enforce) (use that in \<open>auto simp: ingesting_def intro: tallied_same\<close>)
  have later: "wp (thenE (case eb_cursor batch of None \<Rightarrow> ret () | Some c \<Rightarrow> setCur (\<lambda>l. l\<lparr>le_providerCursor := Some c\<rparr>))
      (thenE (touch env) (thenE (enforceBudgets pf env l b unseen) putLease))) (\<lambda>_. loaded) E t"
    if "ingesting ?p t" for t b unseen
  proof (cases "eb_cursor batch")
    case (Some c)
    have "ingesting ?p (t\<lparr>cur := (cur t)\<lparr>le_providerCursor := Some c\<rparr>\<rparr>)"
      using that by (auto simp: ingesting_def intro: tallied_same)
    with Some rest show ?thesis by (simp add: wp_thenE [of "setCur _"] wp_setCur)
  qed (use rest that in \<open>simp add: wp_thenE [of "ret _"] wp_ret\<close>)
  show ?thesis
    unfolding ingestBatch_def Let_def wp_thenE [of "recordUnseen _ _"]
    by (rule wp_mono [OF record_tally [OF assms(1)]]) (auto intro: later)
qed

lemma pull_tally [keeps_intros]: "keeps loaded (pullProviderEvents pf env k)"
proof -
  have "wp (pullProviderEvents pf env k) (\<lambda>_. loaded) (\<lambda>_. loaded) s" if l: "loaded s" for s :: "'a cps"
  proof -
    have over: "wp (thenE (failForPolicy env c m b) (thenE putLease (ret x))) (\<lambda>_. loaded) (\<lambda>_. loaded) s" for c m b and x :: "event_batch option"
    proof -
      have "keeps loaded (thenE (failForPolicy env c m b) (thenE putLease (ret x)))" by (intro keeps_intros)
      with l show ?thesis by (simp add: keeps_wp)
    qed
    have batch: "wp (thenE (ingestBatch pf env j batch) (ret x)) (\<lambda>_. loaded) (\<lambda>_. loaded) (s\<lparr>wd := w\<rparr>)"
      if "providerFor env (cur s) = Inr v" for v batch j w and x :: "event_batch option"
      unfolding wp_thenE wp_ret
      by (rule wp_mono [OF ingest_tally [of "s\<lparr>wd := w\<rparr>", where E = "\<lambda>_. loaded"]]) (simp_all add: l that)
    show ?thesis
      unfolding pullProviderEvents_def wp_bindE wp_gets
      by (auto simp: l wp_ret wp_bindE wp_lift_sum split: option.split sum.split intro!: over wp_call batch)
  qed
  then show ?thesis by (simp add: keeps_wp)
qed

section \<open>Methods\<close>

abbreviation keeps_account :: "('w, 'a) cp \<Rightarrow> bool" where
  "keeps_account m \<equiv> keeps (\<lambda>s. accounted (st s)) m"

lemma bindE_assoc: "bindE (bindE m f) g = bindE m (\<lambda>x. bindE (f x) g)"
  by (rule ext) (simp add: bindE_def split: prod.split sum.split)

lemma load_then:
  assumes "\<And>x. keeps loaded (f x)"
  shows "keeps_account (bindE (loadLease i) f)"
proof -
  have "wp (bindE (loadLease i) f) (\<lambda>_ t. accounted (st t)) (\<lambda>_ t. accounted (st t)) s" if "accounted (st s)" for s :: "'a cps"
  proof (cases "store_get i (st s)")
    case (Some l)
    from assms [of l] loaded_load [OF that Some] have "wp (f l) (\<lambda>_. loaded) (\<lambda>_. loaded) (s\<lparr>cur := l\<rparr>)"
      by (simp add: keeps_wp)
    then show ?thesis
      using Some by (auto simp: loadLease_def getExecution_def wp_simps intro: wp_mono loaded_store)
  qed (simp add: loadLease_def getExecution_def wp_simps that)
  then show ?thesis by (simp add: keeps_wp)
qed

lemma runnable_then:
  assumes "\<And>x. keeps loaded (f x)"
  shows "keeps_account (bindE (getRunnable i) f)"
proof -
  have "keeps loaded (bindE (case (le_handle l, le_sandbox l) of
      (Some h, Some sb) \<Rightarrow> if isTerminal (le_status l) then throw (invalidState l ''Execution is not active.'') else ret (l, h, sb)
    | _ \<Rightarrow> throw (invalidState l ''Execution is not active.'')) f)" for l
    by (auto intro!: keeps_intros assms split: option.split)
  then show ?thesis unfolding getRunnable_def bindE_assoc by (rule load_then)
qed

lemma methods_tally:
  "keeps_account (streamEvents pf env i c k)" "keeps_account (suspend env i)" "keeps_account (resume pf env i)"
  "keeps_account (collectResult pf env i)" "keeps_account (terminate pf env i)"
  unfolding streamEvents_def suspend_def resume_def collectResult_def terminate_def
  by (intro keeps_bindE [OF keeps_lift_sum] load_then runnable_then;
      (intro keeps_intros; simp add: same_tally_def cp_event_def))+

lemma forwardInput_tally: "keeps_account (forwardInput pf env bad m i d)"
proof -
  have "keeps_account (bindE (getRunnable i) (\<lambda>(l, handle, sandbox). bindE (lift_sum (providerFor env l)) (\<lambda>provider.
      thenE (call (d provider handle)) (thenE (pullProviderEvents pf env None) (getExecution i)))))"
    by (intro runnable_then keeps_intros)
  then show ?thesis unfolding forwardInput_def by (intro keeps_thenE keeps_if keeps_throw keeps_ret)
qed

lemma reapOne_tally:
  assumes so: "store_ok pf (st s)" and a: "accounted (st s)"
  shows "wp (reapOne pf env i) (\<lambda>_ t. accounted (st t)) (\<lambda>_ t. accounted (st t)) s"
  unfolding reapOne_def wp_bindE
proof (rule wp_mono [OF keeps_wp_conj [OF methods_tally(5) a terminate_returns [OF so]]])
  fix l and t :: "'a cps"
  assume t: "(store_ok pf (st t) \<and> store_get i (st t) = Some l \<and> le_id l = i) \<and> accounted (st t)"
  then have "loaded (t\<lparr>cur := l\<lparr>le_status := Expired\<rparr>\<rparr>)" by (simp add: loaded_def)
  moreover have "keeps loaded (thenE (touch env) (thenE putLease (gets cur)))" by (intro keeps_intros)
  ultimately have "wp (thenE (touch env) (thenE putLease (gets cur))) (\<lambda>_. loaded) (\<lambda>_. loaded)
      (t\<lparr>cur := l\<lparr>le_status := Expired\<rparr>\<rparr>)" by (simp add: keeps_wp)
  then show "wp (thenE (setCur (\<lambda>_. l\<lparr>le_status := Expired\<rparr>)) (thenE (touch env) (thenE putLease (gets cur))))
      (\<lambda>_ t. accounted (st t)) (\<lambda>_ t. accounted (st t)) t"
    unfolding wp_thenE [of "setCur _"] wp_setCur by (auto intro: wp_mono loaded_store)
qed simp

lemma reapExpired_tally:
  assumes so: "store_ok pf (st s)" and a: "accounted (st s)"
  shows "wp (reapExpired pf env) (\<lambda>_ t. accounted (st t)) (\<lambda>_ t. accounted (st t)) s"
proof -
  have one: "keeps (\<lambda>s. accounted (st s) \<and> store_ok pf (st s)) (reapOne pf env i)" for i
    unfolding keeps_wp by (auto intro!: wp_conj reapOne_tally reapOne_kept)
  have "keeps (\<lambda>s. accounted (st s) \<and> store_ok pf (st s)) (seqE (map (\<lambda>l. reapOne pf env (le_id l)) ls))" for ls
    by (rule keeps_seqE) (auto simp: one)
  note run = keepsD [OF this]
  have loop: "wp (seqE (map (\<lambda>l. reapOne pf env (le_id l)) ls)) (\<lambda>_ t. accounted (st t)) (\<lambda>_ t. accounted (st t)) t"
    if "store_ok pf (st t)" "accounted (st t)" for ls t
    using run [of t ls] that by (simp add: wp_state)
  show ?thesis
    unfolding reapExpired_def wp_bindE wp_gets by (intro wp_now loop) (simp_all add: so a)
qed

lemma createExecution_tally:
  assumes so: "store_ok pf (st s)" and a: "accounted (st s)" and fresh: "fresh_id env s"
  shows "wp (createExecution pf env r) (\<lambda>_ t. accounted (st t)) (\<lambda>_ t. accounted (st t)) s"
proof -
  have rest: "keeps loaded (thenE (appendEvents env [created_event pf l])
      (catchE (startSequence pf env p) (startFailure env p)))" for l p
    unfolding startSequence_def startFailure_def Let_def
    by (intro keeps_intros; simp add: same_tally_def cp_event_def created_event_def sandbox_started_event_def)
  have new: "wp (thenE putLease (thenE (appendEvents env [created_event pf l])
      (catchE (startSequence pf env p) (startFailure env p)))) (\<lambda>_ t. accounted (st t)) (\<lambda>_ t. accounted (st t))
      (s\<lparr>wd := w, cur := new_lease p r t i\<rparr>)"
    if "env_now env (wd s) = (t, w1)" "env_idFactory env w1 = (i, w)" for l p t i w1 w
  proof -
    let ?l = "new_lease p r t i"
    have "store_get (le_id ?l) (st s) = None" using fresh that by (simp add: fresh_id_def next_id_def)
    then have "events_of (le_id ?l) (st s) = []" using so by (simp add: store_ok_def keys_ok_def)
    then have "loaded (s\<lparr>wd := w, cur := ?l, st := store_put ?l (st s)\<rparr>)"
      using a by (auto simp: loaded_def accounted_def tallied_new split: if_splits)
    note loaded = rest [of l p, unfolded keeps_wp, rule_format, OF this]
    have "wp (thenE (appendEvents env [created_event pf l]) (catchE (startSequence pf env p) (startFailure env p)))
        (\<lambda>_ t. accounted (st t)) (\<lambda>_ t. accounted (st t)) (s\<lparr>wd := w, cur := ?l, st := store_put ?l (st s)\<rparr>)"
      by (rule wp_mono [OF loaded]) (simp_all add: loaded_store)
    then show ?thesis by (simp add: wp_thenE [of putLease] wp_putLease)
  qed
  show ?thesis
    unfolding createExecution_def
    by (auto simp: a wp_bindE wp_lift_sum wp_ret wp_throw wp_gets wp_setCur
        wp_thenE [of "lift_sum _"] wp_thenE [of "setCur _"] split: option.split sum.split
        intro!: wp_now wp_newId new)
qed

lemma run_request_tally:
  assumes "store_ok pf (st s)" and "accounted (st s)" and "draws_fresh env q s"
  shows "accounted (st (run_request pf env q s))"
  using assms(2,3) createExecution_tally [OF assms(1,2), of env] reapExpired_tally [OF assms(1,2)]
    keepsD [OF methods_tally(1) assms(2)] keepsD [OF methods_tally(2) assms(2)]
    keepsD [OF methods_tally(3) assms(2)] keepsD [OF methods_tally(4) assms(2)]
    keepsD [OF methods_tally(5) assms(2)] keepsD [OF forwardInput_tally assms(2)]
  by (cases q) (simp_all add: wp_state draws_fresh_def resolveApproval_def submitInput_def steer_def
      listExecutions_def getExecution_def gets_def bindE_def ret_def throw_def split: option.split)

lemma reachable_accounted: "reachable pf env s \<Longrightarrow> accounted (st s)"
proof -
  assume "reachable pf env s"
  then obtain s0 where s0: "st s0 = emptyState" "cp_steps pf env s0 s" by (auto elim: reachableE)
  from s0(2,1) have "store_ok pf (st s) \<and> accounted (st s)"
  proof induction
    case here
    then show ?case using store_ok_empty by (simp add: accounted_def) (simp add: emptyState_def store_get_def)
  next
    case (next_step s t u)
    then have t: "store_ok pf (st t)" "accounted (st t)" by simp_all
    from next_step.hyps(2) have "accounted (st u)"
      by (rule cp_stepE) (simp_all add: run_request_tally t)
    then show ?case using cp_step_kept(1) [OF next_step.hyps(2) t(1)] by simp
  qed
  then show ?thesis by simp
qed

end
