(* ===== verification/Fake_Provider.thy ===== *)
theory Fake_Provider
  imports Control_Plane
begin

text \<open>
  \<open>packages/control-plane/src/fake-execution-provider.ts\<close>: the deterministic provider of the
  conformance suite, with the sandbox, workspace, run, approval and result behaviour that the
  control plane sees of a provider.

  A session object is shared between the session map and the runs started in it, and \<open>suspend\<close>,
  \<open>resume\<close>, \<open>terminate\<close> and \<open>resolveApproval\<close> change it in place: the objects live in a heap, and
  both the map and the runs hold addresses. The identifier factory and the clock are the two
  options of the constructor, functions that may change an outer world.
\<close>

section \<open>State\<close>

record fake_session =
  fs_session :: session
  fs_input :: sandbox_start_input
  fs_workspace :: "exec_workspace option"

record fake_run =
  fr_handle :: handle
  fr_session :: nat
  fr_input :: exec_start_input
  fr_events :: "provider_event list"
  fr_done :: bool
  fr_approvalRequestId :: "string option"
  fr_result :: "provider_result option"

record 'x fake =
  fk_heap :: "fake_session list"
  fk_sessions :: "(string \<times> nat) list"
  fk_runs :: "(string \<times> fake_run) list"
  fk_out :: 'x

record 'x fake_options =
  fo_idFactory :: "'x \<Rightarrow> string \<times> 'x"
  fo_now :: "'x \<Rightarrow> int \<times> 'x"

type_synonym ('x, 'a) fk = "('x fake, exn, 'a) comp"

definition fk_id :: "'x fake_options \<Rightarrow> ('x, string) fk" where
  "fk_id opts s = (case fo_idFactory opts (fk_out s) of (i, x) \<Rightarrow> (Inr (sanitizeId i), s\<lparr>fk_out := x\<rparr>))"

definition fk_now :: "'x fake_options \<Rightarrow> ('x, int) fk" where
  "fk_now opts s = (case fo_now opts (fk_out s) of (t, x) \<Rightarrow> (Inr t, s\<lparr>fk_out := x\<rparr>))"

definition fk_error :: "string \<Rightarrow> exn" where
  "fk_error message = JsError None message"

definition fk_event :: "'x fake_options \<Rightarrow> event_type \<Rightarrow> js \<Rightarrow> ('x, provider_event) fk" where
  "fk_event opts ty d =
     bindE (fk_id opts) (\<lambda>i. bindE (fk_now opts) (\<lambda>t.
       ret \<lparr>pe_id = ''provider_event_'' @ i, pe_type = ty, pe_timestamp = Some t, pe_data = d\<rparr>))"

definition requireSession :: "string \<Rightarrow> ('x, nat) fk" where
  "requireSession sessionId =
     bindE (gets (\<lambda>s. map_of (fk_sessions s) sessionId)) (\<lambda>r. case r of
       None \<Rightarrow> throw (fk_error (''Unknown fake sandbox '' @ [CHR 39] @ sessionId @ [CHR 39] @ ''.''))
     | Some a \<Rightarrow> ret a)"

definition requireRun :: "handle \<Rightarrow> ('x, fake_run) fk" where
  "requireRun h =
     bindE (gets (\<lambda>s. map_of (fk_runs s) (h_runId h))) (\<lambda>r.
     let unknown = throw (fk_error (''Unknown fake execution run '' @ [CHR 39] @ h_runId h @ [CHR 39] @ ''.'')) in
     case r of
       None \<Rightarrow> unknown
     | Some run \<Rightarrow> if h_sessionId (fr_handle run) \<noteq> h_sessionId h then unknown else ret run)"

definition updSession :: "nat \<Rightarrow> (fake_session \<Rightarrow> fake_session) \<Rightarrow> ('x, unit) fk" where
  "updSession a f = modify (\<lambda>s. s\<lparr>fk_heap := (fk_heap s)[a := f (fk_heap s ! a)]\<rparr>)"

definition setSession :: "nat \<Rightarrow> (session \<Rightarrow> session) \<Rightarrow> ('x, unit) fk" where
  "setSession a f = updSession a (\<lambda>o'. o'\<lparr>fs_session := f (fs_session o')\<rparr>)"

definition putRun :: "fake_run \<Rightarrow> ('x, unit) fk" where
  "putRun run = modify (\<lambda>s. s\<lparr>fk_runs := AList.update (h_runId (fr_handle run)) run (fk_runs s)\<rparr>)"

text \<open>Reading a property of \<open>undefined\<close> or \<open>null\<close> throws.\<close>

definition js_prop :: "js \<Rightarrow> string \<Rightarrow> exn + js" where
  "js_prop v k =
     (if v = JUndef \<or> v = JNull
      then Inl (fk_error (''Cannot read properties of '' @ (if v = JNull then ''null'' else ''undefined'') @
        '' (reading '' @ [CHR 39] @ k @ [CHR 39] @ '')''))
      else Inr (jget v k))"

section \<open>What the provider supports\<close>

definition fake_capabilities :: capabilities where
  "fake_capabilities = \<lparr>ca_modes = [ReadOnly, ReadWrite],
     ca_modelAuth = [ControlPlaneAuth, ProviderSubscription],
     ca_subscriptionProviders = Some [Codex, Cursor], ca_maxTtlSeconds = 28800,
     ca_resumableEvents = True, ca_approvals = True, ca_input = True, ca_steering = True,
     ca_artifacts = True, ca_patches = True\<rparr>"

definition fake_supports :: "platform \<Rightarrow> js \<Rightarrow> bool \<times> string list" where
  "fake_supports pf r =
     (let policy = rq_policy r; auth = rq_modelAuth r;
          reasons =
            (if jget policy ''mode'' \<notin> {JStr ''read-only'', JStr ''read-write''}
             then [''mode '' @ js_to_string pf (jget policy ''mode'') @ '' is not supported''] else []) @
            (if jget auth ''kind'' \<notin> {JStr ''control-plane'', JStr ''provider-subscription''}
             then [''model auth '' @ js_to_string pf (jget auth ''kind'') @ '' is not supported''] else []) @
            (if jget auth ''kind'' = JStr ''provider-subscription'' \<and>
                jget auth ''provider'' \<notin> {JStr ''codex'', JStr ''cursor''}
             then [''subscription provider '' @ js_to_string pf (jget auth ''provider'') @ '' is not supported'']
             else []) @
            (if num_lt (num_of_int (ca_maxTtlSeconds fake_capabilities)) (js_num (jget policy ''ttlSeconds''))
             then [''requested TTL exceeds the provider maximum''] else [])
      in (reasons = [], reasons))"

section \<open>Sandboxes\<close>

definition fake_start :: "'x fake_options \<Rightarrow> sandbox_start_input \<Rightarrow> ('x, session) fk" where
  "fake_start opts input =
     bindE (fk_id opts) (\<lambda>i.
     bindE (fk_now opts) (\<lambda>startedAt.
     (let sess = \<lparr>ss_id = ''sandbox_'' @ i, ss_agent = js_str (jget (si_manifest input) ''name''),
            ss_status = SbActive, ss_endpointUrl = None, ss_provider = ''fake-execution'',
            ss_region = None, ss_startedAt = Some startedAt, ss_terminatedAt = None,
            ss_expiresAt = Some (startedAt + 28800000), ss_image = None,
            ss_metadata = JObj [(''deterministic'', JBool True), (''cell'', si_cell input),
              (''environment'', si_environment input)]\<rparr> in
      thenE (modify (\<lambda>s. s\<lparr>
          fk_sessions := AList.update (ss_id sess) (length (fk_heap s)) (fk_sessions s),
          fk_heap := fk_heap s @ [\<lparr>fs_session = sess, fs_input = input, fs_workspace = None\<rparr>]\<rparr>))
        (ret sess))))"

definition fake_inspect :: "string \<Rightarrow> ('x, session) fk" where
  "fake_inspect sessionId =
     bindE (requireSession sessionId) (\<lambda>a. gets (\<lambda>s. fs_session (fk_heap s ! a)))"

definition fake_suspend :: "string \<Rightarrow> ('x, unit) fk" where
  "fake_suspend sessionId =
     bindE (requireSession sessionId) (\<lambda>a. setSession a (\<lambda>x. x\<lparr>ss_status := SbSuspended\<rparr>))"

definition fake_resume :: "string \<Rightarrow> ('x, session) fk" where
  "fake_resume sessionId =
     bindE (requireSession sessionId) (\<lambda>a.
     thenE (setSession a (\<lambda>x. x\<lparr>ss_status := SbActive\<rparr>))
       (gets (\<lambda>s. fs_session (fk_heap s ! a))))"

definition fake_terminate :: "'x fake_options \<Rightarrow> string \<Rightarrow> ('x, unit) fk" where
  "fake_terminate opts sessionId =
     bindE (requireSession sessionId) (\<lambda>a.
     thenE (setSession a (\<lambda>x. x\<lparr>ss_status := SbTerminated\<rparr>))
     (bindE (fk_now opts) (\<lambda>t. setSession a (\<lambda>x. x\<lparr>ss_terminatedAt := Some t\<rparr>))))"

definition fake_createAuthToken :: "string \<Rightarrow> ('x, string \<times> (string \<times> string) list) fk" where
  "fake_createAuthToken sessionId =
     thenE (requireSession sessionId)
       (ret (sessionId, [(''Authorization'', ''Bearer fake-'' @ sessionId)]))"

definition fake_prepareWorkspace ::
  "session \<Rightarrow> string \<Rightarrow> js \<Rightarrow> source_access option \<Rightarrow> ('x, exec_workspace) fk" where
  "fake_prepareWorkspace sess executionId source access =
     bindE (requireSession (ss_id sess)) (\<lambda>a.
     bindE (gets (\<lambda>s. fk_heap s ! a)) (\<lambda>stored.
     bindE (lift_sum (js_prop (jget (si_manifest (fs_input stored)) ''capabilities'') ''filesystem'')) (\<lambda>filesystem.
     (let workspace = \<lparr>ws_id = ''workspace_'' @ sanitizeId executionId, ws_source = source,
            ws_writable = (filesystem = JStr ''read-write''),
            ws_metadata = JObj [(''deterministic'', JBool True)]\<rparr> in
      thenE (updSession a (\<lambda>o'. o'\<lparr>fs_workspace := Some workspace\<rparr>)) (ret workspace)))))"

section \<open>Runs\<close>

definition fake_cost :: rat where
  "fake_cost = 1152921504606847 / 1152921504606846976"

definition fake_usage :: "(string \<times> js) list" where
  "fake_usage = [(''inputTokens'', JNum (Fin 12)), (''outputTokens'', JNum (Fin 8)),
     (''totalTokens'', JNum (Fin 20)), (''estimatedCostUsd'', JNum (Fin fake_cost))]"

definition artifact_js :: "artifact \<Rightarrow> js" where
  "artifact_js a = JObj [(''id'', JStr (ar_id a)), (''name'', JStr (ar_name a)), (''kind'', JStr ''patch''),
     (''storage'', JStr ''session''), (''sha256'', JStr (ar_sha256 a)),
     (''sizeBytes'', JNum (num_of_int (ar_sizeBytes a))), (''mediaType'', JStr ''text/x-diff'')]"

fun fk_events :: "'x fake_options \<Rightarrow> (event_type \<times> js) list \<Rightarrow> ('x, provider_event list) fk" where
  "fk_events opts [] = ret []"
| "fk_events opts ((ty, d) # es) =
     bindE (fk_event opts ty d) (\<lambda>e. bindE (fk_events opts es) (\<lambda>rest. ret (e # rest)))"

text \<open>\<open>completeRun\<close>, on the run object: the finished run.\<close>

definition completeRun :: "'x fake_options \<Rightarrow> fake_run \<Rightarrow> ('x, fake_run) fk" where
  "completeRun opts run =
     bindE (fk_id opts) (\<lambda>i.
     (let patch = \<lparr>ar_id = ''artifact_'' @ i, ar_name = ''execution.patch'', ar_kind = Patch,
            ar_storage = SessionStorage, ar_sha256 = replicate 64 CHR ''a'', ar_sizeBytes = 128,
            ar_downloadUrl = None, ar_mediaType = Some ''text/x-diff''\<rparr>;
          changedFiles = (if jget (xi_policy (fr_input run)) ''mode'' = JStr ''read-write''
                          then [''README.md''] else []) in
     bindE (fk_events opts
       ([(CommandCompleted, JObj [(''command'', JStr ''pnpm test''), (''exitCode'', JNum (Fin 0))])] @
        (if changedFiles \<noteq> [] then
          [(FileChanged, JObj [(''path'', JStr ''README.md''), (''action'', JStr ''modified'')]),
           (ArtifactAvailable, JObj [(''artifact'', artifact_js patch)]),
           (PatchReady, JObj [(''artifactId'', JStr (ar_id patch))])] else []) @
        [(UsageUpdated, JObj fake_usage),
         (ExecutionCompleted, JObj [(''changedFiles'', JArr (map JStr changedFiles))])])) (\<lambda>es.
     ret (run\<lparr>fr_events := fr_events run @ es, fr_done := True,
       fr_result := Some \<lparr>pr_status = ResCompleted, pr_summary = ''Deterministic execution completed.'',
         pr_changedFiles = changedFiles, pr_artifacts = (if changedFiles \<noteq> [] then [patch] else []),
         pr_commands = [\<lparr>ce_command = ''pnpm test'', ce_exitCode = Some 0, ce_durationMs = None,
           ce_outputArtifactId = None\<rparr>],
         pr_tests = [\<lparr>te_command = ''pnpm test'', te_status = Passed, te_summary = None,
           te_outputArtifactId = None\<rparr>],
         pr_errors = [], pr_evidence = [(''provider'', ''fake-execution'')],
         pr_usage = Some (JObj (fake_usage @ [(''provider'', JStr ''fake-execution'')])),
         pr_patch = (if changedFiles \<noteq> [] then Some patch else None)\<rparr>\<rparr>))))"

definition sourceLabel :: "platform \<Rightarrow> js \<Rightarrow> string" where
  "sourceLabel pf source =
     (if jget source ''kind'' = JStr ''git''
      then js_to_string pf (jget source ''repository'') @ '' at '' @ js_to_string pf (jget source ''commit'')
      else ''snapshot '' @ js_to_string pf (jget source ''snapshotId''))"

text \<open>\<open>manifest.requires.humanApproval[0]\<close>\<close>

definition js_first :: "js \<Rightarrow> exn + js" where
  "js_first v = (case v of
      JArr (a # _) \<Rightarrow> Inr a
    | JStr (c # _) \<Rightarrow> Inr (JStr [c])
    | _ \<Rightarrow> js_prop v ''0'')"

definition approval_action :: "sandbox_start_input \<Rightarrow> exn + js" where
  "approval_action input =
     (case js_prop (jget (si_manifest input) ''requires'') ''humanApproval'' of
        Inl e \<Rightarrow> Inl e | Inr v \<Rightarrow> js_first v)"

definition fake_startExecution :: "platform \<Rightarrow> 'x fake_options \<Rightarrow> session \<Rightarrow> exec_start_input \<Rightarrow> ('x, handle) fk" where
  "fake_startExecution pf opts sess input =
     bindE (requireSession (ss_id sess)) (\<lambda>a.
     bindE (gets (\<lambda>s. fk_heap s ! a)) (\<lambda>stored.
     if fs_workspace stored = None then throw (fk_error ''Workspace must be prepared before execution starts.'')
     else
     bindE (fk_id opts) (\<lambda>i.
     bindE (fk_events opts
       [(ExecutionStarted, JObj ([(''task'', xi_task input), (''mode'', jget (xi_policy input) ''mode''),
            (''modelAuth'', jget (xi_modelAuth input) ''kind'')] @
           (if jget (xi_modelAuth input) ''kind'' = JStr ''provider-subscription''
            then [(''subscriptionProvider'', jget (xi_modelAuth input) ''provider'')] else []))),
        (AgentMessage, JObj [(''role'', JStr ''assistant''),
           (''text'', JStr (''Inspecting '' @ sourceLabel pf (xi_source input) @ ''.''))]),
        (CommandStarted, JObj [(''command'', JStr ''pnpm test'')])]) (\<lambda>es.
     (let run = \<lparr>fr_handle = \<lparr>h_sessionId = ss_id sess, h_runId = ''run_'' @ i\<rparr>, fr_session = a,
            fr_input = input, fr_events = es, fr_done = False, fr_approvalRequestId = None,
            fr_result = None\<rparr> in
      bindE (lift_sum (approval_action (fs_input stored))) (\<lambda>action. bindE
        (if truthy action then
           bindE (fk_id opts) (\<lambda>j.
           bindE (fk_event opts ApprovalRequested (JObj [(''requestId'', JStr (''approval_'' @ j)),
             (''action'', action),
             (''reason'', JStr ''The deterministic conformance turn pauses before producing a patch.'')])) (\<lambda>e.
           thenE (setSession a (\<lambda>x. x\<lparr>ss_status := SbWaitingForApproval\<rparr>))
             (ret (run\<lparr>fr_approvalRequestId := Some (''approval_'' @ j), fr_events := es @ [e]\<rparr>))))
         else completeRun opts run) (\<lambda>run'.
      thenE (putRun run') (ret (fr_handle run')))))))))"

definition parseProviderCursor :: "platform \<Rightarrow> string option \<Rightarrow> exn + nat" where
  "parseProviderCursor pf cursor = (case cursor of
      None \<Rightarrow> Inr 0
    | Some c \<Rightarrow>
        (let v = str_num pf c in
         if \<not> safe_integer v \<or> num_int v < 0
         then Inl (fk_error (''Invalid fake provider cursor '' @ [CHR 39] @ c @ [CHR 39] @ ''.''))
         else Inr (nat (num_int v))))"

definition fake_readEvents :: "platform \<Rightarrow> handle \<Rightarrow> string option \<Rightarrow> int option \<Rightarrow> ('x, event_batch) fk" where
  "fake_readEvents pf h cursor limit =
     bindE (requireRun h) (\<lambda>run.
     bindE (lift_sum (parseProviderCursor pf cursor)) (\<lambda>start.
     (let len = length (fr_events run);
          stop = (case limit of None \<Rightarrow> len | Some k \<Rightarrow> min len (start + nat (max 0 k))) in
      ret \<lparr>eb_events = drop start (take stop (fr_events run)), eb_cursor = Some (nat_str stop),
        eb_done = (fr_done run \<and> stop \<ge> len)\<rparr>)))"

definition emptyResult :: "result_status \<Rightarrow> string \<Rightarrow> provider_result" where
  "emptyResult x summary = \<lparr>pr_status = x, pr_summary = summary, pr_changedFiles = [], pr_artifacts = [],
     pr_commands = [], pr_tests = [], pr_errors = [], pr_evidence = [], pr_usage = None, pr_patch = None\<rparr>"

definition fake_resolveApproval :: "platform \<Rightarrow> 'x fake_options \<Rightarrow> handle \<Rightarrow> js \<Rightarrow> ('x, unit) fk" where
  "fake_resolveApproval pf opts h decision =
     bindE (requireRun h) (\<lambda>run.
     if (case fr_approvalRequestId run of None \<Rightarrow> True | Some q \<Rightarrow> q = [] \<or> jget decision ''requestId'' \<noteq> JStr q)
     then throw (fk_error (''Unknown approval request '' @ [CHR 39] @
       js_to_string pf (jget decision ''requestId'') @ [CHR 39] @ ''.''))
     else
       bindE (fk_event opts ApprovalResolved (JObj [(''requestId'', jget decision ''requestId''),
         (''decision'', jget decision ''decision''), (''actor'', jget decision ''actor''),
         (''reason'', if jget decision ''reason'' \<in> {JUndef, JNull} then JNull else jget decision ''reason'')])) (\<lambda>e.
       (let run1 = run\<lparr>fr_events := fr_events run @ [e]\<rparr> in
        thenE (putRun run1)
        (thenE (setSession (fr_session run) (\<lambda>x. x\<lparr>ss_status := SbActive\<rparr>))
        (if jget decision ''decision'' = JStr ''approved'' then bindE (completeRun opts run1) putRun
         else
           bindE (fk_event opts ExecutionCancelled (JObj [(''reason'', JStr ''approval-rejected'')])) (\<lambda>e2.
             putRun (run1\<lparr>fr_done := True, fr_result := Some (emptyResult ResCancelled ''Approval was rejected.''),
               fr_events := fr_events run1 @ [e2]\<rparr>)))))))"

definition fake_push :: "'x fake_options \<Rightarrow> handle \<Rightarrow> event_type \<Rightarrow> js \<Rightarrow> ('x, unit) fk" where
  "fake_push opts h ty d =
     bindE (requireRun h) (\<lambda>run.
     bindE (fk_event opts ty d) (\<lambda>e. putRun (run\<lparr>fr_events := fr_events run @ [e]\<rparr>)))"

definition js_keys :: "js \<Rightarrow> string list" where
  "js_keys v = (case v of JObj kvs \<Rightarrow> remdups (map fst kvs) | _ \<Rightarrow> [])"

definition fake_submitInput :: "'x fake_options \<Rightarrow> handle \<Rightarrow> js \<Rightarrow> ('x, unit) fk" where
  "fake_submitInput opts h input =
     fake_push opts h InputSubmitted (JObj [(''requestId'', jget input ''requestId''),
       (''fields'', JArr (map JStr (sort (js_keys (jget input ''values'')))))])"

definition fake_steer :: "'x fake_options \<Rightarrow> handle \<Rightarrow> js \<Rightarrow> ('x, unit) fk" where
  "fake_steer opts h message =
     fake_push opts h AgentMessage (JObj [(''role'', JStr ''user''), (''text'', message), (''steering'', JBool True)])"

definition fake_collectResult :: "handle \<Rightarrow> ('x, provider_result) fk" where
  "fake_collectResult h =
     bindE (requireRun h) (\<lambda>run.
     if \<not> fr_done run then throw (fk_error ''Execution has not completed.'')
     else (case fr_result run of
         None \<Rightarrow> throw (fk_error ''Execution has not completed.'')
       | Some r \<Rightarrow> ret r))"

section \<open>The provider\<close>

definition fake_provider :: "platform \<Rightarrow> 'x fake_options \<Rightarrow> ('x fake) provider" where
  "fake_provider pf opts = \<lparr>pv_id = ''fake-execution'', pv_capabilities = fake_capabilities,
     pv_describe = Some \<lparr>av_configured = True, av_reasons = []\<rparr>,
     pv_supports = fake_supports pf, pv_start = fake_start opts, pv_inspect = fake_inspect,
     pv_suspend = fake_suspend, pv_resume = fake_resume, pv_terminate = fake_terminate opts,
     pv_prepareWorkspace = fake_prepareWorkspace, pv_startExecution = fake_startExecution pf opts,
     pv_readEvents = fake_readEvents pf, pv_resolveApproval = fake_resolveApproval pf opts,
     pv_submitInput = fake_submitInput opts, pv_steer = fake_steer opts,
     pv_collectResult = fake_collectResult\<rparr>"

end
