(* ===== verification/Control_Plane_Stream.thy ===== *)
theory Control_Plane_Stream
  imports Control_Plane_Api
begin

text \<open>
  Reading events: \<open>streamEvents\<close> returns the part of the log that follows the cursor, its cursor
  names the position after it, and batches read one after the other are consecutive. Then what one
  provider batch does to a lease: what is recorded, and what happens when a budget is exceeded.
\<close>

section \<open>Streaming\<close>

lemma log_ok_nth:
  assumes "log_ok i es" and "k < length es"
  shows "ev_sequence (es ! k) = Suc k" and "ev_cursor (es ! k) = nat_str (Suc k)"
  using assms sequenced_nth [of es k] nth_mem [of k es] by (auto simp: log_ok_def)

lemma log_ok_after: "log_ok i es \<Longrightarrow> filter (\<lambda>e. n < ev_sequence e) es = drop n es"
  by (simp add: log_ok_def sequenced_filter)

lemma limit_events_prefix: "\<exists>m. limit_events k es = take m es"
  by (auto simp: limit_events_def split: option.split intro: exI [of _ "length es"])

lemma limit_events_length: "length (limit_events k es) \<le> length es"
  by (auto simp: limit_events_def split: option.split)

lemma limit_events_bound: "k = Some m \<Longrightarrow> 0 \<le> m \<Longrightarrow> int (length (limit_events k es)) \<le> m"
  by (simp add: limit_events_def)

lemma limited_cursor:
  assumes lg: "log_ok i lg" and es: "es = limit_events k (drop n lg)"
  shows "(if es = [] then nat_str n else ev_cursor (last es)) = nat_str (n + length es)"
proof (cases "es = []")
  case False
  from es limit_events_prefix [of k "drop n lg"] obtain m where m: "es = take m (drop n lg)" by auto
  define j where "j = length es - 1"
  from False have j: "j < length es" "length es = Suc j" by (simp_all add: j_def)
  with m have "last es = lg ! (n + j)" and "n + j < length lg"
    by (auto simp: last_conv_nth j_def [symmetric] nth_append split: if_splits)
  with log_ok_nth(2) [OF lg, of "n + j"] j(2) False show ?thesis by simp
qed simp

definition streamed :: "platform \<Rightarrow> string \<Rightarrow> string option \<Rightarrow> int option \<Rightarrow> cursor_batch \<Rightarrow> 'w cps \<Rightarrow> bool" where
  "streamed pf i c k b t \<longleftrightarrow> (\<exists>n l. parseCursor pf c = Inr n \<and> store_get i (st t) = Some l \<and>
     cb_executionId b = i \<and> cb_events b = limit_events k (drop n (events_of i (st t))) \<and>
     cb_cursor b = nat_str (n + length (cb_events b)) \<and> cb_done b = isTerminal (le_status l))"

lemma store_events_drop:
  assumes "log_ok i (events_of i store)"
  shows "store_events i n store = drop n (events_of i store)"
proof -
  have all: "store_events i 0 store = events_of i store"
    using log_ok_after [OF assms, of 0] by (simp add: store_events_def)
  show ?thesis using mem.after_drop assms by (simp add: all log_ok_def)
qed

lemma streamEvents_returns:
  fixes s :: "'w cps"
  assumes so: "store_ok pf (st s)"
  shows "wp (streamEvents pf env i c k) (streamed pf i c k) (\<lambda>_ _. True) s"
proof -
  have read: "wp (bindE (getExecution j) (\<lambda>current.
      bindE (gets (\<lambda>s. limit_events k (store_events j n (st s)))) (\<lambda>es.
      ret \<lparr>cb_executionId = j, cb_events = es,
        cb_cursor = (if es = [] then nat_str n else ev_cursor (last es)),
        cb_done = isTerminal (le_status current)\<rparr>))) (streamed pf j c k) (\<lambda>_ _. True) t"
    if "store_ok pf (st t)" "parseCursor pf c = Inr n" for n j and t :: "'w cps"
  proof (cases "store_get j (st t)")
    case (Some l)
    from store_ok_get [OF that(1) Some] have lg: "log_ok j (events_of j (st t))" by (simp add: lease_ok_def)
    from limited_cursor [OF lg HOL.refl, of k n] that(2) show ?thesis
      by (auto simp: wp_bindE wp_gets wp_ret wp_getExecution Some streamed_def store_events_drop [OF lg]
          split: if_splits)
  qed (simp add: wp_bindE wp_getExecution)
  show ?thesis
    unfolding streamEvents_def
    by (auto simp: wp_bindE [of "lift_sum _"] wp_lift_sum wp_bindE [of "loadLease _"] wp_thenE wp_ret so
        synced_store split: sum.split intro!: wp_loadLease [OF so] wp_pull read)
qed

lemma streamed_store:
  assumes "store_ok pf (st s)" and "streamEvents pf env i c k s = (Inr b, t)"
  shows "streamed pf i c k b t" and "store_ok pf (st t)" and "\<exists>es. events_of i (st t) = events_of i (st s) @ es"
proof -
  show "streamed pf i c k b t" by (rule wp_InrD [OF streamEvents_returns [OF assms(1)] assms(2)])
  show "store_ok pf (st t)" using wp_InrD [OF streamEvents_kept [OF assms(1)] assms(2)] by simp
  have "grown (st s) (snd (streamEvents pf env i c k s))" by (rule keepsD [OF methods_grown(1) grown_refl])
  with assms(2) show "\<exists>es. events_of i (st t) = events_of i (st s) @ es" by (simp add: grown_def)
qed

lemma parseCursor_nat_str:
  assumes "int n \<le> max_safe"
  shows "parseCursor pf (Some (nat_str n)) = Inr n"
proof -
  obtain c cs where c: "nat_str n = c # cs" by (cases "nat_str n") simp_all
  have "safe_integer (num_of_int (int n))" and "num_int (num_of_int (int n)) = int n"
    using assms by (simp_all only: safe_integer_of_int num_int_of_int abs_of_nat)
  with str_num_nat_str [of pf n] show ?thesis unfolding parseCursor_def c by (simp add: Let_def)
qed


lemma streamed_cursor:
  assumes "streamed pf i c k b t" and "log_ok i (events_of i (st t))"
  obtains n where "parseCursor pf c = Inr n" and "cb_cursor b = nat_str (n + length (cb_events b))"
    and "\<exists>rest. drop n (events_of i (st t)) = cb_events b @ rest"
proof -
  from assms(1) obtain n where n: "parseCursor pf c = Inr n" "cb_cursor b = nat_str (n + length (cb_events b))"
      "cb_events b = limit_events k (drop n (events_of i (st t)))" by (auto simp: streamed_def)
  from n(3) limit_events_prefix [of k "drop n (events_of i (st t))"]
  obtain m where "cb_events b = take m (drop n (events_of i (st t)))" by auto
  then have "\<exists>rest. drop n (events_of i (st t)) = cb_events b @ rest" by (metis append_take_drop_id)
  with n show thesis using that by blast
qed

text \<open>Two reads, the second from the cursor the first returned: together a contiguous piece.\<close>

lemma streamed_twice:
  assumes b1: "streamed pf i c k b1 t" and b2: "streamed pf i (Some (cb_cursor b1)) k' b2 u"
    and ok: "store_ok pf (st t)" "store_ok pf (st u)" and g: "grown (st t) u"
    and n: "parseCursor pf c = Inr n" and small: "int (n + length (cb_events b1)) \<le> max_safe"
  shows "\<exists>rest. drop n (events_of i (st u)) = cb_events b1 @ cb_events b2 @ rest"
proof -
  have lg: "log_ok i (events_of i (st v))" if "streamed pf i c' k'' b v" "store_ok pf (st v)" for c' k'' b v
    using that by (auto simp: streamed_def lease_ok_def dest: store_ok_get)
  obtain r1 where r1: "drop n (events_of i (st t)) = cb_events b1 @ r1"
      and cur: "cb_cursor b1 = nat_str (n + length (cb_events b1))"
    using streamed_cursor [OF b1 lg [OF b1 ok(1)]] n by (metis sum.inject(2))
  obtain r2 where r2: "drop (n + length (cb_events b1)) (events_of i (st u)) = cb_events b2 @ r2"
    using streamed_cursor [OF b2 lg [OF b2 ok(2)]] parseCursor_nat_str [OF small, of pf] cur
    by (metis sum.inject(2))
  from g obtain new where new: "events_of i (st u) = events_of i (st t) @ new" by (auto simp: grown_def)
  show ?thesis
  proof (cases "n \<le> length (events_of i (st t))")
    case True
    with new have "drop n (events_of i (st u)) = drop n (events_of i (st t)) @ new" by simp
    with r1 have "drop n (events_of i (st u)) = cb_events b1 @ (r1 @ new)" by simp
    moreover from this r2 have "r1 @ new = cb_events b2 @ r2"
      by (metis add.commute append_eq_conv_conj drop_drop)
    ultimately show ?thesis by simp
  next
    case False
    with r1 have "cb_events b1 = []" by simp
    with r2 show ?thesis by simp
  qed
qed

section \<open>Ingesting a provider batch\<close>

text \<open>The identifiers recorded for the budget are those of the events added to the log.\<close>

lemma cap_events_subset: "set (cap_events r es) \<subseteq> set es"
  by (auto simp: cap_events_def dest: in_set_takeD split: option.split)

lemma recordUnseen_result:
  "wp (recordUnseen env unseen)
     (\<lambda>_ t. (\<exists>ns. events_of (le_id (cur s)) (st t) = events_of (le_id (cur s)) (st s) @ ns \<and>
         map ev_id ns = map pe_id unseen \<and> map ev_type ns = map pe_type unseen) \<and>
       le_seenProviderEventIds (cur t) = le_seenProviderEventIds (cur s) @ map pe_id unseen \<and>
       le_status (cur t) = updateStatusFromEvents (le_status (cur s)) unseen \<and>
       le_id (cur t) = le_id (cur s)) E s"
proof (cases "unseen = []")
  case True
  then show ?thesis by (simp add: recordUnseen_def wp_ret updateStatusFromEvents_def)
next
  case False
  then show ?thesis
    by (auto simp: recordUnseen_def wp_thenE wp_setCur after_append_def appended_def intro!: wp_appendEvents)
qed

lemma failForPolicy_fails:
  assumes "providerFor env (cur s) = Inr p" and "force \<or> \<not> isTerminal (le_status (cur s))"
  shows "wp (failForPolicy env c m force)
    (\<lambda>_ t. le_status (cur t) = Failed \<and> le_failure (cur t) = Some (c, m) \<and>
      (le_sandbox (cur s) \<noteq> None \<longrightarrow> le_cleanup (cur t) \<noteq> None) \<and> kin (cur s) (cur t)) E s"
  using assms unfolding failForPolicy_def
  by (auto simp: wp_simps providerFor_def split: option.split option.splits
      intro!: wp_touch wp_cleanup wp_appendEvents)

text \<open>A lease that a budget stopped: failed, with the reason, and its sandbox cleaned up.\<close>

definition stopped :: "string \<Rightarrow> string \<times> string \<Rightarrow> exec_store \<Rightarrow> bool" where
  "stopped i f store \<longleftrightarrow> (\<exists>k. store_get i store = Some k \<and> le_status k = Failed \<and> le_failure k = Some f \<and>
     (le_sandbox k \<noteq> None \<longrightarrow> le_cleanup k \<noteq> None))"

lemma fail_put_stopped:
  assumes p: "providerFor env (cur s) = Inr p"
  shows "wp (failForPolicy env c m True) (\<lambda>_. wp putLease (\<lambda>_ t. stopped (le_id (cur s)) (c, m) (st t)) E) E s"
  by (rule wp_mono [OF failForPolicy_fails [OF p, where E = "\<lambda>_ _. False"]])
    (auto simp: wp_putLease stopped_def kin_def)

lemma enforce_stops:
  assumes p: "providerFor env (cur s) = Inr p"
    and f: "f = (if over then (''EXECUTION_EVENT_BUDGET_EXCEEDED'', budget_message l)
                 else (''EXECUTION_COST_BUDGET_EXCEEDED'', cost_message pf cost maxCost))"
    and cost: "\<not> over \<Longrightarrow> rq_maxCostUsd (le_request l) = Some maxCost \<and>
      latestEstimatedCost unseen = Some cost \<and> num_lt maxCost cost"
  shows "wp (enforceBudgets pf env l over unseen) (\<lambda>_. wp putLease (\<lambda>_ t. stopped (le_id (cur s)) f (st t)) E) E s"
  using f cost fail_put_stopped [OF p] by (cases over) (simp_all add: enforceBudgets_def)

lemma ingest_stops:
  assumes p: "providerFor env (cur s) = Inr p"
    and over: "over = (case remainingEvents (cur s) of None \<Rightarrow> False
      | Some r \<Rightarrow> int (length (unseen_events (cur s) batch)) > r)"
    and f: "f = (if over then (''EXECUTION_EVENT_BUDGET_EXCEEDED'', budget_message (cur s))
                 else (''EXECUTION_COST_BUDGET_EXCEEDED'', cost_message pf cost maxCost))"
    and cost: "\<not> over \<Longrightarrow> rq_maxCostUsd (le_request (cur s)) = Some maxCost \<and>
      latestEstimatedCost (unseen_events (cur s) batch) = Some cost \<and> num_lt maxCost cost"
  shows "wp (ingestBatch pf env (cur s) batch) (\<lambda>_ t. stopped (le_id (cur s)) f (st t)) E s"
proof -
  let ?un = "cap_events (remainingEvents (cur s)) (unseen_events (cur s) batch)"
  have un: "?un = unseen_events (cur s) batch" if "\<not> over"
    using that over by (auto simp: cap_events_def split: option.splits)
  have enforce: "wp (enforceBudgets pf env (cur s) over ?un) (\<lambda>_. wp putLease (\<lambda>_ t. stopped (le_id (cur s)) f (st t)) E) E t"
    if "le_id (cur t) = le_id (cur s)" "le_provider (cur t) = le_provider (cur s)" for t
  proof -
    from p that have "providerFor env (cur t) = Inr p"
      by (simp add: providerFor_def split: option.splits)
    from enforce_stops [OF this f, of ?un] cost un that show ?thesis by fastforce
  qed
  have touch: "wp (touch env) (\<lambda>_. wp (thenE (enforceBudgets pf env (cur s) over ?un) putLease)
      (\<lambda>_ t. stopped (le_id (cur s)) f (st t)) E) E t"
    if "le_id (cur t) = le_id (cur s)" "le_provider (cur t) = le_provider (cur s)" for t
    using that by (auto simp: wp_thenE intro!: wp_touch enforce)
  have "wp (recordUnseen env ?un) (\<lambda>_ t. le_id (cur t) = le_id (cur s) \<and> le_provider (cur t) = le_provider (cur s)) E s"
    by (auto simp: recordUnseen_def wp_simps intro!: wp_appendEvents)
  then show ?thesis
    unfolding ingestBatch_def Let_def wp_thenE [of "recordUnseen _ _"] over [symmetric]
    by (rule wp_mono) (auto simp: wp_thenE wp_setCur wp_ret split: option.split intro!: touch)
qed

end
