(* ===== verification/Control_Plane_End.thy ===== *)
theory Control_Plane_End
  imports Control_Plane_Api
begin

text \<open>
  Driving and ending an execution: which states a method refuses, what \<open>suspend\<close>, \<open>resume\<close>,
  \<open>collectResult\<close>, \<open>terminate\<close> and \<open>reapExpired\<close> leave in the store, that ending an execution
  twice does nothing the second time, and that a method touches no execution but its own.
\<close>

section \<open>Refusals\<close>

lemma loadLease_run:
  "loadLease i s = (case store_get i (st s) of None \<Rightarrow> (Inl (not_found i), s) | Some l \<Rightarrow> (Inr l, s\<lparr>cur := l\<rparr>))"
  by (simp add: loadLease_def getExecution_def bindE_def thenE_def gets_def throw_def ret_def setCur_def
      modify_def split: option.split)

lemma loadLease_Some: "store_get i (st s) = Some l \<Longrightarrow> loadLease i s = (Inr l, s\<lparr>cur := l\<rparr>)"
  by (simp add: loadLease_run)

lemma getRunnable_refuses:
  assumes "store_get i (st s) = Some l"
    and "le_handle l = None \<or> le_sandbox l = None \<or> isTerminal (le_status l)"
  shows "getRunnable i s = (Inl (invalidState l ''Execution is not active.''), s\<lparr>cur := l\<rparr>)"
  using assms by (auto simp: getRunnable_def bindE_def loadLease_Some throw_def split: option.split)

lemma forwardInput_refuses:
  assumes "store_get i (st s) = Some l"
    and "le_handle l = None \<or> le_sandbox l = None \<or> isTerminal (le_status l)"
  shows "forwardInput pf env False m i d s = (Inl (invalidState l ''Execution is not active.''), s\<lparr>cur := l\<rparr>)"
  using getRunnable_refuses [OF assms] by (simp add: forwardInput_def thenE_def bindE_def ret_def)

lemma suspend_refuses:
  assumes "store_get i (st s) = Some l"
    and "le_handle l = None \<or> le_sandbox l = None \<or> isTerminal (le_status l)"
  shows "suspend env i s = (Inl (invalidState l ''Execution is not active.''), s\<lparr>cur := l\<rparr>)"
  using getRunnable_refuses [OF assms] by (simp add: suspend_def bindE_def)

lemma resume_refuses:
  assumes "store_get i (st s) = Some l" and "le_sandbox l = None \<or> le_status l \<noteq> Suspended"
  shows "resume pf env i s = (Inl (invalidState l ''Only suspended executions can resume.''), s\<lparr>cur := l\<rparr>)"
  using assms by (auto simp: resume_def bindE_def loadLease_Some throw_def split: option.split)

section \<open>Suspending\<close>

text \<open>The lease a method stored and returned, with the event it logged last.\<close>

definition stored_with :: "string \<Rightarrow> event_type \<Rightarrow> lease \<Rightarrow> exec_store \<Rightarrow> bool" where
  "stored_with i ty l store \<longleftrightarrow> store_get i store = Some l \<and>
     (\<exists>lg e. events_of i store = lg @ [e] \<and> ev_type e = ty \<and> ev_sequence e = le_lastEventSequence l)"

lemma suspend_ends:
  assumes so: "store_ok pf (st s)"
  shows "wp (suspend env i) (\<lambda>l t. le_status l = Suspended \<and> stored_with i SandboxSuspended l (st t))
    (\<lambda>_ t. st t = st s) s"
  unfolding suspend_def wp_bindE
  by (rule wp_getRunnable [OF so])
    (auto simp: wp_simps wp_putLease wp_getExecution stored_with_def after_append_def cp_event_def
      split: sum.split intro!: wp_call wp_touch wp_appendEvents elim!: appended_single)

text \<open>A resumed execution logs the resumption before anything the provider reports.\<close>

definition resumed :: "string \<Rightarrow> exec_store \<Rightarrow> lease \<Rightarrow> exec_store \<Rightarrow> bool" where
  "resumed i before l store \<longleftrightarrow> store_get i store = Some l \<and>
     (\<exists>e es. events_of i store = events_of i before @ e # es \<and> ev_type e = SandboxResumed)"

lemma pull_resumed:
  assumes f: "frame_ok pf t" and e: "events_of j (st t) = events_of j before @ [e]" "ev_type e = SandboxResumed"
  shows "wp putLease (\<lambda>_. wp (thenE (pullProviderEvents pf env k) (getExecution j))
    (\<lambda>l t. resumed j before l (st t)) (\<lambda>_ _. True)) (\<lambda>_ _. True) t"
proof -
  let ?t = "t\<lparr>st := store_put (cur t) (st t)\<rparr>"
  have g: "grown (st t) ?t" by (simp add: grown_def)
  have "wp (pullProviderEvents pf env k) (\<lambda>_ _. True) (\<lambda>_ _. True) ?t"
    by (simp add: wp_def split: prod.split sum.split)
  from keeps_wp_conj [OF pull_grown g this]
  have "wp (pullProviderEvents pf env k) (\<lambda>_ t'. grown (st t) t') (\<lambda>_ _. True) ?t"
    by (rule wp_mono) simp_all
  then show ?thesis
    unfolding wp_putLease wp_thenE
  proof (rule wp_mono)
    fix t' assume "grown (st t) t'"
    then obtain es where "events_of j (st t') = events_of j (st t) @ es" by (auto simp: grown_def)
    with e show "wp (getExecution j) (\<lambda>l t. resumed j before l (st t)) (\<lambda>_ _. True) t'"
      by (simp add: wp_getExecution resumed_def split: option.split)
  qed
qed

lemma resume_ends:
  assumes so: "store_ok pf (st s)"
  shows "wp (resume pf env i) (\<lambda>l t. resumed i (st s) l (st t)) (\<lambda>_ _. True) s"
proof -
  have pull: "wp putLease (\<lambda>_. wp (thenE (pullProviderEvents pf env k) (getExecution j))
      (\<lambda>l t. resumed j (st s) l (st t)) (\<lambda>_ _. True)) (\<lambda>_ _. True) (after_append [e] ns w t)"
    if "frame_ok pf t" "appended (cur t) [e] ns" "st t = st s" "le_id (cur t) = j" "pe_type e = SandboxResumed" for j k t e ns w
  proof -
    note a = that(2)
    obtain n where "ns = [n]" "ev_type n = pe_type e" by (rule appended_single [OF a]) blast
    with that show ?thesis
      by (intro pull_resumed [where e = n] frame_ok_append) (simp_all add: after_append_def)
  qed
  show ?thesis
    unfolding resume_def wp_bindE
    apply (rule wp_loadLease [OF so])
    subgoal premises p for l
      using p(2) by (auto simp: wp_bindE wp_lift_sum wp_throw wp_thenE [of _ "thenE _ _"] wp_setCur wp_setStatus cp_event_def
          split: option.split sum.split intro!: wp_call wp_touch wp_appendEvents pull
            frame_ok_like [OF synced_frame [OF p(3)]])
    by simp
qed

section \<open>Terminating\<close>

definition ended :: "string \<Rightarrow> lease \<Rightarrow> lease \<Rightarrow> exec_store \<Rightarrow> bool" where
  "ended i l k store \<longleftrightarrow> store_get i store = Some k \<and> same_identity l k \<and>
     le_sandbox k = le_sandbox l \<and> le_result k = le_result l \<and> le_failure k = le_failure l \<and>
     le_status k = (if isTerminal (le_status l) then le_status l else Cancelled) \<and>
     (\<exists>r sb. le_cleanup k = Some r \<and> le_sandbox l = Some sb \<and> rc_executionId r = i \<and> rc_sandboxId r = ss_id sb) \<and>
     stored_with i SandboxTerminated k store"

lemma terminate_ends:
  assumes so: "store_ok pf (st s)" and l: "store_get i (st s) = Some l"
    and sb: "le_sandbox l = Some sb" and c: "le_cleanup l = None"
  shows "wp (terminate pf env i) (\<lambda>k t. ended i l k (st t)) (\<lambda>e t. providerFor env l = Inl e \<and> st t = st s) s"
  unfolding terminate_def wp_bindE
proof (rule wp_loadLease [OF so])
  fix l' assume l': "store_get i (st s) = Some l'" "le_id l' = i" "synced pf (s\<lparr>cur := l'\<rparr>)"
  with l sb c show "wp (case (le_sandbox l', le_cleanup l') of
       (Some sandbox, None) \<Rightarrow>
         bindE (lift_sum (providerFor env l')) (\<lambda>provider.
         bindE (cleanup env provider sandbox) (\<lambda>receipt.
         thenE (setCleanup receipt)
         (thenE (if isTerminal (le_status l') then ret () else setStatus Cancelled)
         (thenE (touch env)
         (thenE (appendEvents env [cp_event (le_id l' @ '':terminated'') SandboxTerminated (receipt_js pf receipt)])
         (thenE putLease
          (getExecution i)))))))
     | _ \<Rightarrow> ret l') (\<lambda>k t. ended i l k (st t)) (\<lambda>e t. providerFor env l = Inl e \<and> st t = st s) (s\<lparr>cur := l'\<rparr>)"
    by (auto simp: wp_simps wp_putLease wp_getExecution ended_def stored_with_def same_identity_def
        after_append_def cp_event_def split: sum.split
        intro!: wp_touch wp_cleanup wp_appendEvents elim!: appended_single)
qed (simp add: l)

lemma terminate_noop:
  assumes "store_get i (st s) = Some l" and "le_sandbox l = None \<or> le_cleanup l \<noteq> None"
  shows "terminate pf env i s = (Inr l, s\<lparr>cur := l\<rparr>)"
  using assms by (auto simp: terminate_def bindE_def loadLease_Some ret_def split: option.split)

section \<open>Collecting the result\<close>

lemma collectResult_noop:
  assumes "store_get i (st s) = Some l" and "le_cleanup l \<noteq> None" and "le_result l \<noteq> None \<or> le_failure l \<noteq> None"
  shows "collectResult pf env i s = (Inr l, s\<lparr>cur := l\<rparr>)"
  using assms by (auto simp: collectResult_def bindE_def loadLease_Some ret_def)

definition collected :: "string \<Rightarrow> lease \<Rightarrow> exec_store \<Rightarrow> bool" where
  "collected i k store \<longleftrightarrow> (\<exists>r c. store_get i store = Some k \<and> le_result k = Some r \<and>
     le_status k = status_of_result (pr_status r) \<and> le_cleanup k = Some c \<and>
     stored_with i CleanupCompleted k store)"

lemma collectResult_ends:
  assumes so: "store_ok pf (st s)" and l: "store_get i (st s) = Some l"
    and open': "le_cleanup l = None"
  shows "wp (collectResult pf env i) (\<lambda>k t. collected i k (st t)) (\<lambda>_ _. True) s"
proof -
  have tail: "wp (bindE (lift_sum (providerFor env l)) (\<lambda>provider.
      bindE (call (pv_collectResult provider h)) (\<lambda>result.
      thenE (setCur (\<lambda>l. l\<lparr>le_result := Some result\<rparr>))
      (thenE (setStatus (status_of_result (pr_status result)))
      (bindE (cleanup env provider sb) (\<lambda>receipt. thenE (setCleanup receipt) (thenE (touch env)
        (thenE (appendEvents env [cp_event (le_id l @ '':cleanup'') CleanupCompleted (receipt_js pf receipt)])
        (thenE putLease (getExecution j))))))))))
     (\<lambda>k t. collected j k (st t)) (\<lambda>_ _. True) t" if "le_id (cur t) = j" for h sb t j
    using that by (auto simp: wp_simps wp_putLease wp_getExecution collected_def stored_with_def
        after_append_def cp_event_def split: sum.split
        intro!: wp_call wp_touch wp_cleanup wp_appendEvents elim!: appended_single)
  have "wp (collectResult pf env i) (\<lambda>k t. collected i k (st t)) (\<lambda>_ _. True) s"
    unfolding collectResult_def wp_bindE [of "loadLease i"]
  proof (rule wp_loadLease [OF so])
    fix l' assume l': "store_get i (st s) = Some l'" "le_id l' = i" "synced pf (s\<lparr>cur := l'\<rparr>)"
    with l have "l' = l" by simp
    with open' l'(2,3) show "wp (if le_result l' \<noteq> None \<and> le_cleanup l' \<noteq> None then ret l'
       else if le_failure l' \<noteq> None \<and> le_cleanup l' \<noteq> None then ret l'
       else (case (le_handle l', le_sandbox l') of
       (Some handle, Some sandbox) \<Rightarrow>
         thenE (pullProviderEvents pf env None)
         (bindE (lift_sum (providerFor env l')) (\<lambda>provider.
          bindE (call (pv_collectResult provider handle)) (\<lambda>result.
          thenE (setCur (\<lambda>l. l\<lparr>le_result := Some result\<rparr>))
          (thenE (setStatus (status_of_result (pr_status result)))
          (bindE (cleanup env provider sandbox) (\<lambda>receipt.
           thenE (setCleanup receipt)
           (thenE (touch env)
           (thenE (appendEvents env [cp_event (le_id l' @ '':cleanup'') CleanupCompleted (receipt_js pf receipt)])
           (thenE putLease
            (getExecution i))))))))))
     | _ \<Rightarrow> throw (invalidState l' ''Execution has no active provider handle.'')))
       (\<lambda>k t. collected i k (st t)) (\<lambda>_ _. True) (s\<lparr>cur := l'\<rparr>)"
      by (auto simp: wp_throw wp_thenE [of "pullProviderEvents _ _ _"] kin_def split: option.split
          intro!: wp_pull tail)
  qed simp
  then show ?thesis .
qed

section \<open>Executions do not interfere\<close>

definition untouched :: "string \<Rightarrow> exec_store \<Rightarrow> 'w cps \<Rightarrow> bool" where
  "untouched j before s \<longleftrightarrow> store_get j (st s) = store_get j before \<and> events_of j (st s) = events_of j before"

definition away :: "string \<Rightarrow> exec_store \<Rightarrow> 'w cps \<Rightarrow> bool" where
  "away j before s \<longleftrightarrow> untouched j before s \<and> le_id (cur s) \<noteq> j"

lemma keeps_away [keeps_intros]:
  "keeps (away j before) (call f)" "keeps (away j before) (now env)" "keeps (away j before) (newId env)"
  "keeps (away j before) putLease"
  by (auto simp: keeps_def call_def now_def newId_def putLease_def modify_def away_def untouched_def split: prod.split)

lemma keeps_away_setCur [keeps_intros]:
  "(\<And>l. le_id (g l) = le_id l) \<Longrightarrow> keeps (away j before) (setCur g)"
  by (simp add: keeps_def setCur_def modify_def away_def untouched_def)

lemma keeps_away_append [keeps_intros]: "keeps (away j before) (appendEvents env es)"
  unfolding keeps_wp
  by (intro allI impI wp_appendEvents) (auto simp: after_append_def away_def untouched_def)

lemma helpers_away [keeps_intros]:
  "keeps (away j before) (touch env)" "keeps (away j before) (setStatus a)"
  "keeps (away j before) (setCleanup c)" "keeps (away j before) (cleanup env p sb)"
  "keeps (away j before) (getExecution i)"
  by (auto simp: touch_def setStatus_def setCleanup_def cleanup_def getExecution_def Let_def
      intro!: keeps_intros split: option.split)

lemma failForPolicy_away [keeps_intros]: "keeps (away j before) (failForPolicy env c m b)"
  by (auto simp: failForPolicy_def intro!: keeps_intros split: option.split)

lemma enforce_away [keeps_intros]: "keeps (away j before) (enforceBudgets pf env l b unseen)"
  by (simp add: enforceBudgets_def keeps_ret failForPolicy_away split: option.split)

lemma record_away [keeps_intros]: "keeps (away j before) (recordUnseen env unseen)"
  unfolding recordUnseen_def by (intro keeps_intros) simp

lemma ingest_away [keeps_intros]: "keeps (away j before) (ingestBatch pf env l batch)"
  unfolding ingestBatch_def Let_def by (intro keeps_intros) simp

lemma pull_away [keeps_intros]: "keeps (away j before) (pullProviderEvents pf env k)"
  by (auto simp: pullProviderEvents_def intro!: keeps_intros split: option.split)

lemma away_wp:
  assumes "keeps (away j before) m" and "away j before s"
  shows "wp m (\<lambda>_. untouched j before) (\<lambda>_. untouched j before) s"
  using keepsD [OF assms] by (simp add: wp_state away_def)

lemma untouched_refl [simp]: "untouched j (st s) (s\<lparr>cur := c\<rparr>)" "untouched j (st s) s"
  by (simp_all add: untouched_def)

lemma away_load: "le_id l \<noteq> j \<Longrightarrow> away j (st s) (s\<lparr>cur := l\<rparr>)"
  by (simp add: away_def)

lemma runnable_untouched:
  assumes so: "store_ok pf (st s)" and ij: "i \<noteq> j"
    and f: "\<And>l h sb. keeps (away j (st s)) (f (l, h, sb))"
  shows "wp (getRunnable i) (\<lambda>x. wp (f x) (\<lambda>_. untouched j (st s)) (\<lambda>_. untouched j (st s)))
    (\<lambda>_. untouched j (st s)) s"
  by (rule wp_getRunnable [OF so]) (use ij in \<open>auto intro!: away_wp f away_load\<close>)

lemma loaded_untouched:
  assumes so: "store_ok pf (st s)" and ij: "i \<noteq> j" and f: "\<And>l. keeps (away j (st s)) (f l)"
  shows "wp (loadLease i) (\<lambda>x. wp (f x) (\<lambda>_. untouched j (st s)) (\<lambda>_. untouched j (st s)))
    (\<lambda>_. untouched j (st s)) s"
  by (rule wp_loadLease [OF so]) (use ij in \<open>auto intro!: away_wp f away_load\<close>)

lemma methods_untouched:
  assumes so: "store_ok pf (st s)" and ij: "i \<noteq> j"
  shows "wp (forwardInput pf env b m i d) (\<lambda>_. untouched j (st s)) (\<lambda>_. untouched j (st s)) s"
    and "wp (suspend env i) (\<lambda>_. untouched j (st s)) (\<lambda>_. untouched j (st s)) s"
    and "wp (resume pf env i) (\<lambda>_. untouched j (st s)) (\<lambda>_. untouched j (st s)) s"
    and "wp (streamEvents pf env i c k) (\<lambda>_. untouched j (st s)) (\<lambda>_. untouched j (st s)) s"
    and "wp (collectResult pf env i) (\<lambda>_. untouched j (st s)) (\<lambda>_. untouched j (st s)) s"
    and "wp (terminate pf env i) (\<lambda>_. untouched j (st s)) (\<lambda>_. untouched j (st s)) s"
  unfolding forwardInput_def suspend_def resume_def streamEvents_def collectResult_def terminate_def
    wp_bindE [of "getRunnable _"] wp_bindE [of "loadLease _"] wp_bindE [of "lift_sum (parseCursor _ _)"] wp_thenE [of "if _ then throw _ else _"]
  by (auto simp: wp_lift_sum wp_if wp_throw wp_ret wp_bindE [of "getRunnable _"] wp_bindE [of "loadLease _"]
      split: sum.split option.split intro!: runnable_untouched [OF so ij] loaded_untouched [OF so ij] keeps_intros)

section \<open>Reaping\<close>

definition reaped :: "string \<Rightarrow> lease \<Rightarrow> exec_store \<Rightarrow> bool" where
  "reaped i k store \<longleftrightarrow> store_get i store = Some k \<and> le_id k = i \<and> le_status k = Expired \<and>
     (le_sandbox k \<noteq> None \<longrightarrow> le_cleanup k \<noteq> None)"

lemma terminate_cleans:
  assumes so: "store_ok pf (st s)"
  shows "wp (terminate pf env i) (\<lambda>k t. le_sandbox k \<noteq> None \<longrightarrow> le_cleanup k \<noteq> None) (\<lambda>_ _. True) s"
proof (cases "store_get i (st s)")
  case None
  then show ?thesis by (simp add: terminate_def wp_bindE wp_def bindE_def loadLease_run)
next
  case (Some l)
  show ?thesis
  proof (cases "le_sandbox l = None \<or> le_cleanup l \<noteq> None")
    case True
    with terminate_noop [OF Some True, of pf env] show ?thesis by (auto simp: wp_def)
  next
    case False
    then obtain sb where sb: "le_sandbox l = Some sb" "le_cleanup l = None" by auto
    show ?thesis
      by (rule wp_mono [OF terminate_ends [OF so Some sb]]) (auto simp: ended_def)
  qed
qed

lemma reapOne_ends:
  fixes s :: "'w cps"
  assumes so: "store_ok pf (st s)"
  shows "wp (reapOne pf env i) (\<lambda>k t. reaped i k (st t)) (\<lambda>_ _. True) s"
  unfolding reapOne_def wp_bindE
proof (rule wp_mono [OF wp_conj [OF terminate_returns [OF so] terminate_cleans [OF so]]])
  fix l and t :: "'w cps"
  assume "(store_ok pf (st t) \<and> store_get i (st t) = Some l \<and> le_id l = i) \<and>
      (le_sandbox l \<noteq> None \<longrightarrow> le_cleanup l \<noteq> None)"
  then show "wp (thenE (setCur (\<lambda>_. l\<lparr>le_status := Expired\<rparr>)) (thenE (touch env) (thenE putLease (gets cur))))
      (\<lambda>k t. reaped i k (st t)) (\<lambda>_ _. True) t"
    by (auto simp: wp_thenE wp_setCur wp_putLease wp_gets reaped_def intro!: wp_touch)
qed simp

lemma reapOne_untouched:
  fixes s :: "'w cps"
  assumes so: "store_ok pf (st s)" and ij: "i \<noteq> j"
  shows "wp (reapOne pf env i) (\<lambda>_. untouched j (st s)) (\<lambda>_. untouched j (st s)) s"
  unfolding reapOne_def wp_bindE
proof (rule wp_mono [OF wp_conj [OF terminate_returns [OF so] methods_untouched(6) [OF so ij]]])
  fix l and t :: "'w cps"
  assume a: "(store_ok pf (st t) \<and> store_get i (st t) = Some l \<and> le_id l = i) \<and> untouched j (st s) t"
  have "keeps (away j (st s)) (thenE (touch env) (thenE putLease (gets cur)))" by (intro keeps_intros)
  moreover have "away j (st s) (t\<lparr>cur := l\<lparr>le_status := Expired\<rparr>\<rparr>)"
    using a ij by (simp add: away_def untouched_def)
  ultimately show "wp (thenE (setCur (\<lambda>_. l\<lparr>le_status := Expired\<rparr>)) (thenE (touch env) (thenE putLease (gets cur))))
      (\<lambda>_. untouched j (st s)) (\<lambda>_. untouched j (st s)) t"
    by (simp add: wp_thenE [of "setCur _"] wp_setCur away_wp)
qed simp_all

text \<open>The loop, over distinct identifiers: what one pass does the later ones leave alone.\<close>

lemma reap_loop_untouched:
  fixes s :: "'w cps"
  assumes "store_ok pf (st s)" and "j \<notin> set is"
  shows "wp (seqE (map (reapOne pf env) is)) (\<lambda>_. untouched j (st s)) (\<lambda>_. untouched j (st s)) s"
  using assms
proof (induction "is" arbitrary: s)
  case Nil
  then show ?case by (simp add: wp_ret)
next
  case (Cons i "is")
  from Cons.prems have ij: "i \<noteq> j" by auto
  show ?case
    unfolding list.map seqE.simps wp_bindE
  proof (rule wp_mono [OF wp_conj [OF reapOne_kept [OF Cons.prems(1)] reapOne_untouched [OF Cons.prems(1) ij]]])
    fix x and t :: "'w cps" assume t: "store_ok pf (st t) \<and> untouched j (st s) t"
    then have "untouched j (st s) u" if "untouched j (st t) u" for u :: "'w cps"
      using that by (simp add: untouched_def)
    with t Cons.prems(2) show "wp (seqE (map (reapOne pf env) is)) (\<lambda>xs. wp (ret (x # xs)) (\<lambda>_. untouched j (st s)) (\<lambda>_. untouched j (st s)))
        (\<lambda>_. untouched j (st s)) t"
      by (auto simp: wp_ret intro!: wp_mono [OF Cons.IH [of t]])
  qed simp
qed

lemma reap_loop_ends:
  fixes s :: "'w cps"
  assumes "store_ok pf (st s)" and "distinct is"
  shows "wp (seqE (map (reapOne pf env) is)) (\<lambda>ks t. list_all2 (\<lambda>i k. reaped i k (st t)) is ks) (\<lambda>_ _. True) s"
  using assms
proof (induction "is" arbitrary: s)
  case Nil
  then show ?case by (simp add: wp_ret)
next
  case (Cons i "is")
  show ?case
    unfolding list.map seqE.simps wp_bindE
  proof (rule wp_mono [OF wp_conj [OF reapOne_kept [OF Cons.prems(1)] reapOne_ends [OF Cons.prems(1)]]])
    fix k and t :: "'w cps" assume t: "store_ok pf (st t) \<and> reaped i k (st t)"
    from t Cons.prems(2) have so: "store_ok pf (st t)" "distinct is" "i \<notin> set is" by auto
    show "wp (seqE (map (reapOne pf env) is)) (\<lambda>xs. wp (ret (k # xs)) (\<lambda>ks t. list_all2 (\<lambda>i k. reaped i k (st t)) (i # is) ks) (\<lambda>_ _. True)) (\<lambda>_ _. True) t"
      by (rule wp_mono [OF wp_conj [OF Cons.IH [OF so(1,2)] reap_loop_untouched [OF so(1,3)]]])
        (use t in \<open>auto simp: wp_ret reaped_def untouched_def\<close>)
  qed simp
qed

lemma stored_ids:
  assumes "store_ok pf store" and "(i, l) \<in> set (leases store)"
  shows "le_id l = i"
  using assms by (auto simp: store_ok_def keys_ok_def store_get_def lease_ok_def)

lemma distinct_ids:
  assumes so: "store_ok pf store"
  shows "distinct (map le_id (store_list store))"
proof -
  have "map le_id (map snd (leases store)) = map fst (leases store)"
    using stored_ids [OF so] by auto
  moreover have "distinct (map fst (leases store))"
    using so by (simp add: store_ok_def keys_ok_def)
  ultimately have "distinct (map le_id (map snd (leases store)))" by metis
  then show ?thesis by (simp add: store_list_def distinct_map [of le_id] del: map_map)
qed

lemma distinct_due: "store_ok pf store \<Longrightarrow> distinct (map le_id (due_leases t store))"
  unfolding due_leases_def by (rule distinct_map_filter [OF distinct_ids])

lemma reapExpired_ends:
  fixes s :: "'w cps"
  assumes so: "store_ok pf (st s)"
  shows "wp (reapExpired pf env) (\<lambda>ks t. list_all2 (\<lambda>i k. reaped i k (st t))
      (map le_id (due_leases (fst (env_now env (wd s))) (st s))) ks) (\<lambda>_ _. True) s"
  unfolding reapExpired_def wp_bindE wp_gets
proof (rule wp_now)
  fix t w assume "env_now env (wd s) = (t, w)"
  then show "wp (seqE (map (\<lambda>l. reapOne pf env (le_id l)) (due_leases t (st (s\<lparr>wd := w\<rparr>)))))
      (\<lambda>ks t. list_all2 (\<lambda>i k. reaped i k (st t)) (map le_id (due_leases (fst (env_now env (wd s))) (st s))) ks)
      (\<lambda>_ _. True) (s\<lparr>wd := w\<rparr>)"
    using reap_loop_ends [OF _ distinct_due [OF so, of t], of pf "s\<lparr>wd := w\<rparr>" env] so by (simp add: comp_def)
qed

end
