(* ===== verification/Control_Plane_Start.thy ===== *)
theory Control_Plane_Start
  imports Control_Plane_Api
begin

text \<open>
  \<open>createExecution\<close>: what it leaves behind when it returns and when it throws, and that a client may
  repeat the request. The lemmas follow the code: the start sequence, its handler, the method.
\<close>

section \<open>The start sequence\<close>

text \<open>What the start sequence never changes of the lease it starts.\<close>

definition start_kin :: "lease \<Rightarrow> lease \<Rightarrow> bool" where
  "start_kin l k \<longleftrightarrow> le_id k = le_id l \<and> le_request k = le_request l \<and> le_provider k = le_provider l \<and>
     (le_sandbox k = None \<longrightarrow> le_cleanup k = None)"

lemma start_kinI: "le_id k = le_id l \<Longrightarrow> le_request k = le_request l \<Longrightarrow> le_provider k = le_provider l \<Longrightarrow>
    (le_sandbox k = None \<Longrightarrow> le_cleanup k = None) \<Longrightarrow> start_kin l k"
  by (simp add: start_kin_def)

lemma start_kin_kin: "start_kin l k \<Longrightarrow> kin k k' \<Longrightarrow> le_sandbox k \<noteq> None \<Longrightarrow> start_kin l k'"
  by (auto simp: start_kin_def kin_def)

text \<open>After the pull that ends the sequence the stored lease is the one the method returns.\<close>

lemma pull_returns:
  fixes s :: "'w cps"
  assumes sy: "synced pf s"
    and E: "\<And>e t. synced pf t \<Longrightarrow> kin (cur s) (cur t) \<Longrightarrow> E e t"
  shows "wp (thenE (pullProviderEvents pf env k) (getExecution (le_id (cur s))))
    (\<lambda>l t. store_get (le_id l) (st t) = Some l \<and> le_id l = le_id (cur s) \<and> le_request l = le_request (cur s)) E s"
  unfolding wp_thenE
proof (rule wp_pull [OF sy])
  fix b and t :: "'w cps" assume sy': "synced pf t" and k: "kin (cur s) (cur t)"
  from synced_frame [OF sy'] k obtain l where
    l: "store_get (le_id (cur s)) (st t) = Some l" "le_request l = le_request (cur s)"
    by (auto simp: frame_ok_def kin_def)
  moreover have "le_id l = le_id (cur s)"
    using store_ok_get [OF synced_store [OF sy'] l(1)] by (simp add: lease_ok_def)
  ultimately show "wp (getExecution (le_id (cur s))) (\<lambda>l t. store_get (le_id l) (st t) = Some l \<and>
      le_id l = le_id (cur s) \<and> le_request l = le_request (cur s)) E t"
    by (simp add: wp_getExecution)
qed (rule E)

lemma startSequence_returns:
  assumes f: "frame_ok pf s" and new: "le_sandbox (cur s) = None" "le_cleanup (cur s) = None"
  shows "wp (startSequence pf env p)
     (\<lambda>l t. store_get (le_id l) (st t) = Some l \<and> le_id l = le_id (cur s) \<and> le_request l = le_request (cur s))
     (\<lambda>_ t. frame_ok pf t \<and> start_kin (cur s) (cur t)) s"
proof -
  have pull: "wp putLease (\<lambda>_. wp (thenE (pullProviderEvents pf env k) (getExecution j))
      (\<lambda>l t. store_get (le_id l) (st t) = Some l \<and> le_id l = le_id (cur s) \<and> le_request l = le_request (cur s))
      (\<lambda>_ t. frame_ok pf t \<and> start_kin (cur s) (cur t))) (\<lambda>_ t. frame_ok pf t \<and> start_kin (cur s) (cur t)) t"
    if "frame_ok pf t" "start_kin (cur s) (cur t)" "le_sandbox (cur t) \<noteq> None" "j = le_id (cur s)" for k j t
  proof -
    have "wp (thenE (pullProviderEvents pf env k) (getExecution (le_id (cur (t\<lparr>st := store_put (cur t) (st t)\<rparr>)))))
      (\<lambda>l t'. store_get (le_id l) (st t') = Some l \<and> le_id l = le_id (cur t) \<and> le_request l = le_request (cur t))
      (\<lambda>_ t'. frame_ok pf t' \<and> start_kin (cur s) (cur t')) (t\<lparr>st := store_put (cur t) (st t)\<rparr>)"
      using pull_returns [OF synced_put [OF that(1)],
          of "\<lambda>_ t'. frame_ok pf t' \<and> start_kin (cur s) (cur t')" env k] that(2,3)
      by (simp add: synced_frame start_kin_kin)
    with that(2,4) show ?thesis by (simp add: wp_putLease start_kin_def)
  qed
  have later: "frame_ok pf (t\<lparr>wd := w, cur := c\<rparr>)" "frame_ok pf (t\<lparr>cur := c\<rparr>)"
    if "frame_ok pf t" "le_id c = le_id (cur t)" "le_request c = le_request (cur t)"
      "le_lastEventSequence c = le_lastEventSequence (cur t)"
      "le_seenProviderEventIds c = le_seenProviderEventIds (cur t)" for t w c
    by (rule frame_ok_like [OF that(1)]; simp add: that)+
  show ?thesis
    unfolding startSequence_def Let_def
    by (auto simp: f new wp_bindE wp_gets wp_ret wp_thenE [of _ "thenE _ _"]
        wp_thenE [of _ "bindE _ _"] wp_setCur wp_setStatus split: option.split
        intro!: wp_call wp_touch wp_appendEvents pull frame_ok_append later start_kinI)
qed

section \<open>Its handler\<close>

text \<open>A lease whose start failed: marked, cleaned up if it got a sandbox, and logged.\<close>

definition failed_start :: "lease \<Rightarrow> exn \<Rightarrow> 'w cps \<Rightarrow> lease \<Rightarrow> bool" where
  "failed_start l cause t k \<longleftrightarrow>
     store_get (le_id l) (st t) = Some k \<and> le_id k = le_id l \<and> le_request k = le_request l \<and>
     le_status k = Failed \<and>
     le_failure k = Some (errorCode cause ''EXECUTION_START_FAILED'', errorMessage cause) \<and>
     (le_sandbox k \<noteq> None \<longleftrightarrow> le_cleanup k \<noteq> None) \<and>
     (\<exists>lg e. events_of (le_id l) (st t) = lg @ [e] \<and> ev_type e = ExecutionFailed \<and>
        ev_id e = le_id l @ '':start-failed'' \<and>
        ev_data e = failure_js (errorCode cause ''EXECUTION_START_FAILED'', errorMessage cause))"

lemma startFailure_throws:
  assumes k: "start_kin l (cur s)"
  shows "wp (startFailure env p cause) (\<lambda>_ _. False)
    (\<lambda>e t. e = start_failed l (pv_id p) (errorCode cause ''EXECUTION_START_FAILED'', errorMessage cause) \<and>
      (\<exists>k. failed_start l cause t k)) s"
proof -
  show ?thesis
    using k unfolding startFailure_def Let_def start_kin_def
    by (auto simp: wp_simps wp_putLease cp_event_def start_failed_def failed_start_def after_append_def
        split: option.split intro!: wp_touch wp_cleanup wp_appendEvents elim!: appended_single)
qed

section \<open>The method\<close>

lemma find_stored:
  assumes so: "store_ok pf store" and f: "store_findByClientToken tok store = Some l"
  shows "store_get (le_id l) store = Some l" and "rq_clientToken (le_request l) = tok"
proof -
  from store_find_Some [OF f] have l: "l \<in> set (store_list store)" and "rq_clientToken (le_request l) = tok"
    by simp_all
  then show "rq_clientToken (le_request l) = tok" by simp
  from so l obtain i where i: "store_get i store = Some l"
    by (auto simp: store_ok_def keys_ok_def dest: store_list_get)
  with store_ok_get [OF so i] show "store_get (le_id l) store = Some l" by (simp add: lease_ok_def)
qed

lemma find_unique:
  assumes so: "store_ok pf store" and k: "store_get i store = Some k"
  shows "store_findByClientToken (rq_clientToken (le_request k)) store = Some k"
proof (cases "store_findByClientToken (rq_clientToken (le_request k)) store")
  case None
  from store_find_None [OF this k] show ?thesis by simp
next
  case (Some l)
  from find_stored [OF so Some] k so have "le_id l = i" by (auto simp: store_ok_def tokens_unique_def)
  with find_stored(1) [OF so Some] k Some show ?thesis by simp
qed

text \<open>
  The three ways the method ends: it throws before it has changed the store; the start failed and
  the failure is on record; it returns a stored lease for an equal request with this token.
\<close>

definition created :: "platform \<Rightarrow> js \<Rightarrow> lease \<Rightarrow> 'w cps \<Rightarrow> bool" where
  "created pf r l t \<longleftrightarrow> store_get (le_id l) (st t) = Some l \<and>
     rq_clientToken (le_request l) = rq_clientToken r \<and> canonicalJson pf (le_request l) = canonicalJson pf r"

definition early_error :: "exn \<Rightarrow> bool" where
  "early_error e \<longleftrightarrow> (\<exists>c m d. e = CPError c m d \<and>
     c \<in> {InvalidRequest, IdempotencyConflict, ProviderNotFound, ProviderUnsupported})"

text \<open>The state in which the start of a new lease begins: the lease stored, its creation logged.\<close>

definition start_state :: "platform \<Rightarrow> 'w cp_env \<Rightarrow> 'w provider \<Rightarrow> js \<Rightarrow> 'w cps \<Rightarrow> 'w cps" where
  "start_state pf env p r s =
     (case env_now env (wd s) of (createdAt, w1) \<Rightarrow> case env_idFactory env w1 of (i, w) \<Rightarrow>
        snd (thenE (setCur (\<lambda>_. new_lease p r createdAt i)) (thenE putLease
          (appendEvents env [created_event pf (new_lease p r createdAt i)])) (s\<lparr>wd := w\<rparr>)))"

text \<open>The failure on record, and the error thrown, are those of what the start sequence threw.\<close>

definition recorded_failure :: "platform \<Rightarrow> 'w cp_env \<Rightarrow> js \<Rightarrow> 'w cps \<Rightarrow> exn \<Rightarrow> 'w cps \<Rightarrow> bool" where
  "recorded_failure pf env r s e t \<longleftrightarrow> (\<exists>p cause t0 k. selectProvider pf env r = Inr p \<and>
     startSequence pf env p (start_state pf env p r s) = (Inl cause, t0) \<and>
     e = start_failed k (pv_id p) (errorCode cause ''EXECUTION_START_FAILED'', errorMessage cause) \<and>
     le_id k = next_id env (wd s) \<and> le_request k = r \<and> failed_start k cause t k)"

lemma validate_code: "validateExecutionRequest pf r = Inl e \<Longrightarrow> early_error e"
  by (auto simp: validateExecutionRequest_def early_error_def split: if_splits)

lemma select_code: "selectProvider pf env r = Inl e \<Longrightarrow> early_error e"
  by (auto simp: selectProvider_def early_error_def Let_def split: if_splits option.splits)

lemma failed_start_self: "failed_start l cause t k \<Longrightarrow>
  failed_start k cause t k \<and> le_id k = le_id l \<and> le_request k = le_request l \<and> start_failed k p f = start_failed l p f"
  by (simp add: failed_start_def start_failed_def)

lemma attempt_ends:
  fixes s :: "'w cps"
  assumes f: "frame_ok pf s" and new: "le_sandbox (cur s) = None" "le_cleanup (cur s) = None"
    and r: "le_request (cur s) = r" and i: "le_id (cur s) = i"
  shows "wp (catchE (startSequence pf env p) (startFailure env p)) (created pf r)
    (\<lambda>e t. \<exists>cause t0 k. startSequence pf env p s = (Inl cause, t0) \<and>
       e = start_failed k (pv_id p) (errorCode cause ''EXECUTION_START_FAILED'', errorMessage cause) \<and>
       le_id k = i \<and> le_request k = r \<and> failed_start k cause t k) s"
proof -
  obtain x t0 where run: "startSequence pf env p s = (x, t0)" by fastforce
  note ends = startSequence_returns [OF f new, of env p]
  show ?thesis
  proof (cases x)
    case (Inr l)
    with ends run r show ?thesis unfolding wp_catchE by (auto simp: wp_def created_def)
  next
    case (Inl cause)
    with ends run have k: "start_kin (cur s) (cur t0)" by (simp add: wp_def)
    have "wp (startFailure env p cause) (created pf r)
        (\<lambda>e t. \<exists>k. e = start_failed k (pv_id p) (errorCode cause ''EXECUTION_START_FAILED'', errorMessage cause) \<and>
           le_id k = i \<and> le_request k = r \<and> failed_start k cause t k) t0"
    proof (rule wp_mono [OF startFailure_throws [OF k]])
      fix e and t :: "'w cps"
      let ?f = "(errorCode cause ''EXECUTION_START_FAILED'', errorMessage cause)"
      assume "e = start_failed (cur s) (pv_id p) ?f \<and> (\<exists>k. failed_start (cur s) cause t k)"
      then obtain k where "e = start_failed (cur s) (pv_id p) ?f" "failed_start (cur s) cause t k" by blast
      with failed_start_self [OF this(2), of "pv_id p" ?f] r i
      show "\<exists>k. e = start_failed k (pv_id p) ?f \<and> le_id k = i \<and> le_request k = r \<and> failed_start k cause t k"
        by (intro exI [of _ k]) simp
    qed simp
    with Inl run show ?thesis unfolding wp_catchE by (simp add: wp_def)
  qed
qed

lemma createExecution_ends:
  assumes so: "store_ok pf (st s)" and fresh: "fresh_id env s"
  shows "wp (createExecution pf env r) (created pf r)
    (\<lambda>e t. (early_error e \<and> st t = st s) \<or> recorded_failure pf env r s e t) s"
proof -
  let ?E = "\<lambda>e t. (early_error e \<and> st t = st s) \<or> recorded_failure pf env r s e t"
  have "wp (thenE (setCur (\<lambda>_. new_lease p r createdAt i)) (thenE putLease
         (thenE (appendEvents env [created_event pf (new_lease p r createdAt i)])
          (catchE (startSequence pf env p) (startFailure env p))))) (created pf r) ?E (s\<lparr>wd := w\<rparr>)"
    if v: "valid_request pf r" and tok: "store_findByClientToken (rq_clientToken r) (st s) = None"
      and p: "selectProvider pf env r = Inr p"
      and t: "env_now env (wd s) = (createdAt, w1)" and i: "env_idFactory env w1 = (i, w)" for p createdAt w1 i w
  proof -
    let ?l = "new_lease p r createdAt i"
    let ?s0 = "s\<lparr>wd := w, cur := ?l, st := store_put ?l (st s)\<rparr>"
    let ?s1 = "start_state pf env p r s"
    have id: "''exec_'' @ sanitizeId i = next_id env (wd s)" using t i by (simp add: next_id_def)
    have "synced pf (s\<lparr>cur := ?l, st := store_put ?l (st s)\<rparr>)"
      using fresh id by (intro store_ok_new [OF so v _ tok HOL.refl]) (simp add: fresh_id_def)
    from frame_ok_like [OF synced_frame [OF this], of ?s0] have f0: "frame_ok pf ?s0" by simp
    obtain ns w' where run: "appendEvents env [created_event pf ?l] ?s0 = (Inr (), after_append [created_event pf ?l] ns w' ?s0)"
      and a: "appended ?l [created_event pf ?l] ns"
      using appendEvents_run [of env "[created_event pf ?l]" ?s0] by auto
    have s1: "?s1 = after_append [created_event pf ?l] ns w' ?s0"
      using run by (simp add: start_state_def t i thenE_def bindE_def setCur_def putLease_def modify_def)
    have "frame_ok pf ?s1" unfolding s1 by (rule frame_ok_append [OF f0]) (simp add: a)
    moreover have "le_sandbox (cur ?s1) = None" "le_cleanup (cur ?s1) = None" "le_request (cur ?s1) = r"
      "le_id (cur ?s1) = next_id env (wd s)" unfolding s1 using id by simp_all
    ultimately have "wp (catchE (startSequence pf env p) (startFailure env p)) (created pf r) ?E ?s1"
      by (rule wp_mono [OF attempt_ends]) (use p in \<open>auto simp: recorded_failure_def\<close>)
    then show ?thesis
      using run by (simp add: wp_thenE wp_setCur wp_putLease wp_def [of "appendEvents _ _"] s1 del: after_append_cur)
  qed
  moreover have "created pf r l s" if "store_findByClientToken (rq_clientToken r) (st s) = Some l"
      "canonicalJson pf (le_request l) = canonicalJson pf r" for l
    using find_stored [OF so that(1)] that(2) by (simp add: created_def)
  moreover have "early_error (idempotency_conflict pf r l)" for l
    by (simp add: early_error_def idempotency_conflict_def)
  ultimately show ?thesis
    unfolding createExecution_def
    by (auto simp: valid_request_def wp_bindE wp_lift_sum wp_ret wp_throw wp_gets
        wp_thenE [of "lift_sum _"] validate_code select_code split: option.split sum.split
        intro!: wp_now wp_newId)
qed

text \<open>Repeating a request that has a lease: that lease, and no change at all.\<close>

lemma createExecution_again:
  assumes so: "store_ok pf (st s)" and v: "valid_request pf r" and k: "store_get i (st s) = Some k"
    and tok: "rq_clientToken (le_request k) = rq_clientToken r"
  shows "createExecution pf env r s =
    (if canonicalJson pf (le_request k) = canonicalJson pf r then Inr k
     else Inl (idempotency_conflict pf r k), s)"
  using find_unique [OF so k] v
  by (simp add: createExecution_def valid_request_def tok thenE_def bindE_def lift_sum_def gets_def
      throw_def ret_def split: sum.split)

lemma createExecution_valid: "createExecution pf env r s = (Inr l, t) \<Longrightarrow> valid_request pf r"
  by (auto simp: createExecution_def valid_request_def thenE_def bindE_def lift_sum_def
      split: sum.splits prod.splits)

end
