(* ===== verification/Provider_Contract.thy ===== *)
theory Provider_Contract
  imports Fake_Provider Control_Plane_Stream Control_Plane_End Control_Plane_Start
begin

text \<open>
  What the control plane relies on of a provider, as two locales, and what it achieves with a
  provider that keeps them: a cleanup receipt that says verified, and a log that holds every event
  of a run once, in the run's order. The fake provider is shown to keep both.
\<close>

section \<open>The sandbox contract\<close>

text \<open>
  A terminated sandbox is reported as terminated. \<open>known i w\<close> says that the provider has the
  sandbox \<open>i\<close> in the world \<open>w\<close>; the clock and the identifier supply do not change that.
\<close>

locale sandbox_provider =
  fixes p :: "'w provider" and env :: "'w cp_env" and known :: "string \<Rightarrow> 'w \<Rightarrow> bool"
  assumes terminate_law: "known i w \<Longrightarrow> \<exists>w' x w''. pv_terminate p i w = (Inr (), w') \<and>
      pv_inspect p i w' = (Inr x, w'') \<and> ss_status x \<in> {SbTerminated, SbExpired}"
    and now_law: "known i w \<Longrightarrow> known i (snd (env_now env w))"
begin

lemma cleanup_verified:
  assumes k: "known (ss_id sb) (wd s)"
  shows "wp (cleanup env p sb) (\<lambda>r t. rc_status r = Verified \<and> rc_completedAt r \<noteq> None \<and> rc_error r = None)
    (\<lambda>_ _. False) s"
  unfolding cleanup_def wp_bindE wp_gets
proof (rule wp_now)
  fix t w assume n: "env_now env (wd s) = (t, w)"
  with now_law [OF k] have "known (ss_id sb) w" by simp
  from terminate_law [OF this] obtain w' x w'' where
    run: "pv_terminate p (ss_id sb) w = (Inr (), w')" "pv_inspect p (ss_id sb) w' = (Inr x, w'')"
      "ss_status x \<in> {SbTerminated, SbExpired}" by blast
  then show "wp (let receipt = \<lparr>rc_executionId = le_id (cur (s\<lparr>wd := w\<rparr>)), rc_sandboxId = ss_id sb,
            rc_provider = pv_id p, rc_requestedAt = t, rc_completedAt = None,
            rc_status = Requested, rc_finalSandboxStatus = None, rc_error = None\<rparr> in
      catchE
        (thenE (call (pv_terminate p (ss_id sb)))
         (bindE (call (pv_inspect p (ss_id sb))) (\<lambda>inspected.
          bindE (now env) (\<lambda>completedAt.
            ret (receipt\<lparr>rc_completedAt := Some completedAt,
              rc_finalSandboxStatus := Some (ss_status inspected),
              rc_status := (if ss_status inspected = SbTerminated \<or> ss_status inspected = SbExpired
                            then Verified else Requested)\<rparr>)))))
        (\<lambda>error. ret (receipt\<lparr>rc_status := CleanupFailed,
           rc_error := Some (errorCode error ''EXECUTION_CLEANUP_FAILED'', errorMessage error)\<rparr>)))
     (\<lambda>r t. rc_status r = Verified \<and> rc_completedAt r \<noteq> None \<and> rc_error r = None) (\<lambda>_ _. False) (s\<lparr>wd := w\<rparr>)"
    by (auto simp: Let_def wp_simps intro!: wp_call wp_now)
qed

text \<open>So a terminated execution carries a verified receipt.\<close>

lemma terminate_verified:
  assumes so: "store_ok pf (st s)" and l: "store_get i (st s) = Some l"
    and sb: "le_sandbox l = Some sb" and c: "le_cleanup l = None"
    and p: "providerFor env l = Inr p" and k: "known (ss_id sb) (wd s)"
  shows "wp (terminate pf env i) (\<lambda>l t. \<exists>r. le_cleanup l = Some r \<and> rc_status r = Verified) (\<lambda>_ _. False) s"
proof -
  have clean: "wp (cleanup env p sb) (\<lambda>r t. rc_status r = Verified \<and> le_id (cur t) = le_id l) (\<lambda>_ _. False) (s\<lparr>cur := l\<rparr>)"
  proof (rule wp_mono [OF wp_conj [OF cleanup_verified]])
    show "known (ss_id sb) (wd (s\<lparr>cur := l\<rparr>))" using k by simp
    show "wp (cleanup env p sb) (\<lambda>r t. le_id (cur t) = le_id l) (\<lambda>_ _. False) (s\<lparr>cur := l\<rparr>)"
      by (rule wp_cleanup) simp
  qed auto
  show ?thesis
    unfolding terminate_def wp_bindE
    by (rule wp_loadLease [OF so])
      (auto simp: l sb c p wp_simps wp_putLease wp_getExecution after_append_def
        intro!: wp_mono [OF clean] wp_touch wp_appendEvents)
qed

end

section \<open>The fake provider keeps it\<close>

text \<open>Addresses stay inside the heap.\<close>

definition fake_wf :: "'x fake \<Rightarrow> bool" where
  "fake_wf s \<longleftrightarrow> (\<forall>(i, a) \<in> set (fk_sessions s). a < length (fk_heap s)) \<and>
     (\<forall>(i, r) \<in> set (fk_runs s). fr_session r < length (fk_heap s) \<and> h_runId (fr_handle r) = i)"

definition fake_known :: "string \<Rightarrow> 'x fake \<Rightarrow> bool" where
  "fake_known i s \<longleftrightarrow> (case map_of (fk_sessions s) i of Some a \<Rightarrow> a < length (fk_heap s) | None \<Rightarrow> False)"

lemma fake_terminate_run:
  assumes "fake_known i s"
  shows "\<exists>w' x w''. fake_terminate opts i s = (Inr (), w') \<and> fake_inspect i w' = (Inr x, w'') \<and>
      ss_status x \<in> {SbTerminated, SbExpired}"
proof -
  from assms obtain a where a: "map_of (fk_sessions s) i = Some a" "a < length (fk_heap s)"
    by (auto simp: fake_known_def split: option.splits)
  obtain t x where n: "fo_now opts (fk_out s) = (t, x)" by fastforce
  show ?thesis
    by (simp add: fake_terminate_def fake_inspect_def requireSession_def setSession_def updSession_def
        fk_now_def thenE_def bindE_def gets_def ret_def modify_def a n)
qed

text \<open>An environment over the fake provider's world: its clock and identifiers are its options'.\<close>

definition lift_out :: "('x \<Rightarrow> 'a \<times> 'x) \<Rightarrow> 'x fake \<Rightarrow> 'a \<times> 'x fake" where
  "lift_out f s = (case f (fk_out s) of (v, x) \<Rightarrow> (v, s\<lparr>fk_out := x\<rparr>))"

definition fake_env :: "platform \<Rightarrow> 'x fake_options \<Rightarrow> ('x fake) cp_env" where
  "fake_env pf opts = \<lparr>env_providers = [fake_provider pf opts], env_sourceBroker = None,
     env_idFactory = lift_out (fo_idFactory opts), env_now = lift_out (fo_now opts)\<rparr>"

interpretation fake: sandbox_provider "fake_provider pf opts" "fake_env pf opts" fake_known
  for pf and opts :: "'x fake_options"
proof unfold_locales
  fix i and w :: "'x fake"
  assume "fake_known i w"
  then show "\<exists>w' x w''. pv_terminate (fake_provider pf opts) i w = (Inr (), w') \<and>
      pv_inspect (fake_provider pf opts) i w' = (Inr x, w'') \<and> ss_status x \<in> {SbTerminated, SbExpired}"
    using fake_terminate_run [of i w opts] by (simp add: fake_provider_def)
  show "fake_known i (snd (env_now (fake_env pf opts) w))"
    using \<open>fake_known i w\<close> by (auto simp: fake_env_def lift_out_def fake_known_def split: prod.split option.splits)
qed

section \<open>The event contract\<close>

text \<open>
  \<open>run h w\<close> are the events of the run \<open>h\<close> so far. Reading from the position a cursor names returns
  the events from there on, up to the limit, and a cursor for the position after them.
\<close>

definition position :: "string option \<Rightarrow> nat \<Rightarrow> bool" where
  "position c n \<longleftrightarrow> c = Some (nat_str n) \<or> (c = None \<and> n = 0)"

locale event_source =
  fixes p :: "'w provider" and run :: "handle \<Rightarrow> 'w \<Rightarrow> provider_event list option"
  assumes read_law: "run h w = Some es \<Longrightarrow> position c n \<Longrightarrow> n \<le> length es \<Longrightarrow>
    \<exists>b. pv_readEvents p h c limit w = (Inr b, w) \<and>
      eb_events b = (case limit of None \<Rightarrow> drop n es | Some k \<Rightarrow> take (nat k) (drop n es)) \<and>
      eb_cursor b = Some (nat_str (n + length (eb_events b)))"
begin

text \<open>A pull without budget catches up: every event of the run is in the log once, in order.\<close>

lemma pull_catches_up:
  assumes h: "le_handle (cur s) = Some h" and p: "providerFor env (cur s) = Inr p"
    and run: "run h (wd s) = Some es" and ids: "distinct (map pe_id es)"
    and pos: "position (le_providerCursor (cur s)) n" "n \<le> length es"
    and seen: "le_seenProviderEventIds (cur s) = map pe_id (take n es)"
    and free: "rq_maxEvents (le_request (cur s)) = None" "rq_maxCostUsd (le_request (cur s)) = None"
  shows "wp (pullProviderEvents pf env None) (\<lambda>_ t. \<exists>ns.
      events_of (le_id (cur s)) (st t) = events_of (le_id (cur s)) (st s) @ ns \<and>
      map ev_id ns = map pe_id (drop n es) \<and> map ev_type ns = map pe_type (drop n es) \<and>
      le_providerCursor (cur t) = Some (nat_str (length es)) \<and>
      le_seenProviderEventIds (cur t) = map pe_id es \<and>
      le_status (cur t) = updateStatusFromEvents (le_status (cur s)) (drop n es)) E s"
proof -
  from read_law [OF run pos, of None] pos(2) obtain b where
    b: "pv_readEvents p h (le_providerCursor (cur s)) None (wd s) = (Inr b, wd s)"
      "eb_events b = drop n es" "eb_cursor b = Some (nat_str (length es))" by auto
  have fresh: "unseen_events (cur s) b = drop n es"
  proof -
    have "distinct (map pe_id (take n es) @ map pe_id (drop n es))"
      using ids by (simp flip: map_append)
    then have "\<forall>e \<in> set (drop n es). pe_id e \<notin> set (map pe_id (take n es))" by auto
    then show ?thesis by (simp add: unseen_events_def b(2) seen filter_id_conv)
  qed
  have all: "map pe_id (take n es) @ map pe_id (drop n es) = map pe_id es"
    by (simp flip: map_append)
  have rem: "remainingEvents (cur s) = None" by (simp add: remainingEvents_def free)
  show ?thesis
    unfolding pullProviderEvents_def
    by (auto simp: wp_bindE wp_gets wp_thenE wp_ret wp_lift_sum h p rem providerLimit_def b(1) free
        ingestBatch_def Let_def fresh cap_events_def enforceBudgets_def b(3) wp_setCur wp_putLease all seen
        intro!: wp_call wp_mono [OF recordUnseen_result] wp_touch split: option.splits)
qed

end

text \<open>The events of a run of the fake provider, while their number is a safe integer.\<close>

definition fake_run_events :: "handle \<Rightarrow> 'x fake \<Rightarrow> provider_event list option" where
  "fake_run_events h s = (case map_of (fk_runs s) (h_runId h) of
      Some r \<Rightarrow> if h_sessionId (fr_handle r) = h_sessionId h \<and> int (length (fr_events r)) \<le> max_safe
        then Some (fr_events r) else None
    | None \<Rightarrow> None)"

lemma parseProviderCursor_position:
  assumes "position c n" and "int n \<le> max_safe"
  shows "parseProviderCursor pf c = Inr n"
proof (cases "c = None")
  case True
  with assms show ?thesis by (simp add: position_def parseProviderCursor_def)
next
  case False
  have "safe_integer (num_of_int (int n))" and "num_int (num_of_int (int n)) = int n"
    using assms(2) by (simp_all only: safe_integer_of_int num_int_of_int abs_of_nat)
  with False assms(1) show ?thesis by (auto simp: position_def parseProviderCursor_def)
qed

lemma fake_readEvents_run:
  assumes r: "fake_run_events h s = Some es" and c: "position c n" and n: "n \<le> length es"
  shows "\<exists>b. fake_readEvents pf h c limit s = (Inr b, s) \<and>
      eb_events b = (case limit of None \<Rightarrow> drop n es | Some k \<Rightarrow> take (nat k) (drop n es)) \<and>
      eb_cursor b = Some (nat_str (n + length (eb_events b)))"
proof -
  from r obtain x where x: "map_of (fk_runs s) (h_runId h) = Some x" "h_sessionId (fr_handle x) = h_sessionId h"
      "fr_events x = es" "int (length es) \<le> max_safe"
    by (auto simp: fake_run_events_def split: option.splits if_splits)
  from n x(4) parseProviderCursor_position [OF c, of pf] have cur: "parseProviderCursor pf c = Inr n" by simp
  have nn: "nat (max 0 k) = nat k" for k :: int by simp
  have "drop n (take (min (length es) (n + nat (max 0 k))) es) = take (nat k) (drop n es)"
    and "min (length es) (n + nat (max 0 k)) = n + length (take (nat k) (drop n es))" for k
    using n by (auto simp: drop_take min_def nn)
  with n show ?thesis
    by (cases limit) (simp_all add: fake_readEvents_def requireRun_def bindE_def gets_def lift_sum_def ret_def
        Let_def x cur)
qed

interpretation fake_events: event_source "fake_provider pf opts" fake_run_events
  for pf and opts :: "'x fake_options"
  by unfold_locales (simp add: fake_provider_def fake_readEvents_run)

end
