(* ===== verification/Scenario.thy ===== *)
theory Scenario
  imports Provider_Contract
begin

text \<open>
  A concrete setting in which the control plane runs over the fake provider: a platform, clock and
  identifiers that count up, and two requests. The properties of the control plane are applied to
  the states of this scenario.
\<close>

definition demo_pf :: platform where
  "demo_pf = \<lparr>pf_num_str = (\<lambda>_. ''0.5''), pf_str_num = (\<lambda>s. if s = [] then Fin 0 else NaN),
     pf_url = (\<lambda>s. if starts_with ''https://'' s
        then Some \<lparr>u_protocol = ''https:'', u_username = [], u_password = [], u_search = [], u_hash = []\<rparr>
        else None),
     pf_sha256 = (\<lambda>b. nat_str (sum_list b)), pf_iso = int_str, pf_date = (\<lambda>s. Some (int (digits_val 0 s))),
     pf_b64_enc = (\<lambda>b. concat (map (\<lambda>n. replicate n (CHR ''a'') @ ''b'') b)),
     pf_b64_dec = (\<lambda>s. map length (butlast (js_split (CHR ''b'') s))), pf_hex_dec = map of_char,
     pf_uri_enc = id, pf_uri_dec = Some, pf_collation_key = id\<rparr>"

definition demo_opts :: "nat fake_options" where
  "demo_opts = \<lparr>fo_idFactory = (\<lambda>n. (nat_str n, Suc n)), fo_now = (\<lambda>n. (1000 + int n, n))\<rparr>"

definition demo_env :: "(nat fake) cp_env" where
  "demo_env = fake_env demo_pf demo_opts"

definition demo_agent :: "js list \<Rightarrow> js" where
  "demo_agent approvals = JObj [(''name'', JStr ''coder''),
     (''capabilities'', JObj [(''filesystem'', JStr ''read-write''), (''network'', JStr ''none'')]),
     (''requires'', JObj [(''humanApproval'', JArr approvals)])]"

definition demo_source :: js where
  "demo_source = JObj [(''kind'', JStr ''git''), (''repository'', JStr ''https://x''),
     (''commit'', JStr ''abcdef0''),
     (''selection'', JObj [(''includesWorkingTreePatch'', JBool False),
        (''excluded'', JArr (map JStr requiredExclusions))])]"

definition demo_policy :: "(string \<times> js) list \<Rightarrow> js" where
  "demo_policy extra = JObj ([(''mode'', JStr ''read-write''), (''ttlSeconds'', JNum (Fin 60)),
     (''network'', JStr ''none''), (''requireApprovalForExternalActions'', JBool True)] @ extra)"

definition demo_request :: "string \<Rightarrow> (string \<times> js) list \<Rightarrow> js list \<Rightarrow> js" where
  "demo_request token extra approvals = JObj [(''schemaVersion'', JStr ''0.1''), (''clientToken'', JStr token),
     (''cell'', JStr ''c''), (''workspace'', JStr ''w''), (''environment'', JStr ''e''), (''task'', JStr ''t''),
     (''agent'', demo_agent approvals), (''policy'', demo_policy extra), (''source'', demo_source),
     (''providerPreference'', JObj [(''kind'', JStr ''auto'')]),
     (''modelAuth'', JObj [(''kind'', JStr ''control-plane''), (''credential'', JStr ''KEY'')])]"

definition demo_lease :: lease where
  "demo_lease = new_lease (fake_provider demo_pf demo_opts) (demo_request ''none'' [] []) 0 ''none''"

definition demo0 :: "(nat fake) cps" where
  "demo0 = \<lparr>st = emptyState, wd = \<lparr>fk_heap = [], fk_sessions = [], fk_runs = [], fk_out = 0\<rparr>, cur = demo_lease\<rparr>"

text \<open>The properties of the request that the code reads.\<close>

lemma demo_source_get [simp]:
  "jget demo_source ''kind'' = JStr ''git''" "jget demo_source ''repository'' = JStr ''https://x''"
  "jget demo_source ''commit'' = JStr ''abcdef0''" "jget demo_source ''subdirectory'' = JUndef"
  "isObject demo_source"
  "isObject (jget demo_source ''selection'')"
  "jget (jget demo_source ''selection'') ''includesWorkingTreePatch'' = JBool False"
  "jget (jget demo_source ''selection'') ''excluded'' = JArr (map JStr requiredExclusions)"
  by (simp_all add: demo_source_def jget_def)

lemma demo_policy_get [simp]:
  "jget (demo_policy ex) ''mode'' = JStr ''read-write''" "jget (demo_policy ex) ''ttlSeconds'' = JNum (Fin 60)"
  "jget (demo_policy ex) ''network'' = JStr ''none''"
  "jget (demo_policy ex) ''requireApprovalForExternalActions'' = JBool True"
  "jget (demo_policy ex) ''maxEvents'' = jget (JObj ex) ''maxEvents''"
  "jget (demo_policy ex) ''maxCostUsd'' = jget (JObj ex) ''maxCostUsd''"
  "isObject (demo_policy ex)"
  by (simp_all add: demo_policy_def jget_def)

lemma demo_agent_get [simp]:
  "jget (demo_agent ap) ''name'' = JStr ''coder''" "isObject (demo_agent ap)"
  "isObject (jget (demo_agent ap) ''capabilities'')"
  "jget (jget (demo_agent ap) ''capabilities'') ''filesystem'' = JStr ''read-write''"
  "jget (jget (demo_agent ap) ''capabilities'') ''network'' = JStr ''none''"
  "jget (demo_agent ap) ''credentialBroker'' = JUndef"
  "js_prop (jget (demo_agent ap) ''capabilities'') ''filesystem'' = Inr (JStr ''read-write'')"
  "js_prop (jget (demo_agent ap) ''requires'') ''humanApproval'' = Inr (JArr ap)"
  by (simp_all add: demo_agent_def jget_def js_prop_def)

lemma demo_request_get [simp]:
  "jget (demo_request tok ex ap) ''schemaVersion'' = JStr ''0.1''"
  "jget (demo_request tok ex ap) ''clientToken'' = JStr tok"
  "jget (demo_request tok ex ap) ''cell'' = JStr ''c''" "jget (demo_request tok ex ap) ''workspace'' = JStr ''w''"
  "jget (demo_request tok ex ap) ''environment'' = JStr ''e''" "jget (demo_request tok ex ap) ''task'' = JStr ''t''"
  "jget (demo_request tok ex ap) ''agent'' = demo_agent ap" "jget (demo_request tok ex ap) ''policy'' = demo_policy ex"
  "jget (demo_request tok ex ap) ''source'' = demo_source"
  "jget (demo_request tok ex ap) ''providerPreference'' = JObj [(''kind'', JStr ''auto'')]"
  "jget (demo_request tok ex ap) ''modelAuth'' = JObj [(''kind'', JStr ''control-plane''), (''credential'', JStr ''KEY'')]"
  "isObject (demo_request tok ex ap)"
  by (simp_all add: demo_request_def jget_def)

lemmas rq_defs = rq_policy_def rq_source_def rq_selection_def rq_agent_def rq_capabilities_def
  rq_preference_def rq_modelAuth_def rq_clientToken_def rq_ttlSeconds_def rq_maxEvents_def rq_maxCostUsd_def

lemmas js_check_defs = check_def bad_text_def js_safe_integer_def js_int_def js_num_def isBool_def
  js_trim_def is_space_def safe_integer_def num_int_def max_safe_def

lemma demo_checks:
  "identity_errors (demo_request ''a'' ex ap) = []"
  "network_errors (demo_request ''a'' ex ap) = []"
  "modelAuth_errors (demo_request ''a'' ex ap) = []"
  "preference_errors (demo_request ''a'' ex ap) = []"
  "source_errors demo_pf (demo_request ''a'' ex ap) = []"
  by (simp_all add: identity_errors_def network_errors_def modelAuth_errors_def preference_errors_def
      source_errors_def git_errors_def js_check_defs rq_defs Let_def isNetworkPolicy_def stableNetworkPolicy_def
      credential_name_def is_upper_def hex_text_def is_hex_def is_digit_def isCredentialFreeHttpsUrl_def
      demo_pf_def starts_with_def truthy_def isSafeRelativePath_def jget_def [of "JObj _"])

lemma demo_selection: "selection_errors (demo_request ''a'' ex ap) = []"
  by (simp add: selection_errors_def rq_defs check_def requiredExclusions_def js_items_def isBool_def)

lemma demo_valid: "valid_request demo_pf (demo_request ''a'' [] ap)"
  by (simp add: valid_request_def validateExecutionRequest_def request_errors_def demo_checks demo_selection
      request_shape_ok_def policy_errors_def rq_defs js_check_defs Let_def isArray_def jget_def [of "JObj _"]
      num_lt.simps)

lemma nat_str_id_chars: "list_all id_char (nat_str n)"
  using nat_str_digits [of n] by (auto simp: list_all_iff id_char_def)

lemma sanitizeId_nat_str [simp]: "sanitizeId (nat_str n) = nat_str n"
proof -
  have id: "list_all id_char (nat_str n)" by (rule nat_str_id_chars)
  have "c \<noteq> CHR ''-''" if "c \<in> set (nat_str n)" for c
    using nat_str_digits [of n] that by (auto simp: is_digit_def)
  then have "rev (dropWhile (\<lambda>x. x = CHR ''-'') (rev (dropWhile (\<lambda>x. x = CHR ''-'') (nat_str n)))) = nat_str n"
    by (intro strip_fix) (auto dest: hd_in_set last_in_set)
  with id show ?thesis
    by (simp add: sanitizeId_def js_lower_id dash_runs_id trimBoundaryCharacter_strip)
qed

abbreviation demo_provider :: "(nat fake) provider" where
  "demo_provider \<equiv> fake_provider demo_pf demo_opts"

lemma demo_provider_ops [simp]:
  "pv_id (fake_provider pf opts) = ''fake-execution''" "pv_supports (fake_provider pf opts) = fake_supports pf"
  "pv_start (fake_provider pf opts) = fake_start opts" "pv_inspect (fake_provider pf opts) = fake_inspect"
  "pv_suspend (fake_provider pf opts) = fake_suspend" "pv_resume (fake_provider pf opts) = fake_resume"
  "pv_terminate (fake_provider pf opts) = fake_terminate opts"
  "pv_prepareWorkspace (fake_provider pf opts) = fake_prepareWorkspace"
  "pv_startExecution (fake_provider pf opts) = fake_startExecution pf opts"
  "pv_readEvents (fake_provider pf opts) = fake_readEvents pf" "pv_steer (fake_provider pf opts) = fake_steer opts"
  "pv_collectResult (fake_provider pf opts) = fake_collectResult"
  by (simp_all add: fake_provider_def)

lemma demo_tick [simp]:
  "fk_id demo_opts s = (Inr (nat_str (fk_out s)), s\<lparr>fk_out := Suc (fk_out s)\<rparr>)"
  "fk_now demo_opts s = (Inr (1000 + int (fk_out s)), s)"
  "now demo_env c = (Inr (1000 + int (fk_out (wd c))), c)"
  "newId demo_env c = (Inr (nat_str (fk_out (wd c))), c\<lparr>wd := (wd c)\<lparr>fk_out := Suc (fk_out (wd c))\<rparr>\<rparr>)"
  "env_sourceBroker demo_env = None"
  by (simp_all add: fk_id_def fk_now_def now_def newId_def demo_opts_def demo_env_def fake_env_def lift_out_def)

lemma demo_supports: "fst (fake_supports demo_pf (demo_request tok ex ap))"
  by (simp add: fake_supports_def rq_defs Let_def jget_def [of "JObj _"] js_num_def fake_capabilities_def num_lt.simps)

lemma demo_providers: "providers demo_env = [(''fake-execution'', demo_provider)]"
  by (simp add: providers_def demo_env_def fake_env_def)

lemma demo_select [simp]: "selectProvider demo_pf demo_env (demo_request tok ex ap) = Inr demo_provider"
  by (simp add: selectProvider_def provider_candidates_def rq_defs jget_def [of "JObj _"] demo_providers
      demo_supports Let_def)

lemma demo_providerFor [simp]: "le_provider l = ''fake-execution'' \<Longrightarrow> providerFor demo_env l = Inr demo_provider"
  by (simp add: providerFor_def demo_providers)

section \<open>A running execution\<close>

text \<open>
  A store with one running lease over a fake provider that has its sandbox and its run, which has
  reported two events.
\<close>

definition demo_session :: session where
  "demo_session = \<lparr>ss_id = ''sb'', ss_agent = ''coder'', ss_status = SbActive, ss_endpointUrl = None,
     ss_provider = ''fake-execution'', ss_region = None, ss_startedAt = Some 1000, ss_terminatedAt = None,
     ss_expiresAt = Some 28801000, ss_image = None, ss_metadata = JNull\<rparr>"

definition demo_events :: "provider_event list" where
  "demo_events = [\<lparr>pe_id = ''p1'', pe_type = ExecutionStarted, pe_timestamp = Some 1000, pe_data = JNull\<rparr>,
     \<lparr>pe_id = ''p2'', pe_type = UsageUpdated, pe_timestamp = Some 1000,
      pe_data = JObj [(''estimatedCostUsd'', JNum (Fin 3))]\<rparr>]"

definition demo_run :: fake_run where
  "demo_run = \<lparr>fr_handle = \<lparr>h_sessionId = ''sb'', h_runId = ''r''\<rparr>, fr_session = 0,
     fr_input = \<lparr>xi_executionId = ''exec_0'', xi_task = JNull, xi_source = JNull, xi_policy = JNull, xi_modelAuth = JNull\<rparr>,
     fr_events = demo_events, fr_done = False, fr_approvalRequestId = None, fr_result = None\<rparr>"

definition demo_world :: "nat fake" where
  "demo_world = \<lparr>fk_heap = [\<lparr>fs_session = demo_session,
       fs_input = \<lparr>si_manifest = JNull, si_cell = JNull, si_environment = JNull, si_snapshot = [],
         si_credentialBroker = JNull, si_clientToken = []\<rparr>, fs_workspace = None\<rparr>],
     fk_sessions = [(''sb'', 0)], fk_runs = [(''r'', demo_run)], fk_out = 5\<rparr>"

definition running_lease :: "(string \<times> js) list \<Rightarrow> lease" where
  "running_lease ex = (new_lease demo_provider (demo_request ''a'' ex []) 1000 (nat_str 0))
     \<lparr>le_status := Running, le_sandbox := Some demo_session, le_handle := Some (fr_handle demo_run)\<rparr>"

definition running_id :: string where
  "running_id = ''exec_'' @ nat_str 0"

definition running :: "lease \<Rightarrow> (nat fake) cps" where
  "running l = \<lparr>st = \<lparr>leases = [(running_id, l)], events = []\<rparr>, wd = demo_world, cur = l\<rparr>"

lemma running_lease_simps [simp]:
  "le_id (running_lease ex) = running_id" "le_status (running_lease ex) = Running"
  "le_sandbox (running_lease ex) = Some demo_session" "le_handle (running_lease ex) = Some (fr_handle demo_run)"
  "le_cleanup (running_lease ex) = None" "le_result (running_lease ex) = None" "le_failure (running_lease ex) = None"
  "le_request (running_lease ex) = demo_request ''a'' ex []" "le_seenProviderEventIds (running_lease ex) = []"
  "le_lastEventSequence (running_lease ex) = 0" "le_provider (running_lease ex) = ''fake-execution''"
  "le_providerCursor (running_lease ex) = None" "le_expiresAt (running_lease ex) = 61000"
  by (simp_all add: running_lease_def running_id_def new_lease_def rq_defs js_int_def js_num_def num_int_def)

lemma running_simps [simp]:
  "store_get i (st (running l)) = (if i = running_id then Some l else None)"
  "events_of i (st (running l)) = []" "wd (running l) = demo_world" "cur (running l) = l"
  by (simp_all add: running_def store_get_def events_of_def)

lemma running_ok:
  assumes "valid_request demo_pf (demo_request ''a'' ex [])" and "le_id l = running_id"
    and "le_request l = demo_request ''a'' ex []" and "le_lastEventSequence l = 0"
    and "le_seenProviderEventIds l = []"
  shows "store_ok demo_pf (st (running l))"
proof -
  have "within_budget l"
    using assms valid_maxEvents [OF assms(1)] by (auto simp: within_budget_def dest: order_trans [of 0 1])
  with assms show ?thesis
    by (auto simp: store_ok_def keys_ok_def tokens_unique_def lease_ok_def log_ok_def sequenced_def)
      (simp_all add: running_def)
qed

lemma running_known: "fake_known ''sb'' demo_world"
  by (simp add: fake_known_def demo_world_def)

lemma demo_session_id [simp]: "ss_id demo_session = ''sb''"
  by (simp add: demo_session_def)

lemma reachable_demo0: "reachable demo_pf demo_env demo0"
  by (rule reachableI [OF _ cp_steps.here]) (simp add: demo0_def)

text \<open>The state after one request in the empty store.\<close>

lemma fresh_demo0: "fresh_id demo_env demo0"
  by (simp add: fresh_id_def demo0_def emptyState_def store_get_def)

definition demo_created :: "(nat fake) cps" where
  "demo_created = run_request demo_pf demo_env (RqCreate (demo_request ''a'' [] [])) demo0"

lemma reachable_created: "reachable demo_pf demo_env demo_created"
  unfolding demo_created_def
  by (rule reachable_step [OF reachable_demo0 cp_step.request]) (simp add: draws_fresh_def fresh_demo0)

end
