(* ===== verification/Control_Plane_Properties.thy ===== *)
theory Control_Plane_Properties
  imports Control_Plane_Budget Scenario
begin

text \<open>
  The properties of the control plane, each applied to a state of the scenario. A statement about a
  method is a case distinction on its outcome: what holds when it returns, and what when it throws.
\<close>

section \<open>Invariants of every run\<close>

text \<open>C6: In every state the control plane can reach, with requests in any order and the world
  changing in between, the store is well formed: each lease is filed under its id, its event log is
  numbered 1 to n where n is the lease's counter, each logged event carries the execution's id and
  its number as cursor, the request of each lease passed validation, no more provider events are
  recorded than its budget allows, and no two leases share a client token.\<close>

theorem reachable_store_ok:
  assumes "reachable pf env s"
  shows "store_ok pf (st s)"
  using assms by (rule reachable_ok)

theorem reachable_store_ok_witness: "store_ok demo_pf (st demo_created)"
  by (rule reachable_store_ok [OF reachable_created])

text \<open>C7: Event logs are append-only: whatever happens between two states, the log of an execution
  in the later state extends its log in the earlier one.\<close>

theorem log_append_only:
  assumes "cp_steps pf env s t"
  shows "\<exists>es. events_of i (st t) = events_of i (st s) @ es"
  using cp_steps_grown [OF assms] by (simp add: grown_def)

lemma demo_steps: "cp_steps demo_pf demo_env demo0 demo_created"
  unfolding demo_created_def
  by (rule cp_steps.next_step [OF cp_steps.here cp_step.request]) (simp add: draws_fresh_def fresh_demo0)

theorem log_append_only_witness:
  "\<exists>es. events_of running_id (st demo_created) = events_of running_id (st demo0) @ es"
  by (rule log_append_only [OF demo_steps])

text \<open>A lease never disappears and never changes its identity: id, request (hence client token
  and policy), provider, creation and expiry times are the same in every later state.\<close>

theorem lease_identity_stable:
  assumes "reachable pf env s" and "cp_steps pf env s t"
  shows "case store_get i (st s) of None \<Rightarrow> True
    | Some l \<Rightarrow> \<exists>k. store_get i (st t) = Some k \<and> le_id k = le_id l \<and> le_request k = le_request l \<and>
        le_provider k = le_provider l \<and> le_createdAt k = le_createdAt l \<and> le_expiresAt k = le_expiresAt l"
  using steps_identity [OF assms] by (auto simp: same_identity_def split: option.split)

theorem lease_identity_stable_witness:
  "case store_get running_id (st demo_created) of None \<Rightarrow> True
    | Some l \<Rightarrow> \<exists>k. store_get running_id (st demo_created) = Some k \<and> le_id k = le_id l \<and> le_request k = le_request l \<and>
        le_provider k = le_provider l \<and> le_createdAt k = le_createdAt l \<and> le_expiresAt k = le_expiresAt l"
  by (rule lease_identity_stable [OF reachable_created cp_steps.here])

text \<open>C8: In every reachable state the event log of an execution is an interleaving of the provider
  events recorded for it, in the order of their recorded identifiers, and of events of the control plane's
  own; and of the provider's there are no more in the log than the \<open>maxEvents\<close> of its policy.\<close>

theorem event_budget_respected:
  assumes "reachable pf env s"
  shows "case store_get i (st s) of None \<Rightarrow> events_of i (st s) = []
    | Some l \<Rightarrow> (\<exists>ps cs. events_of i (st s) \<in> shuffles ps cs \<and> map ev_id ps = le_seenProviderEventIds l \<and>
        list_all (\<lambda>e. own_event (ev_id e) (ev_type e)) cs \<and>
        (case rq_maxEvents (le_request l) of None \<Rightarrow> True
          | Some m \<Rightarrow> int (length ps) \<le> m \<and> m \<le> 100000))"
proof (cases "store_get i (st s)")
  case None
  with reachable_ok [OF assms] show ?thesis by (simp add: store_ok_def keys_ok_def)
next
  case (Some l)
  with reachable_accounted [OF assms] have "tallied l (events_of i (st s))" by (simp add: accounted_def)
  then obtain ps cs where split: "events_of i (st s) \<in> shuffles ps cs"
    "map ev_id ps = le_seenProviderEventIds l" "list_all (\<lambda>e. own_event (ev_id e) (ev_type e)) cs"
    by (auto simp: tallied_def list_all_iff)
  moreover have "length ps = length (le_seenProviderEventIds l)" using split(2) by (metis length_map)
  moreover from store_ok_get [OF reachable_ok [OF assms] Some] have "within_budget l" "valid_request pf (le_request l)"
    by (simp_all add: lease_ok_def)
  ultimately show ?thesis
    unfolding Some option.case
    by (intro exI [of _ ps] exI [of _ cs]) (auto simp: within_budget_def split: option.split intro: valid_maxEvents(2))
qed

theorem event_budget_respected_witness:
  "case store_get running_id (st demo_created) of None \<Rightarrow> events_of running_id (st demo_created) = []
    | Some l \<Rightarrow> (\<exists>ps cs. events_of running_id (st demo_created) \<in> shuffles ps cs \<and> map ev_id ps = le_seenProviderEventIds l \<and>
        list_all (\<lambda>e. own_event (ev_id e) (ev_type e)) cs \<and>
        (case rq_maxEvents (le_request l) of None \<Rightarrow> True
          | Some m \<Rightarrow> int (length ps) \<le> m \<and> m \<le> 100000))"
  by (rule event_budget_respected [OF reachable_created])

section \<open>Creating\<close>

text \<open>C9: Creating is idempotent for good: once a request has returned a lease, repeating it in any
  later state returns a lease with the same id and changes nothing, and a different request under
  the same client token is refused and changes nothing.\<close>

theorem create_idempotent:
  assumes r: "reachable pf env s" and fresh: "fresh_id env s"
  shows "case createExecution pf env r s of (Inl _, _) \<Rightarrow> True
    | (Inr l, t) \<Rightarrow> (\<forall>u. cp_steps pf env t u \<longrightarrow>
        (\<exists>k. createExecution pf env r u = (Inr k, u) \<and> le_id k = le_id l) \<and>
        (\<forall>r'. valid_request pf r' \<and> rq_clientToken r' = rq_clientToken r \<and>
           canonicalJson pf r' \<noteq> canonicalJson pf r \<longrightarrow>
           (\<exists>e. createExecution pf env r' u = (Inl e, u) \<and>
             (\<exists>m d. e = CPError IdempotencyConflict m d))))"
proof (clarsimp split: prod.split sum.split, intro conjI allI impI)
  fix l t u assume run: "createExecution pf env r s = (Inr l, t)" and st: "cp_steps pf env t u"
  note so = reachable_ok [OF r]
  from wp_InrD [OF createExecution_ends [OF so fresh] run] have c: "created pf r l t" .
  have "t = run_request pf env (RqCreate r) s" by (simp add: run)
  then have t: "reachable pf env t"
    using reachable_step [OF r cp_step.request [of env "RqCreate r"]] fresh by (simp add: draws_fresh_def)
  from steps_identity [OF t st] c obtain k where
    k: "store_get (le_id l) (st u) = Some k" "same_identity l k" by (auto simp: created_def)
  from cp_steps_kept [OF st reachable_ok [OF t]] have so': "store_ok pf (st u)" by simp
  note again = createExecution_again [OF so' _ k(1), of _ env]
  show "\<exists>k. createExecution pf env r u = (Inr k, u) \<and> le_id k = le_id l"
    using again [OF createExecution_valid [OF run]] k c by (simp add: created_def same_identity_def)
  fix r' assume "valid_request pf r' \<and> rq_clientToken r' = rq_clientToken r \<and>
      canonicalJson pf r' \<noteq> canonicalJson pf r"
  then show "\<exists>e. createExecution pf env r' u = (Inl e, u) \<and> (\<exists>m d. e = CPError IdempotencyConflict m d)"
    using again [of r'] k c by (auto simp: created_def same_identity_def idempotency_conflict_def)
qed

theorem create_idempotent_witness:
  "case createExecution demo_pf demo_env (demo_request ''a'' [] []) demo0 of (Inl _, _) \<Rightarrow> True
    | (Inr l, t) \<Rightarrow> (\<forall>u. cp_steps demo_pf demo_env t u \<longrightarrow>
        (\<exists>k. createExecution demo_pf demo_env (demo_request ''a'' [] []) u = (Inr k, u) \<and> le_id k = le_id l) \<and>
        (\<forall>r'. valid_request demo_pf r' \<and> rq_clientToken r' = rq_clientToken (demo_request ''a'' [] []) \<and>
           canonicalJson demo_pf r' \<noteq> canonicalJson demo_pf (demo_request ''a'' [] []) \<longrightarrow>
           (\<exists>e. createExecution demo_pf demo_env r' u = (Inl e, u) \<and>
             (\<exists>m d. e = CPError IdempotencyConflict m d))))"
  by (rule create_idempotent [OF reachable_demo0 fresh_demo0])

text \<open>C10: How creating ends. If it throws early (invalid request, conflict, no provider) the store is
  as it was; if the start fails - the start sequence, run from the stored new lease, threw a cause - the
  lease with the drawn id is on record as failed with the code and the message of that cause, the error
  thrown names the lease, the provider and the same failure, the last event of its log is that failure,
  and it has a cleanup receipt exactly if a sandbox was started; if it returns, the returned lease is the
  stored one and is bound to the request's client token.\<close>

theorem create_outcomes:
  assumes "reachable pf env s" and "fresh_id env s"
  shows "case createExecution pf env r s of
      (Inr l, t) \<Rightarrow> store_get (le_id l) (st t) = Some l \<and> rq_clientToken (le_request l) = rq_clientToken r \<and>
        canonicalJson pf (le_request l) = canonicalJson pf r
    | (Inl e, t) \<Rightarrow> (early_error e \<and> st t = st s) \<or>
        (\<exists>p cause t0 failure k lg ev. selectProvider pf env r = Inr p \<and>
          startSequence pf env p (start_state pf env p r s) = (Inl cause, t0) \<and>
          failure = (errorCode cause ''EXECUTION_START_FAILED'', errorMessage cause) \<and> e = start_failed k (pv_id p) failure \<and>
          store_get (next_id env (wd s)) (st t) = Some k \<and> le_id k = next_id env (wd s) \<and> le_request k = r \<and>
          le_status k = Failed \<and> le_failure k = Some failure \<and> (le_sandbox k \<noteq> None \<longleftrightarrow> le_cleanup k \<noteq> None) \<and>
          events_of (next_id env (wd s)) (st t) = lg @ [ev] \<and> ev_type ev = ExecutionFailed \<and> ev_data ev = failure_js failure)"
proof -
  obtain x t where run: "createExecution pf env r s = (x, t)" by fastforce
  note ends = createExecution_ends [OF reachable_ok [OF assms(1)] assms(2), of r]
  show ?thesis
  proof (cases x)
    case (Inr l)
    with ends run show ?thesis by (simp add: wp_def created_def)
  next
    case (Inl e)
    with ends run consider "early_error e" "st t = st s" | "recorded_failure pf env r s e t" by (auto simp: wp_def)
    then show ?thesis
    proof cases
      case 2
      then show ?thesis unfolding run Inl by (simp add: recorded_failure_def failed_start_def) fastforce
    qed (simp add: run Inl)
  qed
qed

theorem create_outcomes_witness:
  "case createExecution demo_pf demo_env (demo_request ''a'' [] []) demo0 of
      (Inr l, t) \<Rightarrow> store_get (le_id l) (st t) = Some l \<and> rq_clientToken (le_request l) = rq_clientToken (demo_request ''a'' [] []) \<and>
        canonicalJson demo_pf (le_request l) = canonicalJson demo_pf (demo_request ''a'' [] [])
    | (Inl e, t) \<Rightarrow> (early_error e \<and> st t = st demo0) \<or>
        (\<exists>p cause t0 failure k lg ev. selectProvider demo_pf demo_env (demo_request ''a'' [] []) = Inr p \<and>
          startSequence demo_pf demo_env p (start_state demo_pf demo_env p (demo_request ''a'' [] []) demo0) = (Inl cause, t0) \<and>
          failure = (errorCode cause ''EXECUTION_START_FAILED'', errorMessage cause) \<and> e = start_failed k (pv_id p) failure \<and>
          store_get (next_id demo_env (wd demo0)) (st t) = Some k \<and> le_id k = next_id demo_env (wd demo0) \<and> le_request k = (demo_request ''a'' [] []) \<and>
          le_status k = Failed \<and> le_failure k = Some failure \<and> (le_sandbox k \<noteq> None \<longleftrightarrow> le_cleanup k \<noteq> None) \<and>
          events_of (next_id demo_env (wd demo0)) (st t) = lg @ [ev] \<and> ev_type ev = ExecutionFailed \<and> ev_data ev = failure_js failure)"
  by (rule create_outcomes [OF reachable_demo0 fresh_demo0])

text \<open>Provider selection: the first candidate, in registration order, that supports the request;
  with no candidate the error is provider-not-found, with none that supports it
  provider-unsupported, and a preference for a provider is never answered with another one.\<close>

theorem selectProvider_first:
  "case selectProvider pf env r of
      Inr p \<Rightarrow> (\<exists>before rest. provider_candidates env r = before @ p # rest \<and> fst (pv_supports p r) \<and>
        (\<forall>q \<in> set before. \<not> fst (pv_supports q r))) \<and>
        (jget (rq_preference r) ''kind'' \<noteq> JStr ''provider'' \<or>
         map_of (providers env) (js_str (jget (rq_preference r) ''provider'')) = Some p)
    | Inl e \<Rightarrow> if provider_candidates env r = [] then \<exists>m d. e = CPError ProviderNotFound m d
        else (\<exists>m d. e = CPError ProviderUnsupported m d) \<and>
          list_all (\<lambda>p. \<not> fst (pv_supports p r)) (provider_candidates env r)"
proof (cases "find (\<lambda>p. fst (pv_supports p r)) (provider_candidates env r)")
  case None
  moreover from this have "list_all (\<lambda>p. \<not> fst (pv_supports p r)) (provider_candidates env r)"
    by (simp add: find_None_iff list_all_iff)
  ultimately show ?thesis by (simp add: selectProvider_def Let_def)
next
  case (Some p)
  then obtain i where i: "i < length (provider_candidates env r)" "p = provider_candidates env r ! i"
      "fst (pv_supports p r)" "\<forall>j < i. \<not> fst (pv_supports (provider_candidates env r ! j) r)"
    by (auto simp: find_Some_iff)
  have "provider_candidates env r = take i (provider_candidates env r) @ p # drop (Suc i) (provider_candidates env r)"
    using i(1,2) by (simp add: id_take_nth_drop)
  moreover have "\<forall>q \<in> set (take i (provider_candidates env r)). \<not> fst (pv_supports q r)"
    using i(1,4) by (auto simp: in_set_conv_nth)
  ultimately have first: "\<exists>before rest. provider_candidates env r = before @ p # rest \<and>
      (\<forall>q \<in> set before. \<not> fst (pv_supports q r))" by blast
  have p: "p \<in> set (provider_candidates env r)" using i by auto
  then have pref: "jget (rq_preference r) ''kind'' \<noteq> JStr ''provider'' \<or>
      map_of (providers env) (js_str (jget (rq_preference r) ''provider'')) = Some p"
    by (auto simp: provider_candidates_def split: option.splits if_splits)
  have "selectProvider pf env r = Inr p" using Some p by (auto simp: selectProvider_def Let_def)
  with first pref i(3) show ?thesis by auto
qed

theorem selectProvider_first_witness:
  "case selectProvider demo_pf demo_env (demo_request ''a'' [] []) of
      Inr p \<Rightarrow> (\<exists>before rest. provider_candidates demo_env (demo_request ''a'' [] []) = before @ p # rest \<and>
          fst (pv_supports p (demo_request ''a'' [] [])) \<and>
          (\<forall>q \<in> set before. \<not> fst (pv_supports q (demo_request ''a'' [] [])))) \<and>
        (jget (rq_preference (demo_request ''a'' [] [])) ''kind'' \<noteq> JStr ''provider'' \<or>
         map_of (providers demo_env) (js_str (jget (rq_preference (demo_request ''a'' [] [])) ''provider'')) = Some p)
    | Inl e \<Rightarrow> if provider_candidates demo_env (demo_request ''a'' [] []) = [] then \<exists>m d. e = CPError ProviderNotFound m d
        else (\<exists>m d. e = CPError ProviderUnsupported m d) \<and>
          list_all (\<lambda>p. \<not> fst (pv_supports p (demo_request ''a'' [] []))) (provider_candidates demo_env (demo_request ''a'' [] []))"
  by (rule selectProvider_first)

section \<open>Reading events\<close>

text \<open>C11: \<open>streamEvents\<close> returns the events that follow the cursor, at most \<open>limit\<close> of them, a cursor
  that names the position after them, and \<open>done\<close> exactly when the execution is terminal.\<close>

theorem stream_batch:
  assumes "store_ok pf (st s)"
  shows "case streamEvents pf env i c k s of (Inl _, _) \<Rightarrow> True
    | (Inr b, t) \<Rightarrow> \<exists>n l. parseCursor pf c = Inr n \<and> store_get i (st t) = Some l \<and> cb_executionId b = i \<and>
        cb_events b = limit_events k (drop n (events_of i (st t))) \<and>
        cb_cursor b = nat_str (n + length (cb_events b)) \<and> cb_done b = isTerminal (le_status l)"
  using streamEvents_returns [OF assms, of env i c k]
  by (auto simp: wp_def streamed_def split: prod.split sum.split)

theorem stream_batch_witness:
  "case streamEvents demo_pf demo_env running_id None (Some 1) (running (running_lease [])) of (Inl _, _) \<Rightarrow> True
    | (Inr b, t) \<Rightarrow> \<exists>n l. parseCursor demo_pf None = Inr n \<and> store_get running_id (st t) = Some l \<and>
        cb_executionId b = running_id \<and>
        cb_events b = limit_events (Some 1) (drop n (events_of running_id (st t))) \<and>
        cb_cursor b = nat_str (n + length (cb_events b)) \<and> cb_done b = isTerminal (le_status l)"
  by (rule stream_batch [OF running_ok [OF demo_valid]]) simp_all

text \<open>C12: Reading again from the cursor a batch returned, at any later time and with any limits,
  continues without a gap and without a repetition: the two batches together are a contiguous
  piece of the log, which starts where the first cursor pointed.\<close>

theorem stream_resumes:
  assumes r: "reachable pf env s"
  shows "case streamEvents pf env i c k s of (Inl _, _) \<Rightarrow> True
    | (Inr b1, t) \<Rightarrow> \<forall>u. cp_steps pf env t u \<longrightarrow>
       (case streamEvents pf env i (Some (cb_cursor b1)) k' u of (Inl _, _) \<Rightarrow> True
        | (Inr b2, v) \<Rightarrow> \<exists>n. parseCursor pf c = Inr n \<and>
           (int (n + length (cb_events b1)) \<le> max_safe \<longrightarrow>
            (\<exists>rest. drop n (events_of i (st v)) = cb_events b1 @ cb_events b2 @ rest)))"
proof (clarsimp split: prod.split sum.split)
  fix b1 t u b2 v
  assume 1: "streamEvents pf env i c k s = (Inr b1, t)" and st: "cp_steps pf env t u"
    and 2: "streamEvents pf env i (Some (cb_cursor b1)) k' u = (Inr b2, v)"
  note s1 = streamed_store [OF reachable_ok [OF r] 1]
  from cp_steps_kept [OF st s1(2)] have so: "store_ok pf (st u)" by simp
  note s2 = streamed_store [OF so 2]
  have "v = run_request pf env (RqStream i (Some (cb_cursor b1)) k') u" by (simp add: 2)
  then have "cp_step pf env u v"
    using cp_step.request [of env "RqStream i (Some (cb_cursor b1)) k'"] by (simp add: draws_fresh_def)
  then have g: "grown (st t) v" by (rule cp_steps_grown [OF cp_steps.next_step [OF st]])
  from s1(1) obtain n where n: "parseCursor pf c = Inr n" by (auto simp: streamed_def)
  with streamed_twice [OF s1(1) s2(1) s1(2) s2(2) g n]
  show "\<exists>n. parseCursor pf c = Inr n \<and> (int n + int (length (cb_events b1)) \<le> max_safe \<longrightarrow>
      (\<exists>rest. drop n (events_of i (st v)) = cb_events b1 @ cb_events b2 @ rest))" by simp
qed

theorem stream_resumes_witness:
  "case streamEvents demo_pf demo_env running_id None (Some 1) demo_created of (Inl _, _) \<Rightarrow> True
    | (Inr b1, t) \<Rightarrow> \<forall>u. cp_steps demo_pf demo_env t u \<longrightarrow>
       (case streamEvents demo_pf demo_env running_id (Some (cb_cursor b1)) None u of (Inl _, _) \<Rightarrow> True
        | (Inr b2, v) \<Rightarrow> \<exists>n. parseCursor demo_pf None = Inr n \<and>
           (int (n + length (cb_events b1)) \<le> max_safe \<longrightarrow>
            (\<exists>rest. drop n (events_of running_id (st v)) = cb_events b1 @ cb_events b2 @ rest)))"
  by (rule stream_resumes [OF reachable_created])

text \<open>Over the fake provider, an unbudgeted execution that has consumed the first \<open>n\<close> events of its
  run is, after one pull, caught up: the rest of the run's events are logged, each once, in the
  run's order, the provider cursor is at the end, and the status is the one the events imply.\<close>

theorem fake_pull_catches_up:
  assumes "le_handle (cur s) = Some h" and "providerFor env (cur s) = Inr (fake_provider pf opts)"
    and "fake_run_events h (wd s) = Some es" and "distinct (map pe_id es)"
    and "position (le_providerCursor (cur s)) n" and "n \<le> length es"
    and "le_seenProviderEventIds (cur s) = map pe_id (take n es)"
    and "rq_maxEvents (le_request (cur s)) = None" and "rq_maxCostUsd (le_request (cur s)) = None"
  shows "case pullProviderEvents pf' env None s of (Inl _, _) \<Rightarrow> False
    | (Inr _, t) \<Rightarrow> \<exists>ns. events_of (le_id (cur s)) (st t) = events_of (le_id (cur s)) (st s) @ ns \<and>
        map ev_id ns = map pe_id (drop n es) \<and> map ev_type ns = map pe_type (drop n es) \<and>
        le_providerCursor (cur t) = Some (nat_str (length es)) \<and>
        le_seenProviderEventIds (cur t) = map pe_id es \<and>
        le_status (cur t) = updateStatusFromEvents (le_status (cur s)) (drop n es)"
  using fake_events.pull_catches_up [OF assms, of pf' "\<lambda>_ _. False"]
  by (simp add: wp_def split: prod.splits sum.splits)

lemma demo_run_events: "fake_run_events (fr_handle demo_run) demo_world = Some demo_events"
  by (simp add: fake_run_events_def demo_world_def demo_run_def demo_events_def max_safe_def)

lemma demo_distinct: "distinct (map pe_id demo_events)"
  by (simp add: demo_events_def)

lemma demo_limits: "rq_maxEvents (demo_request tok [] ap) = None" "rq_maxCostUsd (demo_request tok [] ap) = None"
  by (simp_all add: rq_defs jget_def [of "JObj _"] Let_def)

theorem fake_pull_catches_up_witness:
  "case pullProviderEvents demo_pf demo_env None (running (running_lease [])) of (Inl _, _) \<Rightarrow> False
    | (Inr _, t) \<Rightarrow> \<exists>ns. events_of running_id (st t) = events_of running_id (st (running (running_lease []))) @ ns \<and>
        map ev_id ns = map pe_id (drop 0 demo_events) \<and> map ev_type ns = map pe_type (drop 0 demo_events) \<and>
        le_providerCursor (cur t) = Some (nat_str (length demo_events)) \<and>
        le_seenProviderEventIds (cur t) = map pe_id demo_events \<and>
        le_status (cur t) = updateStatusFromEvents Running (drop 0 demo_events)"
  using fake_pull_catches_up [of "running (running_lease [])" "fr_handle demo_run" demo_env demo_pf demo_opts
      demo_events 0 demo_pf]
  by (simp add: demo_run_events demo_limits demo_distinct position_def split: prod.splits sum.splits)

section \<open>Budgets\<close>

text \<open>C13: A provider batch with more unseen events than the budget leaves, or (within the event budget)
  whose last reported cost exceeds the policy's maximum, stops the execution: the stored lease is
  failed with the corresponding code, and a sandbox it has was asked to be cleaned up.\<close>

theorem budget_stops:
  assumes "providerFor env (cur s) = Inr p"
    and "over = (case remainingEvents (cur s) of None \<Rightarrow> False
      | Some r \<Rightarrow> int (length (unseen_events (cur s) batch)) > r)"
    and "over \<or> (rq_maxCostUsd (le_request (cur s)) = Some maxCost \<and>
      latestEstimatedCost (unseen_events (cur s) batch) = Some cost \<and> num_lt maxCost cost)"
  shows "case ingestBatch pf env (cur s) batch s of (Inl _, _) \<Rightarrow> False
    | (Inr _, t) \<Rightarrow> \<exists>k. store_get (le_id (cur s)) (st t) = Some k \<and> le_status k = Failed \<and>
        le_failure k = Some (if over then (''EXECUTION_EVENT_BUDGET_EXCEEDED'', budget_message (cur s))
          else (''EXECUTION_COST_BUDGET_EXCEEDED'', cost_message pf cost maxCost)) \<and>
        (le_sandbox k = None \<or> le_cleanup k \<noteq> None)"
  using ingest_stops [OF assms(1,2) HOL.refl, of maxCost cost pf "\<lambda>_ _. False"] assms(3)
  by (auto simp: wp_def stopped_def split: prod.splits sum.splits)

theorem budget_stops_witness:
  "case ingestBatch demo_pf demo_env (running_lease [(''maxCostUsd'', JNum (Fin 2))])
      \<lparr>eb_events = demo_events, eb_cursor = None, eb_done = False\<rparr> (running (running_lease [(''maxCostUsd'', JNum (Fin 2))]))
    of (Inl _, _) \<Rightarrow> False
    | (Inr _, t) \<Rightarrow> \<exists>k. store_get running_id (st t) = Some k \<and> le_status k = Failed \<and>
        le_failure k = Some (''EXECUTION_COST_BUDGET_EXCEEDED'', cost_message demo_pf (Fin 3) (Fin 2)) \<and>
        (le_sandbox k = None \<or> le_cleanup k \<noteq> None)"
  using budget_stops [of demo_env "running (running_lease [(''maxCostUsd'', JNum (Fin 2))])" demo_provider False
      "\<lparr>eb_events = demo_events, eb_cursor = None, eb_done = False\<rparr>" "Fin 2" "Fin 3" demo_pf]
  by (simp add: remainingEvents_def rq_defs jget_def [of "JObj _"] Let_def js_num_def unseen_events_def
      latestEstimatedCost_def demo_events_def isNum_def num_lt.simps split: prod.splits sum.splits)

section \<open>Driving and ending\<close>

text \<open>An execution that is terminal, or has no sandbox or no run, refuses approvals, input, steering
  and suspension with an invalid-state error, and one that is not suspended refuses to resume; the
  store and the providers are not touched.\<close>

theorem inactive_refused:
  assumes "store_get i (st s) = Some l"
    and "le_handle l = None \<or> le_sandbox l = None \<or> isTerminal (le_status l)"
    and "\<not> bad_decision d" and "\<not> bad_input u" and "\<not> bad_steer m"
  shows "resolveApproval pf env i d s = (Inl (invalidState l ''Execution is not active.''), s\<lparr>cur := l\<rparr>) \<and>
    submitInput pf env i u s = (Inl (invalidState l ''Execution is not active.''), s\<lparr>cur := l\<rparr>) \<and>
    steer pf env i m s = (Inl (invalidState l ''Execution is not active.''), s\<lparr>cur := l\<rparr>) \<and>
    suspend env i s = (Inl (invalidState l ''Execution is not active.''), s\<lparr>cur := l\<rparr>) \<and>
    (le_status l \<noteq> Suspended \<longrightarrow>
      resume pf env i s = (Inl (invalidState l ''Only suspended executions can resume.''), s\<lparr>cur := l\<rparr>))"
  using forwardInput_refuses [OF assms(1,2)] suspend_refuses [OF assms(1,2)] resume_refuses [OF assms(1)] assms(3-5)
  by (simp_all add: resolveApproval_def submitInput_def steer_def)

theorem inactive_refused_witness:
  "steer demo_pf demo_env running_id (JStr ''x'') (running ((running_lease [])\<lparr>le_status := Completed\<rparr>)) =
    (Inl (invalidState ((running_lease [])\<lparr>le_status := Completed\<rparr>) ''Execution is not active.''),
     (running ((running_lease [])\<lparr>le_status := Completed\<rparr>))\<lparr>cur := (running_lease [])\<lparr>le_status := Completed\<rparr>\<rparr>)"
  by (rule inactive_refused [where d = "JObj [(''requestId'', JStr ''q''), (''decision'', JStr ''approved''), (''actor'', JStr ''me'')]"
        and u = "JObj [(''requestId'', JStr ''q''), (''values'', JObj [])]", THEN conjunct2, THEN conjunct2, THEN conjunct1])
    (simp_all add: bad_decision_def bad_input_def bad_steer_def bad_id_def js_check_defs jget_def)

text \<open>A successful \<open>suspend\<close> leaves the lease suspended with the suspension as the last event of its
  log; one that throws (not found, not active, provider error) leaves the store as it was.\<close>

theorem suspend_outcomes:
  assumes "store_ok pf (st s)"
  shows "case suspend env i s of
      (Inr l, t) \<Rightarrow> le_status l = Suspended \<and> store_get i (st t) = Some l \<and>
        (\<exists>lg e. events_of i (st t) = lg @ [e] \<and> ev_type e = SandboxSuspended \<and>
           ev_sequence e = le_lastEventSequence l)
    | (Inl _, t) \<Rightarrow> st t = st s"
  using suspend_ends [OF assms, of env i] by (auto simp: wp_def stored_with_def split: prod.splits sum.splits)

theorem suspend_outcomes_witness:
  "case suspend demo_env running_id (running (running_lease [])) of
      (Inr l, t) \<Rightarrow> le_status l = Suspended \<and> store_get running_id (st t) = Some l \<and>
        (\<exists>lg e. events_of running_id (st t) = lg @ [e] \<and> ev_type e = SandboxSuspended \<and>
           ev_sequence e = le_lastEventSequence l)
    | (Inl _, t) \<Rightarrow> st t = st (running (running_lease []))"
  by (rule suspend_outcomes [OF running_ok [OF demo_valid]]) simp_all

text \<open>C14: \<open>terminate\<close> on an execution with a sandbox that has not been cleaned up: if it returns, the
  stored lease carries a receipt for that sandbox, a terminal status (a status that was terminal
  already is kept, otherwise it is cancelled), its result and failure are untouched, and the
  termination is the last logged event; a second call returns the same lease, contacts no
  provider and changes nothing. It can only throw when the provider is not registered, and then
  the store is as it was.\<close>

theorem terminate_once:
  assumes so: "store_ok pf (st s)" and l: "store_get i (st s) = Some l"
    and sb: "le_sandbox l = Some sb" and c: "le_cleanup l = None"
  shows "case terminate pf env i s of
      (Inl e, t) \<Rightarrow> providerFor env l = Inl e \<and> st t = st s
    | (Inr k, t) \<Rightarrow> store_get i (st t) = Some k \<and>
        (\<exists>r. le_cleanup k = Some r \<and> rc_sandboxId r = ss_id sb \<and> rc_executionId r = i) \<and>
        le_status k = (if isTerminal (le_status l) then le_status l else Cancelled) \<and>
        le_result k = le_result l \<and> le_failure k = le_failure l \<and>
        (\<exists>lg e. events_of i (st t) = lg @ [e] \<and> ev_type e = SandboxTerminated) \<and>
        terminate pf env i t = (Inr k, t\<lparr>cur := k\<rparr>)"
  using terminate_ends [OF assms, of env] terminate_noop [of i _ _ pf env] sb
  by (fastforce simp: wp_def ended_def stored_with_def split: prod.splits sum.splits)

theorem terminate_once_witness:
  "case terminate demo_pf demo_env running_id (running (running_lease [])) of
      (Inl e, t) \<Rightarrow> providerFor demo_env (running_lease []) = Inl e \<and> st t = st (running (running_lease []))
    | (Inr k, t) \<Rightarrow> store_get running_id (st t) = Some k \<and>
        (\<exists>r. le_cleanup k = Some r \<and> rc_sandboxId r = ss_id demo_session \<and> rc_executionId r = running_id) \<and>
        le_status k = (if isTerminal (le_status (running_lease [])) then le_status (running_lease []) else Cancelled) \<and>
        le_result k = le_result (running_lease []) \<and> le_failure k = le_failure (running_lease []) \<and>
        (\<exists>lg e. events_of running_id (st t) = lg @ [e] \<and> ev_type e = SandboxTerminated) \<and>
        terminate demo_pf demo_env running_id t = (Inr k, t\<lparr>cur := k\<rparr>)"
  by (rule terminate_once [OF running_ok [OF demo_valid]]) simp_all

text \<open>With the fake provider, whose sandbox the execution has, termination returns and its receipt
  says that the cleanup was verified.\<close>

theorem fake_terminate_verified:
  assumes "store_ok pf (st s)" and "store_get i (st s) = Some l"
    and "le_sandbox l = Some sb" and "le_cleanup l = None"
    and "providerFor (fake_env pf opts) l = Inr (fake_provider pf opts)" and "fake_known (ss_id sb) (wd s)"
  shows "case terminate pf (fake_env pf opts) i s of (Inl _, _) \<Rightarrow> False
    | (Inr k, _) \<Rightarrow> \<exists>r. le_cleanup k = Some r \<and> rc_status r = Verified"
  using fake.terminate_verified [OF assms] by (simp add: wp_def split: prod.splits sum.splits)

theorem fake_terminate_verified_witness:
  "case terminate demo_pf (fake_env demo_pf demo_opts) running_id (running (running_lease [])) of (Inl _, _) \<Rightarrow> False
    | (Inr k, _) \<Rightarrow> \<exists>r. le_cleanup k = Some r \<and> rc_status r = Verified"
  by (rule fake_terminate_verified [OF running_ok [OF demo_valid],
        where l = "running_lease []" and sb = demo_session])
    (simp_all add: demo_providerFor [unfolded demo_env_def] running_known)

text \<open>\<open>collectResult\<close> on an execution that was not cleaned up: if it returns, the stored lease has
  the provider's result, the status of that result, a cleanup receipt, and the cleanup as its last
  event; calling it again returns the same lease and changes nothing.\<close>

theorem collect_once:
  assumes so: "store_ok pf (st s)" and l: "store_get i (st s) = Some l" and c: "le_cleanup l = None"
  shows "case collectResult pf env i s of (Inl _, _) \<Rightarrow> True
    | (Inr k, t) \<Rightarrow> store_get i (st t) = Some k \<and>
        (\<exists>r. le_result k = Some r \<and> le_status k = status_of_result (pr_status r)) \<and> le_cleanup k \<noteq> None \<and>
        (\<exists>lg e. events_of i (st t) = lg @ [e] \<and> ev_type e = CleanupCompleted) \<and>
        collectResult pf env i t = (Inr k, t\<lparr>cur := k\<rparr>)"
  using collectResult_ends [OF assms, of env] collectResult_noop [of i _ _ pf env]
  by (fastforce simp: wp_def collected_def stored_with_def split: prod.splits sum.splits)

theorem collect_once_witness:
  "case collectResult demo_pf demo_env running_id (running (running_lease [])) of (Inl _, _) \<Rightarrow> True
    | (Inr k, t) \<Rightarrow> store_get running_id (st t) = Some k \<and>
        (\<exists>r. le_result k = Some r \<and> le_status k = status_of_result (pr_status r)) \<and> le_cleanup k \<noteq> None \<and>
        (\<exists>lg e. events_of running_id (st t) = lg @ [e] \<and> ev_type e = CleanupCompleted) \<and>
        collectResult demo_pf demo_env running_id t = (Inr k, t\<lparr>cur := k\<rparr>)"
  by (rule collect_once [OF running_ok [OF demo_valid], where l = "running_lease []"]) simp_all

text \<open>C15: \<open>reapExpired\<close>, when it returns, has expired every execution that was due (not terminal, its
  expiry not after the instant the call read), in the order of the list: each is stored as expired
  and, if it has a sandbox, carries a cleanup receipt.\<close>

theorem reap_all_due:
  assumes "store_ok pf (st s)"
  shows "case reapExpired pf env s of (Inl _, _) \<Rightarrow> True
    | (Inr ks, t) \<Rightarrow> map le_id ks = map le_id (filter
          (\<lambda>l. \<not> isTerminal (le_status l) \<and> le_expiresAt l \<le> fst (env_now env (wd s))) (store_list (st s))) \<and>
        (\<forall>k \<in> set ks. store_get (le_id k) (st t) = Some k \<and> le_status k = Expired \<and>
           (le_sandbox k = None \<or> le_cleanup k \<noteq> None))"
  unfolding due_leases_def [symmetric]
proof (clarsimp split: prod.split sum.split)
  fix ks t assume "reapExpired pf env s = (Inr ks, t)"
  from wp_InrD [OF reapExpired_ends [OF assms] this]
  have all: "list_all2 (\<lambda>i k. reaped i k (st t)) (map le_id (due_leases (fst (env_now env (wd s))) (st s))) ks" .
  then have "map le_id (due_leases (fst (env_now env (wd s))) (st s)) = map le_id ks"
    by (induction rule: list_all2_induct) (auto simp: reaped_def)
  moreover have "\<forall>k \<in> set ks. \<exists>i. reaped i k (st t)"
    using all by (induction rule: list_all2_induct) auto
  ultimately show "map le_id ks = map le_id (due_leases (fst (env_now env (wd s))) (st s)) \<and>
        (\<forall>k \<in> set ks. store_get (le_id k) (st t) = Some k \<and> le_status k = Expired \<and>
           (le_sandbox k = None \<or> (\<exists>y. le_cleanup k = Some y)))"
    by (auto simp: reaped_def)
qed

theorem reap_all_due_witness:
  "case reapExpired demo_pf demo_env (running (running_lease [])) of (Inl _, _) \<Rightarrow> True
    | (Inr ks, t) \<Rightarrow> map le_id ks = map le_id (filter
          (\<lambda>l. \<not> isTerminal (le_status l) \<and> le_expiresAt l \<le> fst (env_now demo_env (wd (running (running_lease [])))))
          (store_list (st (running (running_lease []))))) \<and>
        (\<forall>k \<in> set ks. store_get (le_id k) (st t) = Some k \<and> le_status k = Expired \<and>
           (le_sandbox k = None \<or> le_cleanup k \<noteq> None))"
  by (rule reap_all_due [OF running_ok [OF demo_valid]]) simp_all

text \<open>Executions do not interfere: a method called for one execution, whether it returns or throws,
  leaves the lease and the event log of every other execution as they were.\<close>

theorem executions_isolated:
  assumes "store_ok pf (st s)" and "i \<noteq> j"
    and "t \<in> {snd (streamEvents pf env i c k s), snd (resolveApproval pf env i d s), snd (submitInput pf env i d s),
      snd (steer pf env i d s), snd (suspend env i s), snd (resume pf env i s), snd (collectResult pf env i s),
      snd (terminate pf env i s)}"
  shows "store_get j (st t) = store_get j (st s) \<and> events_of j (st t) = events_of j (st s)"
  using methods_untouched [OF assms(1,2)] assms(3)
  by (auto simp: wp_state untouched_def resolveApproval_def submitInput_def steer_def)

theorem executions_isolated_witness:
  "store_get running_id (st (snd (suspend demo_env ''other'' (running (running_lease []))))) =
     store_get running_id (st (running (running_lease []))) \<and>
   events_of running_id (st (snd (suspend demo_env ''other'' (running (running_lease []))))) =
     events_of running_id (st (running (running_lease [])))"
  by (rule executions_isolated [OF running_ok [OF demo_valid], where i = "''other''" and env = demo_env])
    (simp_all add: running_id_def)

end
