(* ===== verification/Registry_Policy.thy ===== *)
theory Registry_Policy
  imports Prelude
begin

text \<open>
  The package policy of the registry gateway: \<open>evaluatePolicy\<close> of
  \<open>mezair-registry/packages/policy-engine\<close> and the types of \<open>mezair-registry/packages/shared\<close> it
  works on. It turns what is known of a package version (age, downloads, similar names, provenance,
  analysis signals, a language model's review) into reasons, a score and one of four actions.

  The JavaScript numbers of the configuration, the ages, counts and scores are the rational numbers
  they denote; none is \<open>NaN\<close> or infinite, since the configuration is parsed as integers and the age
  is a finite quotient.
\<close>

section \<open>Types\<close>

datatype runtime_mode = Development | Ci | Production

datatype policy_action = Allow | Warn | Quarantine | Block

datatype policy_code =
    PACKAGE_TOO_NEW | LOW_WEEKLY_DOWNLOADS | SIMILAR_TO_POPULAR_PACKAGE | NEW_PACKAGE_LOW_DOWNLOADS
  | NEW_INSTALL_SCRIPT | INSTALL_SCRIPT_CHANGED | NEW_DEPENDENCY_IN_PATCH_VERSION
  | RUNTIME_DEPENDENCY_CHANGED | DEV_DEPENDENCY_CHANGED | PACKAGE_MANIFEST_CHANGED
  | MANIFEST_FIELD_CHANGED | BIN_FIELD_CHANGED | OPTIONAL_DEPENDENCY_ADDED
  | OPTIONAL_DEPENDENCY_CHANGED | PEER_DEPENDENCY_CHANGED | SUSPICIOUS_FILE_ADDED
  | UNSAFE_TARBALL_PATH | UNSAFE_TARBALL_SYMLINK | LARGE_FILE_SIZE_DELTA | OBFUSCATED_CODE_DETECTED
  | UNEXPECTED_BINARY_FILE | USES_CHILD_PROCESS | USES_PROCESS_ENV
  | SENSITIVE_FILE_ACCESS_IN_INSTALL_PATH | NETWORK_ACCESS_IN_INSTALL_PATH | REPOSITORY_CHANGED
  | PROVENANCE_MISSING | PROVENANCE_CHANGED | PROVENANCE_SUBJECT_MISMATCH
  | TRUSTED_PUBLISHING_PRESENT | ANALYSIS_REQUIRED | LLM_RISK_REVIEW_FLAGGED | APPROVED_OVERRIDE

datatype severity = SevInfo | SevLow | SevMedium | SevHigh | SevCritical

record policy_reason =
  pr_code :: policy_code
  pr_message :: string
  pr_severity :: severity
  pr_evidence :: js

record policy_decision =
  pd_action :: policy_action
  pd_score :: rat
  pd_reasons :: "policy_reason list"
  pd_explanation :: string
  pd_expiresAt :: "string option"

record override =
  ov_packageName :: string
  ov_version :: "string option"
  ov_action :: policy_action
  ov_reason :: string
  ov_approvedBy :: "string option"
  ov_expiresAt :: "string option"

record provenance_policy =
  vp_enabled :: bool
  vp_highDownloadThreshold :: rat
  vp_trustedPublishingScoreReduction :: rat
  vp_quarantineChangedProvenance :: bool
  vp_quarantineMissingForHighDownloadPackages :: bool

record policy_config =
  pc_version :: string
  pc_minimumPackageAgeDays :: rat
  pc_lowDownloadThreshold :: rat
  pc_strictLowDownloadThreshold :: rat
  pc_blockSimilarLowDownloadPackages :: bool
  pc_blockNewInstallScripts :: bool
  pc_quarantineChangedInstallScripts :: bool
  pc_blockUnexpectedBinaries :: bool
  pc_quarantineObfuscatedCode :: bool
  pc_hideQuarantinedMetadata :: bool
  pc_provenance :: "provenance_policy option"
  pc_overridesEnabled :: bool
  pc_defaultExpiryDays :: rat
  pc_llmReviewEnabled :: bool

record provenance =
  pv_present :: bool
  pv_source :: js
  pv_attestationUrl :: js

record version_metadata =
  vm_publishedAt :: "string option"
  vm_tarballUrl :: "string option"
  vm_integrity :: "string option"
  vm_shasum :: "string option"
  vm_provenance :: "provenance option"

record analysis_report =
  ar_packageName :: string
  ar_version :: string
  ar_analyserVersion :: string
  ar_tarballIntegrity :: "string option"
  ar_tarballShasum :: "string option"
  ar_signals :: "policy_reason list"

record llm_review =
  lr_riskLevel :: severity
  lr_confidence :: string
  lr_summary :: string

record similar_package =
  sp_name :: string
  sp_similarity :: rat
  sp_reasons :: js
  sp_suggestedPackage :: "string option"

record policy_input =
  pi_packageName :: string
  pi_version :: string
  pi_runtimeMode :: runtime_mode
  pi_evaluatedAt :: "string option"
  pi_versionMetadata :: "version_metadata option"
  pi_weeklyDownloads :: "rat option"
  pi_packageAgeDays :: "rat option"
  pi_analysisRequired :: bool
  pi_analysisReport :: "analysis_report option"
  pi_llmRiskReview :: "llm_review option"
  pi_override :: "override option"
  pi_similarPackages :: "similar_package list"
  pi_policy :: policy_config

text \<open>What \<open>evaluatePolicy\<close> can throw: the error of its clock argument, and the \<open>RangeError\<close> of a date.\<close>

datatype policy_error = InvalidTimestamp string | InvalidDate

section \<open>Time\<close>

definition evaluationTimestamp :: "platform \<Rightarrow> int \<Rightarrow> string option \<Rightarrow> policy_error + int" where
  "evaluationTimestamp pf now stamp = (case stamp of
      None \<Rightarrow> Inr now
    | Some s \<Rightarrow> if s = [] then Inr now else
        (case pf_date pf s of None \<Rightarrow> Inl (InvalidTimestamp s) | Some t \<Rightarrow> Inr t))"

text \<open>\<open>new Date(value).toISOString()\<close>: the value is truncated and must be within the range of dates.\<close>

definition max_date :: rat where
  "max_date = 8640000000000000"

definition trunc :: "rat \<Rightarrow> int" where
  "trunc x = (if 0 \<le> x then \<lfloor>x\<rfloor> else \<lceil>x\<rceil>)"

definition to_iso :: "platform \<Rightarrow> rat \<Rightarrow> policy_error + string" where
  "to_iso pf x = (if \<bar>x\<bar> \<le> max_date then Inr (pf_iso pf (trunc x)) else Inl InvalidDate)"

definition day_ms :: rat where
  "day_ms = 86400000"

text \<open>A text that is missing or empty is falsy.\<close>

definition given :: "string option \<Rightarrow> bool" where
  "given t \<longleftrightarrow> (case t of None \<Rightarrow> False | Some s \<Rightarrow> s \<noteq> [])"

section \<open>Overrides\<close>

definition parse_date :: "platform \<Rightarrow> string option \<Rightarrow> int option" where
  "parse_date pf t = (case t of None \<Rightarrow> None | Some s \<Rightarrow> pf_date pf s)"

definition resolveActiveOverride :: "platform \<Rightarrow> policy_input \<Rightarrow> int \<Rightarrow> override option" where
  "resolveActiveOverride pf inp evaluatedAt =
    (if \<not> pc_overridesEnabled (pi_policy inp) then None else
     case pi_override inp of None \<Rightarrow> None
     | Some ov \<Rightarrow>
        if given (ov_version ov) \<and> ov_version ov \<noteq> Some (pi_version inp) then None
        else if given (ov_expiresAt ov) \<and>
            (case parse_date pf (ov_expiresAt ov) of None \<Rightarrow> False | Some t \<Rightarrow> t \<le> evaluatedAt) then None
        else Some ov)"

section \<open>Reasons\<close>

definition opt_js :: "string option \<Rightarrow> js" where
  "opt_js t = (case t of None \<Rightarrow> JUndef | Some s \<Rightarrow> JStr s)"

definition num_js :: "rat option \<Rightarrow> js" where
  "num_js x = (case x of None \<Rightarrow> JUndef | Some r \<Rightarrow> JNum (Fin r))"

definition mode_str :: "runtime_mode \<Rightarrow> string" where
  "mode_str m = (case m of Development \<Rightarrow> ''development'' | Ci \<Rightarrow> ''ci'' | Production \<Rightarrow> ''production'')"

definition below :: "rat option \<Rightarrow> rat \<Rightarrow> bool" where
  "below x limit \<longleftrightarrow> (case x of None \<Rightarrow> False | Some r \<Rightarrow> r < limit)"

abbreviation age_limit :: "policy_input \<Rightarrow> rat" where
  "age_limit inp \<equiv> pc_minimumPackageAgeDays (pi_policy inp)"

abbreviation download_limit :: "policy_input \<Rightarrow> rat" where
  "download_limit inp \<equiv> pc_lowDownloadThreshold (pi_policy inp)"

definition too_new_reason :: "platform \<Rightarrow> policy_input \<Rightarrow> policy_reason list" where
  "too_new_reason pf inp =
    (if below (pi_packageAgeDays inp) (age_limit inp) then
       (let lessThanOneDay = below (pi_packageAgeDays inp) 1 in
        [\<lparr>pr_code = PACKAGE_TOO_NEW,
          pr_message = (if lessThanOneDay then ''Package version was published less than 1 day ago.''
             else ''Package version is newer than the '' @ num_str pf (Fin (age_limit inp)) @ '' day policy window.''),
          pr_severity = (if lessThanOneDay then SevCritical
             else if pi_runtimeMode inp = Development then SevMedium else SevHigh),
          pr_evidence = JObj [(''packageAgeDays'', num_js (pi_packageAgeDays inp))]\<rparr>])
     else [])"

definition low_downloads_reason :: "policy_input \<Rightarrow> policy_reason list" where
  "low_downloads_reason inp =
    (if below (pi_weeklyDownloads inp) (download_limit inp) then
       [\<lparr>pr_code = LOW_WEEKLY_DOWNLOADS,
         pr_message = ''Package has fewer weekly downloads than the configured threshold.'',
         pr_severity = (if below (pi_weeklyDownloads inp) (pc_strictLowDownloadThreshold (pi_policy inp))
            then SevHigh else SevMedium),
         pr_evidence = JObj [(''weeklyDownloads'', num_js (pi_weeklyDownloads inp)),
            (''threshold'', JNum (Fin (download_limit inp)))]\<rparr>]
     else [])"

definition similar_reason :: "policy_input \<Rightarrow> policy_reason list" where
  "similar_reason inp = (case pi_similarPackages inp of
      [] \<Rightarrow> []
    | sp # _ \<Rightarrow>
       if sp_similarity sp \<ge> 82 / 100 then
         [\<lparr>pr_code = SIMILAR_TO_POPULAR_PACKAGE,
           pr_message = ''Package name is similar to '' @ sp_name sp @ ''.'',
           pr_severity = (if below (pi_weeklyDownloads inp) (download_limit inp) \<and>
               pc_blockSimilarLowDownloadPackages (pi_policy inp) then SevCritical else SevMedium),
           pr_evidence = JObj [(''candidate'', JStr (sp_name sp)),
             (''suggestedPackage'', JStr (case sp_suggestedPackage sp of None \<Rightarrow> sp_name sp | Some s \<Rightarrow> s)),
             (''similarity'', JNum (Fin (sp_similarity sp))),
             (''weeklyDownloads'', num_js (pi_weeklyDownloads inp)),
             (''reasons'', sp_reasons sp)]\<rparr>]
       else [])"

definition new_low_reason :: "policy_input \<Rightarrow> policy_reason list" where
  "new_low_reason inp =
    (if below (pi_weeklyDownloads inp) (download_limit inp) \<and> below (pi_packageAgeDays inp) (age_limit inp) then
       [\<lparr>pr_code = NEW_PACKAGE_LOW_DOWNLOADS, pr_message = ''Package is both new and low-adoption.'',
         pr_severity = SevHigh,
         pr_evidence = JObj [(''weeklyDownloads'', num_js (pi_weeklyDownloads inp)),
           (''packageAgeDays'', num_js (pi_packageAgeDays inp))]\<rparr>]
     else [])"

text \<open>\<open>provenancePolicy?.enabled !== false\<close> and \<open>versionMetadata?.provenance?.present === true\<close>.\<close>

definition provenance_enabled :: "policy_input \<Rightarrow> bool" where
  "provenance_enabled inp \<longleftrightarrow> (case pc_provenance (pi_policy inp) of None \<Rightarrow> True | Some vp \<Rightarrow> vp_enabled vp)"

definition published_provenance :: "policy_input \<Rightarrow> provenance option" where
  "published_provenance inp = (case pi_versionMetadata inp of None \<Rightarrow> None
     | Some vm \<Rightarrow> (case vm_provenance vm of None \<Rightarrow> None
        | Some pv \<Rightarrow> if pv_present pv then Some pv else None))"

definition provenance_missing_reason :: "policy_input \<Rightarrow> policy_reason list" where
  "provenance_missing_reason inp =
    (case (pc_provenance (pi_policy inp), pi_weeklyDownloads inp) of
       (Some vp, Some w) \<Rightarrow>
         if provenance_enabled inp \<and> published_provenance inp = None \<and> w \<ge> vp_highDownloadThreshold vp then
           [\<lparr>pr_code = PROVENANCE_MISSING,
             pr_message = ''High-download package has no published provenance metadata.'',
             pr_severity = SevMedium,
             pr_evidence = JObj [(''weeklyDownloads'', JNum (Fin w)),
               (''threshold'', JNum (Fin (vp_highDownloadThreshold vp))),
               (''provenancePresent'', JBool False)]\<rparr>]
         else []
     | _ \<Rightarrow> [])"

definition score_reduction :: "policy_input \<Rightarrow> rat" where
  "score_reduction inp = (case pc_provenance (pi_policy inp) of None \<Rightarrow> 0
     | Some vp \<Rightarrow> vp_trustedPublishingScoreReduction vp)"

definition trusted_reason :: "policy_input \<Rightarrow> policy_reason list" where
  "trusted_reason inp =
    (if provenance_enabled inp then
       (case published_provenance inp of None \<Rightarrow> []
        | Some pv \<Rightarrow> [\<lparr>pr_code = TRUSTED_PUBLISHING_PRESENT,
            pr_message = ''Package version has published provenance metadata.'',
            pr_severity = SevInfo,
            pr_evidence = JObj [(''source'', pv_source pv), (''attestationUrl'', pv_attestationUrl pv),
              (''scoreReduction'', JNum (Fin (score_reduction inp)))]\<rparr>])
     else [])"

definition analysis_reason :: "policy_input \<Rightarrow> policy_reason list" where
  "analysis_reason inp =
    (if pi_analysisRequired inp \<and> pi_analysisReport inp = None then
       [\<lparr>pr_code = ANALYSIS_REQUIRED,
         pr_message = ''No static analysis report exists for this tarball identity yet.'',
         pr_severity = (if pi_runtimeMode inp = Production then SevHigh else SevMedium),
         pr_evidence = JObj [(''runtimeMode'', JStr (mode_str (pi_runtimeMode inp)))]\<rparr>]
     else [])"

text \<open>The signals of the analysis report that no earlier reason repeats in code and message.\<close>

fun add_signals :: "policy_reason list \<Rightarrow> policy_reason list \<Rightarrow> policy_reason list" where
  "add_signals reasons [] = reasons"
| "add_signals reasons (sig # sigs) =
     add_signals (if list_ex (\<lambda>r. pr_code r = pr_code sig \<and> pr_message r = pr_message sig) reasons
       then reasons else reasons @ [sig]) sigs"

definition llm_reason :: "policy_input \<Rightarrow> policy_reason list" where
  "llm_reason inp = (case pi_llmRiskReview inp of None \<Rightarrow> []
     | Some lr \<Rightarrow> if lr_riskLevel lr = SevHigh \<or> lr_riskLevel lr = SevCritical then
         [\<lparr>pr_code = LLM_RISK_REVIEW_FLAGGED, pr_message = lr_summary lr, pr_severity = lr_riskLevel lr,
           pr_evidence = JObj [(''confidence'', JStr (lr_confidence lr))]\<rparr>]
       else [])"

definition policy_reasons :: "platform \<Rightarrow> policy_input \<Rightarrow> policy_reason list" where
  "policy_reasons pf inp =
     add_signals (too_new_reason pf inp @ low_downloads_reason inp @ similar_reason inp @ new_low_reason inp @
        provenance_missing_reason inp @ trusted_reason inp @ analysis_reason inp)
       (case pi_analysisReport inp of None \<Rightarrow> [] | Some ar \<Rightarrow> ar_signals ar) @ llm_reason inp"

section \<open>Score and action\<close>

definition severityScore :: "severity \<Rightarrow> rat" where
  "severityScore s = (case s of SevInfo \<Rightarrow> 0 | SevLow \<Rightarrow> 10 | SevMedium \<Rightarrow> 35 | SevHigh \<Rightarrow> 70 | SevCritical \<Rightarrow> 95)"

definition has_code :: "policy_reason list \<Rightarrow> policy_code \<Rightarrow> bool" where
  "has_code reasons c \<longleftrightarrow> list_ex (\<lambda>r. pr_code r = c) reasons"

definition raw_score :: "policy_reason list \<Rightarrow> rat" where
  "raw_score reasons = min 100 (foldl (\<lambda>total r. total + severityScore (pr_severity r)) 0 reasons)"

definition scorePolicyReasons :: "policy_input \<Rightarrow> policy_reason list \<Rightarrow> rat" where
  "scorePolicyReasons inp reasons =
    (let rawScore = raw_score reasons;
         trustedPublishingPresent = has_code reasons TRUSTED_PUBLISHING_PRESENT;
         provenanceRisk = has_code reasons PROVENANCE_CHANGED \<or> has_code reasons PROVENANCE_MISSING \<or>
           has_code reasons PROVENANCE_SUBJECT_MISMATCH in
     if \<not> trustedPublishingPresent \<or> provenanceRisk then rawScore
     else max 0 (rawScore - score_reduction inp))"

definition by_mode :: "policy_input \<Rightarrow> policy_action \<Rightarrow> policy_action \<Rightarrow> policy_action" where
  "by_mode inp dev other = (if pi_runtimeMode inp = Development then dev else other)"

definition quarantine_changed :: "policy_input \<Rightarrow> bool" where
  "quarantine_changed inp \<longleftrightarrow> (case pc_provenance (pi_policy inp) of None \<Rightarrow> True
     | Some vp \<Rightarrow> vp_quarantineChangedProvenance vp)"

definition quarantine_missing :: "policy_input \<Rightarrow> bool" where
  "quarantine_missing inp \<longleftrightarrow> (case pc_provenance (pi_policy inp) of None \<Rightarrow> True
     | Some vp \<Rightarrow> vp_quarantineMissingForHighDownloadPackages vp)"

definition hard_critical :: "policy_reason list \<Rightarrow> bool" where
  "hard_critical reasons \<longleftrightarrow>
     list_ex (\<lambda>r. pr_severity r = SevCritical \<and> pr_code r \<noteq> LLM_RISK_REVIEW_FLAGGED) reasons"

definition decideAction :: "policy_input \<Rightarrow> policy_reason list \<Rightarrow> rat \<Rightarrow> policy_action" where
  "decideAction inp reasons score =
    (if hard_critical reasons then Block
     else if has_code reasons PACKAGE_TOO_NEW \<and> below (pi_packageAgeDays inp) 1 then Block
     else if has_code reasons PACKAGE_TOO_NEW then by_mode inp Warn Quarantine
     else if has_code reasons LOW_WEEKLY_DOWNLOADS \<and> has_code reasons SIMILAR_TO_POPULAR_PACKAGE then
       (if pc_blockSimilarLowDownloadPackages (pi_policy inp) then Block else Quarantine)
     else if has_code reasons NEW_INSTALL_SCRIPT \<and> pc_blockNewInstallScripts (pi_policy inp) then Block
     else if has_code reasons UNEXPECTED_BINARY_FILE \<and> pc_blockUnexpectedBinaries (pi_policy inp) then Block
     else if has_code reasons UNSAFE_TARBALL_PATH \<or> has_code reasons UNSAFE_TARBALL_SYMLINK then Block
     else if has_code reasons ANALYSIS_REQUIRED then
       (case pi_runtimeMode inp of Production \<Rightarrow> Block | Ci \<Rightarrow> Quarantine | Development \<Rightarrow> Warn)
     else if has_code reasons INSTALL_SCRIPT_CHANGED \<and> pc_quarantineChangedInstallScripts (pi_policy inp) then Quarantine
     else if has_code reasons OBFUSCATED_CODE_DETECTED \<and> pc_quarantineObfuscatedCode (pi_policy inp) then Quarantine
     else if has_code reasons LARGE_FILE_SIZE_DELTA then by_mode inp Warn Quarantine
     else if has_code reasons PROVENANCE_CHANGED \<and> quarantine_changed inp then by_mode inp Warn Quarantine
     else if has_code reasons PROVENANCE_MISSING \<and> quarantine_missing inp then by_mode inp Warn Quarantine
     else if has_code reasons LLM_RISK_REVIEW_FLAGGED then Quarantine
     else if score \<ge> 70 then by_mode inp Quarantine Block
     else if score \<ge> 35 then by_mode inp Warn Quarantine
     else if score > 0 then Warn
     else Allow)"

section \<open>The decision\<close>

definition pastTenseAction :: "policy_action \<Rightarrow> string" where
  "pastTenseAction a = (case a of Block \<Rightarrow> ''blocked'' | Warn \<Rightarrow> ''warned'' | Quarantine \<Rightarrow> ''quarantined''
     | Allow \<Rightarrow> ''allowed'')"

definition explainDecision :: "string \<Rightarrow> string \<Rightarrow> policy_action \<Rightarrow> policy_reason list \<Rightarrow> string" where
  "explainDecision packageName version action reasons =
    (if action = Allow then packageName @ ''@'' @ version @ '' is allowed by deterministic policy.''
     else packageName @ ''@'' @ version @ '' is '' @ pastTenseAction action @ '' by deterministic policy. '' @
       js_join '' '' (map pr_message reasons))"

definition nextTimeSensitiveDecisionExpiry ::
    "platform \<Rightarrow> policy_input \<Rightarrow> policy_reason list \<Rightarrow> int \<Rightarrow> policy_error + string option" where
  "nextTimeSensitiveDecisionExpiry pf inp reasons evaluatedAt =
    (if \<not> has_code reasons PACKAGE_TOO_NEW then Inr None else
     case pi_packageAgeDays inp of None \<Rightarrow> Inr None
     | Some age \<Rightarrow>
        (let nextBoundaryDays = (if age < 1 then 1 else age_limit inp);
             publishedAt = (case pi_versionMetadata inp of None \<Rightarrow> None
               | Some vm \<Rightarrow> if given (vm_publishedAt vm) then parse_date pf (vm_publishedAt vm) else None);
             expiry = (case publishedAt of
                 None \<Rightarrow> of_int evaluatedAt + max 0 (nextBoundaryDays - age) * day_ms
               | Some p \<Rightarrow> of_int p + nextBoundaryDays * day_ms) in
         if expiry > of_int evaluatedAt then map_sum id Some (to_iso pf expiry) else Inr None))"

definition override_decision :: "policy_input \<Rightarrow> override \<Rightarrow> policy_decision" where
  "override_decision inp ov = \<lparr>pd_action = ov_action ov,
     pd_score = (if ov_action ov = Allow then 0 else 80),
     pd_reasons = [\<lparr>pr_code = APPROVED_OVERRIDE, pr_message = ov_reason ov, pr_severity = SevInfo,
       pr_evidence = JObj [(''approvedBy'', opt_js (ov_approvedBy ov)), (''expiresAt'', opt_js (ov_expiresAt ov))]\<rparr>],
     pd_explanation = ''Override applies to '' @ pi_packageName inp @ ''@'' @ pi_version inp @ ''.'',
     pd_expiresAt = ov_expiresAt ov\<rparr>"

definition reasoned_action :: "platform \<Rightarrow> policy_input \<Rightarrow> policy_action" where
  "reasoned_action pf inp =
    (let reasons = policy_reasons pf inp in decideAction inp reasons (scorePolicyReasons inp reasons))"

definition evaluatePolicy :: "platform \<Rightarrow> int \<Rightarrow> policy_input \<Rightarrow> policy_error + policy_decision" where
  "evaluatePolicy pf now inp = (case evaluationTimestamp pf now (pi_evaluatedAt inp) of
      Inl e \<Rightarrow> Inl e
    | Inr evaluatedAt \<Rightarrow>
       (case resolveActiveOverride pf inp evaluatedAt of
          Some ov \<Rightarrow> Inr (override_decision inp ov)
        | None \<Rightarrow>
           (let reasons = policy_reasons pf inp;
                score = scorePolicyReasons inp reasons;
                action = decideAction inp reasons score in
            (case nextTimeSensitiveDecisionExpiry pf inp reasons evaluatedAt of
               Inl e \<Rightarrow> Inl e
             | Inr expiresAt \<Rightarrow> Inr \<lparr>pd_action = action, pd_score = score, pd_reasons = reasons,
                 pd_explanation = explainDecision (pi_packageName inp) (pi_version inp) action reasons,
                 pd_expiresAt = expiresAt\<rparr>))))"

definition isDecisionBlockingInstall :: "policy_decision \<Rightarrow> runtime_mode \<Rightarrow> bool" where
  "isDecisionBlockingInstall d mode =
    (if pd_action d = Block then True
     else if pd_action d = Quarantine then mode \<noteq> Development
     else False)"

end
