(* ===== verification/Registry_Store.thy ===== *)
theory Registry_Store
  imports Registry_Policy
begin

text \<open>
  The registry's persistence: \<open>MemoryPersistence\<close> of \<open>mezair-registry/packages/persistence\<close>, the
  reference implementation of the interface the gateway and the worker use. Its maps are association
  lists in insertion order.

  A time stamp is printed with \<open>toISOString\<close> when a record is stored and read back with
  \<open>Date.parse\<close> when records are listed; the records keep the milliseconds of the clock instead.
\<close>

section \<open>Records\<close>

record tarball_identity =
  ti_tarballIntegrity :: "string option"
  ti_tarballShasum :: "string option"
  ti_analyserVersion :: "string option"

record decision_record =
  dr_packageName :: string
  dr_version :: string
  dr_policyVersion :: string
  dr_identity :: tarball_identity
  dr_decision :: policy_decision
  dr_createdAt :: int

record report_record =
  rr_packageName :: string
  rr_version :: string
  rr_identity :: tarball_identity
  rr_report :: analysis_report
  rr_createdAt :: int

record override_record =
  or_override :: override
  or_createdAt :: int
  or_revoked :: bool

record llm_record =
  lm_packageName :: string
  lm_version :: string
  lm_identity :: tarball_identity
  lm_review :: llm_review
  lm_createdAt :: int

record version_input =
  vi_packageName :: string
  vi_version :: string
  vi_publishedAt :: "string option"
  vi_tarballUrl :: "string option"
  vi_integrity :: "string option"
  vi_shasum :: "string option"
  vi_weeklyDownloads :: "rat option"
  vi_cachedTarballKey :: "string option"

record version_record = version_input +
  vr_createdAt :: int
  vr_updatedAt :: int

record config_record =
  cg_name :: string
  cg_version :: string
  cg_config :: js
  cg_active :: bool
  cg_id :: string
  cg_createdAt :: int

record audit_event =
  ae_actor :: string
  ae_eventType :: string
  ae_targetType :: string
  ae_targetId :: string
  ae_metadata :: "(string \<times> js) list"

record audit_record = audit_event +
  ae_createdAt :: int

record 'm reg_store =
  rg_metadata :: "(string \<times> ('m \<times> int)) list"
  rg_versions :: "(string \<times> version_record) list"
  rg_decisions :: "(string \<times> decision_record) list"
  rg_overrides :: "(string \<times> override_record) list"
  rg_reports :: "(string \<times> report_record) list"
  rg_llmReviews :: "llm_record list"
  rg_policyConfigs :: "(string \<times> config_record) list"
  rg_auditEvents :: "audit_record list"

definition empty_store :: "'m reg_store" where
  "empty_store = \<lparr>rg_metadata = [], rg_versions = [], rg_decisions = [], rg_overrides = [], rg_reports = [],
     rg_llmReviews = [], rg_policyConfigs = [], rg_auditEvents = []\<rparr>"

section \<open>Keys\<close>

definition text_of :: "string option \<Rightarrow> string" where
  "text_of t = (case t of None \<Rightarrow> [] | Some s \<Rightarrow> s)"

definition packageVersionKey :: "string \<Rightarrow> string \<Rightarrow> string" where
  "packageVersionKey packageName version = packageName @ ''@'' @ version"

definition identity_key :: "tarball_identity \<Rightarrow> string" where
  "identity_key i = text_of (ti_tarballIntegrity i) @ '':'' @ text_of (ti_tarballShasum i) @ '':'' @
     text_of (ti_analyserVersion i)"

definition decisionKey :: "string \<Rightarrow> string \<Rightarrow> string \<Rightarrow> tarball_identity \<Rightarrow> string" where
  "decisionKey packageName version policyVersion i =
     packageName @ ''@'' @ version @ '':'' @ policyVersion @ '':'' @ identity_key i"

definition analysisReportKey :: "string \<Rightarrow> string \<Rightarrow> tarball_identity \<Rightarrow> string" where
  "analysisReportKey packageName version i = packageName @ ''@'' @ version @ '':'' @ identity_key i"

definition policyConfigKey :: "string \<Rightarrow> string \<Rightarrow> string" where
  "policyConfigKey name version = name @ ''@'' @ version"

text \<open>An absent field of the wanted identity matches every record.\<close>

definition identityMatches :: "tarball_identity \<Rightarrow> tarball_identity \<Rightarrow> bool" where
  "identityMatches rec want \<longleftrightarrow>
     (ti_tarballIntegrity want = None \<or> ti_tarballIntegrity rec = ti_tarballIntegrity want) \<and>
     (ti_tarballShasum want = None \<or> ti_tarballShasum rec = ti_tarballShasum want) \<and>
     (ti_analyserVersion want = None \<or> ti_analyserVersion rec = ti_analyserVersion want)"

text \<open>Newest first; records of the same instant keep their order.\<close>

definition newest_first :: "('r \<Rightarrow> int) \<Rightarrow> 'r list \<Rightarrow> 'r list" where
  "newest_first created rs = sort_key (\<lambda>r. - created r) rs"

section \<open>Metadata and versions\<close>

definition getMetadataRecord :: "string \<Rightarrow> 'm reg_store \<Rightarrow> ('m \<times> int) option" where
  "getMetadataRecord packageName st = map_of (rg_metadata st) packageName"

definition putMetadata :: "int \<Rightarrow> string \<Rightarrow> 'm \<Rightarrow> 'm reg_store \<Rightarrow> 'm reg_store" where
  "putMetadata now packageName m st = st\<lparr>rg_metadata := AList.update packageName (m, now) (rg_metadata st)\<rparr>"

definition defined_or :: "'a option \<Rightarrow> 'a option \<Rightarrow> 'a option" where
  "defined_or new old = (case new of None \<Rightarrow> old | Some x \<Rightarrow> Some x)"

definition putPackageVersion :: "int \<Rightarrow> int \<Rightarrow> version_input \<Rightarrow> 'm reg_store \<Rightarrow> 'm reg_store" where
  "putPackageVersion created updated v st =
    (let key = packageVersionKey (vi_packageName v) (vi_version v);
         existing = map_of (rg_versions st) key;
         old = (\<lambda>sel. case existing of None \<Rightarrow> None | Some e \<Rightarrow> sel e) in
     st\<lparr>rg_versions := AList.update key
       \<lparr>vi_packageName = vi_packageName v, vi_version = vi_version v,
        vi_publishedAt = defined_or (vi_publishedAt v) (old vi_publishedAt),
        vi_tarballUrl = defined_or (vi_tarballUrl v) (old vi_tarballUrl),
        vi_integrity = defined_or (vi_integrity v) (old vi_integrity),
        vi_shasum = defined_or (vi_shasum v) (old vi_shasum),
        vi_weeklyDownloads = defined_or (vi_weeklyDownloads v)
          (case existing of None \<Rightarrow> None | Some e \<Rightarrow> vi_weeklyDownloads e),
        vi_cachedTarballKey = defined_or (vi_cachedTarballKey v) (old vi_cachedTarballKey),
        vr_createdAt = (case existing of None \<Rightarrow> created | Some e \<Rightarrow> vr_createdAt e),
        vr_updatedAt = updated\<rparr> (rg_versions st)\<rparr>)"

definition getPackageVersion :: "string \<Rightarrow> string \<Rightarrow> 'm reg_store \<Rightarrow> version_record option" where
  "getPackageVersion packageName version st = map_of (rg_versions st) (packageVersionKey packageName version)"

section \<open>Decisions\<close>

definition isExpiredDecision :: "platform \<Rightarrow> int \<Rightarrow> policy_decision \<Rightarrow> bool" where
  "isExpiredDecision pf now d \<longleftrightarrow> given (pd_expiresAt d) \<and>
     (case parse_date pf (pd_expiresAt d) of None \<Rightarrow> False | Some t \<Rightarrow> t \<le> now)"

definition getPolicyDecision ::
    "platform \<Rightarrow> int \<Rightarrow> string \<Rightarrow> string \<Rightarrow> string \<Rightarrow> tarball_identity \<Rightarrow> 'm reg_store \<Rightarrow> policy_decision option" where
  "getPolicyDecision pf now packageName version policyVersion i st =
    (case map_of (rg_decisions st) (decisionKey packageName version policyVersion i) of
       None \<Rightarrow> None
     | Some rec \<Rightarrow> if isExpiredDecision pf now (dr_decision rec) then None else Some (dr_decision rec))"

definition putPolicyDecision ::
    "int \<Rightarrow> string \<Rightarrow> string \<Rightarrow> string \<Rightarrow> policy_decision \<Rightarrow> tarball_identity \<Rightarrow> 'm reg_store \<Rightarrow> 'm reg_store" where
  "putPolicyDecision now packageName version policyVersion d i st =
    st\<lparr>rg_decisions := AList.update (decisionKey packageName version policyVersion i)
      \<lparr>dr_packageName = packageName, dr_version = version, dr_policyVersion = policyVersion,
       dr_identity = i, dr_decision = d, dr_createdAt = now\<rparr> (rg_decisions st)\<rparr>"

definition record_key :: "decision_record \<Rightarrow> string" where
  "record_key rec = decisionKey (dr_packageName rec) (dr_version rec) (dr_policyVersion rec) (dr_identity rec)"

definition delete_where :: "(decision_record \<Rightarrow> bool) \<Rightarrow> 'm reg_store \<Rightarrow> 'm reg_store" where
  "delete_where P st = st\<lparr>rg_decisions :=
     foldl (\<lambda>m rec. if P rec then AList.delete (record_key rec) m else m) (rg_decisions st)
       (map snd (rg_decisions st))\<rparr>"

definition deletePolicyDecision :: "string \<Rightarrow> string \<Rightarrow> string \<Rightarrow> 'm reg_store \<Rightarrow> 'm reg_store" where
  "deletePolicyDecision packageName version policyVersion =
     delete_where (\<lambda>rec. dr_packageName rec = packageName \<and> dr_version rec = version \<and>
       dr_policyVersion rec = policyVersion)"

definition deletePolicyDecisionsForPackage :: "string \<Rightarrow> string \<Rightarrow> 'm reg_store \<Rightarrow> 'm reg_store" where
  "deletePolicyDecisionsForPackage packageName policyVersion =
     delete_where (\<lambda>rec. dr_packageName rec = packageName \<and> dr_policyVersion rec = policyVersion)"

section \<open>Overrides\<close>

definition override_live :: "platform \<Rightarrow> int \<Rightarrow> override_record \<Rightarrow> bool" where
  "override_live pf now rec \<longleftrightarrow> \<not> or_revoked rec \<and>
     (\<not> given (ov_expiresAt (or_override rec)) \<or>
      (case parse_date pf (ov_expiresAt (or_override rec)) of None \<Rightarrow> False | Some t \<Rightarrow> t > now))"

definition override_candidates :: "string \<Rightarrow> string \<Rightarrow> 'm reg_store \<Rightarrow> override_record list" where
  "override_candidates packageName version st =
     List.map_filter (map_of (rg_overrides st)) [packageVersionKey packageName version, packageName]"

definition getOverride :: "platform \<Rightarrow> int \<Rightarrow> string \<Rightarrow> string \<Rightarrow> 'm reg_store \<Rightarrow> override option" where
  "getOverride pf now packageName version st =
     map_option or_override (find (override_live pf now) (override_candidates packageName version st))"

definition override_key :: "string \<Rightarrow> string option \<Rightarrow> string" where
  "override_key packageName version =
     (if given version then packageVersionKey packageName (text_of version) else packageName)"

definition putOverride :: "int \<Rightarrow> override \<Rightarrow> 'm reg_store \<Rightarrow> 'm reg_store" where
  "putOverride now ov st = st\<lparr>rg_overrides := AList.update (override_key (ov_packageName ov) (ov_version ov))
     \<lparr>or_override = ov, or_createdAt = now, or_revoked = False\<rparr> (rg_overrides st)\<rparr>"

definition revokeOverride ::
    "string \<Rightarrow> string option \<Rightarrow> string \<Rightarrow> 'm reg_store \<Rightarrow> override_record option \<times> 'm reg_store" where
  "revokeOverride packageName version revokedBy st =
    (let key = override_key packageName version in
     case map_of (rg_overrides st) key of
       None \<Rightarrow> (None, st)
     | Some rec \<Rightarrow>
        if or_revoked rec then (None, st) else
        (let ov = or_override rec;
             rec' = rec\<lparr>or_revoked := True, or_override := ov\<lparr>ov_approvedBy :=
               (case ov_approvedBy ov of None \<Rightarrow> Some revokedBy | Some a \<Rightarrow> Some a)\<rparr>\<rparr>
         in (Some rec', st\<lparr>rg_overrides := AList.update key rec' (rg_overrides st)\<rparr>)))"

section \<open>Analysis reports and reviews\<close>

definition report_identity :: "analysis_report \<Rightarrow> tarball_identity" where
  "report_identity r = \<lparr>ti_tarballIntegrity = ar_tarballIntegrity r, ti_tarballShasum = ar_tarballShasum r,
     ti_analyserVersion = Some (ar_analyserVersion r)\<rparr>"

definition putAnalysisReport :: "int \<Rightarrow> analysis_report \<Rightarrow> 'm reg_store \<Rightarrow> 'm reg_store" where
  "putAnalysisReport now r st =
    st\<lparr>rg_reports := AList.update (analysisReportKey (ar_packageName r) (ar_version r) (report_identity r))
      \<lparr>rr_packageName = ar_packageName r, rr_version = ar_version r, rr_identity = report_identity r,
       rr_report = r, rr_createdAt = now\<rparr> (rg_reports st)\<rparr>"

definition getAnalysisReport :: "string \<Rightarrow> string \<Rightarrow> tarball_identity \<Rightarrow> 'm reg_store \<Rightarrow> analysis_report option" where
  "getAnalysisReport packageName version want st =
    (case newest_first rr_createdAt (filter (\<lambda>rec. identityMatches (rr_identity rec) want)
        (filter (\<lambda>rec. rr_packageName rec = packageName \<and> rr_version rec = version) (map snd (rg_reports st)))) of
       [] \<Rightarrow> None | rec # _ \<Rightarrow> Some (rr_report rec))"

definition putLlmRiskReview ::
    "int \<Rightarrow> string \<Rightarrow> string \<Rightarrow> tarball_identity \<Rightarrow> llm_review \<Rightarrow> 'm reg_store \<Rightarrow> 'm reg_store" where
  "putLlmRiskReview now packageName version i review st =
     st\<lparr>rg_llmReviews := rg_llmReviews st @ [\<lparr>lm_packageName = packageName, lm_version = version, lm_identity = i,
       lm_review = review, lm_createdAt = now\<rparr>]\<rparr>"

definition listLlmRiskReviews :: "string \<Rightarrow> string \<Rightarrow> nat \<Rightarrow> tarball_identity \<Rightarrow> 'm reg_store \<Rightarrow> llm_record list" where
  "listLlmRiskReviews packageName version limit want st =
     take limit (newest_first lm_createdAt (filter (\<lambda>rec. identityMatches (lm_identity rec) want)
       (filter (\<lambda>rec. version = [] \<or> lm_version rec = version)
         (filter (\<lambda>rec. packageName = [] \<or> lm_packageName rec = packageName) (rg_llmReviews st)))))"

section \<open>Policy configurations\<close>

definition putPolicyConfig ::
    "int \<Rightarrow> string \<Rightarrow> string \<Rightarrow> string \<Rightarrow> js \<Rightarrow> bool \<Rightarrow> 'm reg_store \<Rightarrow> config_record \<times> 'm reg_store" where
  "putPolicyConfig now new_id name version config active st =
    (let configs = (if active
           then map (\<lambda>(k, rec). (k, if cg_name rec = name then rec\<lparr>cg_active := False\<rparr> else rec)) (rg_policyConfigs st)
           else rg_policyConfigs st);
         key = policyConfigKey name version;
         existing = map_of configs key;
         rec = \<lparr>cg_name = name, cg_version = version, cg_config = config, cg_active = active,
           cg_id = (case existing of None \<Rightarrow> new_id | Some e \<Rightarrow> cg_id e),
           cg_createdAt = (case existing of None \<Rightarrow> now | Some e \<Rightarrow> cg_createdAt e)\<rparr>
     in (rec, st\<lparr>rg_policyConfigs := AList.update key rec configs\<rparr>))"

definition getActivePolicyConfig :: "string \<Rightarrow> 'm reg_store \<Rightarrow> config_record option" where
  "getActivePolicyConfig name st =
    (case newest_first cg_createdAt (filter (\<lambda>rec. cg_active rec)
        (filter (\<lambda>rec. name = [] \<or> cg_name rec = name) (map snd (rg_policyConfigs st)))) of
       [] \<Rightarrow> None | rec # _ \<Rightarrow> Some rec)"

section \<open>Audit events\<close>

definition putAuditEvent :: "int \<Rightarrow> audit_event \<Rightarrow> 'm reg_store \<Rightarrow> 'm reg_store" where
  "putAuditEvent now e st = st\<lparr>rg_auditEvents := rg_auditEvents st @ [audit_event.extend e \<lparr>ae_createdAt = now\<rparr>]\<rparr>"

definition listAuditEvents :: "string \<Rightarrow> nat \<Rightarrow> 'm reg_store \<Rightarrow> audit_record list" where
  "listAuditEvents targetId limit st =
     take limit (newest_first ae_createdAt
       (filter (\<lambda>rec. targetId = [] \<or> ae_targetId rec = targetId) (rg_auditEvents st)))"

end
