(* ===== verification/Registry_Names.thy ===== *)
theory Registry_Names
  imports Registry_Policy
begin

text \<open>
  Name squatting: \<open>mezair-registry/packages/name-squatting\<close>. A requested package name is compared with
  the names of popular packages by the Damerau--Levenshtein distance, the Jaro--Winkler similarity
  and a number of patterns; the result lists the popular packages it may be confused with.

  Similarities are the exact rational numbers; the rounding of floating-point division is not
  modelled, the rounding of \<open>toFixed(3)\<close> is. The matrix of distances is a list of rows that the loops
  update by index, as in the code.
\<close>

section \<open>Names\<close>

record package_parts =
  pp_scope :: "string option"
  pp_name :: string

definition splitPackageName :: "string \<Rightarrow> package_parts" where
  "splitPackageName packageName =
    (if \<not> starts_with ''@'' packageName then \<lparr>pp_scope = None, pp_name = packageName\<rparr>
     else (case js_split CHR ''/'' packageName of
         [] \<Rightarrow> \<lparr>pp_scope = None, pp_name = []\<rparr>
       | [scope] \<Rightarrow> \<lparr>pp_scope = Some scope, pp_name = []\<rparr>
       | scope # name # _ \<Rightarrow> \<lparr>pp_scope = Some scope, pp_name = name\<rparr>))"

definition normaliseName :: "string \<Rightarrow> string" where
  "normaliseName packageName =
    (let parts = splitPackageName (js_lower packageName) in
     filter (\<lambda>c. c \<notin> {CHR ''@'', CHR ''/'', CHR ''_'', CHR ''-''})
       ((case pp_scope parts of None \<Rightarrow> [] | Some s \<Rightarrow> s) @ ''/'' @ pp_name parts))"

definition strip_separators :: "string \<Rightarrow> string" where
  "strip_separators s = filter (\<lambda>c. c \<noteq> CHR ''-'' \<and> c \<noteq> CHR ''_'') s"

definition normaliseSegment :: "string \<Rightarrow> string" where
  "normaliseSegment s = strip_separators (js_lower s)"

section \<open>Damerau--Levenshtein distance\<close>

type_synonym matrix = "nat list list"

definition mget :: "matrix \<Rightarrow> nat \<Rightarrow> nat \<Rightarrow> nat" where
  "mget m i j = m ! i ! j"

definition mset :: "nat \<Rightarrow> nat \<Rightarrow> nat \<Rightarrow> matrix \<Rightarrow> matrix" where
  "mset i j v m = m[i := (m ! i)[j := v]]"

definition init_matrix :: "string \<Rightarrow> string \<Rightarrow> matrix" where
  "init_matrix a b =
    (let maxDistance = length a + length b;
         m0 = mset 0 0 maxDistance (replicate (length a + 2) (replicate (length b + 2) 0));
         m1 = fold (\<lambda>i m. mset (i + 1) 1 i (mset (i + 1) 0 maxDistance m)) [0..<length a + 1] m0
     in fold (\<lambda>j m. mset 1 (j + 1) j (mset 0 (j + 1) maxDistance m)) [0..<length b + 1] m1)"

text \<open>One turn of the inner loop, on the matrix and \<open>db\<close>; \<open>da\<close> maps a character to its last row.\<close>

definition inner_step ::
    "string \<Rightarrow> string \<Rightarrow> (char \<times> nat) list \<Rightarrow> nat \<Rightarrow> nat \<Rightarrow> matrix \<times> nat \<Rightarrow> matrix \<times> nat" where
  "inner_step a b da i j s = (case s of (m, db) \<Rightarrow>
     (let i1 = (case map_of da (b ! (j - 1)) of None \<Rightarrow> 0 | Some k \<Rightarrow> k);
          j1 = db;
          same = (a ! (i - 1) = b ! (j - 1));
          cost = (if same then 0 else 1);
          db' = (if same then j else db);
          v = min (min (min (mget m i j + cost) (mget m (i + 1) j + 1)) (mget m i (j + 1) + 1))
                (mget m i1 j1 + (i - i1 - 1) + 1 + (j - j1 - 1))
      in (mset (i + 1) (j + 1) v m, db')))"

definition outer_step ::
    "string \<Rightarrow> string \<Rightarrow> nat \<Rightarrow> (char \<times> nat) list \<times> matrix \<Rightarrow> (char \<times> nat) list \<times> matrix" where
  "outer_step a b i s = (case s of (da, m) \<Rightarrow>
     (AList.update (a ! (i - 1)) i da, fst (fold (inner_step a b da i) [1..<length b + 1] (m, 0))))"

definition damerauLevenshtein :: "string \<Rightarrow> string \<Rightarrow> nat" where
  "damerauLevenshtein a b =
     mget (snd (fold (outer_step a b) [1..<length a + 1] ([], init_matrix a b))) (length a + 1) (length b + 1)"

definition similarity :: "string \<Rightarrow> string \<Rightarrow> rat" where
  "similarity a b =
    (let left = normaliseName a; right = normaliseName b;
         maxLength = max (max (length left) (length right)) 1
     in 1 - of_nat (damerauLevenshtein left right) / of_nat maxLength)"

section \<open>Jaro--Winkler similarity\<close>

text \<open>\<open>Number(x.toFixed(3))\<close> for \<open>x\<close> from 0: the nearest multiple of 1/1000, the larger one on a tie.\<close>

definition fixed3 :: "rat \<Rightarrow> rat" where
  "fixed3 x = of_int \<lfloor>x * 1000 + 1 / 2\<rfloor> / 1000"

definition first_match :: "string \<Rightarrow> string \<Rightarrow> bool list \<Rightarrow> nat \<Rightarrow> nat \<Rightarrow> nat option" where
  "first_match left right rightMatches width i =
     find (\<lambda>j. \<not> rightMatches ! j \<and> left ! i = right ! j) [i - width..<min (i + width + 1) (length right)]"

definition match_step ::
    "string \<Rightarrow> string \<Rightarrow> nat \<Rightarrow> nat \<Rightarrow> bool list \<times> bool list \<times> nat \<Rightarrow> bool list \<times> bool list \<times> nat" where
  "match_step left right width i s = (case s of (leftMatches, rightMatches, matches) \<Rightarrow>
     (case first_match left right rightMatches width i of
        None \<Rightarrow> s
      | Some j \<Rightarrow> (leftMatches[i := True], rightMatches[j := True], matches + 1)))"

definition select_matched :: "string \<Rightarrow> bool list \<Rightarrow> string" where
  "select_matched s flags = map fst (filter snd (zip s flags))"

fun commonPrefixLength :: "string \<Rightarrow> string \<Rightarrow> nat \<Rightarrow> nat" where
  "commonPrefixLength (x # xs) (y # ys) (Suc n) = (if x = y then Suc (commonPrefixLength xs ys n) else 0)"
| "commonPrefixLength _ _ _ = 0"

definition jaroWinklerSimilarity :: "string \<Rightarrow> string \<Rightarrow> rat" where
  "jaroWinklerSimilarity a b =
    (let left = normaliseName a; right = normaliseName b in
     if left = right then 1
     else if left = [] \<or> right = [] then 0
     else
       (let matchDistance = max (length left) (length right) div 2 - 1;
            (leftMatches, rightMatches, matches) =
              fold (match_step left right matchDistance) [0..<length left]
                (replicate (length left) False, replicate (length right) False, 0)
        in if matches = 0 then 0 else
          (let leftMatched = select_matched left leftMatches;
               rightMatched = select_matched right rightMatches;
               transpositions = of_nat (length (filter (\<lambda>(x, y). x \<noteq> y) (zip leftMatched rightMatched))) / 2;
               m = of_nat matches;
               jaro = (m / of_nat (length left) + m / of_nat (length right) + (m - transpositions) / m) / 3;
               prefix = of_nat (commonPrefixLength left right 4)
           in fixed3 (jaro + prefix * (1 / 10) * (1 - jaro)))))"

section \<open>Patterns\<close>

definition trustedMirrorScopes :: "string list" where
  "trustedMirrorScopes = [''@types'']"

definition isTrustedScopeMirror :: "package_parts \<Rightarrow> package_parts \<Rightarrow> bool" where
  "isTrustedScopeMirror requested candidate \<longleftrightarrow>
     (case pp_scope requested of None \<Rightarrow> False | Some s \<Rightarrow> s \<noteq> [] \<and> s \<in> set trustedMirrorScopes) \<and>
     \<not> given (pp_scope candidate) \<and> pp_name requested \<noteq> [] \<and>
     normaliseSegment (pp_name requested) = normaliseSegment (pp_name candidate)"

definition hasComparableLength :: "string \<Rightarrow> string \<Rightarrow> bool" where
  "hasComparableLength a b \<longleftrightarrow>
    (let left = length (normaliseName a); right = length (normaliseName b);
         shorter = min left right; longer = max (max left right) 1
     in of_nat shorter / of_nat longer \<ge> (72 / 100 :: rat))"

definition ends_with :: "string \<Rightarrow> string \<Rightarrow> bool" where
  "ends_with p s \<longleftrightarrow> length p \<le> length s \<and> drop (length s - length p) s = p"

definition stripPlural :: "string \<Rightarrow> string" where
  "stripPlural v =
    (if ends_with ''ies'' v \<and> length v > 3 then take (length v - 3) v @ ''y''
     else if ends_with ''es'' v \<and> length v > 2 then take (length v - 2) v
     else if ends_with ''s'' v \<and> length v > 1 then take (length v - 1) v
     else v)"

definition isPluralisationVariant :: "string \<Rightarrow> string \<Rightarrow> bool" where
  "isPluralisationVariant a b \<longleftrightarrow>
    (let left = normaliseSegment a; right = normaliseSegment b in
     left \<noteq> right \<and> (stripPlural left = right \<or> stripPlural right = left))"

text \<open>\<open>oneInsertionAway\<close> on the shorter and the longer text, with what is left to compare.\<close>

fun insertion_loop :: "string \<Rightarrow> string \<Rightarrow> bool \<Rightarrow> bool" where
  "insertion_loop [] [] skipped = True"
| "insertion_loop [] (y # ys) skipped = (if skipped then False else insertion_loop [] ys True)"
| "insertion_loop (x # xs) [] skipped = False"
| "insertion_loop (x # xs) (y # ys) skipped =
     (if x = y then insertion_loop xs ys skipped
      else if skipped then False else insertion_loop (x # xs) ys True)"

definition oneInsertionAway :: "string \<Rightarrow> string \<Rightarrow> bool" where
  "oneInsertionAway a b =
     (if length a \<le> length b then insertion_loop a b False else insertion_loop b a False)"

definition oneTranspositionAway :: "string \<Rightarrow> string \<Rightarrow> bool" where
  "oneTranspositionAway a b \<longleftrightarrow>
    (let char_at = (\<lambda>s i. if i < length s then Some (s ! i) else None) in
     case filter (\<lambda>i. Some (a ! i) \<noteq> char_at b i) [0..<length a] of
       [i, j] \<Rightarrow> Some (a ! i) = char_at b j \<and> Some (a ! j) = char_at b i
     | _ \<Rightarrow> False)"

definition editPatternReasons :: "string \<Rightarrow> string \<Rightarrow> string list" where
  "editPatternReasons requested candidate =
    (if requested = candidate then []
     else if (length requested = Suc (length candidate) \<or> length candidate = Suc (length requested)) \<and>
        oneInsertionAway requested candidate
       then [if length requested < length candidate then ''missing_character'' else ''extra_character'']
     else if length requested = length candidate \<and> oneTranspositionAway requested candidate
       then [''transposed_characters'']
     else [])"

definition visual_char :: "char \<Rightarrow> char" where
  "visual_char c =
    (if c \<in> {CHR ''0'', CHR ''o''} then CHR ''o''
     else if c \<in> {CHR ''1'', CHR ''i'', CHR ''l''} then CHR ''l''
     else if c \<in> {CHR ''5'', CHR ''s''} then CHR ''s''
     else if c \<in> {CHR ''2'', CHR ''z''} then CHR ''z''
     else if c \<in> {CHR ''8'', CHR ''b''} then CHR ''b''
     else c)"

definition normaliseVisual :: "string \<Rightarrow> string" where
  "normaliseVisual v = map visual_char (normaliseName v)"

section \<open>Signals\<close>

record popular_package =
  pk_name :: string
  pk_weeklyDownloads :: "rat option"
  pk_aliases :: "string list"

record popular_index =
  px_popularPackages :: "popular_package list"
  px_knownConfusions :: "(string \<times> string) list"

record squatting_signal =
  sq_candidate :: string
  sq_similarity :: rat
  sq_jaroWinklerSimilarity :: rat
  sq_distance :: nat
  sq_weeklyDownloads :: "rat option"
  sq_reasons :: "string list"
  sq_suggestedPackage :: string

record name_score =
  ns_name :: string
  ns_editSimilarity :: rat
  ns_jaroWinkler :: rat
  ns_distance :: nat

definition score_name :: "string \<Rightarrow> string \<Rightarrow> name_score" where
  "score_name packageName name = \<lparr>ns_name = name, ns_editSimilarity = similarity packageName name,
     ns_jaroWinkler = jaroWinklerSimilarity packageName name,
     ns_distance = damerauLevenshtein (normaliseName packageName) (normaliseName name)\<rparr>"

definition best_score :: "string \<Rightarrow> popular_package \<Rightarrow> name_score" where
  "best_score packageName candidate =
     hd (sort_key (\<lambda>s. - max (ns_editSimilarity s) (ns_jaroWinkler s))
       (map (score_name packageName) (pk_name candidate # pk_aliases candidate)))"

definition scope_confusion :: "package_parts \<Rightarrow> package_parts \<Rightarrow> bool" where
  "scope_confusion requested candidate \<longleftrightarrow> pp_name requested \<noteq> [] \<and> pp_name candidate \<noteq> [] \<and>
     pp_scope requested \<noteq> pp_scope candidate \<and>
     normaliseName (pp_name requested) = normaliseName (pp_name candidate)"

definition similar_scope :: "package_parts \<Rightarrow> package_parts \<Rightarrow> bool" where
  "similar_scope requested candidate \<longleftrightarrow>
    (case (pp_scope requested, pp_scope candidate) of
       (Some s, Some t) \<Rightarrow> s \<noteq> [] \<and> t \<noteq> [] \<and> max (similarity s t) (jaroWinklerSimilarity s t) \<ge> 75 / 100
     | _ \<Rightarrow> False)"

definition squatting_reasons :: "popular_index \<Rightarrow> string \<Rightarrow> popular_package \<Rightarrow> string list" where
  "squatting_reasons index packageName candidate =
    (let requested = splitPackageName packageName;
         candidateParts = splitPackageName (pk_name candidate);
         best = best_score packageName candidate;
         scopeConfusion = scope_confusion requested candidateParts;
         distance = damerauLevenshtein (normaliseName packageName) (normaliseName (pk_name candidate));
         reason = (\<lambda>b r. if b then [r] else [])
     in reason (scopeConfusion \<or> ns_editSimilarity best \<ge> 82 / 100 \<and> hasComparableLength packageName (ns_name best))
          ''high_name_similarity'' @
        reason (ns_jaroWinkler best \<ge> 9 / 10 \<and> ns_distance best \<le> 2) ''high_jaro_winkler_similarity'' @
        reason (map_of (px_knownConfusions index) (js_lower packageName) = Some (pk_name candidate) \<or>
          list_ex (\<lambda>al. js_lower al = js_lower packageName) (pk_aliases candidate)) ''known_ecosystem_confusion'' @
        reason scopeConfusion ''scope_confusion'' @
        reason (pp_name requested \<noteq> pp_name candidateParts \<and>
          strip_separators (pp_name requested) = strip_separators (pp_name candidateParts))
          ''hyphen_or_underscore_variant'' @
        reason (isPluralisationVariant (pp_name requested) (pp_name candidateParts)) ''pluralisation_variant'' @
        reason (similar_scope requested candidateParts) ''similar_scope'' @
        editPatternReasons (normaliseName packageName) (normaliseName (pk_name candidate)) @
        reason (normaliseVisual packageName = normaliseVisual (pk_name candidate) \<and>
          normaliseName packageName \<noteq> normaliseName (pk_name candidate)) ''visual_similarity'' @
        reason (distance \<le> 2) ''short_edit_distance'')"

text \<open>\<open>[...new Set(xs)]\<close> keeps the first occurrences.\<close>

definition unique :: "'a list \<Rightarrow> 'a list" where
  "unique xs = rev (remdups (rev xs))"

definition signals_for :: "popular_index \<Rightarrow> string \<Rightarrow> popular_package \<Rightarrow> squatting_signal list" where
  "signals_for index packageName candidate =
    (let requested = splitPackageName packageName;
         candidateParts = splitPackageName (pk_name candidate) in
     if isTrustedScopeMirror requested candidateParts then []
     else
       (let best = best_score packageName candidate;
            top = max (ns_editSimilarity best) (ns_jaroWinkler best);
            score = (if scope_confusion requested candidateParts then max top 1 else top)
        in [\<lparr>sq_candidate = pk_name candidate, sq_similarity = fixed3 score,
             sq_jaroWinklerSimilarity = ns_jaroWinkler best,
             sq_distance = damerauLevenshtein (normaliseName packageName) (normaliseName (pk_name candidate)),
             sq_weeklyDownloads = pk_weeklyDownloads candidate,
             sq_reasons = unique (squatting_reasons index packageName candidate),
             sq_suggestedPackage = pk_name candidate\<rparr>]))"

definition detectNameSquatting :: "string \<Rightarrow> popular_index \<Rightarrow> squatting_signal list" where
  "detectNameSquatting packageName index =
     sort_key (\<lambda>s. - sq_similarity s)
       (filter (\<lambda>s. sq_reasons s \<noteq> [])
         (concat (map (signals_for index packageName)
           (filter (\<lambda>c. pk_name c \<noteq> packageName) (px_popularPackages index)))))"

end
