(* ===== verification/Registry_Gateway.thy ===== *)
theory Registry_Gateway
  imports Registry_Store Registry_Names
begin

text \<open>
  The registry gateway: \<open>mezair-registry/apps/gateway/src/app.ts\<close> and the metadata functions of
  \<open>mezair-registry/packages/npm-registry\<close>. A handler is a computation on the gateway's state: the
  memory persistence, the memory queue, the file object store and the number of clock readings so
  far. What the gateway asks of the outside (the upstream registry, the download statistics, the
  clock, semantic versions) is the environment, an argument; an upstream answer may depend on the
  time it is asked for. A throw of a handler is the answer 500 of the HTTP framework.
\<close>

section \<open>Metadata\<close>

record npm_version =
  nv_tarball :: "string option"
  nv_integrity :: "string option"
  nv_shasum :: "string option"
  nv_attestations :: js
  nv_dist_provenance :: js
  nv_provenance :: js

record npm_metadata =
  nm_name :: string
  nm_distTags :: "(string \<times> string) list"
  nm_time :: "(string \<times> string) list option"
  nm_versions :: "(string \<times> npm_version) list"

definition getObjectString :: "js \<Rightarrow> string \<Rightarrow> js" where
  "getObjectString v key = (if isObject v \<and> isString (jget v key) then jget v key else JUndef)"

definition extractProvenance :: "npm_version \<Rightarrow> provenance" where
  "extractProvenance nv =
    (if truthy (nv_attestations nv) then
       \<lparr>pv_present = True, pv_source = JStr ''dist.attestations'',
        pv_attestationUrl = getObjectString (nv_attestations nv) ''url''\<rparr>
     else if truthy (nv_dist_provenance nv) then
       \<lparr>pv_present = True, pv_source = JStr ''dist.provenance'', pv_attestationUrl = JUndef\<rparr>
     else if truthy (nv_provenance nv) then
       \<lparr>pv_present = True, pv_source = JStr ''version.provenance'', pv_attestationUrl = JUndef\<rparr>
     else \<lparr>pv_present = False, pv_source = JUndef, pv_attestationUrl = JUndef\<rparr>)"

definition time_of :: "npm_metadata \<Rightarrow> string \<Rightarrow> string option" where
  "time_of m version = (case nm_time m of None \<Rightarrow> None | Some ts \<Rightarrow> map_of ts version)"

definition toVersionMetadata :: "npm_metadata \<Rightarrow> string \<Rightarrow> version_metadata option" where
  "toVersionMetadata m version = (case map_of (nm_versions m) version of None \<Rightarrow> None
     | Some nv \<Rightarrow> Some \<lparr>vm_publishedAt = time_of m version, vm_tarballUrl = nv_tarball nv,
         vm_integrity = nv_integrity nv, vm_shasum = nv_shasum nv,
         vm_provenance = Some (extractProvenance nv)\<rparr>)"

definition calculatePackageAgeDays :: "platform \<Rightarrow> string option \<Rightarrow> int \<Rightarrow> rat option" where
  "calculatePackageAgeDays pf publishedAt now =
    (if \<not> given publishedAt then None else
     case parse_date pf publishedAt of None \<Rightarrow> None
     | Some t \<Rightarrow> Some (max 0 (of_int (now - t) / day_ms)))"

text \<open>The last segment of a path or URL.\<close>

definition last_segment :: "string \<Rightarrow> string" where
  "last_segment s = last (js_split CHR ''/'' s)"

definition resolveVersionFromTarballName :: "npm_metadata \<Rightarrow> string \<Rightarrow> string option" where
  "resolveVersionFromTarballName m tarballName =
     map_option fst (find (\<lambda>(_, nv). map_option last_segment (nv_tarball nv) = Some (last_segment tarballName))
       (nm_versions m))"

definition resolveMetadataVersion :: "npm_metadata \<Rightarrow> string \<Rightarrow> string option" where
  "resolveMetadataVersion m requested =
    (if map_of (nm_versions m) requested \<noteq> None then Some requested else map_of (nm_distTags m) requested)"

record semver =
  sv_valid :: "string \<Rightarrow> bool"
  sv_rsort :: "string list \<Rightarrow> string list"

definition newest_allowed :: "semver \<Rightarrow> string list \<Rightarrow> string option" where
  "newest_allowed sv allowed = (case sv_rsort sv (filter (sv_valid sv) allowed) of [] \<Rightarrow> None
     | v # _ \<Rightarrow> if v = [] then None else Some v)"

definition retag :: "string option \<Rightarrow> string list \<Rightarrow> string \<times> string \<Rightarrow> (string \<times> string) list \<Rightarrow> (string \<times> string) list" where
  "retag newest allowed entry tags = (case entry of (tag, version) \<Rightarrow>
     if version \<in> set allowed then tags
     else (case newest of Some v \<Rightarrow> AList.update tag v tags | None \<Rightarrow> AList.delete tag tags))"

definition rewriteDistTags :: "semver \<Rightarrow> (string \<times> string) list \<Rightarrow> string list \<Rightarrow> (string \<times> string) list" where
  "rewriteDistTags sv distTags allowed =
    (let newest = newest_allowed sv allowed;
         rewritten = fold (retag newest allowed) distTags distTags
     in if \<not> given (map_of rewritten ''latest'') \<and> newest \<noteq> None
        then AList.update ''latest'' (the newest) rewritten else rewritten)"

definition hide_version :: "string \<Rightarrow> npm_metadata \<Rightarrow> npm_metadata" where
  "hide_version version m = m\<lparr>nm_versions := AList.delete version (nm_versions m),
     nm_time := map_option (AList.delete version) (nm_time m)\<rparr>"

definition hidden_action :: "bool \<Rightarrow> policy_action \<Rightarrow> bool" where
  "hidden_action hideQuarantined a \<longleftrightarrow> a = Block \<or> hideQuarantined \<and> a = Quarantine"

definition filterMetadataVersions ::
    "semver \<Rightarrow> npm_metadata \<Rightarrow> (string \<times> policy_decision) list \<Rightarrow> bool \<Rightarrow> npm_metadata" where
  "filterMetadataVersions sv m decisions hideQuarantined =
    (let filtered = fold (\<lambda>(version, d) m'. if hidden_action hideQuarantined (pd_action d)
           then hide_version version m' else m') decisions m
     in filtered\<lparr>nm_distTags := rewriteDistTags sv (nm_distTags filtered) (map fst (nm_versions filtered))\<rparr>)"

definition trimTrailingSlash :: "string \<Rightarrow> string" where
  "trimTrailingSlash v = rev (dropWhile (\<lambda>c. c = CHR ''/'') (rev v))"

definition tarballProxyUrl :: "platform \<Rightarrow> string \<Rightarrow> string \<Rightarrow> string \<Rightarrow> string option" where
  "tarballProxyUrl pf publicBaseUrl packageName upstream =
    (let tarballName = last_segment upstream; base = trimTrailingSlash publicBaseUrl in
     if tarballName = [] then None
     else if \<not> starts_with ''@'' packageName then
       Some (base @ ''/'' @ pf_uri_enc pf packageName @ ''/-/'' @ pf_uri_enc pf tarballName)
     else (let parts = js_split CHR ''/'' (drop 1 packageName);
               scope = hd parts; name = (case tl parts of [] \<Rightarrow> [] | n # _ \<Rightarrow> n)
           in Some (base @ ''/@'' @ pf_uri_enc pf scope @ ''/'' @ pf_uri_enc pf name @ ''/-/'' @ pf_uri_enc pf tarballName)))"

fun rewrite_versions ::
    "platform \<Rightarrow> string \<Rightarrow> string \<Rightarrow> (string \<times> npm_version) list \<Rightarrow> (string \<times> npm_version) list option" where
  "rewrite_versions pf base name [] = Some []"
| "rewrite_versions pf base name ((v, nv) # rest) =
    (if \<not> given (nv_tarball nv) then map_option (Cons (v, nv)) (rewrite_versions pf base name rest)
     else (case tarballProxyUrl pf base name (text_of (nv_tarball nv)) of None \<Rightarrow> None
       | Some url \<Rightarrow> map_option (Cons (v, nv\<lparr>nv_tarball := Some url\<rparr>)) (rewrite_versions pf base name rest)))"

definition rewriteMetadataTarballs :: "platform \<Rightarrow> npm_metadata \<Rightarrow> string \<Rightarrow> npm_metadata option" where
  "rewriteMetadataTarballs pf m publicBaseUrl =
     map_option (\<lambda>vs. m\<lparr>nm_versions := vs\<rparr>) (rewrite_versions pf publicBaseUrl (nm_name m) (nm_versions m))"

section \<open>Jobs\<close>

definition name_char :: "char \<Rightarrow> bool" where
  "name_char c \<longleftrightarrow> is_digit c \<or> is_lower c \<or> is_upper c \<or> c \<in> {CHR ''.'', CHR ''_'', CHR ''~'', CHR ''-''}"

definition alnum :: "char \<Rightarrow> bool" where
  "alnum c \<longleftrightarrow> is_digit c \<or> is_lower c \<or> is_upper c"

definition valid_part :: "string \<Rightarrow> bool" where
  "valid_part s \<longleftrightarrow> (case s of [] \<Rightarrow> False | c # cs \<Rightarrow> alnum c \<and> list_all name_char cs)"

definition isValidPackageName :: "string \<Rightarrow> bool" where
  "isValidPackageName s =
    (if starts_with ''@'' s then
       (case js_split CHR ''/'' (drop 1 s) of [scope, name] \<Rightarrow> valid_part scope \<and> valid_part name | _ \<Rightarrow> False)
     else valid_part s)"

definition isValidVersionRef :: "string \<Rightarrow> bool" where
  "isValidVersionRef s \<longleftrightarrow> (case s of [] \<Rightarrow> False
     | c # cs \<Rightarrow> alnum c \<and> list_all (\<lambda>d. name_char d \<or> d = CHR ''+'') cs)"

datatype job_reason = MetadataRequest | TarballRequest | LockfileScan | ManualReview

datatype job_priority = PrLow | PrNormal | PrHigh

record analysis_job =
  aj_packageName :: string
  aj_version :: string
  aj_requestedBy :: "string option"
  aj_reason :: job_reason
  aj_priority :: job_priority
  aj_runLlmReview :: "bool option"
  aj_createdAt :: string

text \<open>The checks of \<open>analysisJobSchema\<close> on the fields of a typed job; they also trim.\<close>

definition required_trimmed :: "nat \<Rightarrow> string \<Rightarrow> string option" where
  "required_trimmed limit s = (let t = js_trim s in if t \<noteq> [] \<and> length t \<le> limit then Some t else None)"

definition package_name_string :: "string \<Rightarrow> string option" where
  "package_name_string s = (case required_trimmed 214 s of None \<Rightarrow> None
     | Some t \<Rightarrow> if isValidPackageName t then Some t else None)"

definition version_ref_string :: "string \<Rightarrow> string option" where
  "version_ref_string s = (case required_trimmed 128 s of None \<Rightarrow> None
     | Some t \<Rightarrow> if isValidVersionRef t then Some t else None)"

definition normalizeAnalysisJob :: "analysis_job \<Rightarrow> analysis_job option" where
  "normalizeAnalysisJob job =
    (case (package_name_string (aj_packageName job), version_ref_string (aj_version job),
        required_trimmed 100 (aj_createdAt job)) of
       (Some p, Some v, Some c) \<Rightarrow> Some (job\<lparr>aj_packageName := p, aj_version := v, aj_createdAt := c\<rparr>)
     | _ \<Rightarrow> None)"

section \<open>The gateway\<close>

definition STATIC_ANALYSER_VERSION :: string where
  "STATIC_ANALYSER_VERSION = ''static-2026-08-09.2''"

definition metadataPolicyAnalyserVersion :: string where
  "metadataPolicyAnalyserVersion = ''metadata-policy-2026-05-20.1''"

definition installPolicyAnalyserVersion :: string where
  "installPolicyAnalyserVersion = ''install-policy-2026-05-21.1''"

record gateway_env =
  ge_platform :: platform
  ge_semver :: semver
  ge_clock :: "nat \<Rightarrow> int"
  ge_runtimeMode :: runtime_mode
  ge_policy :: policy_config
  ge_adminToken :: "string option"
  ge_metadataTtlSeconds :: int
  ge_publicBaseUrl :: string
  ge_popularIndex :: popular_index
  ge_fetchMetadata :: "nat \<Rightarrow> string \<Rightarrow> npm_metadata option"
  ge_fetchTarball :: "nat \<Rightarrow> string \<Rightarrow> bytes option"
  ge_weeklyDownloads :: "nat \<Rightarrow> string \<Rightarrow> rat option"

record gateway =
  gw_store :: "npm_metadata reg_store"
  gw_queue :: "analysis_job list"
  gw_objects :: "(string \<times> bytes) list"
  gw_tick :: nat

datatype gateway_error = PolicyFailed policy_error | UpstreamFailed | InvalidJob | NoTarballName

type_synonym 'a gateway_op = "(gateway, gateway_error, 'a) comp"

definition read_clock :: "gateway_env \<Rightarrow> int gateway_op" where
  "read_clock env s = (Inr (ge_clock env (gw_tick s)), s\<lparr>gw_tick := Suc (gw_tick s)\<rparr>)"

definition on_store :: "(npm_metadata reg_store \<Rightarrow> npm_metadata reg_store) \<Rightarrow> unit gateway_op" where
  "on_store f = modify (\<lambda>s. s\<lparr>gw_store := f (gw_store s)\<rparr>)"

definition ask_store :: "(npm_metadata reg_store \<Rightarrow> 'a) \<Rightarrow> 'a gateway_op" where
  "ask_store f = gets (\<lambda>s. f (gw_store s))"

definition put_audit :: "gateway_env \<Rightarrow> audit_event \<Rightarrow> unit gateway_op" where
  "put_audit env e = bindE (read_clock env) (\<lambda>now. on_store (putAuditEvent now e))"

definition enqueueAnalysisJob :: "analysis_job \<Rightarrow> unit gateway_op" where
  "enqueueAnalysisJob job = (case normalizeAnalysisJob job of None \<Rightarrow> throw InvalidJob
     | Some j \<Rightarrow> modify (\<lambda>s. s\<lparr>gw_queue := gw_queue s @ [j]\<rparr>))"

subsection \<open>Caches\<close>

definition isFreshMetadata :: "int \<Rightarrow> int \<Rightarrow> int \<Rightarrow> bool" where
  "isFreshMetadata now updatedAt ttlSeconds \<longleftrightarrow> ttlSeconds \<noteq> 0 \<and> now - updatedAt \<le> ttlSeconds * 1000"

definition refreshMetadata :: "gateway_env \<Rightarrow> string \<Rightarrow> npm_metadata gateway_op" where
  "refreshMetadata env packageName = bindE (gets gw_tick) (\<lambda>k.
     (case ge_fetchMetadata env k packageName of
        None \<Rightarrow> throw UpstreamFailed
      | Some m \<Rightarrow> bindE (read_clock env) (\<lambda>now. thenE (on_store (putMetadata now packageName m)) (ret m))))"

definition fetchMetadata :: "gateway_env \<Rightarrow> string \<Rightarrow> npm_metadata gateway_op" where
  "fetchMetadata env packageName =
     bindE (ask_store (getMetadataRecord packageName)) (\<lambda>cached.
     bindE (read_clock env) (\<lambda>now.
       (case cached of
          Some (m, updatedAt) \<Rightarrow>
            if isFreshMetadata now updatedAt (ge_metadataTtlSeconds env) then ret m
            else refreshMetadata env packageName
        | None \<Rightarrow> refreshMetadata env packageName)))"

definition version_inputs :: "npm_metadata \<Rightarrow> rat option \<Rightarrow> version_input list" where
  "version_inputs m weeklyDownloads = List.map_filter (\<lambda>version.
     map_option (\<lambda>vm. \<lparr>vi_packageName = nm_name m, vi_version = version, vi_publishedAt = vm_publishedAt vm,
       vi_tarballUrl = vm_tarballUrl vm, vi_integrity = vm_integrity vm, vi_shasum = vm_shasum vm,
       vi_weeklyDownloads = weeklyDownloads, vi_cachedTarballKey = None\<rparr>) (toVersionMetadata m version))
     (map fst (nm_versions m))"

definition put_version :: "gateway_env \<Rightarrow> version_input \<Rightarrow> unit gateway_op" where
  "put_version env v = bindE (read_clock env) (\<lambda>created. bindE (read_clock env) (\<lambda>updated.
     on_store (putPackageVersion created updated v)))"

definition persistPackageVersions :: "gateway_env \<Rightarrow> npm_metadata \<Rightarrow> rat option \<Rightarrow> unit gateway_op" where
  "persistPackageVersions env m weeklyDownloads =
     thenE (seqE (map (put_version env) (version_inputs m weeklyDownloads))) (ret ())"

text \<open>The download statistics; a failed query counts as unknown downloads.\<close>

definition safeWeeklyDownloads :: "gateway_env \<Rightarrow> string \<Rightarrow> rat option gateway_op" where
  "safeWeeklyDownloads env packageName = gets (\<lambda>s. ge_weeklyDownloads env (gw_tick s) packageName)"

text \<open>The tarball cache of the file object store.\<close>

definition replace_chars :: "char set \<Rightarrow> string \<Rightarrow> string \<Rightarrow> string" where
  "replace_chars cs by s = concat (map (\<lambda>c. if c \<in> cs then by else [c]) s)"

definition tarballCacheKey :: "string \<Rightarrow> string \<Rightarrow> string \<Rightarrow> string" where
  "tarballCacheKey packageName version integrity =
    (let safeName = replace_chars {CHR ''/'', CHR '':''} ''__''
           (if starts_with ''@'' packageName then drop 1 packageName else packageName);
         safeIntegrity = replace_chars {CHR ''/'', CHR '':'', CHR ''+'', CHR ''=''} ''_'' integrity
     in ''tarballs/'' @ safeName @ ''/'' @ version @ ''/'' @ safeIntegrity @ ''.tgz'')"

subsection \<open>Decisions\<close>

definition job_reason_str :: "job_reason \<Rightarrow> string" where
  "job_reason_str r = (case r of MetadataRequest \<Rightarrow> ''metadata_request'' | TarballRequest \<Rightarrow> ''tarball_request''
     | LockfileScan \<Rightarrow> ''lockfile_scan'' | ManualReview \<Rightarrow> ''manual_review'')"

definition priority_str :: "job_priority \<Rightarrow> string" where
  "priority_str p = (case p of PrLow \<Rightarrow> ''low'' | PrNormal \<Rightarrow> ''normal'' | PrHigh \<Rightarrow> ''high'')"

definition identity_fields :: "tarball_identity \<Rightarrow> (string \<times> js) list" where
  "identity_fields i = [(''tarballIntegrity'', opt_js (ti_tarballIntegrity i)),
     (''tarballShasum'', opt_js (ti_tarballShasum i)), (''analyserVersion'', opt_js (ti_analyserVersion i))]"

definition shouldRequireAnalysisBeforeInstall :: "gateway_env \<Rightarrow> job_reason \<Rightarrow> analysis_report option \<Rightarrow> bool" where
  "shouldRequireAnalysisBeforeInstall env reason analysisReport \<longleftrightarrow>
     reason = TarballRequest \<and> analysisReport = None \<and> ge_runtimeMode env \<noteq> Development"

definition recent_enqueue :: "job_reason \<Rightarrow> tarball_identity \<Rightarrow> audit_record \<Rightarrow> bool" where
  "recent_enqueue reason i e \<longleftrightarrow>
    (let meta = JObj (ae_metadata e) in
     ae_eventType e = ''analysis.enqueued'' \<and> jget meta ''source'' = JStr ''gateway-auto'' \<and>
     jget meta ''reason'' = JStr (job_reason_str reason) \<and>
     jget meta ''tarballIntegrity'' = opt_js (ti_tarballIntegrity i) \<and>
     jget meta ''tarballShasum'' = opt_js (ti_tarballShasum i) \<and>
     jget meta ''analyserVersion'' = opt_js (ti_analyserVersion i))"

definition hasRecentAnalysisEnqueue :: "string \<Rightarrow> string \<Rightarrow> job_reason \<Rightarrow> tarball_identity \<Rightarrow> bool gateway_op" where
  "hasRecentAnalysisEnqueue packageName version reason i =
     ask_store (\<lambda>st. list_ex (recent_enqueue reason i) (listAuditEvents (packageVersionKey packageName version) 25 st))"

definition enqueue_now :: "gateway_env \<Rightarrow> string \<Rightarrow> string \<Rightarrow> job_reason \<Rightarrow> job_priority \<Rightarrow> tarball_identity \<Rightarrow> unit gateway_op" where
  "enqueue_now env packageName version reason priority i =
     bindE (read_clock env) (\<lambda>now.
     thenE (enqueueAnalysisJob \<lparr>aj_packageName = packageName, aj_version = version, aj_requestedBy = None,
         aj_reason = reason, aj_priority = priority, aj_runLlmReview = None,
         aj_createdAt = pf_iso (ge_platform env) now\<rparr>)
       (if reason = TarballRequest then
          put_audit env \<lparr>ae_actor = ''mezair-gateway'', ae_eventType = ''analysis.enqueued'', ae_targetType = ''package'',
            ae_targetId = packageVersionKey packageName version,
            ae_metadata = [(''source'', JStr ''gateway-auto''), (''reason'', JStr (job_reason_str reason)),
              (''priority'', JStr (priority_str priority))] @ identity_fields i\<rparr>
        else ret ()))"

definition enqueueAnalysisJobIfNeeded ::
    "gateway_env \<Rightarrow> string \<Rightarrow> string \<Rightarrow> job_reason \<Rightarrow> job_priority \<Rightarrow> tarball_identity \<Rightarrow> unit gateway_op" where
  "enqueueAnalysisJobIfNeeded env packageName version reason priority i =
    (if reason = TarballRequest then
       bindE (hasRecentAnalysisEnqueue packageName version reason i) (\<lambda>recent.
         if recent then ret () else enqueue_now env packageName version reason priority i)
     else enqueue_now env packageName version reason priority i)"

primrec policy_code_str :: "policy_code \<Rightarrow> string" where
  "policy_code_str PACKAGE_TOO_NEW = ''PACKAGE_TOO_NEW''"
| "policy_code_str LOW_WEEKLY_DOWNLOADS = ''LOW_WEEKLY_DOWNLOADS''"
| "policy_code_str SIMILAR_TO_POPULAR_PACKAGE = ''SIMILAR_TO_POPULAR_PACKAGE''"
| "policy_code_str NEW_PACKAGE_LOW_DOWNLOADS = ''NEW_PACKAGE_LOW_DOWNLOADS''"
| "policy_code_str NEW_INSTALL_SCRIPT = ''NEW_INSTALL_SCRIPT''"
| "policy_code_str INSTALL_SCRIPT_CHANGED = ''INSTALL_SCRIPT_CHANGED''"
| "policy_code_str NEW_DEPENDENCY_IN_PATCH_VERSION = ''NEW_DEPENDENCY_IN_PATCH_VERSION''"
| "policy_code_str RUNTIME_DEPENDENCY_CHANGED = ''RUNTIME_DEPENDENCY_CHANGED''"
| "policy_code_str DEV_DEPENDENCY_CHANGED = ''DEV_DEPENDENCY_CHANGED''"
| "policy_code_str PACKAGE_MANIFEST_CHANGED = ''PACKAGE_MANIFEST_CHANGED''"
| "policy_code_str MANIFEST_FIELD_CHANGED = ''MANIFEST_FIELD_CHANGED''"
| "policy_code_str BIN_FIELD_CHANGED = ''BIN_FIELD_CHANGED''"
| "policy_code_str OPTIONAL_DEPENDENCY_ADDED = ''OPTIONAL_DEPENDENCY_ADDED''"
| "policy_code_str OPTIONAL_DEPENDENCY_CHANGED = ''OPTIONAL_DEPENDENCY_CHANGED''"
| "policy_code_str PEER_DEPENDENCY_CHANGED = ''PEER_DEPENDENCY_CHANGED''"
| "policy_code_str SUSPICIOUS_FILE_ADDED = ''SUSPICIOUS_FILE_ADDED''"
| "policy_code_str UNSAFE_TARBALL_PATH = ''UNSAFE_TARBALL_PATH''"
| "policy_code_str UNSAFE_TARBALL_SYMLINK = ''UNSAFE_TARBALL_SYMLINK''"
| "policy_code_str LARGE_FILE_SIZE_DELTA = ''LARGE_FILE_SIZE_DELTA''"
| "policy_code_str OBFUSCATED_CODE_DETECTED = ''OBFUSCATED_CODE_DETECTED''"
| "policy_code_str UNEXPECTED_BINARY_FILE = ''UNEXPECTED_BINARY_FILE''"
| "policy_code_str USES_CHILD_PROCESS = ''USES_CHILD_PROCESS''"
| "policy_code_str USES_PROCESS_ENV = ''USES_PROCESS_ENV''"
| "policy_code_str SENSITIVE_FILE_ACCESS_IN_INSTALL_PATH = ''SENSITIVE_FILE_ACCESS_IN_INSTALL_PATH''"
| "policy_code_str NETWORK_ACCESS_IN_INSTALL_PATH = ''NETWORK_ACCESS_IN_INSTALL_PATH''"
| "policy_code_str REPOSITORY_CHANGED = ''REPOSITORY_CHANGED''"
| "policy_code_str PROVENANCE_MISSING = ''PROVENANCE_MISSING''"
| "policy_code_str PROVENANCE_CHANGED = ''PROVENANCE_CHANGED''"
| "policy_code_str PROVENANCE_SUBJECT_MISMATCH = ''PROVENANCE_SUBJECT_MISMATCH''"
| "policy_code_str TRUSTED_PUBLISHING_PRESENT = ''TRUSTED_PUBLISHING_PRESENT''"
| "policy_code_str ANALYSIS_REQUIRED = ''ANALYSIS_REQUIRED''"
| "policy_code_str LLM_RISK_REVIEW_FLAGGED = ''LLM_RISK_REVIEW_FLAGGED''"
| "policy_code_str APPROVED_OVERRIDE = ''APPROVED_OVERRIDE''"

definition action_str :: "policy_action \<Rightarrow> string" where
  "action_str a = (case a of Allow \<Rightarrow> ''allow'' | Warn \<Rightarrow> ''warn'' | Quarantine \<Rightarrow> ''quarantine'' | Block \<Rightarrow> ''block'')"

definition decision_event :: "string \<Rightarrow> string \<Rightarrow> string \<Rightarrow> string \<Rightarrow> string \<Rightarrow> policy_decision \<Rightarrow> tarball_identity \<Rightarrow> audit_event" where
  "decision_event actor source packageName version policyVersion d i =
    \<lparr>ae_actor = actor, ae_eventType = ''policy.decision'', ae_targetType = ''package'',
     ae_targetId = packageVersionKey packageName version,
     ae_metadata = [(''source'', JStr source), (''action'', JStr (action_str (pd_action d))),
       (''score'', JNum (Fin (pd_score d))), (''policyVersion'', JStr policyVersion),
       (''analyserVersion'', opt_js (ti_analyserVersion i)), (''tarballIntegrity'', opt_js (ti_tarballIntegrity i)),
       (''tarballShasum'', opt_js (ti_tarballShasum i)),
       (''reasonCodes'', JArr (map (\<lambda>r. JStr (policy_code_str (pr_code r))) (pd_reasons d)))]\<rparr>"

definition similar_packages :: "gateway_env \<Rightarrow> string \<Rightarrow> similar_package list" where
  "similar_packages env packageName =
     map (\<lambda>s. \<lparr>sp_name = sq_candidate s, sp_similarity = sq_similarity s,
         sp_reasons = JArr (map JStr (sq_reasons s)), sp_suggestedPackage = Some (sq_suggestedPackage s)\<rparr>)
       (detectNameSquatting packageName (ge_popularIndex env))"

definition analysis_identity :: "version_metadata option \<Rightarrow> string \<Rightarrow> tarball_identity" where
  "analysis_identity vm analyser = \<lparr>
     ti_tarballIntegrity = (case vm of None \<Rightarrow> None | Some v \<Rightarrow> vm_integrity v),
     ti_tarballShasum = (case vm of None \<Rightarrow> None | Some v \<Rightarrow> vm_shasum v),
     ti_analyserVersion = Some analyser\<rparr>"

definition report_analyser :: "analysis_report option \<Rightarrow> string \<Rightarrow> string" where
  "report_analyser r fallback = (case r of None \<Rightarrow> fallback | Some ar \<Rightarrow> ar_analyserVersion ar)"

definition gateway_input ::
    "gateway_env \<Rightarrow> npm_metadata \<Rightarrow> string \<Rightarrow> rat option \<Rightarrow> int \<Rightarrow> bool \<Rightarrow> analysis_report option \<Rightarrow>
       llm_review option \<Rightarrow> override option \<Rightarrow> policy_input" where
  "gateway_input env m version weeklyDownloads now analysisRequired analysisReport review ov =
    (let pf = ge_platform env; vm = toVersionMetadata m version in
     \<lparr>pi_packageName = nm_name m, pi_version = version, pi_runtimeMode = ge_runtimeMode env,
      pi_evaluatedAt = Some (pf_iso pf now), pi_versionMetadata = vm, pi_weeklyDownloads = weeklyDownloads,
      pi_packageAgeDays = calculatePackageAgeDays pf (case vm of None \<Rightarrow> None | Some v \<Rightarrow> vm_publishedAt v) now,
      pi_analysisRequired = analysisRequired, pi_analysisReport = analysisReport, pi_llmRiskReview = review,
      pi_override = ov, pi_similarPackages = similar_packages env (nm_name m), pi_policy = ge_policy env\<rparr>)"

text \<open>The evaluation of a version that has no stored decision, and what is stored and queued after it.\<close>

definition record_decision ::
    "gateway_env \<Rightarrow> string \<Rightarrow> string \<Rightarrow> job_reason \<Rightarrow> bool \<Rightarrow> analysis_report option \<Rightarrow> tarball_identity \<Rightarrow>
       policy_decision \<Rightarrow> policy_decision gateway_op" where
  "record_decision env packageName version reason enqueueMetadata analysisReport i d =
    (let policyVersion = pc_version (ge_policy env) in
     bindE (read_clock env) (\<lambda>created.
     thenE (on_store (putPolicyDecision created packageName version policyVersion d i))
     (thenE (put_audit env (decision_event ''mezair-gateway'' (job_reason_str reason) packageName version policyVersion d i))
     (thenE
       (if (if reason = TarballRequest then pd_action d \<noteq> Allow \<or> analysisReport = None
            else enqueueMetadata \<and> pd_action d \<noteq> Allow)
        then enqueueAnalysisJobIfNeeded env packageName version reason
          (if pd_action d = Block then PrHigh else PrNormal) i
        else ret ())
       (ret d)))))"

definition evaluate_version ::
    "gateway_env \<Rightarrow> npm_metadata \<Rightarrow> string \<Rightarrow> job_reason \<Rightarrow> rat option \<Rightarrow> bool \<Rightarrow> bool \<Rightarrow> analysis_report option \<Rightarrow>
       llm_review option \<Rightarrow> tarball_identity \<Rightarrow> policy_decision gateway_op" where
  "evaluate_version env m version reason weeklyDownloads enqueueMetadata analysisRequired analysisReport review i =
     bindE (read_clock env) (\<lambda>evaluatedAt.
     bindE (read_clock env) (\<lambda>now.
     bindE (ask_store (getOverride (ge_platform env) now (nm_name m) version)) (\<lambda>ov.
     bindE (read_clock env) (\<lambda>fallback.
     bindE (lift_sum (map_sum PolicyFailed id (evaluatePolicy (ge_platform env) fallback
       (gateway_input env m version weeklyDownloads evaluatedAt analysisRequired analysisReport review ov))))
     (record_decision env (nm_name m) version reason enqueueMetadata analysisReport i)))))"

definition decision_identity :: "gateway_env \<Rightarrow> npm_metadata \<Rightarrow> string \<Rightarrow> job_reason \<Rightarrow> analysis_report option \<Rightarrow> tarball_identity" where
  "decision_identity env m version reason analysisReport = analysis_identity (toVersionMetadata m version)
     (report_analyser analysisReport
       (if shouldRequireAnalysisBeforeInstall env reason analysisReport then installPolicyAnalyserVersion
        else metadataPolicyAnalyserVersion))"

text \<open>The stored decision of the version, if it has not expired, or a new one.\<close>

definition decide_version ::
    "gateway_env \<Rightarrow> npm_metadata \<Rightarrow> string \<Rightarrow> job_reason \<Rightarrow> rat option \<Rightarrow> bool \<Rightarrow> analysis_report option \<Rightarrow>
       llm_review option \<Rightarrow> policy_decision gateway_op" where
  "decide_version env m version reason weeklyDownloads enqueueMetadata analysisReport review =
    (let packageName = nm_name m; i = decision_identity env m version reason analysisReport in
     bindE (read_clock env) (\<lambda>now.
     bindE (ask_store (getPolicyDecision (ge_platform env) now packageName version (pc_version (ge_policy env)) i)) (\<lambda>existing.
     (case existing of
        Some d \<Rightarrow>
          thenE (if reason = TarballRequest \<and> analysisReport = None \<and> pd_action d = Allow
            then enqueueAnalysisJobIfNeeded env packageName version reason PrNormal i else ret ()) (ret d)
      | None \<Rightarrow> evaluate_version env m version reason weeklyDownloads enqueueMetadata
          (shouldRequireAnalysisBeforeInstall env reason analysisReport) analysisReport review i))))"

definition evaluateAndCache ::
    "gateway_env \<Rightarrow> npm_metadata \<Rightarrow> string \<Rightarrow> job_reason \<Rightarrow> rat option \<Rightarrow> bool \<Rightarrow> policy_decision gateway_op" where
  "evaluateAndCache env m version reason weeklyDownloads enqueueMetadata =
    (let packageName = nm_name m; vm = toVersionMetadata m version in
     bindE (ask_store (getAnalysisReport packageName version (analysis_identity vm STATIC_ANALYSER_VERSION))) (\<lambda>analysisReport.
     bindE (if pc_llmReviewEnabled (ge_policy env)
       then ask_store (listLlmRiskReviews packageName version 1
         (analysis_identity vm (report_analyser analysisReport STATIC_ANALYSER_VERSION)))
       else ret []) (\<lambda>reviews.
     decide_version env m version reason weeklyDownloads enqueueMetadata analysisReport
       (case reviews of [] \<Rightarrow> None | rec # _ \<Rightarrow> Some (lm_review rec)))))"

subsection \<open>Requests\<close>

record mezair_error =
  me_quarantined :: bool
  me_package :: string
  me_version :: string
  me_decision :: policy_action
  me_score :: rat
  me_reasons :: "policy_reason list"
  me_suggestions :: "string list"

datatype gateway_reply =
    RpTarball bytes string
  | RpRefused nat mezair_error
  | RpError nat string
  | RpMetadata npm_metadata
  | RpExplained string policy_decision "analysis_report option" "llm_record list" "override option"
  | RpDone nat

definition suggestion :: "policy_reason \<Rightarrow> string option" where
  "suggestion r = (case jget (pr_evidence r) ''candidate'' of
     JStr s \<Rightarrow> if pr_code r = SIMILAR_TO_POPULAR_PACKAGE then Some s else None | _ \<Rightarrow> None)"

definition buildMezairError :: "string \<Rightarrow> string \<Rightarrow> policy_decision \<Rightarrow> mezair_error" where
  "buildMezairError packageName version d = \<lparr>me_quarantined = (pd_action d = Quarantine), me_package = packageName,
     me_version = version, me_decision = pd_action d, me_score = pd_score d, me_reasons = pd_reasons d,
     me_suggestions = List.map_filter suggestion (pd_reasons d)\<rparr>"

text \<open>The tarball of a version that may be installed: from the cache, or fetched and cached.\<close>

definition serve_tarball :: "gateway_env \<Rightarrow> npm_metadata \<Rightarrow> string \<Rightarrow> string \<Rightarrow> gateway_reply gateway_op" where
  "serve_tarball env m packageName version =
    (case toVersionMetadata m version of
       None \<Rightarrow> ret (RpError 502 ''MEZAIR_UPSTREAM_TARBALL_MISSING'')
     | Some vm \<Rightarrow>
        if \<not> given (vm_tarballUrl vm) then ret (RpError 502 ''MEZAIR_UPSTREAM_TARBALL_MISSING'')
        else
          (let cacheIdentity = (case vm_integrity vm of None \<Rightarrow> vm_shasum vm | Some x \<Rightarrow> Some x);
               cacheKey = (if given cacheIdentity
                 then Some (tarballCacheKey packageName version (text_of cacheIdentity)) else None)
           in bindE (gets (\<lambda>s. case cacheKey of None \<Rightarrow> None | Some k \<Rightarrow> map_of (gw_objects s) k)) (\<lambda>cached.
             (case cached of
                Some body \<Rightarrow> ret (RpTarball body ''hit'')
              | None \<Rightarrow> bindE (gets gw_tick) (\<lambda>k. (case ge_fetchTarball env k (text_of (vm_tarballUrl vm)) of
                  None \<Rightarrow> throw UpstreamFailed
                | Some body \<Rightarrow>
                   (case cacheKey of
                      None \<Rightarrow> ret (RpTarball body ''bypass'')
                    | Some key \<Rightarrow>
                       thenE (modify (\<lambda>s. s\<lparr>gw_objects := AList.update key body (gw_objects s)\<rparr>))
                       (thenE (put_version env \<lparr>vi_packageName = packageName, vi_version = version,
                           vi_publishedAt = None, vi_tarballUrl = None, vi_integrity = None, vi_shasum = None,
                           vi_weeklyDownloads = None, vi_cachedTarballKey = Some key\<rparr>)
                        (ret (RpTarball body ''miss''))))))))))"

definition handleTarballRequest :: "gateway_env \<Rightarrow> string \<Rightarrow> string \<Rightarrow> gateway_reply gateway_op" where
  "handleTarballRequest env packageName tarballName =
     bindE (fetchMetadata env packageName) (\<lambda>m.
     (case resolveVersionFromTarballName m tarballName of
        None \<Rightarrow> ret (RpError 404 ''MEZAIR_TARBALL_VERSION_NOT_FOUND'')
      | Some version \<Rightarrow>
         if version = [] then ret (RpError 404 ''MEZAIR_TARBALL_VERSION_NOT_FOUND'') else
         bindE (safeWeeklyDownloads env packageName) (\<lambda>weeklyDownloads.
         thenE (persistPackageVersions env m weeklyDownloads)
         (bindE (evaluateAndCache env m version TarballRequest weeklyDownloads False) (\<lambda>d.
           if isDecisionBlockingInstall d (ge_runtimeMode env)
           then ret (RpRefused (if pd_action d = Quarantine then 423 else 403) (buildMezairError packageName version d))
           else serve_tarball env m packageName version)))))"

definition evaluate_all :: "gateway_env \<Rightarrow> npm_metadata \<Rightarrow> rat option \<Rightarrow> (string \<times> policy_decision) list gateway_op" where
  "evaluate_all env m weeklyDownloads =
     seqE (map (\<lambda>version. bindE (evaluateAndCache env m version MetadataRequest weeklyDownloads
         (given (map_of (nm_distTags m) ''latest'') \<and> map_of (nm_distTags m) ''latest'' = Some version))
       (\<lambda>d. ret (version, d))) (map fst (nm_versions m)))"

definition handleMetadataRequest :: "gateway_env \<Rightarrow> string \<Rightarrow> gateway_reply gateway_op" where
  "handleMetadataRequest env packageName =
     bindE (fetchMetadata env packageName) (\<lambda>m.
     bindE (safeWeeklyDownloads env packageName) (\<lambda>weeklyDownloads.
     thenE (persistPackageVersions env m weeklyDownloads)
     (bindE (evaluate_all env m weeklyDownloads) (\<lambda>decisions.
       (case rewriteMetadataTarballs (ge_platform env)
          (filterMetadataVersions (ge_semver env) m decisions
            (pc_hideQuarantinedMetadata (ge_policy env) \<or> ge_runtimeMode env \<noteq> Development))
          (ge_publicBaseUrl env) of
          None \<Rightarrow> throw NoTarballName
        | Some m' \<Rightarrow> ret (RpMetadata m'))))))"

definition explainVersion :: "gateway_env \<Rightarrow> string \<Rightarrow> string \<Rightarrow> gateway_reply gateway_op" where
  "explainVersion env packageName requestedVersion =
     bindE (fetchMetadata env packageName) (\<lambda>m.
     (case resolveMetadataVersion m requestedVersion of
        None \<Rightarrow> ret (RpError 404 ''MEZAIR_VERSION_NOT_FOUND'')
      | Some version \<Rightarrow>
         if map_of (nm_versions m) version = None then ret (RpError 404 ''MEZAIR_VERSION_NOT_FOUND'') else
         bindE (safeWeeklyDownloads env packageName) (\<lambda>weeklyDownloads.
         thenE (persistPackageVersions env m weeklyDownloads)
         (bindE (evaluateAndCache env m version MetadataRequest weeklyDownloads False) (\<lambda>d.
          let vm = toVersionMetadata m version in
          bindE (ask_store (getAnalysisReport packageName version (analysis_identity vm STATIC_ANALYSER_VERSION))) (\<lambda>report.
          bindE (ask_store (listLlmRiskReviews packageName version 5
            (analysis_identity vm (report_analyser report STATIC_ANALYSER_VERSION)))) (\<lambda>reviews.
          bindE (read_clock env) (\<lambda>now.
          bindE (ask_store (getOverride (ge_platform env) now packageName version)) (\<lambda>ov.
          ret (RpExplained version d report reviews ov))))))))))"

subsection \<open>Overrides\<close>

text \<open>The request bodies, after \<open>overrideCreateRequestSchema\<close> and \<open>overrideRevokeRequestSchema\<close>.\<close>

definition optional_trimmed :: "nat \<Rightarrow> js \<Rightarrow> string option option" where
  "optional_trimmed limit v = (case v of
      JUndef \<Rightarrow> Some None
    | JStr s \<Rightarrow> (let t = js_trim s in if t = [] then Some None else if length t \<le> limit then Some (Some t) else None)
    | _ \<Rightarrow> None)"

definition optional_version :: "js \<Rightarrow> string option option" where
  "optional_version v = (case optional_trimmed 128 v of None \<Rightarrow> None
     | Some None \<Rightarrow> Some None
     | Some (Some t) \<Rightarrow> if isValidVersionRef t then Some (Some t) else None)"

definition string_field :: "(string \<Rightarrow> string option) \<Rightarrow> js \<Rightarrow> string option" where
  "string_field check v = (case v of JStr s \<Rightarrow> check s | _ \<Rightarrow> None)"

definition action_field :: "js \<Rightarrow> policy_action option" where
  "action_field v = (case v of
      JUndef \<Rightarrow> Some Allow
    | JStr s \<Rightarrow> find (\<lambda>a. action_str a = s) [Allow, Warn, Quarantine, Block]
    | _ \<Rightarrow> None)"

definition strict_object :: "string list \<Rightarrow> js \<Rightarrow> bool" where
  "strict_object allowed body = (case body of JObj kvs \<Rightarrow> list_all (\<lambda>(k, _). k \<in> set allowed) kvs | _ \<Rightarrow> False)"

definition parse_override_create :: "js \<Rightarrow> override option" where
  "parse_override_create body =
    (if \<not> strict_object [''packageName'', ''version'', ''action'', ''reason'', ''approvedBy'', ''expiresAt''] body then None else
     (case (string_field package_name_string (jget body ''packageName''), optional_version (jget body ''version''),
        action_field (jget body ''action''), string_field (required_trimmed 1000) (jget body ''reason''),
        optional_trimmed 200 (jget body ''approvedBy''), optional_trimmed 100 (jget body ''expiresAt'')) of
        (Some p, Some v, Some a, Some r, Some by_whom, Some e) \<Rightarrow>
          Some \<lparr>ov_packageName = p, ov_version = v, ov_action = a, ov_reason = r, ov_approvedBy = by_whom, ov_expiresAt = e\<rparr>
      | _ \<Rightarrow> None))"

definition parse_override_revoke :: "js \<Rightarrow> (string \<times> string option \<times> string option) option" where
  "parse_override_revoke body =
    (if \<not> strict_object [''packageName'', ''version'', ''revokedBy''] body then None else
     (case (string_field package_name_string (jget body ''packageName''), optional_version (jget body ''version''),
        optional_trimmed 200 (jget body ''revokedBy'')) of
        (Some p, Some v, Some by_whom) \<Rightarrow> Some (p, v, by_whom)
      | _ \<Rightarrow> None))"

text \<open>\<open>null\<close> is \<open>Some None\<close> here: an expiry that is not a date; \<open>None\<close> is a date out of range.\<close>

definition resolveOverrideExpiry ::
    "platform \<Rightarrow> string option \<Rightarrow> rat \<Rightarrow> int \<Rightarrow> policy_error + string option option" where
  "resolveOverrideExpiry pf expiresAt defaultExpiryDays now =
    (let explicitExpiry = map_option js_trim expiresAt in
     if given explicitExpiry then
       (case parse_date pf explicitExpiry of None \<Rightarrow> Inr None | Some t \<Rightarrow> map_sum id (Some \<circ> Some) (to_iso pf (of_int t)))
     else if defaultExpiryDays \<le> 0 then Inr (Some None)
     else map_sum id (Some \<circ> Some) (to_iso pf (of_int now + defaultExpiryDays * day_ms)))"

definition admin_allowed :: "gateway_env \<Rightarrow> string option \<Rightarrow> bool" where
  "admin_allowed env authorization \<longleftrightarrow> \<not> given (ge_adminToken env) \<or>
     authorization = Some (''Bearer '' @ text_of (ge_adminToken env))"

definition forget_decisions :: "gateway_env \<Rightarrow> override \<Rightarrow> unit gateway_op" where
  "forget_decisions env ov = on_store
    (if given (ov_version ov)
     then deletePolicyDecision (ov_packageName ov) (text_of (ov_version ov)) (pc_version (ge_policy env))
     else deletePolicyDecisionsForPackage (ov_packageName ov) (pc_version (ge_policy env)))"

definition override_target :: "override \<Rightarrow> string" where
  "override_target ov = ov_packageName ov @ (if given (ov_version ov) then ''@'' @ text_of (ov_version ov) else [])"

definition override_event :: "string \<Rightarrow> string \<Rightarrow> override \<Rightarrow> (string \<times> js) list \<Rightarrow> audit_event" where
  "override_event actor event ov extra = \<lparr>ae_actor = actor, ae_eventType = event, ae_targetType = ''package'',
     ae_targetId = override_target ov,
     ae_metadata = [(''source'', JStr ''gateway''), (''action'', JStr (action_str (ov_action ov))),
       (''reason'', JStr (ov_reason ov))] @ extra\<rparr>"

definition or_default :: "string option \<Rightarrow> string \<Rightarrow> string" where
  "or_default t d = (case t of None \<Rightarrow> d | Some s \<Rightarrow> s)"

definition postOverride :: "gateway_env \<Rightarrow> string option \<Rightarrow> js \<Rightarrow> gateway_reply gateway_op" where
  "postOverride env authorization body =
    (if \<not> admin_allowed env authorization then ret (RpError 401 ''MEZAIR_ADMIN_TOKEN_REQUIRED'')
     else (case parse_override_create body of
        None \<Rightarrow> ret (RpError 400 ''MEZAIR_OVERRIDE_INVALID'')
      | Some parsed \<Rightarrow>
         bindE (read_clock env) (\<lambda>now.
         (case resolveOverrideExpiry (ge_platform env) (ov_expiresAt parsed) (pc_defaultExpiryDays (ge_policy env)) now of
            Inl e \<Rightarrow> throw (PolicyFailed e)
          | Inr None \<Rightarrow> ret (RpError 400 ''MEZAIR_OVERRIDE_EXPIRES_AT_INVALID'')
          | Inr (Some expiresAt) \<Rightarrow>
             (let approver = or_default (ov_approvedBy parsed) ''local-admin'';
                  ov = parsed\<lparr>ov_approvedBy := Some approver, ov_expiresAt := expiresAt\<rparr> in
              bindE (read_clock env) (\<lambda>created.
              thenE (on_store (putOverride created ov))
              (thenE (forget_decisions env ov)
              (thenE (put_audit env (override_event approver ''override.created'' ov [(''expiresAt'', opt_js expiresAt)]))
               (ret (RpDone 201))))))))))"

definition postOverrideRevoke :: "gateway_env \<Rightarrow> string option \<Rightarrow> js \<Rightarrow> gateway_reply gateway_op" where
  "postOverrideRevoke env authorization body =
    (if \<not> admin_allowed env authorization then ret (RpError 401 ''MEZAIR_ADMIN_TOKEN_REQUIRED'')
     else (case parse_override_revoke body of
        None \<Rightarrow> ret (RpError 400 ''MEZAIR_OVERRIDE_REVOKE_INVALID'')
      | Some (packageName, version, revokedBy) \<Rightarrow>
         (let who = or_default revokedBy ''local-admin'' in
          bindE (ask_store (revokeOverride packageName version who)) (\<lambda>(revoked, st).
          (case revoked of
             None \<Rightarrow> ret (RpError 404 ''MEZAIR_OVERRIDE_NOT_FOUND'')
           | Some rec \<Rightarrow>
              thenE (on_store (\<lambda>_. st))
              (thenE (forget_decisions env (or_override rec))
              (thenE (put_audit env (override_event who ''override.revoked'' (or_override rec) []))
               (ret (RpDone 200)))))))))"

end
