(* ===== verification/Registry_Policy_Laws.thy ===== *)
theory Registry_Policy_Laws
  imports Registry_Policy
begin

text \<open>
  Lemmas on the package policy: which reasons can occur, the range of the score, the order of the
  actions, and how the decision grows with the strictness of the runtime mode.
\<close>

named_theorems policy_defs "the reasons that do not depend on the analysis"

lemmas [policy_defs] = too_new_reason_def low_downloads_reason_def similar_reason_def new_low_reason_def
  provenance_missing_reason_def trusted_reason_def analysis_reason_def llm_reason_def

section \<open>Codes\<close>

lemma has_code_simps [simp]:
  "\<not> has_code [] c" "has_code (r # rs) c \<longleftrightarrow> pr_code r = c \<or> has_code rs c"
  "has_code (rs @ ss) c \<longleftrightarrow> has_code rs c \<or> has_code ss c"
  by (auto simp: has_code_def)

lemma has_code_add_signals: "has_code (add_signals rs sigs) c \<longleftrightarrow> has_code rs c \<or> has_code sigs c"
  by (induction rs sigs rule: add_signals.induct) (auto simp: has_code_def list_ex_iff)

lemma set_add_signals:
  "set rs \<subseteq> set (add_signals rs sigs)" "set (add_signals rs sigs) \<subseteq> set rs \<union> set sigs"
  by (induction rs sigs rule: add_signals.induct) (auto split: if_splits)

definition report_signals :: "policy_input \<Rightarrow> policy_reason list" where
  "report_signals inp = (case pi_analysisReport inp of None \<Rightarrow> [] | Some ar \<Rightarrow> ar_signals ar)"

definition own_reasons :: "platform \<Rightarrow> policy_input \<Rightarrow> policy_reason list" where
  "own_reasons pf inp = too_new_reason pf inp @ low_downloads_reason inp @ similar_reason inp @ new_low_reason inp @
        provenance_missing_reason inp @ trusted_reason inp @ analysis_reason inp"

lemma policy_reasons_eq: "policy_reasons pf inp = add_signals (own_reasons pf inp) (report_signals inp) @ llm_reason inp"
  by (simp add: policy_reasons_def own_reasons_def report_signals_def)

lemma has_code_policy_reasons:
  "has_code (policy_reasons pf inp) c \<longleftrightarrow>
     has_code (own_reasons pf inp) c \<or> has_code (report_signals inp) c \<or> has_code (llm_reason inp) c"
  by (auto simp: policy_reasons_eq has_code_add_signals)

lemma hard_critical_policy_reasons:
  "r \<in> set (own_reasons pf inp) \<Longrightarrow> pr_severity r = SevCritical \<Longrightarrow> pr_code r \<noteq> LLM_RISK_REVIEW_FLAGGED \<Longrightarrow>
    hard_critical (policy_reasons pf inp)"
  using set_add_signals(1) [of "own_reasons pf inp"] by (auto simp: policy_reasons_eq hard_critical_def list_ex_iff)

section \<open>Score\<close>

lemma severityScore_range: "0 \<le> severityScore s" "severityScore s \<le> 95"
  by (cases s; simp add: severityScore_def)+

definition total_score :: "policy_reason list \<Rightarrow> rat" where
  "total_score rs = (\<Sum>r\<leftarrow>rs. severityScore (pr_severity r))"

lemma total_score_simps [simp]:
  "total_score [] = 0" "total_score (r # rs) = severityScore (pr_severity r) + total_score rs"
  "total_score (rs @ ss) = total_score rs + total_score ss"
  by (simp_all add: total_score_def)

lemma foldl_scores:
  "foldl (\<lambda>total r. total + severityScore (pr_severity r)) a rs = a + total_score rs"
  by (induction rs arbitrary: a) (simp_all add: algebra_simps)

lemma raw_score_eq: "raw_score rs = min 100 (total_score rs)"
  by (simp add: raw_score_def foldl_scores)

lemma total_score_nonneg: "0 \<le> total_score rs"
  by (induction rs) (auto simp: severityScore_range add_nonneg_nonneg)

lemma scorePolicyReasons_range:
  assumes "0 \<le> score_reduction inp"
  shows "0 \<le> scorePolicyReasons inp rs" "scorePolicyReasons inp rs \<le> 100"
  using assms total_score_nonneg [of rs] by (auto simp: scorePolicyReasons_def raw_score_eq Let_def)

section \<open>The order of actions\<close>

definition rank :: "policy_action \<Rightarrow> nat" where
  "rank a = (case a of Allow \<Rightarrow> 0 | Warn \<Rightarrow> 1 | Quarantine \<Rightarrow> 2 | Block \<Rightarrow> 3)"

instantiation policy_action :: linorder
begin

definition less_eq_policy_action :: "policy_action \<Rightarrow> policy_action \<Rightarrow> bool" where
  "a \<le> b \<longleftrightarrow> rank a \<le> rank b"

definition less_policy_action :: "policy_action \<Rightarrow> policy_action \<Rightarrow> bool" where
  "a < b \<longleftrightarrow> rank a < rank b"

instance
proof
  fix a b :: policy_action
  assume "a \<le> b" "b \<le> a"
  then show "a = b" by (cases a; cases b) (simp_all add: less_eq_policy_action_def rank_def)
qed (auto simp: less_eq_policy_action_def less_policy_action_def)

end

lemma action_le_simps [simp]:
  "Allow \<le> a" "a \<le> Block" "Warn \<le> Quarantine" "\<not> Block \<le> Quarantine" "\<not> Quarantine \<le> Warn"
  "\<not> Warn \<le> Allow" "\<not> Block \<le> Warn" "\<not> Block \<le> Allow" "\<not> Quarantine \<le> Allow"
  by (cases a; simp add: less_eq_policy_action_def rank_def)+

instantiation severity :: linorder
begin

definition less_eq_severity :: "severity \<Rightarrow> severity \<Rightarrow> bool" where
  "a \<le> b \<longleftrightarrow> severityScore a \<le> severityScore b"

definition less_severity :: "severity \<Rightarrow> severity \<Rightarrow> bool" where
  "a < b \<longleftrightarrow> severityScore a < severityScore b"

instance
proof
  fix a b :: severity
  assume "a \<le> b" "b \<le> a"
  then show "a = b" by (cases a; cases b) (simp_all add: less_eq_severity_def severityScore_def)
qed (auto simp: less_eq_severity_def less_severity_def)

end

section \<open>Runtime modes\<close>

definition mode_rank :: "runtime_mode \<Rightarrow> nat" where
  "mode_rank m = (case m of Development \<Rightarrow> 0 | Ci \<Rightarrow> 1 | Production \<Rightarrow> 2)"

text \<open>The same input in another mode.\<close>

abbreviation in_mode :: "runtime_mode \<Rightarrow> policy_input \<Rightarrow> policy_input" where
  "in_mode m inp \<equiv> inp\<lparr>pi_runtimeMode := m\<rparr>"

text \<open>Two lists of reasons that differ only in evidence and in severities that grow below critical.\<close>

definition grows :: "policy_reason \<Rightarrow> policy_reason \<Rightarrow> bool" where
  "grows r r' \<longleftrightarrow> pr_code r = pr_code r' \<and> pr_message r = pr_message r' \<and>
     (pr_severity r = pr_severity r' \<or> pr_severity r \<le> pr_severity r' \<and> pr_severity r' \<noteq> SevCritical)"

lemma grows_refl [simp]: "grows r r"
  by (simp add: grows_def)

lemma grows_same [simp]: "list_all2 grows rs rs"
  by (simp add: list.rel_refl)

lemma add_signals_grows:
  assumes "list_all2 grows rs rs'"
  shows "list_all2 grows (add_signals rs sigs) (add_signals rs' sigs)"
  using assms
proof (induction sigs arbitrary: rs rs')
  case (Cons sig sigs)
  have same: "list_ex (\<lambda>r. pr_code r = pr_code sig \<and> pr_message r = pr_message sig) rs \<longleftrightarrow>
      list_ex (\<lambda>r. pr_code r = pr_code sig \<and> pr_message r = pr_message sig) rs'"
    using Cons.prems by (induction rule: list_all2_induct) (auto simp: grows_def)
  show ?case by (simp add: same) (auto intro!: Cons.IH list_all2_appendI Cons.prems)
qed simp

lemma grows_code: "list_all2 grows rs rs' \<Longrightarrow> has_code rs c \<longleftrightarrow> has_code rs' c"
  by (induction rule: list_all2_induct) (auto simp: grows_def)

lemma critical_greatest: "SevCritical \<le> s \<longleftrightarrow> s = SevCritical"
  by (cases s) (simp_all add: less_eq_severity_def severityScore_def)

lemma grows_critical: "list_all2 grows rs rs' \<Longrightarrow> hard_critical rs \<longleftrightarrow> hard_critical rs'"
  by (induction rule: list_all2_induct) (auto simp: grows_def hard_critical_def critical_greatest)

lemma grows_total: "list_all2 grows rs rs' \<Longrightarrow> total_score rs \<le> total_score rs'"
  by (induction rule: list_all2_induct) (auto simp: grows_def less_eq_severity_def intro: add_mono)

lemma in_mode_same [simp]:
  "low_downloads_reason (in_mode m inp) = low_downloads_reason inp"
  "similar_reason (in_mode m inp) = similar_reason inp"
  "new_low_reason (in_mode m inp) = new_low_reason inp"
  "provenance_missing_reason (in_mode m inp) = provenance_missing_reason inp"
  "trusted_reason (in_mode m inp) = trusted_reason inp"
  "llm_reason (in_mode m inp) = llm_reason inp"
  "report_signals (in_mode m inp) = report_signals inp"
  by (simp_all add: low_downloads_reason_def similar_reason_def new_low_reason_def provenance_missing_reason_def
      trusted_reason_def llm_reason_def report_signals_def provenance_enabled_def published_provenance_def
      score_reduction_def cong: list.case_cong option.case_cong prod.case_cong if_cong)

lemma reasons_grow:
  assumes "mode_rank m \<le> mode_rank m'"
  shows "list_all2 grows (policy_reasons pf (in_mode m inp)) (policy_reasons pf (in_mode m' inp))"
proof -
  have mode: "m = m' \<or> m = Development \<or> m = Ci \<and> m' = Production"
    using assms by (cases m; cases m') (simp_all add: mode_rank_def)
  have "list_all2 grows (too_new_reason pf (in_mode m inp)) (too_new_reason pf (in_mode m' inp))"
    using mode by (auto simp: too_new_reason_def Let_def grows_def less_eq_severity_def severityScore_def)
  moreover have "list_all2 grows (analysis_reason (in_mode m inp)) (analysis_reason (in_mode m' inp))"
    using mode by (auto simp: analysis_reason_def grows_def less_eq_severity_def severityScore_def)
  ultimately have "list_all2 grows (own_reasons pf (in_mode m inp)) (own_reasons pf (in_mode m' inp))"
    by (simp add: own_reasons_def list_all2_appendI)
  then show ?thesis
    by (simp add: policy_reasons_eq list_all2_appendI add_signals_grows)
qed

lemma score_grows:
  assumes "list_all2 grows rs rs'"
  shows "scorePolicyReasons (in_mode m inp) rs \<le> scorePolicyReasons (in_mode m' inp) rs'"
proof -
  have "raw_score rs \<le> raw_score rs'"
    using grows_total [OF assms] by (simp add: raw_score_eq min.coboundedI2)
  then show ?thesis
    by (simp add: scorePolicyReasons_def Let_def grows_code [OF assms] score_reduction_def max.coboundedI2)
qed

lemma if_le:
  fixes x x' y y' :: "'a :: order"
  assumes "b \<Longrightarrow> x \<le> x'" and "\<not> b \<Longrightarrow> y \<le> y'"
  shows "(if b then x else y) \<le> (if b then x' else y')"
  using assms by simp

lemma action_grows:
  assumes "mode_rank m \<le> mode_rank m'" and "list_all2 grows rs rs'" and "x \<le> y"
  shows "decideAction (in_mode m inp) rs x \<le> decideAction (in_mode m' inp) rs' y"
proof -
  have mode: "m = m' \<or> m = Development \<or> m = Ci \<and> m' = Production"
    using assms(1) by (cases m; cases m') (simp_all add: mode_rank_def)
  then have stricter: "by_mode (in_mode m inp) a b \<le> by_mode (in_mode m' inp) a b" if "a \<le> b" for a b
    using that by (auto simp: by_mode_def)
  have analysis: "(case m of Production \<Rightarrow> Block | Ci \<Rightarrow> Quarantine | Development \<Rightarrow> Warn)
      \<le> (case m' of Production \<Rightarrow> Block | Ci \<Rightarrow> Quarantine | Development \<Rightarrow> Warn)"
    using mode by (auto split: runtime_mode.splits)
  have scores: "(if 70 \<le> x then by_mode (in_mode m inp) Quarantine Block
        else if 35 \<le> x then by_mode (in_mode m inp) Warn Quarantine else if 0 < x then Warn else Allow)
      \<le> (if 70 \<le> y then by_mode (in_mode m' inp) Quarantine Block
        else if 35 \<le> y then by_mode (in_mode m' inp) Warn Quarantine else if 0 < y then Warn else Allow)"
    using mode assms(3) by (cases "70 \<le> x"; cases "70 \<le> y"; cases "35 \<le> x"; cases "35 \<le> y") (auto simp: by_mode_def)
  have same: "quarantine_changed (in_mode k inp) = quarantine_changed inp"
    "quarantine_missing (in_mode k inp) = quarantine_missing inp"
    "pi_policy (in_mode k inp) = pi_policy inp" "pi_packageAgeDays (in_mode k inp) = pi_packageAgeDays inp"
    "pi_runtimeMode (in_mode k inp) = k" for k
    by (simp_all add: quarantine_changed_def quarantine_missing_def)
  show ?thesis
    unfolding decideAction_def grows_code [OF assms(2)] grows_critical [OF assms(2)] same
    by (intro if_le order_refl stricter analysis scores action_le_simps)
qed

lemma reasoned_action_grows:
  "mode_rank m \<le> mode_rank m' \<Longrightarrow> reasoned_action pf (in_mode m inp) \<le> reasoned_action pf (in_mode m' inp)"
  by (simp add: reasoned_action_def Let_def action_grows reasons_grow score_grows)

section \<open>The decision\<close>

lemma evaluatePolicy_override:
  assumes "evaluationTimestamp pf now (pi_evaluatedAt inp) = Inr t" and "resolveActiveOverride pf inp t = Some ov"
  shows "evaluatePolicy pf now inp = Inr (override_decision inp ov)"
  using assms by (simp add: evaluatePolicy_def)

lemma evaluatePolicy_reasoned:
  assumes "evaluatePolicy pf now inp = Inr d" and "evaluationTimestamp pf now (pi_evaluatedAt inp) = Inr t"
    and "resolveActiveOverride pf inp t = None"
  shows "pd_action d = reasoned_action pf inp" "pd_reasons d = policy_reasons pf inp"
    "pd_score d = scorePolicyReasons inp (policy_reasons pf inp)"
    "nextTimeSensitiveDecisionExpiry pf inp (policy_reasons pf inp) t = Inr (pd_expiresAt d)"
  using assms by (auto simp: evaluatePolicy_def reasoned_action_def Let_def split: sum.splits)

text \<open>Outside development a version without the analysis it requires is not installable.\<close>

lemma analysis_required_blocks:
  assumes "pi_analysisRequired inp" and "pi_analysisReport inp = None" and "pi_runtimeMode inp \<noteq> Development"
  shows "Quarantine \<le> reasoned_action pf inp"
proof -
  have "has_code (policy_reasons pf inp) ANALYSIS_REQUIRED"
    using assms by (simp add: has_code_policy_reasons own_reasons_def analysis_reason_def)
  then show ?thesis
    using assms(3) by (auto simp: reasoned_action_def Let_def decideAction_def by_mode_def split: runtime_mode.splits)
qed

lemma blocking_iff: "isDecisionBlockingInstall d m \<longleftrightarrow> pd_action d = Block \<or> pd_action d = Quarantine \<and> m \<noteq> Development"
  by (simp add: isDecisionBlockingInstall_def)

end
