(* ===== verification/Registry_Laws.thy ===== *)
theory Registry_Laws
  imports Registry_Gateway Registry_Policy_Laws
begin

text \<open>
  Lemmas on the registry gateway: the keys of the persistence determine what they are made of, the
  invariant of the stored decisions and overrides, and which gateway operations keep it.
\<close>

named_theorems gateway_keeps "operations that keep the invariant of the registry"

section \<open>Keys\<close>

lemma valid_part_no_at: "valid_part s \<Longrightarrow> CHR ''@'' \<notin> set s \<and> CHR '':'' \<notin> set s \<and> s \<noteq> []"
  by (cases s) (auto simp: valid_part_def alnum_def name_char_def list_all_iff is_digit_def is_lower_def is_upper_def)

lemma valid_nameE:
  assumes "isValidPackageName p"
  obtains c cs where "p = c # cs" and "CHR ''@'' \<notin> set cs"
proof (cases "starts_with ''@'' p")
  case True
  then obtain rest where p: "p = CHR ''@'' # rest" by (cases p) (auto simp: starts_with_def)
  then obtain a b where "js_split CHR ''/'' rest = [a, b]" "valid_part a" "valid_part b"
    using assms True by (auto simp: isValidPackageName_def split: list.splits)
  then have "rest = a @ ''/'' @ b" using js_join_split [of "CHR ''/''" rest] by simp
  with \<open>valid_part a\<close> \<open>valid_part b\<close> have "CHR ''@'' \<notin> set rest" by (auto dest: valid_part_no_at)
  with p that show thesis by simp
next
  case False
  then have "valid_part p" using assms by (simp add: isValidPackageName_def)
  then show thesis using that by (cases p) (auto dest: valid_part_no_at)
qed

lemma first_part_inj:
  "c \<notin> set a \<Longrightarrow> c \<notin> set b \<Longrightarrow> a @ c # x = b @ c # y \<longleftrightarrow> a = b \<and> x = y"
proof (induction a arbitrary: b)
  case Nil
  then show ?case by (cases b) auto
next
  case (Cons d ds)
  then show ?case by (cases b) auto
qed

lemma version_key_inj:
  assumes "isValidPackageName p" and "isValidPackageName q"
  shows "packageVersionKey p x = packageVersionKey q y \<longleftrightarrow> p = q \<and> x = y"
proof -
  obtain c cs d ds where "p = c # cs" "CHR ''@'' \<notin> set cs" "q = d # ds" "CHR ''@'' \<notin> set ds"
    using valid_nameE [OF assms(1)] valid_nameE [OF assms(2)] by metis
  then show ?thesis by (auto simp: packageVersionKey_def first_part_inj)
qed

lemma version_key_bare: "isValidPackageName p \<Longrightarrow> isValidPackageName q \<Longrightarrow> packageVersionKey p x \<noteq> q"
  by (elim valid_nameE) (auto simp: packageVersionKey_def)

lemma last_part_inj:
  assumes "c \<notin> set a" and "c \<notin> set b" and "x @ c # a = y @ c # b"
  shows "x = y \<and> a = b"
proof -
  have "rev a @ c # rev x = rev b @ c # rev y"
    using arg_cong [OF assms(3), of rev] by simp
  with assms(1,2) show ?thesis by (simp add: first_part_inj)
qed

text \<open>What the invariant asks of the names, versions and analyser versions of stored decisions.\<close>

definition colon_free :: "string \<Rightarrow> bool" where
  "colon_free s \<longleftrightarrow> CHR '':'' \<notin> set s"

lemma decisionKey_inj:
  assumes "decisionKey p v pv i = decisionKey p' v' pv' i'"
    and "isValidPackageName p" and "isValidPackageName p'" and "colon_free v" and "colon_free v'"
    and "colon_free (text_of (ti_analyserVersion i))" and "colon_free (text_of (ti_analyserVersion i'))"
  shows "p = p' \<and> v = v' \<and> text_of (ti_analyserVersion i) = text_of (ti_analyserVersion i')"
proof -
  let ?rest = "\<lambda>pv i. pv @ '':'' @ identity_key i"
  have "packageVersionKey p (v @ '':'' @ ?rest pv i) = packageVersionKey p' (v' @ '':'' @ ?rest pv' i')"
    using assms(1) by (simp add: decisionKey_def packageVersionKey_def)
  then have p: "p = p'" and "v @ CHR '':'' # ?rest pv i = v' @ CHR '':'' # ?rest pv' i'"
    using assms(2,3) by (auto simp: version_key_inj)
  then have v: "v = v'" and "?rest pv i = ?rest pv' i'"
    using assms(4,5) by (auto simp: first_part_inj colon_free_def)
  then have "(pv @ '':'' @ text_of (ti_tarballIntegrity i) @ '':'' @ text_of (ti_tarballShasum i)) @ CHR '':'' # text_of (ti_analyserVersion i)
      = (pv' @ '':'' @ text_of (ti_tarballIntegrity i') @ '':'' @ text_of (ti_tarballShasum i')) @ CHR '':'' # text_of (ti_analyserVersion i')"
    by (simp add: identity_key_def)
  then have "text_of (ti_analyserVersion i) = text_of (ti_analyserVersion i')"
    using assms(6,7) unfolding colon_free_def by (metis last_part_inj)
  with p v show ?thesis by simp
qed

section \<open>Deleting decisions\<close>

lemma foldl_delete_subset:
  "set (foldl (\<lambda>m rec. if P rec then AList.delete (key rec) m else m) m recs) \<subseteq> set m"
proof (induction recs arbitrary: m)
  case (Cons rec recs)
  have "set (AList.delete (key rec) m) \<subseteq> set m" by (auto simp: AList.delete_eq)
  with Cons.IH show ?case by (auto dest: subsetD)
qed simp

lemma foldl_delete_gone:
  assumes "rec \<in> set recs" and "P rec"
  shows "(key rec, x) \<notin> set (foldl (\<lambda>m rec. if P rec then AList.delete (key rec) m else m) m recs)"
  using assms
proof (induction recs arbitrary: m)
  case (Cons r recs)
  show ?case
  proof (cases "r = rec")
    case True
    have "(key rec, x) \<notin> set (AList.delete (key rec) m)" by (auto simp: AList.delete_eq)
    with True Cons.prems foldl_delete_subset [of P key "AList.delete (key rec) m" recs] show ?thesis by auto
  next
    case False
    with Cons show ?thesis by simp
  qed
qed simp

definition well_keyed :: "'m reg_store \<Rightarrow> bool" where
  "well_keyed st \<longleftrightarrow> (\<forall>(k, rec) \<in> set (rg_decisions st). k = record_key rec)"

lemma delete_where_decisions:
  assumes "well_keyed st"
  shows "set (rg_decisions (delete_where P st)) \<subseteq> {(k, rec) \<in> set (rg_decisions st). \<not> P rec}"
proof -
  have "\<not> P rec" if "(k, rec) \<in> set (rg_decisions (delete_where P st))" for k rec
  proof
    assume "P rec"
    have old: "(k, rec) \<in> set (rg_decisions st)"
      using that foldl_delete_subset by (fastforce simp: delete_where_def)
    then have "k = record_key rec" using assms by (auto simp: well_keyed_def)
    moreover have "rec \<in> set (map snd (rg_decisions st))" using old by force
    ultimately show False
      using that foldl_delete_gone [of rec "map snd (rg_decisions st)" P record_key rec] \<open>P rec\<close>
      by (simp add: delete_where_def)
  qed
  moreover have "set (rg_decisions (delete_where P st)) \<subseteq> set (rg_decisions st)"
    using foldl_delete_subset by (fastforce simp: delete_where_def)
  ultimately show ?thesis by auto
qed

lemma delete_where_fields [simp]:
  "rg_overrides (delete_where P st) = rg_overrides st" "rg_metadata (delete_where P st) = rg_metadata st"
  "rg_reports (delete_where P st) = rg_reports st"
  by (simp_all add: delete_where_def)

section \<open>The invariant\<close>

definition wf_metadata :: "npm_metadata \<Rightarrow> bool" where
  "wf_metadata m \<longleftrightarrow> isValidPackageName (nm_name m) \<and> (\<forall>(v, nv) \<in> set (nm_versions m). colon_free v) \<and>
     distinct (map fst (nm_distTags m))"

text \<open>The upstream registry names packages and versions as npm allows; each tag occurs once.\<close>

definition upstream_ok :: "gateway_env \<Rightarrow> bool" where
  "upstream_ok env \<longleftrightarrow> (\<forall>k p m. ge_fetchMetadata env k p = Some m \<longrightarrow> wf_metadata m)"

definition dated :: "gateway_env \<Rightarrow> override \<Rightarrow> bool" where
  "dated env ov \<longleftrightarrow> (given (ov_expiresAt ov) \<longrightarrow> parse_date (ge_platform env) (ov_expiresAt ov) \<noteq> None)"

text \<open>A stored decision of the install policy refuses the install, or follows an override that is still there.\<close>

definition follows_override :: "gateway_env \<Rightarrow> 'm reg_store \<Rightarrow> string \<Rightarrow> string \<Rightarrow> policy_decision \<Rightarrow> bool" where
  "follows_override env st p v d \<longleftrightarrow> pc_overridesEnabled (ge_policy env) \<and>
    (\<exists>rec \<in> set (override_candidates p v st). \<not> or_revoked rec \<and> dated env (or_override rec) \<and>
      pd_action d = ov_action (or_override rec) \<and> pd_expiresAt d = ov_expiresAt (or_override rec))"

definition decision_ok :: "gateway_env \<Rightarrow> 'm reg_store \<Rightarrow> decision_record \<Rightarrow> bool" where
  "decision_ok env st rec \<longleftrightarrow> isValidPackageName (dr_packageName rec) \<and> colon_free (dr_version rec) \<and>
    colon_free (text_of (ti_analyserVersion (dr_identity rec))) \<and>
    (text_of (ti_analyserVersion (dr_identity rec)) = installPolicyAnalyserVersion \<longrightarrow>
      dr_policyVersion rec = pc_version (ge_policy env) \<and>
      (isDecisionBlockingInstall (dr_decision rec) (ge_runtimeMode env) \<or>
       follows_override env st (dr_packageName rec) (dr_version rec) (dr_decision rec)))"

definition overrides_ok :: "'m reg_store \<Rightarrow> bool" where
  "overrides_ok st \<longleftrightarrow> (\<forall>(k, rec) \<in> set (rg_overrides st).
     k = override_key (ov_packageName (or_override rec)) (ov_version (or_override rec)) \<and>
     isValidPackageName (ov_packageName (or_override rec)))"

definition reports_ok :: "'m reg_store \<Rightarrow> bool" where
  "reports_ok st \<longleftrightarrow> (\<forall>(k, rec) \<in> set (rg_reports st). rr_identity rec = report_identity (rr_report rec))"

definition metadata_ok :: "npm_metadata reg_store \<Rightarrow> bool" where
  "metadata_ok st \<longleftrightarrow> (\<forall>(k, m, t) \<in> set (rg_metadata st). wf_metadata m)"

definition store_inv :: "gateway_env \<Rightarrow> npm_metadata reg_store \<Rightarrow> bool" where
  "store_inv env st \<longleftrightarrow> well_keyed st \<and> (\<forall>(k, rec) \<in> set (rg_decisions st). decision_ok env st rec) \<and>
     overrides_ok st \<and> reports_ok st \<and> metadata_ok st"

lemma store_inv_empty: "store_inv env empty_store"
  by (simp add: store_inv_def empty_store_def well_keyed_def overrides_ok_def reports_ok_def metadata_ok_def)

text \<open>The parts that only some operations touch are as they were in \<open>s0\<close>; the clock was read up to \<open>n\<close>.\<close>

definition since :: "gateway_env \<Rightarrow> gateway \<Rightarrow> nat \<Rightarrow> gateway \<Rightarrow> bool" where
  "since env s0 n s \<longleftrightarrow> store_inv env (gw_store s) \<and> rg_reports (gw_store s) = rg_reports (gw_store s0) \<and>
     rg_overrides (gw_store s) = rg_overrides (gw_store s0) \<and> rg_metadata (gw_store s) = rg_metadata (gw_store s0) \<and>
     n \<le> gw_tick s"

lemma since_start: "store_inv env (gw_store s) \<Longrightarrow> since env s (gw_tick s) s"
  by (simp add: since_def)

lemma since_earlier: "since env s0 n s \<Longrightarrow> k \<le> n \<Longrightarrow> since env s0 k s"
  by (simp add: since_def)

lemma candidates_cong:
  "rg_overrides st = rg_overrides st' \<Longrightarrow> override_candidates p v st = override_candidates p v st'"
  by (simp add: override_candidates_def)

lemma decision_ok_cong:
  "rg_overrides st = rg_overrides st' \<Longrightarrow> decision_ok env st rec = decision_ok env st' rec"
  by (simp add: decision_ok_def follows_override_def candidates_cong [of st st'])

lemma store_inv_unchanged:
  assumes "store_inv env st"
    and "rg_decisions st' = rg_decisions st" and "rg_overrides st' = rg_overrides st"
    and "rg_reports st' = rg_reports st" and "rg_metadata st' = rg_metadata st"
  shows "store_inv env st'"
  using assms decision_ok_cong [of st' st]
  by (simp add: store_inv_def well_keyed_def overrides_ok_def reports_ok_def metadata_ok_def)

section \<open>Operations that keep the invariant\<close>

lemma keeps_clock [gateway_keeps]: "keeps (since env s0 n) (read_clock env)"
  by (simp add: keeps_def since_def read_clock_def)

lemma keeps_ask [gateway_keeps]: "keeps (since env s0 n) (ask_store f)"
  by (simp add: ask_store_def keeps_gets)

lemma keeps_on_store:
  assumes "\<And>st. store_inv env st \<Longrightarrow> store_inv env (f st)"
    and "\<And>st. rg_reports (f st) = rg_reports st" and "\<And>st. rg_overrides (f st) = rg_overrides st"
    and "\<And>st. rg_metadata (f st) = rg_metadata st"
  shows "keeps (since env s0 n) (on_store f)"
  using assms by (simp add: keeps_def since_def on_store_def modify_def)

lemma keeps_aside:
  assumes "\<And>st. rg_decisions (f st) = rg_decisions st" and "\<And>st. rg_reports (f st) = rg_reports st"
    and "\<And>st. rg_overrides (f st) = rg_overrides st" and "\<And>st. rg_metadata (f st) = rg_metadata st"
  shows "keeps (since env s0 n) (on_store f)"
  by (rule keeps_on_store) (auto intro: store_inv_unchanged simp: assms)

lemma keeps_audit [gateway_keeps]: "keeps (since env s0 n) (put_audit env e)"
  unfolding put_audit_def
  by (intro keeps_intros gateway_keeps keeps_aside) (simp_all add: putAuditEvent_def)

lemma keeps_put_version [gateway_keeps]: "keeps (since env s0 n) (put_version env v)"
  unfolding put_version_def
  by (intro keeps_intros gateway_keeps keeps_aside) (simp_all add: putPackageVersion_def Let_def)

lemma keeps_versions [gateway_keeps]: "keeps (since env s0 n) (persistPackageVersions env m w)"
  unfolding persistPackageVersions_def by (intro keeps_intros keeps_seqE) (auto intro: gateway_keeps)

lemma keeps_downloads [gateway_keeps]: "keeps (since env s0 n) (safeWeeklyDownloads env p)"
  by (simp add: safeWeeklyDownloads_def keeps_gets)

lemma keeps_enqueue [gateway_keeps]: "keeps (since env s0 n) (enqueueAnalysisJob job)"
  by (auto simp: enqueueAnalysisJob_def keeps_def since_def modify_def throw_def split: option.splits)

lemma keeps_enqueue_now [gateway_keeps]: "keeps (since env s0 n) (enqueue_now env p v r q i)"
  unfolding enqueue_now_def by (intro keeps_intros gateway_keeps)

lemma keeps_enqueue_needed [gateway_keeps]: "keeps (since env s0 n) (enqueueAnalysisJobIfNeeded env p v r q i)"
  unfolding enqueueAnalysisJobIfNeeded_def hasRecentAnalysisEnqueue_def by (intro keeps_intros gateway_keeps)

lemma keeps_serve: "keeps (since env s0 n) (serve_tarball env m p v)"
proof -
  have "keeps (since env s0 n) (modify (\<lambda>s. s\<lparr>gw_objects := f (gw_objects s)\<rparr>))" for f
    by (simp add: keeps_def since_def modify_def)
  then show ?thesis
    unfolding serve_tarball_def Let_def by (intro keeps_intros gateway_keeps)
qed

end
