(* ===== verification/Registry_Gate.thy ===== *)
theory Registry_Gate
  imports Registry_Laws
begin

text \<open>
  Why the gateway lets a version through: every decision of the install policy that does not refuse
  follows an override in force, whether it was stored or is new, so a tarball is served outside
  development only after an analysis of that tarball or under an override.
\<close>

section \<open>Why a version is let through\<close>

lemma hoare_ex: "(\<And>k. hoare (P k) m Q E) \<Longrightarrow> hoare (\<lambda>s. \<exists>k. P k s) m Q E"
  by (auto simp: hoare_def)

lemma hoare_assume: "(A \<Longrightarrow> hoare P m Q E) \<Longrightarrow> hoare (\<lambda>s. A \<and> P s) m Q E"
  by (auto simp: hoare_def)

lemma hoare_keeps: "keeps I m \<Longrightarrow> hoare I m (\<lambda>_. I) I"
  by (simp add: hoare_def keeps_wp)

lemma hoare_keeps_then: "keeps I m \<Longrightarrow> hoare I k Q I \<Longrightarrow> hoare I (thenE m k) Q I"
  by (rule hoare_thenE [OF hoare_keeps])

text \<open>An override of the package that was in force at the \<open>k\<close>-th reading of the clock.\<close>

definition in_force :: "gateway_env \<Rightarrow> gateway \<Rightarrow> nat \<Rightarrow> string \<Rightarrow> string \<Rightarrow> override \<Rightarrow> bool" where
  "in_force env s k p v ov \<longleftrightarrow> (\<exists>rec \<in> set (override_candidates p v (gw_store s)).
     override_live (ge_platform env) (ge_clock env k) rec \<and> or_override rec = ov)"

definition has_report :: "gateway \<Rightarrow> npm_metadata \<Rightarrow> string \<Rightarrow> bool" where
  "has_report s m v \<longleftrightarrow> (\<exists>rec \<in> set (map snd (rg_reports (gw_store s))).
     rr_packageName rec = nm_name m \<and> rr_version rec = v \<and>
     identityMatches (rr_identity rec) (analysis_identity (toVersionMetadata m v) STATIC_ANALYSER_VERSION))"

definition let_through :: "gateway_env \<Rightarrow> gateway \<Rightarrow> nat \<Rightarrow> npm_metadata \<Rightarrow> string \<Rightarrow> policy_decision \<Rightarrow> bool" where
  "let_through env s n m v d \<longleftrightarrow> has_report s m v \<or>
     (pc_overridesEnabled (ge_policy env) \<and>
       (\<exists>k ov. gw_tick s \<le> k \<and> k < n \<and> in_force env s k (nm_name m) v ov \<and> pd_action d = ov_action ov))"

definition justified :: "gateway_env \<Rightarrow> gateway \<Rightarrow> nat \<Rightarrow> npm_metadata \<Rightarrow> string \<Rightarrow> policy_decision \<Rightarrow> bool" where
  "justified env s n m v d \<longleftrightarrow> isDecisionBlockingInstall d (ge_runtimeMode env) \<or> let_through env s n m v d"

lemma justified_later: "justified env s n m v d \<Longrightarrow> n \<le> n' \<Longrightarrow> justified env s n' m v d"
  unfolding justified_def let_through_def by (meson less_le_trans)

lemma hd_newest_first: "newest_first f rs = r # rest \<Longrightarrow> r \<in> set rs"
  by (metis newest_first_def list.set_intros(1) set_sort)

lemma getAnalysisReport_Some:
  assumes "getAnalysisReport p v want st = Some r"
  obtains rec where "rec \<in> set (map snd (rg_reports st))" "rr_packageName rec = p" "rr_version rec = v"
    "identityMatches (rr_identity rec) want" "rr_report rec = r"
proof -
  obtain rec rest where "newest_first rr_createdAt (filter (\<lambda>rec. identityMatches (rr_identity rec) want)
        (filter (\<lambda>rec. rr_packageName rec = p \<and> rr_version rec = v) (map snd (rg_reports st)))) = rec # rest" "rr_report rec = r"
    using assms by (auto simp: getAnalysisReport_def split: list.splits)
  with hd_newest_first [OF this(1)] show thesis by (intro that [of rec]) simp_all
qed

lemma found_report:
  assumes "reports_ok (gw_store s)"
    and "getAnalysisReport (nm_name m) v (analysis_identity (toVersionMetadata m v) STATIC_ANALYSER_VERSION) (gw_store s) = Some r"
  shows "has_report s m v" "ar_analyserVersion r = STATIC_ANALYSER_VERSION"
proof -
  obtain rec where rec: "rec \<in> set (map snd (rg_reports (gw_store s)))" "rr_packageName rec = nm_name m" "rr_version rec = v"
    "identityMatches (rr_identity rec) (analysis_identity (toVersionMetadata m v) STATIC_ANALYSER_VERSION)" "rr_report rec = r"
    by (rule getAnalysisReport_Some [OF assms(2)])
  then show "has_report s m v" by (auto simp: has_report_def)
  have "rr_identity rec = report_identity r" using assms(1) rec(1,5) by (auto simp: reports_ok_def)
  then show "ar_analyserVersion r = STATIC_ANALYSER_VERSION"
    using rec(4) by (simp add: identityMatches_def report_identity_def analysis_identity_def)
qed

lemma analyser_names:
  "colon_free STATIC_ANALYSER_VERSION" "colon_free installPolicyAnalyserVersion" "colon_free metadataPolicyAnalyserVersion"
  "STATIC_ANALYSER_VERSION \<noteq> installPolicyAnalyserVersion" "metadataPolicyAnalyserVersion \<noteq> installPolicyAnalyserVersion"
  by (simp_all add: colon_free_def STATIC_ANALYSER_VERSION_def installPolicyAnalyserVersion_def metadataPolicyAnalyserVersion_def)

lemma given_Some: "given t \<Longrightarrow> \<exists>x. t = Some x"
  by (cases t) (simp_all add: given_def)

lemma live_dated: "override_live (ge_platform env) now rec \<Longrightarrow> dated env (or_override rec)"
  by (auto simp: override_live_def dated_def split: option.splits)

lemma fresh_live:
  assumes "\<not> or_revoked rec" "dated env (or_override rec)" "pd_expiresAt d = ov_expiresAt (or_override rec)"
    and "\<not> isExpiredDecision (ge_platform env) now d"
  shows "override_live (ge_platform env) now rec"
  using assms by (auto simp: override_live_def dated_def isExpiredDecision_def split: option.splits)

text \<open>A decision that is evaluated: it follows the override it was given, or its reasons.\<close>

lemma evaluated_decision:
  assumes "evaluatePolicy pf now inp = Inr d"
  shows "(\<exists>ov. pi_override inp = Some ov \<and> pc_overridesEnabled (pi_policy inp) \<and> d = override_decision inp ov) \<or>
    pd_action d = reasoned_action pf inp"
proof -
  obtain t where t: "evaluationTimestamp pf now (pi_evaluatedAt inp) = Inr t"
    using assms by (auto simp: evaluatePolicy_def split: sum.splits)
  show ?thesis
  proof (cases "resolveActiveOverride pf inp t")
    case None
    with assms t show ?thesis by (simp add: evaluatePolicy_reasoned)
  next
    case (Some ov)
    then have "pi_override inp = Some ov" "pc_overridesEnabled (pi_policy inp)"
      by (auto simp: resolveActiveOverride_def split: if_splits option.splits)
    with assms evaluatePolicy_override [OF t Some] show ?thesis by auto
  qed
qed

lemma getOverride_in_force:
  assumes "getOverride (ge_platform env) (ge_clock env k) p v (gw_store s) = Some ov"
  obtains rec where "rec \<in> set (override_candidates p v (gw_store s))" "override_live (ge_platform env) (ge_clock env k) rec"
    "or_override rec = ov"
proof -
  obtain rec where "find (override_live (ge_platform env) (ge_clock env k)) (override_candidates p v (gw_store s)) = Some rec"
    "or_override rec = ov"
    using assms by (auto simp: getOverride_def)
  moreover have "rec \<in> set (override_candidates p v (gw_store s))" "override_live (ge_platform env) (ge_clock env k) rec"
    using calculation(1) by (auto simp: find_Some_iff)
  ultimately show thesis using that by simp
qed

section \<open>Evaluating a version\<close>

lemma hoare_read_clock:
  "hoare (since env s0 n) (read_clock env) (\<lambda>now s. \<exists>k. n \<le> k \<and> now = ge_clock env k \<and> since env s0 (Suc k) s) (since env s0 n)"
  by (auto simp: hoare_def wp_def read_clock_def since_def)

lemma hoare_read_clock_any: "hoare (since env s0 n) (read_clock env) (\<lambda>_. since env s0 n) (since env s0 n)"
  by (rule hoare_keeps [OF keeps_clock])

lemma in_force_since: "since env s0 n s \<Longrightarrow> in_force env s k p v ov = in_force env s0 k p v ov"
  by (simp add: since_def in_force_def candidates_cong [of "gw_store s" "gw_store s0"])

lemma hoare_override:
  "hoare (since env s0 n) (ask_store (getOverride (ge_platform env) (ge_clock env k) p v))
     (\<lambda>ov s. (\<forall>o'. ov = Some o' \<longrightarrow> in_force env s0 k p v o') \<and> since env s0 n s) (since env s0 n)"
proof -
  have "in_force env s0 k p v o'"
    if "since env s0 n s" "getOverride (ge_platform env) (ge_clock env k) p v (gw_store s) = Some o'" for s o'
    using getOverride_in_force [OF that(2)] in_force_since [OF that(1)] by (metis in_force_def)
  then show ?thesis unfolding ask_store_def by (auto intro: hoare_gets)
qed

lemma in_force_record:
  assumes "in_force env s k p v ov"
  obtains rec where "rec \<in> set (override_candidates p v (gw_store s))" "\<not> or_revoked rec" "dated env ov" "or_override rec = ov"
proof -
  obtain rec where rec: "rec \<in> set (override_candidates p v (gw_store s))" "override_live (ge_platform env) (ge_clock env k) rec"
    "or_override rec = ov" using assms by (auto simp: in_force_def)
  moreover have "\<not> or_revoked rec" using rec(2) by (simp add: override_live_def)
  ultimately show thesis using live_dated [OF rec(2)] by (intro that [of rec]) simp_all
qed

lemma candidates_put [simp]: "override_candidates q w (putPolicyDecision now p v pv d i st) = override_candidates q w st"
  by (rule candidates_cong) (simp add: putPolicyDecision_def)

text \<open>The decision may be stored: it is justified, and it says why without the clock.\<close>

definition storable :: "gateway_env \<Rightarrow> gateway \<Rightarrow> string \<Rightarrow> string \<Rightarrow> policy_decision \<Rightarrow> bool" where
  "storable env s p v d \<longleftrightarrow> isDecisionBlockingInstall d (ge_runtimeMode env) \<or> follows_override env (gw_store s) p v d"

lemma put_decision_inv:
  assumes "since env s0 n s" and "isValidPackageName p" and "colon_free v" and "colon_free (text_of (ti_analyserVersion i))"
    and "text_of (ti_analyserVersion i) = installPolicyAnalyserVersion \<Longrightarrow>
      pv = pc_version (ge_policy env) \<and> storable env s0 p v d"
  shows "since env s0 n (s\<lparr>gw_store := putPolicyDecision now p v pv d i (gw_store s)\<rparr>)"
proof -
  let ?st = "putPolicyDecision now p v pv d i (gw_store s)"
  let ?rec = "\<lparr>dr_packageName = p, dr_version = v, dr_policyVersion = pv, dr_identity = i, dr_decision = d, dr_createdAt = now\<rparr>"
  have old: "rg_overrides ?st = rg_overrides (gw_store s)" by (simp add: putPolicyDecision_def)
  have "rg_overrides (gw_store s0) = rg_overrides (gw_store s)" using assms(1) by (simp add: since_def)
  then have "decision_ok env ?st ?rec"
    using assms(2-5) by (auto simp: decision_ok_def storable_def follows_override_def
        candidates_cong [of "gw_store s0" "gw_store s"])
  moreover have "set (rg_decisions ?st) \<subseteq> insert (record_key ?rec, ?rec) (set (rg_decisions (gw_store s)))"
    unfolding putPolicyDecision_def record_key_def by (simp add: update_subset)
  ultimately have "well_keyed ?st \<and> (\<forall>(k, rec) \<in> set (rg_decisions ?st). decision_ok env ?st rec)"
    using assms(1) unfolding since_def store_inv_def well_keyed_def decision_ok_cong [OF old] by blast
  then show ?thesis
    using assms(1) by (simp add: since_def store_inv_def overrides_ok_def reports_ok_def metadata_ok_def putPolicyDecision_def)
qed

lemma gateway_input_fields [simp]:
  "pi_override (gateway_input env m v w t required report review ov) = ov"
  "pi_policy (gateway_input env m v w t required report review ov) = ge_policy env"
  "pi_analysisRequired (gateway_input env m v w t required report review ov) = required"
  "pi_analysisReport (gateway_input env m v w t required report review ov) = report"
  "pi_runtimeMode (gateway_input env m v w t required report review ov) = ge_runtimeMode env"
  by (simp_all add: gateway_input_def Let_def)

lemma evaluated_storable:
  assumes "evaluatePolicy pf fallback (gateway_input env m v w t required report review ov) = Inr d"
    and "\<And>o'. ov = Some o' \<Longrightarrow> in_force env s k (nm_name m) v o'"
    and "required" and "report = None" and "ge_runtimeMode env \<noteq> Development"
  shows "storable env s (nm_name m) v d"
    and "isDecisionBlockingInstall d (ge_runtimeMode env) \<or> pc_overridesEnabled (ge_policy env) \<and>
      (\<exists>ov. in_force env s k (nm_name m) v ov \<and> pd_action d = ov_action ov)"
proof -
  let ?inp = "gateway_input env m v w t required report review ov"
  consider (follows) o' where "ov = Some o'" "pc_overridesEnabled (ge_policy env)" "d = override_decision ?inp o'"
    | (refuses) "isDecisionBlockingInstall d (ge_runtimeMode env)"
    using evaluated_decision [OF assms(1)]
  proof (elim disjE)
    assume "pd_action d = reasoned_action pf ?inp"
    moreover have "Quarantine \<le> reasoned_action pf ?inp"
      using assms(3-5) by (intro analysis_required_blocks) simp_all
    ultimately have "isDecisionBlockingInstall d (ge_runtimeMode env)"
      using assms(5) by (cases "pd_action d") (simp_all add: blocking_iff)
    then show thesis by (rule refuses)
  qed (use follows in auto)
  then have "storable env s (nm_name m) v d \<and> (isDecisionBlockingInstall d (ge_runtimeMode env) \<or>
      pc_overridesEnabled (ge_policy env) \<and> (\<exists>ov. in_force env s k (nm_name m) v ov \<and> pd_action d = ov_action ov))"
  proof cases
    case follows
    have force: "in_force env s k (nm_name m) v o'" using assms(2) follows(1) .
    obtain rec where "rec \<in> set (override_candidates (nm_name m) v (gw_store s))" "\<not> or_revoked rec"
      "dated env o'" "or_override rec = o'" by (rule in_force_record [OF force])
    then have "follows_override env (gw_store s) (nm_name m) v d"
      unfolding follows_override_def using follows by (auto simp: override_decision_def)
    moreover have "pd_action d = ov_action o'" using follows(3) by (simp add: override_decision_def)
    ultimately show ?thesis using force follows(2) by (auto simp: storable_def)
  qed (simp add: storable_def)
  then show "storable env s (nm_name m) v d"
    and "isDecisionBlockingInstall d (ge_runtimeMode env) \<or> pc_overridesEnabled (ge_policy env) \<and>
      (\<exists>ov. in_force env s k (nm_name m) v ov \<and> pd_action d = ov_action ov)" by auto
qed

text \<open>The decision refuses the install or follows an override in force at a reading from the \<open>n\<close>-th on.\<close>

definition overridden :: "gateway_env \<Rightarrow> gateway \<Rightarrow> nat \<Rightarrow> nat \<Rightarrow> string \<Rightarrow> string \<Rightarrow> policy_decision \<Rightarrow> bool" where
  "overridden env s n n' p v d \<longleftrightarrow> isDecisionBlockingInstall d (ge_runtimeMode env) \<or>
     pc_overridesEnabled (ge_policy env) \<and>
       (\<exists>k ov. n \<le> k \<and> k < n' \<and> in_force env s k p v ov \<and> pd_action d = ov_action ov)"

lemma hoare_put_decision:
  assumes "isValidPackageName p" and "colon_free v" and "colon_free (text_of (ti_analyserVersion i))"
    and "text_of (ti_analyserVersion i) = installPolicyAnalyserVersion \<Longrightarrow>
      pv = pc_version (ge_policy env) \<and> storable env s0 p v d"
  shows "keeps (since env s0 n) (on_store (putPolicyDecision now p v pv d i))"
  using put_decision_inv [OF _ assms(1-4)] by (simp add: keeps_def on_store_def modify_def)

text \<open>A stored decision that is used.\<close>

lemma stored_decision:
  assumes "since env s0 n s" and "wf_metadata m" and "v \<in> fst ` set (nm_versions m)"
    and "getPolicyDecision (ge_platform env) (ge_clock env k) (nm_name m) v (pc_version (ge_policy env)) i (gw_store s) = Some d"
    and "ti_analyserVersion i = Some installPolicyAnalyserVersion"
  shows "overridden env s0 k (Suc k) (nm_name m) v d"
proof -
  let ?st = "gw_store s" and ?K = "decisionKey (nm_name m) v (pc_version (ge_policy env)) i"
  obtain rec where rec: "map_of (rg_decisions ?st) ?K = Some rec" "dr_decision rec = d"
    "\<not> isExpiredDecision (ge_platform env) (ge_clock env k) d"
    using assms(4) by (auto simp: getPolicyDecision_def split: option.splits if_splits)
  then have mem: "(?K, rec) \<in> set (rg_decisions ?st)" by (simp add: map_of_SomeD)
  then have ok: "decision_ok env ?st rec" and key: "record_key rec = ?K"
    using assms(1) by (auto simp: since_def store_inv_def well_keyed_def)
  have "colon_free v" "isValidPackageName (nm_name m)" using assms(2,3) by (auto simp: wf_metadata_def)
  moreover have "colon_free (text_of (ti_analyserVersion i))" using assms(5) analyser_names by (simp add: text_of_def)
  ultimately have same: "dr_packageName rec = nm_name m \<and> dr_version rec = v \<and>
      text_of (ti_analyserVersion (dr_identity rec)) = text_of (ti_analyserVersion i)"
    using ok by (intro decisionKey_inj [OF key [unfolded record_key_def]]) (simp_all add: decision_ok_def)
  have "in_force env s0 k (nm_name m) v (or_override r) \<and> pd_action d = ov_action (or_override r)"
    if "r \<in> set (override_candidates (nm_name m) v ?st)" "\<not> or_revoked r" "dated env (or_override r)"
      "pd_action d = ov_action (or_override r)" "pd_expiresAt d = ov_expiresAt (or_override r)" for r
    using that fresh_live [OF that(2,3,5) rec(3)] in_force_since [OF assms(1)] by (metis in_force_def)
  then show ?thesis
    using ok same rec(2) assms(5)
    by (fastforce simp: decision_ok_def follows_override_def overridden_def text_of_def)
qed

lemma keeps_record_decision:
  assumes "isValidPackageName p" and "colon_free v" and "colon_free (text_of (ti_analyserVersion i))"
    and "text_of (ti_analyserVersion i) = installPolicyAnalyserVersion \<Longrightarrow> storable env s0 p v d"
  shows "keeps (since env s0 n) (record_decision env p v reason enq report i d)"
  unfolding record_decision_def Let_def
  by (intro keeps_intros gateway_keeps hoare_put_decision) (use assms in auto)

lemma record_decision_returns: "stays whatever (\<lambda>d'. d' = d) (record_decision env p v reason enq report i d)"
  unfolding record_decision_def Let_def stays_def
  by (auto simp: wp_def bindE_def thenE_def ret_def split: prod.splits sum.splits)

lemma hoare_record_decision:
  assumes "isValidPackageName p" and "colon_free v" and "colon_free (text_of (ti_analyserVersion i))"
    and "text_of (ti_analyserVersion i) = installPolicyAnalyserVersion \<Longrightarrow> storable env s0 p v d"
  shows "hoare (since env s0 n) (record_decision env p v reason enq report i d)
    (\<lambda>d' s. d' = d \<and> since env s0 n s) (since env s0 n)"
proof (rule hoareI)
  fix s assume "since env s0 n s"
  then have "wp (record_decision env p v reason enq report i d) (\<lambda>_. since env s0 n) (\<lambda>_. since env s0 n) s"
    using keeps_record_decision [OF assms] by (simp add: keeps_wp)
  from wp_conj [OF this staysD [OF record_decision_returns]]
  show "wp (record_decision env p v reason enq report i d) (\<lambda>d' s. d' = d \<and> since env s0 n s) (\<lambda>_. since env s0 n) s"
    by (rule wp_mono) auto
qed

text \<open>The decision comes from the override read at the \<open>k\<close>-th reading, or it refuses.\<close>

definition explained :: "gateway_env \<Rightarrow> gateway \<Rightarrow> nat \<Rightarrow> string \<Rightarrow> string \<Rightarrow> policy_decision \<Rightarrow> bool" where
  "explained env s k p v d \<longleftrightarrow> storable env s p v d \<and> overridden env s k (Suc k) p v d"

lemma hoare_evaluate_version:
  assumes "isValidPackageName (nm_name m)" and "colon_free v" and "colon_free (text_of (ti_analyserVersion i))"
    and "text_of (ti_analyserVersion i) = installPolicyAnalyserVersion \<Longrightarrow>
      required \<and> report = None \<and> ge_runtimeMode env \<noteq> Development"
  shows "hoare (since env s0 n) (evaluate_version env m v reason w enq required report review i)
    (\<lambda>d s. (text_of (ti_analyserVersion i) = installPolicyAnalyserVersion \<longrightarrow>
       overridden env s0 n (gw_tick s) (nm_name m) v d) \<and> since env s0 n s) (since env s0 n)"
proof -
  let ?E = "text_of (ti_analyserVersion i) = installPolicyAnalyserVersion"
  let ?Q = "\<lambda>d s. (?E \<longrightarrow> overridden env s0 n (gw_tick s) (nm_name m) v d) \<and> since env s0 n s"
  let ?in = "\<lambda>t. gateway_input env m v w t required report review"
  have decided: "hoare (since env s0 (Suc k)) (record_decision env (nm_name m) v reason enq report i d) ?Q (since env s0 n)"
    if "n \<le> k" "?E \<longrightarrow> explained env s0 k (nm_name m) v d" for k d
  proof (rule hoare_conseq [OF hoare_record_decision [OF assms(1-3)]])
    show "?Q d' s" if "d' = d \<and> since env s0 (Suc k) s" for d' s
      using that \<open>n \<le> k\<close> \<open>?E \<longrightarrow> explained env s0 k (nm_name m) v d\<close>
      unfolding explained_def overridden_def since_def by (meson Suc_le_lessD le_trans less_Suc_eq_le order.strict_trans1 Suc_leD)
  qed (use that in \<open>auto simp: explained_def intro: since_earlier\<close>)
  have evaluated: "hoare (since env s0 (Suc k))
      (bindE (lift_sum (map_sum PolicyFailed id (evaluatePolicy (ge_platform env) now (?in t ov))))
        (record_decision env (nm_name m) v reason enq report i)) ?Q (since env s0 n)"
    if "n \<le> k" "\<forall>o'. ov = Some o' \<longrightarrow> in_force env s0 k (nm_name m) v o'" for k now t ov
  proof (rule hoare_bindE)
    show "hoare (since env s0 (Suc k)) (lift_sum (map_sum PolicyFailed id (evaluatePolicy (ge_platform env) now (?in t ov))))
      (\<lambda>d s. (?E \<longrightarrow> explained env s0 k (nm_name m) v d) \<and> since env s0 (Suc k) s) (since env s0 n)"
    proof (rule hoare_lift_sum)
      fix d s assume "map_sum PolicyFailed id (evaluatePolicy (ge_platform env) now (?in t ov)) = Inr d" "since env s0 (Suc k) s"
      then show "(?E \<longrightarrow> explained env s0 k (nm_name m) v d) \<and> since env s0 (Suc k) s"
        using evaluated_storable [of "ge_platform env" now env m v w t required report review ov d s0 k] that(2) assms(4)
        unfolding explained_def overridden_def by (cases "evaluatePolicy (ge_platform env) now (?in t ov)") auto
    qed (use that(1) in \<open>auto intro: since_earlier\<close>)
  qed (use decided [OF that(1)] in \<open>auto intro: hoare_assume\<close>)
  show ?thesis
    unfolding evaluate_version_def
  proof (rule hoare_bindE [OF hoare_read_clock_any], rule hoare_bindE [OF hoare_read_clock], rule hoare_ex,
      intro hoare_assume)
    fix t now k assume k: "n \<le> k" "now = ge_clock env k"
    have "hoare (since env s0 (Suc k)) (ask_store (getOverride (ge_platform env) now (nm_name m) v))
      (\<lambda>ov s. (\<forall>o'. ov = Some o' \<longrightarrow> in_force env s0 k (nm_name m) v o') \<and> since env s0 (Suc k) s) (since env s0 n)"
      unfolding k(2) by (rule hoare_conseq [OF hoare_override [of env s0 "Suc k"]]) (use k(1) in \<open>auto intro: since_earlier\<close>)
    moreover have "hoare (since env s0 (Suc k)) (read_clock env) (\<lambda>_. since env s0 (Suc k)) (since env s0 n)"
      by (rule hoare_conseq [OF hoare_read_clock_any [of env s0 "Suc k"]]) (use k(1) in \<open>auto intro: since_earlier\<close>)
    ultimately show "hoare (since env s0 (Suc k))
      (bindE (ask_store (getOverride (ge_platform env) now (nm_name m) v)) (\<lambda>ov.
        bindE (read_clock env) (\<lambda>fallback.
        bindE (lift_sum (map_sum PolicyFailed id (evaluatePolicy (ge_platform env) fallback (?in t ov))))
          (record_decision env (nm_name m) v reason enq report i)))) ?Q (since env s0 n)"
      by (blast intro: hoare_bindE hoare_assume evaluated [OF k(1)])
  qed
qed

lemma analyser_of_identity [simp]: "ti_analyserVersion (analysis_identity vm a) = Some a"
  by (simp add: analysis_identity_def)

lemma overridden_mono: "overridden env s k l p v d \<Longrightarrow> n \<le> k \<Longrightarrow> l \<le> n' \<Longrightarrow> overridden env s n n' p v d"
  unfolding overridden_def by (meson le_trans order.strict_trans2)

lemma hoare_decide_version:
  assumes "wf_metadata m" and "v \<in> fst ` set (nm_versions m)"
    and "\<forall>ar. report = Some ar \<longrightarrow> ar_analyserVersion ar = STATIC_ANALYSER_VERSION"
  shows "hoare (since env s0 n) (decide_version env m v reason w enq report review)
    (\<lambda>d s. (reason = TarballRequest \<and> report = None \<and> ge_runtimeMode env \<noteq> Development \<longrightarrow>
      overridden env s0 n (gw_tick s) (nm_name m) v d) \<and> since env s0 n s) (since env s0 n)"
proof -
  let ?gate = "reason = TarballRequest \<and> report = None \<and> ge_runtimeMode env \<noteq> Development"
  let ?i = "decision_identity env m v reason report"
  let ?Q = "\<lambda>d s. (?gate \<longrightarrow> overridden env s0 n (gw_tick s) (nm_name m) v d) \<and> since env s0 n s"
  have names: "isValidPackageName (nm_name m)" "colon_free v" using assms by (auto simp: wf_metadata_def)
  have analyser: "ti_analyserVersion ?i = Some (case report of Some ar \<Rightarrow> STATIC_ANALYSER_VERSION
      | None \<Rightarrow> if ?gate then installPolicyAnalyserVersion else metadataPolicyAnalyserVersion)"
    using assms(3) by (auto simp: decision_identity_def report_analyser_def shouldRequireAnalysisBeforeInstall_def split: option.splits)
  then have free: "colon_free (text_of (ti_analyserVersion ?i))"
    and install: "text_of (ti_analyserVersion ?i) = installPolicyAnalyserVersion \<longleftrightarrow> ?gate"
    using analyser_names by (auto simp: text_of_def split: option.splits)
  have stored: "hoare (since env s0 (Suc k)) (thenE (if reason = TarballRequest \<and> report = None \<and> pd_action d = Allow
        then enqueueAnalysisJobIfNeeded env (nm_name m) v reason PrNormal ?i else ret ()) (ret d)) ?Q (since env s0 n)"
    if "n \<le> k" "?gate \<longrightarrow> overridden env s0 k (Suc k) (nm_name m) v d" for k d
  proof (rule hoare_conseq)
    show "hoare (since env s0 (Suc k)) (thenE (if reason = TarballRequest \<and> report = None \<and> pd_action d = Allow
        then enqueueAnalysisJobIfNeeded env (nm_name m) v reason PrNormal ?i else ret ()) (ret d))
        (\<lambda>d' s. d' = d \<and> since env s0 (Suc k) s) (since env s0 (Suc k))"
      by (intro hoare_keeps_then keeps_intros gateway_keeps hoare_ret) simp
    show "?Q d' s" if "d' = d \<and> since env s0 (Suc k) s" for d' s
      using that \<open>n \<le> k\<close> \<open>?gate \<longrightarrow> overridden env s0 k (Suc k) (nm_name m) v d\<close>
      by (auto simp: since_def intro: overridden_mono)
  qed (use that(1) in \<open>auto intro: since_earlier\<close>)
  have new: "hoare (since env s0 (Suc k)) (evaluate_version env m v reason w enq
      (shouldRequireAnalysisBeforeInstall env reason report) report review ?i) ?Q (since env s0 n)" if "n \<le> k" for k
  proof (rule hoare_conseq [OF hoare_evaluate_version [of m v ?i _ report env s0 n, OF names free]])
    show "text_of (ti_analyserVersion ?i) = installPolicyAnalyserVersion \<Longrightarrow>
      shouldRequireAnalysisBeforeInstall env reason report \<and> report = None \<and> ge_runtimeMode env \<noteq> Development"
      unfolding install by (simp add: shouldRequireAnalysisBeforeInstall_def)
  qed (use that in \<open>auto simp: install intro: since_earlier\<close>)
  have found: "overridden env s0 k (Suc k) (nm_name m) v d"
    if "since env s0 (Suc k) s" "getPolicyDecision (ge_platform env) (ge_clock env k) (nm_name m) v (pc_version (ge_policy env)) ?i (gw_store s) = Some d"
      ?gate for k s d
  proof (rule stored_decision [OF that(1) assms(1,2) that(2)])
    show "ti_analyserVersion ?i = Some installPolicyAnalyserVersion"
      unfolding analyser by (simp only: that(3) option.case simp_thms if_True)
  qed
  have existing: "hoare (since env s0 (Suc k))
      (ask_store (getPolicyDecision (ge_platform env) (ge_clock env k) (nm_name m) v (pc_version (ge_policy env)) ?i))
      (\<lambda>e s. (\<forall>d. e = Some d \<and> ?gate \<longrightarrow> overridden env s0 k (Suc k) (nm_name m) v d) \<and> since env s0 (Suc k) s)
      (since env s0 n)" for k
    unfolding ask_store_def
  proof (rule hoare_gets)
    fix s assume s: "since env s0 (Suc k) s"
    let ?get = "getPolicyDecision (ge_platform env) (ge_clock env k) (nm_name m) v (pc_version (ge_policy env)) ?i (gw_store s)"
    show "(\<forall>d. ?get = Some d \<and> ?gate \<longrightarrow> overridden env s0 k (Suc k) (nm_name m) v d) \<and> since env s0 (Suc k) s"
    proof (intro conjI allI impI s)
      fix d assume d: "?get = Some d \<and> ?gate"
      show "overridden env s0 k (Suc k) (nm_name m) v d" by (rule found [OF s conjunct1 [OF d] conjunct2 [OF d]])
    qed
  qed
  show ?thesis
    unfolding decide_version_def Let_def
  proof (rule hoare_bindE [OF hoare_read_clock], rule hoare_ex, intro hoare_assume)
    fix now k assume k: "n \<le> k" "now = ge_clock env k"
    show "hoare (since env s0 (Suc k))
      (bindE (ask_store (getPolicyDecision (ge_platform env) now (nm_name m) v (pc_version (ge_policy env)) ?i)) (\<lambda>e.
       (case e of Some d \<Rightarrow> thenE (if reason = TarballRequest \<and> report = None \<and> pd_action d = Allow
            then enqueueAnalysisJobIfNeeded env (nm_name m) v reason PrNormal ?i else ret ()) (ret d)
        | None \<Rightarrow> evaluate_version env m v reason w enq
            (shouldRequireAnalysisBeforeInstall env reason report) report review ?i))) ?Q (since env s0 n)"
      unfolding k(2)
    proof (rule hoare_bindE [OF existing], rule hoare_assume)
      fix e assume "\<forall>d. e = Some d \<and> ?gate \<longrightarrow> overridden env s0 k (Suc k) (nm_name m) v d"
      then show "hoare (since env s0 (Suc k)) (case e of
          Some d \<Rightarrow> thenE (if reason = TarballRequest \<and> report = None \<and> pd_action d = Allow
            then enqueueAnalysisJobIfNeeded env (nm_name m) v reason PrNormal ?i else ret ()) (ret d)
        | None \<Rightarrow> evaluate_version env m v reason w enq
            (shouldRequireAnalysisBeforeInstall env reason report) report review ?i) ?Q (since env s0 n)"
        using new [OF k(1)] stored [OF k(1)] by (cases e) auto
    qed
  qed
qed

lemma hoare_evaluateAndCache:
  assumes "wf_metadata m" and "v \<in> fst ` set (nm_versions m)"
  shows "hoare (since env s0 (gw_tick s0)) (evaluateAndCache env m v reason w enq)
    (\<lambda>d s. (reason = TarballRequest \<and> ge_runtimeMode env \<noteq> Development \<longrightarrow> justified env s0 (gw_tick s) m v d) \<and>
      since env s0 (gw_tick s0) s) (since env s0 (gw_tick s0))"
proof -
  let ?n = "gw_tick s0" and ?ask = "analysis_identity (toVersionMetadata m v)"
  let ?R = "\<lambda>r s. (\<forall>ar. r = Some ar \<longrightarrow> has_report s0 m v \<and> ar_analyserVersion ar = STATIC_ANALYSER_VERSION) \<and> since env s0 ?n s"
  have "has_report s0 m v \<and> ar_analyserVersion ar = STATIC_ANALYSER_VERSION"
    if "since env s0 ?n s" "getAnalysisReport (nm_name m) v (?ask STATIC_ANALYSER_VERSION) (gw_store s) = Some ar" for s ar
    using found_report [of s m v ar] that by (auto simp: since_def store_inv_def has_report_def)
  then have report: "hoare (since env s0 ?n) (ask_store (getAnalysisReport (nm_name m) v (?ask STATIC_ANALYSER_VERSION))) ?R (since env s0 ?n)"
    unfolding ask_store_def by (auto intro: hoare_gets)
  have decide: "hoare (since env s0 ?n) (decide_version env m v reason w enq r review)
      (\<lambda>d s. (reason = TarballRequest \<and> ge_runtimeMode env \<noteq> Development \<longrightarrow> justified env s0 (gw_tick s) m v d) \<and>
        since env s0 ?n s) (since env s0 ?n)"
    if "\<forall>ar. r = Some ar \<longrightarrow> has_report s0 m v \<and> ar_analyserVersion ar = STATIC_ANALYSER_VERSION" for r review
    by (rule hoare_conseq [OF hoare_decide_version [OF assms]])
      (use that in \<open>auto simp: justified_def let_through_def overridden_def\<close>)
  show ?thesis
    unfolding evaluateAndCache_def Let_def
    by (rule hoare_bindE [OF report], rule hoare_assume, rule hoare_bindE [OF hoare_keeps], intro keeps_intros gateway_keeps)
      (auto intro: decide)
qed

section \<open>Requests\<close>

lemma keeps_evaluateAndCache:
  assumes "wf_metadata m" and "v \<in> fst ` set (nm_versions m)" and "store_inv env (gw_store s)"
  shows "store_inv env (gw_store (snd (evaluateAndCache env m v reason w enq s)))"
proof -
  have "wp (evaluateAndCache env m v reason w enq) (\<lambda>_ t. since env s (gw_tick s) t) (\<lambda>_ t. since env s (gw_tick s) t) s"
    by (rule wp_mono [OF hoareD [OF hoare_evaluateAndCache [OF assms(1,2)] since_start [OF assms(3)]]]) auto
  then show ?thesis by (simp add: wp_state since_def)
qed

text \<open>Metadata comes from the cache or from upstream, and ends up in the cache.\<close>

definition cached_as :: "string \<Rightarrow> npm_metadata \<Rightarrow> gateway \<Rightarrow> bool" where
  "cached_as p m s \<longleftrightarrow> (\<exists>t. map_of (rg_metadata (gw_store s)) p = Some (m, t))"

abbreviation gw_inv :: "gateway_env \<Rightarrow> gateway \<Rightarrow> bool" where
  "gw_inv env s \<equiv> store_inv env (gw_store s)"

text \<open>What a request leaves as it was: the reports and the overrides.\<close>

definition after :: "gateway \<Rightarrow> gateway \<Rightarrow> bool" where
  "after s0 s \<longleftrightarrow> rg_reports (gw_store s) = rg_reports (gw_store s0) \<and>
     rg_overrides (gw_store s) = rg_overrides (gw_store s0) \<and> gw_tick s0 \<le> gw_tick s"

lemma after_refl [simp]: "after s s"
  by (simp add: after_def)

lemma put_metadata_inv:
  assumes "store_inv env st" and "wf_metadata m"
  shows "store_inv env (putMetadata now p m st)"
proof -
  have "decision_ok env (putMetadata now p m st) rec = decision_ok env st rec" for rec
    by (rule decision_ok_cong) (simp add: putMetadata_def)
  then show ?thesis
    using assms by (auto simp: store_inv_def well_keyed_def overrides_ok_def reports_ok_def metadata_ok_def putMetadata_def
        dest!: update_subset [THEN subsetD])
qed

lemma wp_clock [wp_simps]: "wp (read_clock env) Q E s = Q (ge_clock env (gw_tick s)) (s\<lparr>gw_tick := Suc (gw_tick s)\<rparr>)"
  by (simp add: wp_def read_clock_def)

lemma wp_on_store [wp_simps]: "wp (on_store f) Q E s = Q () (s\<lparr>gw_store := f (gw_store s)\<rparr>)"
  by (simp add: on_store_def wp_simps)

lemma wp_ask_store [wp_simps]: "wp (ask_store f) Q E s = Q (f (gw_store s)) s"
  by (simp add: ask_store_def wp_simps)

lemma wp_refreshMetadata:
  assumes "upstream_ok env" and "gw_inv env s"
  shows "wp (refreshMetadata env p)
    (\<lambda>m t. gw_inv env t \<and> after s t \<and> wf_metadata m \<and> cached_as p m t) (\<lambda>_ t. gw_inv env t \<and> after s t) s"
proof (cases "ge_fetchMetadata env (gw_tick s) p")
  case None
  with assms show ?thesis by (simp add: refreshMetadata_def wp_simps)
next
  case (Some m)
  then have "wf_metadata m" using assms(1) by (auto simp: upstream_ok_def)
  with Some assms(2) put_metadata_inv show ?thesis
    by (simp add: refreshMetadata_def wp_simps after_def cached_as_def) (simp add: putMetadata_def update_conv')
qed

lemma wp_fetchMetadata:
  assumes "upstream_ok env" and "gw_inv env s"
  shows "wp (fetchMetadata env p)
    (\<lambda>m t. gw_inv env t \<and> after s t \<and> wf_metadata m \<and> cached_as p m t) (\<lambda>_ t. gw_inv env t \<and> after s t) s"
proof -
  let ?s = "s\<lparr>gw_tick := Suc (gw_tick s)\<rparr>"
  have refresh: "wp (refreshMetadata env p)
      (\<lambda>m t. gw_inv env t \<and> after s t \<and> wf_metadata m \<and> cached_as p m t) (\<lambda>_ t. gw_inv env t \<and> after s t) ?s"
    by (rule wp_mono [OF wp_refreshMetadata [OF assms(1), of ?s]]) (use assms(2) in \<open>auto simp: after_def\<close>)
  show ?thesis
  proof (cases "getMetadataRecord p (gw_store s)")
    case None
    with refresh show ?thesis by (simp add: fetchMetadata_def wp_simps)
  next
    case (Some c)
    then obtain m t where c: "c = (m, t)" "map_of (rg_metadata (gw_store s)) p = Some (m, t)"
      by (cases c) (auto simp: getMetadataRecord_def)
    then have "wf_metadata m" using assms(2) map_of_SomeD [OF c(2)] by (auto simp: store_inv_def metadata_ok_def)
    with Some c assms(2) refresh show ?thesis
      by (simp add: fetchMetadata_def wp_simps after_def cached_as_def)
  qed
qed

text \<open>Why a tarball may be served: a report of this very tarball, or an override that lets it pass.\<close>

definition granted :: "gateway_env \<Rightarrow> gateway \<Rightarrow> nat \<Rightarrow> npm_metadata \<Rightarrow> string \<Rightarrow> bool" where
  "granted env s n m v \<longleftrightarrow> has_report s m v \<or>
     (pc_overridesEnabled (ge_policy env) \<and>
       (\<exists>k ov. gw_tick s \<le> k \<and> k < n \<and> in_force env s k (nm_name m) v ov \<and> ov_action ov \<in> {Allow, Warn}))"

lemma justified_granted:
  assumes "justified env s n m v d" and "\<not> isDecisionBlockingInstall d (ge_runtimeMode env)"
    and "ge_runtimeMode env \<noteq> Development"
  shows "granted env s n m v"
proof -
  have "pd_action d \<in> {Allow, Warn}" using assms(2,3) by (cases "pd_action d") (auto simp: blocking_iff)
  moreover have "let_through env s n m v d" using assms(1,2) by (simp add: justified_def)
  ultimately show ?thesis unfolding let_through_def granted_def by metis
qed

lemma granted_after:
  assumes "after s0 s" and "granted env s n m v"
  shows "granted env s0 n m v"
proof -
  have "in_force env s k p v ov = in_force env s0 k p v ov" for k p ov
    using assms(1) by (simp add: after_def in_force_def candidates_cong [of "gw_store s" "gw_store s0"])
  then show ?thesis using assms unfolding granted_def after_def has_report_def by (metis le_trans)
qed

lemma granted_later: "granted env s n m v \<Longrightarrow> n \<le> n' \<Longrightarrow> granted env s n' m v"
  unfolding granted_def by (meson less_le_trans)

lemma find_mem: "find P xs = Some x \<Longrightarrow> x \<in> set xs \<and> P x"
  by (auto simp: find_Some_iff)

lemma resolved_version: "resolveVersionFromTarballName m t = Some v \<Longrightarrow> v \<in> fst ` set (nm_versions m)"
  by (auto simp: resolveVersionFromTarballName_def dest!: find_mem intro: rev_image_eqI)

lemma since_after: "since env s0 n s \<Longrightarrow> gw_tick s0 \<le> n \<Longrightarrow> gw_inv env s \<and> after s0 s"
  by (simp add: since_def after_def)

lemma after_trans: "after s0 s \<Longrightarrow> after s t \<Longrightarrow> after s0 t"
  by (auto simp: after_def)

lemma cached_since: "since env s0 n s \<Longrightarrow> cached_as p m s = cached_as p m s0"
  by (simp add: since_def cached_as_def)

text \<open>The part of the request that follows the metadata.\<close>

lemma hoare_gate:
  assumes "wf_metadata m" and "v \<in> fst ` set (nm_versions m)" and "store_inv env (gw_store s0)"
  shows "hoare (since env s0 (gw_tick s0))
    (bindE (evaluateAndCache env m v TarballRequest w False) (\<lambda>d.
       if isDecisionBlockingInstall d (ge_runtimeMode env)
       then ret (RpRefused (if pd_action d = Quarantine then 423 else 403) (buildMezairError p v d))
       else serve_tarball env m p v))
    (\<lambda>r s. ((\<exists>body c. r = RpTarball body c) \<and> ge_runtimeMode env \<noteq> Development \<longrightarrow> granted env s0 (gw_tick s) m v) \<and>
      since env s0 (gw_tick s0) s) (since env s0 (gw_tick s0))"
proof (rule hoare_bindE [OF hoare_evaluateAndCache [OF assms(1,2)]])
  fix d
  let ?n = "gw_tick s0"
  let ?J = "\<lambda>s. (TarballRequest = TarballRequest \<and> ge_runtimeMode env \<noteq> Development \<longrightarrow> justified env s0 (gw_tick s) m v d) \<and>
      since env s0 ?n s"
  let ?Q = "\<lambda>r s. ((\<exists>body c. r = RpTarball body c) \<and> ge_runtimeMode env \<noteq> Development \<longrightarrow> granted env s0 (gw_tick s) m v) \<and>
      since env s0 ?n s"
  have serve: "hoare ?J (serve_tarball env m p v) ?Q (since env s0 ?n)" if "\<not> isDecisionBlockingInstall d (ge_runtimeMode env)"
  proof (rule hoareI)
    fix s assume s: "?J s"
    have later: "since env s0 (gw_tick s) s" using s by (simp add: since_def)
    have "wp (serve_tarball env m p v) (\<lambda>_. since env s0 (gw_tick s)) (\<lambda>_. since env s0 (gw_tick s)) s"
      using keeps_serve later by (simp add: keeps_wp)
    then show "wp (serve_tarball env m p v) ?Q (\<lambda>_. since env s0 ?n) s"
    proof (rule wp_mono)
      fix r t assume t: "since env s0 (gw_tick s) t"
      have "granted env s0 (gw_tick t) m v" if "ge_runtimeMode env \<noteq> Development"
        using justified_granted [OF _ \<open>\<not> isDecisionBlockingInstall d (ge_runtimeMode env)\<close> that, of s0 "gw_tick s"] s that t
        by (auto simp: since_def intro: granted_later)
      moreover have "since env s0 ?n t" by (rule since_earlier [OF t]) (use s in \<open>simp add: since_def\<close>)
      ultimately show "?Q r t" by simp
    next
      fix t assume "since env s0 (gw_tick s) t"
      then show "since env s0 ?n t" by (rule since_earlier) (use s in \<open>simp add: since_def\<close>)
    qed
  qed
  show "hoare ?J (if isDecisionBlockingInstall d (ge_runtimeMode env)
       then ret (RpRefused (if pd_action d = Quarantine then 423 else 403) (buildMezairError p v d))
       else serve_tarball env m p v) ?Q (since env s0 ?n)"
    by (rule hoare_if, rule hoare_ret, simp, rule serve)
qed

lemma wp_handleTarballRequest:
  assumes "upstream_ok env" and "gw_inv env s"
  shows "wp (handleTarballRequest env p t)
    (\<lambda>r u. gw_inv env u \<and> after s u \<and> ((\<exists>body c. r = RpTarball body c) \<and> ge_runtimeMode env \<noteq> Development \<longrightarrow>
      (\<exists>m v. cached_as p m u \<and> resolveVersionFromTarballName m t = Some v \<and> granted env s (gw_tick u) m v)))
    (\<lambda>_ u. gw_inv env u \<and> after s u) s"
  unfolding handleTarballRequest_def wp_bindE
proof (rule wp_mono [OF wp_fetchMetadata [OF assms]])
  fix m s1 assume s1: "gw_inv env s1 \<and> after s s1 \<and> wf_metadata m \<and> cached_as p m s1"
  let ?Q = "\<lambda>r u. gw_inv env u \<and> after s u \<and> ((\<exists>body c. r = RpTarball body c) \<and> ge_runtimeMode env \<noteq> Development \<longrightarrow>
      (\<exists>m v. cached_as p m u \<and> resolveVersionFromTarballName m t = Some v \<and> granted env s (gw_tick u) m v))"
  show "wp (case resolveVersionFromTarballName m t of
        None \<Rightarrow> ret (RpError 404 ''MEZAIR_TARBALL_VERSION_NOT_FOUND'')
      | Some version \<Rightarrow>
         if version = [] then ret (RpError 404 ''MEZAIR_TARBALL_VERSION_NOT_FOUND'') else
         bindE (safeWeeklyDownloads env p) (\<lambda>weeklyDownloads.
         thenE (persistPackageVersions env m weeklyDownloads)
         (bindE (evaluateAndCache env m version TarballRequest weeklyDownloads False) (\<lambda>d.
           if isDecisionBlockingInstall d (ge_runtimeMode env)
           then ret (RpRefused (if pd_action d = Quarantine then 423 else 403) (buildMezairError p version d))
           else serve_tarball env m p version)))) ?Q (\<lambda>_ u. gw_inv env u \<and> after s u) s1"
  proof (cases "resolveVersionFromTarballName m t")
    case None
    with s1 show ?thesis by (simp add: wp_ret)
  next
    case (Some v)
    have base: "since env s1 (gw_tick s1) s1" using s1 since_start by blast
    have "hoare (since env s1 (gw_tick s1)) (bindE (safeWeeklyDownloads env p) (\<lambda>w.
         thenE (persistPackageVersions env m w)
         (bindE (evaluateAndCache env m v TarballRequest w False) (\<lambda>d.
           if isDecisionBlockingInstall d (ge_runtimeMode env)
           then ret (RpRefused (if pd_action d = Quarantine then 423 else 403) (buildMezairError p v d))
           else serve_tarball env m p v))))
        (\<lambda>r u. ((\<exists>body c. r = RpTarball body c) \<and> ge_runtimeMode env \<noteq> Development \<longrightarrow> granted env s1 (gw_tick u) m v) \<and>
          since env s1 (gw_tick s1) u) (since env s1 (gw_tick s1))"
      using s1 resolved_version [OF Some]
      by (intro hoare_bindE [OF hoare_keeps] hoare_keeps_then gateway_keeps hoare_gate) auto
    note run = hoareD [OF this base]
    have ok: "gw_inv env u \<and> after s u" if "since env s1 (gw_tick s1) u" for u
      using since_after [OF that] s1 after_trans by blast
    show ?thesis
    proof (cases "v = []")
      case True
      with Some s1 show ?thesis by (simp add: wp_ret)
    next
      case False
      show ?thesis
        unfolding Some option.case if_not_P [OF False]
      proof (rule wp_mono [OF run])
        fix r u assume u: "((\<exists>body c. r = RpTarball body c) \<and> ge_runtimeMode env \<noteq> Development \<longrightarrow>
            granted env s1 (gw_tick u) m v) \<and> since env s1 (gw_tick s1) u"
        then have "cached_as p m u" using s1 cached_since by blast
        moreover have "granted env s (gw_tick u) m v" if "granted env s1 (gw_tick u) m v"
          using granted_after [OF _ that] s1 by blast
        ultimately show "?Q r u" using u ok Some by blast
      qed (rule ok)
    qed
  qed
qed auto

end
