(* ===== verification/Registry_System.thy ===== *)
theory Registry_System
  imports Registry_Gate
begin

text \<open>
  The registry as a system: the requests of the gateway, the overrides of its administrators and the
  records its analysis worker adds, in any order, and the invariant of the persistence in every
  state they reach. What the worker computes (reports, reviews, decisions) is arbitrary here; it
  stores its decisions under the analyser version of a report, never under the install policy's.
\<close>

section \<open>Overrides\<close>

definition forget :: "gateway_env \<Rightarrow> override \<Rightarrow> 'm reg_store \<Rightarrow> 'm reg_store" where
  "forget env ov = (if given (ov_version ov)
     then deletePolicyDecision (ov_packageName ov) (text_of (ov_version ov)) (pc_version (ge_policy env))
     else deletePolicyDecisionsForPackage (ov_packageName ov) (pc_version (ge_policy env)))"

lemma forget_decisions_eq: "forget_decisions env ov = on_store (forget env ov)"
  by (simp add: forget_decisions_def forget_def)

definition concerns :: "override \<Rightarrow> string \<Rightarrow> string \<Rightarrow> bool" where
  "concerns ov p v \<longleftrightarrow> ov_packageName ov = p \<and> (\<not> given (ov_version ov) \<or> text_of (ov_version ov) = v)"

lemma forget_eq: "forget env ov = delete_where (\<lambda>rec. concerns ov (dr_packageName rec) (dr_version rec) \<and>
    dr_policyVersion rec = pc_version (ge_policy env))"
  by (rule ext) (auto simp: forget_def deletePolicyDecision_def deletePolicyDecisionsForPackage_def concerns_def
      intro!: arg_cong [of _ _ "\<lambda>P. delete_where P _"] ext)

abbreviation key_of :: "override \<Rightarrow> string" where
  "key_of ov \<equiv> override_key (ov_packageName ov) (ov_version ov)"

lemma candidates_mem:
  "rec \<in> set (override_candidates p v st) \<longleftrightarrow>
     map_of (rg_overrides st) (packageVersionKey p v) = Some rec \<or> map_of (rg_overrides st) p = Some rec"
  by (auto simp: override_candidates_def map_filter_def)

text \<open>An override of another package or version is looked up under another key.\<close>

lemma other_key:
  assumes "isValidPackageName p" and "isValidPackageName (ov_packageName ov)" and "\<not> concerns ov p v"
  shows "key_of ov \<noteq> packageVersionKey p v" "key_of ov \<noteq> p"
  using assms(3) version_key_inj [OF assms(2,1)] version_key_bare [OF assms(1,2)] version_key_bare [OF assms(2,1)]
  by (auto simp: override_key_def concerns_def dest: sym)

lemma replace_override_inv:
  assumes "store_inv env st" and "isValidPackageName (ov_packageName (or_override rec'))"
  shows "store_inv env (forget env (or_override rec')
    (st\<lparr>rg_overrides := AList.update (key_of (or_override rec')) rec' (rg_overrides st)\<rparr>))"
proof -
  let ?ov = "or_override rec'" and ?st1 = "st\<lparr>rg_overrides := AList.update (key_of (or_override rec')) rec' (rg_overrides st)\<rparr>"
  let ?st2 = "forget env ?ov ?st1"
  have well_keyed: "well_keyed ?st1" using assms(1) by (simp add: store_inv_def well_keyed_def)
  have old: "set (rg_decisions ?st2) \<subseteq> {(k, rec) \<in> set (rg_decisions st).
      \<not> (concerns ?ov (dr_packageName rec) (dr_version rec) \<and> dr_policyVersion rec = pc_version (ge_policy env))}"
    unfolding forget_eq by (rule order_trans [OF delete_where_decisions [OF well_keyed]]) auto
  have lookup: "map_of (rg_overrides ?st2) k = (if k = key_of ?ov then Some rec' else map_of (rg_overrides st) k)" for k
    by (simp add: forget_eq update_conv')
  have "decision_ok env ?st2 rec" if rec: "(k, rec) \<in> set (rg_decisions ?st2)" for k rec
  proof -
    have ok: "decision_ok env st rec" and "\<not> (concerns ?ov (dr_packageName rec) (dr_version rec) \<and>
        dr_policyVersion rec = pc_version (ge_policy env))"
      using old rec assms(1) by (auto simp: store_inv_def)
    then have other: "override_candidates (dr_packageName rec) (dr_version rec) ?st2 =
        override_candidates (dr_packageName rec) (dr_version rec) st"
      if "text_of (ti_analyserVersion (dr_identity rec)) = installPolicyAnalyserVersion"
      using that other_key [OF _ assms(2), of "dr_packageName rec" "dr_version rec"]
      by (auto simp: override_candidates_def decision_ok_def lookup cong: option.case_cong)
    with ok show ?thesis by (auto simp: decision_ok_def follows_override_def)
  qed
  moreover have "well_keyed ?st2" using old well_keyed by (auto simp: well_keyed_def)
  moreover have "overrides_ok ?st2"
    using assms by (auto simp: overrides_ok_def forget_eq store_inv_def dest!: update_subset [THEN subsetD])
  moreover have "reports_ok ?st2" "metadata_ok ?st2"
    using assms(1) by (simp_all add: reports_ok_def metadata_ok_def forget_eq store_inv_def)
  ultimately show ?thesis by (auto simp: store_inv_def)
qed

lemma put_override_inv:
  assumes "store_inv env st" and "isValidPackageName (ov_packageName ov)"
  shows "store_inv env (forget env ov (putOverride now ov st))"
  using replace_override_inv [OF assms(1), of "\<lparr>or_override = ov, or_createdAt = now, or_revoked = False\<rparr>"] assms(2)
  by (simp add: putOverride_def)

lemma revoke_override_inv:
  assumes "store_inv env st" and "revokeOverride p v who st = (Some rec, st')"
  shows "store_inv env (forget env (or_override rec) st')"
proof -
  obtain old where old: "map_of (rg_overrides st) (override_key p v) = Some old"
    "or_override rec = (or_override old)\<lparr>ov_approvedBy := (case ov_approvedBy (or_override old) of None \<Rightarrow> Some who | Some a \<Rightarrow> Some a)\<rparr>"
    "st' = st\<lparr>rg_overrides := AList.update (override_key p v) rec (rg_overrides st)\<rparr>"
    using assms(2) by (auto simp: revokeOverride_def Let_def split: option.splits if_splits)
  then have "override_key p v = key_of (or_override rec)" "isValidPackageName (ov_packageName (or_override rec))"
    using assms(1) map_of_SomeD [OF old(1)] by (auto simp: store_inv_def overrides_ok_def)
  with replace_override_inv [OF assms(1), of rec] old(3) show ?thesis by simp
qed

lemma parsed_name: "parse_override_create body = Some ov \<Longrightarrow> isValidPackageName (ov_packageName ov)"
  by (auto simp: parse_override_create_def string_field_def package_name_string_def split: if_splits option.splits js.splits)

section \<open>Requests keep the invariant\<close>

lemma keeps_inv: "(\<And>s0 n. keeps (since env s0 n) m) \<Longrightarrow> keeps (gw_inv env) m"
  unfolding keeps_def using since_start since_after by (metis order_refl)

lemmas keeps_inv_parts = gateway_keeps [THEN keeps_inv]

lemma keeps_inv_evaluate:
  "wf_metadata m \<Longrightarrow> v \<in> fst ` set (nm_versions m) \<Longrightarrow> keeps (gw_inv env) (evaluateAndCache env m v reason w enq)"
  by (rule keepsI) (rule keeps_evaluateAndCache)

lemma tarball_inv: "upstream_ok env \<Longrightarrow> gw_inv env s \<Longrightarrow> gw_inv env (snd (handleTarballRequest env p t s))"
  using wp_mono [OF wp_handleTarballRequest [of env s p t], where Q' = "\<lambda>_. gw_inv env" and E' = "\<lambda>_. gw_inv env"]
  by (simp add: wp_state)

lemma fetched_inv:
  assumes "upstream_ok env" and "gw_inv env s" and "\<And>m. wf_metadata m \<Longrightarrow> keeps (gw_inv env) (f m)"
  shows "gw_inv env (snd (bindE (fetchMetadata env p) f s))"
proof -
  have "wp (bindE (fetchMetadata env p) f) (\<lambda>_. gw_inv env) (\<lambda>_. gw_inv env) s"
    unfolding wp_bindE
    by (rule wp_mono [OF wp_fetchMetadata [OF assms(1,2)]]) (use assms(3) in \<open>auto simp: keeps_wp\<close>)
  then show ?thesis by (simp add: wp_state)
qed

lemma metadata_inv: "upstream_ok env \<Longrightarrow> gw_inv env s \<Longrightarrow> gw_inv env (snd (handleMetadataRequest env p s))"
  unfolding handleMetadataRequest_def evaluate_all_def
  by (rule fetched_inv) (auto intro!: keeps_intros keeps_seqE keeps_inv_parts keeps_inv_evaluate intro: rev_image_eqI
      split: option.split)

lemma explain_inv: "upstream_ok env \<Longrightarrow> gw_inv env s \<Longrightarrow> gw_inv env (snd (explainVersion env p v s))"
  unfolding explainVersion_def
  by (rule fetched_inv) (auto intro!: keeps_intros keeps_inv_parts keeps_inv_evaluate dest: map_of_SomeD
      intro: rev_image_eqI split: option.split)

lemma wp_audit_inv: "gw_inv env s \<Longrightarrow> wp (thenE (put_audit env e) (ret r)) (\<lambda>_. gw_inv env) (\<lambda>_. gw_inv env) s"
  using keeps_inv [OF keeps_thenE [OF keeps_audit keeps_ret], of env e r] by (simp add: keeps_wp)

lemma override_inv:
  assumes "gw_inv env s"
  shows "gw_inv env (snd (postOverride env auth body s))"
proof -
  have "wp (postOverride env auth body) (\<lambda>_. gw_inv env) (\<lambda>_. gw_inv env) s"
    unfolding postOverride_def Let_def forget_decisions_eq
    using assms parsed_name [of body]
    by (auto simp: wp_ret wp_throw wp_clock wp_on_store wp_bindE wp_thenE [of "on_store f" for f]
        split: option.split sum.split intro!: wp_audit_inv put_override_inv)
  then show ?thesis by (simp add: wp_state)
qed

lemma revoke_inv:
  assumes "gw_inv env s"
  shows "gw_inv env (snd (postOverrideRevoke env auth body s))"
proof -
  have "wp (postOverrideRevoke env auth body) (\<lambda>_. gw_inv env) (\<lambda>_. gw_inv env) s"
    unfolding postOverrideRevoke_def Let_def forget_decisions_eq
    using assms
    by (auto simp: wp_ret wp_throw wp_ask_store wp_on_store wp_bindE wp_thenE [of "on_store f" for f]
        split: option.split prod.split intro!: wp_audit_inv revoke_override_inv)
  then show ?thesis by (simp add: wp_state)
qed

section \<open>The system\<close>

definition with_store :: "(npm_metadata reg_store \<Rightarrow> npm_metadata reg_store) \<Rightarrow> gateway \<Rightarrow> gateway" where
  "with_store f s = s\<lparr>gw_store := f (gw_store s)\<rparr>"

inductive reg_step :: "gateway_env \<Rightarrow> gateway \<Rightarrow> gateway \<Rightarrow> bool" for env where
  tarball: "reg_step env s (snd (handleTarballRequest env p t s))"
| metadata: "reg_step env s (snd (handleMetadataRequest env p s))"
| explain: "reg_step env s (snd (explainVersion env p v s))"
| override: "reg_step env s (snd (postOverride env auth body s))"
| revoke: "reg_step env s (snd (postOverrideRevoke env auth body s))"
| analysed: "reg_step env s (with_store (putAnalysisReport now r) s)"
| decided: "isValidPackageName p \<Longrightarrow> colon_free v \<Longrightarrow> ti_analyserVersion i = Some a \<Longrightarrow> colon_free a \<Longrightarrow>
    a \<noteq> installPolicyAnalyserVersion \<Longrightarrow> reg_step env s (with_store (putPolicyDecision now p v pv d i) s)"
| reviewed: "reg_step env s (with_store (putLlmRiskReview now p v i review) s)"
| audited: "reg_step env s (with_store (putAuditEvent now e) s)"
| versioned: "reg_step env s (with_store (putPackageVersion now now' vi) s)"
| taken: "reg_step env s (s\<lparr>gw_queue := q\<rparr>)"
| waited: "gw_tick s \<le> k \<Longrightarrow> reg_step env s (s\<lparr>gw_tick := k\<rparr>)"

lemma analysed_inv: "store_inv env st \<Longrightarrow> store_inv env (putAnalysisReport now r st)"
  using decision_ok_cong [of "putAnalysisReport now r st" st]
  by (auto simp: putAnalysisReport_def store_inv_def well_keyed_def overrides_ok_def reports_ok_def metadata_ok_def
      dest!: update_subset [THEN subsetD])

lemma decided_inv:
  fixes s :: gateway
  assumes "store_inv env (gw_store s)" and "isValidPackageName p" and "colon_free v" and "ti_analyserVersion i = Some a"
    and "colon_free a" and "a \<noteq> installPolicyAnalyserVersion"
  shows "store_inv env (putPolicyDecision now p v pv d i (gw_store s))"
  using put_decision_inv [OF since_start [OF assms(1)], of p v i pv d now] assms(2-6) by (simp add: text_of_def since_def)

lemma reg_step_inv:
  assumes "upstream_ok env" and "gw_inv env s" and "reg_step env s t"
  shows "gw_inv env t"
  using assms(3)
proof cases
  case (decided p v i a now pv d)
  with decided_inv [OF assms(2)] show ?thesis by (simp add: with_store_def)
next
  case (reviewed now p v i review)
  then show ?thesis by (simp add: with_store_def store_inv_unchanged [OF assms(2)] putLlmRiskReview_def)
next
  case (audited now e)
  then show ?thesis by (simp add: with_store_def store_inv_unchanged [OF assms(2)] putAuditEvent_def)
next
  case (versioned now now' vi)
  then show ?thesis by (simp add: with_store_def store_inv_unchanged [OF assms(2)] putPackageVersion_def Let_def)
qed (use assms(1,2) in \<open>auto simp: with_store_def tarball_inv metadata_inv explain_inv override_inv revoke_inv analysed_inv\<close>)

definition gateway_start :: gateway where
  "gateway_start = \<lparr>gw_store = empty_store, gw_queue = [], gw_objects = [], gw_tick = 0\<rparr>"

definition reg_reachable :: "gateway_env \<Rightarrow> gateway \<Rightarrow> bool" where
  "reg_reachable env s \<longleftrightarrow> (reg_step env)\<^sup>*\<^sup>* gateway_start s"

lemma reachable_inv:
  assumes "upstream_ok env" and "reg_reachable env s"
  shows "gw_inv env s"
  using assms(2) unfolding reg_reachable_def
proof (induction rule: rtranclp_induct)
  case base
  show ?case by (simp add: gateway_start_def store_inv_empty)
next
  case (step s t)
  then show ?case by (blast intro: reg_step_inv [OF assms(1)])
qed

lemma reachable_start [simp]: "reg_reachable env gateway_start"
  by (simp add: reg_reachable_def)

lemma reachable_next: "reg_reachable env s \<Longrightarrow> reg_step env s t \<Longrightarrow> reg_reachable env t"
  by (simp add: reg_reachable_def)

end
