(* ===== verification/Registry_Overrides.thy ===== *)
theory Registry_Overrides
  imports Registry_System
begin

text \<open>
  An override takes effect at once: storing it drops the decisions of the versions it concerns, so
  the next request for such a version is decided anew, under the override.
\<close>

section \<open>The state after an override was stored\<close>

text \<open>The overrides and decisions are \<open>ovs\<close> and \<open>ds\<close>, and the clock was read up to \<open>n\<close>.\<close>

definition frozen ::
    "gateway_env \<Rightarrow> (string \<times> override_record) list \<Rightarrow> (string \<times> decision_record) list \<Rightarrow> nat \<Rightarrow> gateway \<Rightarrow> bool" where
  "frozen env ovs ds n s \<longleftrightarrow> gw_inv env s \<and> rg_overrides (gw_store s) = ovs \<and> rg_decisions (gw_store s) = ds \<and> n \<le> gw_tick s"

named_theorems frozen_keeps "operations that leave overrides and decisions alone"

lemma frozen_clock [frozen_keeps]: "keeps (frozen env ovs ds n) (read_clock env)"
  by (simp add: keeps_def frozen_def read_clock_def)

lemma frozen_ask [frozen_keeps]: "keeps (frozen env ovs ds n) (ask_store f)"
  by (simp add: ask_store_def keeps_gets)

lemma frozen_put_version [frozen_keeps]: "keeps (frozen env ovs ds n) (put_version env v)"
proof -
  have "store_inv env (putPackageVersion a b v st) \<and> rg_overrides (putPackageVersion a b v st) = rg_overrides st \<and>
      rg_decisions (putPackageVersion a b v st) = rg_decisions st" if "store_inv env st" for a b and st :: "npm_metadata reg_store"
    using store_inv_unchanged [OF that, of "putPackageVersion a b v st"] by (simp add: putPackageVersion_def Let_def)
  then show ?thesis
    by (auto simp: keeps_wp put_version_def wp_bindE wp_clock wp_on_store frozen_def)
qed

lemma frozen_versions [frozen_keeps]: "keeps (frozen env ovs ds n) (persistPackageVersions env m w)"
  unfolding persistPackageVersions_def by (intro keeps_intros keeps_seqE) (auto intro: frozen_keeps)

lemma frozen_downloads [frozen_keeps]: "keeps (frozen env ovs ds n) (safeWeeklyDownloads env p)"
  by (simp add: safeWeeklyDownloads_def keeps_gets)

lemma hoare_fetch_frozen:
  assumes "upstream_ok env"
  shows "hoare (frozen env ovs ds n) (fetchMetadata env p)
    (\<lambda>m s. wf_metadata m \<and> cached_as p m s \<and> frozen env ovs ds n s) (\<lambda>_. True)"
proof (rule hoareI)
  fix s assume s: "frozen env ovs ds n s"
  have "keeps (\<lambda>t. rg_decisions (gw_store t) = ds) (fetchMetadata env p)"
    unfolding fetchMetadata_def refreshMetadata_def ask_store_def
    by (intro keeps_intros) (auto simp: keeps_def read_clock_def on_store_def modify_def putMetadata_def intro!: keeps_intros)
  then have "wp (fetchMetadata env p) (\<lambda>_ t. rg_decisions (gw_store t) = ds) (\<lambda>_ t. rg_decisions (gw_store t) = ds) s"
    using s by (simp add: keeps_wp frozen_def)
  from wp_conj [OF this wp_fetchMetadata [OF assms]]
  show "wp (fetchMetadata env p) (\<lambda>m t. wf_metadata m \<and> cached_as p m t \<and> frozen env ovs ds n t) (\<lambda>_ _. True) s"
    by (rule wp_mono) (use s in \<open>auto simp: frozen_def after_def\<close>)
qed

section \<open>Deciding under an override\<close>

definition not_past :: "gateway_env \<Rightarrow> string option \<Rightarrow> nat \<Rightarrow> bool" where
  "not_past env e k \<longleftrightarrow> (given e \<longrightarrow> (\<exists>t. parse_date (ge_platform env) e = Some t \<and> ge_clock env k < t))"

text \<open>The printed clock reads back.\<close>

definition clock_prints :: "gateway_env \<Rightarrow> bool" where
  "clock_prints env \<longleftrightarrow> (\<forall>k. pf_iso (ge_platform env) (ge_clock env k) \<noteq> [] \<and>
     pf_date (ge_platform env) (pf_iso (ge_platform env) (ge_clock env k)) = Some (ge_clock env k))"

lemma override_decides:
  assumes "clock_prints env" and "pc_overridesEnabled (ge_policy env)"
    and "given (ov_version ov) \<Longrightarrow> ov_version ov = Some v" and "not_past env (ov_expiresAt ov) k"
  shows "evaluatePolicy (ge_platform env) now (gateway_input env m v w (ge_clock env k) required report review (Some ov)) =
    Inr (override_decision (gateway_input env m v w (ge_clock env k) required report review (Some ov)) ov)"
proof (rule evaluatePolicy_override)
  let ?in = "gateway_input env m v w (ge_clock env k) required report review (Some ov)"
  show "evaluationTimestamp (ge_platform env) now (pi_evaluatedAt ?in) = Inr (ge_clock env k)"
    using assms(1) by (simp add: gateway_input_def Let_def evaluationTimestamp_def clock_prints_def)
  have "pi_version ?in = v" by (simp add: gateway_input_def Let_def)
  then show "resolveActiveOverride (ge_platform env) ?in (ge_clock env k) = Some ov"
    using assms(2-4) by (auto simp: resolveActiveOverride_def not_past_def split: option.splits)
qed

text \<open>The record that the request for package \<open>p\<close> and version \<open>v\<close> finds first, and no decision of that version.\<close>

definition governs :: "gateway_env \<Rightarrow> override \<Rightarrow> string \<Rightarrow> string \<Rightarrow> (string \<times> override_record) list \<Rightarrow> bool" where
  "governs env ov p v ovs \<longleftrightarrow> (\<exists>rec. map_of ovs (packageVersionKey p v) = Some rec \<and> or_override rec = ov \<and> \<not> or_revoked rec)"

definition undecided :: "gateway_env \<Rightarrow> string \<Rightarrow> string \<Rightarrow> (string \<times> decision_record) list \<Rightarrow> bool" where
  "undecided env p v ds \<longleftrightarrow> (\<forall>(k, rec) \<in> set ds. \<not> (dr_packageName rec = p \<and> dr_version rec = v \<and>
     dr_policyVersion rec = pc_version (ge_policy env)))"

lemma governed_override:
  assumes "governs env ov p v (rg_overrides st)" and "not_past env (ov_expiresAt ov) k"
  shows "getOverride (ge_platform env) (ge_clock env k) p v st = Some ov"
  using assms by (auto simp: governs_def getOverride_def override_candidates_def map_filter_def override_live_def not_past_def
      split: option.splits)

text \<open>The policy version is part of the key, after the version and before the identity.\<close>

lemma undecided_lookup:
  assumes "gw_inv env s" and "undecided env p v (rg_decisions (gw_store s))" and "isValidPackageName p" and "colon_free v"
    and "colon_free (text_of (ti_analyserVersion i))" and "colon_free (pc_version (ge_policy env))"
    and "\<forall>(k, rec) \<in> set (rg_decisions (gw_store s)). colon_free (dr_policyVersion rec)"
  shows "getPolicyDecision pf now p v (pc_version (ge_policy env)) i (gw_store s) = None"
proof (rule ccontr)
  let ?K = "decisionKey p v (pc_version (ge_policy env)) i"
  assume "getPolicyDecision pf now p v (pc_version (ge_policy env)) i (gw_store s) \<noteq> None"
  then obtain rec where "map_of (rg_decisions (gw_store s)) ?K = Some rec"
    by (auto simp: getPolicyDecision_def split: option.splits)
  then have rec: "(?K, rec) \<in> set (rg_decisions (gw_store s))" by (rule map_of_SomeD)
  then have key: "record_key rec = ?K" and ok: "decision_ok env (gw_store s) rec"
    using assms(1) by (auto simp: store_inv_def well_keyed_def)
  have "dr_packageName rec = p \<and> dr_version rec = v \<and>
      text_of (ti_analyserVersion (dr_identity rec)) = text_of (ti_analyserVersion i)"
    using ok assms(3-5) by (intro decisionKey_inj [OF key [unfolded record_key_def]]) (simp_all add: decision_ok_def)
  moreover have "dr_policyVersion rec = pc_version (ge_policy env)"
    using key calculation rec assms(6,7) by (auto simp: record_key_def decisionKey_def first_part_inj colon_free_def)
  ultimately show False using assms(2) rec by (auto simp: undecided_def)
qed

text \<open>What makes the stored override decide: it is found first, no decision precedes it, it has not lapsed.\<close>

definition in_charge :: "gateway_env \<Rightarrow> override \<Rightarrow> string \<Rightarrow> string \<Rightarrow> nat \<Rightarrow>
    (string \<times> override_record) list \<Rightarrow> (string \<times> decision_record) list \<Rightarrow> bool" where
  "in_charge env ov p v n ovs ds \<longleftrightarrow> governs env ov p v ovs \<and> undecided env p v ds \<and>
     (\<forall>(k, rec) \<in> set ds. colon_free (dr_policyVersion rec)) \<and> colon_free (pc_version (ge_policy env)) \<and>
     pc_overridesEnabled (ge_policy env) \<and> clock_prints env \<and>
     (given (ov_version ov) \<longrightarrow> ov_version ov = Some v) \<and> (\<forall>k \<ge> n. not_past env (ov_expiresAt ov) k)"

lemma wp_evaluate_governed:
  assumes "in_charge env ov (nm_name m) v n (rg_overrides (gw_store s)) ds" and "n \<le> gw_tick s"
  shows "wp (evaluate_version env m v reason w enq required report review i) (\<lambda>d _. pd_action d = ov_action ov) (\<lambda>_ _. True) s"
proof -
  have found: "getOverride (ge_platform env) (ge_clock env (Suc (gw_tick s))) (nm_name m) v (gw_store s) = Some ov"
    by (rule governed_override) (use assms in \<open>auto simp: in_charge_def\<close>)
  have "evaluatePolicy (ge_platform env) now (gateway_input env m v w (ge_clock env (gw_tick s)) required report review (Some ov)) =
      Inr (override_decision (gateway_input env m v w (ge_clock env (gw_tick s)) required report review (Some ov)) ov)" for now
    by (rule override_decides) (use assms in \<open>auto simp: in_charge_def\<close>)
  then show ?thesis
    by (simp add: evaluate_version_def wp_simps found)
      (rule wp_mono [OF staysD [OF record_decision_returns]], simp_all add: override_decision_def)
qed

lemma wp_decide_governed:
  assumes "gw_inv env s" and "in_charge env ov (nm_name m) v n (rg_overrides (gw_store s)) (rg_decisions (gw_store s))"
    and "n \<le> gw_tick s" and "wf_metadata m" and "v \<in> fst ` set (nm_versions m)"
    and "\<forall>ar. report = Some ar \<longrightarrow> ar_analyserVersion ar = STATIC_ANALYSER_VERSION"
  shows "wp (decide_version env m v reason w enq report review) (\<lambda>d _. pd_action d = ov_action ov) (\<lambda>_ _. True) s"
proof -
  have "colon_free (text_of (ti_analyserVersion (decision_identity env m v reason report)))"
    using assms(6) analyser_names by (auto simp: decision_identity_def report_analyser_def text_of_def split: option.splits)
  then have "getPolicyDecision (ge_platform env) (ge_clock env (gw_tick s)) (nm_name m) v (pc_version (ge_policy env))
      (decision_identity env m v reason report) (gw_store s) = None"
    using assms by (intro undecided_lookup) (auto simp: in_charge_def wf_metadata_def)
  then show ?thesis
    using assms by (auto simp: decide_version_def Let_def wp_simps intro: wp_evaluate_governed)
qed

lemma wp_cache_governed:
  assumes "gw_inv env s" and "in_charge env ov (nm_name m) v n (rg_overrides (gw_store s)) (rg_decisions (gw_store s))"
    and "n \<le> gw_tick s" and "wf_metadata m" and "v \<in> fst ` set (nm_versions m)"
  shows "wp (evaluateAndCache env m v reason w enq) (\<lambda>d _. pd_action d = ov_action ov) (\<lambda>_ _. True) s"
proof -
  let ?report = "getAnalysisReport (nm_name m) v (analysis_identity (toVersionMetadata m v) STATIC_ANALYSER_VERSION) (gw_store s)"
  have "\<forall>ar. ?report = Some ar \<longrightarrow> ar_analyserVersion ar = STATIC_ANALYSER_VERSION"
    using found_report(2) [of s m v] assms(1) by (auto simp: store_inv_def)
  from wp_decide_governed [OF assms this] show ?thesis
    by (simp add: evaluateAndCache_def Let_def wp_simps)
qed

text \<open>The rest of a tarball request leaves the metadata as it was fetched.\<close>

lemma keeps_metadata:
  "keeps (\<lambda>u. rg_metadata (gw_store u) = ms) (read_clock env)"
  "keeps (\<lambda>u. rg_metadata (gw_store u) = ms) (ask_store f)"
  "keeps (\<lambda>u. rg_metadata (gw_store u) = ms) (put_audit env e)"
  "keeps (\<lambda>u. rg_metadata (gw_store u) = ms) (put_version env vi)"
  "keeps (\<lambda>u. rg_metadata (gw_store u) = ms) (enqueueAnalysisJob job)"
  "keeps (\<lambda>u. rg_metadata (gw_store u) = ms) (on_store (putPolicyDecision created q v pv d i))"
  by (simp_all add: keeps_wp wp_simps put_audit_def put_version_def enqueueAnalysisJob_def putAuditEvent_def
      putPackageVersion_def putPolicyDecision_def Let_def split: option.splits)

lemma keeps_metadata_evaluate: "keeps (\<lambda>u. rg_metadata (gw_store u) = ms) (evaluateAndCache env m v reason w enq)"
  unfolding evaluateAndCache_def decide_version_def evaluate_version_def record_decision_def enqueueAnalysisJobIfNeeded_def
    hasRecentAnalysisEnqueue_def enqueue_now_def Let_def
  by (intro keeps_intros keeps_metadata)

lemma keeps_metadata_serve: "keeps (\<lambda>u. rg_metadata (gw_store u) = ms) (serve_tarball env m q v)"
proof -
  have "keeps (\<lambda>u. rg_metadata (gw_store u) = ms) (modify (\<lambda>s. s\<lparr>gw_objects := f (gw_objects s)\<rparr>))" for f
    by (simp add: keeps_wp wp_simps)
  then show ?thesis unfolding serve_tarball_def Let_def by (intro keeps_intros keeps_metadata)
qed

definition answer_tarball :: "gateway_env \<Rightarrow> string \<Rightarrow> npm_metadata \<Rightarrow> string \<Rightarrow> gateway_reply gateway_op" where
  "answer_tarball env p m v = bindE (safeWeeklyDownloads env p) (\<lambda>w. thenE (persistPackageVersions env m w)
     (bindE (evaluateAndCache env m v TarballRequest w False) (\<lambda>d.
       if isDecisionBlockingInstall d (ge_runtimeMode env)
       then ret (RpRefused (if pd_action d = Quarantine then 423 else 403) (buildMezairError p v d))
       else serve_tarball env m p v)))"

lemma handleTarballRequest_eq:
  "handleTarballRequest env p t = bindE (fetchMetadata env p) (\<lambda>m. (case resolveVersionFromTarballName m t of
     None \<Rightarrow> ret (RpError 404 ''MEZAIR_TARBALL_VERSION_NOT_FOUND'')
   | Some v \<Rightarrow> if v = [] then ret (RpError 404 ''MEZAIR_TARBALL_VERSION_NOT_FOUND'') else answer_tarball env p m v))"
  unfolding handleTarballRequest_def answer_tarball_def ..

lemma keeps_metadata_answer: "keeps (\<lambda>u. rg_metadata (gw_store u) = ms) (answer_tarball env p m v)"
  unfolding answer_tarball_def safeWeeklyDownloads_def persistPackageVersions_def
  by (intro keeps_intros keeps_seqE keeps_metadata_evaluate keeps_metadata_serve) (auto intro: keeps_metadata)

lemma wp_answer_governed:
  assumes "frozen env ovs ds n s" and "in_charge env ov (nm_name m) v n ovs ds" and "ov_action ov = Block"
    and "wf_metadata m" and "v \<in> fst ` set (nm_versions m)"
  shows "wp (answer_tarball env p m v) (\<lambda>r _. \<exists>e. r = RpRefused 403 e) (\<lambda>_ _. True) s"
proof -
  have refused: "wp (bindE (evaluateAndCache env m v TarballRequest w False) (\<lambda>d.
       if isDecisionBlockingInstall d (ge_runtimeMode env)
       then ret (RpRefused (if pd_action d = Quarantine then 423 else 403) (buildMezairError p v d))
       else serve_tarball env m p v)) (\<lambda>r _. \<exists>e. r = RpRefused 403 e) (\<lambda>_ _. True) u" if "frozen env ovs ds n u" for w u
    unfolding wp_bindE
    by (rule wp_mono [OF wp_cache_governed [of env u ov m v n]])
      (use that assms in \<open>auto simp: frozen_def wp_ret isDecisionBlockingInstall_def\<close>)
  have "hoare (frozen env ovs ds n) (persistPackageVersions env m w) (\<lambda>_. frozen env ovs ds n) (\<lambda>_. True)" for w
    by (rule hoare_conseq [OF hoare_keeps [OF frozen_versions]]) simp_all
  then have "hoare (frozen env ovs ds n) (answer_tarball env p m v) (\<lambda>r _. \<exists>e. r = RpRefused 403 e) (\<lambda>_. True)"
    unfolding answer_tarball_def safeWeeklyDownloads_def
    by (intro hoare_bindE [OF hoare_gets [where Q = "\<lambda>_. frozen env ovs ds n"]] hoare_thenE hoareI refused)
      (auto dest: hoareD)
  with assms(1) show ?thesis by (rule hoareD [rotated])
qed

lemma wp_allI:
  "(\<And>x. A x \<Longrightarrow> wp m Q (\<lambda>_ _. True) s) \<Longrightarrow> wp m (\<lambda>r u. \<forall>x. A x \<longrightarrow> Q r u) (\<lambda>_ _. True) s"
  by (auto simp: wp_def split: prod.splits sum.splits)

text \<open>A tarball of a version that a refusing override governs is refused.\<close>

lemma wp_tarball_governed:
  assumes "upstream_ok env" and "gw_inv env s"
  shows "wp (handleTarballRequest env p t)
    (\<lambda>r u. \<exists>m. cached_as p m u \<and> (\<forall>v ov. resolveVersionFromTarballName m t = Some v \<longrightarrow> v \<noteq> [] \<longrightarrow>
       in_charge env ov (nm_name m) v (gw_tick s) (rg_overrides (gw_store s)) (rg_decisions (gw_store s)) \<longrightarrow>
       ov_action ov = Block \<longrightarrow> (\<exists>e. r = RpRefused 403 e))) (\<lambda>_ _. True) s"
  (is "wp _ ?Q _ s")
proof -
  let ?F = "frozen env (rg_overrides (gw_store s)) (rg_decisions (gw_store s)) (gw_tick s)"
  have "?F s" using assms(2) by (simp add: frozen_def)
  note fetched = hoareD [OF hoare_fetch_frozen [OF assms(1)] this]
  show ?thesis
    unfolding handleTarballRequest_eq wp_bindE
  proof (rule wp_mono [OF fetched])
    fix m s1 assume s1: "wf_metadata m \<and> cached_as p m s1 \<and> ?F s1"
    show "wp (case resolveVersionFromTarballName m t of
        None \<Rightarrow> ret (RpError 404 ''MEZAIR_TARBALL_VERSION_NOT_FOUND'')
      | Some v \<Rightarrow> if v = [] then ret (RpError 404 ''MEZAIR_TARBALL_VERSION_NOT_FOUND'') else answer_tarball env p m v)
      ?Q (\<lambda>_ _. True) s1"
    proof (cases "resolveVersionFromTarballName m t")
      case None
      with s1 show ?thesis by (auto simp: wp_ret)
    next
      case (Some v)
      have kept: "wp (answer_tarball env p m v) (\<lambda>_ u. cached_as p m u) (\<lambda>_ _. True) s1"
        using keepsD [OF keeps_metadata_answer [of "rg_metadata (gw_store s1)" env p m v] refl] s1
        by (auto simp: wp_def cached_as_def split: prod.splits sum.splits)
      have "wp (answer_tarball env p m v) (\<lambda>r _. \<forall>ov. in_charge env ov (nm_name m) v (gw_tick s) (rg_overrides (gw_store s))
          (rg_decisions (gw_store s)) \<and> ov_action ov = Block \<longrightarrow> (\<exists>e. r = RpRefused 403 e)) (\<lambda>_ _. True) s1"
        by (rule wp_allI, rule wp_answer_governed [OF conjunct2 [OF conjunct2 [OF s1]]])
          (use s1 resolved_version [OF Some] in auto)
      from wp_conj [OF kept this] have "wp (answer_tarball env p m v) ?Q (\<lambda>_ _. True) s1"
        by (rule wp_mono) (use Some in auto)
      with Some s1 show ?thesis by (auto simp: wp_ret)
    qed
  qed
qed

section \<open>Storing an override\<close>

lemma forgotten:
  assumes "well_keyed st" and "concerns ov p v"
  shows "undecided env p v (rg_decisions (forget env ov st))"
  using delete_where_decisions [OF assms(1)] assms(2) unfolding forget_eq undecided_def by fastforce

lemma forget_subset: "well_keyed st \<Longrightarrow> set (rg_decisions (forget env ov st)) \<subseteq> set (rg_decisions st)"
  using delete_where_decisions unfolding forget_eq by fastforce

text \<open>The override that a request body and its expiry make.\<close>

definition stored_override :: "override \<Rightarrow> string option \<Rightarrow> override" where
  "stored_override parsed expiresAt = parsed\<lparr>ov_approvedBy := Some (or_default (ov_approvedBy parsed) ''local-admin''),
     ov_expiresAt := expiresAt\<rparr>"

lemma postOverride_stores:
  assumes "postOverride env auth body s = (Inr (RpDone n), s')"
  obtains parsed expiresAt now created where "parse_override_create body = Some parsed"
    "resolveOverrideExpiry (ge_platform env) (ov_expiresAt parsed) (pc_defaultExpiryDays (ge_policy env)) now = Inr (Some expiresAt)"
    "rg_overrides (gw_store s') = rg_overrides (putOverride created (stored_override parsed expiresAt) (gw_store s))"
    "rg_decisions (gw_store s') = rg_decisions (forget env (stored_override parsed expiresAt)
       (putOverride created (stored_override parsed expiresAt) (gw_store s)))"
  using assms unfolding postOverride_def Let_def forget_decisions_eq put_audit_def
  by (auto simp: bindE_def thenE_def ret_def throw_def read_clock_def on_store_def modify_def stored_override_def forget_eq
      putAuditEvent_def split: if_splits option.splits sum.splits)

lemma override_in_charge:
  assumes "gw_inv env s" and "postOverride env auth body s = (Inr (RpDone n), s')"
    and "parse_override_create body = Some parsed" and "ov_version parsed = Some v" and "v \<noteq> []"
    and "pc_overridesEnabled (ge_policy env)" and "clock_prints env" and "colon_free (pc_version (ge_policy env))"
    and "\<forall>(k, rec) \<in> set (rg_decisions (gw_store s)). colon_free (dr_policyVersion rec)"
    and "map_of (rg_overrides (gw_store s')) (packageVersionKey (ov_packageName parsed) v) = Some rec"
    and "\<forall>k \<ge> gw_tick s'. not_past env (ov_expiresAt (or_override rec)) k"
  shows "ov_action (or_override rec) = ov_action parsed"
    "in_charge env (or_override rec) (ov_packageName parsed) v (gw_tick s') (rg_overrides (gw_store s')) (rg_decisions (gw_store s'))"
proof -
  obtain expiresAt created where s': "rg_overrides (gw_store s') = rg_overrides (putOverride created (stored_override parsed expiresAt) (gw_store s))"
    "rg_decisions (gw_store s') = rg_decisions (forget env (stored_override parsed expiresAt)
       (putOverride created (stored_override parsed expiresAt) (gw_store s)))"
    using postOverride_stores [OF assms(2)] assms(3) by (metis option.inject)
  let ?ov = "stored_override parsed expiresAt" and ?st = "putOverride created (stored_override parsed expiresAt) (gw_store s)"
  have ov: "ov_packageName ?ov = ov_packageName parsed" "ov_version ?ov = Some v" "ov_action ?ov = ov_action parsed"
    using assms(4) by (simp_all add: stored_override_def)
  have key: "override_key (ov_packageName ?ov) (ov_version ?ov) = packageVersionKey (ov_packageName parsed) v"
    using ov assms(5) by (simp add: override_key_def given_def text_of_def)
  then have rec: "rec = \<lparr>or_override = ?ov, or_createdAt = created, or_revoked = False\<rparr>"
    using assms(10) s'(1) by (simp add: putOverride_def update_conv')
  have well_keyed: "well_keyed ?st" using assms(1) by (simp add: store_inv_def well_keyed_def putOverride_def)
  have "concerns ?ov (ov_packageName parsed) v" using ov by (simp add: concerns_def text_of_def)
  with forgotten [OF well_keyed] have "undecided env (ov_packageName parsed) v (rg_decisions (gw_store s'))" by (simp add: s'(2))
  moreover have "governs env ?ov (ov_packageName parsed) v (rg_overrides (gw_store s'))"
    using assms(10) rec by (simp add: governs_def)
  moreover have "set (rg_decisions (gw_store s')) \<subseteq> set (rg_decisions (gw_store s))"
    using forget_subset [OF well_keyed] by (simp add: s'(2) putOverride_def)
  ultimately show "in_charge env (or_override rec) (ov_packageName parsed) v (gw_tick s') (rg_overrides (gw_store s')) (rg_decisions (gw_store s'))"
    using assms(6-9,11) ov(2) rec by (auto simp: in_charge_def)
  show "ov_action (or_override rec) = ov_action parsed" using rec ov by simp
qed

end
