(* ===== verification/Registry_Listing.thy ===== *)
theory Registry_Listing
  imports Registry_Overrides
begin

text \<open>
  Lemmas on the package metadata the gateway serves: which versions \<open>filterMetadataVersions\<close> leaves,
  and where its tags point.
\<close>

section \<open>Versions\<close>

definition hidden_versions :: "(string \<times> policy_decision) list \<Rightarrow> bool \<Rightarrow> string set" where
  "hidden_versions decisions hide = {v. \<exists>d. (v, d) \<in> set decisions \<and> hidden_action hide (pd_action d)}"

abbreviation listed :: "npm_metadata \<Rightarrow> string set" where
  "listed m \<equiv> fst ` set (nm_versions m)"

abbreviation hide_refused :: "bool \<Rightarrow> string \<times> policy_decision \<Rightarrow> npm_metadata \<Rightarrow> npm_metadata" where
  "hide_refused hide \<equiv> \<lambda>(v, d) m. if hidden_action hide (pd_action d) then hide_version v m else m"

lemma hide_tags:
  "nm_distTags (fold (hide_refused hide) ds m) = nm_distTags m"
  by (induction ds arbitrary: m) (simp_all add: hide_version_def split: prod.split)

lemma hide_name: "nm_name (fold (hide_refused hide) ds m) = nm_name m"
  by (induction ds arbitrary: m) (simp_all add: hide_version_def split: prod.split)

lemma hidden_versions_simps [simp]:
  "hidden_versions [] hide = {}"
  "hidden_versions ((v, d) # ds) hide =
     (if hidden_action hide (pd_action d) then insert v (hidden_versions ds hide) else hidden_versions ds hide)"
  by (auto simp: hidden_versions_def)

lemma hide_set:
  "set (nm_versions (fold (hide_refused hide) ds m)) = {(v, nv). (v, nv) \<in> set (nm_versions m) \<and> v \<notin> hidden_versions ds hide}"
proof (induction ds arbitrary: m)
  case (Cons e ds)
  then show ?case by (cases e) (auto simp: hide_version_def AList.delete_eq)
qed simp

section \<open>Tags\<close>

text \<open>The sorting of versions keeps them.\<close>

definition sorts :: "semver \<Rightarrow> bool" where
  "sorts sv \<longleftrightarrow> (\<forall>vs. set (sv_rsort sv vs) = set vs)"

lemma newest_allowed_Some: "sorts sv \<Longrightarrow> newest_allowed sv allowed = Some v \<Longrightarrow> v \<in> set allowed"
  by (auto simp: newest_allowed_def sorts_def split: list.splits if_splits)
    (metis filter_is_subset list.set_intros(1) subsetD)

lemma newest_allowed_empty: "newest_allowed sv [] = Some v \<Longrightarrow> sorts sv \<Longrightarrow> False"
  using newest_allowed_Some by fastforce

text \<open>An object has each key once; an update replaces what the key had.\<close>

lemma update_entry:
  assumes "distinct (map fst al)" and "(k', v') \<in> set (AList.update k v al)"
  shows "k' = k \<and> v' = v \<or> k' \<noteq> k \<and> (k', v') \<in> set al"
proof -
  have "map_of (AList.update k v al) k' = Some v'"
    using assms by (simp add: AList.distinct_update)
  then show ?thesis by (auto simp: update_conv' split: if_splits dest: map_of_SomeD)
qed

lemma retag_distinct: "distinct (map fst tags) \<Longrightarrow> distinct (map fst (retag newest allowed e tags))"
  by (auto simp: retag_def AList.distinct_update AList.distinct_delete split: prod.split option.split)

lemma retag_entry:
  assumes "distinct (map fst tags)" and "newest = None \<or> the newest \<in> set allowed"
    and "(t, v) \<in> set (retag newest allowed e tags)"
  shows "v \<in> set allowed \<or> (t, v) \<in> set tags \<and> (t, v) \<noteq> e"
  using assms by (auto simp: retag_def AList.delete_eq split: prod.splits option.splits if_splits dest: update_entry)

lemma retag_fold:
  assumes "distinct (map fst tags)" and "newest = None \<or> the newest \<in> set allowed"
  shows "distinct (map fst (fold (retag newest allowed) es tags)) \<and>
    (\<forall>(t, v) \<in> set (fold (retag newest allowed) es tags). v \<in> set allowed \<or> (t, v) \<in> set tags \<and> (t, v) \<notin> set es)"
  using assms
proof (induction es arbitrary: tags)
  case (Cons e es)
  let ?tags = "retag newest allowed e tags"
  have "distinct (map fst ?tags)" using Cons.prems(1) by (rule retag_distinct)
  from Cons.IH [OF this Cons.prems(2)] show ?case
    using retag_entry [OF Cons.prems] by fastforce
qed auto

lemma rewriteDistTags_allowed:
  assumes "sorts sv" and "distinct (map fst tags)" and "(t, v) \<in> set (rewriteDistTags sv tags allowed)"
  shows "v \<in> set allowed"
proof -
  let ?newest = "newest_allowed sv allowed"
  let ?tags = "fold (retag ?newest allowed) tags tags"
  have newest: "?newest = None \<or> the ?newest \<in> set allowed"
    using newest_allowed_Some [OF assms(1)] by (cases ?newest) auto
  have old: "distinct (map fst ?tags)" "\<forall>(t, v) \<in> set ?tags. v \<in> set allowed"
    using retag_fold [OF assms(2) newest, of tags] by auto
  show ?thesis
    using assms(3) newest old update_entry [OF old(1), of t v "''latest''" "the ?newest"]
    by (fastforce simp: rewriteDistTags_def Let_def split: if_splits)
qed

section \<open>The listing\<close>

lemma rewrite_versions_names: "rewrite_versions pf base name vs = Some ws \<Longrightarrow> map fst ws = map fst vs"
  by (induction pf base name vs arbitrary: ws rule: rewrite_versions.induct) (auto split: if_splits option.splits)

lemma filtered_versions:
  "set (nm_versions (filterMetadataVersions sv m ds hide)) =
     {(v, nv). (v, nv) \<in> set (nm_versions m) \<and> v \<notin> hidden_versions ds hide}"
  by (simp add: filterMetadataVersions_def Let_def hide_set)

lemma filtered_tags:
  assumes "sorts sv" and "distinct (map fst (nm_distTags m))"
    and "(t, v) \<in> set (nm_distTags (filterMetadataVersions sv m ds hide))"
  shows "v \<in> listed (filterMetadataVersions sv m ds hide)"
proof -
  let ?vs = "nm_versions (fold (hide_refused hide) ds m)"
  have "(t, v) \<in> set (rewriteDistTags sv (nm_distTags m) (map fst ?vs))"
    using assms(3) by (simp add: filterMetadataVersions_def Let_def hide_tags)
  from rewriteDistTags_allowed [OF assms(1,2) this] show ?thesis
    by (simp add: filterMetadataVersions_def Let_def)
qed

text \<open>The versions evaluated one after the other in this request, each in the state the one before left,
  with the decision each evaluation returned.\<close>

fun evaluated_in_turn ::
    "gateway_env \<Rightarrow> npm_metadata \<Rightarrow> rat option \<Rightarrow> string list \<Rightarrow> (string \<times> policy_decision) list \<Rightarrow> gateway \<Rightarrow> gateway \<Rightarrow> bool" where
  "evaluated_in_turn env m w [] ds s t \<longleftrightarrow> ds = [] \<and> t = s"
| "evaluated_in_turn env m w (v # vs) ds s t \<longleftrightarrow> (\<exists>d s1 ds'. ds = (v, d) # ds' \<and>
     evaluateAndCache env m v MetadataRequest w
       (given (map_of (nm_distTags m) ''latest'') \<and> map_of (nm_distTags m) ''latest'' = Some v) s = (Inr d, s1) \<and>
     evaluated_in_turn env m w vs ds' s1 t)"

lemma evaluated_versions: "evaluated_in_turn env m w vs ds s t \<Longrightarrow> map fst ds = vs"
  by (induction vs arbitrary: ds s) auto

lemma evaluate_all_in_turn:
  assumes "evaluate_all env m w s = (Inr ds, t)"
  shows "evaluated_in_turn env m w (map fst (nm_versions m)) ds s t"
proof -
  have "seqE (map (\<lambda>v. bindE (evaluateAndCache env m v MetadataRequest w
      (given (map_of (nm_distTags m) ''latest'') \<and> map_of (nm_distTags m) ''latest'' = Some v)) (\<lambda>d. ret (v, d))) vs) s = (Inr ds, t) \<Longrightarrow>
    evaluated_in_turn env m w vs ds s t" for vs
    by (induction vs arbitrary: ds s) (auto simp: bindE_def ret_def split: prod.splits sum.splits)
  with assms show ?thesis by (simp add: evaluate_all_def)
qed

text \<open>Whether the gateway hides quarantined versions from its listings.\<close>

abbreviation hides_quarantined :: "gateway_env \<Rightarrow> bool" where
  "hides_quarantined env \<equiv> pc_hideQuarantinedMetadata (ge_policy env) \<or> ge_runtimeMode env \<noteq> Development"

lemma rewritten_listing:
  assumes "rewriteMetadataTarballs pf f base = Some m'"
  shows "listed m' = listed f" "nm_distTags m' = nm_distTags f"
proof -
  obtain vs where vs: "rewrite_versions pf base (nm_name f) (nm_versions f) = Some vs" "m' = f\<lparr>nm_versions := vs\<rparr>"
    using assms by (auto simp: rewriteMetadataTarballs_def)
  from arg_cong [OF rewrite_versions_names [OF vs(1)], of set] vs(2)
  show "listed m' = listed f" "nm_distTags m' = nm_distTags f" by simp_all
qed

lemma listed_filtered:
  assumes "map fst ds = map fst (nm_versions m)"
  shows "listed (filterMetadataVersions sv m ds hide) = {v \<in> listed m. \<not> list_ex (\<lambda>(v', d). v' = v \<and> hidden_action hide (pd_action d)) ds}"
  by (force simp: filtered_versions hidden_versions_def list_ex_iff)

lemma answered_metadata:
  assumes "handleMetadataRequest env p s = (Inr r, s')"
  obtains m s1 w s2 ds f m' where "fetchMetadata env p s = (Inr m, s1)" and "safeWeeklyDownloads env p s1 = (Inr w, s1)"
    and "persistPackageVersions env m w s1 = (Inr (), s2)" and "evaluate_all env m w s2 = (Inr ds, s')"
    and "f = filterMetadataVersions (ge_semver env) m ds (hides_quarantined env)"
    and "rewriteMetadataTarballs (ge_platform env) f (ge_publicBaseUrl env) = Some m'" and "r = RpMetadata m'"
  using assms
  by (auto simp: handleMetadataRequest_def bindE_def thenE_def ret_def throw_def safeWeeklyDownloads_def gets_def
      split: prod.splits sum.splits option.splits)

end
