(* ===== verification/Registry_Distance.thy ===== *)
theory Registry_Distance
  imports Registry_Names
begin

text \<open>
  The distance of names: the matrix that \<open>damerauLevenshtein\<close> fills row by row, with its tables of last
  occurrences, holds the distances of the prefixes of the two names, as the recursive reference
  \<open>dl\<close> defines them. The reference counts insertions, deletions, substitutions and transpositions of
  characters that are adjacent once the characters between them are deleted.
\<close>

section \<open>The reference\<close>

text \<open>One plus the last position of \<open>c\<close> among the first \<open>n\<close> characters, 0 if there is none.\<close>

primrec last_pos :: "string \<Rightarrow> char \<Rightarrow> nat \<Rightarrow> nat" where
  "last_pos s c 0 = 0"
| "last_pos s c (Suc n) = (if s ! n = c then Suc n else last_pos s c n)"

lemma last_pos_le: "last_pos s c n \<le> n"
  by (induction n) auto

text \<open>The distance of the first \<open>i\<close> characters of \<open>a\<close> and the first \<open>j\<close> of \<open>b\<close>.\<close>

function dl :: "string \<Rightarrow> string \<Rightarrow> nat \<Rightarrow> nat \<Rightarrow> nat" where
  "dl a b 0 j = j"
| "dl a b (Suc i) 0 = Suc i"
| "dl a b (Suc i) (Suc j) =
    (let plain = min (min (dl a b i j + (if a ! i = b ! j then 0 else 1)) (dl a b (Suc i) j + 1)) (dl a b i (Suc j) + 1);
         p = last_pos a (b ! j) i; q = last_pos b (a ! i) j in
     if p = 0 \<or> q = 0 then plain else min plain (dl a b (p - 1) (q - 1) + (i - p) + 1 + (j - q)))"
  by pat_completeness auto

termination
proof (relation "measure (\<lambda>(a, b, i, j). i + j)")
  fix a b :: string and i j p q
  assume "p = last_pos a (b ! j) i" "q = last_pos b (a ! i) j"
  then have "p \<le> i" "q \<le> j" by (simp_all add: last_pos_le)
  then show "((a, b, p - 1, q - 1), a, b, Suc i, Suc j) \<in> measure (\<lambda>(a, b, i, j). i + j)" by simp
qed simp_all

lemma dl_zero_right [simp]: "dl a b i 0 = i"
  by (cases i) simp_all

lemma dl_le: "dl a b i j \<le> max i j"
proof (induction a b i j rule: dl.induct)
  case (3 a b i j)
  have "dl a b (Suc i) (Suc j) \<le> dl a b i j + 1" by (auto simp: Let_def min_le_iff_disj)
  with 3(1) show ?case by fastforce
qed simp_all

declare dl.simps(3) [simp del]

section \<open>Matrices\<close>

definition shaped :: "nat \<Rightarrow> nat \<Rightarrow> matrix \<Rightarrow> bool" where
  "shaped r c m \<longleftrightarrow> length m = r \<and> (\<forall>i < r. length (m ! i) = c)"

lemma shaped_mset [simp]: "shaped r c m \<Longrightarrow> shaped r c (mset i j v m)"
  by (cases "i < length m") (auto simp: shaped_def mset_def nth_list_update)

lemma mget_mset:
  "shaped r c m \<Longrightarrow> i < r \<Longrightarrow> j < c \<Longrightarrow> mget (mset i j v m) i' j' = (if i' = i \<and> j' = j then v else mget m i' j')"
  by (auto simp: shaped_def mget_def mset_def nth_list_update)

text \<open>An invariant of a loop over the indices from 0 or from 1 to \<open>n\<close>.\<close>

lemma fold_upto:
  assumes "Q 0 s" and "\<And>k s. k < n \<Longrightarrow> Q k s \<Longrightarrow> Q (Suc k) (f k s)"
  shows "Q n (fold f [0..<n] s)"
  using assms by (induction n) auto

lemma fold_from_one:
  assumes "Q 0 s" and "\<And>k s. k < n \<Longrightarrow> Q k s \<Longrightarrow> Q (Suc k) (f (Suc k) s)"
  shows "Q n (fold f [1..<n + 1] s)"
proof -
  have "[1..<n + 1] = map Suc [0..<n]" by (simp add: map_Suc_upt)
  then show ?thesis
    using fold_upto [of Q s n "\<lambda>k. f (Suc k)"] assms by (simp add: fold_map comp_def)
qed

section \<open>The first row and column\<close>

text \<open>The border of the matrix holds the distance that no edit exceeds.\<close>

definition bordered :: "string \<Rightarrow> string \<Rightarrow> matrix \<Rightarrow> bool" where
  "bordered a b m \<longleftrightarrow> shaped (length a + 2) (length b + 2) m \<and>
     (\<forall>i \<le> length a + 1. mget m i 0 = length a + length b) \<and> (\<forall>j \<le> length b + 1. mget m 0 j = length a + length b)"

text \<open>The distances are there for the rows before \<open>r\<close>, and in row \<open>r\<close> up to column \<open>c\<close>.\<close>

definition filled :: "string \<Rightarrow> string \<Rightarrow> nat \<Rightarrow> nat \<Rightarrow> matrix \<Rightarrow> bool" where
  "filled a b r c m \<longleftrightarrow> bordered a b m \<and> (\<forall>i \<le> length a. \<forall>j \<le> length b. j = 0 \<or> i < r \<or> i = r \<and> j \<le> c \<longrightarrow>
     mget m (Suc i) (Suc j) = dl a b i j)"

lemma filled_cell:
  "filled a b r c m \<Longrightarrow> i \<le> length a \<Longrightarrow> j \<le> length b \<Longrightarrow> j = 0 \<or> i < r \<or> i = r \<and> j \<le> c \<Longrightarrow>
     mget m (Suc i) (Suc j) = dl a b i j"
  unfolding filled_def by blast

lemma init_filled: "filled a b 0 (length b) (init_matrix a b)"
proof -
  let ?la = "length a" and ?lb = "length b"
  let ?sh = "shaped (?la + 2) (?lb + 2)"
  define m0 where "m0 = mset 0 0 (?la + ?lb) (replicate (?la + 2) (replicate (?lb + 2) 0))"
  define m1 where "m1 = fold (\<lambda>i m. mset (i + 1) 1 i (mset (i + 1) 0 (?la + ?lb) m)) [0..<?la + 1] m0"
  have mg: "mget (mset i j v m) i' j' = (if i' = i \<and> j' = j then v else mget m i' j')"
    if "?sh m" "i \<le> Suc ?la" "j \<le> Suc ?lb" for m i j v i' j'
    using that by (intro mget_mset [OF that(1)]) auto
  have sh: "?sh (replicate (?la + 2) (replicate (?lb + 2) 0))" by (auto simp: shaped_def nth_Cons split: nat.splits)
  then have m0: "?sh m0" "mget m0 0 0 = ?la + ?lb"
    unfolding m0_def using mg [OF sh, of 0 0] shaped_mset [OF sh] by simp_all
  have "?sh m1 \<and> mget m1 0 0 = ?la + ?lb \<and> (\<forall>i < ?la + 1. mget m1 (Suc i) 0 = ?la + ?lb \<and> mget m1 (Suc i) 1 = i)"
    unfolding m1_def
    by (rule fold_upto [where Q = "\<lambda>n m. ?sh m \<and> mget m 0 0 = ?la + ?lb \<and>
        (\<forall>i < n. mget m (Suc i) 0 = ?la + ?lb \<and> mget m (Suc i) 1 = i)"])
      (use m0 in \<open>auto simp: mg less_Suc_eq\<close>)
  moreover have "init_matrix a b = fold (\<lambda>j m. mset 1 (j + 1) j (mset 0 (j + 1) (?la + ?lb) m)) [0..<?lb + 1] m1"
    by (simp add: init_matrix_def m1_def m0_def Let_def)
  ultimately have "?sh (init_matrix a b) \<and> mget (init_matrix a b) 0 0 = ?la + ?lb \<and>
      (\<forall>i < ?la + 1. mget (init_matrix a b) (Suc i) 0 = ?la + ?lb \<and> mget (init_matrix a b) (Suc i) 1 = i) \<and>
      (\<forall>j < ?lb + 1. mget (init_matrix a b) 0 (Suc j) = ?la + ?lb \<and> mget (init_matrix a b) 1 (Suc j) = j)"
    by (simp only:) (rule fold_upto [where Q = "\<lambda>n m. ?sh m \<and> mget m 0 0 = ?la + ?lb \<and>
        (\<forall>i < ?la + 1. mget m (Suc i) 0 = ?la + ?lb \<and> mget m (Suc i) 1 = i) \<and>
        (\<forall>j < n. mget m 0 (Suc j) = ?la + ?lb \<and> mget m 1 (Suc j) = j)"], auto simp: mg less_Suc_eq)
  then show ?thesis
    by (auto simp: filled_def bordered_def less_Suc_eq_le) (metis Suc_le_mono not0_implies_Suc)+
qed

section \<open>The loops\<close>

text \<open>The fourth candidate is at least the first where there is nothing to transpose.\<close>

lemma transposed_value:
  assumes "filled a b i c m" and "i < length a" and "p \<le> i" and "q \<le> length b"
  shows "mget m p q = (if p = 0 \<or> q = 0 then length a + length b else dl a b (p - 1) (q - 1))"
proof (cases "p = 0 \<or> q = 0")
  case True
  then show ?thesis using assms by (auto simp: filled_def bordered_def)
next
  case False
  then obtain p' q' where "p = Suc p'" "q = Suc q'" by (metis not0_implies_Suc)
  then show ?thesis using assms by (simp add: filled_def)
qed

lemma inner_value:
  assumes "filled a b (Suc i) j m" and "i < length a" and "j < length b"
  shows "min (min (min (mget m (Suc i) (Suc j) + (if a ! i = b ! j then 0 else 1)) (mget m (Suc (Suc i)) (Suc j) + 1))
      (mget m (Suc i) (Suc (Suc j)) + 1))
      (mget m (last_pos a (b ! j) i) (last_pos b (a ! i) j) + (i - last_pos a (b ! j) i) + 1 + (j - last_pos b (a ! i) j))
    = dl a b (Suc i) (Suc j)"
proof -
  let ?p = "last_pos a (b ! j) i" and ?q = "last_pos b (a ! i) j"
  have pq: "?p \<le> i" "?q \<le> j" by (simp_all add: last_pos_le)
  have cells: "mget m (Suc i) (Suc j) = dl a b i j" "mget m (Suc (Suc i)) (Suc j) = dl a b (Suc i) j"
    "mget m (Suc i) (Suc (Suc j)) = dl a b i (Suc j)"
    using assms by (simp_all add: filled_cell [OF assms(1)])
  have "filled a b i 0 m" using assms(1) by (simp add: filled_def)
  from transposed_value [OF this assms(2) pq(1), of ?q] pq(2) assms(3)
  have cell: "mget m ?p ?q = (if ?p = 0 \<or> ?q = 0 then length a + length b else dl a b (?p - 1) (?q - 1))" by simp
  let ?plain = "min (min (dl a b i j + (if a ! i = b ! j then 0 else 1)) (dl a b (Suc i) j + 1)) (dl a b i (Suc j) + 1)"
  have "?plain \<le> dl a b i j + 1" by (intro min.coboundedI1) simp
  also have "\<dots> \<le> length a + length b + (i - ?p) + 1 + (j - ?q)"
    using dl_le [of a b i j] assms(2,3) by (simp add: max_def split: if_splits)
  finally have "min ?plain (length a + length b + (i - ?p) + 1 + (j - ?q)) = ?plain" by (rule min.absorb1)
  then show ?thesis unfolding cells cell dl.simps(3) Let_def by (cases "?p = 0 \<or> ?q = 0") (simp_all only: if_True if_False)
qed

lemma inner_filled:
  assumes "filled a b (Suc i) j m" and "i < length a" and "j < length b"
    and "\<And>c. (case map_of da c of None \<Rightarrow> 0 | Some k \<Rightarrow> k) = last_pos a c i" and "db = last_pos b (a ! i) j"
  shows "filled a b (Suc i) (Suc j) (fst (inner_step a b da (Suc i) (Suc j) (m, db)))"
    and "snd (inner_step a b da (Suc i) (Suc j) (m, db)) = last_pos b (a ! i) (Suc j)"
proof -
  have sh: "shaped (length a + 2) (length b + 2) m" using assms(1) by (simp add: filled_def bordered_def)
  have step: "inner_step a b da (Suc i) (Suc j) (m, db) =
      (mset (Suc (Suc i)) (Suc (Suc j)) (dl a b (Suc i) (Suc j)) m, last_pos b (a ! i) (Suc j))"
    using inner_value [OF assms(1-3)] by (simp add: inner_step_def Let_def assms(4,5) eq_commute [of "a ! i"])
  show "snd (inner_step a b da (Suc i) (Suc j) (m, db)) = last_pos b (a ! i) (Suc j)" by (simp add: step)
  show "filled a b (Suc i) (Suc j) (fst (inner_step a b da (Suc i) (Suc j) (m, db)))"
    using assms(1-3) by (auto simp: step filled_def bordered_def mget_mset [OF sh] le_Suc_eq)
qed

lemma row_filled:
  assumes "filled a b i (length b) m" and "i < length a"
    and "\<And>c. (case map_of da c of None \<Rightarrow> 0 | Some k \<Rightarrow> k) = last_pos a c i"
  shows "filled a b (Suc i) (length b) (fst (fold (inner_step a b da (Suc i)) [1..<length b + 1] (m, 0)))"
proof -
  let ?Q = "\<lambda>j s. filled a b (Suc i) j (fst s) \<and> snd s = last_pos b (a ! i) j"
  have "?Q (length b) (fold (inner_step a b da (Suc i)) [1..<length b + 1] (m, 0))"
  proof (rule fold_from_one [where Q = ?Q])
    show "?Q 0 (m, 0)" using assms(1) by (auto simp: filled_def less_Suc_eq)
    show "?Q (Suc j) (inner_step a b da (Suc i) (Suc j) s)" if "j < length b" "?Q j s" for j s
      using inner_filled [of a b i j "fst s" da "snd s", OF _ assms(2) that(1) assms(3)] that(2) by (cases s) auto
  qed
  then show ?thesis by simp
qed

lemma all_filled:
  "filled a b (length a) (length b) (snd (fold (outer_step a b) [1..<length a + 1] ([], init_matrix a b)))"
proof -
  let ?Q = "\<lambda>i s. filled a b i (length b) (snd s) \<and> (\<forall>c. (case map_of (fst s) c of None \<Rightarrow> 0 | Some k \<Rightarrow> k) = last_pos a c i)"
  have "?Q (length a) (fold (outer_step a b) [1..<length a + 1] ([], init_matrix a b))"
  proof (rule fold_from_one [where Q = ?Q])
    show "?Q 0 ([], init_matrix a b)" by (simp add: init_filled)
    show "?Q (Suc i) (outer_step a b (Suc i) s)" if "i < length a" "?Q i s" for i s
      using row_filled [of a b i "snd s" "fst s"] that by (auto simp: outer_step_def update_conv' split: prod.split)
  qed
  then show ?thesis by simp
qed

lemma damerauLevenshtein_dl: "damerauLevenshtein a b = dl a b (length a) (length b)"
  using filled_cell [OF all_filled, of "length a" a "length b" b] by (simp add: damerauLevenshtein_def del: upt_Suc)

section \<open>The distance\<close>

lemma dl_self: "i \<le> length a \<Longrightarrow> dl a a i i = 0"
proof (induction i)
  case (Suc i)
  then show ?case by (simp add: dl.simps(3) Let_def)
qed simp

lemma min_of_four: "min (min (min w x) y) z \<in> {w, x, y, z} \<and> min (min w x) y \<in> {w, x, y}" for w x y z :: nat
  by (simp add: min_def)

text \<open>Which edit comes last.\<close>

lemma dl_last:
  obtains (keep) "dl a b (Suc i) (Suc j) = dl a b i j + (if a ! i = b ! j then 0 else 1)"
    | (add) "dl a b (Suc i) (Suc j) = dl a b (Suc i) j + 1"
    | (drop) "dl a b (Suc i) (Suc j) = dl a b i (Suc j) + 1"
    | (swap) p q where "p \<le> i" "q \<le> j" "0 < p" "0 < q" "p = last_pos a (b ! j) i" "q = last_pos b (a ! i) j"
        "dl a b (Suc i) (Suc j) = dl a b (p - 1) (q - 1) + (i - p) + 1 + (j - q)"
proof -
  define p q where pq: "p = last_pos a (b ! j) i" "q = last_pos b (a ! i) j"
  define w x y z where c: "w = dl a b i j + (if a ! i = b ! j then 0 else 1)" "x = dl a b (Suc i) j + 1"
    "y = dl a b i (Suc j) + 1" "z = dl a b (p - 1) (q - 1) + (i - p) + 1 + (j - q)"
  have eq: "dl a b (Suc i) (Suc j) = (if p = 0 \<or> q = 0 then min (min w x) y else min (min (min w x) y) z)"
    unfolding dl.simps(3) Let_def pq c ..
  have le: "p \<le> i" "q \<le> j" by (simp_all add: pq last_pos_le)
  show thesis
  proof (cases "p = 0 \<or> q = 0")
    case True
    then have "dl a b (Suc i) (Suc j) \<in> {w, x, y}" using eq min_of_four [of w x y z] by simp
    then show thesis using keep add drop c by blast
  next
    case False
    then have "dl a b (Suc i) (Suc j) \<in> {w, x, y, z}" using eq min_of_four [of w x y z] by simp
    moreover have "thesis" if "dl a b (Suc i) (Suc j) = z" using swap [OF le _ _ pq] False that c(4) by simp
    ultimately show thesis using keep add drop c(1-3) by blast
  qed
qed

lemma dl_zero:
  assumes "dl a b i j = 0"
  shows "i = j \<and> (i \<le> length a \<longrightarrow> j \<le> length b \<longrightarrow> take i a = take j b)"
  using assms
proof (induction a b i j rule: dl.induct)
  case (3 a b i j)
  have "dl a b i j = 0 \<and> a ! i = b ! j"
    by (cases rule: dl_last [of a b i j]) (use 3(5) in \<open>auto split: if_splits\<close>)
  with 3(1) show ?case by (auto simp: take_Suc_conv_app_nth)
qed simp_all

lemma dl_diff: "i \<le> dl a b i j + j \<and> j \<le> dl a b i j + i"
proof (induction a b i j rule: dl.induct)
  case (3 a b i j)
  show ?case
  proof (cases rule: dl_last [of a b i j])
    case (swap p q)
    then have "p - 1 \<le> dl a b (p - 1) (q - 1) + (q - 1)" "q - 1 \<le> dl a b (p - 1) (q - 1) + (p - 1)"
      using 3(4) by auto
    with swap show ?thesis by linarith
  qed (use 3(1-3) in auto)
qed simp_all

section \<open>Edits\<close>

text \<open>\<open>edits n s t\<close>: \<open>n\<close> edits of single characters turn \<open>s\<close> into \<open>t\<close>.\<close>

inductive edits :: "nat \<Rightarrow> string \<Rightarrow> string \<Rightarrow> bool" where
  none: "edits 0 s s"
| remove: "edits n s (u @ c # v) \<Longrightarrow> edits (Suc n) s (u @ v)"
| insert: "edits n s (u @ v) \<Longrightarrow> edits (Suc n) s (u @ c # v)"
| change: "edits n s (u @ c # v) \<Longrightarrow> edits (Suc n) s (u @ d # v)"
| swap: "edits n s (u @ c # d # v) \<Longrightarrow> edits (Suc n) s (u @ d # c # v)"

lemma edits_trans: "edits n t u \<Longrightarrow> edits m s t \<Longrightarrow> edits (m + n) s u"
  by (induction rule: edits.induct) (simp_all add: edits.intros)

lemma edits_append: "edits n s t \<Longrightarrow> edits n (s @ w) (t @ w)"
  by (induction rule: edits.induct) (auto intro: edits.intros)

lemma edits_remove_all: "edits (length w) (u @ w @ v) (u @ v)"
proof (induction w)
  case (Cons c w)
  have "edits 1 (u @ c # w @ v) (u @ w @ v)" using edits.remove [OF edits.none, of u c "w @ v"] by simp
  from edits_trans [OF Cons.IH this] show ?case by simp
qed (simp add: edits.none)

lemma edits_insert_all: "edits (length w) (u @ v) (u @ w @ v)"
proof (induction w)
  case (Cons c w)
  from edits.insert [OF this, of c] show ?case by simp
qed (simp add: edits.none)

lemma last_pos_char: "0 < last_pos s c n \<Longrightarrow> s ! (last_pos s c n - 1) = c"
  by (induction n) (auto split: if_splits)

text \<open>The characters before position \<open>i\<close>, split at \<open>p\<close>.\<close>

lemma take_split:
  assumes "0 < p" and "p \<le> i" and "i < length s"
  shows "take (Suc i) s = take (p - 1) s @ s ! (p - 1) # drop p (take i s) @ [s ! i]"
proof -
  have "take i s = take p s @ drop p (take i s)" using assms(2) by (metis append_take_drop_id min.absorb1 take_take)
  moreover have "take p s = take (p - 1) s @ [s ! (p - 1)]"
    using assms take_Suc_conv_app_nth [of "p - 1" s] by simp
  ultimately show ?thesis using assms(3) by (simp add: take_Suc_conv_app_nth)
qed

lemma dl_edits: "i \<le> length a \<Longrightarrow> j \<le> length b \<Longrightarrow> edits (dl a b i j) (take i a) (take j b)"
proof (induction a b i j rule: dl.induct)
  case (1 a b j)
  then show ?case using edits_insert_all [of "take j b" "[]" "[]"] by simp
next
  case (2 a b i)
  then show ?case using edits_remove_all [of "take (Suc i) a" "[]" "[]"] by simp
next
  case (3 a b i j)
  have len: "i < length a" "j < length b" using 3(5,6) by simp_all
  have ends: "take (Suc i) a = take i a @ [a ! i]" "take (Suc j) b = take j b @ [b ! j]"
    using len by (simp_all add: take_Suc_conv_app_nth)
  show ?case
  proof (cases rule: dl_last [of a b i j])
    case keep
    have "edits (dl a b i j) (take i a @ [a ! i]) (take j b @ [a ! i])"
      using 3(1) len by (simp add: edits_append)
    from this edits.change [OF this, of "b ! j"] show ?thesis unfolding keep ends by (cases "a ! i = b ! j") simp_all
  next
    case add
    have "edits (dl a b (Suc i) j) (take (Suc i) a) (take j b @ [])" using 3(2,5) len by simp
    from edits.insert [OF this, of "b ! j"] show ?thesis unfolding add ends(2) by simp
  next
    case drop
    have "edits 1 (take (Suc i) a) (take i a)" using edits_remove_all [of "[a ! i]" "take i a" "[]"] ends(1) by simp
    from edits_trans [OF _ this] 3(3,6) len show ?thesis unfolding drop by simp
  next
    case (swap p q)
    let ?x = "take (p - 1) a" and ?y = "take (q - 1) b" and ?c = "a ! i" and ?d = "b ! j"
    let ?u = "drop p (take i a)" and ?w = "drop q (take j b)"
    have chars: "a ! (p - 1) = ?d" "b ! (q - 1) = ?c"
      using last_pos_char [of a "b ! j" i] last_pos_char [of b "a ! i" j] swap(3-6) by simp_all
    have "edits (i - p) (?x @ ?d # ?u @ [?c]) (?x @ ?d # [?c])"
      using edits_remove_all [of ?u "?x @ [?d]" "[?c]"] len by simp
    moreover have "edits (dl a b (p - 1) (q - 1)) (?x @ [?d, ?c]) (?y @ [?d, ?c])"
      using 3(4) swap len by (intro edits_append) auto
    moreover have "edits 1 (?y @ [?d, ?c]) (?y @ [?c, ?d])"
      using edits.swap [OF edits.none, of ?y ?d ?c "[]"] by simp
    moreover have "edits (j - q) (?y @ [?c, ?d]) (?y @ ?c # ?w @ [?d])"
      using edits_insert_all [of ?w "?y @ [?c]" "[?d]"] len by simp
    ultimately have "edits (((i - p) + dl a b (p - 1) (q - 1) + 1) + (j - q)) (?x @ ?d # ?u @ [?c]) (?y @ ?c # ?w @ [?d])"
      by (blast intro: edits_trans)
    moreover have "take (Suc i) a = ?x @ ?d # ?u @ [?c]" "take (Suc j) b = ?y @ ?c # ?w @ [?d]"
      using take_split [OF swap(3,1) len(1)] take_split [OF swap(4,2) len(2)] chars by simp_all
    ultimately show ?thesis unfolding swap(7) by (simp add: algebra_simps)
  qed
qed

lemma damerauLevenshtein_edits: "edits (damerauLevenshtein a b) a b"
  using dl_edits [of "length a" a "length b" b] by (simp add: damerauLevenshtein_dl)

lemma damerauLevenshtein_zero: "damerauLevenshtein a b = 0 \<longleftrightarrow> a = b"
  using dl_zero [of a b "length a" "length b"] dl_self [of "length a" a] by (auto simp: damerauLevenshtein_dl)

lemma damerauLevenshtein_le: "damerauLevenshtein a b \<le> max (length a) (length b)"
  by (simp add: damerauLevenshtein_dl dl_le)

text \<open>The similarity of two names is a number between 0 and 1, and 1 for names that are normalised alike.\<close>

lemma similarity_bounds:
  "0 \<le> similarity a b \<and> similarity a b \<le> 1 \<and> (similarity a b = 1 \<longleftrightarrow> normaliseName a = normaliseName b)"
proof -
  let ?d = "damerauLevenshtein (normaliseName a) (normaliseName b)"
  let ?n = "max (max (length (normaliseName a)) (length (normaliseName b))) 1"
  have "?d \<le> ?n" "0 < ?n" using damerauLevenshtein_le [of "normaliseName a" "normaliseName b"] by linarith+
  then have "(of_nat ?d / of_nat ?n :: rat) \<le> 1" by (simp add: divide_le_eq_1 del: of_nat_max)
  moreover have "(of_nat ?d / of_nat ?n :: rat) = 0 \<longleftrightarrow> ?d = 0" using \<open>0 < ?n\<close> by (simp del: of_nat_max)
  ultimately show ?thesis by (simp add: similarity_def Let_def damerauLevenshtein_zero del: of_nat_max)
qed

end
