(* ===== verification/Registry_Properties.thy ===== *)
theory Registry_Properties
  imports Registry_Listing Registry_Distance
begin

text \<open>
  What the registry gateway promises: tarballs are served only after an analysis or under an
  override, an override that refuses a version is effective with the next request, and the policy
  grows stricter with the runtime mode. The witnesses run a registry with one package.
\<close>

section \<open>A registry with one package\<close>

text \<open>Time stamps are printed in unary, as long as the clock is not negative.\<close>

definition gate_pf :: platform where
  "gate_pf = \<lparr>pf_num_str = (\<lambda>_. ''0''), pf_str_num = (\<lambda>_. NaN), pf_url = (\<lambda>_. None), pf_sha256 = (\<lambda>_. []),
     pf_iso = (\<lambda>t. replicate (Suc (nat t)) CHR ''t''),
     pf_date = (\<lambda>s. if s = [] then None else Some (int (length s) - 1)),
     pf_b64_enc = (\<lambda>_. []), pf_b64_dec = (\<lambda>_. []), pf_hex_dec = (\<lambda>_. []), pf_uri_enc = id, pf_uri_dec = Some,
     pf_collation_key = id\<rparr>"

definition gate_policy :: policy_config where
  "gate_policy = \<lparr>pc_version = ''p1'', pc_minimumPackageAgeDays = 7, pc_lowDownloadThreshold = 500,
     pc_strictLowDownloadThreshold = 50, pc_blockSimilarLowDownloadPackages = True, pc_blockNewInstallScripts = True,
     pc_quarantineChangedInstallScripts = True, pc_blockUnexpectedBinaries = True, pc_quarantineObfuscatedCode = True,
     pc_hideQuarantinedMetadata = True, pc_provenance = None, pc_overridesEnabled = True, pc_defaultExpiryDays = 0,
     pc_llmReviewEnabled = False\<rparr>"

definition gate_package :: npm_metadata where
  "gate_package = \<lparr>nm_name = ''a'', nm_distTags = [(''latest'', ''1'')], nm_time = None,
     nm_versions = [(''1'', \<lparr>nv_tarball = Some ''u/a-1.tgz'', nv_integrity = Some ''i'', nv_shasum = None,
       nv_attestations = JUndef, nv_dist_provenance = JUndef, nv_provenance = JUndef\<rparr>)]\<rparr>"

definition gate_env :: gateway_env where
  "gate_env = \<lparr>ge_platform = gate_pf, ge_semver = \<lparr>sv_valid = (\<lambda>_. True), sv_rsort = rev\<rparr>, ge_clock = int,
     ge_runtimeMode = Ci, ge_policy = gate_policy, ge_adminToken = None, ge_metadataTtlSeconds = 60,
     ge_publicBaseUrl = ''b'', ge_popularIndex = \<lparr>px_popularPackages = [], px_knownConfusions = []\<rparr>,
     ge_fetchMetadata = (\<lambda>_ p. if p = ''a'' then Some gate_package else None),
     ge_fetchTarball = (\<lambda>_ _. Some [1]), ge_weeklyDownloads = (\<lambda>_ _. Some 1000)\<rparr>"

definition gate_body :: "string \<Rightarrow> js" where
  "gate_body action = JObj [(''packageName'', JStr ''a''), (''version'', JStr ''1''), (''action'', JStr action),
     (''reason'', JStr ''r'')]"

definition overridden_by :: "string \<Rightarrow> gateway" where
  "overridden_by action = snd (postOverride gate_env None (gate_body action) gateway_start)"

definition after_request :: "gateway \<Rightarrow> gateway_reply \<times> gateway" where
  "after_request s = (case handleTarballRequest gate_env ''a'' ''a-1.tgz'' s of (Inr r, t) \<Rightarrow> (r, t) | (_, t) \<Rightarrow> (RpDone 0, t))"

lemma gate_upstream: "upstream_ok gate_env"
  by (auto simp: upstream_ok_def gate_env_def gate_package_def wf_metadata_def isValidPackageName_def starts_with_def
      valid_part_def alnum_def name_char_def is_digit_def is_lower_def is_upper_def colon_free_def split: if_splits)

lemma gate_prints: "clock_prints gate_env"
  by (simp add: clock_prints_def gate_env_def gate_pf_def)

lemma overridden_reachable: "reg_reachable gate_env (overridden_by action)"
  unfolding overridden_by_def by (rule reachable_next [OF reachable_start reg_step.override])

lemma gate_serves:
  "handleTarballRequest gate_env ''a'' ''a-1.tgz'' (overridden_by ''allow'') =
     (Inr (RpTarball [1] ''miss''), snd (after_request (overridden_by ''allow'')))"
  by code_simp

lemma gate_refuses:
  "handleTarballRequest gate_env ''a'' ''a-1.tgz'' (overridden_by ''block'') =
     (Inr (fst (after_request (overridden_by ''block''))), snd (after_request (overridden_by ''block'')))"
  by code_simp

lemma gate_caches: "cached_as ''a'' gate_package (snd (after_request (overridden_by ''block'')))"
  unfolding cached_as_def by (rule exI [of _ 4]) code_simp

lemma gate_resolves: "resolveVersionFromTarballName gate_package ''a-1.tgz'' = Some ''1''"
  and gate_name: "nm_name gate_package = ''a''"
  by code_simp+

lemma gate_posts: "postOverride gate_env None (gate_body ''block'') gateway_start = (Inr (RpDone 201), overridden_by ''block'')"
  by code_simp

section \<open>Installing\<close>

text \<open>C36: The install gate: outside development, from every reachable state of the registry, a tarball
  is served only if its own analysis is stored (for the package, version, digests and analyser version
  of the metadata the request used) or an override of that version, in force at a reading of the clock
  during the request, allows it. The reports and decisions the worker adds are arbitrary, and decisions
  are stored in between, by metadata requests too.\<close>

theorem registry_gate:
  assumes "upstream_ok env" and "reg_reachable env s" and "ge_runtimeMode env \<noteq> Development"
    and "handleTarballRequest env p t s = (Inr (RpTarball body c), s')"
  shows "\<exists>m v. cached_as p m s' \<and> resolveVersionFromTarballName m t = Some v \<and> granted env s (gw_tick s') m v"
  using wp_InrD [OF wp_handleTarballRequest [OF assms(1) reachable_inv [OF assms(1,2)]] assms(4)] assms(3) by auto

theorem registry_gate_witness:
  "\<exists>m v. cached_as ''a'' m (snd (after_request (overridden_by ''allow''))) \<and>
     resolveVersionFromTarballName m ''a-1.tgz'' = Some v \<and>
     granted gate_env (overridden_by ''allow'') (gw_tick (snd (after_request (overridden_by ''allow'')))) m v"
  by (rule registry_gate [OF gate_upstream overridden_reachable _ gate_serves]) (simp add: gate_env_def)

text \<open>C37: An override that blocks one version is effective at once, where the policy has overrides enabled:
  after it was stored with 201, a request for a tarball of that version is refused with 403, whatever was
  decided, analysed or cached before. The conditions: the override names a version (it is not for the whole
  package) and does not lapse before the request; the version of the policy, and the policy version of
  every stored decision, has no colon, which keeps the keys of the decisions apart; and the clock's times
  print to texts that read back.\<close>

theorem override_blocks:
  assumes "upstream_ok env" and "clock_prints env" and "pc_overridesEnabled (ge_policy env)"
    and "colon_free (pc_version (ge_policy env))"
    and "reg_reachable env s" and "\<forall>(k, rec) \<in> set (rg_decisions (gw_store s)). colon_free (dr_policyVersion rec)"
    and "postOverride env auth body s = (Inr (RpDone n), s')" and "parse_override_create body = Some parsed"
    and "ov_action parsed = Block" and "ov_version parsed = Some v" and "v \<noteq> []"
    and "map_of (rg_overrides (gw_store s')) (packageVersionKey (ov_packageName parsed) v) = Some rec"
    and "\<forall>k \<ge> gw_tick s'. not_past env (ov_expiresAt (or_override rec)) k"
    and "handleTarballRequest env p t s' = (Inr r, u)"
    and "cached_as p m u" and "nm_name m = ov_packageName parsed" and "resolveVersionFromTarballName m t = Some v"
  shows "\<exists>e. r = RpRefused 403 e"
proof -
  have inv: "gw_inv env s" by (rule reachable_inv [OF assms(1,5)])
  have inv': "gw_inv env s'" using override_inv [OF inv, of auth body] assms(7) by simp
  note charge = override_in_charge [OF inv assms(7,8,10,11,3,2,4,6,12,13)]
  obtain m' where "cached_as p m' u" and "\<forall>v ov. resolveVersionFromTarballName m' t = Some v \<longrightarrow> v \<noteq> [] \<longrightarrow>
      in_charge env ov (nm_name m') v (gw_tick s') (rg_overrides (gw_store s')) (rg_decisions (gw_store s')) \<longrightarrow>
      ov_action ov = Block \<longrightarrow> (\<exists>e. r = RpRefused 403 e)"
    using wp_InrD [OF wp_tarball_governed [OF assms(1) inv'] assms(14)] by blast
  moreover from this(1) assms(15) have "m' = m" by (auto simp: cached_as_def)
  ultimately show ?thesis using charge assms(9,11,16,17) by metis
qed

definition block_record :: override_record where
  "block_record = \<lparr>or_override = stored_override (the (parse_override_create (gate_body ''block''))) None,
     or_createdAt = 1, or_revoked = False\<rparr>"

lemma block_parsed: "parse_override_create (gate_body ''block'') =
   Some \<lparr>ov_packageName = ''a'', ov_version = Some ''1'', ov_action = Block, ov_reason = ''r'', ov_approvedBy = None, ov_expiresAt = None\<rparr>"
  by code_simp

lemma block_stored: "map_of (rg_overrides (gw_store (overridden_by ''block''))) (packageVersionKey ''a'' ''1'') = Some block_record"
  by code_simp

lemma gate_policy_of: "ge_policy gate_env = gate_policy"
  by (simp add: gate_env_def)

lemma block_lasting: "\<forall>k \<ge> n. not_past gate_env (ov_expiresAt (or_override block_record)) k"
  by (simp add: not_past_def block_record_def stored_override_def given_def)

theorem override_blocks_witness: "\<exists>e. fst (after_request (overridden_by ''block'')) = RpRefused 403 e"
  by (rule override_blocks [OF gate_upstream gate_prints _ _ reachable_start _ gate_posts block_parsed _ _ _ _ block_lasting
        gate_refuses gate_caches])
    (simp_all add: block_stored gate_policy_of gate_policy_def colon_free_def gateway_start_def empty_store_def
      gate_resolves gate_name)

section \<open>Listing\<close>

text \<open>C38: The metadata a client is given is that of the package, without the versions this request decided
  to hide: every version of the metadata was evaluated in this request, one after the other; listed are
  exactly those whose decision is not a block, nor a quarantine where quarantined versions are hidden; so
  no listed version was given a decision that blocks its installation in the runtime mode; and each tag
  points to a version that is listed. The sorting of semantic versions has to keep the versions.\<close>

theorem listing_installable:
  assumes "upstream_ok env" and "reg_reachable env s" and "sorts (ge_semver env)"
    and "handleMetadataRequest env p s = (Inr r, s')"
  shows "\<exists>m s1 w s2 ds m'. fetchMetadata env p s = (Inr m, s1) \<and> cached_as p m s1 \<and>
     persistPackageVersions env m w s1 = (Inr (), s2) \<and>
     evaluated_in_turn env m w (map fst (nm_versions m)) ds s2 s' \<and> r = RpMetadata m' \<and>
     listed m' = {v \<in> listed m. \<not> list_ex (\<lambda>(v', d). v' = v \<and> hidden_action (hides_quarantined env) (pd_action d)) ds} \<and>
     list_all (\<lambda>(v, d). \<not> (v \<in> listed m' \<and> isDecisionBlockingInstall d (ge_runtimeMode env))) ds \<and>
     list_all (\<lambda>(t, v). v \<in> listed m') (nm_distTags m')"
  using assms(4)
proof (rule answered_metadata)
  fix m s1 w s2 ds f m'
  let ?hide = "hides_quarantined env"
  assume fetch: "fetchMetadata env p s = (Inr m, s1)" and persist: "persistPackageVersions env m w s1 = (Inr (), s2)"
    and all: "evaluate_all env m w s2 = (Inr ds, s')" and f: "f = filterMetadataVersions (ge_semver env) m ds ?hide"
    and m': "rewriteMetadataTarballs (ge_platform env) f (ge_publicBaseUrl env) = Some m'" and r: "r = RpMetadata m'"
  have m: "wf_metadata m" "cached_as p m s1"
    using wp_InrD [OF wp_fetchMetadata [OF assms(1) reachable_inv [OF assms(1,2)]] fetch] by simp_all
  note turn = evaluate_all_in_turn [OF all]
  have l: "listed m' = {v \<in> listed m. \<not> list_ex (\<lambda>(v', d). v' = v \<and> hidden_action ?hide (pd_action d)) ds}"
    unfolding rewritten_listing(1) [OF m'] f by (rule listed_filtered [OF evaluated_versions [OF turn]])
  moreover have "list_all (\<lambda>(v, d). \<not> (v \<in> listed m' \<and> isDecisionBlockingInstall d (ge_runtimeMode env))) ds"
    by (auto simp: l list_all_iff list_ex_iff blocking_iff hidden_action_def)
  moreover have "distinct (map fst (nm_distTags m))" using m(1) by (simp add: wf_metadata_def)
  then have "list_all (\<lambda>(t, v). v \<in> listed m') (nm_distTags m')"
    unfolding rewritten_listing [OF m'] f list_all_iff using filtered_tags [OF assms(3)] by blast
  ultimately show ?thesis using fetch m(2) persist turn r by blast
qed

lemma gate_lists:
  "handleMetadataRequest gate_env ''a'' (overridden_by ''allow'') =
     (Inr (projr (fst (handleMetadataRequest gate_env ''a'' (overridden_by ''allow'')))),
      snd (handleMetadataRequest gate_env ''a'' (overridden_by ''allow'')))"
  by code_simp

lemma gate_sorts: "sorts (ge_semver gate_env)"
  by (simp add: sorts_def gate_env_def)

theorem listing_installable_witness:
  "\<exists>m s1 w s2 ds m'. fetchMetadata gate_env ''a'' (overridden_by ''allow'') = (Inr m, s1) \<and> cached_as ''a'' m s1 \<and>
     persistPackageVersions gate_env m w s1 = (Inr (), s2) \<and>
     evaluated_in_turn gate_env m w (map fst (nm_versions m)) ds s2 (snd (handleMetadataRequest gate_env ''a'' (overridden_by ''allow''))) \<and> projr (fst (handleMetadataRequest gate_env ''a'' (overridden_by ''allow''))) = RpMetadata m' \<and>
     listed m' = {v \<in> listed m. \<not> list_ex (\<lambda>(v', d). v' = v \<and> hidden_action (hides_quarantined gate_env) (pd_action d)) ds} \<and>
     list_all (\<lambda>(v, d). \<not> (v \<in> listed m' \<and> isDecisionBlockingInstall d (ge_runtimeMode gate_env))) ds \<and>
     list_all (\<lambda>(t, v). v \<in> listed m') (nm_distTags m')"
  by (rule listing_installable [OF gate_upstream overridden_reachable gate_sorts gate_lists])

section \<open>Policy\<close>

definition gate_input :: policy_input where
  "gate_input = gateway_input gate_env gate_package ''1'' (Some 400) 0 True None None None"

definition gate_decision :: "runtime_mode \<Rightarrow> policy_decision" where
  "gate_decision mode = projr (evaluatePolicy gate_pf 0 (in_mode mode gate_input))"

lemma gate_decides:
  "evaluatePolicy gate_pf 0 (in_mode Development gate_input) = Inr (gate_decision Development)"
  "evaluatePolicy gate_pf 0 (in_mode Production gate_input) = Inr (gate_decision Production)"
  by code_simp+

lemma in_mode_clock:
  "pi_evaluatedAt (in_mode m inp) = pi_evaluatedAt inp"
  "resolveActiveOverride pf (in_mode m inp) t = resolveActiveOverride pf inp t"
  by (simp_all add: resolveActiveOverride_def cong: option.case_cong)

text \<open>C39: The policy is monotone in the runtime mode: the same package, evaluated at the same time with
  the same policy, gets an action at least as strict in continuous integration as in development, and
  in production as in continuous integration; a decision that blocks the installation in the laxer
  mode blocks it in the stricter one.\<close>

theorem policy_mode_monotone:
  assumes "mode_rank mode \<le> mode_rank mode'"
    and "evaluatePolicy pf now (in_mode mode inp) = Inr d" and "evaluatePolicy pf now (in_mode mode' inp) = Inr d'"
  shows "pd_action d \<le> pd_action d' \<and> (isDecisionBlockingInstall d mode \<longrightarrow> isDecisionBlockingInstall d' mode')"
proof -
  obtain t where t: "evaluationTimestamp pf now (pi_evaluatedAt inp) = Inr t"
    using assms(2) by (auto simp: evaluatePolicy_def split: sum.splits)
  have le: "pd_action d \<le> pd_action d'"
  proof (cases "resolveActiveOverride pf inp t")
    case None
    have "pd_action d = reasoned_action pf (in_mode mode inp)" "pd_action d' = reasoned_action pf (in_mode mode' inp)"
      using evaluatePolicy_reasoned(1) [OF assms(2)] evaluatePolicy_reasoned(1) [OF assms(3)] t None
      by (simp_all add: in_mode_clock)
    then show ?thesis using reasoned_action_grows [OF assms(1)] by simp
  next
    case (Some ov)
    have "d = override_decision (in_mode mode inp) ov" "d' = override_decision (in_mode mode' inp) ov"
      using evaluatePolicy_override [of pf now "in_mode mode inp" t ov] evaluatePolicy_override [of pf now "in_mode mode' inp" t ov]
        assms(2,3) t Some by (simp_all add: in_mode_clock)
    then show ?thesis by (simp add: override_decision_def)
  qed
  moreover have "mode \<noteq> Development \<Longrightarrow> mode' \<noteq> Development"
    using assms(1) by (cases mode; cases mode') (simp_all add: mode_rank_def)
  ultimately show ?thesis
    by (cases "pd_action d"; cases "pd_action d'") (auto simp: blocking_iff)
qed

theorem policy_mode_monotone_witness:
  "pd_action (gate_decision Development) \<le> pd_action (gate_decision Production) \<and>
    isDecisionBlockingInstall (gate_decision Production) Production"
proof -
  have "isDecisionBlockingInstall (gate_decision Production) Production" by code_simp
  with policy_mode_monotone [OF _ gate_decides] show ?thesis by (simp add: mode_rank_def)
qed

lemma allowed_score: "decideAction inp rs x = Allow \<Longrightarrow> x \<le> 0"
  by (auto simp: decideAction_def by_mode_def split: if_splits runtime_mode.splits)

text \<open>The score of a decision is between 0 and 100, and 0 when the package is allowed, whether by an
  override or by its reasons. The score reduction for trusted publishing must not be negative.\<close>

theorem policy_score:
  assumes "evaluatePolicy pf now inp = Inr d" and "0 \<le> score_reduction inp"
  shows "0 \<le> pd_score d \<and> pd_score d \<le> 100 \<and> (pd_action d = Allow \<longrightarrow> pd_score d = 0)"
proof -
  obtain t where t: "evaluationTimestamp pf now (pi_evaluatedAt inp) = Inr t"
    using assms(1) by (auto simp: evaluatePolicy_def split: sum.splits)
  show ?thesis
  proof (cases "resolveActiveOverride pf inp t")
    case None
    note d = evaluatePolicy_reasoned [OF assms(1) t None]
    have "pd_score d \<le> 0" if "pd_action d = Allow"
      using allowed_score [of inp "policy_reasons pf inp" "pd_score d"] that d(1,3) by (simp add: reasoned_action_def Let_def)
    then show ?thesis using scorePolicyReasons_range [OF assms(2)] d(3) by (auto intro: antisym)
  next
    case (Some ov)
    then show ?thesis using evaluatePolicy_override [OF t Some] assms(1) by (simp add: override_decision_def)
  qed
qed

theorem policy_score_witness: "0 \<le> pd_score (gate_decision Production) \<and> pd_score (gate_decision Production) \<le> 100"
proof -
  have "score_reduction (in_mode Production gate_input) = 0"
    by (simp add: score_reduction_def gate_input_def gate_env_def gate_policy_def)
  with policy_score [OF gate_decides(2)] show ?thesis by simp
qed

text \<open>In development a version that is too new, but not of its first day, is let through with a warning
  whatever its analysis found below the severity critical; once it is old enough, the same findings
  keep it out.\<close>

lemma too_new_masks_analysis:
  assumes "pi_runtimeMode inp = Development" and "pi_packageAgeDays inp = Some age" and "1 \<le> age" and "age < age_limit inp"
    and "\<not> hard_critical (policy_reasons pf inp)"
    and "has_code (report_signals inp) UNSAFE_TARBALL_SYMLINK" and "\<not> has_code (report_signals inp) PACKAGE_TOO_NEW"
    and "age_limit inp \<le> older"
  shows "reasoned_action pf inp = Warn"
    and "Quarantine \<le> reasoned_action pf (inp\<lparr>pi_packageAgeDays := Some older\<rparr>)"
proof -
  let ?old = "inp\<lparr>pi_packageAgeDays := Some older\<rparr>"
  have "has_code (policy_reasons pf inp) PACKAGE_TOO_NEW"
    using assms(2,4) by (simp add: has_code_policy_reasons own_reasons_def too_new_reason_def below_def Let_def)
  then show "reasoned_action pf inp = Warn"
    using assms(1-3,5) by (simp add: reasoned_action_def Let_def decideAction_def by_mode_def below_def)
  have same: "report_signals ?old = report_signals inp" by (simp add: report_signals_def)
  have "\<not> has_code (own_reasons pf ?old) PACKAGE_TOO_NEW" "\<not> has_code (llm_reason ?old) PACKAGE_TOO_NEW"
    using assms(8) by (auto simp: own_reasons_def policy_defs below_def Let_def split: option.splits list.splits prod.splits)
  then have "\<not> has_code (policy_reasons pf ?old) PACKAGE_TOO_NEW"
    using assms(7) by (simp add: has_code_policy_reasons same)
  moreover have "has_code (policy_reasons pf ?old) UNSAFE_TARBALL_SYMLINK"
    using assms(6) by (simp add: has_code_policy_reasons same)
  ultimately show "Quarantine \<le> reasoned_action pf ?old"
    by (simp add: reasoned_action_def Let_def decideAction_def)
qed

section \<open>Names\<close>

text \<open>C40: The distance of two names, computed with the matrix of prefixes and the tables of last
  occurrences, is that of the recursive definition, and so many insertions, deletions,
  substitutions and transpositions of adjacent characters turn one name into the other.\<close>

theorem distance_reference:
  "damerauLevenshtein a b = dl a b (length a) (length b) \<and> edits (damerauLevenshtein a b) a b"
  by (simp add: damerauLevenshtein_dl damerauLevenshtein_edits [of a b, unfolded damerauLevenshtein_dl])

text \<open>The similarity of two package names is between 0 and 1, and it is 1 exactly for names that are
  equal once normalised.\<close>

theorem similarity_range:
  "0 \<le> similarity a b \<and> similarity a b \<le> 1 \<and> (similarity a b = 1 \<longleftrightarrow> normaliseName a = normaliseName b)"
  by (rule similarity_bounds)

end
