(* ===== verification/Snapshot_Store.thy ===== *)
theory Snapshot_Store
  imports Execution_Types Text_Utils Execution_Validation
begin

text \<open>
  \<open>packages/control-plane/src/execution-snapshot-store.ts\<close>: source snapshots, the single-use grants
  that let a sandbox download one, the in-memory store, the file store and the broker that issues
  a grant for an execution.

  The helpers that read the clock, draw an identifier or a token run on the outer world; the two
  stores embed them. The JavaScript objects \<open>snapshots\<close> and \<open>grants\<close> and the object map are
  association lists. An upload's bytes are a list of numbers below 256; \<open>sha256\<close> of a text hashes
  its UTF-8 encoding. A grant's expiry is \<open>None\<close> when its stored text is no date, which only a
  damaged state file can hold.
\<close>

section \<open>Data\<close>

record snapshot_upload =
  up_workspace :: string
  up_baseCommit :: string
  up_archive :: bytes
  up_repository :: "string option"
  up_branch :: "string option"
  up_workingTreePatch :: "bytes option"

record snapshot_patch =
  sp_artifactId :: string
  sp_sha256 :: string
  sp_sizeBytes :: nat

record snapshot_source =
  so_snapshotId :: string
  so_sha256 :: string
  so_sizeBytes :: nat
  so_baseCommit :: string
  so_repository :: "string option"
  so_branch :: "string option"
  so_patch :: "snapshot_patch option"
  so_includesWorkingTreePatch :: bool
  so_excluded :: "string list"

record snapshot_record =
  sr_workspace :: string
  sr_source :: snapshot_source
  sr_archiveObject :: string
  sr_patchObject :: "string option"
  sr_createdAt :: int

record snapshot_grant =
  sg_id :: string
  sg_snapshotId :: string
  sg_executionId :: string
  sg_workspace :: string
  sg_token :: string
  sg_expiresAt :: int

record grant_record =
  gr_id :: string
  gr_snapshotId :: string
  gr_executionId :: string
  gr_workspace :: string
  gr_expiresAt :: "int option"
  gr_tokenSha256 :: string
  gr_usedAt :: "int option"

record snapshot_download =
  dl_record :: snapshot_record
  dl_archive :: bytes
  dl_workingTreePatch :: "bytes option"

record snapshot_state =
  sn_snapshots :: "(string \<times> snapshot_record) list"
  sn_grants :: "(string \<times> grant_record) list"

record 'w snapshot_options =
  op_maxSnapshotBytes :: int
  op_maxPatchBytes :: int
  op_now :: "'w \<Rightarrow> int \<times> 'w"
  op_idFactory :: "'w \<Rightarrow> string \<times> 'w"
  op_tokenFactory :: "'w \<Rightarrow> string \<times> 'w"

text \<open>The options as given: absent ones take the defaults.\<close>

record 'w snapshot_config =
  oc_maxSnapshotBytes :: "int option"
  oc_maxPatchBytes :: "int option"
  oc_now :: "('w \<Rightarrow> int \<times> 'w) option"
  oc_idFactory :: "('w \<Rightarrow> string \<times> 'w) option"
  oc_tokenFactory :: "('w \<Rightarrow> string \<times> 'w) option"

record issue_input =
  is_workspace :: string
  is_snapshotId :: string
  is_executionId :: string
  is_ttlSeconds :: "jsnum option"

record consume_input =
  ci_grantId :: string
  ci_executionId :: string
  ci_token :: string

definition DEFAULT_MAX_SNAPSHOT_BYTES :: int where
  "DEFAULT_MAX_SNAPSHOT_BYTES = 256 * 1024 * 1024"

definition DEFAULT_MAX_PATCH_BYTES :: int where
  "DEFAULT_MAX_PATCH_BYTES = 16 * 1024 * 1024"

definition DEFAULT_GRANT_TTL_SECONDS :: int where
  "DEFAULT_GRANT_TTL_SECONDS = 300"

text \<open>\<open>host\<close> supplies the platform's clock, \<open>randomUUID\<close> and random tokens.\<close>

definition normalizedOptions :: "'w snapshot_options \<Rightarrow> 'w snapshot_config \<Rightarrow> 'w snapshot_options" where
  "normalizedOptions host c =
     \<lparr>op_maxSnapshotBytes = (case oc_maxSnapshotBytes c of Some n \<Rightarrow> n | None \<Rightarrow> DEFAULT_MAX_SNAPSHOT_BYTES),
      op_maxPatchBytes = (case oc_maxPatchBytes c of Some n \<Rightarrow> n | None \<Rightarrow> DEFAULT_MAX_PATCH_BYTES),
      op_now = (case oc_now c of Some f \<Rightarrow> f | None \<Rightarrow> op_now host),
      op_idFactory = (case oc_idFactory c of Some f \<Rightarrow> f | None \<Rightarrow> op_idFactory host),
      op_tokenFactory = (case oc_tokenFactory c of Some f \<Rightarrow> f | None \<Rightarrow> op_tokenFactory host)\<rparr>"

section \<open>Helpers\<close>

definition sha256_text :: "platform \<Rightarrow> string \<Rightarrow> string" where
  "sha256_text pf s = pf_sha256 pf (utf8 s)"

definition recordKey :: "platform \<Rightarrow> string \<Rightarrow> string \<Rightarrow> string" where
  "recordKey pf workspace snapshotId = sha256_text pf (workspace @ [CHR 0x00] @ snapshotId)"

definition constantTimeEqual :: "platform \<Rightarrow> string \<Rightarrow> string \<Rightarrow> bool" where
  "constantTimeEqual pf left right \<longleftrightarrow>
     length (pf_hex_dec pf left) = length (pf_hex_dec pf right) \<and> pf_hex_dec pf left = pf_hex_dec pf right"

definition invalidSnapshot :: "string \<Rightarrow> exn" where
  "invalidSnapshot message = SnapError SnapshotInvalid message"

definition snapshotNotFound :: "string \<Rightarrow> string \<Rightarrow> exn" where
  "snapshotNotFound workspace snapshotId = SnapError SnapshotNotFound
     (''Snapshot '' @ [CHR 39] @ snapshotId @ [CHR 39] @ '' was not found in workspace '' @
      [CHR 39] @ workspace @ [CHR 39] @ ''.'')"

definition grantInvalid :: exn where
  "grantInvalid = SnapError GrantInvalid ''Snapshot grant is invalid.''"

definition validateUpload :: "platform \<Rightarrow> 'w snapshot_options \<Rightarrow> snapshot_upload \<Rightarrow> exn + unit" where
  "validateUpload pf opts u =
     (if js_trim (up_workspace u) = [] \<or> length (up_workspace u) > 200 then
        Inl (invalidSnapshot ''Snapshot workspace must contain 1 to 200 characters.'')
      else if \<not> hex_text 7 64 (up_baseCommit u) then
        Inl (invalidSnapshot ''Snapshot base commit must be hexadecimal.'')
      else if up_archive u = [] then
        Inl (invalidSnapshot ''Snapshot archive must not be empty.'')
      else if int (length (up_archive u)) > op_maxSnapshotBytes opts then
        Inl (SnapError SnapshotTooLarge
          (''Snapshot archive exceeds '' @ int_str (op_maxSnapshotBytes opts) @ '' bytes.''))
      else if up_workingTreePatch u = Some [] then
        Inl (invalidSnapshot ''Working-tree patch must not be empty.'')
      else if (case up_workingTreePatch u of None \<Rightarrow> False | Some p \<Rightarrow> int (length p) > op_maxPatchBytes opts) then
        Inl (SnapError SnapshotTooLarge
          (''Working-tree patch exceeds '' @ int_str (op_maxPatchBytes opts) @ '' bytes.''))
      else if (case up_repository u of None \<Rightarrow> False | Some r \<Rightarrow> \<not> isCredentialFreeHttpsUrl pf (JStr r)) then
        Inl (invalidSnapshot ''Snapshot repository must be a credential-free HTTPS URL.'')
      else Inr ())"

definition snapshot_id :: "platform \<Rightarrow> bytes \<Rightarrow> bytes option \<Rightarrow> string" where
  "snapshot_id pf archive patch = ''snap_'' @
     (case patch of None \<Rightarrow> pf_sha256 pf archive
      | Some p \<Rightarrow> sha256_text pf (pf_sha256 pf archive @ [CHR 0x00] @ pf_sha256 pf p))"

definition snapshot_source_of :: "platform \<Rightarrow> snapshot_upload \<Rightarrow> snapshot_source" where
  "snapshot_source_of pf u =
     \<lparr>so_snapshotId = snapshot_id pf (up_archive u) (up_workingTreePatch u),
      so_sha256 = pf_sha256 pf (up_archive u), so_sizeBytes = length (up_archive u),
      so_baseCommit = up_baseCommit u, so_repository = up_repository u, so_branch = up_branch u,
      so_patch = map_option (\<lambda>p. \<lparr>sp_artifactId = ''patch_'' @ pf_sha256 pf p, sp_sha256 = pf_sha256 pf p,
        sp_sizeBytes = length p\<rparr>) (up_workingTreePatch u),
      so_includesWorkingTreePatch = (up_workingTreePatch u \<noteq> None), so_excluded = requiredExclusions\<rparr>"

definition prepareSnapshot ::
  "platform \<Rightarrow> 'w snapshot_options \<Rightarrow> snapshot_upload \<Rightarrow> ('w, exn, snapshot_record \<times> bytes \<times> bytes option) comp" where
  "prepareSnapshot pf opts u =
     thenE (lift_sum (validateUpload pf opts u))
     (bindE (draw (op_now opts)) (\<lambda>t.
      ret (\<lparr>sr_workspace = up_workspace u, sr_source = snapshot_source_of pf u,
          sr_archiveObject = pf_sha256 pf (up_archive u),
          sr_patchObject = map_option (pf_sha256 pf) (up_workingTreePatch u), sr_createdAt = t\<rparr>,
        up_archive u, up_workingTreePatch u)))"

definition createGrant ::
  "platform \<Rightarrow> 'w snapshot_options \<Rightarrow> issue_input \<Rightarrow> ('w, exn, snapshot_grant \<times> grant_record) comp" where
  "createGrant pf opts input =
     (let ttlSeconds = (case is_ttlSeconds input of Some n \<Rightarrow> n
            | None \<Rightarrow> num_of_int DEFAULT_GRANT_TTL_SECONDS) in
     if \<not> safe_integer ttlSeconds \<or> num_int ttlSeconds < 1 \<or> num_int ttlSeconds > 900
     then throw (SnapError GrantInvalid ''Snapshot grants must live between 1 and 900 seconds.'')
     else
       bindE (draw (op_idFactory opts)) (\<lambda>i.
       bindE (draw (op_tokenFactory opts)) (\<lambda>token.
       bindE (draw (op_now opts)) (\<lambda>t.
       (let grantId = ''grant_'' @ sanitizeId i; expiresAt = t + num_int ttlSeconds * 1000 in
        ret (\<lparr>sg_id = grantId, sg_snapshotId = is_snapshotId input, sg_executionId = is_executionId input,
            sg_workspace = is_workspace input, sg_token = token, sg_expiresAt = expiresAt\<rparr>,
          \<lparr>gr_id = grantId, gr_snapshotId = is_snapshotId input, gr_executionId = is_executionId input,
            gr_workspace = is_workspace input, gr_expiresAt = Some expiresAt,
            gr_tokenSha256 = sha256_text pf token, gr_usedAt = None\<rparr>))))))"

definition validateGrant ::
  "platform \<Rightarrow> 'w snapshot_options \<Rightarrow> grant_record option \<Rightarrow> consume_input \<Rightarrow> ('w, exn, grant_record) comp" where
  "validateGrant pf opts grant input =
     (case grant of
        None \<Rightarrow> throw grantInvalid
      | Some g \<Rightarrow>
        if length (ci_token input) > 512 \<or> gr_executionId g \<noteq> ci_executionId input \<or>
           \<not> constantTimeEqual pf (gr_tokenSha256 g) (sha256_text pf (ci_token input))
        then throw grantInvalid
        else if gr_usedAt g \<noteq> None
        then throw (SnapError GrantUsed ''Snapshot grant has already been used.'')
        else (case gr_expiresAt g of
            None \<Rightarrow> throw grantInvalid
          | Some expiresAt \<Rightarrow>
              bindE (draw (op_now opts)) (\<lambda>t.
              if expiresAt \<le> t then throw (SnapError GrantExpired ''Snapshot grant has expired.'')
              else ret g)))"

section \<open>The in-memory store\<close>

record 'w snapshot_mem =
  sm_state :: snapshot_state
  sm_objects :: "(string \<times> bytes) list"
  sm_wd :: 'w

definition empty_snapshots :: snapshot_state where
  "empty_snapshots = \<lparr>sn_snapshots = [], sn_grants = []\<rparr>"

definition sm_call :: "('w, exn, 'a) comp \<Rightarrow> ('w snapshot_mem, exn, 'a) comp" where
  "sm_call m s = (case m (sm_wd s) of (r, w) \<Rightarrow> (r, s\<lparr>sm_wd := w\<rparr>))"

definition putObject :: "string \<Rightarrow> bytes \<Rightarrow> ('w snapshot_mem, exn, unit) comp" where
  "putObject name content = modify (\<lambda>s. s\<lparr>sm_objects := AList.update name content (sm_objects s)\<rparr>)"

definition add_snapshot :: "string \<Rightarrow> snapshot_record \<Rightarrow> snapshot_state \<Rightarrow> snapshot_state" where
  "add_snapshot k r x = x\<lparr>sn_snapshots := AList.update k r (sn_snapshots x)\<rparr>"

definition add_grant :: "grant_record \<Rightarrow> snapshot_state \<Rightarrow> snapshot_state" where
  "add_grant g x = x\<lparr>sn_grants := AList.update (gr_id g) g (sn_grants x)\<rparr>"

text \<open>\<open>grant.usedAt = \<dots>\<close> on the object stored under the grant's key.\<close>

definition use_grant :: "string \<Rightarrow> int \<Rightarrow> snapshot_state \<Rightarrow> snapshot_state" where
  "use_grant key t x = x\<lparr>sn_grants := (case map_of (sn_grants x) key of
      None \<Rightarrow> sn_grants x
    | Some g \<Rightarrow> AList.update key (g\<lparr>gr_usedAt := Some t\<rparr>) (sn_grants x))\<rparr>"

definition mem_put :: "platform \<Rightarrow> 'w snapshot_options \<Rightarrow> snapshot_upload \<Rightarrow> ('w snapshot_mem, exn, snapshot_record) comp" where
  "mem_put pf opts u =
     bindE (sm_call (prepareSnapshot pf opts u)) (\<lambda>(r, archive, patch).
     thenE (putObject (sr_archiveObject r) archive)
     (thenE (case (patch, sr_patchObject r) of
          (Some p, Some n) \<Rightarrow> if n \<noteq> [] then putObject n p else ret ()
        | _ \<Rightarrow> ret ())
     (thenE (modify (\<lambda>s. s\<lparr>sm_state := add_snapshot
          (recordKey pf (up_workspace u) (so_snapshotId (sr_source r))) r (sm_state s)\<rparr>))
      (ret r))))"

definition mem_get :: "platform \<Rightarrow> string \<Rightarrow> string \<Rightarrow> ('w snapshot_mem, exn, snapshot_record option) comp" where
  "mem_get pf workspace snapshotId =
     gets (\<lambda>s. map_of (sn_snapshots (sm_state s)) (recordKey pf workspace snapshotId))"

definition mem_issueGrant :: "platform \<Rightarrow> 'w snapshot_options \<Rightarrow> issue_input \<Rightarrow> ('w snapshot_mem, exn, snapshot_grant) comp" where
  "mem_issueGrant pf opts input =
     bindE (mem_get pf (is_workspace input) (is_snapshotId input)) (\<lambda>r. case r of
       None \<Rightarrow> throw (snapshotNotFound (is_workspace input) (is_snapshotId input))
     | Some _ \<Rightarrow>
         bindE (sm_call (createGrant pf opts input)) (\<lambda>(grant, g).
         thenE (modify (\<lambda>s. s\<lparr>sm_state := add_grant g (sm_state s)\<rparr>)) (ret grant)))"

definition requiredObject :: "string \<Rightarrow> ('w snapshot_mem, exn, bytes) comp" where
  "requiredObject name =
     bindE (gets (\<lambda>s. map_of (sm_objects s) name)) (\<lambda>r. case r of
       None \<Rightarrow> throw (SnapError SnapshotNotFound ''Snapshot content is missing.'')
     | Some content \<Rightarrow> ret content)"

definition mem_consumeGrant :: "platform \<Rightarrow> 'w snapshot_options \<Rightarrow> consume_input \<Rightarrow> ('w snapshot_mem, exn, snapshot_download) comp" where
  "mem_consumeGrant pf opts input =
     bindE (gets (\<lambda>s. map_of (sn_grants (sm_state s)) (ci_grantId input))) (\<lambda>stored.
     bindE (sm_call (validateGrant pf opts stored input)) (\<lambda>grant.
     bindE (sm_call (draw (op_now opts))) (\<lambda>t.
     thenE (modify (\<lambda>s. s\<lparr>sm_state := use_grant (ci_grantId input) t (sm_state s)\<rparr>))
     (bindE (mem_get pf (gr_workspace grant) (gr_snapshotId grant)) (\<lambda>r. case r of
        None \<Rightarrow> throw (snapshotNotFound (gr_workspace grant) (gr_snapshotId grant))
      | Some record \<Rightarrow>
          bindE (requiredObject (sr_archiveObject record)) (\<lambda>archive.
          bindE (case sr_patchObject record of None \<Rightarrow> ret None
                 | Some n \<Rightarrow> bindE (requiredObject n) (\<lambda>p. ret (Some p))) (\<lambda>patch.
          ret \<lparr>dl_record = record, dl_archive = archive, dl_workingTreePatch = patch\<rparr>)))))))"

section \<open>The file store\<close>

text \<open>
  The state file and the object directory. \<open>withStateMutation\<close> runs one operation at a time on the
  state file; objects are created exclusively, and an existing one is left as it is. The same
  helpers run on the world.
\<close>

datatype snapshot_file = NoFile | BadFile string | StateFile snapshot_state

record 'w snapshot_disk =
  sd_file :: snapshot_file
  sd_objects :: "(string \<times> bytes) list"
  sd_wd :: 'w

definition sd_call :: "('w, exn, 'a) comp \<Rightarrow> ('w snapshot_disk, exn, 'a) comp" where
  "sd_call m s = (case m (sd_wd s) of (r, w) \<Rightarrow> (r, s\<lparr>sd_wd := w\<rparr>))"

definition readState :: "('w snapshot_disk, exn, snapshot_state) comp" where
  "readState = bindE (gets sd_file) (\<lambda>f. case f of
      NoFile \<Rightarrow> ret empty_snapshots
    | BadFile message \<Rightarrow> throw (JsError None message)
    | StateFile x \<Rightarrow> ret x)"

definition writeState :: "snapshot_state \<Rightarrow> ('w snapshot_disk, exn, unit) comp" where
  "writeState x = modify (\<lambda>s. s\<lparr>sd_file := StateFile x\<rparr>)"

definition writeObject :: "string \<Rightarrow> bytes \<Rightarrow> ('w snapshot_disk, exn, unit) comp" where
  "writeObject name content = modify (\<lambda>s. case map_of (sd_objects s) name of
      Some _ \<Rightarrow> s
    | None \<Rightarrow> s\<lparr>sd_objects := AList.update name content (sd_objects s)\<rparr>)"

definition readObject :: "string \<Rightarrow> ('w snapshot_disk, exn, bytes) comp" where
  "readObject name =
     bindE (gets (\<lambda>s. map_of (sd_objects s) name)) (\<lambda>r. case r of
       None \<Rightarrow> throw (JsError (Some ''ENOENT'') (''ENOENT: no such file or directory, open '' @ name))
     | Some content \<Rightarrow> ret content)"

definition disk_put :: "platform \<Rightarrow> 'w snapshot_options \<Rightarrow> snapshot_upload \<Rightarrow> ('w snapshot_disk, exn, snapshot_record) comp" where
  "disk_put pf opts u =
     bindE (sd_call (prepareSnapshot pf opts u)) (\<lambda>(r, archive, patch).
     thenE (writeObject (sr_archiveObject r) archive)
     (thenE (case (patch, sr_patchObject r) of
          (Some p, Some n) \<Rightarrow> if n \<noteq> [] then writeObject n p else ret ()
        | _ \<Rightarrow> ret ())
     (thenE (bindE readState (\<lambda>x. writeState
          (add_snapshot (recordKey pf (up_workspace u) (so_snapshotId (sr_source r))) r x)))
      (ret r))))"

definition disk_get :: "platform \<Rightarrow> string \<Rightarrow> string \<Rightarrow> ('w snapshot_disk, exn, snapshot_record option) comp" where
  "disk_get pf workspace snapshotId =
     bindE readState (\<lambda>x. ret (map_of (sn_snapshots x) (recordKey pf workspace snapshotId)))"

definition disk_issueGrant :: "platform \<Rightarrow> 'w snapshot_options \<Rightarrow> issue_input \<Rightarrow> ('w snapshot_disk, exn, snapshot_grant) comp" where
  "disk_issueGrant pf opts input =
     bindE readState (\<lambda>x.
     case map_of (sn_snapshots x) (recordKey pf (is_workspace input) (is_snapshotId input)) of
       None \<Rightarrow> throw (snapshotNotFound (is_workspace input) (is_snapshotId input))
     | Some _ \<Rightarrow>
         bindE (sd_call (createGrant pf opts input)) (\<lambda>(grant, g).
         thenE (writeState (add_grant g x)) (ret grant)))"

definition disk_consumeGrant :: "platform \<Rightarrow> 'w snapshot_options \<Rightarrow> consume_input \<Rightarrow> ('w snapshot_disk, exn, snapshot_download) comp" where
  "disk_consumeGrant pf opts input =
     bindE
       (bindE readState (\<lambda>x.
        bindE (sd_call (validateGrant pf opts (map_of (sn_grants x) (ci_grantId input)) input)) (\<lambda>grant.
        bindE (sd_call (draw (op_now opts))) (\<lambda>t.
        thenE (writeState (use_grant (ci_grantId input) t x))
        (case map_of (sn_snapshots x) (recordKey pf (gr_workspace grant) (gr_snapshotId grant)) of
           None \<Rightarrow> throw (snapshotNotFound (gr_workspace grant) (gr_snapshotId grant))
         | Some snapshot \<Rightarrow> ret snapshot)))))
       (\<lambda>record.
        bindE (readObject (sr_archiveObject record)) (\<lambda>archive.
        bindE (case sr_patchObject record of None \<Rightarrow> ret None
               | Some n \<Rightarrow> bindE (readObject n) (\<lambda>p. ret (Some p))) (\<lambda>patch.
        ret \<lparr>dl_record = record, dl_archive = archive, dl_workingTreePatch = patch\<rparr>)))"

section \<open>The broker\<close>

record source_broker =
  br_baseUrl :: string
  br_grantTtlSeconds :: int

text \<open>The constructor; \<open>href\<close> is \<open>URL.toString\<close> of the parsed base URL.\<close>

definition new_broker :: "platform \<Rightarrow> (string \<Rightarrow> string) \<Rightarrow> string \<Rightarrow> int option \<Rightarrow> exn + source_broker" where
  "new_broker pf href baseUrl ttl = (case pf_url pf baseUrl of
      None \<Rightarrow> Inl (JsError (Some ''ERR_INVALID_URL'') ''Invalid URL'')
    | Some u \<Rightarrow>
        if u_protocol u \<noteq> ''http:'' \<and> u_protocol u \<noteq> ''https:''
        then Inl (invalidSnapshot ''Snapshot grant base URL must use HTTP or HTTPS.'')
        else Inr \<lparr>br_baseUrl = trimTrailingCharacter (href baseUrl) (CHR ''/''),
          br_grantTtlSeconds = (case ttl of Some n \<Rightarrow> n | None \<Rightarrow> DEFAULT_GRANT_TTL_SECONDS)\<rparr>)"

text \<open>\<open>prepareAccess\<close>, over the store's \<open>issueGrant\<close>.\<close>

definition prepareAccess ::
  "platform \<Rightarrow> (issue_input \<Rightarrow> ('s, exn, snapshot_grant) comp) \<Rightarrow> source_broker \<Rightarrow>
   string \<Rightarrow> string \<Rightarrow> js \<Rightarrow> int \<Rightarrow> ('s, exn, source_access option) comp" where
  "prepareAccess pf issue br executionId workspace src ttlSeconds =
     (if jget src ''kind'' \<noteq> JStr ''snapshot'' then ret None
      else
        bindE (issue \<lparr>is_workspace = workspace, is_snapshotId = js_str (jget src ''snapshotId''),
            is_executionId = executionId,
            is_ttlSeconds = Some (num_of_int (min ttlSeconds (br_grantTtlSeconds br)))\<rparr>) (\<lambda>grant.
        ret (Some \<lparr>sa_kind = ''control-plane-grant'',
          sa_endpoint = br_baseUrl br @ ''/v1/source-grants/'' @ pf_uri_enc pf (sg_id grant),
          sa_grantId = sg_id grant, sa_token = sg_token grant,
          sa_expiresAt = pf_iso pf (sg_expiresAt grant)\<rparr>)))"

end
