(* ===== verification/Execution_Http.thy ===== *)
theory Execution_Http
  imports Control_Plane Snapshot_Store
begin

text \<open>
  \<open>packages/control-plane/src/execution-http.ts\<close>: the router of the hosted control plane and its
  HTTP clients.

  The router runs on the control plane's state; the security callbacks and the snapshot store are
  operations on the outer world, as the providers are. It throws its access errors beside the errors
  of the control plane and the snapshot store. A response's body is the datatype of the bodies the
  code builds; the lease, batch and snapshot in it are the values themselves. \<open>toUpperCase\<close> is
  written out on the letters; the code units it would turn into several or into larger ones never
  make a method name of this interface.
\<close>

section \<open>Requests and responses\<close>

record http_request =
  hq_method :: string
  hq_path :: string
  hq_headers :: "(string \<times> string option) list"
  hq_query :: "(string \<times> string) list option"
  hq_body :: js

datatype http_body =
    ErrorBody string string "js option"
  | ProvidersBody "provider_descriptor list"
  | ExecutionBody lease
  | ExecutionsBody "lease list"
  | BatchBody cursor_batch
  | SnapshotBody snapshot_source
  | DownloadBody snapshot_source string "string option"

record http_response =
  hp_status :: int
  hp_body :: http_body

record principal =
  pr_subject :: string
  pr_roles :: "string list option"

datatype http_action =
    ActProviders | ActCreate | ActList | ActRead | ActEvents | ActApproval | ActInput | ActSteer
  | ActSuspend | ActResume | ActCollect | ActTerminate | ActReap | ActSnapshotCreate

record auth_context =
  ac_principal :: principal
  ac_action :: http_action
  ac_httpRequest :: http_request
  ac_executionRequest :: "js option"
  ac_execution :: "lease option"
  ac_workspace :: "string option"

record 'w security =
  se_authenticate :: "http_request \<Rightarrow> 'w \<Rightarrow> (exn + principal option) \<times> 'w"
  se_authorize :: "auth_context \<Rightarrow> 'w \<Rightarrow> (exn + bool) \<times> 'w"

record 'w snapshot_api =
  sx_put :: "snapshot_upload \<Rightarrow> 'w \<Rightarrow> (exn + snapshot_record) \<times> 'w"
  sx_consumeGrant :: "consume_input \<Rightarrow> 'w \<Rightarrow> (exn + snapshot_download) \<times> 'w"

text \<open>What a route can throw: an access error with its status, or any error of what it calls.\<close>

datatype http_exn =
    AccessError int string string
  | Raised exn

type_synonym ('w, 'a) route = "('w cps, http_exn, 'a) comp"

definition api :: "('w, 'a) cp \<Rightarrow> ('w, 'a) route" where
  "api m s = (case m s of (Inl e, t) \<Rightarrow> (Inl (Raised e), t) | (Inr x, t) \<Rightarrow> (Inr x, t))"

section \<open>Statuses and bodies\<close>

fun statusForControlPlaneError :: "cp_code \<Rightarrow> int" where
  "statusForControlPlaneError NotFound = 404"
| "statusForControlPlaneError InvalidState = 409"
| "statusForControlPlaneError IdempotencyConflict = 409"
| "statusForControlPlaneError ProviderNotFound = 422"
| "statusForControlPlaneError ProviderUnsupported = 422"
| "statusForControlPlaneError StartFailed = 502"
| "statusForControlPlaneError InvalidCursor = 400"
| "statusForControlPlaneError InvalidRequest = 400"

fun statusForSnapshotError :: "snap_code \<Rightarrow> int" where
  "statusForSnapshotError SnapshotNotFound = 404"
| "statusForSnapshotError SnapshotTooLarge = 413"
| "statusForSnapshotError GrantUsed = 409"
| "statusForSnapshotError GrantExpired = 410"
| "statusForSnapshotError GrantInvalid = 401"
| "statusForSnapshotError SnapshotInvalid = 400"

definition ok_response :: "http_body \<Rightarrow> http_response" where
  "ok_response b = \<lparr>hp_status = 200, hp_body = b\<rparr>"

definition notFound :: "string \<Rightarrow> http_response" where
  "notFound path = \<lparr>hp_status = 404, hp_body = ErrorBody ''EXECUTION_ROUTE_NOT_FOUND''
     (''No execution control-plane route matches '' @ [CHR 39] @ path @ [CHR 39] @ ''.'') None\<rparr>"

text \<open>The \<open>catch\<close> of the handler.\<close>

fun error_response :: "http_exn \<Rightarrow> http_response" where
  "error_response (AccessError status c m) = \<lparr>hp_status = status, hp_body = ErrorBody c m None\<rparr>"
| "error_response (Raised (CPError c m d)) =
     \<lparr>hp_status = statusForControlPlaneError c, hp_body = ErrorBody (cp_code_str c) m (Some d)\<rparr>"
| "error_response (Raised (SnapError c m)) =
     \<lparr>hp_status = statusForSnapshotError c, hp_body = ErrorBody (snap_code_str c) m None\<rparr>"
| "error_response (Raised (JsError c m)) =
     \<lparr>hp_status = 500, hp_body = ErrorBody ''EXECUTION_CONTROL_PLANE_ERROR'' m None\<rparr>"

section \<open>Reading the request\<close>

definition upper_char :: "char \<Rightarrow> char" where
  "upper_char c =
     (if is_lower c \<or> (224 \<le> code c \<and> code c \<le> 254 \<and> code c \<noteq> 247)
      then char_of (code c - 32) else c)"

definition js_upper :: "string \<Rightarrow> string" where
  "js_upper s = map upper_char s"

definition readHeader :: "(string \<times> string option) list \<Rightarrow> string \<Rightarrow> string option" where
  "readHeader headers name = (case find (\<lambda>(k, _). js_lower k = name) headers of
      Some (_, v) \<Rightarrow> v | None \<Rightarrow> None)"

definition decodePathSegment :: "platform \<Rightarrow> string \<Rightarrow> exn + string" where
  "decodePathSegment pf s = (case pf_uri_dec pf s of
      Some v \<Rightarrow> Inr v
    | None \<Rightarrow> Inl (CPError InvalidRequest ''Execution path contains invalid URL encoding.'' (JObj [])))"

definition decodeBase64 :: "platform \<Rightarrow> string \<Rightarrow> string \<Rightarrow> exn + bytes" where
  "decodeBase64 pf value label =
     (let decoded = pf_b64_dec pf value in
      if pf_b64_enc pf decoded \<noteq> value
      then Inl (SnapError SnapshotInvalid (label @ '' must use canonical base64 encoding.''))
      else Inr decoded)"

definition optional_text :: "js \<Rightarrow> string option" where
  "optional_text v = (case v of JStr s \<Rightarrow> Some s | _ \<Rightarrow> None)"

definition readSnapshotUpload :: "platform \<Rightarrow> js \<Rightarrow> exn + snapshot_upload" where
  "readSnapshotUpload pf body =
     (if \<not> isObject body then Inl (SnapError SnapshotInvalid ''Snapshot upload body must be an object.'')
      else if \<not> isString (jget body ''workspace'') \<or> \<not> isString (jget body ''baseCommit'') \<or>
        \<not> isString (jget body ''archiveBase64'')
      then Inl (SnapError SnapshotInvalid ''Snapshot upload requires workspace, baseCommit, and archiveBase64.'')
      else if jget body ''repository'' \<noteq> JUndef \<and> \<not> isString (jget body ''repository'')
      then Inl (SnapError SnapshotInvalid ''Snapshot repository must be a string.'')
      else if jget body ''branch'' \<noteq> JUndef \<and> \<not> isString (jget body ''branch'')
      then Inl (SnapError SnapshotInvalid ''Snapshot branch must be a string.'')
      else if jget body ''workingTreePatchBase64'' \<noteq> JUndef \<and> \<not> isString (jget body ''workingTreePatchBase64'')
      then Inl (SnapError SnapshotInvalid ''Snapshot working-tree patch must be base64 text.'')
      else (case decodeBase64 pf (js_str (jget body ''archiveBase64'')) ''snapshot archive'' of
          Inl e \<Rightarrow> Inl e
        | Inr archive \<Rightarrow>
            (case (case optional_text (jget body ''workingTreePatchBase64'') of
                None \<Rightarrow> Inr None
              | Some p \<Rightarrow> (case decodeBase64 pf p ''working-tree patch'' of Inl e \<Rightarrow> Inl e | Inr b \<Rightarrow> Inr (Some b))) of
              Inl e \<Rightarrow> Inl e
            | Inr patch \<Rightarrow>
                Inr \<lparr>up_workspace = js_str (jget body ''workspace''), up_baseCommit = js_str (jget body ''baseCommit''),
                  up_archive = archive, up_repository = optional_text (jget body ''repository''),
                  up_branch = optional_text (jget body ''branch''), up_workingTreePatch = patch\<rparr>)))"

text \<open>The \<open>limit\<close> of an event request.\<close>

definition read_limit :: "platform \<Rightarrow> string option \<Rightarrow> exn + int option" where
  "read_limit pf limitValue = (case limitValue of
      None \<Rightarrow> Inr None
    | Some v \<Rightarrow>
        (let limit = str_num pf v in
         if \<not> safe_integer limit \<or> num_int limit < 0
         then Inl (CPError InvalidRequest (''Execution event limit '' @ [CHR 39] @ v @ [CHR 39] @ '' is invalid.'') (JObj []))
         else Inr (Some (num_int limit))))"

definition query_get :: "http_request \<Rightarrow> string \<Rightarrow> string option" where
  "query_get r name = (case hq_query r of None \<Rightarrow> None | Some q \<Rightarrow> map_of q name)"

section \<open>Authorisation\<close>

definition new_context :: "principal \<Rightarrow> http_action \<Rightarrow> http_request \<Rightarrow> auth_context" where
  "new_context p a r = \<lparr>ac_principal = p, ac_action = a, ac_httpRequest = r, ac_executionRequest = None,
     ac_execution = None, ac_workspace = None\<rparr>"

definition requireAuthorization :: "'w security \<Rightarrow> auth_context \<Rightarrow> ('w, unit) route" where
  "requireAuthorization sec ctx =
     bindE (api (call (se_authorize sec ctx))) (\<lambda>allowed.
     if \<not> allowed
     then throw (AccessError 403 ''EXECUTION_AUTHORIZATION_DENIED''
       ''The authenticated principal cannot perform this execution action.'')
     else ret ())"

definition authorizedExecution ::
  "'w security \<Rightarrow> principal \<Rightarrow> http_request \<Rightarrow> string \<Rightarrow> http_action \<Rightarrow> ('w, lease) route" where
  "authorizedExecution sec p r executionId action =
     bindE (api (getExecution executionId)) (\<lambda>execution.
     thenE (requireAuthorization sec ((new_context p action r)\<lparr>ac_execution := Some execution\<rparr>))
      (ret execution))"

text \<open>The leases of a list that the principal may see, asked for one after the other.\<close>

fun authorizedList :: "'w security \<Rightarrow> principal \<Rightarrow> http_request \<Rightarrow> lease list \<Rightarrow> ('w, lease list) route" where
  "authorizedList sec p r [] = ret []"
| "authorizedList sec p r (l # ls) =
     bindE (api (call (se_authorize sec ((new_context p ActList r)\<lparr>ac_execution := Some l\<rparr>)))) (\<lambda>allowed.
     bindE (authorizedList sec p r ls) (\<lambda>rest. ret (if allowed then l # rest else rest)))"

section \<open>The routes\<close>

text \<open>A route of one execution: authorise the action on its lease, then call the method.\<close>

definition execution_route ::
  "'w security \<Rightarrow> principal \<Rightarrow> http_request \<Rightarrow> string \<Rightarrow> http_action \<Rightarrow> ('w, lease) cp \<Rightarrow> ('w, http_response) route" where
  "execution_route sec p r executionId action m =
     thenE (authorizedExecution sec p r executionId action)
     (bindE (api m) (\<lambda>l. ret (ok_response (ExecutionBody l))))"

definition events_route ::
  "platform \<Rightarrow> 'w cp_env \<Rightarrow> 'w security \<Rightarrow> principal \<Rightarrow> http_request \<Rightarrow> string \<Rightarrow> ('w, http_response) route" where
  "events_route pf env sec p r executionId =
     thenE (authorizedExecution sec p r executionId ActEvents)
     (bindE (api (lift_sum (read_limit pf (query_get r ''limit'')))) (\<lambda>limit.
      bindE (api (streamEvents pf env executionId (query_get r ''cursor'') limit)) (\<lambda>batch.
      ret (ok_response (BatchBody batch)))))"

definition steer_message :: "js \<Rightarrow> js" where
  "steer_message body =
     (if isObject body \<and> isString (jget body ''message'') then jget body ''message'' else JStr [])"

definition routeExecution ::
  "platform \<Rightarrow> 'w cp_env \<Rightarrow> 'w security \<Rightarrow> principal \<Rightarrow> http_request \<Rightarrow> string \<Rightarrow> string \<Rightarrow> string \<Rightarrow>
   ('w, http_response) route" where
  "routeExecution pf env sec p r method executionId action =
     (if action = [] \<and> method = ''GET'' then
        bindE (authorizedExecution sec p r executionId ActRead) (\<lambda>l. ret (ok_response (ExecutionBody l)))
      else if action = ''events'' \<and> method = ''GET'' then events_route pf env sec p r executionId
      else if action = ''approval'' \<and> method = ''POST'' then
        execution_route sec p r executionId ActApproval (resolveApproval pf env executionId (hq_body r))
      else if action = ''input'' \<and> method = ''POST'' then
        execution_route sec p r executionId ActInput (submitInput pf env executionId (hq_body r))
      else if action = ''steer'' \<and> method = ''POST'' then
        execution_route sec p r executionId ActSteer (steer pf env executionId (steer_message (hq_body r)))
      else if action = ''suspend'' \<and> method = ''POST'' then
        execution_route sec p r executionId ActSuspend (suspend env executionId)
      else if action = ''resume'' \<and> method = ''POST'' then
        execution_route sec p r executionId ActResume (resume pf env executionId)
      else if action = ''collect'' \<and> method = ''POST'' then
        execution_route sec p r executionId ActCollect (collectResult pf env executionId)
      else if action = ''terminate'' \<and> method = ''POST'' then
        execution_route sec p r executionId ActTerminate (terminate pf env executionId)
      else ret (notFound (hq_path r)))"

text \<open>The paths \<open>/v1/executions/\<langle>id\<rangle>\<close> and \<open>/v1/executions/\<langle>id\<rangle>/\<langle>action\<rangle>\<close>.\<close>

definition routeByParts ::
  "platform \<Rightarrow> 'w cp_env \<Rightarrow> 'w security \<Rightarrow> principal \<Rightarrow> http_request \<Rightarrow> string \<Rightarrow> ('w, http_response) route" where
  "routeByParts pf env sec p r method =
     (let parts = js_split (CHR ''/'') (hq_path r) in
      if length parts < 4 \<or> length parts > 5 \<or> parts ! 0 \<noteq> [] \<or> parts ! 1 \<noteq> ''v1'' \<or>
         parts ! 2 \<noteq> ''executions'' \<or> parts ! 3 = []
      then ret (notFound (hq_path r))
      else
        bindE (api (lift_sum (decodePathSegment pf (parts ! 3)))) (\<lambda>executionId.
        routeExecution pf env sec p r method executionId (if length parts = 5 then parts ! 4 else [])))"

definition snapshot_route ::
  "platform \<Rightarrow> 'w security \<Rightarrow> 'w snapshot_api option \<Rightarrow> principal \<Rightarrow> http_request \<Rightarrow> ('w, http_response) route" where
  "snapshot_route pf sec snapshots p r = (case snapshots of
      None \<Rightarrow> ret (notFound (hq_path r))
    | Some sx \<Rightarrow>
        bindE (api (lift_sum (readSnapshotUpload pf (hq_body r)))) (\<lambda>u.
        thenE (requireAuthorization sec ((new_context p ActSnapshotCreate r)\<lparr>ac_workspace := Some (up_workspace u)\<rparr>))
        (bindE (api (call (sx_put sx u))) (\<lambda>record. ret (ok_response (SnapshotBody (sr_source record)))))))"

definition routeAgentExecutionRequest ::
  "platform \<Rightarrow> 'w cp_env \<Rightarrow> 'w security \<Rightarrow> 'w snapshot_api option \<Rightarrow> principal \<Rightarrow> http_request \<Rightarrow>
   ('w, http_response) route" where
  "routeAgentExecutionRequest pf env sec snapshots p r =
     (let method = js_upper (hq_method r); path = hq_path r in
      if path = ''/v1/source-snapshots'' \<and> method = ''POST'' then snapshot_route pf sec snapshots p r
      else if path = ''/v1/execution-providers'' \<and> method = ''GET'' then
        thenE (requireAuthorization sec (new_context p ActProviders r))
          (ret (ok_response (ProvidersBody (listProviders pf env))))
      else if path = ''/v1/executions'' \<and> method = ''POST'' then
        thenE (requireAuthorization sec ((new_context p ActCreate r)\<lparr>ac_executionRequest := Some (hq_body r)\<rparr>))
        (bindE (api (createExecution pf env (hq_body r))) (\<lambda>l. ret (ok_response (ExecutionBody l))))
      else if path = ''/v1/executions'' \<and> method = ''GET'' then
        bindE (api listExecutions) (\<lambda>ls.
        bindE (authorizedList sec p r ls) (\<lambda>ks. ret (ok_response (ExecutionsBody ks))))
      else if path = ''/v1/executions/reap'' \<and> method = ''POST'' then
        thenE (requireAuthorization sec (new_context p ActReap r))
        (bindE (api (reapExpired pf env)) (\<lambda>ls. ret (ok_response (ExecutionsBody ls))))
      else
        routeByParts pf env sec p r method)"

section \<open>The handler\<close>

definition grant_prefix :: string where
  "grant_prefix = ''/v1/source-grants/''"

definition bearer_token :: "http_request \<Rightarrow> string option" where
  "bearer_token r = (case readHeader (hq_headers r) ''authorization'' of
      None \<Rightarrow> None
    | Some a \<Rightarrow> if starts_with ''Bearer '' a then Some (drop (length ''Bearer '') a) else None)"

definition consumeSourceGrant :: "platform \<Rightarrow> 'w snapshot_api \<Rightarrow> http_request \<Rightarrow> ('w, http_response) route" where
  "consumeSourceGrant pf sx r =
     (let encodedGrantId = drop (length grant_prefix) (hq_path r) in
      if encodedGrantId = [] \<or> CHR ''/'' \<in> set encodedGrantId then ret (notFound (hq_path r))
      else (case (bearer_token r, readHeader (hq_headers r) ''x-mezair-execution-id'') of
          (Some token, Some executionId) \<Rightarrow>
            if token = [] \<or> executionId = []
            then throw (Raised (SnapError GrantInvalid ''Snapshot grant authentication is required.''))
            else
              bindE (api (lift_sum (decodePathSegment pf encodedGrantId))) (\<lambda>grantId.
              bindE (api (call (sx_consumeGrant sx \<lparr>ci_grantId = grantId, ci_executionId = executionId,
                ci_token = token\<rparr>))) (\<lambda>download.
              ret (ok_response (DownloadBody (sr_source (dl_record download)) (pf_b64_enc pf (dl_archive download))
                (map_option (pf_b64_enc pf) (dl_workingTreePatch download))))))
        | _ \<Rightarrow> throw (Raised (SnapError GrantInvalid ''Snapshot grant authentication is required.''))))"

text \<open>The snapshot store, if the request is for a source grant.\<close>

definition grant_api :: "'w snapshot_api option \<Rightarrow> http_request \<Rightarrow> 'w snapshot_api option" where
  "grant_api snapshots r =
     (if js_upper (hq_method r) = ''GET'' \<and> starts_with grant_prefix (hq_path r) then snapshots else None)"

definition authenticated_route ::
  "platform \<Rightarrow> 'w cp_env \<Rightarrow> 'w security \<Rightarrow> 'w snapshot_api option \<Rightarrow> http_request \<Rightarrow> ('w, http_response) route" where
  "authenticated_route pf env sec snapshots r =
     bindE (api (call (se_authenticate sec r))) (\<lambda>principal. case principal of
       None \<Rightarrow> throw (AccessError 401 ''EXECUTION_AUTHENTICATION_REQUIRED''
         ''Execution control-plane authentication is required.'')
     | Some p \<Rightarrow> routeAgentExecutionRequest pf env sec snapshots p r)"

definition handled ::
  "platform \<Rightarrow> 'w cp_env \<Rightarrow> 'w security \<Rightarrow> 'w snapshot_api option \<Rightarrow> http_request \<Rightarrow> ('w, http_response) route" where
  "handled pf env sec snapshots r = (case grant_api snapshots r of
      Some sx \<Rightarrow> consumeSourceGrant pf sx r
    | None \<Rightarrow> authenticated_route pf env sec snapshots r)"

text \<open>\<open>createAgentExecutionHttpHandler\<close>: the handler always answers.\<close>

definition http_handler ::
  "platform \<Rightarrow> 'w cp_env \<Rightarrow> 'w security \<Rightarrow> 'w snapshot_api option \<Rightarrow> http_request \<Rightarrow> 'w cps \<Rightarrow> http_response \<times> 'w cps" where
  "http_handler pf env sec snapshots r s = (case handled pf env sec snapshots r s of
      (Inl e, t) \<Rightarrow> (error_response e, t)
    | (Inr response, t) \<Rightarrow> (response, t))"

section \<open>The security of the served control plane\<close>

text \<open>
  What \<open>commandExecutionsServe\<close> of \<open>packages/cli/src/index.ts\<close> passes as security: one operator,
  known by a bearer token, who may do everything.
\<close>

definition constantTimeTextEqual :: "string \<Rightarrow> string \<Rightarrow> bool" where
  "constantTimeTextEqual left right \<longleftrightarrow>
     length (utf8 left) = length (utf8 right) \<and> utf8 left = utf8 right"

definition operator_security :: "string \<Rightarrow> 'w security" where
  "operator_security token =
     \<lparr>se_authenticate = (\<lambda>r w. (Inr (case readHeader (hq_headers r) ''authorization'' of
          None \<Rightarrow> None
        | Some a \<Rightarrow> if a \<noteq> [] \<and> constantTimeTextEqual a (''Bearer '' @ token)
            then Some \<lparr>pr_subject = ''execution-service-operator'', pr_roles = Some [''admin'']\<rparr> else None), w)),
      se_authorize = (\<lambda>ctx w. (Inr True, w))\<rparr>"

end
