(* ===== verification/Execution_Worker.thy ===== *)
theory Execution_Worker
  imports Execution_Http
begin

text \<open>
  \<open>packages/control-plane/src/execution-worker.ts\<close>: the private HTTP boundary of a sandbox. It
  fetches the source of an execution with its grant, checks what it got against the declared
  digests and sizes, and hands it to the driver; the other routes pass a run's events, decisions,
  input and result through.

  The driver, the network, the security callback and the clock are operations on the world. The
  bodies are unchecked JSON, so the fields the code reads are values; \<open>we_buffer\<close> is what
  \<open>Buffer.from(value, "hex")\<close> makes of a value that is no string.
\<close>

section \<open>The driver and its material\<close>

record worker_material =
  wm_executionId :: string
  wm_source :: js
  wm_archive :: "bytes option"
  wm_workingTreePatch :: "bytes option"

record 'w worker_driver =
  dr_prepareWorkspace :: "worker_material \<Rightarrow> 'w \<Rightarrow> (exn + exec_workspace) \<times> 'w"
  dr_startExecution :: "js \<Rightarrow> 'w \<Rightarrow> (exn + string) \<times> 'w"
  dr_readEvents :: "string \<Rightarrow> string option \<Rightarrow> int option \<Rightarrow> 'w \<Rightarrow> (exn + event_batch) \<times> 'w"
  dr_resolveApproval :: "string \<Rightarrow> js \<Rightarrow> 'w \<Rightarrow> (exn + unit) \<times> 'w"
  dr_submitInput :: "string \<Rightarrow> js \<Rightarrow> 'w \<Rightarrow> (exn + unit) \<times> 'w"
  dr_steer :: "string \<Rightarrow> string \<Rightarrow> 'w \<Rightarrow> (exn + unit) \<times> 'w"
  dr_collectResult :: "string \<Rightarrow> 'w \<Rightarrow> (exn + provider_result) \<times> 'w"

record fetched =
  fe_ok :: bool
  fe_status :: int
  fe_json :: "js option"

record 'w worker_env =
  we_driver :: "'w worker_driver"
  we_fetch :: "string \<Rightarrow> (string \<times> string) list \<Rightarrow> 'w \<Rightarrow> (exn + fetched) \<times> 'w"
  we_authenticate :: "http_request \<Rightarrow> 'w \<Rightarrow> (exn + bool) \<times> 'w"
  we_now :: "'w \<Rightarrow> int \<times> 'w"
  we_buffer :: "js \<Rightarrow> exn + bytes"

datatype worker_code = AuthenticationRequired | WorkerInvalidRequest | SourceRequired | SourceUnreachable | SourceInvalid

fun worker_code_str :: "worker_code \<Rightarrow> string" where
  "worker_code_str AuthenticationRequired = ''EXECUTION_WORKER_AUTHENTICATION_REQUIRED''"
| "worker_code_str WorkerInvalidRequest = ''EXECUTION_WORKER_INVALID_REQUEST''"
| "worker_code_str SourceRequired = ''EXECUTION_WORKER_SOURCE_REQUIRED''"
| "worker_code_str SourceUnreachable = ''EXECUTION_WORKER_SOURCE_UNREACHABLE''"
| "worker_code_str SourceInvalid = ''EXECUTION_WORKER_SOURCE_INVALID''"

datatype worker_exn =
    WorkerError worker_code string int
  | DriverError exn

datatype worker_body =
    WorkerFailure string string
  | WorkspaceReady exec_workspace
  | RunStarted string
  | RunEvents "provider_event list" bool "string option"
  | Accepted
  | RunResult provider_result

record worker_response =
  wr_status :: int
  wr_body :: worker_body

type_synonym ('w, 'a) worker = "('w, worker_exn, 'a) comp"

definition driver :: "('w \<Rightarrow> (exn + 'a) \<times> 'w) \<Rightarrow> ('w, 'a) worker" where
  "driver f w = (case f w of (Inl e, w') \<Rightarrow> (Inl (DriverError e), w') | (Inr x, w') \<Rightarrow> (Inr x, w'))"

definition worker_ok :: "worker_body \<Rightarrow> worker_response" where
  "worker_ok b = \<lparr>wr_status = 200, wr_body = b\<rparr>"

definition worker_notFound :: "string \<Rightarrow> worker_response" where
  "worker_notFound path = \<lparr>wr_status = 404, wr_body = WorkerFailure ''EXECUTION_WORKER_ROUTE_NOT_FOUND''
     (''No execution worker route matches '' @ [CHR 39] @ path @ [CHR 39] @ ''.'')\<rparr>"

definition invalidRequest :: "string \<Rightarrow> worker_exn" where
  "invalidRequest message = WorkerError WorkerInvalidRequest message 400"

definition invalidSource :: "string \<Rightarrow> worker_exn" where
  "invalidSource message = WorkerError SourceInvalid message 400"

section \<open>Checking the source\<close>

text \<open>\<open>new Date(value).getTime()\<close> and \<open>value.length\<close> on an unchecked value.\<close>

definition date_value :: "platform \<Rightarrow> js \<Rightarrow> int option" where
  "date_value pf v = (case v of
      JUndef \<Rightarrow> None | JNull \<Rightarrow> Some 0 | JBool b \<Rightarrow> Some (if b then 1 else 0)
    | JNum (Fin r) \<Rightarrow> if \<bar>r\<bar> \<le> 8640000000000000 then Some (if r \<ge> 0 then \<lfloor>r\<rfloor> else \<lceil>r\<rceil>) else None
    | JNum _ \<Rightarrow> None
    | _ \<Rightarrow> pf_date pf (js_to_string pf v))"

definition js_length :: "platform \<Rightarrow> js \<Rightarrow> worker_exn + jsnum" where
  "js_length pf v = (case v of
      JUndef \<Rightarrow> Inl (DriverError (JsError None ''Cannot read properties of undefined (reading 'length')''))
    | JNull \<Rightarrow> Inl (DriverError (JsError None ''Cannot read properties of null (reading 'length')''))
    | JStr s \<Rightarrow> Inr (num_of_int (int (length s)))
    | JArr xs \<Rightarrow> Inr (num_of_int (int (length xs)))
    | JObj _ \<Rightarrow> Inr (js_to_number pf (jget v ''length''))
    | _ \<Rightarrow> Inr NaN)"

definition validateSourceAccess :: "platform \<Rightarrow> 'w worker_env \<Rightarrow> js \<Rightarrow> ('w, unit) worker" where
  "validateSourceAccess pf we access =
     (let expiresAt = date_value pf (jget access ''expiresAt'');
          refused = throw (invalidSource ''Execution source grant is invalid or expired.'') in
      case pf_url pf (js_to_string pf (jget access ''endpoint'')) of
        None \<Rightarrow> throw (invalidSource ''Execution source grant endpoint is invalid.'')
      | Some endpoint \<Rightarrow>
          if jget access ''kind'' \<noteq> JStr ''control-plane-grant'' \<or> u_protocol endpoint \<noteq> ''https:'' then refused
          else bindE (lift_sum (js_length pf (jget access ''token''))) (\<lambda>n.
            if num_lt n (Fin 16) \<or> num_lt (Fin 512) n then refused
            else (case expiresAt of
                None \<Rightarrow> refused
              | Some e \<Rightarrow> bindE (draw (we_now we)) (\<lambda>t. if e \<le> t then refused else ret ()))))"

definition buffer_hex :: "platform \<Rightarrow> 'w worker_env \<Rightarrow> js \<Rightarrow> worker_exn + bytes" where
  "buffer_hex pf we v = (case v of
      JStr s \<Rightarrow> Inr (pf_hex_dec pf s)
    | _ \<Rightarrow> (case we_buffer we v of Inl e \<Rightarrow> Inl (DriverError e) | Inr b \<Rightarrow> Inr b))"

definition verifyContent ::
  "platform \<Rightarrow> 'w worker_env \<Rightarrow> bytes \<Rightarrow> js \<Rightarrow> js \<Rightarrow> string \<Rightarrow> worker_exn + unit" where
  "verifyContent pf we content expectedSha256 expectedSize label =
     (let actualBytes = pf_hex_dec pf (pf_sha256 pf content) in
      case buffer_hex pf we expectedSha256 of
        Inl e \<Rightarrow> Inl e
      | Inr expectedBytes \<Rightarrow>
          if expectedSize \<noteq> JNum (num_of_int (int (length content))) \<or> length actualBytes \<noteq> length expectedBytes \<or>
             actualBytes \<noteq> expectedBytes
          then Inl (invalidSource (''Execution source '' @ label @ '' failed integrity checks.''))
          else Inr ())"

definition decodeCanonicalBase64 :: "platform \<Rightarrow> string \<Rightarrow> string \<Rightarrow> worker_exn + bytes" where
  "decodeCanonicalBase64 pf value label =
     (let decoded = pf_b64_dec pf value in
      if pf_b64_enc pf decoded \<noteq> value
      then Inl (invalidSource (''Execution source '' @ label @ '' is not canonical base64.''))
      else Inr decoded)"

record workspace_input =
  wi_executionId :: string
  wi_source :: js
  wi_access :: "js option"

definition readWorkspaceInput :: "js \<Rightarrow> worker_exn + workspace_input" where
  "readWorkspaceInput body =
     (if \<not> isObject body \<or> \<not> isString (jget body ''executionId'') \<or> \<not> isObject (jget body ''source'')
      then Inl (invalidRequest ''Workspace preparation requires executionId and source.'')
      else Inr \<lparr>wi_executionId = js_str (jget body ''executionId''), wi_source = jget body ''source'',
        wi_access = (if isObject (jget body ''access'') then Some (jget body ''access'') else None)\<rparr>)"

definition readStartInput :: "js \<Rightarrow> worker_exn + js" where
  "readStartInput body =
     (if \<not> isObject body \<or> \<not> isString (jget body ''executionId'') \<or> \<not> isString (jget body ''task'') \<or>
        \<not> isObject (jget body ''source'') \<or> \<not> isObject (jget body ''policy'') \<or> \<not> isObject (jget body ''modelAuth'')
      then Inl (invalidRequest ''Execution start requires executionId, task, source, policy, and modelAuth.'')
      else Inr body)"

text \<open>Fetching with the grant's token; any failure of \<open>fetch\<close> is reported as unreachable.\<close>

definition fetch_source :: "platform \<Rightarrow> 'w worker_env \<Rightarrow> string \<Rightarrow> js \<Rightarrow> ('w, fetched) worker" where
  "fetch_source pf we executionId access w =
     (case we_fetch we (js_to_string pf (jget access ''endpoint''))
        [(''authorization'', ''Bearer '' @ js_to_string pf (jget access ''token'')), (''x-mezair-execution-id'', executionId)] w of
        (Inl e, w') \<Rightarrow> (Inl (WorkerError SourceUnreachable (''Could not fetch the execution source: '' @ errorMessage e) 502), w')
      | (Inr r, w') \<Rightarrow> (Inr r, w'))"

text \<open>What the response must contain for the declared source.\<close>

definition checked_payload :: "platform \<Rightarrow> 'w worker_env \<Rightarrow> js \<Rightarrow> js \<Rightarrow> worker_exn + bytes \<times> bytes option" where
  "checked_payload pf we source payload =
     (if \<not> isString (jget payload ''archiveBase64'')
      then Inl (invalidSource ''Execution source response contains no archive.'')
      else
      case decodeCanonicalBase64 pf (js_str (jget payload ''archiveBase64'')) ''archive'' of Inl e \<Rightarrow> Inl e | Inr archive \<Rightarrow>
      (case verifyContent pf we archive (jget source ''sha256'') (jget source ''sizeBytes'') ''archive'' of Inl e \<Rightarrow> Inl e | Inr _ \<Rightarrow>
      (case (if isString (jget payload ''workingTreePatchBase64'')
             then (case decodeCanonicalBase64 pf (js_str (jget payload ''workingTreePatchBase64'')) ''working-tree patch'' of
                 Inl e \<Rightarrow> Inl e | Inr p \<Rightarrow> Inr (Some p))
             else Inr None) of
         Inl e \<Rightarrow> Inl e
       | Inr patch \<Rightarrow>
          if truthy (jget source ''patch'') then
            (case patch of
               None \<Rightarrow> Inl (invalidSource ''Execution source response contains no declared patch.'')
             | Some p \<Rightarrow>
                 (case verifyContent pf we p (jget (jget source ''patch'') ''sha256'')
                     (jget (jget source ''patch'') ''sizeBytes'') ''working-tree patch'' of
                    Inl e \<Rightarrow> Inl e
                  | Inr _ \<Rightarrow> Inr (archive, patch)))
          else if patch \<noteq> None then Inl (invalidSource ''Execution source response contains an undeclared patch.'')
          else Inr (archive, None))))"

definition resolveWorkspaceMaterial :: "platform \<Rightarrow> 'w worker_env \<Rightarrow> workspace_input \<Rightarrow> ('w, worker_material) worker" where
  "resolveWorkspaceMaterial pf we input =
     (if jget (wi_source input) ''kind'' = JStr ''git''
      then ret \<lparr>wm_executionId = wi_executionId input, wm_source = wi_source input, wm_archive = None,
        wm_workingTreePatch = None\<rparr>
      else (case wi_access input of
          None \<Rightarrow> throw (WorkerError SourceRequired ''Snapshot workspace preparation requires a source grant.'' 400)
        | Some access \<Rightarrow>
            thenE (validateSourceAccess pf we access)
            (bindE (fetch_source pf we (wi_executionId input) access) (\<lambda>response.
             let payload = (case fe_json response of Some v \<Rightarrow> v | None \<Rightarrow> JObj []) in
             if \<not> fe_ok response \<or> \<not> isObject payload
             then throw (WorkerError SourceUnreachable
               (''Execution source grant returned status '' @ int_str (fe_status response) @ ''.'') 502)
             else
               bindE (lift_sum (checked_payload pf we (wi_source input) payload)) (\<lambda>(archive, patch).
               ret \<lparr>wm_executionId = wi_executionId input, wm_source = wi_source input, wm_archive = Some archive,
                 wm_workingTreePatch = patch\<rparr>)))))"

section \<open>The routes\<close>

definition worker_prefix :: string where
  "worker_prefix = ''/_mezair/execution''"

definition stripWorkerPrefix :: "string \<Rightarrow> string" where
  "stripWorkerPrefix path =
     (if starts_with worker_prefix path
      then (if drop (length worker_prefix) path = [] then ''/'' else drop (length worker_prefix) path)
      else path)"

definition worker_decode :: "platform \<Rightarrow> string \<Rightarrow> worker_exn + string" where
  "worker_decode pf v = (case pf_uri_dec pf v of
      Some x \<Rightarrow> Inr x | None \<Rightarrow> Inl (invalidRequest ''Execution worker path contains invalid URL encoding.''))"

definition worker_limit :: "platform \<Rightarrow> string option \<Rightarrow> worker_exn + int option" where
  "worker_limit pf v = (case v of
      None \<Rightarrow> Inr None
    | Some s \<Rightarrow>
        (let parsed = str_num pf s in
         if \<not> safe_integer parsed \<or> num_int parsed < 0
         then Inl (invalidRequest (''Execution event limit '' @ [CHR 39] @ s @ [CHR 39] @ '' is invalid.''))
         else Inr (Some (num_int parsed))))"

definition workspace_route :: "platform \<Rightarrow> 'w worker_env \<Rightarrow> js \<Rightarrow> ('w, worker_response) worker" where
  "workspace_route pf we body =
     bindE (lift_sum (readWorkspaceInput body)) (\<lambda>input.
     bindE (resolveWorkspaceMaterial pf we input) (\<lambda>material.
     bindE (driver (dr_prepareWorkspace (we_driver we) material)) (\<lambda>workspace.
     ret (worker_ok (WorkspaceReady workspace)))))"

definition start_route :: "'w worker_env \<Rightarrow> js \<Rightarrow> ('w, worker_response) worker" where
  "start_route we body =
     bindE (lift_sum (readStartInput body)) (\<lambda>input.
     bindE (driver (dr_startExecution (we_driver we) input)) (\<lambda>runId.
     if js_trim runId = [] then throw (invalidRequest ''Execution driver returned an empty run id.'')
     else ret (worker_ok (RunStarted runId))))"

text \<open>The routes of one run; \<open>action\<close> and \<open>requestId\<close> are absent when the path is shorter or they are empty.\<close>

definition run_route ::
  "platform \<Rightarrow> 'w worker_env \<Rightarrow> http_request \<Rightarrow> string \<Rightarrow> string \<Rightarrow> string \<Rightarrow> string option \<Rightarrow> ('w, worker_response) worker" where
  "run_route pf we r method runId action requestId =
     (if action = ''events'' \<and> requestId = None \<and> method = ''GET'' then
        bindE (lift_sum (worker_limit pf (query_get r ''limit''))) (\<lambda>limit.
        bindE (driver (dr_readEvents (we_driver we) runId (query_get r ''cursor'') limit)) (\<lambda>batch.
        ret (worker_ok (RunEvents (eb_events batch) (eb_done batch) (eb_cursor batch)))))
      else if action = ''approvals'' \<and> requestId \<noteq> None \<and> method = ''POST'' then
        (if \<not> isObject (hq_body r) \<or> map_option JStr requestId \<noteq> Some (jget (hq_body r) ''requestId'')
         then throw (invalidRequest ''Approval request id must match the execution worker route.'')
         else thenE (driver (dr_resolveApproval (we_driver we) runId (hq_body r))) (ret (worker_ok Accepted)))
      else if action = ''input'' \<and> requestId \<noteq> None \<and> method = ''POST'' then
        (if \<not> isObject (hq_body r) \<or> map_option JStr requestId \<noteq> Some (jget (hq_body r) ''requestId'')
         then throw (invalidRequest ''Input request id must match the execution worker route.'')
         else thenE (driver (dr_submitInput (we_driver we) runId (hq_body r))) (ret (worker_ok Accepted)))
      else if action = ''steer'' \<and> requestId = None \<and> method = ''POST'' then
        (let message = jget (hq_body r) ''message'' in
         if \<not> isString message \<or> js_trim (js_str message) = []
         then throw (invalidRequest ''Execution steering requires a non-empty message.'')
         else thenE (driver (dr_steer (we_driver we) runId (js_str message))) (ret (worker_ok Accepted)))
      else if action = ''result'' \<and> requestId = None \<and> method = ''GET'' then
        bindE (driver (dr_collectResult (we_driver we) runId)) (\<lambda>result. ret (worker_ok (RunResult result)))
      else ret (worker_notFound (hq_path r)))"

definition routeWorkerRequest :: "platform \<Rightarrow> 'w worker_env \<Rightarrow> http_request \<Rightarrow> ('w, worker_response) worker" where
  "routeWorkerRequest pf we r =
     (let method = js_upper (hq_method r); path = stripWorkerPrefix (hq_path r) in
      if path = ''/workspace'' \<and> method = ''POST'' then workspace_route pf we (hq_body r)
      else if path = ''/runs'' \<and> method = ''POST'' then start_route we (hq_body r)
      else
        (let parts = js_split (CHR ''/'') path in
         if length parts < 3 \<or> length parts > 5 \<or> parts ! 0 \<noteq> [] \<or> parts ! 1 \<noteq> ''runs'' \<or> parts ! 2 = []
         then ret (worker_notFound (hq_path r))
         else
           bindE (lift_sum (worker_decode pf (parts ! 2))) (\<lambda>runId.
           bindE (if length parts = 5 \<and> parts ! 4 \<noteq> []
                  then bindE (lift_sum (worker_decode pf (parts ! 4))) (\<lambda>q. ret (if q = [] then None else Some q))
                  else ret None) (\<lambda>requestId.
           run_route pf we r method runId (if length parts > 3 then parts ! 3 else []) requestId))))"

fun worker_error :: "worker_exn \<Rightarrow> worker_response" where
  "worker_error (WorkerError c m status) = \<lparr>wr_status = status, wr_body = WorkerFailure (worker_code_str c) m\<rparr>"
| "worker_error (DriverError e) = \<lparr>wr_status = 500, wr_body = WorkerFailure ''EXECUTION_WORKER_ERROR'' (errorMessage e)\<rparr>"

definition worker_routed :: "platform \<Rightarrow> 'w worker_env \<Rightarrow> http_request \<Rightarrow> ('w, worker_response) worker" where
  "worker_routed pf we r =
     bindE (driver (we_authenticate we r)) (\<lambda>authentic.
     if \<not> authentic
     then throw (WorkerError AuthenticationRequired ''Sandbox execution authentication is required.'' 401)
     else routeWorkerRequest pf we r)"

text \<open>\<open>createAgentExecutionWorkerHttpHandler\<close>.\<close>

definition worker_handler :: "platform \<Rightarrow> 'w worker_env \<Rightarrow> http_request \<Rightarrow> 'w \<Rightarrow> worker_response \<times> 'w" where
  "worker_handler pf we r w = (case worker_routed pf we r w of
      (Inl e, w') \<Rightarrow> (worker_error e, w')
    | (Inr response, w') \<Rightarrow> (response, w'))"

end
