(* ===== verification/Execution_Http_Client.thy ===== *)
theory Execution_Http_Client
  imports Execution_Http
begin

text \<open>
  The HTTP clients of \<open>packages/control-plane/src/execution-http.ts\<close>: the execution client of the
  desktop and the command line, and the snapshot upload client. The network is a type variable;
  \<open>fetch\<close>, the header source and the serialisation of a query string are parameters. A payload is
  the JSON value of the response, as the client uses it.
\<close>

section \<open>Requests\<close>

record http_reply =
  rp_ok :: bool
  rp_status :: int
  rp_json :: "js option"

record 'n http_client =
  hc_base :: string
  hc_headers :: "'n \<Rightarrow> (exn + (string \<times> string) list) \<times> 'n"
  hc_fetch :: "string \<Rightarrow> string \<Rightarrow> (string \<times> string) list \<Rightarrow> js option \<Rightarrow> 'n \<Rightarrow> (exn + http_reply) \<times> 'n"
  hc_query :: "(string \<times> string) list \<Rightarrow> string"

text \<open>\<open>AgentExecutionHttpError\<close>: code, message, status, details.\<close>

datatype http_error = HttpError string string int js

type_synonym ('n, 'a) client = "('n, http_error, 'a) comp"

definition new_client ::
  "string \<Rightarrow> ('n \<Rightarrow> (exn + (string \<times> string) list) \<times> 'n) \<Rightarrow>
   (string \<Rightarrow> string \<Rightarrow> (string \<times> string) list \<Rightarrow> js option \<Rightarrow> 'n \<Rightarrow> (exn + http_reply) \<times> 'n) \<Rightarrow>
   ((string \<times> string) list \<Rightarrow> string) \<Rightarrow> 'n http_client" where
  "new_client baseUrl headers fetch query =
     \<lparr>hc_base = trimTrailingCharacter baseUrl (CHR ''/''), hc_headers = headers, hc_fetch = fetch, hc_query = query\<rparr>"

text \<open>An undefined body is left out. Headers and \<open>fetch\<close> are inside the \<open>try\<close>: any error becomes unreachable.\<close>

definition send :: "'n http_client \<Rightarrow> string \<Rightarrow> string \<Rightarrow> js \<Rightarrow> ('n, http_reply) client" where
  "send c path method body n =
     (case bindE (hc_headers c) (\<lambda>requestHeaders.
        hc_fetch c (hc_base c @ path) method
          (AList.update ''content-type'' ''application/json'' requestHeaders)
          (if body = JUndef then None else Some body)) n of
        (Inl e, n') \<Rightarrow> (Inl (HttpError ''EXECUTION_CONTROL_PLANE_UNREACHABLE''
          (''Could not reach the execution control plane at '' @ hc_base c @ '': '' @ errorMessage e) 0 (JObj [])), n')
      | (Inr reply, n') \<Rightarrow> (Inr reply, n'))"

text \<open>\<open>isObject(x) ? x : {}\<close>\<close>

definition object_or_empty :: "js \<Rightarrow> js" where
  "object_or_empty v = (if isObject v then v else JObj [])"

definition reply_record :: "http_reply \<Rightarrow> js" where
  "reply_record reply = object_or_empty (case rp_json reply of Some v \<Rightarrow> v | None \<Rightarrow> JObj [])"

definition reply_error :: "http_reply \<Rightarrow> string \<Rightarrow> http_error" where
  "reply_error reply what =
     (let error = object_or_empty (jget (reply_record reply) ''error'') in
      HttpError
        (if isString (jget error ''code'') then js_str (jget error ''code'') else ''EXECUTION_CONTROL_PLANE_ERROR'')
        (if isString (jget error ''message'') then js_str (jget error ''message'')
         else what @ '' failed with status '' @ int_str (rp_status reply) @ ''.'')
        (rp_status reply) (object_or_empty (jget error ''details'')))"

definition request :: "'n http_client \<Rightarrow> string \<Rightarrow> string \<Rightarrow> js \<Rightarrow> ('n, js) client" where
  "request c path method body =
     bindE (send c path method body) (\<lambda>reply.
     if \<not> rp_ok reply then throw (reply_error reply ''Execution request'') else ret (reply_record reply))"

definition readLease :: "js \<Rightarrow> http_error + js" where
  "readLease payload =
     (if \<not> isObject (jget payload ''execution'')
      then Inl (HttpError ''EXECUTION_CONTROL_PLANE_INVALID_RESPONSE''
        ''Execution control plane returned no execution lease.'' 502 (JObj []))
      else Inr (jget payload ''execution''))"

definition isStringArray :: "js \<Rightarrow> bool" where
  "isStringArray v \<longleftrightarrow> isArray v \<and> list_all isString (js_items v)"

definition isProviderDescriptor :: "js \<Rightarrow> bool" where
  "isProviderDescriptor v \<longleftrightarrow> isObject v \<and> isString (jget v ''id'') \<and>
     (let capabilities = jget v ''capabilities''; availability = jget v ''availability'' in
      isObject capabilities \<and> isStringArray (jget capabilities ''modes'') \<and> isStringArray (jget capabilities ''modelAuth'') \<and>
      (jget capabilities ''subscriptionProviders'' = JUndef \<or> isStringArray (jget capabilities ''subscriptionProviders'')) \<and>
      (case jget capabilities ''maxTtlSeconds'' of JNum x \<Rightarrow> safe_integer x \<and> num_int x > 0 | _ \<Rightarrow> False) \<and>
      list_all (\<lambda>k. isBool (jget capabilities k))
        [''resumableEvents'', ''approvals'', ''input'', ''steering'', ''artifacts'', ''patches''] \<and>
      isObject availability \<and> isBool (jget availability ''configured'') \<and> isStringArray (jget availability ''reasons''))"

section \<open>The execution client\<close>

definition execution_path :: "platform \<Rightarrow> string \<Rightarrow> string" where
  "execution_path pf executionId = ''/v1/executions/'' @ pf_uri_enc pf executionId"

definition client_listProviders :: "'n http_client \<Rightarrow> ('n, js list) client" where
  "client_listProviders c =
     bindE (request c ''/v1/execution-providers'' ''GET'' JUndef) (\<lambda>payload.
     if \<not> isArray (jget payload ''providers'') \<or>
        \<not> list_all isProviderDescriptor (js_items (jget payload ''providers''))
     then throw (HttpError ''EXECUTION_CONTROL_PLANE_INVALID_RESPONSE''
       ''Execution control plane returned an invalid provider catalog.'' 502 (JObj []))
     else ret (js_items (jget payload ''providers'')))"

definition client_createExecution :: "'n http_client \<Rightarrow> js \<Rightarrow> ('n, js) client" where
  "client_createExecution c input =
     bindE (request c ''/v1/executions'' ''POST'' input) (\<lambda>payload. lift_sum (readLease payload))"

definition client_getExecution :: "platform \<Rightarrow> 'n http_client \<Rightarrow> string \<Rightarrow> ('n, js) client" where
  "client_getExecution pf c executionId =
     bindE (request c (execution_path pf executionId) ''GET'' JUndef) (\<lambda>payload. lift_sum (readLease payload))"

definition executions_of :: "js \<Rightarrow> js list" where
  "executions_of payload =
     (if isArray (jget payload ''executions'') then js_items (jget payload ''executions'') else [])"

definition client_listExecutions :: "'n http_client \<Rightarrow> ('n, js list) client" where
  "client_listExecutions c =
     bindE (request c ''/v1/executions'' ''GET'' JUndef) (\<lambda>payload. ret (executions_of payload))"

definition events_query :: "platform \<Rightarrow> string option \<Rightarrow> jsnum option \<Rightarrow> (string \<times> string) list" where
  "events_query pf cursor limit =
     (case cursor of Some k \<Rightarrow> [(''cursor'', k)] | None \<Rightarrow> []) @
     (case limit of Some n \<Rightarrow> [(''limit'', num_str pf n)] | None \<Rightarrow> [])"

definition client_streamEvents ::
  "platform \<Rightarrow> 'n http_client \<Rightarrow> string \<Rightarrow> string option \<Rightarrow> jsnum option \<Rightarrow> ('n, js) client" where
  "client_streamEvents pf c executionId cursor limit =
     (let q = events_query pf cursor limit;
          suffix = (if q \<noteq> [] then ''?'' @ hc_query c q else []) in
      bindE (request c (execution_path pf executionId @ ''/events'' @ suffix) ''GET'' JUndef) (\<lambda>payload.
      ret (jget payload ''batch'')))"

text \<open>The methods that post an action of an execution.\<close>

definition post_action :: "platform \<Rightarrow> 'n http_client \<Rightarrow> string \<Rightarrow> string \<Rightarrow> js \<Rightarrow> ('n, js) client" where
  "post_action pf c executionId action body =
     bindE (request c (execution_path pf executionId @ ''/'' @ action) ''POST'' body) (\<lambda>payload.
     lift_sum (readLease payload))"

definition client_resolveApproval :: "platform \<Rightarrow> 'n http_client \<Rightarrow> string \<Rightarrow> js \<Rightarrow> ('n, js) client" where
  "client_resolveApproval pf c executionId decision = post_action pf c executionId ''approval'' decision"

definition client_submitInput :: "platform \<Rightarrow> 'n http_client \<Rightarrow> string \<Rightarrow> js \<Rightarrow> ('n, js) client" where
  "client_submitInput pf c executionId input = post_action pf c executionId ''input'' input"

definition client_steer :: "platform \<Rightarrow> 'n http_client \<Rightarrow> string \<Rightarrow> js \<Rightarrow> ('n, js) client" where
  "client_steer pf c executionId message =
     post_action pf c executionId ''steer'' (JObj [(''message'', message)])"

definition client_suspend :: "platform \<Rightarrow> 'n http_client \<Rightarrow> string \<Rightarrow> ('n, js) client" where
  "client_suspend pf c executionId = post_action pf c executionId ''suspend'' JUndef"

definition client_resume :: "platform \<Rightarrow> 'n http_client \<Rightarrow> string \<Rightarrow> ('n, js) client" where
  "client_resume pf c executionId = post_action pf c executionId ''resume'' JUndef"

definition client_collectResult :: "platform \<Rightarrow> 'n http_client \<Rightarrow> string \<Rightarrow> ('n, js) client" where
  "client_collectResult pf c executionId = post_action pf c executionId ''collect'' JUndef"

definition client_terminate :: "platform \<Rightarrow> 'n http_client \<Rightarrow> string \<Rightarrow> ('n, js) client" where
  "client_terminate pf c executionId = post_action pf c executionId ''terminate'' JUndef"

definition client_reapExpired :: "'n http_client \<Rightarrow> ('n, js list) client" where
  "client_reapExpired c =
     bindE (request c ''/v1/executions/reap'' ''POST'' JUndef) (\<lambda>payload. ret (executions_of payload))"

section \<open>The snapshot client\<close>

definition upload_body :: "platform \<Rightarrow> snapshot_upload \<Rightarrow> js" where
  "upload_body pf u = JObj (
     [(''workspace'', JStr (up_workspace u)), (''baseCommit'', JStr (up_baseCommit u)),
      (''archiveBase64'', JStr (pf_b64_enc pf (up_archive u)))] @
     (case up_repository u of None \<Rightarrow> [] | Some r \<Rightarrow> [(''repository'', JStr r)]) @
     (case up_branch u of None \<Rightarrow> [] | Some b \<Rightarrow> [(''branch'', JStr b)]) @
     (case up_workingTreePatch u of None \<Rightarrow> [] | Some p \<Rightarrow> [(''workingTreePatchBase64'', JStr (pf_b64_enc pf p))]))"

definition client_uploadSnapshot :: "platform \<Rightarrow> 'n http_client \<Rightarrow> snapshot_upload \<Rightarrow> ('n, js) client" where
  "client_uploadSnapshot pf c u =
     bindE (send c ''/v1/source-snapshots'' ''POST'' (upload_body pf u)) (\<lambda>reply.
     let record = reply_record reply in
     if \<not> rp_ok reply then
       throw (case reply_error reply ''Snapshot upload'' of HttpError k message status _ \<Rightarrow>
         HttpError k message status (JObj []))
     else if \<not> isObject (jget record ''snapshot'') \<or> jget (jget record ''snapshot'') ''kind'' \<noteq> JStr ''snapshot'' then
       throw (HttpError ''EXECUTION_CONTROL_PLANE_INVALID_RESPONSE''
         ''Execution control plane returned no snapshot source.'' (rp_status reply) (JObj []))
     else ret (jget record ''snapshot''))"

end
