(* ===== verification/Execution_Http_Laws.thy ===== *)
theory Execution_Http_Laws
  imports Execution_Http_Client
begin

text \<open>
  The laws of the router: what a route can answer, which routes touch the store, and how a client's
  request finds its route.
\<close>

lemma wp_api [wp_simps]: "wp (api m) Q E s = wp m Q (\<lambda>e t. E (Raised e) t) s"
  by (auto simp: wp_def api_def split: prod.splits sum.splits)

lemma wp_trivial: "(\<And>x t. Q x t) \<Longrightarrow> (\<And>e t. E e t) \<Longrightarrow> wp m Q E s"
  by (auto simp: wp_def split: prod.splits sum.splits)

section \<open>Well-formed answers\<close>

definition is_error :: "http_body \<Rightarrow> bool" where
  "is_error b \<longleftrightarrow> (\<exists>c m d. b = ErrorBody c m d)"

definition response_ok :: "http_response \<Rightarrow> bool" where
  "response_ok a \<longleftrightarrow> (hp_status a = 200 \<and> \<not> is_error (hp_body a)) \<or>
     (hp_status a \<in> {400, 401, 403, 404, 409, 410, 413, 422, 500, 502} \<and> is_error (hp_body a))"

definition access_ok :: "http_exn \<Rightarrow> bool" where
  "access_ok e \<longleftrightarrow> (case e of AccessError n _ _ \<Rightarrow> n = 401 \<or> n = 403 | Raised _ \<Rightarrow> True)"

lemma statusForControlPlaneError_range: "statusForControlPlaneError c \<in> {400, 404, 409, 422, 502}"
  by (cases c) simp_all

lemma statusForSnapshotError_range: "statusForSnapshotError c \<in> {400, 401, 404, 409, 410, 413}"
  by (cases c) simp_all

lemma access_ok_simps [simp]:
  "access_ok (Raised x)" "access_ok (AccessError n c m) \<longleftrightarrow> n = 401 \<or> n = 403"
  by (simp_all add: access_ok_def)

lemma error_response_error:
  "access_ok e \<Longrightarrow> hp_status (error_response e) \<in> {400, 401, 403, 404, 409, 410, 413, 422, 500, 502} \<and>
     is_error (hp_body (error_response e))"
proof (cases e)
  case (Raised x)
  then show ?thesis
    using statusForControlPlaneError_range statusForSnapshotError_range
    by (cases x) (auto simp: is_error_def)
qed (auto simp: is_error_def)

lemma error_response_ok: "access_ok e \<Longrightarrow> response_ok (error_response e)"
  using error_response_error by (simp add: response_ok_def)

lemma error_response_status: "access_ok e \<Longrightarrow> hp_status (error_response e) \<noteq> 200"
  using error_response_error [of e] by auto

lemma response_ok_ok [simp]:
  "response_ok (ok_response b) \<longleftrightarrow> \<not> is_error b"
  by (simp add: response_ok_def ok_response_def)

lemma response_ok_notFound [simp]: "response_ok (notFound path)"
  by (simp add: response_ok_def notFound_def is_error_def)

text \<open>A route answers within \<open>Q\<close> if it returns such a value or throws an access error with its status.\<close>

abbreviation answers :: "('a \<Rightarrow> bool) \<Rightarrow> ('w, 'a) route \<Rightarrow> bool" where
  "answers \<equiv> stays access_ok"

lemma answers_api [stays_intros]: "answers whatever (api m)"
  by (simp add: stays_def wp_simps) (simp add: wp_trivial)

lemma answers_requireAuthorization [stays_intros]: "answers whatever (requireAuthorization sec ctx)"
  unfolding requireAuthorization_def by (intro stays_intros) simp_all

lemma answers_authorizedExecution [stays_intros]: "answers whatever (authorizedExecution sec p r i a)"
  unfolding authorizedExecution_def by (intro stays_intros) simp_all

lemma answers_authorizedList [stays_intros]: "answers whatever (authorizedList sec p r ls)"
  by (induction ls) (auto intro!: stays_intros)

lemma answers_execution_route: "answers response_ok (execution_route sec p r i a m)"
  unfolding execution_route_def by (intro stays_intros) (simp_all add: is_error_def)

lemma answers_routeExecution: "answers response_ok (routeExecution pf env sec p r method i action)"
  unfolding routeExecution_def events_route_def
  by (intro stays_intros answers_execution_route) (simp_all add: is_error_def)

lemma answers_snapshot_route: "answers response_ok (snapshot_route pf sec sn p r)"
  unfolding snapshot_route_def by (intro stays_intros) (simp_all add: is_error_def)

lemma answers_routeByParts: "answers response_ok (routeByParts pf env sec p r method)"
  unfolding routeByParts_def Let_def
  by (intro stays_intros answers_routeExecution) simp_all

lemma answers_route: "answers response_ok (routeAgentExecutionRequest pf env sec sn p r)"
  unfolding routeAgentExecutionRequest_def Let_def
  by (intro stays_intros answers_snapshot_route answers_routeByParts) (simp_all add: is_error_def)

lemma answers_grant: "answers response_ok (consumeSourceGrant pf sx r)"
  unfolding consumeSourceGrant_def Let_def prod.case
  by (intro stays_intros) (simp_all add: is_error_def)

lemma answers_handled: "answers response_ok (handled pf env sec sn r)"
  unfolding handled_def authenticated_route_def
  by (intro stays_intros answers_grant answers_route) simp_all

section \<open>Routes without authorisation\<close>

text \<open>
  A route that is never allowed touches neither the store nor, beyond the security callbacks, the
  world: \<open>I\<close> stands for anything those callbacks keep.
\<close>

locale callbacks =
  fixes sec :: "'w security" and I :: "'w \<Rightarrow> bool"
  assumes authenticate_keeps: "I w \<Longrightarrow> I (snd (se_authenticate sec r w))"
    and authorize_keeps: "I w \<Longrightarrow> I (snd (se_authorize sec ctx w))"
begin

definition unharmed :: "exec_store \<Rightarrow> 'w cps \<Rightarrow> bool" where
  "unharmed store s \<longleftrightarrow> st s = store \<and> I (wd s)"

lemma keeps_call:
  "(\<And>w. I w \<Longrightarrow> I (snd (f w))) \<Longrightarrow> keeps (unharmed store) (api (call f))"
  unfolding keeps_wp wp_api
  by (auto simp: wp_def unharmed_def call_def split: prod.splits sum.splits) (metis snd_conv)+

lemma keeps_read: "keeps (unharmed store) (api (getExecution i))" "keeps (unharmed store) (api listExecutions)"
  "keeps (unharmed store) (api (lift_sum v))"
  by (auto simp: keeps_wp wp_simps getExecution_def listExecutions_def unharmed_def split: option.split sum.split)

lemma keeps_requireAuthorization [keeps_intros]: "keeps (unharmed store) (requireAuthorization sec ctx)"
  unfolding requireAuthorization_def by (intro keeps_intros keeps_call authorize_keeps)

lemma keeps_authorizedExecution [keeps_intros]: "keeps (unharmed store) (authorizedExecution sec p r i a)"
  unfolding authorizedExecution_def by (intro keeps_intros keeps_read)

lemma keeps_authorizedList [keeps_intros]: "keeps (unharmed store) (authorizedList sec p r ls)"
  by (induction ls) (auto intro!: keeps_intros keeps_call authorize_keeps)

text \<open>The routes of \<open>GET\<close> other than the events of an execution only read.\<close>

lemma keeps_routeExecution_get:
  "action \<noteq> ''events'' \<Longrightarrow> keeps (unharmed store) (routeExecution pf env sec p r ''GET'' i action)"
  unfolding routeExecution_def by (simp, intro conjI impI keeps_intros)

lemma keeps_routeByParts_get:
  assumes "\<And>i. js_split (CHR ''/'') (hq_path r) \<noteq> [[], ''v1'', ''executions'', i, ''events'']"
  shows "keeps (unharmed store) (routeByParts pf env sec p r ''GET'')"
proof -
  let ?parts = "js_split (CHR ''/'') (hq_path r)"
  let ?a = "if length ?parts = 5 then ?parts ! 4 else []"
  show ?thesis
    unfolding routeByParts_def Let_def
  proof (rule keeps_if)
    assume c: "\<not> (length ?parts < 4 \<or> length ?parts > 5 \<or> ?parts ! 0 \<noteq> [] \<or> ?parts ! 1 \<noteq> ''v1'' \<or>
      ?parts ! 2 \<noteq> ''executions'' \<or> ?parts ! 3 = [])"
    have "?a \<noteq> ''events''"
    proof
      assume e: "?a = ''events''"
      then have l: "length ?parts = 5" by (auto split: if_splits)
      then obtain a b d k f where parts: "?parts = [a, b, d, k, f]"
        by (auto simp: eval_nat_numeral length_Suc_conv)
      from c have "?parts ! 0 = []" "?parts ! 1 = ''v1''" "?parts ! 2 = ''executions''" by simp_all
      moreover from e l have "?parts ! 4 = ''events''" by simp
      ultimately have "?parts = [[], ''v1'', ''executions'', k, ''events'']" by (simp add: parts)
      with assms show False by blast
    qed
    then show "keeps (unharmed store) (bindE (api (lift_sum (decodePathSegment pf (?parts ! 3))))
        (\<lambda>i. routeExecution pf env sec p r ''GET'' i ?a))"
      by (intro keeps_bindE keeps_read keeps_routeExecution_get)
  qed (rule keeps_ret)
qed

lemma keeps_route_get:
  assumes "js_upper (hq_method r) = ''GET''"
    and "\<And>i. js_split (CHR ''/'') (hq_path r) \<noteq> [[], ''v1'', ''executions'', i, ''events'']"
  shows "keeps (unharmed store) (routeAgentExecutionRequest pf env sec sn p r)"
proof -
  have "''GET'' \<noteq> ''POST''" by simp
  with keeps_routeByParts_get [OF assms(2)] show ?thesis
    unfolding routeAgentExecutionRequest_def Let_def assms(1)
    by (simp, intro impI conjI keeps_intros keeps_read)
qed

lemma keeps_get:
  assumes "js_upper (hq_method r) = ''GET''"
    and "\<And>i. js_split (CHR ''/'') (hq_path r) \<noteq> [[], ''v1'', ''executions'', i, ''events'']"
  shows "keeps (unharmed store) (authenticated_route pf env sec sn r)"
  unfolding authenticated_route_def
  by (intro keeps_intros keeps_call authenticate_keeps keeps_route_get assms)

definition denies :: bool where
  "denies \<longleftrightarrow> (\<forall>ctx w. fst (se_authorize sec ctx w) \<noteq> Inr True)"

definition blocked :: "('w, 'a) route \<Rightarrow> bool" where
  "blocked m \<longleftrightarrow> (\<forall>store s. unharmed store s \<longrightarrow> wp m (\<lambda>_ _. False) (\<lambda>_. unharmed store) s)"

definition quiet :: "('a \<Rightarrow> bool) \<Rightarrow> ('w, 'a) route \<Rightarrow> bool" where
  "quiet Q m \<longleftrightarrow> (\<forall>store s. unharmed store s \<longrightarrow> wp m (\<lambda>x t. Q x \<and> unharmed store t) (\<lambda>_. unharmed store) s)"

lemma blocked_then: "blocked m \<Longrightarrow> blocked (thenE m k)"
  unfolding blocked_def by (auto simp: wp_simps) (metis (no_types, lifting) wp_mono)

lemma blocked_quiet: "blocked m \<Longrightarrow> quiet Q m"
  unfolding blocked_def quiet_def
  by (intro allI impI, drule spec, drule spec, drule mp, assumption, erule wp_mono) simp_all

lemma blocked_requireAuthorization:
  assumes "denies"
  shows "blocked (requireAuthorization sec ctx)"
  unfolding blocked_def
proof (intro allI impI)
  fix store and s :: "'w cps" assume u: "unharmed store s"
  have "unharmed store (snd (requireAuthorization sec ctx s))" by (rule keepsD [OF keeps_requireAuthorization u])
  then show "wp (requireAuthorization sec ctx) (\<lambda>_ _. False) (\<lambda>_. unharmed store) s"
    using assms [unfolded denies_def, rule_format, of ctx "wd s"]
    by (auto simp: wp_def requireAuthorization_def bindE_def api_def call_def throw_def ret_def split: prod.splits sum.splits)
qed

lemma quiet_keeps: "(\<And>store. keeps (unharmed store) m) \<Longrightarrow> answers Q m \<Longrightarrow> quiet Q m"
  unfolding quiet_def keeps_wp stays_def by (blast intro: wp_mono [OF wp_conj])

lemma quiet_ret: "Q x \<Longrightarrow> quiet Q (ret x)"
  by (simp add: quiet_def wp_simps)

lemma quiet_bind: "(\<And>store. keeps (unharmed store) m) \<Longrightarrow> (\<And>x. quiet Q (f x)) \<Longrightarrow> quiet Q (bindE m f)"
  unfolding quiet_def
proof (intro allI impI)
  fix store and s :: "'w cps"
  assume k: "\<And>store. keeps (unharmed store) m" and u: "unharmed store s"
    and f: "\<And>x. \<forall>store s. unharmed store s \<longrightarrow> wp (f x) (\<lambda>x t. Q x \<and> unharmed store t) (\<lambda>_. unharmed store) s"
  from k u have "wp m (\<lambda>_. unharmed store) (\<lambda>_. unharmed store) s" by (simp add: keeps_wp)
  then show "wp (bindE m f) (\<lambda>x t. Q x \<and> unharmed store t) (\<lambda>_. unharmed store) s"
    unfolding wp_bindE by (rule wp_mono) (use f in auto)
qed

lemma quiet_if: "(b \<Longrightarrow> quiet Q m) \<Longrightarrow> (\<not> b \<Longrightarrow> quiet Q k) \<Longrightarrow> quiet Q (if b then m else k)"
  by simp

lemma quiet_bindQ:
  "quiet R m \<Longrightarrow> (\<And>x. R x \<Longrightarrow> quiet Q (f x)) \<Longrightarrow> quiet Q (bindE m f)"
  unfolding quiet_def wp_simps
  by (intro allI impI, drule spec, drule spec, drule mp, assumption, erule wp_mono) auto

lemma blocked_authorizedExecution: "denies \<Longrightarrow> quiet (\<lambda>_. False) (authorizedExecution sec p r i a)"
  unfolding authorizedExecution_def
  by (rule quiet_bind [OF keeps_read(1)]) (intro blocked_quiet blocked_then blocked_requireAuthorization)

lemma quiet_after: "quiet (\<lambda>_. False) m \<Longrightarrow> quiet Q (thenE m k)"
  unfolding thenE_def by (rule quiet_bindQ [where R = "\<lambda>_. False"]) auto

text \<open>The answers of a router that may do nothing.\<close>

definition refusal :: "http_response \<Rightarrow> bool" where
  "refusal a \<longleftrightarrow> hp_status a \<noteq> 200 \<or> hp_body a = ExecutionsBody []"

lemma refusal_notFound [simp]: "refusal (notFound path)"
  by (simp add: refusal_def notFound_def)

lemma quiet_routeExecution: "denies \<Longrightarrow> quiet refusal (routeExecution pf env sec p r method i action)"
  unfolding routeExecution_def execution_route_def events_route_def
  by (intro quiet_if quiet_after blocked_authorizedExecution quiet_ret quiet_bindQ [OF blocked_authorizedExecution]) simp_all

lemma authorizedList_denied:
  assumes "denies"
  shows "quiet (\<lambda>ks. ks = []) (authorizedList sec p r ls)"
proof (induction ls)
  case (Cons l ls)
  have b: "quiet (\<lambda>b. b = False) (api (call (se_authorize sec ((new_context p ActList r)\<lparr>ac_execution := Some l\<rparr>))))"
    unfolding quiet_def
  proof (intro allI impI)
    fix store and s :: "'w cps" assume u: "unharmed store s"
    let ?f = "se_authorize sec ((new_context p ActList r)\<lparr>ac_execution := Some l\<rparr>)"
    from u have "I (snd (?f (wd s)))" by (simp add: unharmed_def authorize_keeps)
    then show "wp (api (call ?f)) (\<lambda>b t. b = False \<and> unharmed store t) (\<lambda>_. unharmed store) s"
      using u assms [unfolded denies_def, rule_format, of "(new_context p ActList r)\<lparr>ac_execution := Some l\<rparr>" "wd s"]
      by (auto simp: wp_def api_def call_def unharmed_def split: prod.splits sum.splits)
  qed
  show ?case
    unfolding authorizedList.simps by (rule quiet_bindQ [OF b]) (rule quiet_bindQ [OF Cons.IH], simp add: quiet_ret)
qed (simp add: quiet_ret)

lemma quiet_snapshot_route:
  assumes "denies"
  shows "quiet refusal (snapshot_route pf sec sn p r)"
proof (cases sn)
  case None
  then show ?thesis by (simp add: snapshot_route_def quiet_ret)
next
  case (Some sx)
  then show ?thesis
    unfolding snapshot_route_def
    by (simp, intro quiet_bind keeps_read blocked_quiet blocked_then blocked_requireAuthorization assms)
qed

lemma quiet_list: "denies \<Longrightarrow> quiet refusal (bindE (api listExecutions) (\<lambda>ls. bindE (authorizedList sec p r ls)
    (\<lambda>ks. ret (ok_response (ExecutionsBody ks)))))"
  by (rule quiet_bind [OF keeps_read(2)], rule quiet_bindQ [OF authorizedList_denied], assumption)
    (simp add: quiet_ret refusal_def ok_response_def)

lemma quiet_routeByParts:
  assumes "denies"
  shows "quiet refusal (routeByParts pf env sec p r method)"
  unfolding routeByParts_def Let_def
  by (intro quiet_if quiet_ret refusal_notFound quiet_bind [OF keeps_read(3) quiet_routeExecution] assms)

lemma quiet_route:
  assumes "denies"
  shows "quiet refusal (routeAgentExecutionRequest pf env sec sn p r)"
  unfolding routeAgentExecutionRequest_def Let_def
  by (intro quiet_if quiet_snapshot_route quiet_list quiet_routeByParts blocked_quiet blocked_then blocked_requireAuthorization assms)

lemma quiet_denied:
  assumes "denies"
  shows "quiet refusal (authenticated_route pf env sec sn r)"
  unfolding authenticated_route_def
proof (rule quiet_bind)
  show "keeps (unharmed store) (api (call (se_authenticate sec r)))" for store
    by (intro keeps_call authenticate_keeps)
  show "quiet refusal (case principal of
      None \<Rightarrow> throw (AccessError 401 ''EXECUTION_AUTHENTICATION_REQUIRED''
        ''Execution control-plane authentication is required.'')
    | Some p \<Rightarrow> routeAgentExecutionRequest pf env sec sn p r)" for principal
    using quiet_route [OF assms] by (cases principal) (auto simp: quiet_def wp_simps)
qed

end

interpretation operator: callbacks "operator_security token" I for token and I :: "'w \<Rightarrow> bool"
  by unfold_locales (simp_all add: operator_security_def)

end
