(* ===== verification/Database_Commit.thy ===== *)
theory Database_Commit
  imports Text_Utils
begin

text \<open>
  The runtime's conditional commits and record pages: \<open>packages/runtime/src/database-commit.ts\<close>,
  \<open>database-page.ts\<close> and the error type of \<open>errors.ts\<close>.

  The writes reach \<open>commit\<close> as unchecked values, so they are \<^typ>\<open>js\<close> here and every check of
  the code is a branch. A snapshot of the database is the object from table names to rows; the rows
  are objects, as the adapters store them. Values are trees without prototypes of their own, so the
  guards against cycles and foreign prototypes have no case.
\<close>

section \<open>Errors\<close>

datatype rt_code =
    RtValidation | RtConflict | RtAuthRequired | RtForbidden | RtNotFound | RtHandlerNotFound
  | RtCapabilityNotDeclared | RtOutboundFetchNotAllowed | RtAdapterError | RtInternalError

datatype rt_exn =
    RuntimeError rt_code string int
  | ForeignError string

definition rt_invalid :: "string \<Rightarrow> rt_exn" where
  "rt_invalid message = RuntimeError RtValidation message 400"

definition databaseConflict :: rt_exn where
  "databaseConflict = RuntimeError RtConflict
     ''A record changed before the database commit. Read the latest records and retry.'' 409"

section \<open>Stable JSON\<close>

text \<open>
  \<open>Object.fromEntries\<close> makes an object whose array-index keys come first, in numeric order, and the
  others in the order of the entries.
\<close>

definition index_key :: "string \<Rightarrow> bool" where
  "index_key k \<longleftrightarrow> k \<noteq> [] \<and> list_all is_digit k \<and> (k = ''0'' \<or> hd k \<noteq> CHR ''0'') \<and> digits_val 0 k < 4294967295"

definition own_order :: "(string \<times> 'a) list \<Rightarrow> (string \<times> 'a) list" where
  "own_order kvs = sort_key (\<lambda>(k, _). digits_val 0 k) (filter (\<lambda>(k, _). index_key k) kvs) @
     filter (\<lambda>(k, _). \<not> index_key k) kvs"

fun collect :: "('e + 'a) list \<Rightarrow> 'e + 'a list" where
  "collect [] = Inr []"
| "collect (r # rs) = (case r of Inl e \<Rightarrow> Inl e
     | Inr x \<Rightarrow> (case collect rs of Inl e \<Rightarrow> Inl e | Inr xs \<Rightarrow> Inr (x # xs)))"

definition notJson :: rt_exn where
  "notJson = rt_invalid ''Database records must contain only JSON values.''"

definition keyed :: "string \<times> ('e + 'a) \<Rightarrow> 'e + string \<times> 'a" where
  "keyed kr = (case snd kr of Inl e \<Rightarrow> Inl e | Inr v \<Rightarrow> Inr (fst kr, v))"

text \<open>The inner \<open>visit\<close>: the value with the keys of its objects in order, or the error.\<close>

primrec db_visit :: "js \<Rightarrow> rt_exn + js" where
  "db_visit JUndef = Inl notJson"
| "db_visit JNull = Inr JNull"
| "db_visit (JBool b) = Inr (JBool b)"
| "db_visit (JNum x) = (if num_finite x then Inr (JNum x) else Inl notJson)"
| "db_visit (JStr s) = Inr (JStr s)"
| "db_visit (JArr xs) = (case collect (map db_visit xs) of Inl e \<Rightarrow> Inl e | Inr ys \<Rightarrow> Inr (JArr ys))"
| "db_visit (JObj kvs) =
     (case collect (map keyed (sort_key fst (map (map_prod id db_visit) kvs))) of
        Inl e \<Rightarrow> Inl e | Inr lvs \<Rightarrow> Inr (JObj (own_order lvs)))"

text \<open>\<open>JSON.stringify\<close> on the values \<open>visit\<close> returns.\<close>

primrec json_text :: "platform \<Rightarrow> js \<Rightarrow> string" where
  "json_text pf JUndef = []"
| "json_text pf JNull = ''null''"
| "json_text pf (JBool b) = (if b then ''true'' else ''false'')"
| "json_text pf (JNum x) = (if num_finite x then num_str pf x else ''null'')"
| "json_text pf (JStr s) = json_quote s"
| "json_text pf (JArr xs) = CHR ''['' # js_join '','' (map (json_text pf) xs) @ '']''"
| "json_text pf (JObj kvs) = CHR ''{'' # js_join '',''
     (map (\<lambda>(k, t). json_quote k @ CHR '':'' # t) (map (map_prod id (json_text pf)) kvs)) @ ''}''"

definition databaseRecordJson :: "platform \<Rightarrow> js \<Rightarrow> rt_exn + string" where
  "databaseRecordJson pf v = (case db_visit v of Inl e \<Rightarrow> Inl e | Inr u \<Rightarrow> Inr (json_text pf u))"

section \<open>Checking the writes\<close>

definition MAX_DATABASE_COMMIT_WRITES :: nat where
  "MAX_DATABASE_COMMIT_WRITES = 25"

definition encoded_length :: "string \<Rightarrow> nat" where
  "encoded_length s = length (utf8 s)"

definition write_named :: "js \<Rightarrow> bool" where
  "write_named w \<longleftrightarrow> truthy w \<and> isString (jget w ''table'') \<and> js_str (jget w ''table'') \<noteq> [] \<and>
     js_str (jget w ''table'') \<notin> {''__proto__'', ''constructor'', ''prototype''} \<and>
     isString (jget w ''id'') \<and> js_str (jget w ''id'') \<noteq> [] \<and>
     encoded_length (js_str (jget w ''id'')) \<le> 1024 \<and> encoded_length (js_str (jget w ''table'')) \<le> 255"

definition write_key :: "js \<Rightarrow> string" where
  "write_key w = CHR ''['' # json_quote (js_str (jget w ''table'')) @ CHR '','' #
     json_quote (js_str (jget w ''id'')) @ '']''"

definition check_record :: "platform \<Rightarrow> js \<Rightarrow> js \<Rightarrow> rt_exn + unit" where
  "check_record pf i record =
     (if record \<noteq> JNull \<and> (\<not> isObject record \<or> jget record ''id'' \<noteq> i)
      then Inl (rt_invalid ''Commit records must include the matching id, or be null.'')
      else if record \<noteq> JNull then
        (case databaseRecordJson pf record of
           Inl e \<Rightarrow> Inl e
         | Inr json \<Rightarrow> if encoded_length json > 256 * 1024
             then Inl (rt_invalid ''Commit records cannot exceed 256 KiB.'') else Inr ())
      else Inr ())"

fun check_writes :: "platform \<Rightarrow> string list \<Rightarrow> js list \<Rightarrow> rt_exn + unit" where
  "check_writes pf keys [] = Inr ()"
| "check_writes pf keys (w # ws) =
     (if \<not> write_named w
      then Inl (rt_invalid
        ''Every write needs a table name up to 255 UTF-8 bytes and a record id up to 1024 UTF-8 bytes.'')
      else if write_key w \<in> set keys
      then Inl (rt_invalid ''A database commit cannot write the same record twice.'')
      else (case check_record pf (jget w ''id'') (jget w ''record'') of
          Inl e \<Rightarrow> Inl e
        | Inr _ \<Rightarrow> (case check_record pf (jget w ''id'') (jget w ''expected'') of
            Inl e \<Rightarrow> Inl e
          | Inr _ \<Rightarrow> check_writes pf (write_key w # keys) ws)))"

definition validateDatabaseWrites :: "platform \<Rightarrow> js \<Rightarrow> rt_exn + unit" where
  "validateDatabaseWrites pf writes =
     (if \<not> isArray writes \<or> length (js_items writes) < 1 \<or> length (js_items writes) > MAX_DATABASE_COMMIT_WRITES
      then Inl (rt_invalid (''A database commit requires 1 to '' @ nat_str MAX_DATABASE_COMMIT_WRITES @ '' writes.''))
      else (case databaseRecordJson pf writes of
          Inl e \<Rightarrow> Inl e
        | Inr json \<Rightarrow>
            if encoded_length json > 1024 * 1024
            then Inl (rt_invalid ''A database commit cannot exceed 1 MiB.'')
            else check_writes pf [] (js_items writes)))"

section \<open>Applying the writes\<close>

type_synonym database = "(string \<times> js list) list"

text \<open>
  \<open>next[write.table] ?? []\<close>: the cloned snapshot is an ordinary object, so the name of a method of
  \<open>Object.prototype\<close> finds that method unless the table exists, and the method has no \<open>find\<close>.
\<close>

definition object_methods :: "string list" where
  "object_methods = [''__defineGetter__'', ''__defineSetter__'', ''hasOwnProperty'', ''__lookupGetter__'',
     ''__lookupSetter__'', ''isPrototypeOf'', ''propertyIsEnumerable'', ''toString'', ''valueOf'', ''toLocaleString'']"

definition table_rows :: "database \<Rightarrow> string \<Rightarrow> rt_exn + js list" where
  "table_rows db t = (case map_of db t of
      Some rows \<Rightarrow> Inr rows
    | None \<Rightarrow> if t \<in> set object_methods then Inl (ForeignError ''find is not a function'') else Inr [])"

definition has_id :: "js \<Rightarrow> js \<Rightarrow> bool" where
  "has_id i row \<longleftrightarrow> jget row ''id'' = i"

definition current_row :: "js \<Rightarrow> js list \<Rightarrow> js" where
  "current_row i rows = (case find (has_id i) rows of Some r \<Rightarrow> r | None \<Rightarrow> JNull)"

definition apply_write :: "platform \<Rightarrow> js \<Rightarrow> database \<Rightarrow> rt_exn + database" where
  "apply_write pf w db =
     (let t = js_str (jget w ''table'') in
      case table_rows db t of Inl e \<Rightarrow> Inl e | Inr rows \<Rightarrow>
      (case databaseRecordJson pf (current_row (jget w ''id'') rows) of Inl e \<Rightarrow> Inl e | Inr found \<Rightarrow>
      (case databaseRecordJson pf (jget w ''expected'') of Inl e \<Rightarrow> Inl e | Inr expected \<Rightarrow>
       if found \<noteq> expected then Inl databaseConflict
       else Inr (AList.update t (filter (\<lambda>r. \<not> has_id (jget w ''id'') r) rows @
         (if truthy (jget w ''record'') then [jget w ''record''] else [])) db))))"

fun apply_writes :: "platform \<Rightarrow> js list \<Rightarrow> database \<Rightarrow> rt_exn + database" where
  "apply_writes pf [] db = Inr db"
| "apply_writes pf (w # ws) db = (case apply_write pf w db of Inl e \<Rightarrow> Inl e | Inr db' \<Rightarrow> apply_writes pf ws db')"

definition applyDatabaseWrites :: "platform \<Rightarrow> database \<Rightarrow> js \<Rightarrow> rt_exn + database" where
  "applyDatabaseWrites pf snapshot writes = (case validateDatabaseWrites pf writes of
      Inl e \<Rightarrow> Inl e
    | Inr _ \<Rightarrow> apply_writes pf (js_items writes) snapshot)"

section \<open>Pages\<close>

record page_options =
  po_limit :: js
  po_cursor :: js

record page =
  pg_records :: "js list"
  pg_cursor :: "string option"

definition databasePageLimit :: "page_options \<Rightarrow> rt_exn + nat" where
  "databasePageLimit options =
     (let limit = (if po_limit options = JUndef \<or> po_limit options = JNull then JNum (num_of_int 100) else po_limit options) in
      if \<not> (case limit of JNum (Fin r) \<Rightarrow> of_int \<lfloor>r\<rfloor> = r \<and> 1 \<le> r \<and> r \<le> 100 | _ \<Rightarrow> False)
      then Inl (rt_invalid ''Page limit must be an integer from 1 to 100.'')
      else if po_cursor options \<noteq> JUndef \<and> (\<not> isString (po_cursor options) \<or> js_str (po_cursor options) = [])
      then Inl (rt_invalid ''Page cursor must be a non-empty record id.'')
      else Inr (case limit of JNum (Fin r) \<Rightarrow> nat \<lfloor>r\<rfloor> | _ \<Rightarrow> 0))"

text \<open>The bytes are compared up to the shorter length, then the lengths are.\<close>

fun compare_bytes :: "bytes \<Rightarrow> bytes \<Rightarrow> int" where
  "compare_bytes (a # as) (b # bs) = (if a \<noteq> b then int a - int b else compare_bytes as bs)"
| "compare_bytes as bs = int (length as) - int (length bs)"

definition compareIds :: "string \<Rightarrow> string \<Rightarrow> int" where
  "compareIds left right = compare_bytes (utf8 left) (utf8 right)"

text \<open>\<open>Array.prototype.sort\<close> is stable.\<close>

fun sort_into :: "('a \<Rightarrow> 'a \<Rightarrow> int) \<Rightarrow> 'a \<Rightarrow> 'a list \<Rightarrow> 'a list" where
  "sort_into cmp x [] = [x]"
| "sort_into cmp x (y # ys) = (if cmp x y \<le> 0 then x # y # ys else y # sort_into cmp x ys)"

definition js_sort :: "('a \<Rightarrow> 'a \<Rightarrow> int) \<Rightarrow> 'a list \<Rightarrow> 'a list" where
  "js_sort cmp xs = foldr (sort_into cmp) xs []"

definition row_id :: "platform \<Rightarrow> js \<Rightarrow> string" where
  "row_id pf row = js_to_string pf (jget row ''id'')"

definition pageDatabaseRecords :: "platform \<Rightarrow> js list \<Rightarrow> page_options \<Rightarrow> rt_exn + page" where
  "pageDatabaseRecords pf records options = (case databasePageLimit options of
      Inl e \<Rightarrow> Inl e
    | Inr limit \<Rightarrow>
        (let ordered = js_sort (\<lambda>a b. compareIds (row_id pf a) (row_id pf b))
               (filter (\<lambda>row. po_cursor options = JUndef \<or>
                  compareIds (row_id pf row) (js_str (po_cursor options)) > 0) records);
             page = take limit ordered
         in Inr \<lparr>pg_records = page,
              pg_cursor = (if length ordered > limit then Some (row_id pf (last page)) else None)\<rparr>))"

end
