(* ===== verification/Execution_Node_Http.thy ===== *)
theory Execution_Node_Http
  imports Execution_Http_Client Database_Commit
begin

text \<open>
  The Node adapter \<open>packages/control-plane/src/execution-node-http.ts\<close> that serves a handler over HTTP,
  and the way of a client's call through it: the client writes its body as JSON text, the adapter reads
  it back, calls the handler, and writes the body of the response as JSON text, which the client reads.

  \<open>new URL\<close> and \<open>JSON.parse\<close> are parameters of the adapter. The socket itself - listening on a port,
  the address, closing - is left out.
\<close>

section \<open>The adapter\<close>

text \<open>A request as \<open>node:http\<close> delivers it: a header may have several values or none, the body is its text.\<close>

record node_request =
  nq_method :: "string option"
  nq_url :: "string option"
  nq_headers :: "(string \<times> string list option) list"
  nq_body :: string

record node_reply =
  ny_status :: int
  ny_headers :: "(string \<times> string) list"
  ny_text :: string

text \<open>\<open>nd_url\<close> has the path and the query of a parsed URL, \<open>nd_parse\<close> the value of a JSON text.\<close>

record 's node_env =
  nd_host :: string
  nd_maxBodyBytes :: int
  nd_authenticate :: "(http_request \<Rightarrow> 's \<Rightarrow> (exn + bool) \<times> 's) option"
  nd_url :: "string \<Rightarrow> string \<Rightarrow> (string \<times> (string \<times> string) list) option"
  nd_parse :: "string \<Rightarrow> js option"

text \<open>\<open>JSON.stringify\<close> of a value that is not undefined: undefined members are left out, undefined items
  become null.\<close>

primrec json_drop :: "js \<Rightarrow> js" where
  "json_drop JUndef = JUndef"
| "json_drop JNull = JNull"
| "json_drop (JBool b) = JBool b"
| "json_drop (JNum x) = JNum x"
| "json_drop (JStr s) = JStr s"
| "json_drop (JArr xs) = JArr (map (\<lambda>v. if v = JUndef then JNull else v) (map json_drop xs))"
| "json_drop (JObj kvs) = JObj (filter (\<lambda>(k, v). v \<noteq> JUndef) (map (map_prod id json_drop) kvs))"

definition json_stringify :: "platform \<Rightarrow> js \<Rightarrow> string" where
  "json_stringify pf v = json_text pf (json_drop v)"

definition DEFAULT_MAX_BODY_BYTES :: int where
  "DEFAULT_MAX_BODY_BYTES = 384 * 1024 * 1024"

datatype node_error = NodeHttpError int string | UrlError string | CheckError string

text \<open>The checks of the options; the result is the port and the body limit.\<close>

definition server_options :: "platform \<Rightarrow> jsnum option \<Rightarrow> jsnum option \<Rightarrow> string + int \<times> int" where
  "server_options pf port maxBody =
     (let requestedPort = (case port of Some n \<Rightarrow> n | None \<Rightarrow> num_of_int 4764);
          maxBodyBytes = (case maxBody of Some n \<Rightarrow> n | None \<Rightarrow> num_of_int DEFAULT_MAX_BODY_BYTES) in
      if \<not> safe_integer requestedPort \<or> num_int requestedPort < 0 \<or> num_int requestedPort > 65535
      then Inl (''Execution server port '' @ [CHR 39] @ num_str pf requestedPort @ [CHR 39] @ '' is invalid.'')
      else if \<not> safe_integer maxBodyBytes \<or> num_int maxBodyBytes < 1
      then Inl ''Execution server body limit must be a positive integer.''
      else Inr (num_int requestedPort, num_int maxBodyBytes))"

fun node_error_message :: "node_error \<Rightarrow> string" where
  "node_error_message (NodeHttpError n m) = m"
| "node_error_message (UrlError m) = m"
| "node_error_message (CheckError m) = m"

definition node_readJsonBody :: "'s node_env \<Rightarrow> string \<Rightarrow> node_error + js" where
  "node_readJsonBody nd text =
     (if int (length (utf8 text)) > nd_maxBodyBytes nd
      then Inl (NodeHttpError 413 (''Execution request exceeds '' @ int_str (nd_maxBodyBytes nd) @ '' bytes.''))
      else if utf8 text = [] then Inr JUndef
      else (case nd_parse nd text of
         None \<Rightarrow> Inl (NodeHttpError 400 ''Execution request body must be valid JSON.'')
       | Some v \<Rightarrow> Inr v))"

definition normalizeHeaders :: "(string \<times> string list option) list \<Rightarrow> (string \<times> string option) list" where
  "normalizeHeaders hs = map (\<lambda>(n, vs). (n, map_option (js_join '', '') vs)) hs"

definition writeJson :: "platform \<Rightarrow> int \<Rightarrow> js \<Rightarrow> node_reply" where
  "writeJson pf status body = \<lparr>ny_status = status,
     ny_headers = [(''content-type'', ''application/json; charset=utf-8''), (''cache-control'', ''no-store'')],
     ny_text = json_stringify pf body @ [CHR 10]\<rparr>"

definition node_failure :: "platform \<Rightarrow> int \<Rightarrow> string \<Rightarrow> string \<Rightarrow> node_reply" where
  "node_failure pf status c m = writeJson pf status
     (JObj [(''ok'', JBool False), (''error'', JObj [(''code'', JStr c), (''message'', JStr m)])])"

definition node_catch :: "platform \<Rightarrow> node_error \<Rightarrow> node_reply" where
  "node_catch pf e = (case e of
      NodeHttpError n m \<Rightarrow> if n = 413 then node_failure pf 413 ''EXECUTION_HTTP_BODY_TOO_LARGE'' m
        else node_failure pf 400 ''EXECUTION_HTTP_INVALID_REQUEST'' m
    | _ \<Rightarrow> node_failure pf 400 ''EXECUTION_HTTP_INVALID_REQUEST'' (node_error_message e))"

text \<open>The method, path, headers and query that are known before the body is read.\<close>

definition request_metadata :: "'s node_env \<Rightarrow> node_request \<Rightarrow> node_error + http_request" where
  "request_metadata nd q =
     (case nd_url nd (case nq_url q of None \<Rightarrow> ''/'' | Some u \<Rightarrow> u) (''http://'' @ nd_host nd) of
        None \<Rightarrow> Inl (UrlError ''Invalid URL'')
      | Some (path, query) \<Rightarrow> Inr \<lparr>hq_method = (case nq_method q of None \<Rightarrow> ''GET'' | Some m \<Rightarrow> m), hq_path = path,
          hq_headers = normalizeHeaders (nq_headers q), hq_query = Some query, hq_body = JUndef\<rparr>)"

text \<open>The request listener; \<open>enc\<close> is the JSON value of a response body. The handler does not throw.\<close>

definition node_listener ::
  "platform \<Rightarrow> 's node_env \<Rightarrow> (http_body \<Rightarrow> js) \<Rightarrow> (http_request \<Rightarrow> 's \<Rightarrow> http_response \<times> 's) \<Rightarrow>
   node_request \<Rightarrow> 's \<Rightarrow> node_reply \<times> 's" where
  "node_listener pf nd enc handler q s =
     (case request_metadata nd q of
        Inl e \<Rightarrow> (node_catch pf e, s)
      | Inr metadata \<Rightarrow>
        (case (case nd_authenticate nd of None \<Rightarrow> (Inr True, s) | Some ask \<Rightarrow> ask metadata s) of
           (Inl e, t) \<Rightarrow> (node_catch pf (CheckError (errorMessage e)), t)
         | (Inr False, t) \<Rightarrow> (node_failure pf 401 ''EXECUTION_AUTHENTICATION_REQUIRED''
             ''Execution service authentication is required.'', t)
         | (Inr True, t) \<Rightarrow>
           (case node_readJsonBody nd (nq_body q) of
              Inl e \<Rightarrow> (node_catch pf e, t)
            | Inr body \<Rightarrow> (case handler (metadata\<lparr>hq_body := body\<rparr>) t of
                (a, u) \<Rightarrow> (writeJson pf (hp_status a) (enc (hp_body a)), u)))))"

section \<open>The check of the headers in the served control plane\<close>

text \<open>\<open>authenticateHeaders\<close> of \<open>commandExecutionsServe\<close>: the operator's token, except for source grants.\<close>

definition operator_headers :: "string \<Rightarrow> http_request \<Rightarrow> 's \<Rightarrow> (exn + bool) \<times> 's" where
  "operator_headers token r s =
     (Inr (js_upper (hq_method r) = ''GET'' \<and> starts_with grant_prefix (hq_path r) \<or>
       (case readHeader (hq_headers r) ''authorization'' of
          None \<Rightarrow> False | Some a \<Rightarrow> a \<noteq> [] \<and> constantTimeTextEqual a (''Bearer '' @ token))), s)"

section \<open>A client of a served handler\<close>

text \<open>
  \<open>fetch\<close> over the wire: the client's \<open>JSON.stringify\<close> of its body, the adapter, and the client's
  \<open>response.json()\<close>. Node delivers header names in lower case and the URL without the origin, which
  here is all of the base URL.
\<close>

definition node_request_of ::
  "platform \<Rightarrow> string \<Rightarrow> string \<Rightarrow> string \<Rightarrow> (string \<times> string) list \<Rightarrow> js option \<Rightarrow> node_request" where
  "node_request_of pf base url method headers body =
     \<lparr>nq_method = Some method, nq_url = Some (drop (length base) url),
      nq_headers = map (\<lambda>(n, v). (js_lower n, Some [v])) headers,
      nq_body = (case body of None \<Rightarrow> [] | Some v \<Rightarrow> json_stringify pf v)\<rparr>"

definition reply_of :: "'s node_env \<Rightarrow> node_reply \<Rightarrow> http_reply" where
  "reply_of nd y = \<lparr>rp_ok = (200 \<le> ny_status y \<and> ny_status y \<le> 299), rp_status = ny_status y,
     rp_json = nd_parse nd (ny_text y)\<rparr>"

definition wired ::
  "platform \<Rightarrow> 's node_env \<Rightarrow> (http_body \<Rightarrow> js) \<Rightarrow> (http_request \<Rightarrow> 's \<Rightarrow> http_response \<times> 's) \<Rightarrow> string \<Rightarrow> string \<Rightarrow>
   's http_client" where
  "wired pf nd enc handler token base =
     \<lparr>hc_base = base, hc_headers = (\<lambda>s. (Inr [(''authorization'', ''Bearer '' @ token)], s)),
      hc_fetch = (\<lambda>url method headers body s.
        (case node_listener pf nd enc handler (node_request_of pf base url method headers body) s of
           (y, t) \<Rightarrow> (Inr (reply_of nd y), t))),
      hc_query = (\<lambda>_. [])\<rparr>"

end
