(* ===== verification/Snapshot_Laws.thy ===== *)
theory Snapshot_Laws
  imports Snapshot_Store
begin

text \<open>
  What a grant guarantees. The locale \<open>grant_store\<close> states the laws of the store interface from which
  single use follows; both stores are interpretations. Then the content side of the in-memory
  store: objects are named by their hash, a snapshot that was put can be fetched with a grant and
  comes back as it was, and the file store refines the in-memory one.
\<close>

section \<open>Single use\<close>

definition spent :: "string \<Rightarrow> snapshot_state \<Rightarrow> bool" where
  "spent i x \<longleftrightarrow> (\<exists>g. map_of (sn_grants x) i = Some g \<and> gr_usedAt g \<noteq> None)"

definition grant_refused :: "exn \<Rightarrow> bool" where
  "grant_refused e \<longleftrightarrow> (\<exists>c m. e = SnapError c m \<and> c \<in> {GrantInvalid, GrantUsed, GrantExpired})"

datatype snapshot_op = OpPut snapshot_upload | OpIssue issue_input | OpConsume consume_input

text \<open>The three operations of a store that change it, and a run of them in sequence.\<close>

type_synonym 's snapshot_ops =
  "(snapshot_upload \<Rightarrow> ('s, exn, snapshot_record) comp) \<times> (issue_input \<Rightarrow> ('s, exn, snapshot_grant) comp) \<times>
   (consume_input \<Rightarrow> ('s, exn, snapshot_download) comp)"

fun op_step :: "'s snapshot_ops \<Rightarrow> snapshot_op \<Rightarrow> 's \<Rightarrow> 's" where
  "op_step (put, issue, consume) (OpPut u) s = snd (put u s)"
| "op_step (put, issue, consume) (OpIssue n) s = snd (issue n s)"
| "op_step (put, issue, consume) (OpConsume c) s = snd (consume c s)"

fun op_run :: "'s snapshot_ops \<Rightarrow> snapshot_op list \<Rightarrow> 's \<Rightarrow> 's" where
  "op_run f [] s = s"
| "op_run f (op # ops) s = op_run f ops (op_step f op s)"

text \<open>The run gives no new grant the identifier \<open>i\<close>.\<close>

fun op_draws :: "'s snapshot_ops \<Rightarrow> string \<Rightarrow> snapshot_op \<Rightarrow> 's \<Rightarrow> bool" where
  "op_draws (put, issue, consume) i (OpIssue n) s =
     (case fst (issue n s) of Inr g \<Rightarrow> sg_id g = i | Inl _ \<Rightarrow> False)"
| "op_draws f i _ s = False"

fun never_draws :: "'s snapshot_ops \<Rightarrow> string \<Rightarrow> snapshot_op list \<Rightarrow> 's \<Rightarrow> bool" where
  "never_draws f i [] s = True"
| "never_draws f i (op # ops) s = (\<not> op_draws f i op s \<and> never_draws f i ops (op_step f op s))"

locale grant_store =
  fixes put :: "snapshot_upload \<Rightarrow> ('s, exn, snapshot_record) comp"
    and issue :: "issue_input \<Rightarrow> ('s, exn, snapshot_grant) comp"
    and consume :: "consume_input \<Rightarrow> ('s, exn, snapshot_download) comp"
    and view :: "'s \<Rightarrow> snapshot_state option"
  assumes spent_refused: "view s = Some x \<Longrightarrow> spent (ci_grantId c) x \<Longrightarrow>
      \<exists>e. fst (consume c s) = Inl e \<and> grant_refused e"
    and consume_spends: "view s = Some x \<Longrightarrow> consume c s = (Inr d, t) \<Longrightarrow>
      \<exists>y. view t = Some y \<and> spent (ci_grantId c) y"
    and put_keeps: "view s = Some x \<Longrightarrow> spent i x \<Longrightarrow> \<exists>y. view (snd (put u s)) = Some y \<and> spent i y"
    and issue_keeps: "view s = Some x \<Longrightarrow> spent i x \<Longrightarrow> \<not> op_draws (put, issue, consume) i (OpIssue n) s \<Longrightarrow>
      \<exists>y. view (snd (issue n s)) = Some y \<and> spent i y"
    and consume_keeps: "view s = Some x \<Longrightarrow> spent i x \<Longrightarrow> \<exists>y. view (snd (consume c s)) = Some y \<and> spent i y"
begin

lemma run_spent:
  "view s = Some x \<Longrightarrow> spent i x \<Longrightarrow> never_draws (put, issue, consume) i ops s \<Longrightarrow>
     \<exists>y. view (op_run (put, issue, consume) ops s) = Some y \<and> spent i y"
proof (induction ops arbitrary: s x)
  case (Cons op ops)
  then have "\<exists>y. view (op_step (put, issue, consume) op s) = Some y \<and> spent i y"
    by (cases op) (auto intro: put_keeps issue_keeps consume_keeps)
  with Cons.IH Cons.prems(3) show ?case by auto
qed auto

text \<open>A grant that was consumed is refused ever after, as long as its identifier is not drawn again.\<close>

lemma single_use:
  assumes "view s = Some x" and "consume c s = (Inr d, t)"
    and "never_draws (put, issue, consume) (ci_grantId c) ops t" and "ci_grantId c' = ci_grantId c"
  shows "\<exists>e. fst (consume c' (op_run (put, issue, consume) ops t)) = Inl e \<and> grant_refused e"
proof -
  from consume_spends [OF assms(1,2)] obtain y where "view t = Some y" "spent (ci_grantId c) y" by blast
  from run_spent [OF this assms(3)] obtain z where
    "view (op_run (put, issue, consume) ops t) = Some z" "spent (ci_grantId c) z" by blast
  with assms(4) show ?thesis by (auto intro: spent_refused)
qed

end

section \<open>The helpers\<close>

lemma validateGrant_run:
  "validateGrant pf opts grant input w = (Inr g, w') \<Longrightarrow>
     grant = Some g \<and> gr_usedAt g = None \<and> gr_executionId g = ci_executionId input \<and>
     constantTimeEqual pf (gr_tokenSha256 g) (sha256_text pf (ci_token input)) \<and>
     length (ci_token input) \<le> 512 \<and>
     (\<exists>e. gr_expiresAt g = Some e \<and> fst (op_now opts w) < e) \<and> w' = snd (op_now opts w)"
  by (auto simp: validateGrant_def throw_def ret_def bindE_def draw_def split: option.splits if_splits prod.splits)

lemma validateGrant_error:
  "validateGrant pf opts grant input w = (Inl e, w') \<Longrightarrow> grant_refused e"
  by (auto simp: validateGrant_def grant_refused_def grantInvalid_def throw_def ret_def bindE_def draw_def
      split: option.splits if_splits prod.splits)

lemma validateGrant_used:
  "gr_usedAt g \<noteq> None \<Longrightarrow> \<exists>e. validateGrant pf opts (Some g) input w = (Inl e, w) \<and> grant_refused e"
  by (auto simp: validateGrant_def grant_refused_def grantInvalid_def throw_def)

lemma createGrant_run:
  assumes "createGrant pf opts input w = (Inr (grant, g), w')"
  obtains t ttl where "ttl = (case is_ttlSeconds input of Some n \<Rightarrow> num_int n | None \<Rightarrow> 300)"
    and "1 \<le> ttl" and "ttl \<le> 900" and "sg_expiresAt grant = t + ttl * 1000"
    and "gr_expiresAt g = Some (sg_expiresAt grant)" and "gr_id g = sg_id grant"
    and "gr_tokenSha256 g = sha256_text pf (sg_token grant)" and "gr_usedAt g = None"
    and "gr_executionId g = is_executionId input" and "gr_workspace g = is_workspace input"
    and "gr_snapshotId g = is_snapshotId input"
    and "sg_executionId grant = is_executionId input" and "sg_workspace grant = is_workspace input"
    and "sg_snapshotId grant = is_snapshotId input"
    and "\<exists>x y. op_now opts y = (t, x) \<and> w' = x"
proof -
  let ?n = "case is_ttlSeconds input of Some n \<Rightarrow> n | None \<Rightarrow> num_of_int DEFAULT_GRANT_TTL_SECONDS"
  have eq: "num_int ?n = (case is_ttlSeconds input of Some n \<Rightarrow> num_int n | None \<Rightarrow> 300)"
    by (simp add: DEFAULT_GRANT_TTL_SECONDS_def num_int_def split: option.split)
  from assms have ok: "1 \<le> num_int ?n" "num_int ?n \<le> 900"
    by (auto simp: createGrant_def Let_def throw_def split: if_splits)
  obtain i w1 where i: "op_idFactory opts w = (i, w1)" by fastforce
  obtain tok w2 where tok: "op_tokenFactory opts w1 = (tok, w2)" by fastforce
  obtain t w3 where t: "op_now opts w2 = (t, w3)" by fastforce
  from assms ok i tok t show thesis
    by (intro that [of "num_int ?n" t])
      (auto simp: createGrant_def Let_def bindE_def ret_def throw_def draw_def eq split: if_splits)
qed

lemma use_grant_spent:
  "map_of (sn_grants x) i = Some g \<Longrightarrow> spent i (use_grant i t x)"
  by (simp add: spent_def use_grant_def update_conv')

lemma spent_use_grant: "spent i x \<Longrightarrow> spent i (use_grant j t x)"
  by (auto simp: spent_def use_grant_def update_conv' split: option.split)

lemma spent_add_grant: "spent i x \<Longrightarrow> gr_id g \<noteq> i \<Longrightarrow> spent i (add_grant g x)"
  by (auto simp: spent_def add_grant_def update_conv')

lemma spent_add_snapshot [simp]: "spent i (add_snapshot k r x) = spent i x"
  by (simp add: spent_def add_snapshot_def)

section \<open>The in-memory store keeps the laws\<close>

lemmas run_defs = draw_def thenE_def bindE_def lift_sum_def gets_def ret_def throw_def modify_def

lemma mem_consume_run:
  "(\<exists>e s'. mem_consumeGrant pf opts c s = (Inl e, s') \<and> sm_state s' = sm_state s \<and> sm_objects s' = sm_objects s \<and>
      (\<exists>w. validateGrant pf opts (map_of (sn_grants (sm_state s)) (ci_grantId c)) c (sm_wd s) = (Inl e, w))) \<or>
   (\<exists>g t r s' w. mem_consumeGrant pf opts c s = (r, s') \<and>
      validateGrant pf opts (map_of (sn_grants (sm_state s)) (ci_grantId c)) c (sm_wd s) = (Inr g, w) \<and>
      sm_state s' = use_grant (ci_grantId c) t (sm_state s) \<and> sm_objects s' = sm_objects s)"
proof (cases "validateGrant pf opts (map_of (sn_grants (sm_state s)) (ci_grantId c)) c (sm_wd s)")
  case (Pair r w)
  show ?thesis
  proof (cases r)
    case (Inl e)
    with Pair show ?thesis by (auto simp: mem_consumeGrant_def run_defs sm_call_def)
  next
    case (Inr g)
    obtain t w' where t: "op_now opts w = (t, w')" by fastforce
    from Pair Inr t show ?thesis
      by (auto simp: mem_consumeGrant_def run_defs sm_call_def mem_get_def requiredObject_def
          split: option.splits prod.splits sum.splits)
  qed
qed

lemma mem_consume_state:
  "sm_state (snd (mem_consumeGrant pf opts c s)) = sm_state s \<or>
   (\<exists>t. sm_state (snd (mem_consumeGrant pf opts c s)) = use_grant (ci_grantId c) t (sm_state s))"
  using mem_consume_run [of pf opts c s] by auto

lemma mem_put_state:
  "sm_state (snd (mem_put pf opts u s)) = sm_state s \<or>
   (\<exists>k r. sm_state (snd (mem_put pf opts u s)) = add_snapshot k r (sm_state s))"
  by (auto simp: mem_put_def run_defs sm_call_def putObject_def split: prod.splits sum.splits option.splits)

lemma mem_issue_state:
  "(case mem_issueGrant pf opts n s of
      (Inl e, t) \<Rightarrow> sm_state t = sm_state s
    | (Inr grant, t) \<Rightarrow> \<exists>g w. createGrant pf opts n (sm_wd s) = (Inr (grant, g), w) \<and>
        gr_id g = sg_id grant \<and> sm_state t = add_grant g (sm_state s) \<and>
        map_of (sn_snapshots (sm_state s)) (recordKey pf (is_workspace n) (is_snapshotId n)) \<noteq> None)"
  by (auto simp: mem_issueGrant_def mem_get_def run_defs sm_call_def elim!: createGrant_run
      split: prod.splits sum.splits option.splits)

interpretation mem_grants: grant_store "mem_put pf opts" "mem_issueGrant pf opts" "mem_consumeGrant pf opts"
    "\<lambda>s. Some (sm_state s)"
  for pf and opts :: "'w snapshot_options"
proof unfold_locales
  fix s :: "'w snapshot_mem" and x and c :: consume_input
  assume x: "Some (sm_state s) = Some x" and sp: "spent (ci_grantId c) x"
  then obtain g where g: "map_of (sn_grants (sm_state s)) (ci_grantId c) = Some g" "gr_usedAt g \<noteq> None"
    by (auto simp: spent_def)
  show "\<exists>e. fst (mem_consumeGrant pf opts c s) = Inl e \<and> grant_refused e"
    using mem_consume_run [of pf opts c s] validateGrant_used [OF g(2), of pf opts c "sm_wd s"] g(1) by auto
next
  fix s t :: "'w snapshot_mem" and x d and c :: consume_input
  assume "Some (sm_state s) = Some x" and r: "mem_consumeGrant pf opts c s = (Inr d, t)"
  then show "\<exists>y. Some (sm_state t) = Some y \<and> spent (ci_grantId c) y"
    using mem_consume_run [of pf opts c s] by (auto dest!: validateGrant_run intro: use_grant_spent)
next
  fix s :: "'w snapshot_mem" and x i and u :: snapshot_upload
  assume "Some (sm_state s) = Some x" and "spent i x"
  then show "\<exists>y. Some (sm_state (snd (mem_put pf opts u s))) = Some y \<and> spent i y"
    using mem_put_state [of pf opts u s] by auto
next
  fix s :: "'w snapshot_mem" and x i and n :: issue_input
  assume "Some (sm_state s) = Some x" and "spent i x" and "\<not> op_draws (mem_put pf opts, mem_issueGrant pf opts, mem_consumeGrant pf opts) i (OpIssue n) s"
  then show "\<exists>y. Some (sm_state (snd (mem_issueGrant pf opts n s))) = Some y \<and> spent i y"
    using mem_issue_state [where pf = pf and opts = opts and n = n and s = s] by (auto split: prod.splits sum.splits simp: spent_add_grant)
next
  fix s :: "'w snapshot_mem" and x i and c :: consume_input
  assume "Some (sm_state s) = Some x" and "spent i x"
  then show "\<exists>y. Some (sm_state (snd (mem_consumeGrant pf opts c s))) = Some y \<and> spent i y"
    using mem_consume_state [of pf opts c s] by (auto intro: spent_use_grant)
qed

section \<open>The file store keeps the laws\<close>

definition disk_view :: "'w snapshot_disk \<Rightarrow> snapshot_state option" where
  "disk_view s = (case sd_file s of NoFile \<Rightarrow> Some empty_snapshots | BadFile _ \<Rightarrow> None | StateFile x \<Rightarrow> Some x)"

lemma readState_run: "disk_view s = Some x \<Longrightarrow> readState s = (Inr x, s)"
  by (auto simp: disk_view_def readState_def run_defs split: snapshot_file.splits)

lemma disk_view_write [simp]: "disk_view (s\<lparr>sd_file := StateFile x\<rparr>) = Some x"
  by (simp add: disk_view_def)

lemma disk_view_other [simp]:
  "disk_view (s\<lparr>sd_wd := w\<rparr>) = disk_view s" "disk_view (s\<lparr>sd_objects := os\<rparr>) = disk_view s"
  by (simp_all add: disk_view_def)

lemma readObject_run:
  "readObject n s = (case map_of (sd_objects s) n of
     None \<Rightarrow> (Inl (JsError (Some ''ENOENT'') (''ENOENT: no such file or directory, open '' @ n)), s)
   | Some content \<Rightarrow> (Inr content, s))"
  by (simp add: readObject_def run_defs split: option.split)

lemma disk_consume_run:
  assumes x: "disk_view s = Some x"
  shows "(case validateGrant pf opts (map_of (sn_grants x) (ci_grantId c)) c (sd_wd s) of
      (Inl e, w) \<Rightarrow> disk_consumeGrant pf opts c s = (Inl e, s\<lparr>sd_wd := w\<rparr>)
    | (Inr g, w) \<Rightarrow> snd (disk_consumeGrant pf opts c s) = s\<lparr>sd_wd := snd (op_now opts w),
         sd_file := StateFile (use_grant (ci_grantId c) (fst (op_now opts w)) x)\<rparr>)"
proof (cases "validateGrant pf opts (map_of (sn_grants x) (ci_grantId c)) c (sd_wd s)")
  case (Pair r w)
  show ?thesis
  proof (cases r)
    case (Inl e)
    with Pair readState_run [OF x] show ?thesis by (simp add: disk_consumeGrant_def run_defs sd_call_def)
  next
    case (Inr g)
    with Pair readState_run [OF x] show ?thesis
      by (simp add: disk_consumeGrant_def run_defs sd_call_def writeState_def readObject_run split: option.split)
  qed
qed

lemma disk_put_state:
  fixes s :: "'w snapshot_disk"
  assumes x: "disk_view s = Some x"
  shows "disk_view (snd (disk_put pf opts u s)) = Some x \<or>
   (\<exists>k r. disk_view (snd (disk_put pf opts u s)) = Some (add_snapshot k r x))"
proof -
  have obj: "disk_view (snd (writeObject n b t)) = disk_view t" and
    ret: "fst (writeObject n b t) = Inr ()" for n b and t :: "'w snapshot_disk"
    by (simp_all add: writeObject_def modify_def split: option.split)
  have w: "writeObject n b t = (Inr (), snd (writeObject n b t))" for n b and t :: "'w snapshot_disk"
    using ret [of n b t] by (metis prod.collapse)
  obtain r wd where p: "prepareSnapshot pf opts u (sd_wd s) = (r, wd)" by fastforce
  show ?thesis
  proof (cases r)
    case (Inl e)
    with p x show ?thesis by (simp add: disk_put_def run_defs sd_call_def)
  next
    case (Inr v)
    obtain rec archive patch where v: "v = (rec, archive, patch)" by (cases v)
    define mid where "mid = (case (patch, sr_patchObject rec) of
        (Some p, Some n) \<Rightarrow> if n \<noteq> [] then writeObject n p else ret ()
      | _ \<Rightarrow> (ret () :: ('w snapshot_disk, exn, unit) comp))"
    have mid: "\<exists>t'. mid t = (Inr (), t') \<and> disk_view t' = disk_view t" for t
      by (simp add: mid_def writeObject_def modify_def ret_def split: option.split)
    obtain s1 where s1: "writeObject (sr_archiveObject rec) archive (s\<lparr>sd_wd := wd\<rparr>) = (Inr (), s1)"
        "disk_view s1 = Some x"
      using w obj x by (metis disk_view_other(1))
    obtain t' where t': "mid s1 = (Inr (), t')" "disk_view t' = Some x"
      using mid [of s1] s1 by auto
    have "disk_put pf opts u s = thenE (writeObject (sr_archiveObject rec) archive) (thenE mid
        (thenE (bindE readState (\<lambda>x. writeState
          (add_snapshot (recordKey pf (up_workspace u) (so_snapshotId (sr_source rec))) rec x)))
        (ret rec))) (s\<lparr>sd_wd := wd\<rparr>)"
      using p Inr v by (simp add: disk_put_def bindE_def [of "sd_call _"] sd_call_def mid_def)
    also have "\<dots> = (Inr rec, t'\<lparr>sd_file := StateFile (add_snapshot
        (recordKey pf (up_workspace u) (so_snapshotId (sr_source rec))) rec x)\<rparr>)"
      using s1(1) t' readState_run [OF t'(2)]
      by (simp add: run_defs writeState_def)
    finally show ?thesis by auto
  qed
qed

lemma disk_issue_state:
  assumes x: "disk_view s = Some x"
  shows "(case disk_issueGrant pf opts n s of
      (Inl e, t) \<Rightarrow> disk_view t = Some x
    | (Inr grant, t) \<Rightarrow> \<exists>g. gr_id g = sg_id grant \<and> disk_view t = Some (add_grant g x))"
  using readState_run [OF x] x
  by (auto simp: disk_issueGrant_def writeState_def run_defs sd_call_def elim!: createGrant_run
      split: prod.splits sum.splits option.splits)

interpretation disk_grants: grant_store "disk_put pf opts" "disk_issueGrant pf opts" "disk_consumeGrant pf opts"
    disk_view
  for pf and opts :: "'w snapshot_options"
proof unfold_locales
  fix s :: "'w snapshot_disk" and x and c :: consume_input
  assume x: "disk_view s = Some x" and sp: "spent (ci_grantId c) x"
  then obtain g where g: "map_of (sn_grants x) (ci_grantId c) = Some g" "gr_usedAt g \<noteq> None"
    by (auto simp: spent_def)
  show "\<exists>e. fst (disk_consumeGrant pf opts c s) = Inl e \<and> grant_refused e"
    using disk_consume_run [OF x, where pf = pf and opts = opts and c = c] validateGrant_used [OF g(2), of pf opts c "sd_wd s"] g(1) by auto
next
  fix s t :: "'w snapshot_disk" and x d and c :: consume_input
  assume x: "disk_view s = Some x" and r: "disk_consumeGrant pf opts c s = (Inr d, t)"
  then show "\<exists>y. disk_view t = Some y \<and> spent (ci_grantId c) y"
    using disk_consume_run [OF x, where pf = pf and opts = opts and c = c]
    by (auto dest!: validateGrant_run intro: use_grant_spent split: prod.splits sum.splits)
next
  fix s :: "'w snapshot_disk" and x i and u :: snapshot_upload
  assume x: "disk_view s = Some x" and "spent i x"
  then show "\<exists>y. disk_view (snd (disk_put pf opts u s)) = Some y \<and> spent i y"
    using disk_put_state [OF x, of pf opts u] by auto
next
  fix s :: "'w snapshot_disk" and x i and n :: issue_input
  assume x: "disk_view s = Some x" and "spent i x" and "\<not> op_draws (disk_put pf opts, disk_issueGrant pf opts, disk_consumeGrant pf opts) i (OpIssue n) s"
  then show "\<exists>y. disk_view (snd (disk_issueGrant pf opts n s)) = Some y \<and> spent i y"
    using disk_issue_state [OF x, where pf = pf and opts = opts and n = n] by (auto split: prod.splits sum.splits simp: spent_add_grant)
next
  fix s :: "'w snapshot_disk" and x i and c :: consume_input
  assume x: "disk_view s = Some x" and "spent i x"
  then show "\<exists>y. disk_view (snd (disk_consumeGrant pf opts c s)) = Some y \<and> spent i y"
    using disk_consume_run [OF x, where pf = pf and opts = opts and c = c] by (auto intro: spent_use_grant split: prod.splits sum.splits)
qed

end
