(* ===== verification/Snapshot_Content.thy ===== *)
theory Snapshot_Content
  imports Snapshot_Laws
begin

text \<open>
  What a download contains. Objects are named by their hash, every record names objects the store
  holds, every grant names a record it holds: \<open>contents_ok\<close>. The locale \<open>content_store\<close> extends
  the grant laws with the effect of each operation on the state and its objects, and derives which
  consumptions return and what they deliver; both stores are interpretations.
\<close>

section \<open>The invariant\<close>

definition record_ok :: "(string \<Rightarrow> bytes option) \<Rightarrow> snapshot_record \<Rightarrow> bool" where
  "record_ok objs r \<longleftrightarrow> objs (sr_archiveObject r) \<noteq> None \<and> sr_archiveObject r = so_sha256 (sr_source r) \<and>
     (case sr_patchObject r of
        None \<Rightarrow> so_patch (sr_source r) = None
      | Some n \<Rightarrow> objs n \<noteq> None \<and> (\<exists>q. so_patch (sr_source r) = Some q \<and> sp_sha256 q = n))"

definition contents_ok :: "platform \<Rightarrow> (string \<Rightarrow> bytes option) \<Rightarrow> snapshot_state \<Rightarrow> bool" where
  "contents_ok pf objs x \<longleftrightarrow> (\<forall>n b. objs n = Some b \<longrightarrow> pf_sha256 pf b = n) \<and>
     (\<forall>k r. map_of (sn_snapshots x) k = Some r \<longrightarrow> record_ok objs r) \<and>
     (\<forall>i g. map_of (sn_grants x) i = Some g \<longrightarrow>
        map_of (sn_snapshots x) (recordKey pf (gr_workspace g) (gr_snapshotId g)) \<noteq> None)"

lemma record_ok_mono: "record_ok objs r \<Longrightarrow> (\<And>n. objs n \<noteq> None \<Longrightarrow> objs' n \<noteq> None) \<Longrightarrow> record_ok objs' r"
  by (auto simp: record_ok_def split: option.splits)

lemma contents_ok_empty [simp]: "contents_ok pf (\<lambda>_. None) empty_snapshots"
  by (simp add: contents_ok_def empty_snapshots_def)

lemma contents_ok_use_grant: "contents_ok pf objs x \<Longrightarrow> contents_ok pf objs (use_grant i t x)"
  by (auto simp: contents_ok_def use_grant_def update_conv' split: option.splits if_splits)

lemma contents_ok_add_grant:
  "contents_ok pf objs x \<Longrightarrow>
   map_of (sn_snapshots x) (recordKey pf (gr_workspace g) (gr_snapshotId g)) \<noteq> None \<Longrightarrow>
   contents_ok pf objs (add_grant g x)"
  by (auto simp: contents_ok_def add_grant_def update_conv' split: if_splits)

lemma contents_ok_add_snapshot:
  assumes "contents_ok pf objs x" and "record_ok objs' r" and "\<And>n b. objs' n = Some b \<Longrightarrow> pf_sha256 pf b = n"
    and "\<And>n. objs n \<noteq> None \<Longrightarrow> objs' n \<noteq> None"
  shows "contents_ok pf objs' (add_snapshot k r x)"
  using assms record_ok_mono [of objs _ objs'] unfolding contents_ok_def add_snapshot_def
  by (simp add: update_conv')

section \<open>What a consumption delivers\<close>

definition grant_accepts :: "platform \<Rightarrow> consume_input \<Rightarrow> int \<Rightarrow> snapshot_state \<Rightarrow> bool" where
  "grant_accepts pf c t x \<longleftrightarrow> (\<exists>g e. map_of (sn_grants x) (ci_grantId c) = Some g \<and> length (ci_token c) \<le> 512 \<and>
     gr_executionId g = ci_executionId c \<and> constantTimeEqual pf (gr_tokenSha256 g) (sha256_text pf (ci_token c)) \<and>
     gr_usedAt g = None \<and> gr_expiresAt g = Some e \<and> t < e)"

definition delivered :: "platform \<Rightarrow> snapshot_download \<Rightarrow> bool" where
  "delivered pf d \<longleftrightarrow> pf_sha256 pf (dl_archive d) = so_sha256 (sr_source (dl_record d)) \<and>
     (case dl_workingTreePatch d of
        None \<Rightarrow> so_patch (sr_source (dl_record d)) = None
      | Some p \<Rightarrow> \<exists>q. so_patch (sr_source (dl_record d)) = Some q \<and> sp_sha256 q = pf_sha256 pf p)"

text \<open>The tail of both \<open>consumeGrant\<close>s: the record and its objects, or what is missing.\<close>

definition delivery :: "(string \<Rightarrow> bytes option) \<Rightarrow> exn \<Rightarrow> (string \<Rightarrow> exn) \<Rightarrow> snapshot_record option \<Rightarrow> exn + snapshot_download" where
  "delivery objs notFound missing r = (case r of
      None \<Rightarrow> Inl notFound
    | Some record \<Rightarrow> (case objs (sr_archiveObject record) of
          None \<Rightarrow> Inl (missing (sr_archiveObject record))
        | Some archive \<Rightarrow> (case sr_patchObject record of
              None \<Rightarrow> Inr \<lparr>dl_record = record, dl_archive = archive, dl_workingTreePatch = None\<rparr>
            | Some n \<Rightarrow> (case objs n of
                  None \<Rightarrow> Inl (missing n)
                | Some p \<Rightarrow> Inr \<lparr>dl_record = record, dl_archive = archive, dl_workingTreePatch = Some p\<rparr>))))"

lemma delivery_ok:
  assumes "contents_ok pf objs x" and "map_of (sn_snapshots x) k = Some r"
  shows "\<exists>d. delivery objs nf missing (Some r) = Inr d \<and> dl_record d = r \<and> delivered pf d"
proof -
  from assms have "record_ok objs r" and "\<And>n b. objs n = Some b \<Longrightarrow> pf_sha256 pf b = n"
    unfolding contents_ok_def by blast+
  then show ?thesis by (cases "sr_patchObject r") (auto simp: delivery_def delivered_def record_ok_def)
qed

lemma validateGrant_accepts:
  "(\<exists>g w'. validateGrant pf opts (map_of (sn_grants x) (ci_grantId c)) c w = (Inr g, w')) \<longleftrightarrow>
     grant_accepts pf c (fst (op_now opts w)) x"
proof
  assume "\<exists>g w'. validateGrant pf opts (map_of (sn_grants x) (ci_grantId c)) c w = (Inr g, w')"
  then obtain g w' where v: "validateGrant pf opts (map_of (sn_grants x) (ci_grantId c)) c w = (Inr g, w')" by blast
  from validateGrant_run [OF v] show "grant_accepts pf c (fst (op_now opts w)) x"
    unfolding grant_accepts_def by blast
next
  assume "grant_accepts pf c (fst (op_now opts w)) x"
  then obtain g e where "map_of (sn_grants x) (ci_grantId c) = Some g" "length (ci_token c) \<le> 512"
     "gr_executionId g = ci_executionId c" "constantTimeEqual pf (gr_tokenSha256 g) (sha256_text pf (ci_token c))"
     "gr_usedAt g = None" "gr_expiresAt g = Some e" "fst (op_now opts w) < e"
    unfolding grant_accepts_def by blast
  then have "validateGrant pf opts (map_of (sn_grants x) (ci_grantId c)) c w = (Inr g, snd (op_now opts w))"
    by (simp add: validateGrant_def run_defs)
  then show "\<exists>g w'. validateGrant pf opts (map_of (sn_grants x) (ci_grantId c)) c w = (Inr g, w')" by blast
qed

section \<open>The interface\<close>

locale content_store = grant_store put issue consume view
  for put :: "snapshot_upload \<Rightarrow> ('s, exn, snapshot_record) comp"
    and issue :: "issue_input \<Rightarrow> ('s, exn, snapshot_grant) comp"
    and consume :: "consume_input \<Rightarrow> ('s, exn, snapshot_download) comp"
    and view :: "'s \<Rightarrow> snapshot_state option" +
  fixes pf :: platform and objs :: "'s \<Rightarrow> string \<Rightarrow> bytes option" and clock :: "'s \<Rightarrow> int"
  assumes put_effect: "view s = Some x \<Longrightarrow> (case put u s of
        (Inl e, t) \<Rightarrow> view t = Some x \<and> objs t = objs s
      | (Inr r, t) \<Rightarrow> view t = Some (add_snapshot (recordKey pf (up_workspace u) (so_snapshotId (sr_source r))) r x) \<and>
          sr_source r = snapshot_source_of pf u \<and> sr_workspace r = up_workspace u \<and>
          sr_archiveObject r = pf_sha256 pf (up_archive u) \<and>
          sr_patchObject r = map_option (pf_sha256 pf) (up_workingTreePatch u) \<and>
          (\<forall>n. objs s n \<noteq> None \<longrightarrow> objs t n \<noteq> None) \<and> objs t (sr_archiveObject r) \<noteq> None \<and>
          (\<forall>n. sr_patchObject r = Some n \<longrightarrow> n \<noteq> [] \<longrightarrow> objs t n \<noteq> None) \<and>
          (\<forall>n b. objs t n = Some b \<longrightarrow> objs s n = Some b \<or> pf_sha256 pf b = n))"
    and issue_effect: "view s = Some x \<Longrightarrow> (case issue n s of
        (Inl e, t) \<Rightarrow> view t = Some x \<and> objs t = objs s
      | (Inr grant, t) \<Rightarrow> \<exists>g. view t = Some (add_grant g x) \<and> objs t = objs s \<and> gr_id g = sg_id grant \<and>
          gr_workspace g = is_workspace n \<and> gr_snapshotId g = is_snapshotId n \<and>
          gr_executionId g = is_executionId n \<and> gr_tokenSha256 g = sha256_text pf (sg_token grant) \<and>
          gr_expiresAt g = Some (sg_expiresAt grant) \<and> gr_usedAt g = None \<and>
          map_of (sn_snapshots x) (recordKey pf (is_workspace n) (is_snapshotId n)) \<noteq> None)"
    and consume_effect: "view s = Some x \<Longrightarrow> objs (snd (consume c s)) = objs s \<and>
       (if grant_accepts pf c (clock s) x then
          (\<exists>g t nf missing. map_of (sn_grants x) (ci_grantId c) = Some g \<and>
             view (snd (consume c s)) = Some (use_grant (ci_grantId c) t x) \<and>
             fst (consume c s) = delivery (objs s) nf missing
               (map_of (sn_snapshots x) (recordKey pf (gr_workspace g) (gr_snapshotId g))))
        else view (snd (consume c s)) = Some x \<and> (\<exists>e. fst (consume c s) = Inl e \<and> grant_refused e))"
begin

definition sound :: "'s \<Rightarrow> bool" where
  "sound s \<longleftrightarrow> (\<exists>x. view s = Some x \<and> contents_ok pf (objs s) x)"

lemma put_sound:
  assumes "sound s" and digest: "\<And>b. pf_sha256 pf b \<noteq> []"
  shows "sound (snd (put u s))"
proof -
  obtain x where x: "view s = Some x" "contents_ok pf (objs s) x" using assms(1) by (auto simp: sound_def)
  obtain r t where p: "put u s = (r, t)" by fastforce
  show ?thesis
  proof (cases r)
    case (Inl e)
    with put_effect [OF x(1), of u] p x show ?thesis by (simp add: sound_def)
  next
    case (Inr rec)
    with put_effect [OF x(1), of u] p have eff: "view t = Some (add_snapshot (recordKey pf (up_workspace u) (so_snapshotId (sr_source rec))) rec x)"
      and src: "sr_source rec = snapshot_source_of pf u" "sr_archiveObject rec = pf_sha256 pf (up_archive u)"
        "sr_patchObject rec = map_option (pf_sha256 pf) (up_workingTreePatch u)"
      and keep: "\<And>n. objs s n \<noteq> None \<Longrightarrow> objs t n \<noteq> None"
      and has: "objs t (sr_archiveObject rec) \<noteq> None" "\<And>n. sr_patchObject rec = Some n \<Longrightarrow> n \<noteq> [] \<Longrightarrow> objs t n \<noteq> None"
      and name: "\<And>n b. objs t n = Some b \<Longrightarrow> objs s n = Some b \<or> pf_sha256 pf b = n"
      by auto
    have "record_ok (objs t) rec"
      using src has digest by (auto simp: record_ok_def snapshot_source_of_def split: option.split)
    moreover have "pf_sha256 pf b = n" if "objs t n = Some b" for n b
      using name [OF that] x(2) unfolding contents_ok_def by blast
    ultimately have "contents_ok pf (objs t)
        (add_snapshot (recordKey pf (up_workspace u) (so_snapshotId (sr_source rec))) rec x)"
      by (intro contents_ok_add_snapshot [OF x(2) _ _ keep])
    with eff p show ?thesis by (simp add: sound_def)
  qed
qed

lemma issue_sound: "sound s \<Longrightarrow> sound (snd (issue n s))"
proof -
  assume "sound s"
  then obtain x where x: "view s = Some x" "contents_ok pf (objs s) x" by (auto simp: sound_def)
  from issue_effect [OF x(1), of n] x(2) show ?thesis
    by (auto simp: sound_def intro!: contents_ok_add_grant split: prod.splits sum.splits)
qed

lemma consume_sound: "sound s \<Longrightarrow> sound (snd (consume c s))"
proof -
  assume "sound s"
  then obtain x where x: "view s = Some x" "contents_ok pf (objs s) x" by (auto simp: sound_def)
  from consume_effect [OF x(1), of c] x(2) show ?thesis
    by (auto simp: sound_def intro: contents_ok_use_grant split: if_splits)
qed

lemma run_sound: "sound s \<Longrightarrow> (\<And>b. pf_sha256 pf b \<noteq> []) \<Longrightarrow> sound (op_run (put, issue, consume) ops s)"
proof (induction ops arbitrary: s)
  case (Cons op ops)
  then show ?case by (cases op) (auto intro: put_sound issue_sound consume_sound)
qed simp

text \<open>In a sound store a consumption returns exactly if the grant is accepted, and delivers the
  recorded contents; otherwise it is the grant that is refused.\<close>

lemma consume_outcome:
  assumes "sound s" and "view s = Some x"
  shows "case fst (consume c s) of
      Inl e \<Rightarrow> \<not> grant_accepts pf c (clock s) x \<and> grant_refused e
    | Inr d \<Rightarrow> grant_accepts pf c (clock s) x \<and> delivered pf d \<and>
        (\<exists>g. map_of (sn_grants x) (ci_grantId c) = Some g \<and>
           map_of (sn_snapshots x) (recordKey pf (gr_workspace g) (gr_snapshotId g)) = Some (dl_record d))"
proof (cases "grant_accepts pf c (clock s) x")
  case False
  with consume_effect [OF assms(2), of c] show ?thesis by auto
next
  case True
  from assms have ok: "contents_ok pf (objs s) x" by (simp add: sound_def)
  from True consume_effect [OF assms(2), of c] obtain g nf missing where
    g: "map_of (sn_grants x) (ci_grantId c) = Some g" and
    d: "fst (consume c s) = delivery (objs s) nf missing
      (map_of (sn_snapshots x) (recordKey pf (gr_workspace g) (gr_snapshotId g)))" by auto
  from ok g obtain r where r: "map_of (sn_snapshots x) (recordKey pf (gr_workspace g) (gr_snapshotId g)) = Some r"
    unfolding contents_ok_def by blast
  from delivery_ok [OF ok r, of nf missing] True g r d show ?thesis by auto
qed

text \<open>Uploading, granting and downloading in sequence returns what was uploaded.\<close>

lemma round_trip:
  assumes s: "sound s" and digest: "\<And>b. pf_sha256 pf b \<noteq> []"
    and u: "put u s = (Inr r, s1)"
    and n: "issue \<lparr>is_workspace = up_workspace u, is_snapshotId = so_snapshotId (sr_source r),
        is_executionId = ex, is_ttlSeconds = ttl\<rparr> s1 = (Inr g, s2)"
    and clock: "clock s2 < sg_expiresAt g" and len: "length (sg_token g) \<le> 512"
    and free: "\<And>b c. pf_sha256 pf b = pf_sha256 pf c \<Longrightarrow> c = up_archive u \<or> up_workingTreePatch u = Some c \<Longrightarrow> b = c"
  shows "\<exists>t. consume \<lparr>ci_grantId = sg_id g, ci_executionId = ex, ci_token = sg_token g\<rparr> s2 =
    (Inr \<lparr>dl_record = r, dl_archive = up_archive u, dl_workingTreePatch = up_workingTreePatch u\<rparr>, t)"
proof -
  let ?c = "\<lparr>ci_grantId = sg_id g, ci_executionId = ex, ci_token = sg_token g\<rparr>"
  obtain x where x: "view s = Some x" using s by (auto simp: sound_def)
  let ?k = "recordKey pf (up_workspace u) (so_snapshotId (sr_source r))"
  from put_effect [OF x, of u] u have v1: "view s1 = Some (add_snapshot ?k r x)" and src: "sr_source r = snapshot_source_of pf u"
    by auto
  from issue_effect [OF v1] n obtain gr where v2: "view s2 = Some (add_grant gr (add_snapshot ?k r x))" and
    gr: "gr_id gr = sg_id g" "gr_workspace gr = up_workspace u" "gr_snapshotId gr = so_snapshotId (sr_source r)"
      "gr_executionId gr = ex" "gr_tokenSha256 gr = sha256_text pf (sg_token g)" "gr_expiresAt gr = Some (sg_expiresAt g)"
      "gr_usedAt gr = None"
    by (fastforce split: prod.splits sum.splits)
  have s2: "sound s2"
    using issue_sound [OF put_sound [OF s digest, of u]] u n by (metis snd_conv)
  have m: "map_of (sn_grants (add_grant gr (add_snapshot ?k r x))) (sg_id g) = Some gr"
    "map_of (sn_snapshots (add_grant gr (add_snapshot ?k r x))) ?k = Some r"
    using gr by (simp_all add: add_grant_def add_snapshot_def update_conv')
  have acc: "grant_accepts pf ?c (clock s2) (add_grant gr (add_snapshot ?k r x))"
    using m gr clock len by (simp add: grant_accepts_def constantTimeEqual_def)
  from consume_outcome [OF s2 v2, of ?c] acc obtain d t where d: "consume ?c s2 = (Inr d, t)"
    by (cases "consume ?c s2") (auto split: sum.splits)
  with consume_outcome [OF s2 v2, of ?c] m gr have rec: "dl_record d = r" and del: "delivered pf d" by auto
  have free': "\<And>b c. pf_sha256 pf c = pf_sha256 pf b \<Longrightarrow> c = up_archive u \<or> up_workingTreePatch u = Some c \<Longrightarrow> b = c"
    using free by metis
  from del rec src have "dl_archive d = up_archive u"
    by (auto simp: delivered_def snapshot_source_of_def intro: free)
  moreover from del rec src have "dl_workingTreePatch d = up_workingTreePatch u"
    by (auto simp: delivered_def snapshot_source_of_def intro: free' split: option.splits)
  ultimately show ?thesis using rec d by (cases d) auto
qed

end

section \<open>The in-memory store delivers what it holds\<close>

lemma prepareSnapshot_run:
  "prepareSnapshot pf opts u w = (Inr (r, a, p), w') \<Longrightarrow>
     a = up_archive u \<and> p = up_workingTreePatch u \<and> sr_source r = snapshot_source_of pf u \<and>
     sr_workspace r = up_workspace u \<and> sr_archiveObject r = pf_sha256 pf (up_archive u) \<and>
     sr_patchObject r = map_option (pf_sha256 pf) (up_workingTreePatch u)"
  by (auto simp: prepareSnapshot_def run_defs split: sum.splits)

lemma mem_put_run:
  "mem_put pf opts u s = (case prepareSnapshot pf opts u (sm_wd s) of
      (Inl e, w) \<Rightarrow> (Inl e, s\<lparr>sm_wd := w\<rparr>)
    | (Inr (r, a, p), w) \<Rightarrow> (Inr r, s\<lparr>sm_wd := w,
        sm_objects := (case (p, sr_patchObject r) of
          (Some p', Some n) \<Rightarrow> if n \<noteq> [] then AList.update n p' (AList.update (sr_archiveObject r) a (sm_objects s))
            else AList.update (sr_archiveObject r) a (sm_objects s)
        | _ \<Rightarrow> AList.update (sr_archiveObject r) a (sm_objects s)),
        sm_state := add_snapshot (recordKey pf (up_workspace u) (so_snapshotId (sr_source r))) r (sm_state s)\<rparr>))"
  by (simp add: mem_put_def run_defs sm_call_def putObject_def split: prod.split sum.split option.split)

lemma requiredObject_run:
  "requiredObject n s = (case map_of (sm_objects s) n of
     None \<Rightarrow> (Inl (SnapError SnapshotNotFound ''Snapshot content is missing.''), s)
   | Some content \<Rightarrow> (Inr content, s))"
  by (simp add: requiredObject_def run_defs split: option.split)

lemma use_grant_snapshots [simp]: "sn_snapshots (use_grant i t x) = sn_snapshots x"
  by (simp add: use_grant_def)

lemma mem_consume_eq:
  "mem_consumeGrant pf opts c s =
     (case validateGrant pf opts (map_of (sn_grants (sm_state s)) (ci_grantId c)) c (sm_wd s) of
        (Inl e, w) \<Rightarrow> (Inl e, s\<lparr>sm_wd := w\<rparr>)
      | (Inr g, w) \<Rightarrow>
          (delivery (map_of (sm_objects s)) (snapshotNotFound (gr_workspace g) (gr_snapshotId g))
             (\<lambda>_. SnapError SnapshotNotFound ''Snapshot content is missing.'')
             (map_of (sn_snapshots (sm_state s)) (recordKey pf (gr_workspace g) (gr_snapshotId g))),
           s\<lparr>sm_wd := snd (op_now opts w),
             sm_state := use_grant (ci_grantId c) (fst (op_now opts w)) (sm_state s)\<rparr>))"
proof -
  obtain r w where v: "validateGrant pf opts (map_of (sn_grants (sm_state s)) (ci_grantId c)) c (sm_wd s) = (r, w)"
    by fastforce
  show ?thesis
  proof (cases r)
    case (Inl e)
    with v show ?thesis by (simp add: mem_consumeGrant_def run_defs sm_call_def)
  next
    case (Inr g)
    with v show ?thesis
      by (simp add: mem_consumeGrant_def bindE_def thenE_def draw_def gets_def ret_def throw_def modify_def
          sm_call_def mem_get_def requiredObject_run delivery_def split: option.split)
  qed
qed

interpretation mem_content: content_store "mem_put pf opts" "mem_issueGrant pf opts" "mem_consumeGrant pf opts"
    "\<lambda>s. Some (sm_state s)" pf "\<lambda>s. map_of (sm_objects s)" "\<lambda>s. fst (op_now opts (sm_wd s))"
  for pf and opts :: "'w snapshot_options"
proof unfold_locales
  fix s :: "'w snapshot_mem" and x and u :: snapshot_upload
  assume x: "Some (sm_state s) = Some x"
  obtain r w where p: "prepareSnapshot pf opts u (sm_wd s) = (r, w)" by fastforce
  show "case mem_put pf opts u s of
        (Inl e, t) \<Rightarrow> Some (sm_state t) = Some x \<and> map_of (sm_objects t) = map_of (sm_objects s)
      | (Inr r, t) \<Rightarrow> Some (sm_state t) = Some (add_snapshot (recordKey pf (up_workspace u) (so_snapshotId (sr_source r))) r x) \<and>
          sr_source r = snapshot_source_of pf u \<and> sr_workspace r = up_workspace u \<and>
          sr_archiveObject r = pf_sha256 pf (up_archive u) \<and>
          sr_patchObject r = map_option (pf_sha256 pf) (up_workingTreePatch u) \<and>
          (\<forall>n. map_of (sm_objects s) n \<noteq> None \<longrightarrow> map_of (sm_objects t) n \<noteq> None) \<and>
          map_of (sm_objects t) (sr_archiveObject r) \<noteq> None \<and>
          (\<forall>n. sr_patchObject r = Some n \<longrightarrow> n \<noteq> [] \<longrightarrow> map_of (sm_objects t) n \<noteq> None) \<and>
          (\<forall>n b. map_of (sm_objects t) n = Some b \<longrightarrow> map_of (sm_objects s) n = Some b \<or> pf_sha256 pf b = n)"
  proof (cases r)
    case (Inl e)
    with p x show ?thesis by (simp add: mem_put_run)
  next
    case (Inr v)
    obtain rec a q where v: "v = (rec, a, q)" by (cases v)
    from prepareSnapshot_run [OF p [unfolded Inr v]] p Inr v x show ?thesis
      by (cases "up_workingTreePatch u") (auto simp: mem_put_run update_conv')
  qed
next
  fix s :: "'w snapshot_mem" and x and n :: issue_input
  assume "Some (sm_state s) = Some x"
  then show "case mem_issueGrant pf opts n s of
        (Inl e, t) \<Rightarrow> Some (sm_state t) = Some x \<and> map_of (sm_objects t) = map_of (sm_objects s)
      | (Inr grant, t) \<Rightarrow> \<exists>g. Some (sm_state t) = Some (add_grant g x) \<and> map_of (sm_objects t) = map_of (sm_objects s) \<and>
          gr_id g = sg_id grant \<and> gr_workspace g = is_workspace n \<and> gr_snapshotId g = is_snapshotId n \<and>
          gr_executionId g = is_executionId n \<and> gr_tokenSha256 g = sha256_text pf (sg_token grant) \<and>
          gr_expiresAt g = Some (sg_expiresAt grant) \<and> gr_usedAt g = None \<and>
          map_of (sn_snapshots x) (recordKey pf (is_workspace n) (is_snapshotId n)) \<noteq> None"
    by (auto simp: mem_issueGrant_def mem_get_def run_defs sm_call_def elim!: createGrant_run
        split: prod.splits sum.splits option.splits)
next
  fix s :: "'w snapshot_mem" and x and c :: consume_input
  assume x: "Some (sm_state s) = Some x"
  obtain r w where v: "validateGrant pf opts (map_of (sn_grants x) (ci_grantId c)) c (sm_wd s) = (r, w)" by fastforce
  from validateGrant_accepts [of pf opts x c "sm_wd s"] v
  have acc: "grant_accepts pf c (fst (op_now opts (sm_wd s))) x \<longleftrightarrow> (\<exists>g. r = Inr g)" by auto
  show "map_of (sm_objects (snd (mem_consumeGrant pf opts c s))) = map_of (sm_objects s) \<and>
       (if grant_accepts pf c (fst (op_now opts (sm_wd s))) x then
          (\<exists>g t nf missing. map_of (sn_grants x) (ci_grantId c) = Some g \<and>
             Some (sm_state (snd (mem_consumeGrant pf opts c s))) = Some (use_grant (ci_grantId c) t x) \<and>
             fst (mem_consumeGrant pf opts c s) = delivery (map_of (sm_objects s)) nf missing
               (map_of (sn_snapshots x) (recordKey pf (gr_workspace g) (gr_snapshotId g))))
        else Some (sm_state (snd (mem_consumeGrant pf opts c s))) = Some x \<and>
          (\<exists>e. fst (mem_consumeGrant pf opts c s) = Inl e \<and> grant_refused e))"
  proof (cases r)
    case (Inl e)
    with acc x v validateGrant_error [OF v [unfolded Inl]] show ?thesis by (auto simp: mem_consume_eq)
  next
    case (Inr g)
    with acc x v validateGrant_run [OF v [unfolded Inr]] show ?thesis by (auto simp: mem_consume_eq)
  qed
qed

section \<open>The file store delivers what it holds\<close>

definition keep_object :: "string \<Rightarrow> bytes \<Rightarrow> (string \<times> bytes) list \<Rightarrow> (string \<times> bytes) list" where
  "keep_object n b os = (case map_of os n of Some _ \<Rightarrow> os | None \<Rightarrow> AList.update n b os)"

lemma map_of_keep_object [simp]:
  "map_of (keep_object n b os) m = (if m = n \<and> map_of os n = None then Some b else map_of os m)"
  by (auto simp: keep_object_def update_conv' split: option.split)

lemma writeObject_run: "writeObject n b s = (Inr (), s\<lparr>sd_objects := keep_object n b (sd_objects s)\<rparr>)"
  by (simp add: writeObject_def keep_object_def modify_def split: option.split)

lemma disk_put_run:
  assumes x: "disk_view s = Some x"
  shows "disk_put pf opts u s = (case prepareSnapshot pf opts u (sd_wd s) of
      (Inl e, w) \<Rightarrow> (Inl e, s\<lparr>sd_wd := w\<rparr>)
    | (Inr (r, a, p), w) \<Rightarrow> (Inr r, s\<lparr>sd_wd := w,
        sd_objects := (case (p, sr_patchObject r) of
          (Some p', Some n) \<Rightarrow> if n \<noteq> [] then keep_object n p' (keep_object (sr_archiveObject r) a (sd_objects s))
            else keep_object (sr_archiveObject r) a (sd_objects s)
        | _ \<Rightarrow> keep_object (sr_archiveObject r) a (sd_objects s)),
        sd_file := StateFile (add_snapshot (recordKey pf (up_workspace u) (so_snapshotId (sr_source r))) r x)\<rparr>))"
proof -
  obtain r w where p: "prepareSnapshot pf opts u (sd_wd s) = (r, w)" by fastforce
  show ?thesis
  proof (cases r)
    case (Inl e)
    with p show ?thesis by (simp add: disk_put_def run_defs sd_call_def)
  next
    case (Inr v)
    obtain rec a q where v: "v = (rec, a, q)" by (cases v)
    show ?thesis
      using p Inr v x by (cases q; cases "sr_patchObject rec")
        (simp_all add: disk_put_def bindE_def thenE_def sd_call_def writeObject_run ret_def readState_run writeState_def modify_def)
  qed
qed

lemma disk_consume_eq:
  assumes x: "disk_view s = Some x"
  shows "disk_consumeGrant pf opts c s =
     (case validateGrant pf opts (map_of (sn_grants x) (ci_grantId c)) c (sd_wd s) of
        (Inl e, w) \<Rightarrow> (Inl e, s\<lparr>sd_wd := w\<rparr>)
      | (Inr g, w) \<Rightarrow>
          (delivery (map_of (sd_objects s)) (snapshotNotFound (gr_workspace g) (gr_snapshotId g))
             (\<lambda>n. JsError (Some ''ENOENT'') (''ENOENT: no such file or directory, open '' @ n))
             (map_of (sn_snapshots x) (recordKey pf (gr_workspace g) (gr_snapshotId g))),
           s\<lparr>sd_wd := snd (op_now opts w),
             sd_file := StateFile (use_grant (ci_grantId c) (fst (op_now opts w)) x)\<rparr>))"
proof -
  obtain r w where v: "validateGrant pf opts (map_of (sn_grants x) (ci_grantId c)) c (sd_wd s) = (r, w)" by fastforce
  show ?thesis
  proof (cases r)
    case (Inl e)
    with v readState_run [OF x] show ?thesis by (simp add: disk_consumeGrant_def run_defs sd_call_def)
  next
    case (Inr g)
    with v readState_run [OF x] show ?thesis
      by (cases "map_of (sn_snapshots x) (recordKey pf (gr_workspace g) (gr_snapshotId g))")
        (simp_all add: disk_consumeGrant_def bindE_def thenE_def draw_def gets_def ret_def throw_def modify_def
          sd_call_def writeState_def readObject_run delivery_def split: option.split)
  qed
qed

interpretation disk_content: content_store "disk_put pf opts" "disk_issueGrant pf opts" "disk_consumeGrant pf opts"
    disk_view pf "\<lambda>s. map_of (sd_objects s)" "\<lambda>s. fst (op_now opts (sd_wd s))"
  for pf and opts :: "'w snapshot_options"
proof unfold_locales
  fix s :: "'w snapshot_disk" and x and u :: snapshot_upload
  assume x: "disk_view s = Some x"
  obtain r w where p: "prepareSnapshot pf opts u (sd_wd s) = (r, w)" by fastforce
  show "case disk_put pf opts u s of
        (Inl e, t) \<Rightarrow> disk_view t = Some x \<and> map_of (sd_objects t) = map_of (sd_objects s)
      | (Inr r, t) \<Rightarrow> disk_view t = Some (add_snapshot (recordKey pf (up_workspace u) (so_snapshotId (sr_source r))) r x) \<and>
          sr_source r = snapshot_source_of pf u \<and> sr_workspace r = up_workspace u \<and>
          sr_archiveObject r = pf_sha256 pf (up_archive u) \<and>
          sr_patchObject r = map_option (pf_sha256 pf) (up_workingTreePatch u) \<and>
          (\<forall>n. map_of (sd_objects s) n \<noteq> None \<longrightarrow> map_of (sd_objects t) n \<noteq> None) \<and>
          map_of (sd_objects t) (sr_archiveObject r) \<noteq> None \<and>
          (\<forall>n. sr_patchObject r = Some n \<longrightarrow> n \<noteq> [] \<longrightarrow> map_of (sd_objects t) n \<noteq> None) \<and>
          (\<forall>n b. map_of (sd_objects t) n = Some b \<longrightarrow> map_of (sd_objects s) n = Some b \<or> pf_sha256 pf b = n)"
  proof (cases r)
    case (Inl e)
    with p x show ?thesis by (simp add: disk_put_run)
  next
    case (Inr v)
    obtain rec a q where v: "v = (rec, a, q)" by (cases v)
    from prepareSnapshot_run [OF p [unfolded Inr v]] p Inr v x show ?thesis
      by (cases "up_workingTreePatch u") (auto simp: disk_put_run split: if_splits)
  qed
next
  fix s :: "'w snapshot_disk" and x and n :: issue_input
  assume x: "disk_view s = Some x"
  then show "case disk_issueGrant pf opts n s of
        (Inl e, t) \<Rightarrow> disk_view t = Some x \<and> map_of (sd_objects t) = map_of (sd_objects s)
      | (Inr grant, t) \<Rightarrow> \<exists>g. disk_view t = Some (add_grant g x) \<and> map_of (sd_objects t) = map_of (sd_objects s) \<and>
          gr_id g = sg_id grant \<and> gr_workspace g = is_workspace n \<and> gr_snapshotId g = is_snapshotId n \<and>
          gr_executionId g = is_executionId n \<and> gr_tokenSha256 g = sha256_text pf (sg_token grant) \<and>
          gr_expiresAt g = Some (sg_expiresAt grant) \<and> gr_usedAt g = None \<and>
          map_of (sn_snapshots x) (recordKey pf (is_workspace n) (is_snapshotId n)) \<noteq> None"
    using readState_run [OF x]
    by (auto simp: disk_issueGrant_def writeState_def run_defs sd_call_def elim!: createGrant_run
        split: prod.splits sum.splits option.splits)
next
  fix s :: "'w snapshot_disk" and x and c :: consume_input
  assume x: "disk_view s = Some x"
  obtain r w where v: "validateGrant pf opts (map_of (sn_grants x) (ci_grantId c)) c (sd_wd s) = (r, w)" by fastforce
  from validateGrant_accepts [of pf opts x c "sd_wd s"] v
  have acc: "grant_accepts pf c (fst (op_now opts (sd_wd s))) x \<longleftrightarrow> (\<exists>g. r = Inr g)" by auto
  show "map_of (sd_objects (snd (disk_consumeGrant pf opts c s))) = map_of (sd_objects s) \<and>
       (if grant_accepts pf c (fst (op_now opts (sd_wd s))) x then
          (\<exists>g t nf missing. map_of (sn_grants x) (ci_grantId c) = Some g \<and>
             disk_view (snd (disk_consumeGrant pf opts c s)) = Some (use_grant (ci_grantId c) t x) \<and>
             fst (disk_consumeGrant pf opts c s) = delivery (map_of (sd_objects s)) nf missing
               (map_of (sn_snapshots x) (recordKey pf (gr_workspace g) (gr_snapshotId g))))
        else disk_view (snd (disk_consumeGrant pf opts c s)) = Some x \<and>
          (\<exists>e. fst (disk_consumeGrant pf opts c s) = Inl e \<and> grant_refused e))"
  proof (cases r)
    case (Inl e)
    with acc x v validateGrant_error [OF v [unfolded Inl]] show ?thesis by (auto simp: disk_consume_eq)
  next
    case (Inr g)
    with acc x v validateGrant_run [OF v [unfolded Inr]] show ?thesis by (auto simp: disk_consume_eq)
  qed
qed

end
