(* ===== verification/Snapshot_Properties.thy ===== *)
theory Snapshot_Properties
  imports Snapshot_Content Scenario
begin

text \<open>
  The properties of the snapshot store and its grants, with the file store as the deployed one, and
  its refinement of the in-memory store. The witnesses upload a one-byte archive, whose digest the
  scenario's platform separates from every other.
\<close>

abbreviation disk_ops :: "platform \<Rightarrow> 'w snapshot_options \<Rightarrow> 'w snapshot_disk snapshot_ops" where
  "disk_ops pf opts \<equiv> (disk_put pf opts, disk_issueGrant pf opts, disk_consumeGrant pf opts)"

section \<open>The scenario\<close>

definition snap_pf :: platform where
  "snap_pf = demo_pf\<lparr>pf_sha256 := \<lambda>b. if b = [7] then ''a7'' else CHR ''h'' # nat_str (sum_list b)\<rparr>"

definition snap_token :: string where
  "snap_token = ''0123456789abcdef''"

lemma snap_token_length [simp]: "length snap_token = 16"
  by (simp add: snap_token_def)

definition snap_opts :: "nat snapshot_options" where
  "snap_opts = \<lparr>op_maxSnapshotBytes = 10, op_maxPatchBytes = 10, op_now = (\<lambda>n. (1000 + int n, n)),
     op_idFactory = (\<lambda>n. (nat_str n, Suc n)), op_tokenFactory = (\<lambda>n. (snap_token, Suc n))\<rparr>"

definition snap_upload :: snapshot_upload where
  "snap_upload = \<lparr>up_workspace = ''w'', up_baseCommit = ''abcdef0'', up_archive = [7], up_repository = None,
     up_branch = None, up_workingTreePatch = None\<rparr>"

definition snap_disk :: "nat snapshot_disk" where
  "snap_disk = \<lparr>sd_file = NoFile, sd_objects = [], sd_wd = 0\<rparr>"

definition snap_rec :: snapshot_record where
  "snap_rec = \<lparr>sr_workspace = ''w'', sr_source = snapshot_source_of snap_pf snap_upload,
     sr_archiveObject = ''a7'', sr_patchObject = None, sr_createdAt = 1000\<rparr>"

definition snap_key :: string where
  "snap_key = recordKey snap_pf ''w'' (so_snapshotId (sr_source snap_rec))"

definition snap_issue :: issue_input where
  "snap_issue = \<lparr>is_workspace = ''w'', is_snapshotId = so_snapshotId (sr_source snap_rec),
     is_executionId = ''e'', is_ttlSeconds = None\<rparr>"

definition snap_stored :: "nat snapshot_disk" where
  "snap_stored = \<lparr>sd_file = StateFile (add_snapshot snap_key snap_rec empty_snapshots), sd_objects = [(''a7'', [7])],
     sd_wd = 0\<rparr>"

definition snap_grant :: snapshot_grant where
  "snap_grant = \<lparr>sg_id = ''grant_0'', sg_snapshotId = so_snapshotId (sr_source snap_rec), sg_executionId = ''e'',
     sg_workspace = ''w'', sg_token = snap_token, sg_expiresAt = 301002\<rparr>"

lemma snap_pf_sha [simp]:
  "pf_sha256 snap_pf b = (if b = [7] then ''a7'' else CHR ''h'' # nat_str (sum_list b))"
  by (simp add: snap_pf_def)

lemma snap_disk_view [simp]: "disk_view snap_disk = Some empty_snapshots"
  by (simp add: snap_disk_def disk_view_def)

lemma snap_put [simp]: "disk_put snap_pf snap_opts snap_upload snap_disk = (Inr snap_rec, snap_stored)"
proof -
  have h: "hex_text 7 64 ''abcdef0''" by code_simp
  have "js_trim ''w'' = ''w''" by code_simp
  with h have "prepareSnapshot snap_pf snap_opts snap_upload (sd_wd snap_disk) = (Inr (snap_rec, [7], None), 0)"
    by (simp add: prepareSnapshot_def run_defs validateUpload_def snap_upload_def snap_opts_def snap_rec_def snap_disk_def)
  then show ?thesis
    unfolding disk_put_run [OF snap_disk_view]
    by (simp add: snap_stored_def snap_disk_def keep_object_def snap_key_def snap_rec_def snap_upload_def)
qed

lemma snap_grant_nat [simp]: "nat_str 0 = ''0''"
  by code_simp

lemma snap_view [simp]: "disk_view snap_stored = Some (add_snapshot snap_key snap_rec empty_snapshots)"
  by (simp add: snap_stored_def disk_view_def)

definition snap_granted :: "nat snapshot_disk" where
  "snap_granted = snap_stored\<lparr>sd_wd := 2, sd_file := StateFile (add_grant
     \<lparr>gr_id = ''grant_0'', gr_snapshotId = so_snapshotId (sr_source snap_rec), gr_executionId = ''e'',
      gr_workspace = ''w'', gr_expiresAt = Some 301002, gr_tokenSha256 = sha256_text snap_pf snap_token, gr_usedAt = None\<rparr>
     (add_snapshot snap_key snap_rec empty_snapshots))\<rparr>"

lemma snap_issued [simp]: "disk_issueGrant snap_pf snap_opts snap_issue snap_stored = (Inr snap_grant, snap_granted)"
proof -
  have "sanitizeId ''0'' = ''0''" using sanitizeId_nat_str [of 0] by simp
  then have "createGrant snap_pf snap_opts snap_issue 0 = (Inr (snap_grant,
    \<lparr>gr_id = ''grant_0'', gr_snapshotId = so_snapshotId (sr_source snap_rec), gr_executionId = ''e'',
      gr_workspace = ''w'', gr_expiresAt = Some 301002, gr_tokenSha256 = sha256_text snap_pf snap_token, gr_usedAt = None\<rparr>), 2)"
    by (simp add: createGrant_def run_defs snap_issue_def snap_opts_def snap_grant_def DEFAULT_GRANT_TTL_SECONDS_def
        Let_def safe_integer_def num_int_def max_safe_def)
  then show ?thesis
    using readState_run [OF snap_view]
    by (simp add: disk_issueGrant_def run_defs sd_call_def snap_issue_def snap_key_def add_snapshot_def writeState_def update_conv'
        snap_granted_def snap_stored_def)
qed

section \<open>Grants\<close>

text \<open>C16: A source grant is good for one download: once \<open>consumeGrant\<close> of the file store has returned for
  a grant, every later attempt with its id is refused with a grant error, whatever uploads, issues
  and downloads happened in between, as long as the id factory does not give the id to a new grant.\<close>

theorem grant_single_use:
  assumes "disk_view s \<noteq> None" and "disk_consumeGrant pf opts c s = (Inr d, t)"
    and "never_draws (disk_ops pf opts) (ci_grantId c) ops t" and "ci_grantId c' = ci_grantId c"
  shows "\<exists>e. fst (disk_consumeGrant pf opts c' (op_run (disk_ops pf opts) ops t)) = Inl e \<and> grant_refused e"
  using assms disk_grants.single_use by blast

definition snap_consume :: consume_input where
  "snap_consume = \<lparr>ci_grantId = ''grant_0'', ci_executionId = ''e'', ci_token = snap_token\<rparr>"

lemma snap_contents: "contents_ok snap_pf (map_of (sd_objects snap_disk)) empty_snapshots"
  by (simp add: snap_disk_def)

text \<open>Uploading a snapshot, granting it to an execution and downloading it with the grant's token
  before the grant expires returns the record of the upload and, byte for byte, its archive and its
  patch, provided no other content has their digest. The file store may hold any other snapshots
  and grants.\<close>

theorem snapshot_round_trip:
  assumes "disk_view s = Some x" and "contents_ok pf (map_of (sd_objects s)) x" and "\<And>b. pf_sha256 pf b \<noteq> []"
    and "disk_put pf opts u s = (Inr r, s1)"
    and "disk_issueGrant pf opts \<lparr>is_workspace = up_workspace u, is_snapshotId = so_snapshotId (sr_source r),
        is_executionId = ex, is_ttlSeconds = ttl\<rparr> s1 = (Inr g, s2)"
    and "fst (op_now opts (sd_wd s2)) < sg_expiresAt g" and "length (sg_token g) \<le> 512"
    and "\<And>b c. pf_sha256 pf b = pf_sha256 pf c \<Longrightarrow> c = up_archive u \<or> up_workingTreePatch u = Some c \<Longrightarrow> b = c"
  shows "\<exists>t. disk_consumeGrant pf opts \<lparr>ci_grantId = sg_id g, ci_executionId = ex, ci_token = sg_token g\<rparr> s2 =
    (Inr \<lparr>dl_record = r, dl_archive = up_archive u, dl_workingTreePatch = up_workingTreePatch u\<rparr>, t)"
proof -
  from assms(1,2) have "disk_content.sound pf s" by (auto simp: disk_content.sound_def)
  from disk_content.round_trip [OF this assms(3-8)] show ?thesis .
qed

lemma snap_free:
  "pf_sha256 snap_pf b = pf_sha256 snap_pf c \<Longrightarrow> c = up_archive snap_upload \<or> up_workingTreePatch snap_upload = Some c \<Longrightarrow> b = c"
  by (auto simp: snap_upload_def split: if_splits)

lemma snap_digest: "pf_sha256 snap_pf b \<noteq> []"
  by simp

lemma snap_issue_eq: "disk_issueGrant snap_pf snap_opts \<lparr>is_workspace = up_workspace snap_upload,
    is_snapshotId = so_snapshotId (sr_source snap_rec), is_executionId = ''e'', is_ttlSeconds = None\<rparr> snap_stored =
  (Inr snap_grant, snap_granted)"
  using snap_issued by (simp only: snap_issue_def snap_upload_def snapshot_upload.simps)

lemma snap_grant_sel [simp]: "sg_expiresAt snap_grant = 301002" "sg_token snap_grant = snap_token" "sg_id snap_grant = ''grant_0''"
  by (simp_all add: snap_grant_def)

lemma snap_granted_clock [simp]: "fst (op_now snap_opts (sd_wd snap_granted)) = 1002"
  by (simp add: snap_opts_def snap_granted_def)

theorem snapshot_round_trip_witness:
  "\<exists>t. disk_consumeGrant snap_pf snap_opts \<lparr>ci_grantId = sg_id snap_grant, ci_executionId = ''e'', ci_token = sg_token snap_grant\<rparr>
      snap_granted =
    (Inr \<lparr>dl_record = snap_rec, dl_archive = up_archive snap_upload, dl_workingTreePatch = up_workingTreePatch snap_upload\<rparr>, t)"
  by (rule snapshot_round_trip [OF snap_disk_view snap_contents snap_digest snap_put snap_issue_eq _ _ snap_free])
    (simp_all del: snap_pf_sha)

lemma snap_consumed:
  "\<exists>d t. disk_consumeGrant snap_pf snap_opts snap_consume snap_granted = (Inr d, t)"
proof -
  have s: "disk_content.sound snap_pf snap_disk"
    using snap_contents by (auto simp: disk_content.sound_def)
  have "\<exists>t. disk_consumeGrant snap_pf snap_opts \<lparr>ci_grantId = sg_id snap_grant, ci_executionId = ''e'', ci_token = sg_token snap_grant\<rparr>
      snap_granted =
    (Inr \<lparr>dl_record = snap_rec, dl_archive = up_archive snap_upload, dl_workingTreePatch = up_workingTreePatch snap_upload\<rparr>, t)"
    by (rule disk_content.round_trip [OF s snap_digest snap_put snap_issue_eq _ _ snap_free]) (simp_all del: snap_pf_sha)
  then show ?thesis by (auto simp: snap_consume_def)
qed

theorem grant_single_use_witness:
  "\<exists>d t. disk_consumeGrant snap_pf snap_opts snap_consume snap_granted = (Inr d, t) \<and>
     (\<exists>e. fst (disk_consumeGrant snap_pf snap_opts snap_consume
         (op_run (disk_ops snap_pf snap_opts) [OpPut snap_upload] t)) = Inl e \<and> grant_refused e)"
proof -
  obtain d t where r: "disk_consumeGrant snap_pf snap_opts snap_consume snap_granted = (Inr d, t)"
    using snap_consumed by blast
  have v: "disk_view snap_granted \<noteq> None" by (simp add: snap_granted_def)
  have "never_draws (disk_ops snap_pf snap_opts) (ci_grantId snap_consume) [OpPut snap_upload] t" by simp
  from r grant_single_use [OF v r this HOL.refl] show ?thesis by blast
qed

text \<open>C17: Starting from an empty file store, after any uploads, issues and downloads, an attempt to
  download returns exactly if its grant exists, is bound to the caller's execution, has the
  caller's token, was not used and has not expired; then the archive and the patch have the digests
  of the record the grant names. Otherwise the error is a grant error: content is never missing.\<close>

theorem download_decision:
  assumes "sd_file s0 = NoFile" and "sd_objects s0 = []" and "\<And>b. pf_sha256 pf b \<noteq> []"
    and "s = op_run (disk_ops pf opts) ops s0"
  shows "\<exists>x. disk_view s = Some x \<and> (case fst (disk_consumeGrant pf opts c s) of
      Inl e \<Rightarrow> \<not> grant_accepts pf c (fst (op_now opts (sd_wd s))) x \<and> grant_refused e
    | Inr d \<Rightarrow> grant_accepts pf c (fst (op_now opts (sd_wd s))) x \<and> delivered pf d \<and>
        (\<exists>g. map_of (sn_grants x) (ci_grantId c) = Some g \<and>
           map_of (sn_snapshots x) (recordKey pf (gr_workspace g) (gr_snapshotId g)) = Some (dl_record d)))"
proof -
  have "disk_content.sound pf s0"
    using assms(1,2) by (simp add: disk_content.sound_def disk_view_def)
  from disk_content.run_sound [OF this assms(3), where opts = opts and ops = ops] assms(4) have s: "disk_content.sound pf s" by simp
  then obtain x where x: "disk_view s = Some x" by (auto simp: disk_content.sound_def)
  from disk_content.consume_outcome [OF s x, where opts = opts and c = c] x show ?thesis by blast
qed

theorem download_decision_witness:
  "\<exists>x. disk_view snap_disk = Some x \<and> (case fst (disk_consumeGrant snap_pf snap_opts snap_consume snap_disk) of
      Inl e \<Rightarrow> \<not> grant_accepts snap_pf snap_consume (fst (op_now snap_opts (sd_wd snap_disk))) x \<and> grant_refused e
    | Inr d \<Rightarrow> grant_accepts snap_pf snap_consume (fst (op_now snap_opts (sd_wd snap_disk))) x \<and> delivered snap_pf d \<and>
        (\<exists>g. map_of (sn_grants x) (ci_grantId snap_consume) = Some g \<and>
           map_of (sn_snapshots x) (recordKey snap_pf (gr_workspace g) (gr_snapshotId g)) = Some (dl_record d)))"
  by (rule download_decision [where ops = "[]" and s0 = snap_disk]) (simp_all add: snap_disk_def)

lemma disk_issue_run:
  assumes "disk_view s = Some x" and "disk_issueGrant pf opts n s = (Inr grant, t)"
  shows "\<exists>g w. createGrant pf opts n (sd_wd s) = (Inr (grant, g), w) \<and> disk_view t = Some (add_grant g x)"
  using readState_run [OF assms(1)] assms(2)
  by (auto simp: disk_issueGrant_def writeState_def run_defs sd_call_def split: prod.splits sum.splits option.splits)

text \<open>The access a broker prepares for an execution: for a source that is no snapshot none, and nothing
  happens; otherwise a grant is on record that is bound to the execution and the snapshot, unused,
  stores only the digest of the token handed out, and expires the requested time to live after the
  clock's reading, which is at most the broker's limit and at most 900 seconds. If issuing fails,
  the state is as it was.\<close>

theorem prepared_access:
  assumes "disk_view s = Some x"
  shows "case prepareAccess pf (disk_issueGrant pf opts) br ex workspace src ttl s of
      (Inl _, t) \<Rightarrow> disk_view t = Some x
    | (Inr None, t) \<Rightarrow> jget src ''kind'' \<noteq> JStr ''snapshot'' \<and> t = s
    | (Inr (Some a), t) \<Rightarrow> \<exists>g e w. disk_view t = Some (add_grant g x) \<and> gr_id g = sa_grantId a \<and>
        gr_executionId g = ex \<and> gr_workspace g = workspace \<and> gr_snapshotId g = js_str (jget src ''snapshotId'') \<and>
        gr_usedAt g = None \<and> gr_tokenSha256 g = sha256_text pf (sa_token a) \<and>
        gr_expiresAt g = Some e \<and> sa_expiresAt a = pf_iso pf e \<and>
        e = fst (op_now opts w) + 1000 * min ttl (br_grantTtlSeconds br) \<and> min ttl (br_grantTtlSeconds br) \<in> {1..900}"
proof (cases "jget src ''kind'' = JStr ''snapshot''")
  case False
  then show ?thesis by (simp add: prepareAccess_def ret_def)
next
  case True
  let ?n = "\<lparr>is_workspace = workspace, is_snapshotId = js_str (jget src ''snapshotId''), is_executionId = ex,
    is_ttlSeconds = Some (num_of_int (min ttl (br_grantTtlSeconds br)))\<rparr>"
  obtain r t where i: "disk_issueGrant pf opts ?n s = (r, t)" by fastforce
  show ?thesis
  proof (cases r)
    case (Inl e)
    with True i disk_content.issue_effect [OF assms, where pf = pf and opts = opts and n = ?n] show ?thesis
      by (simp add: prepareAccess_def bindE_def)
  next
    case (Inr grant)
    with i disk_issue_run [OF assms] obtain g w where
      g: "createGrant pf opts ?n (sd_wd s) = (Inr (grant, g), w)" "disk_view t = Some (add_grant g x)" by blast
    have run: "prepareAccess pf (disk_issueGrant pf opts) br ex workspace src ttl s =
      (Inr (Some \<lparr>sa_kind = ''control-plane-grant'',
          sa_endpoint = br_baseUrl br @ ''/v1/source-grants/'' @ pf_uri_enc pf (sg_id grant),
          sa_grantId = sg_id grant, sa_token = sg_token grant, sa_expiresAt = pf_iso pf (sg_expiresAt grant)\<rparr>), t)"
      using True i Inr by (simp add: prepareAccess_def bindE_def ret_def)
    from g(1) show ?thesis
    proof (rule createGrant_run)
      fix T k
      assume *: "k = (case is_ttlSeconds ?n of Some n \<Rightarrow> num_int n | None \<Rightarrow> 300)" "1 \<le> k" "k \<le> 900"
        "sg_expiresAt grant = T + k * 1000" "gr_expiresAt g = Some (sg_expiresAt grant)" "gr_id g = sg_id grant"
        "gr_tokenSha256 g = sha256_text pf (sg_token grant)" "gr_usedAt g = None"
        "gr_executionId g = is_executionId ?n" "gr_workspace g = is_workspace ?n" "gr_snapshotId g = is_snapshotId ?n"
        "\<exists>y z. op_now opts z = (T, y) \<and> w = y"
      then obtain z where "fst (op_now opts z) = T" by (metis fst_conv)
      with * g(2) show ?thesis unfolding run by (auto intro!: exI [of _ g] exI [of _ z])
    qed
  qed
qed

theorem prepared_access_witness:
  "case prepareAccess snap_pf (disk_issueGrant snap_pf snap_opts) \<lparr>br_baseUrl = ''https://c'', br_grantTtlSeconds = 60\<rparr>
        ''e'' ''w'' (JObj [(''kind'', JStr ''snapshot''), (''snapshotId'', JStr (so_snapshotId (sr_source snap_rec)))]) 900 snap_stored of
      (Inl _, t) \<Rightarrow> disk_view t = Some (add_snapshot snap_key snap_rec empty_snapshots)
    | (Inr None, t) \<Rightarrow> jget (JObj [(''kind'', JStr ''snapshot''), (''snapshotId'', JStr (so_snapshotId (sr_source snap_rec)))]) ''kind''
        \<noteq> JStr ''snapshot'' \<and> t = snap_stored
    | (Inr (Some a), t) \<Rightarrow> \<exists>g e w. disk_view t = Some (add_grant g (add_snapshot snap_key snap_rec empty_snapshots)) \<and>
        gr_id g = sa_grantId a \<and> gr_executionId g = ''e'' \<and> gr_workspace g = ''w'' \<and>
        gr_snapshotId g = js_str (jget (JObj [(''kind'', JStr ''snapshot''),
          (''snapshotId'', JStr (so_snapshotId (sr_source snap_rec)))]) ''snapshotId'') \<and>
        gr_usedAt g = None \<and> gr_tokenSha256 g = sha256_text snap_pf (sa_token a) \<and>
        gr_expiresAt g = Some e \<and> sa_expiresAt a = pf_iso snap_pf e \<and>
        e = fst (op_now snap_opts w) + 1000 * min 900 (br_grantTtlSeconds \<lparr>br_baseUrl = ''https://c'', br_grantTtlSeconds = 60\<rparr>) \<and>
        min 900 (br_grantTtlSeconds \<lparr>br_baseUrl = ''https://c'', br_grantTtlSeconds = 60\<rparr>) \<in> {1..900}"
  by (rule prepared_access [OF snap_view])

section \<open>The file store refines the in-memory store\<close>

definition snap_same :: "'w snapshot_disk \<Rightarrow> 'w snapshot_mem \<Rightarrow> bool" where
  "snap_same d m \<longleftrightarrow> disk_view d = Some (sm_state m) \<and> map_of (sd_objects d) = map_of (sm_objects m) \<and> sd_wd d = sm_wd m"

text \<open>The upload's contents collide with no object of another content.\<close>

definition no_collision :: "platform \<Rightarrow> (string \<Rightarrow> bytes option) \<Rightarrow> snapshot_upload \<Rightarrow> bool" where
  "no_collision pf objs u \<longleftrightarrow> (\<forall>b. objs (pf_sha256 pf (up_archive u)) = Some b \<longrightarrow> b = up_archive u) \<and>
     (case up_workingTreePatch u of None \<Rightarrow> True
      | Some p \<Rightarrow> (\<forall>b. objs (pf_sha256 pf p) = Some b \<longrightarrow> b = p) \<and>
          (pf_sha256 pf p = pf_sha256 pf (up_archive u) \<longrightarrow> p = up_archive u))"

lemma map_of_keep: "(\<And>b'. map_of os n = Some b' \<Longrightarrow> b' = b) \<Longrightarrow> map_of (keep_object n b os) = (map_of os)(n \<mapsto> b)"
  by (rule ext) auto

lemma put_same:
  assumes same: "snap_same d m" and free: "no_collision pf (map_of (sm_objects m)) u"
  shows "fst (disk_put pf opts u d) = fst (mem_put pf opts u m) \<and>
    snap_same (snd (disk_put pf opts u d)) (snd (mem_put pf opts u m))"
proof -
  have v: "disk_view d = Some (sm_state m)" and o: "map_of (sd_objects d) = map_of (sm_objects m)" and w: "sd_wd d = sm_wd m"
    using same by (simp_all add: snap_same_def)
  obtain r w' where p: "prepareSnapshot pf opts u (sm_wd m) = (r, w')" by fastforce
  show ?thesis
  proof (cases r)
    case (Inl e)
    with p v o w show ?thesis by (simp add: disk_put_run [OF v] mem_put_run snap_same_def)
  next
    case (Inr z)
    obtain rec a q where z: "z = (rec, a, q)" by (cases z)
    note f = prepareSnapshot_run [OF p [unfolded Inr z]]
    have a: "map_of (keep_object (sr_archiveObject rec) a (sd_objects d)) =
        map_of (AList.update (sr_archiveObject rec) a (sm_objects m))"
      using f free by (subst map_of_keep) (auto simp: o no_collision_def update_conv')
    have "map_of (keep_object (pf_sha256 pf p) p (keep_object (sr_archiveObject rec) a (sd_objects d))) =
        map_of (AList.update (pf_sha256 pf p) p (AList.update (sr_archiveObject rec) a (sm_objects m)))" if q: "q = Some p" for p
    proof -
      have u: "up_workingTreePatch u = Some p" using f q by simp
      with f free a o show ?thesis by (subst map_of_keep) (auto simp: no_collision_def update_conv' split: if_splits)
    qed
    with a f p Inr z v w show ?thesis
      by (cases "up_workingTreePatch u") (auto simp: disk_put_run [OF v] mem_put_run snap_same_def disk_view_def)
  qed
qed

lemma issue_same:
  assumes same: "snap_same d m"
  shows "fst (disk_issueGrant pf opts n d) = fst (mem_issueGrant pf opts n m) \<and>
    snap_same (snd (disk_issueGrant pf opts n d)) (snd (mem_issueGrant pf opts n m))"
proof -
  have v: "disk_view d = Some (sm_state m)" and o: "map_of (sd_objects d) = map_of (sm_objects m)" and w: "sd_wd d = sm_wd m"
    using same by (simp_all add: snap_same_def)
  obtain r w' where p: "createGrant pf opts n (sm_wd m) = (r, w')" by fastforce
  show ?thesis
    using readState_run [OF v] v o w p
    by (cases "map_of (sn_snapshots (sm_state m)) (recordKey pf (is_workspace n) (is_snapshotId n))"; cases r)
      (auto simp: disk_issueGrant_def mem_issueGrant_def mem_get_def run_defs sd_call_def sm_call_def writeState_def snap_same_def
        disk_view_def split: prod.splits)
qed

lemma delivery_same:
  "contents_ok pf objs x \<Longrightarrow> map_of (sn_snapshots x) k = Some r \<Longrightarrow>
     delivery objs nf miss (Some r) = delivery objs nf' miss' (Some r)"
  using delivery_ok [of pf objs x k r nf miss] by (auto simp: delivery_def split: option.splits)

lemma consume_same:
  assumes same: "snap_same d m" and ok: "contents_ok pf (map_of (sm_objects m)) (sm_state m)"
  shows "fst (disk_consumeGrant pf opts c d) = fst (mem_consumeGrant pf opts c m) \<and>
    snap_same (snd (disk_consumeGrant pf opts c d)) (snd (mem_consumeGrant pf opts c m))"
proof -
  have v: "disk_view d = Some (sm_state m)" and o: "map_of (sd_objects d) = map_of (sm_objects m)" and w: "sd_wd d = sm_wd m"
    using same by (simp_all add: snap_same_def)
  obtain r w' where p: "validateGrant pf opts (map_of (sn_grants (sm_state m)) (ci_grantId c)) c (sm_wd m) = (r, w')" by fastforce
  show ?thesis
  proof (cases r)
    case (Inl e)
    with p v o w show ?thesis by (simp add: disk_consume_eq [OF v] mem_consume_eq snap_same_def)
  next
    case (Inr g)
    with validateGrant_run [OF p [unfolded Inr]] ok obtain k where
      k: "map_of (sn_snapshots (sm_state m)) (recordKey pf (gr_workspace g) (gr_snapshotId g)) = Some k"
      unfolding contents_ok_def by blast
    note del = delivery_same [OF ok k]
    show ?thesis
      using p Inr o w k by (simp add: disk_consume_eq [OF v] mem_consume_eq snap_same_def disk_view_def)
        (rule del)
  qed
qed

text \<open>C18: The file store refines the in-memory store: from states that hold the same snapshots, grants and
  objects, every operation gives the same result, the same error included, and ends in states that
  hold the same again. For an upload it is required that no other content has its digests.\<close>

theorem file_store_refines_memory:
  assumes "snap_same d m" and "contents_ok pf (map_of (sm_objects m)) (sm_state m)"
  shows "(no_collision pf (map_of (sm_objects m)) u \<longrightarrow>
      fst (disk_put pf opts u d) = fst (mem_put pf opts u m) \<and>
      snap_same (snd (disk_put pf opts u d)) (snd (mem_put pf opts u m))) \<and>
    fst (disk_issueGrant pf opts n d) = fst (mem_issueGrant pf opts n m) \<and>
    snap_same (snd (disk_issueGrant pf opts n d)) (snd (mem_issueGrant pf opts n m)) \<and>
    fst (disk_consumeGrant pf opts c d) = fst (mem_consumeGrant pf opts c m) \<and>
    snap_same (snd (disk_consumeGrant pf opts c d)) (snd (mem_consumeGrant pf opts c m))"
  using put_same [OF assms(1)] issue_same [OF assms(1)] consume_same [OF assms] by blast

definition snap_mem :: "nat snapshot_mem" where
  "snap_mem = \<lparr>sm_state = empty_snapshots, sm_objects = [], sm_wd = 0\<rparr>"

theorem file_store_refines_memory_witness:
  "fst (disk_put snap_pf snap_opts snap_upload snap_disk) = fst (mem_put snap_pf snap_opts snap_upload snap_mem) \<and>
    snap_same (snd (disk_put snap_pf snap_opts snap_upload snap_disk)) (snd (mem_put snap_pf snap_opts snap_upload snap_mem))"
proof -
  have "snap_same snap_disk snap_mem" by (simp add: snap_same_def snap_mem_def) (simp add: snap_disk_def)
  moreover have "contents_ok snap_pf (map_of (sm_objects snap_mem)) (sm_state snap_mem)" by (simp add: snap_mem_def)
  moreover have "no_collision snap_pf (map_of (sm_objects snap_mem)) snap_upload"
    by (simp add: no_collision_def snap_mem_def snap_upload_def)
  ultimately show ?thesis
    using file_store_refines_memory [where d = snap_disk and m = snap_mem and pf = snap_pf and opts = snap_opts and u = snap_upload]
    by blast
qed

end
