(* ===== verification/Execution_Http_Properties.thy ===== *)
theory Execution_Http_Properties
  imports Execution_Http_Laws Execution_Node_Http Snapshot_Properties
begin

text \<open>
  The properties of the HTTP interface: every request is answered, nothing happens without
  authentication and authorisation, reads do not write, source grants are single-use over HTTP, and
  a client talking to the handler through the Node adapter sees the control plane itself.
\<close>

section \<open>Answers\<close>

text \<open>C19: The handler answers every request, whatever its callees throw: with status 200 and a result body,
  or with a documented error status and an error body.\<close>

theorem http_always_answers:
  "(hp_status (fst (http_handler pf env sec sn r s)) = 200 \<and>
     (\<nexists>c m d. hp_body (fst (http_handler pf env sec sn r s)) = ErrorBody c m d)) \<or>
   (hp_status (fst (http_handler pf env sec sn r s)) \<in> {400, 401, 403, 404, 409, 410, 413, 422, 500, 502} \<and>
     (\<exists>c m d. hp_body (fst (http_handler pf env sec sn r s)) = ErrorBody c m d))"
proof -
  have "response_ok (fst (http_handler pf env sec sn r s))"
    using answers_handled [of pf env sec sn r, unfolded stays_def, rule_format, of s] error_response_ok
    by (auto simp: wp_def http_handler_def split: prod.splits sum.splits)
  then show ?thesis by (simp add: response_ok_def is_error_def)
qed

text \<open>A request that does not authenticate, and is not for a source grant, is answered with 401 and
  changes nothing but what the authentication callback itself changed.\<close>

theorem http_unauthenticated:
  assumes "grant_api sn r = None" and "se_authenticate sec r (wd s) = (Inr None, w)"
  shows "http_handler pf env sec sn r s =
    (\<lparr>hp_status = 401, hp_body = ErrorBody ''EXECUTION_AUTHENTICATION_REQUIRED''
       ''Execution control-plane authentication is required.'' None\<rparr>, s\<lparr>wd := w\<rparr>)"
  using assms by (simp add: http_handler_def handled_def authenticated_route_def bindE_def api_def call_def throw_def)

definition demo_get :: "string \<Rightarrow> http_request" where
  "demo_get path = \<lparr>hq_method = ''GET'', hq_path = path, hq_headers = [], hq_query = None, hq_body = JUndef\<rparr>"

theorem http_unauthenticated_witness:
  "http_handler demo_pf demo_env (operator_security ''t'') None (demo_get ''/v1/executions'') demo0 =
    (\<lparr>hp_status = 401, hp_body = ErrorBody ''EXECUTION_AUTHENTICATION_REQUIRED''
       ''Execution control-plane authentication is required.'' None\<rparr>, demo0\<lparr>wd := wd demo0\<rparr>)"
  by (rule http_unauthenticated) (simp_all add: grant_api_def operator_security_def demo_get_def readHeader_def)

lemma bind_lift: "bindE (api (lift_sum (Inr x))) f = f x"
  by (rule ext) (simp add: bindE_def api_def lift_sum_def)

text \<open>What a request for a source grant does to the state: nothing, or one attempt to consume the grant
  with the token of the request.\<close>

definition grant_attempt :: "'w snapshot_api \<Rightarrow> http_request \<Rightarrow> 'w cps \<Rightarrow> http_response \<Rightarrow> 'w cps \<Rightarrow> bool" where
  "grant_attempt sx r s a t \<longleftrightarrow> (\<exists>token ex g. bearer_token r = Some token \<and>
     readHeader (hq_headers r) ''x-mezair-execution-id'' = Some ex \<and>
     (case sx_consumeGrant sx \<lparr>ci_grantId = g, ci_executionId = ex, ci_token = token\<rparr> (wd s) of
        (x, w) \<Rightarrow> t = s\<lparr>wd := w\<rparr> \<and> (hp_status a = 200 \<longrightarrow> (\<exists>d. x = Inr d))))"

lemma grant_request_effect:
  assumes "grant_api sn r = Some sx" "http_handler pf env sec sn r s = (a, t)"
  shows "t = s \<and> hp_status a \<noteq> 200 \<or> grant_attempt sx r s a t"
proof -
  let ?e = "drop (length grant_prefix) (hq_path r)"
  obtain x t' where run: "consumeSourceGrant pf sx r s = (x, t')" by fastforce
  then have a: "a = (case x of Inl e \<Rightarrow> error_response e | Inr a \<Rightarrow> a)" "t = t'"
    using assms by (auto simp: http_handler_def handled_def split: sum.splits)
  have failed: "hp_status (error_response (Raised e)) \<noteq> 200" for e using error_response_error [of "Raised e"] by auto
  show ?thesis
  proof (cases "?e = [] \<or> CHR ''/'' \<in> set ?e \<or> bearer_token r \<in> {None, Some []} \<or>
      readHeader (hq_headers r) ''x-mezair-execution-id'' \<in> {None, Some []}")
    case True
    then have "t' = s \<and> (x = Inr (notFound (hq_path r)) \<or> (\<exists>e. x = Inl (Raised e)))"
      using run by (auto simp: consumeSourceGrant_def Let_def ret_def throw_def split: if_splits option.splits)
    with a failed show ?thesis by (auto simp: notFound_def)
  next
    case False
    then obtain token ex where h: "bearer_token r = Some token" "token \<noteq> []"
      "readHeader (hq_headers r) ''x-mezair-execution-id'' = Some ex" "ex \<noteq> []" by auto
    have go: "consumeSourceGrant pf sx r s = bindE (api (lift_sum (decodePathSegment pf ?e))) (\<lambda>g.
        bindE (api (call (sx_consumeGrant sx \<lparr>ci_grantId = g, ci_executionId = ex, ci_token = token\<rparr>))) (\<lambda>download.
        ret (ok_response (DownloadBody (sr_source (dl_record download)) (pf_b64_enc pf (dl_archive download))
          (map_option (pf_b64_enc pf) (dl_workingTreePatch download)))))) s"
      using False h by (simp add: consumeSourceGrant_def Let_def)
    show ?thesis
    proof (cases "decodePathSegment pf ?e")
      case (Inl e)
      then have "x = Inl (Raised e) \<and> t' = s" using go run by (simp add: bindE_def api_def lift_sum_def)
      with a failed show ?thesis by simp
    next
      case (Inr g)
      obtain y w where y: "sx_consumeGrant sx \<lparr>ci_grantId = g, ci_executionId = ex, ci_token = token\<rparr> (wd s) = (y, w)"
        by fastforce
      have "t' = s\<lparr>wd := w\<rparr> \<and> (hp_status a = 200 \<longrightarrow> (\<exists>d. y = Inr d))"
        using go run Inr y a failed by (cases y) (auto simp: bind_lift bindE_def api_def call_def ret_def)
      with h y a show ?thesis unfolding grant_attempt_def by (intro disjI2 exI [of _ token] exI [of _ ex] exI [of _ g]) simp
    qed
  qed
qed

text \<open>C20: If the authorisation callback never allows, no request changes the execution store. A request that
  is not for a source grant reaches neither a provider nor the snapshot store - the outer world has seen
  only the security callbacks - and is answered with an error or an empty list of executions. A request
  for a source grant, which is served before any authorisation, at most makes one attempt to consume the
  grant with the bearer token it carries, and is answered with 200 only if the snapshot store accepted it.\<close>

theorem http_denied:
  assumes "\<And>ctx w. fst (se_authorize sec ctx w) \<noteq> Inr True"
    and "\<And>ctx w. I w \<Longrightarrow> I (snd (se_authorize sec ctx w))" and "\<And>r w. I w \<Longrightarrow> I (snd (se_authenticate sec r w))"
    and "I (wd s)"
  shows "case http_handler pf env sec sn r s of (a, t) \<Rightarrow> st t = st s \<and>
    (case grant_api sn r of
       None \<Rightarrow> I (wd t) \<and> (hp_status a \<noteq> 200 \<or> hp_body a = ExecutionsBody [])
     | Some sx \<Rightarrow> t = s \<and> hp_status a \<noteq> 200 \<or> grant_attempt sx r s a t)"
proof (cases "grant_api sn r")
  case (Some sx)
  obtain a t where run: "http_handler pf env sec sn r s = (a, t)" by fastforce
  have "st t = st s" using grant_request_effect [OF Some run] by (auto simp: grant_attempt_def case_prod_beta)
  then show ?thesis using grant_request_effect [OF Some run] by (simp add: run Some)
next
  case None
  have c: "callbacks sec I" using assms(2,3) by unfold_locales
  have d: "callbacks.denies sec" using assms(1) by (simp add: callbacks.denies_def [OF c])
  have "callbacks.unharmed I (st s) s" using assms(4) by (simp add: callbacks.unharmed_def [OF c])
  with callbacks.quiet_denied [OF c d, of pf env sn r]
  have w: "wp (authenticated_route pf env sec sn r) (\<lambda>a t. callbacks.refusal a \<and> callbacks.unharmed I (st s) t)
      (\<lambda>_. callbacks.unharmed I (st s)) s"
    by (simp add: callbacks.quiet_def [OF c])
  have "wp (authenticated_route pf env sec sn r) (\<lambda>_ _. True) (\<lambda>e _. access_ok e) s"
    using answers_handled [of pf env sec sn r, unfolded stays_def, rule_format, of s] None
    by (auto simp: handled_def wp_def split: prod.splits sum.splits)
  with w error_response_status show ?thesis
    using None by (auto simp: http_handler_def handled_def wp_def callbacks.unharmed_def [OF c]
        callbacks.refusal_def [OF c] split: prod.splits sum.splits)
qed

definition nobody :: "'w security" where
  "nobody = (operator_security ''t'')\<lparr>se_authorize := \<lambda>ctx w. (Inr False, w)\<rparr>"

theorem http_denied_witness:
  "case http_handler demo_pf demo_env nobody None (demo_get ''/v1/executions'') demo_created of (a, t) \<Rightarrow>
     st t = st demo_created \<and> (hp_status a \<noteq> 200 \<or> hp_body a = ExecutionsBody [])"
proof -
  have "\<And>ctx w. fst (se_authorize (nobody :: 'a security) ctx w) \<noteq> Inr True" by (simp add: nobody_def)
  from http_denied [OF this, where I = "\<lambda>_. True" and s = demo_created and pf = demo_pf and env = demo_env and sn = None
    and r = "demo_get ''/v1/executions''"]
  show ?thesis by (auto simp: grant_api_def split: prod.splits)
qed

text \<open>Reads do not write: a \<open>GET\<close> request, except for the events of an execution (which pulls from the
  provider) and a source grant, leaves the store as it is, and the outer world sees only the
  security callbacks.\<close>

theorem http_get_reads:
  assumes "js_upper (hq_method r) = ''GET''" and "grant_api sn r = None"
    and "\<And>i. js_split (CHR ''/'') (hq_path r) \<noteq> [[], ''v1'', ''executions'', i, ''events'']"
    and "\<And>ctx w. I w \<Longrightarrow> I (snd (se_authorize sec ctx w))" and "\<And>r w. I w \<Longrightarrow> I (snd (se_authenticate sec r w))"
    and "I (wd s)"
  shows "st (snd (http_handler pf env sec sn r s)) = st s \<and> I (wd (snd (http_handler pf env sec sn r s)))"
proof -
  have c: "callbacks sec I" using assms(4,5) by unfold_locales
  have "callbacks.unharmed I (st s) s" using assms(6) by (simp add: callbacks.unharmed_def [OF c])
  have "callbacks.unharmed I (st s) (snd (authenticated_route pf env sec sn r s))"
    by (rule keepsD [OF callbacks.keeps_get [OF c assms(1,3)]]) fact
  then show ?thesis
    using assms(2) by (auto simp: http_handler_def handled_def callbacks.unharmed_def [OF c] split: prod.splits sum.splits)
qed

theorem http_get_reads_witness:
  "st (snd (http_handler demo_pf demo_env nobody None (demo_get ''/v1/executions'') demo_created)) = st demo_created \<and> True"
  by (rule http_get_reads [where I = "\<lambda>_. True"])
    (simp_all add: nobody_def grant_api_def demo_get_def js_upper_def upper_char_def is_lower_def)

section \<open>Source grants over HTTP\<close>

definition disk_api :: "platform \<Rightarrow> 'w snapshot_options \<Rightarrow> 'w snapshot_disk snapshot_api" where
  "disk_api pf opts = \<lparr>sx_put = disk_put pf opts, sx_consumeGrant = disk_consumeGrant pf opts\<rparr>"

lemma consumeSourceGrant_run:
  assumes "consumeSourceGrant pf sx r s = (Inr a, t)" and "hp_status a = 200"
  obtains token ex g d w where "bearer_token r = Some token" and "readHeader (hq_headers r) ''x-mezair-execution-id'' = Some ex"
    and "token \<noteq> []" and "ex \<noteq> []" and "drop (length grant_prefix) (hq_path r) \<noteq> []"
    and "CHR ''/'' \<notin> set (drop (length grant_prefix) (hq_path r))"
    and "decodePathSegment pf (drop (length grant_prefix) (hq_path r)) = Inr g"
    and "sx_consumeGrant sx \<lparr>ci_grantId = g, ci_executionId = ex, ci_token = token\<rparr> (wd s) = (Inr d, w)"
    and "t = s\<lparr>wd := w\<rparr>"
proof -
  let ?e = "drop (length grant_prefix) (hq_path r)"
  have path: "?e \<noteq> []" "CHR ''/'' \<notin> set ?e"
    using assms by (auto simp: consumeSourceGrant_def notFound_def ret_def split: if_splits)
  then obtain token where tok: "bearer_token r = Some token" "token \<noteq> []"
    using assms by (cases "bearer_token r") (auto simp: consumeSourceGrant_def throw_def split: option.splits if_splits)
  with path obtain ex where ex: "readHeader (hq_headers r) ''x-mezair-execution-id'' = Some ex" "ex \<noteq> []"
    using assms by (cases "readHeader (hq_headers r) ''x-mezair-execution-id''")
      (auto simp: consumeSourceGrant_def throw_def split: if_splits)
  have run: "consumeSourceGrant pf sx r s = bindE (api (lift_sum (decodePathSegment pf ?e))) (\<lambda>g.
      bindE (api (call (sx_consumeGrant sx \<lparr>ci_grantId = g, ci_executionId = ex, ci_token = token\<rparr>))) (\<lambda>download.
      ret (ok_response (DownloadBody (sr_source (dl_record download)) (pf_b64_enc pf (dl_archive download))
        (map_option (pf_b64_enc pf) (dl_workingTreePatch download)))))) s"
    using path tok ex by (simp add: consumeSourceGrant_def Let_def)
  then obtain g where g: "decodePathSegment pf ?e = Inr g"
    using assms(1) by (cases "decodePathSegment pf ?e") (auto simp: bindE_def api_def lift_sum_def)
  obtain x w where x: "sx_consumeGrant sx \<lparr>ci_grantId = g, ci_executionId = ex, ci_token = token\<rparr> (wd s) = (x, w)"
    by fastforce
  then obtain d where "x = Inr d" and "t = s\<lparr>wd := w\<rparr>"
    using run assms(1) g by (cases x) (auto simp: bind_lift bindE_def api_def call_def ret_def)
  with path tok ex g x show thesis by (intro that) simp_all
qed

text \<open>Over HTTP, too, a source grant is good for one download: when a request for it was answered with
  200, the same request is answered with 401, 409 or 410 afterwards. Neither touches the executions.\<close>

theorem http_grant_single_use:
  assumes "grant_api (Some (disk_api pf opts)) r \<noteq> None" and "disk_view (wd s) \<noteq> None"
    and "http_handler pf' env sec (Some (disk_api pf opts)) r s = (a, t)" and "hp_status a = 200"
  shows "hp_status (fst (http_handler pf' env sec (Some (disk_api pf opts)) r t)) \<in> {401, 409, 410} \<and> st t = st s"
proof -
  have g: "grant_api (Some (disk_api pf opts)) r = Some (disk_api pf opts)"
    using assms(1) by (simp add: grant_api_def split: if_splits)
  have "consumeSourceGrant pf' (disk_api pf opts) r s = (Inr a, t)"
    using assms(3,4) g answers_grant [of pf' "disk_api pf opts" r, unfolded stays_def, rule_format, of s] error_response_status
    by (auto simp: http_handler_def handled_def wp_def split: prod.splits sum.splits)
  then obtain token ex i d w where run: "bearer_token r = Some token"
    "readHeader (hq_headers r) ''x-mezair-execution-id'' = Some ex" "token \<noteq> []" "ex \<noteq> []"
    "drop (length grant_prefix) (hq_path r) \<noteq> []" "CHR ''/'' \<notin> set (drop (length grant_prefix) (hq_path r))"
    "decodePathSegment pf' (drop (length grant_prefix) (hq_path r)) = Inr i"
    "sx_consumeGrant (disk_api pf opts) \<lparr>ci_grantId = i, ci_executionId = ex, ci_token = token\<rparr> (wd s) = (Inr d, w)"
    and t: "t = s\<lparr>wd := w\<rparr>"
    using assms(4) by (rule consumeSourceGrant_run)
  let ?c = "\<lparr>ci_grantId = i, ci_executionId = ex, ci_token = token\<rparr>"
  obtain x where x: "disk_view (wd s) = Some x" using assms(2) by blast
  have sx: "sx_consumeGrant (disk_api pf opts) = disk_consumeGrant pf opts" by (simp add: disk_api_def)
  from run(8) have "disk_consumeGrant pf opts ?c (wd s) = (Inr d, w)" by (simp add: sx)
  from disk_grants.single_use [OF x this, of "[]" ?c] obtain e w' where
    e: "disk_consumeGrant pf opts ?c w = (Inl e, w')" "grant_refused e"
    by (cases "disk_consumeGrant pf opts ?c w") auto
  then have "http_handler pf' env sec (Some (disk_api pf opts)) r t = (error_response (Raised e), t\<lparr>wd := w'\<rparr>)"
    using run(1-7) t by (simp add: http_handler_def handled_def g consumeSourceGrant_def bind_lift bindE_def api_def call_def sx)
  with e(2) t show ?thesis by (auto simp: grant_refused_def)
qed

definition grant_request :: http_request where
  "grant_request = \<lparr>hq_method = ''GET'', hq_path = ''/v1/source-grants/grant_0'',
     hq_headers = [(''authorization'', Some (''Bearer '' @ snap_token)), (''x-mezair-execution-id'', Some ''e'')], hq_query = None,
     hq_body = JUndef\<rparr>"

definition grant_env :: "(nat snapshot_disk) cp_env" where
  "grant_env = \<lparr>env_providers = [], env_sourceBroker = None, env_idFactory = (\<lambda>w. ([], w)), env_now = (\<lambda>w. (0, w))\<rparr>"

definition grant_state :: "(nat snapshot_disk) cps" where
  "grant_state = \<lparr>st = st demo0, wd = snap_granted, cur = cur demo0\<rparr>"

theorem http_grant_single_use_witness:
  "\<exists>a t. http_handler demo_pf grant_env (operator_security ''t'') (Some (disk_api snap_pf snap_opts)) grant_request grant_state = (a, t) \<and>
     hp_status a = 200 \<and>
     hp_status (fst (http_handler demo_pf grant_env (operator_security ''t'') (Some (disk_api snap_pf snap_opts)) grant_request t))
       \<in> {401, 409, 410} \<and> st t = st grant_state"
proof -
  have g: "grant_api (Some (disk_api snap_pf snap_opts)) grant_request = Some (disk_api snap_pf snap_opts)"
    by (simp add: grant_api_def grant_request_def js_upper_def upper_char_def is_lower_def starts_with_def grant_prefix_def)
  have h: "bearer_token grant_request = Some snap_token"
    "readHeader (hq_headers grant_request) ''x-mezair-execution-id'' = Some ''e''"
    by (simp_all add: grant_request_def bearer_token_def readHeader_def js_lower_def lower_char_def is_upper_def starts_with_def)
  obtain d w where c: "disk_consumeGrant snap_pf snap_opts \<lparr>ci_grantId = ''grant_0'', ci_executionId = ''e'', ci_token = snap_token\<rparr>
      snap_granted = (Inr d, w)"
    using snap_consumed by (auto simp: snap_consume_def)
  have p: "drop (length grant_prefix) (hq_path grant_request) = ''grant_0''"
    by (simp add: grant_prefix_def grant_request_def)
  have "decodePathSegment demo_pf ''grant_0'' = Inr ''grant_0''"
    by (simp add: decodePathSegment_def demo_pf_def)
  moreover have "snap_token \<noteq> []" by (simp add: snap_token_def)
  ultimately have "\<exists>a t. consumeSourceGrant demo_pf (disk_api snap_pf snap_opts) grant_request grant_state = (Inr a, t) \<and>
      hp_status a = 200"
    using c h by (simp add: consumeSourceGrant_def p bind_lift bindE_def api_def call_def disk_api_def grant_state_def ret_def
        ok_response_def)
  then obtain a t where run: "http_handler demo_pf grant_env (operator_security ''t'') (Some (disk_api snap_pf snap_opts))
      grant_request grant_state = (a, t)" and a: "hp_status a = 200"
    by (auto simp: http_handler_def handled_def g)
  have v: "disk_view (wd grant_state) \<noteq> None" by (simp add: grant_state_def snap_granted_def)
  from http_grant_single_use [OF _ v run a] g run a show ?thesis by blast
qed

section \<open>Clients\<close>

text \<open>C21: What the upload client sends is what the handler reads: the body of an upload, with its archive and
  patch in base64, is read back as the same upload, for any canonical base64 codec.\<close>

theorem upload_body_round_trip:
  assumes "\<And>b. pf_b64_dec pf (pf_b64_enc pf b) = b"
  shows "readSnapshotUpload pf (upload_body pf u) = Inr u"
proof -
  have "\<exists>w c a r b p. u = \<lparr>up_workspace = w, up_baseCommit = c, up_archive = a, up_repository = r, up_branch = b,
      up_workingTreePatch = p\<rparr>" by (cases u) auto
  then obtain w c a r b p where u: "u = \<lparr>up_workspace = w, up_baseCommit = c, up_archive = a, up_repository = r,
      up_branch = b, up_workingTreePatch = p\<rparr>" by blast
  show ?thesis
    unfolding u using assms
    by (cases r; cases b; cases p)
      (simp_all add: readSnapshotUpload_def upload_body_def jget_def decodeBase64_def optional_text_def isString_def)
qed

lemma unary_codec: "map length (butlast (js_split (CHR ''b'') (concat (map (\<lambda>n. replicate n (CHR ''a'') @ ''b'') b)))) = b"
proof (induction b)
  case (Cons n b)
  have "js_split (CHR ''b'') (replicate n (CHR ''a'') @ CHR ''b'' # s) = replicate n (CHR ''a'') # js_split (CHR ''b'') s" for s
    by (induction n) simp_all
  with Cons show ?case by simp
qed simp

lemma demo_codec: "pf_b64_dec demo_pf (pf_b64_enc demo_pf b) = b"
  using unary_codec [of b] by (simp add: demo_pf_def)

theorem upload_body_round_trip_witness: "readSnapshotUpload demo_pf (upload_body demo_pf snap_upload) = Inr snap_upload"
  by (rule upload_body_round_trip [OF demo_codec])

section \<open>The client over the handler\<close>

text \<open>\<open>enc\<close> is the JSON of a response body; of it only the shape of errors and of single leases matters.\<close>

definition json_of :: "(http_body \<Rightarrow> js) \<Rightarrow> (lease \<Rightarrow> js) \<Rightarrow> bool" where
  "json_of enc lj \<longleftrightarrow>
     (\<forall>c m d. enc (ErrorBody c m d) = JObj [(''ok'', JBool False), (''error'', JObj ([(''code'', JStr c), (''message'', JStr m)] @
        (case d of None \<Rightarrow> [] | Some v \<Rightarrow> [(''details'', v)])))]) \<and>
     (\<forall>l. isObject (lj l) \<and> enc (ExecutionBody l) = JObj [(''ok'', JBool True), (''execution'', lj l)])"

text \<open>What a client throws for an error of the control plane.\<close>

definition remote_error :: "exn \<Rightarrow> http_error" where
  "remote_error e = (case e of
      CPError c m d \<Rightarrow> HttpError (cp_code_str c) m (statusForControlPlaneError c) (object_or_empty d)
    | SnapError c m \<Rightarrow> HttpError (snap_code_str c) m (statusForSnapshotError c) (JObj [])
    | JsError _ m \<Rightarrow> HttpError ''EXECUTION_CONTROL_PLANE_ERROR'' m 500 (JObj []))"

definition remote :: "(lease \<Rightarrow> js) \<Rightarrow> (exn + lease) \<times> 's \<Rightarrow> (http_error + js) \<times> 's" where
  "remote lj x = (case x of (Inl e, t) \<Rightarrow> (Inl (remote_error e), t) | (Inr l, t) \<Rightarrow> (Inr (lj l), t))"

text \<open>The calls of the client that name one execution and return its lease.\<close>

datatype lease_call =
    CallRead | CallApproval js | CallInput js | CallSteer string | CallSuspend | CallResume | CallCollect | CallTerminate

fun client_call :: "platform \<Rightarrow> 'n http_client \<Rightarrow> string \<Rightarrow> lease_call \<Rightarrow> ('n, js) client" where
  "client_call pf c i CallRead = client_getExecution pf c i"
| "client_call pf c i (CallApproval d) = client_resolveApproval pf c i d"
| "client_call pf c i (CallInput d) = client_submitInput pf c i d"
| "client_call pf c i (CallSteer m) = client_steer pf c i (JStr m)"
| "client_call pf c i CallSuspend = client_suspend pf c i"
| "client_call pf c i CallResume = client_resume pf c i"
| "client_call pf c i CallCollect = client_collectResult pf c i"
| "client_call pf c i CallTerminate = client_terminate pf c i"

fun plane_call :: "platform \<Rightarrow> 'w cp_env \<Rightarrow> string \<Rightarrow> lease_call \<Rightarrow> ('w, lease) cp" where
  "plane_call pf env i CallRead = getExecution i"
| "plane_call pf env i (CallApproval d) = resolveApproval pf env i d"
| "plane_call pf env i (CallInput d) = submitInput pf env i d"
| "plane_call pf env i (CallSteer m) = steer pf env i (JStr m)"
| "plane_call pf env i CallSuspend = suspend env i"
| "plane_call pf env i CallResume = resume pf env i"
| "plane_call pf env i CallCollect = collectResult pf env i"
| "plane_call pf env i CallTerminate = terminate pf env i"

fun call_name :: "lease_call \<Rightarrow> string" where
  "call_name CallRead = []"
| "call_name (CallApproval _) = ''approval''"
| "call_name (CallInput _) = ''input''"
| "call_name (CallSteer _) = ''steer''"
| "call_name CallSuspend = ''suspend''"
| "call_name CallResume = ''resume''"
| "call_name CallCollect = ''collect''"
| "call_name CallTerminate = ''terminate''"

fun call_body :: "lease_call \<Rightarrow> js" where
  "call_body (CallApproval d) = d"
| "call_body (CallInput d) = d"
| "call_body (CallSteer m) = JObj [(''message'', JStr m)]"
| "call_body _ = JUndef"

definition call_method :: "lease_call \<Rightarrow> string" where
  "call_method a = (if a = CallRead then ''GET'' else ''POST'')"

definition call_path :: "platform \<Rightarrow> string \<Rightarrow> lease_call \<Rightarrow> string" where
  "call_path pf i a = execution_path pf i @ (if a = CallRead then [] else CHR ''/'' # call_name a)"

text \<open>The handler's answer for the outcome of a method.\<close>

definition plane_answer :: "exn + lease \<Rightarrow> http_response" where
  "plane_answer x = (case x of Inl e \<Rightarrow> error_response (Raised e) | Inr l \<Rightarrow> ok_response (ExecutionBody l))"

lemma client_call_request:
  "client_call pf c i a = bindE (request c (call_path pf i a) (call_method a) (call_body a)) (\<lambda>p. lift_sum (readLease p))"
  by (cases a) (simp_all add: client_getExecution_def client_resolveApproval_def client_submitInput_def client_steer_def
      client_suspend_def client_resume_def client_collectResult_def client_terminate_def post_action_def call_path_def
      call_method_def)

text \<open>A request with the operator's token for an execution that exists reaches the method of its route.\<close>

definition accepted :: "platform \<Rightarrow> string \<Rightarrow> bool" where
  "accepted pf i \<longleftrightarrow> pf_uri_enc pf i \<noteq> [] \<and> CHR ''/'' \<notin> set (pf_uri_enc pf i) \<and> pf_uri_dec pf (pf_uri_enc pf i) = Some i"

lemma authorized_operator:
  "store_get i (st s) = Some l \<Longrightarrow> authorizedExecution (operator_security token) p r i a s = (Inr l, s)"
  by (simp add: authorizedExecution_def requireAuthorization_def operator_security_def getExecution_def run_defs api_def call_def)

lemma execution_route_run:
  "store_get i (st s) = Some l \<Longrightarrow> execution_route (operator_security token) p r i a m s =
     (case m s of (Inl e, t) \<Rightarrow> (Inl (Raised e), t) | (Inr k, t) \<Rightarrow> (Inr (ok_response (ExecutionBody k)), t))"
  by (simp add: execution_route_def thenE_def bindE_def authorized_operator api_def ret_def split: prod.split sum.split)

lemma call_route:
  assumes "store_get i (st s) = Some l" and "hq_body r = call_body a"
  shows "routeExecution pf env (operator_security token) p r (call_method a) i (call_name a) s =
    (case plane_call pf env i a s of
       (Inl e, t) \<Rightarrow> (Inl (Raised e), t) | (Inr k, t) \<Rightarrow> (Inr (ok_response (ExecutionBody k)), t))"
  using assms
  by (cases a) (simp_all add: routeExecution_def call_method_def execution_route_run steer_message_def jget_def
      authorized_operator bindE_def ret_def getExecution_def run_defs)

lemma split_word: "CHR ''/'' \<notin> set w \<Longrightarrow> js_split (CHR ''/'') (w @ CHR ''/'' # s) = w # js_split (CHR ''/'') s"
  by (induction w) auto

lemma split_last: "CHR ''/'' \<notin> set w \<Longrightarrow> js_split (CHR ''/'') w = [w]"
  by (induction w) auto

lemma call_upper: "js_upper (call_method a) = call_method a"
  by (simp add: call_method_def js_upper_def upper_char_def is_lower_def)

lemma call_byParts:
  assumes "accepted pf i" and "hq_path r = call_path pf i a"
  shows "routeByParts pf env sec p r (call_method a) = routeExecution pf env sec p r (call_method a) i (call_name a)"
proof -
  have "CHR ''/'' \<notin> set (call_name a)" by (cases a) simp_all
  then have "js_split (CHR ''/'') (hq_path r) =
      [[], ''v1'', ''executions'', pf_uri_enc pf i] @ (if a = CallRead then [] else [call_name a])"
    using assms by (simp add: call_path_def execution_path_def accepted_def split_word split_last)
  then show ?thesis
    using assms(1) by (cases "a = CallRead")
      (simp_all add: routeByParts_def Let_def decodePathSegment_def accepted_def bind_lift)
qed

lemma handled_call:
  assumes "accepted pf i" and "store_get i (st s) = Some l"
    and "hq_method r = call_method a" and "hq_path r = call_path pf i a" and "hq_body r = call_body a"
    and auth: "readHeader (hq_headers r) ''authorization'' = Some (''Bearer '' @ token)"
  shows "http_handler pf env (operator_security token) sn r s =
    (case plane_call pf env i a s of (x, t) \<Rightarrow> (plane_answer x, t))"
proof -
  have up: "js_upper (hq_method r) = call_method a" by (simp add: assms(3) call_upper)
  have ne: "hq_path r \<noteq> ''/v1/source-snapshots''" "hq_path r \<noteq> ''/v1/execution-providers''" "hq_path r \<noteq> ''/v1/executions''"
    by (simp_all add: assms(4) call_path_def execution_path_def)
  have "call_method a = ''POST'' \<Longrightarrow> CHR ''/'' \<in> set (drop (length ''/v1/executions/'') (hq_path r))"
    by (simp add: assms(4) call_path_def execution_path_def call_method_def split: if_splits)
  then have reap: "\<not> (hq_path r = ''/v1/executions/reap'' \<and> call_method a = ''POST'')" by auto
  have route: "routeAgentExecutionRequest pf env sec sn p r =
      routeExecution pf env sec p r (call_method a) i (call_name a)" for sec p
    using ne reap call_byParts [OF assms(1,4)] unfolding routeAgentExecutionRequest_def Let_def up by auto
  have who: "se_authenticate (operator_security token) r w =
      (Inr (Some \<lparr>pr_subject = ''execution-service-operator'', pr_roles = Some [''admin'']\<rparr>), w)" for w
    by (simp add: operator_security_def auth constantTimeTextEqual_def)
  have "grant_api sn r = None"
    by (simp add: grant_api_def assms(4) call_path_def execution_path_def grant_prefix_def starts_with_def)
  then show ?thesis
    using call_route [OF assms(2,5)]
    by (simp add: http_handler_def handled_def authenticated_route_def bindE_def api_def call_def who route plane_answer_def
        split: prod.split sum.split)
qed

lemma remote_reply:
  assumes "json_of enc lj" and "rp_status reply = hp_status (plane_answer x)" and "rp_json reply = Some (enc (hp_body (plane_answer x)))"
    and "rp_ok reply \<longleftrightarrow> 200 \<le> rp_status reply \<and> rp_status reply \<le> 299"
  shows "bindE (if \<not> rp_ok reply then throw (reply_error reply ''Execution request'') else ret (reply_record reply))
     (\<lambda>payload. lift_sum (readLease payload)) t = remote lj (x, t)"
proof (cases x)
  case (Inr l)
  with assms show ?thesis
    by (simp add: plane_answer_def bindE_def ok_response_def ret_def reply_record_def object_or_empty_def readLease_def
        jget_def lift_sum_def remote_def json_of_def)
next
  case (Inl e)
  have "\<not> rp_ok reply"
    using error_response_error [of "Raised e"] Inl assms by (auto simp: plane_answer_def)
  with Inl assms show ?thesis
    by (cases e) (simp_all add: bindE_def throw_def remote_def remote_error_def reply_error_def reply_record_def
        plane_answer_def object_or_empty_def json_of_def jget_def isString_def js_str_def isObject_def Let_def)
qed

section \<open>The client over the Node adapter\<close>

text \<open>What is asked of the adapter's parameters for one call: the URL parser keeps the path of the call, the
  header check is absent or the operator's, the body fits the limit, and \<open>JSON.parse\<close> throws on an empty
  text and reads the two texts of the call - the body's and the response's - back as the values written.\<close>

definition carries :: "platform \<Rightarrow> ('w cps) node_env \<Rightarrow> (http_body \<Rightarrow> js) \<Rightarrow> string \<Rightarrow> string \<Rightarrow> lease_call \<Rightarrow> exn + lease \<Rightarrow> bool" where
  "carries pf nd enc token i a x \<longleftrightarrow>
     (\<exists>q. nd_url nd (call_path pf i a) (''http://'' @ nd_host nd) = Some (call_path pf i a, q)) \<and>
     nd_authenticate nd \<in> {None, Some (operator_headers token)} \<and> nd_maxBodyBytes nd > 0 \<and> nd_parse nd [] = None \<and>
     (call_body a \<noteq> JUndef \<longrightarrow>
        int (length (utf8 (json_stringify pf (call_body a)))) \<le> nd_maxBodyBytes nd \<and>
        nd_parse nd (json_stringify pf (call_body a)) = Some (call_body a)) \<and>
     nd_parse nd (json_stringify pf (enc (hp_body (plane_answer x))) @ [CHR 10]) = Some (enc (hp_body (plane_answer x)))"

abbreviation call_headers :: "string \<Rightarrow> (string \<times> string) list" where
  "call_headers token \<equiv> [(''authorization'', ''Bearer '' @ token), (''content-type'', ''application/json'')]"

lemma utf8_empty: "utf8 t = [] \<longleftrightarrow> t = []"
  by (cases t) (simp_all add: utf8_Cons utf8_char_def Let_def)

lemma call_metadata:
  assumes "carries pf nd enc token i a x"
  obtains r where "request_metadata nd (node_request_of pf base (base @ call_path pf i a) (call_method a) (call_headers token)
      (if call_body a = JUndef then None else Some (call_body a))) = Inr r"
    and "hq_method r = call_method a" "hq_path r = call_path pf i a"
    and "readHeader (hq_headers r) ''authorization'' = Some (''Bearer '' @ token)"
  using assms
  by (auto simp: carries_def request_metadata_def node_request_of_def normalizeHeaders_def readHeader_def js_lower_def
      lower_char_def is_upper_def)

lemma call_readBody:
  assumes "carries pf nd enc token i a x"
  shows "node_readJsonBody nd (nq_body (node_request_of pf base url method headers
      (if call_body a = JUndef then None else Some (call_body a)))) = Inr (call_body a)"
  using assms by (auto simp: carries_def node_readJsonBody_def node_request_of_def utf8_empty)

lemma call_carried:
  assumes "accepted pf i" and "store_get i (st s) = Some l" and "plane_call pf env i a s = (x, t)"
    and c: "carries pf nd enc token i a x"
  shows "node_listener pf nd enc (http_handler pf env (operator_security token) sn)
      (node_request_of pf base (base @ call_path pf i a) (call_method a) (call_headers token)
        (if call_body a = JUndef then None else Some (call_body a))) s =
    (writeJson pf (hp_status (plane_answer x)) (enc (hp_body (plane_answer x))), t)"
proof -
  define q where "q = node_request_of pf base (base @ call_path pf i a) (call_method a)
      (call_headers token) (if call_body a = JUndef then None else Some (call_body a))"
  from c obtain r where r: "request_metadata nd q = Inr r"
    "hq_method r = call_method a" "hq_path r = call_path pf i a"
    "readHeader (hq_headers r) ''authorization'' = Some (''Bearer '' @ token)"
    unfolding q_def by (rule call_metadata)
  have body: "node_readJsonBody nd (nq_body q) = Inr (call_body a)"
    unfolding q_def by (rule call_readBody [OF c])
  have "(case nd_authenticate nd of None \<Rightarrow> (Inr True, s) | Some ask \<Rightarrow> ask r s) = (Inr True, s)"
    using c r(4) by (auto simp: carries_def operator_headers_def constantTimeTextEqual_def)
  moreover have "http_handler pf env (operator_security token) sn (r\<lparr>hq_body := call_body a\<rparr>) s = (plane_answer x, t)"
    using handled_call [OF assms(1,2), of "r\<lparr>hq_body := call_body a\<rparr>" a token env sn] r assms(3) by simp
  ultimately have "node_listener pf nd enc (http_handler pf env (operator_security token) sn) q s =
      (writeJson pf (hp_status (plane_answer x)) (enc (hp_body (plane_answer x))), t)"
    by (simp add: node_listener_def r(1) body)
  then show ?thesis by (simp only: q_def)
qed

text \<open>C22: The HTTP client over the Node adapter is the control plane: for an execution that exists and the
  operator's token, reading its lease and each action posted to it - approval, input, steer, suspend,
  resume, collect, terminate - ends in the state the control plane's method ends in, returns the JSON of
  the lease the method returns, and throws an error with the code, message and documented status of the
  error the method throws; provided the URL parser and \<open>JSON.parse\<close> read back the path and the JSON texts
  of this call and its body fits the adapter's limit.\<close>

theorem client_is_control_plane:
  assumes "accepted pf i" and "store_get i (st s) = Some l" and "json_of enc lj"
    and "plane_call pf env i a s = (x, t)" and "carries pf nd enc token i a x"
  shows "client_call pf (wired pf nd enc (http_handler pf env (operator_security token) sn) token base) i a s =
    remote lj (x, t)"
proof -
  let ?c = "wired pf nd enc (http_handler pf env (operator_security token) sn) token base"
  let ?y = "reply_of nd (writeJson pf (hp_status (plane_answer x)) (enc (hp_body (plane_answer x))))"
  have "send ?c (call_path pf i a) (call_method a) (call_body a) s = (Inr ?y, t)"
    using call_carried [OF assms(1,2,4,5), of sn base] by (simp add: send_def wired_def bindE_def)
  moreover have "rp_status ?y = hp_status (plane_answer x)" "rp_json ?y = Some (enc (hp_body (plane_answer x)))"
    "rp_ok ?y \<longleftrightarrow> 200 \<le> rp_status ?y \<and> rp_status ?y \<le> 299"
    using assms(5) by (simp_all add: reply_of_def writeJson_def carries_def)
  note remote_reply [OF assms(3) this, of t]
  ultimately show ?thesis by (simp add: client_call_request request_def bindE_def)
qed

definition demo_json :: "http_body \<Rightarrow> js" where
  "demo_json b = (case b of
      ErrorBody c m d \<Rightarrow> JObj [(''ok'', JBool False), (''error'', JObj ([(''code'', JStr c), (''message'', JStr m)] @
        (case d of None \<Rightarrow> [] | Some v \<Rightarrow> [(''details'', v)])))]
    | ExecutionBody l \<Rightarrow> JObj [(''ok'', JBool True), (''execution'', JObj [(''id'', JStr (le_id l))])]
    | _ \<Rightarrow> JObj [(''ok'', JBool True)])"

text \<open>An adapter whose parser knows the two texts of the steering call below.\<close>

definition demo_node :: "js list \<Rightarrow> ('w cps) node_env" where
  "demo_node vs = \<lparr>nd_host = ''127.0.0.1'', nd_maxBodyBytes = DEFAULT_MAX_BODY_BYTES,
     nd_authenticate = Some (operator_headers ''t''), nd_url = (\<lambda>path _. Some (path, [])),
     nd_parse = (\<lambda>t. find (\<lambda>v. t = json_stringify demo_pf v \<or> t = json_stringify demo_pf v @ [CHR 10]) vs)\<rparr>"

lemma demo_text: "\<exists>u. json_stringify pf (demo_json b) = CHR ''{'' # json_quote ''ok'' @ u"
  by (cases b) (auto simp: json_stringify_def demo_json_def)

lemma demo_read:
  assumes "vs = [JObj [(''message'', JStr ''go'')], demo_json b]"
  shows "nd_parse (demo_node vs) [] = None"
    and "nd_parse (demo_node vs) (json_stringify demo_pf (JObj [(''message'', JStr ''go'')])) = Some (JObj [(''message'', JStr ''go'')])"
    and "nd_parse (demo_node vs) (json_stringify demo_pf (demo_json b) @ [CHR 10]) = Some (demo_json b)"
  using demo_text [of demo_pf b] by (auto simp: assms demo_node_def json_stringify_def json_quote_def json_esc_def)

lemma demo_fits: "int (length (utf8 (json_stringify demo_pf (JObj [(''message'', JStr ''go'')])))) \<le> DEFAULT_MAX_BODY_BYTES"
  by code_simp

lemma demo_node_fields:
  "nd_url (demo_node vs) path base = Some (path, [])" "nd_authenticate (demo_node vs) = Some (operator_headers ''t'')"
  "nd_maxBodyBytes (demo_node vs) = DEFAULT_MAX_BODY_BYTES" "0 < DEFAULT_MAX_BODY_BYTES"
  by (simp_all add: demo_node_def DEFAULT_MAX_BODY_BYTES_def)

theorem client_is_control_plane_witness:
  "\<exists>x t v. plane_call demo_pf demo_env running_id (CallSteer ''go'') (running (running_lease [])) = (x, t) \<and>
     client_call demo_pf (wired demo_pf (demo_node [call_body (CallSteer ''go''), v]) demo_json
       (http_handler demo_pf demo_env (operator_security ''t'') None) ''t'' ''https://c'')
       running_id (CallSteer ''go'') (running (running_lease [])) = remote (\<lambda>l. JObj [(''id'', JStr (le_id l))]) (x, t)"
proof -
  obtain x t where x: "plane_call demo_pf demo_env running_id (CallSteer ''go'') (running (running_lease [])) = (x, t)"
    by fastforce
  let ?v = "demo_json (hp_body (plane_answer x))"
  have "carries demo_pf (demo_node [call_body (CallSteer ''go''), ?v]) demo_json ''t'' running_id (CallSteer ''go'') x"
    using demo_read [OF HOL.refl, of "hp_body (plane_answer x)"]
    by (simp add: carries_def demo_node_fields demo_fits)
  from client_is_control_plane [OF _ _ _ x this, of "running_lease []" "\<lambda>l. JObj [(''id'', JStr (le_id l))]" None "''https://c''"]
  show ?thesis using x
    by (auto simp: json_of_def demo_json_def accepted_def demo_pf_def running_id_def)
qed

end
