(* ===== verification/Execution_Worker_Properties.thy ===== *)
theory Execution_Worker_Properties
  imports Execution_Worker Execution_Http_Properties
begin

text \<open>
  The properties of the sandbox worker: what reaches the driver was checked against the declared
  source, nothing reaches it unauthenticated, and, composed with the control plane's handler and the
  snapshot store, the driver gets exactly what was uploaded.
\<close>

section \<open>What reaches the driver\<close>

definition verified :: "platform \<Rightarrow> 'w worker_env \<Rightarrow> js \<Rightarrow> bytes \<Rightarrow> bool" where
  "verified pf we declared content \<longleftrightarrow>
     jget declared ''sizeBytes'' = JNum (num_of_int (int (length content))) \<and>
     buffer_hex pf we (jget declared ''sha256'') = Inr (pf_hex_dec pf (pf_sha256 pf content))"

lemma verifyContent_ok:
  "verifyContent pf we content (jget d ''sha256'') (jget d ''sizeBytes'') label = Inr u \<longleftrightarrow> verified pf we d content"
  by (auto simp: verifyContent_def verified_def Let_def split: sum.splits)

lemma checked_payload_ok:
  assumes "checked_payload pf we source payload = Inr (archive, patch)"
  shows "verified pf we source archive \<and> (truthy (jget source ''patch'') \<longleftrightarrow> patch \<noteq> None) \<and>
    (case patch of None \<Rightarrow> True | Some p \<Rightarrow> verified pf we (jget source ''patch'') p)"
  using assms verifyContent_ok [of pf we _ source] verifyContent_ok [of pf we _ "jget source ''patch''"]
  by (auto simp: checked_payload_def split: sum.splits option.splits if_splits)

definition worker_response_ok :: "worker_response \<Rightarrow> bool" where
  "worker_response_ok a \<longleftrightarrow> (wr_status a = 200 \<and> (\<nexists>c m. wr_body a = WorkerFailure c m)) \<or>
     (wr_status a \<in> {400, 401, 404, 500, 502} \<and> (\<exists>c m. wr_body a = WorkerFailure c m))"

definition worker_exn_ok :: "worker_exn \<Rightarrow> bool" where
  "worker_exn_ok e \<longleftrightarrow> (case e of WorkerError _ _ n \<Rightarrow> n \<in> {400, 401, 502} | DriverError _ \<Rightarrow> True)"

lemma worker_exn_ok_simps [simp]:
  "worker_exn_ok (WorkerError c m n) \<longleftrightarrow> n \<in> {400, 401, 502}" "worker_exn_ok (DriverError e)"
  "worker_exn_ok (invalidRequest m)" "worker_exn_ok (invalidSource m)"
  by (simp_all add: worker_exn_ok_def invalidRequest_def invalidSource_def)

lemma worker_response_ok_simps [simp]:
  "worker_response_ok (worker_ok b) \<longleftrightarrow> (\<nexists>c m. b = WorkerFailure c m)" "worker_response_ok (worker_notFound path)"
  by (auto simp: worker_response_ok_def worker_ok_def worker_notFound_def)

lemma worker_error_ok: "worker_exn_ok e \<Longrightarrow> worker_response_ok (worker_error e)"
  by (cases e) (auto simp: worker_response_ok_def)

lemma stays_driver [stays_intros]: "stays worker_exn_ok whatever (driver f)"
  by (auto simp: stays_def wp_def driver_def split: prod.splits sum.splits)

lemma stays_checks [stays_intros]:
  "stays worker_exn_ok whatever (lift_sum (js_length pf v))"
  "stays worker_exn_ok whatever (lift_sum (readWorkspaceInput body))"
  "stays worker_exn_ok whatever (lift_sum (readStartInput body))"
  "stays worker_exn_ok whatever (lift_sum (worker_limit pf q))"
  "stays worker_exn_ok whatever (lift_sum (worker_decode pf p))"
  by (rule stays_lift_sum; auto simp: js_length_def readWorkspaceInput_def readStartInput_def worker_limit_def worker_decode_def
      Let_def split: js.splits if_splits option.splits)+

lemma verifyContent_error: "verifyContent pf we b x n l = Inl e \<Longrightarrow> worker_exn_ok e"
  by (auto simp: verifyContent_def buffer_hex_def Let_def split: sum.splits js.splits if_splits)

lemma decode_error: "decodeCanonicalBase64 pf v l = Inl e \<Longrightarrow> worker_exn_ok e"
  by (auto simp: decodeCanonicalBase64_def Let_def split: if_splits)

lemma checked_payload_error: "checked_payload pf we source payload = Inl e \<Longrightarrow> worker_exn_ok e"
  by (auto simp: checked_payload_def dest: verifyContent_error decode_error split: sum.splits option.splits if_splits)

lemma stays_fetch [stays_intros]: "stays worker_exn_ok whatever (fetch_source pf we i a)"
  by (auto simp: stays_def wp_def fetch_source_def split: prod.splits sum.splits)

lemma stays_access [stays_intros]: "stays worker_exn_ok whatever (validateSourceAccess pf we a)"
  unfolding validateSourceAccess_def Let_def by (intro stays_intros) simp_all

definition material_ok :: "platform \<Rightarrow> 'w worker_env \<Rightarrow> workspace_input \<Rightarrow> worker_material \<Rightarrow> bool" where
  "material_ok pf we inp m \<longleftrightarrow> wm_executionId m = wi_executionId inp \<and> wm_source m = wi_source inp \<and>
     (if jget (wi_source inp) ''kind'' = JStr ''git'' then wm_archive m = None \<and> wm_workingTreePatch m = None
      else \<exists>a. wm_archive m = Some a \<and> verified pf we (wi_source inp) a \<and>
        (truthy (jget (wi_source inp) ''patch'') \<longleftrightarrow> wm_workingTreePatch m \<noteq> None) \<and>
        (case wm_workingTreePatch m of None \<Rightarrow> True | Some p \<Rightarrow> verified pf we (jget (wi_source inp) ''patch'') p))"

lemma stays_material: "stays worker_exn_ok (material_ok pf we inp) (resolveWorkspaceMaterial pf we inp)"
proof (cases "jget (wi_source inp) ''kind'' = JStr ''git''")
  case True
  then show ?thesis by (simp add: resolveWorkspaceMaterial_def material_ok_def stays_ret)
next
  case False
  have checked: "stays worker_exn_ok (material_ok pf we inp) (bindE (lift_sum (checked_payload pf we (wi_source inp) payload))
      (\<lambda>(archive, patch). ret \<lparr>wm_executionId = wi_executionId inp, wm_source = wi_source inp, wm_archive = Some archive,
         wm_workingTreePatch = patch\<rparr>))" for payload
    by (rule stays_bind [where R = "\<lambda>x. checked_payload pf we (wi_source inp) payload = Inr x"],
        rule stays_lift_sum [OF _ checked_payload_error], assumption, assumption)
      (use False checked_payload_ok in \<open>fastforce intro: stays_intros simp: material_ok_def\<close>)
  show ?thesis
    unfolding resolveWorkspaceMaterial_def Let_def if_not_P [OF False]
    by (intro stays_option stays_throw stays_then [OF stays_access] stays_bind_any [OF stays_fetch] stays_if checked) simp_all
qed

text \<open>C23: The material handed to the driver is what the execution declared: for a git source no bytes, for a
  snapshot an archive of the declared size and digest, and a patch exactly if one is declared, of
  its declared size and digest.\<close>

theorem worker_material_verified:
  "case resolveWorkspaceMaterial pf we inp w of (Inl _, _) \<Rightarrow> True
    | (Inr m, _) \<Rightarrow> wm_executionId m = wi_executionId inp \<and> wm_source m = wi_source inp \<and>
        (if jget (wi_source inp) ''kind'' = JStr ''git'' then wm_archive m = None \<and> wm_workingTreePatch m = None
         else \<exists>a. wm_archive m = Some a \<and> verified pf we (wi_source inp) a \<and>
           (truthy (jget (wi_source inp) ''patch'') \<longleftrightarrow> wm_workingTreePatch m \<noteq> None) \<and>
           (case wm_workingTreePatch m of None \<Rightarrow> True | Some p \<Rightarrow> verified pf we (jget (wi_source inp) ''patch'') p))"
  using staysD [OF stays_material, of pf we inp w]
  by (auto simp: wp_def material_ok_def simp del: not_None_eq split: prod.splits sum.splits)

section \<open>Answers\<close>

lemma stays_run_route: "stays worker_exn_ok worker_response_ok (run_route pf we r method runId action requestId)"
  unfolding run_route_def Let_def by (intro stays_intros) simp_all

lemma stays_routed: "stays worker_exn_ok worker_response_ok (worker_routed pf we r)"
  unfolding worker_routed_def routeWorkerRequest_def workspace_route_def start_route_def Let_def
  by (intro stays_intros stays_run_route stays_bind [OF stays_material]) simp_all

text \<open>The worker answers every request, with 200 and a result or with an error status and an error body.\<close>

theorem worker_always_answers:
  "(wr_status (fst (worker_handler pf we r w)) = 200 \<and> (\<nexists>c m. wr_body (fst (worker_handler pf we r w)) = WorkerFailure c m)) \<or>
   (wr_status (fst (worker_handler pf we r w)) \<in> {400, 401, 404, 500, 502} \<and>
     (\<exists>c m. wr_body (fst (worker_handler pf we r w)) = WorkerFailure c m))"
proof -
  have "worker_response_ok (fst (worker_handler pf we r w))"
    using staysD [OF stays_routed, of pf we r w] worker_error_ok
    by (auto simp: wp_def worker_handler_def split: prod.splits sum.splits)
  then show ?thesis by (simp add: worker_response_ok_def)
qed

text \<open>A request that does not authenticate is answered with 401 and reaches neither the driver nor the
  network: the world is as the authentication callback left it.\<close>

theorem worker_unauthenticated:
  assumes "we_authenticate we r w = (Inr False, w')"
  shows "worker_handler pf we r w = (\<lparr>wr_status = 401, wr_body = WorkerFailure ''EXECUTION_WORKER_AUTHENTICATION_REQUIRED''
    ''Sandbox execution authentication is required.''\<rparr>, w')"
  using assms by (simp add: worker_handler_def worker_routed_def driver_def bindE_def throw_def)

definition closed_worker :: "nat worker_env" where
  "closed_worker = \<lparr>we_driver = \<lparr>dr_prepareWorkspace = (\<lambda>_ n. (Inl (JsError None []), Suc n)),
       dr_startExecution = (\<lambda>_ n. (Inr ''r'', Suc n)), dr_readEvents = (\<lambda>_ _ _ n. (Inl (JsError None []), Suc n)),
       dr_resolveApproval = (\<lambda>_ _ n. (Inr (), Suc n)), dr_submitInput = (\<lambda>_ _ n. (Inr (), Suc n)),
       dr_steer = (\<lambda>_ _ n. (Inr (), Suc n)), dr_collectResult = (\<lambda>_ n. (Inl (JsError None []), Suc n))\<rparr>,
     we_fetch = (\<lambda>_ _ n. (Inl (JsError None []), Suc n)), we_authenticate = (\<lambda>r n. (Inr (hq_headers r \<noteq> []), n)),
     we_now = (\<lambda>n. (0, n)), we_buffer = (\<lambda>_. Inr [])\<rparr>"

theorem worker_unauthenticated_witness:
  "worker_handler demo_pf closed_worker \<lparr>hq_method = ''POST'', hq_path = ''/runs'', hq_headers = [], hq_query = None,
     hq_body = JObj []\<rparr> 5 = (\<lparr>wr_status = 401, wr_body = WorkerFailure ''EXECUTION_WORKER_AUTHENTICATION_REQUIRED''
    ''Sandbox execution authentication is required.''\<rparr>, 5)"
  by (rule worker_unauthenticated) (simp add: closed_worker_def)

end
