(* ===== verification/Snapshot_Delivery.thy ===== *)
theory Snapshot_Delivery
  imports Execution_Worker_Properties
begin

text \<open>
  From the upload to the sandbox: the broker of the control plane grants a stored snapshot to an
  execution, the worker fetches it over HTTP with the grant's token, and hands the driver exactly
  the uploaded archive and patch.

  The wire is the JSON of the three values that cross it: the source the upload was answered with,
  the access the broker prepared, and the download.
\<close>

section \<open>What crosses the wire\<close>

definition json_field :: "string \<Rightarrow> js option \<Rightarrow> (string \<times> js) list" where
  "json_field k v = (case v of None \<Rightarrow> [] | Some x \<Rightarrow> [(k, x)])"

definition json_count :: "nat \<Rightarrow> js" where
  "json_count n = JNum (num_of_int (int n))"

definition patch_json :: "snapshot_patch \<Rightarrow> js" where
  "patch_json q = JObj [(''artifactId'', JStr (sp_artifactId q)), (''sha256'', JStr (sp_sha256 q)),
     (''sizeBytes'', json_count (sp_sizeBytes q))]"

definition source_json :: "snapshot_source \<Rightarrow> js" where
  "source_json src = JObj ([(''kind'', JStr ''snapshot''), (''snapshotId'', JStr (so_snapshotId src)),
     (''sha256'', JStr (so_sha256 src)), (''sizeBytes'', json_count (so_sizeBytes src)),
     (''baseCommit'', JStr (so_baseCommit src))] @
     json_field ''repository'' (map_option JStr (so_repository src)) @
     json_field ''branch'' (map_option JStr (so_branch src)) @
     json_field ''patch'' (map_option patch_json (so_patch src)) @
     [(''selection'', JObj [(''includesWorkingTreePatch'', JBool (so_includesWorkingTreePatch src)),
       (''excluded'', JArr (map JStr (so_excluded src)))])])"

definition access_json :: "source_access \<Rightarrow> js" where
  "access_json a = JObj [(''kind'', JStr (sa_kind a)), (''endpoint'', JStr (sa_endpoint a)),
     (''grantId'', JStr (sa_grantId a)), (''token'', JStr (sa_token a)), (''expiresAt'', JStr (sa_expiresAt a))]"

definition download_json :: "http_body \<Rightarrow> js" where
  "download_json b = (case b of
      DownloadBody src archive patch \<Rightarrow> JObj ([(''ok'', JBool True), (''snapshot'', source_json src),
        (''archiveBase64'', JStr archive)] @ json_field ''workingTreePatchBase64'' (map_option JStr patch))
    | _ \<Rightarrow> JObj [(''ok'', JBool False)])"

text \<open>The request of a \<open>fetch\<close> as the handler gets it: the path is what follows the base URL.\<close>

definition wire_request :: "string \<Rightarrow> string \<Rightarrow> string \<Rightarrow> (string \<times> string) list \<Rightarrow> js option \<Rightarrow> http_request" where
  "wire_request base url method headers body =
     \<lparr>hq_method = method, hq_path = drop (length base) url, hq_headers = map (\<lambda>(k, v). (k, Some v)) headers,
      hq_query = None, hq_body = (case body of None \<Rightarrow> JUndef | Some b \<Rightarrow> b)\<rparr>"

text \<open>The worker's \<open>fetch\<close>, when the control plane it reaches is the handler over the file store.\<close>

definition grant_fetch ::
  "platform \<Rightarrow> ('w snapshot_disk) cp_env \<Rightarrow> ('w snapshot_disk) security \<Rightarrow> 'w snapshot_options \<Rightarrow> string \<Rightarrow>
   string \<Rightarrow> (string \<times> string) list \<Rightarrow> ('w snapshot_disk) cps \<Rightarrow> (exn + fetched) \<times> ('w snapshot_disk) cps" where
  "grant_fetch pf env sec opts base url headers s =
     (case http_handler pf env sec (Some (disk_api pf opts)) (wire_request base url ''GET'' headers None) s of
        (a, t) \<Rightarrow> (Inr \<lparr>fe_ok = (200 \<le> hp_status a \<and> hp_status a \<le> 299), fe_status = hp_status a,
           fe_json = Some (download_json (hp_body a))\<rparr>, t))"

lemma source_json_fields [simp]:
  "jget (source_json src) ''kind'' = JStr ''snapshot''"
  "jget (source_json src) ''snapshotId'' = JStr (so_snapshotId src)"
  "jget (source_json src) ''sha256'' = JStr (so_sha256 src)"
  "jget (source_json src) ''sizeBytes'' = json_count (so_sizeBytes src)"
  "jget (source_json src) ''patch'' = (case so_patch src of None \<Rightarrow> JUndef | Some q \<Rightarrow> patch_json q)"
  by (simp_all add: source_json_def jget_def json_field_def split: option.split)

lemma patch_json_fields [simp]:
  "jget (patch_json q) ''sha256'' = JStr (sp_sha256 q)" "jget (patch_json q) ''sizeBytes'' = json_count (sp_sizeBytes q)"
  "truthy (patch_json q)"
  by (simp_all add: patch_json_def jget_def truthy_def)

lemma access_json_fields [simp]:
  "jget (access_json a) ''kind'' = JStr (sa_kind a)" "jget (access_json a) ''endpoint'' = JStr (sa_endpoint a)"
  "jget (access_json a) ''token'' = JStr (sa_token a)" "jget (access_json a) ''expiresAt'' = JStr (sa_expiresAt a)"
  by (simp_all add: access_json_def jget_def)

lemma download_json_fields [simp]:
  "isObject (download_json (DownloadBody src a p))"
  "jget (download_json (DownloadBody src a p)) ''archiveBase64'' = JStr a"
  "jget (download_json (DownloadBody src a p)) ''workingTreePatchBase64'' = (case p of None \<Rightarrow> JUndef | Some q \<Rightarrow> JStr q)"
  by (simp_all add: download_json_def jget_def json_field_def isObject_def split: option.split)

lemma truthy_undef: "\<not> truthy JUndef"
  by (simp add: truthy_def)

section \<open>The steps of a delivery\<close>

text \<open>The payload of a download passes the worker's checks against the source of the upload.\<close>

lemma checked_download:
  assumes codec: "\<And>b. pf_b64_dec pf (pf_b64_enc pf b) = b"
  shows "checked_payload pf we (source_json (snapshot_source_of pf u)) (download_json (DownloadBody src
     (pf_b64_enc pf (up_archive u)) (map_option (pf_b64_enc pf) (up_workingTreePatch u)))) =
   Inr (up_archive u, up_workingTreePatch u)"
  using codec
  by (cases "up_workingTreePatch u")
    (simp_all add: checked_payload_def decodeCanonicalBase64_def verifyContent_def buffer_hex_def snapshot_source_of_def
      json_count_def isString_def js_str_def truthy_undef Let_def)

lemma access_valid:
  assumes "sa_kind a = ''control-plane-grant''" and "pf_url pf (sa_endpoint a) = Some v" and "u_protocol v = ''https:''"
    and "16 \<le> length (sa_token a)" and "length (sa_token a) \<le> 512"
    and "pf_date pf (sa_expiresAt a) = Some e" and "we_now we s = (t, s)" and "t < e"
  shows "validateSourceAccess pf we (access_json a) s = (Inr (), s)"
  using assms by (simp add: validateSourceAccess_def date_value_def js_length_def Let_def run_defs)

text \<open>A fetch with an accepted grant is answered with its download.\<close>

lemma grant_fetched:
  assumes "accepted pf i" and "ex \<noteq> []" and "tok \<noteq> []"
    and c: "disk_consumeGrant pf opts \<lparr>ci_grantId = i, ci_executionId = ex, ci_token = tok\<rparr> (wd s) = (Inr d, w)"
  shows "grant_fetch pf env sec opts base (base @ ''/v1/source-grants/'' @ pf_uri_enc pf i)
      [(''authorization'', ''Bearer '' @ tok), (''x-mezair-execution-id'', ex)] s =
    (Inr \<lparr>fe_ok = True, fe_status = 200, fe_json = Some (download_json (DownloadBody (sr_source (dl_record d))
       (pf_b64_enc pf (dl_archive d)) (map_option (pf_b64_enc pf) (dl_workingTreePatch d))))\<rparr>, s\<lparr>wd := w\<rparr>)"
proof -
  let ?r = "wire_request base (base @ grant_prefix @ pf_uri_enc pf i) ''GET''
    [(''authorization'', ''Bearer '' @ tok), (''x-mezair-execution-id'', ex)] None"
  have up: "js_upper ''GET'' = ''GET''" by (simp add: js_upper_def upper_char_def is_lower_def)
  have path: "hq_path ?r = grant_prefix @ pf_uri_enc pf i" by (simp add: wire_request_def)
  have g: "grant_api (Some (disk_api pf opts)) ?r = Some (disk_api pf opts)"
    unfolding grant_api_def path by (simp add: wire_request_def up starts_with_def)
  have h: "bearer_token ?r = Some tok" "readHeader (hq_headers ?r) ''x-mezair-execution-id'' = Some ex"
    by (simp_all add: wire_request_def bearer_token_def readHeader_def js_lower_def lower_char_def is_upper_def starts_with_def)
  have sx: "sx_consumeGrant (disk_api pf opts) = disk_consumeGrant pf opts" by (simp add: disk_api_def)
  have "consumeSourceGrant pf (disk_api pf opts) ?r s = (Inr (ok_response (DownloadBody (sr_source (dl_record d))
       (pf_b64_enc pf (dl_archive d)) (map_option (pf_b64_enc pf) (dl_workingTreePatch d)))), s\<lparr>wd := w\<rparr>)"
    using assms(1-3) c unfolding consumeSourceGrant_def path h
    by (simp add: accepted_def decodePathSegment_def bind_lift bindE_def api_def call_def sx ret_def)
  then show ?thesis
    unfolding grant_fetch_def grant_prefix_def [symmetric] http_handler_def handled_def g option.case
    by (simp add: ok_response_def)
qed

lemma prepared_run:
  assumes "prepareAccess pf issue br ex ws src ttl s = (Inr (Some a), t)"
  obtains g where "issue \<lparr>is_workspace = ws, is_snapshotId = js_str (jget src ''snapshotId''), is_executionId = ex,
      is_ttlSeconds = Some (num_of_int (min ttl (br_grantTtlSeconds br)))\<rparr> s = (Inr g, t)"
    and "a = \<lparr>sa_kind = ''control-plane-grant'', sa_endpoint = br_baseUrl br @ ''/v1/source-grants/'' @ pf_uri_enc pf (sg_id g),
      sa_grantId = sg_id g, sa_token = sg_token g, sa_expiresAt = pf_iso pf (sg_expiresAt g)\<rparr>"
  using assms by (auto simp: prepareAccess_def bindE_def ret_def split: if_splits prod.splits sum.splits)

section \<open>Delivery\<close>

text \<open>C24: A snapshot that was uploaded and granted to an execution reaches the sandbox unchanged: with the
  access the broker prepared, before it expires, the worker's fetch from the control plane yields
  the declared source with exactly the archive and the patch that were uploaded. It rests on the
  base64 codec, on dates and URLs surviving their text, and on no other content having the digests.\<close>

theorem snapshot_delivery:
  assumes "disk_view d = Some x" and "contents_ok pf (map_of (sd_objects d)) x" and "\<And>b. pf_sha256 pf b \<noteq> []"
    and "disk_put pf opts u d = (Inr r, d1)"
    and "prepareAccess pf (disk_issueGrant pf opts) br ex (up_workspace u) (source_json (sr_source r)) ttl d1 = (Inr (Some a), wd s)"
    and "we_fetch we = grant_fetch pf env sec opts (br_baseUrl br)" and "we_now we s = (t, s)"
    and "\<And>e. sa_expiresAt a = pf_iso pf e \<Longrightarrow> pf_date pf (sa_expiresAt a) = Some e \<and> t < e \<and> fst (op_now opts (sd_wd (wd s))) < e"
    and "pf_url pf (sa_endpoint a) = Some v" and "u_protocol v = ''https:''"
    and "accepted pf (sa_grantId a)" and "ex \<noteq> []" and "16 \<le> length (sa_token a)" and "length (sa_token a) \<le> 512"
    and "\<And>b. pf_b64_dec pf (pf_b64_enc pf b) = b"
    and "\<And>b c. pf_sha256 pf b = pf_sha256 pf c \<Longrightarrow> c = up_archive u \<or> up_workingTreePatch u = Some c \<Longrightarrow> b = c"
  shows "fst (resolveWorkspaceMaterial pf we \<lparr>wi_executionId = ex, wi_source = source_json (sr_source r),
      wi_access = Some (access_json a)\<rparr> s) =
    Inr \<lparr>wm_executionId = ex, wm_source = source_json (sr_source r), wm_archive = Some (up_archive u),
      wm_workingTreePatch = up_workingTreePatch u\<rparr>"
proof -
  from assms(1,2) have sound: "disk_content.sound pf d" by (auto simp: disk_content.sound_def)
  from disk_content.put_effect [OF assms(1), where pf = pf and opts = opts and u = u] assms(4) have src: "sr_source r = snapshot_source_of pf u" by simp
  from assms(5) obtain g where
    g: "disk_issueGrant pf opts \<lparr>is_workspace = up_workspace u, is_snapshotId = so_snapshotId (sr_source r),
        is_executionId = ex, is_ttlSeconds = Some (num_of_int (min ttl (br_grantTtlSeconds br)))\<rparr> d1 = (Inr g, wd s)"
    and a: "a = \<lparr>sa_kind = ''control-plane-grant'', sa_endpoint = br_baseUrl br @ ''/v1/source-grants/'' @ pf_uri_enc pf (sg_id g),
      sa_grantId = sg_id g, sa_token = sg_token g, sa_expiresAt = pf_iso pf (sg_expiresAt g)\<rparr>"
    by (rule prepared_run) (simp add: js_str_def)
  have exp: "pf_date pf (sa_expiresAt a) = Some (sg_expiresAt g)" "t < sg_expiresAt g"
    "fst (op_now opts (sd_wd (wd s))) < sg_expiresAt g"
    using assms(8) [of "sg_expiresAt g"] by (simp_all add: a)
  have kind: "sa_kind a = ''control-plane-grant''" by (simp add: a)
  note valid = access_valid [OF kind assms(9,10,13,14) exp(1) assms(7) exp(2)]
  from assms(14) have tok: "length (sg_token g) \<le> 512" by (simp add: a)
  from disk_content.round_trip [OF sound assms(3) assms(4) g exp(3) tok assms(16)] obtain w where
    "disk_consumeGrant pf opts \<lparr>ci_grantId = sg_id g, ci_executionId = ex, ci_token = sg_token g\<rparr> (wd s) =
      (Inr \<lparr>dl_record = r, dl_archive = up_archive u, dl_workingTreePatch = up_workingTreePatch u\<rparr>, w)" by blast
  moreover have "accepted pf (sg_id g)" and "sg_token g \<noteq> []" using assms(11,13) by (auto simp: a)
  ultimately have "fetch_source pf we ex (access_json a) s = (Inr \<lparr>fe_ok = True, fe_status = 200, fe_json = Some (download_json
      (DownloadBody (sr_source r) (pf_b64_enc pf (up_archive u)) (map_option (pf_b64_enc pf) (up_workingTreePatch u))))\<rparr>,
      s\<lparr>wd := w\<rparr>)"
    using grant_fetched [of pf "sg_id g" ex "sg_token g" opts s] assms(12) by (simp add: fetch_source_def assms(6) a)
  with valid show ?thesis
    by (simp add: resolveWorkspaceMaterial_def thenE_def bindE_def src checked_download [OF assms(15)] lift_sum_def ret_def)
qed

text \<open>The scenario's snapshot, granted by a broker, and a worker whose clock is at the start.\<close>

definition snap_broker :: source_broker where
  "snap_broker = \<lparr>br_baseUrl = ''https://c'', br_grantTtlSeconds = 300\<rparr>"

definition snap_access :: source_access where
  "snap_access = \<lparr>sa_kind = ''control-plane-grant'', sa_endpoint = ''https://c/v1/source-grants/grant_0'',
     sa_grantId = ''grant_0'', sa_token = snap_token, sa_expiresAt = int_str 301002\<rparr>"

definition snap_worker :: "((nat snapshot_disk) cps) worker_env" where
  "snap_worker = \<lparr>we_driver = \<lparr>dr_prepareWorkspace = (\<lambda>_ s. (Inl (JsError None []), s)),
       dr_startExecution = (\<lambda>_ s. (Inr ''r'', s)), dr_readEvents = (\<lambda>_ _ _ s. (Inl (JsError None []), s)),
       dr_resolveApproval = (\<lambda>_ _ s. (Inr (), s)), dr_submitInput = (\<lambda>_ _ s. (Inr (), s)),
       dr_steer = (\<lambda>_ _ s. (Inr (), s)), dr_collectResult = (\<lambda>_ s. (Inl (JsError None []), s))\<rparr>,
     we_fetch = grant_fetch snap_pf grant_env (operator_security ''o'') snap_opts (br_baseUrl snap_broker),
     we_authenticate = (\<lambda>r s. (Inr True, s)), we_now = (\<lambda>s. (1002, s)), we_buffer = (\<lambda>_. Inr [])\<rparr>"

lemma issue_default: "disk_issueGrant pf opts (n\<lparr>is_ttlSeconds := Some (num_of_int 300)\<rparr>) =
    disk_issueGrant pf opts (n\<lparr>is_ttlSeconds := None\<rparr>)"
proof -
  have "createGrant pf opts (n\<lparr>is_ttlSeconds := Some (num_of_int 300)\<rparr>) = createGrant pf opts (n\<lparr>is_ttlSeconds := None\<rparr>)"
    by (simp add: createGrant_def DEFAULT_GRANT_TTL_SECONDS_def Let_def)
  then show ?thesis by (simp add: disk_issueGrant_def cong: option.case_cong)
qed

lemma snap_prepared: "prepareAccess snap_pf (disk_issueGrant snap_pf snap_opts) snap_broker ''e'' (up_workspace snap_upload)
    (source_json (sr_source snap_rec)) 300 snap_stored = (Inr (Some snap_access), wd grant_state)"
proof -
  have i: "disk_issueGrant snap_pf snap_opts \<lparr>is_workspace = up_workspace snap_upload,
      is_snapshotId = so_snapshotId (sr_source snap_rec), is_executionId = ''e'', is_ttlSeconds = Some (num_of_int 300)\<rparr> snap_stored =
      (Inr snap_grant, snap_granted)"
    using snap_issue_eq issue_default [of snap_pf snap_opts "\<lparr>is_workspace = up_workspace snap_upload,
      is_snapshotId = so_snapshotId (sr_source snap_rec), is_executionId = ''e'', is_ttlSeconds = None\<rparr>"] by simp
  have p: "pf_uri_enc snap_pf = id" "pf_iso snap_pf = int_str" by (simp_all add: snap_pf_def demo_pf_def)
  have "min 300 (br_grantTtlSeconds snap_broker) = 300" by (simp add: snap_broker_def)
  with i show ?thesis
    by (simp add: prepareAccess_def js_str_def bindE_def ret_def p snap_access_def grant_state_def)
      (simp add: snap_broker_def)
qed

lemma int_str_pos: "int_str e = int_str 301002 \<Longrightarrow> e = 301002"
proof -
  assume e: "int_str e = int_str 301002"
  have "int_str 301002 = nat_str 301002" by (simp add: int_str_def)
  moreover have "\<not> e < 0"
  proof
    assume "e < 0"
    with e have "nat_str 301002 = CHR ''-'' # nat_str (nat (- e))" by (simp add: int_str_def)
    then have "CHR ''-'' \<in> set (nat_str 301002)" by (simp only: list.set insert_iff simp_thms)
    with nat_str_digits [of 301002] have "is_digit (CHR ''-'')" by blast
    then show False by (simp add: is_digit_def)
  qed
  ultimately show ?thesis using e by (simp add: int_str_def)
qed

lemma snap_expiry:
  assumes "sa_expiresAt snap_access = pf_iso snap_pf e"
  shows "pf_date snap_pf (sa_expiresAt snap_access) = Some e \<and> 1002 < e \<and>
    fst (op_now snap_opts (sd_wd (wd grant_state))) < e"
proof -
  have e: "e = 301002" using assms int_str_pos [of e] by (simp add: snap_access_def snap_pf_def demo_pf_def)
  have "pf_date snap_pf (int_str 301002) = Some 301002" by (simp add: snap_pf_def demo_pf_def int_str_def)
  then show ?thesis by (simp add: snap_access_def e grant_state_def)
qed

lemma snap_codec: "pf_b64_dec snap_pf (pf_b64_enc snap_pf b) = b"
  using demo_codec [of b] by (simp add: snap_pf_def)

theorem snapshot_delivery_witness:
  "fst (resolveWorkspaceMaterial snap_pf snap_worker \<lparr>wi_executionId = ''e'', wi_source = source_json (sr_source snap_rec),
      wi_access = Some (access_json snap_access)\<rparr> grant_state) =
    Inr \<lparr>wm_executionId = ''e'', wm_source = source_json (sr_source snap_rec), wm_archive = Some (up_archive snap_upload),
      wm_workingTreePatch = up_workingTreePatch snap_upload\<rparr>"
proof (rule snapshot_delivery [OF snap_disk_view snap_contents snap_digest snap_put snap_prepared _ _ snap_expiry])
  show "we_fetch snap_worker = grant_fetch snap_pf grant_env (operator_security ''o'') snap_opts (br_baseUrl snap_broker)"
    and "we_now snap_worker grant_state = (1002, grant_state)"
    by (simp_all add: snap_worker_def)
  show "pf_url snap_pf (sa_endpoint snap_access) = Some \<lparr>u_protocol = ''https:'', u_username = [], u_password = [],
      u_search = [], u_hash = []\<rparr>" and "accepted snap_pf (sa_grantId snap_access)"
    by (simp_all add: snap_access_def snap_pf_def demo_pf_def starts_with_def accepted_def)
  show "16 \<le> length (sa_token snap_access)" and "length (sa_token snap_access) \<le> 512"
    by (simp_all add: snap_access_def)
  show "pf_b64_dec snap_pf (pf_b64_enc snap_pf b) = b" for b by (rule snap_codec)
  show "b = c" if "pf_sha256 snap_pf b = pf_sha256 snap_pf c" "c = up_archive snap_upload \<or> up_workingTreePatch snap_upload = Some c" for b c
    using that by (rule snap_free)
qed simp_all

end
