(* ===== verification/Database_Json.thy ===== *)
theory Database_Json
  imports Database_Commit
begin

text \<open>
  The stable JSON of a record decides equality: two values have the same text exactly if they are
  the same value up to the order of object keys. The texts are decoded from the left: a text
  followed by a delimiter determines the value and the rest.
\<close>

section \<open>Sameness\<close>

text \<open>Objects with one entry per key, all the way down.\<close>

primrec js_wf :: "js \<Rightarrow> bool" where
  "js_wf JUndef = True"
| "js_wf JNull = True"
| "js_wf (JBool b) = True"
| "js_wf (JNum x) = True"
| "js_wf (JStr s) = True"
| "js_wf (JArr xs) = list_all id (map js_wf xs)"
| "js_wf (JObj kvs) = (distinct (map fst kvs) \<and> list_all snd (map (map_prod id js_wf) kvs))"

inductive js_same :: "js \<Rightarrow> js \<Rightarrow> bool" where
  same_null: "js_same JNull JNull"
| same_bool: "js_same (JBool b) (JBool b)"
| same_num: "js_same (JNum x) (JNum x)"
| same_str: "js_same (JStr s) (JStr s)"
| same_arr: "list_all2 js_same xs ys \<Longrightarrow> js_same (JArr xs) (JArr ys)"
| same_obj: "(\<And>k. rel_option js_same (map_of kvs k) (map_of lvs k)) \<Longrightarrow> js_same (JObj kvs) (JObj lvs)"

inductive_simps js_same_simps [simp]:
  "js_same JNull w" "js_same (JBool b) w" "js_same (JNum x) w" "js_same (JStr s) w" "js_same (JArr xs) w" "js_same (JObj kvs) w"
  "js_same JUndef w" "js_same w JNull"

section \<open>Keys in order\<close>

lemma collect_map_Inr [simp]: "collect (map Inr xs) = Inr xs"
  by (induction xs) auto

lemma collect_Inr: "collect rs = Inr xs \<longleftrightarrow> rs = map Inr xs"
proof
  show "collect rs = Inr xs \<Longrightarrow> rs = map Inr xs"
    by (induction rs arbitrary: xs) (auto split: sum.splits)
qed simp

lemma keyed_Inr: "map keyed ks = map Inr lvs \<longleftrightarrow> ks = map (map_prod id Inr) lvs"
  by (induction ks arbitrary: lvs) (auto simp: keyed_def Cons_eq_map_conv split: sum.splits)

lemma own_order_set [simp]: "set (own_order kvs) = set kvs"
  by (auto simp: own_order_def)

lemma distinct_fst_own: "distinct (map fst kvs) \<Longrightarrow> distinct (map fst (own_order kvs))"
proof -
  assume d: "distinct (map fst kvs)"
  then have "distinct kvs" and inj: "inj_on fst (set kvs)" by (auto simp: distinct_map)
  then have "distinct (own_order kvs)" by (auto simp: own_order_def)
  with inj show ?thesis by (simp add: distinct_map)
qed

lemma map_of_same_set:
  assumes "distinct (map fst kvs)" and "distinct (map fst lvs)"
  shows "map_of kvs = map_of lvs \<longleftrightarrow> set kvs = set lvs"
  using assms by (metis map_of_inject_set)

lemma sort_fst_unique:
  assumes "distinct (map fst kvs)" and "distinct (map fst lvs)" and "map_of kvs = map_of lvs"
  shows "sort_key fst kvs = sort_key fst lvs"
proof -
  have "set kvs = set lvs" using assms map_of_same_set by blast
  then show ?thesis using assms(1,2)
    by (intro map_sorted_distinct_set_unique [where f = fst]) (auto simp: distinct_map inj_on_def intro: eq_key_imp_eq_value)
qed


lemma map_of_visited: "map_of (map (map_prod id f) kvs) k = map_option f (map_of kvs k)"
  by (induction kvs) auto

lemma map_of_sorted:
  assumes "distinct (map fst kvs)"
  shows "map_of (sort_key fst kvs) = map_of kvs"
proof -
  have "distinct (map fst (sort_key fst kvs))"
    using assms by (metis distinct_map distinct_sort set_sort)
  then show ?thesis using assms by (simp add: map_of_same_set)
qed

lemma visit_obj:
  assumes "distinct (map fst kvs)"
  shows "db_visit (JObj kvs) = Inr u \<longleftrightarrow> (\<exists>lvs. u = JObj (own_order lvs) \<and> distinct (map fst lvs) \<and> sorted (map fst lvs) \<and>
    (\<forall>k. map_option db_visit (map_of kvs k) = map_option Inr (map_of lvs k)))"
proof -
  let ?ks = "sort_key fst (map (map_prod id db_visit) kvs)"
  have d: "distinct (map fst (map (map_prod id db_visit) kvs))" using assms by (simp add: comp_def)
  then have dk: "distinct (map fst ?ks)" by (metis distinct_map distinct_sort set_sort)
  have m: "map_of ?ks k = map_option db_visit (map_of kvs k)" for k
    by (simp add: map_of_sorted [OF d] map_of_visited)
  have fst_lvs: "map fst (map (map_prod id Inr) lvs) = map fst lvs" for lvs :: "(string \<times> js) list"
    by (induction lvs) auto
  have "(?ks = map (map_prod id Inr) lvs) \<longleftrightarrow> distinct (map fst lvs) \<and> sorted (map fst lvs) \<and>
      (\<forall>k. map_option db_visit (map_of kvs k) = map_option Inr (map_of lvs k))" (is "?L \<longleftrightarrow> ?R") for lvs
  proof
    assume ?L
    then have f: "map fst lvs = map fst ?ks" by (simp only: fst_lvs)
    have "map_option db_visit (map_of kvs k) = map_option Inr (map_of lvs k)" for k
      using m [of k] unfolding \<open>?L\<close> by (simp only: map_of_visited)
    moreover have "sorted (map fst ?ks)" by (rule sorted_sort_key)
    ultimately show ?R using dk unfolding f by blast
  next
    assume r: ?R
    have "map_of ?ks = map_of (map (map_prod id Inr) lvs)"
      using r by (intro ext) (simp only: m map_of_visited)
    moreover have "distinct (map fst (map (map_prod id Inr) lvs :: (string \<times> (rt_exn + js)) list))" using r by (simp add: fst_lvs del: map_map)
    ultimately have "sort_key fst ?ks = sort_key fst (map (map_prod id Inr) lvs)"
      by (intro sort_fst_unique dk)
    moreover have "sort_key fst (map (map_prod id Inr) lvs :: (string \<times> (rt_exn + js)) list) = map (map_prod id Inr) lvs"
      using r by (intro sort_key_id_if_sorted) (simp add: fst_lvs del: map_map)
    moreover have "sort_key fst ?ks = ?ks" by (intro sort_key_id_if_sorted sorted_sort_key)
    ultimately show ?L by simp
  qed
  moreover have "db_visit (JObj kvs) = Inr u \<longleftrightarrow> (\<exists>lvs. u = JObj (own_order lvs) \<and> collect (map keyed ?ks) = Inr lvs)"
    by (auto split: sum.splits)
  ultimately show ?thesis by (simp only: collect_Inr keyed_Inr)
qed

text \<open>The same values are visited alike.\<close>

lemma same_visit: "js_same v w \<Longrightarrow> js_wf v \<Longrightarrow> js_wf w \<Longrightarrow> db_visit v = db_visit w"
proof (induction rule: js_same.induct)
  case (same_arr xs ys)
  then have "map db_visit xs = map db_visit ys"
    by (auto simp: list_all2_conv_all_nth list_all_length intro!: nth_equalityI)
  then show ?case by simp
next
  case (same_obj kvs lvs)
  have "map_option db_visit (map_of kvs k) = map_option db_visit (map_of lvs k)" for k
  proof (cases "map_of kvs k")
    case (Some x)
    with same_obj.IH [of k] obtain y where y: "map_of lvs k = Some y" "js_wf x \<longrightarrow> js_wf y \<longrightarrow> db_visit x = db_visit y"
      by (auto simp: option_rel_Some1)
    from same_obj.prems Some y(1) have "js_wf x" "js_wf y" by (auto simp: list_all_iff dest!: map_of_SomeD)
    with Some y show ?thesis by simp
  next
    case None
    with same_obj.IH [of k] show ?thesis by simp
  qed
  then have m: "map_of (map (map_prod id db_visit) kvs) = map_of (map (map_prod id db_visit) lvs)"
    by (auto simp: map_of_visited)
  have "sort_key fst (map (map_prod id db_visit) kvs) = sort_key fst (map (map_prod id db_visit) lvs)"
    using same_obj.prems by (intro sort_fst_unique m) (simp_all add: comp_def)
  then show ?case by simp
qed simp_all

lemma visit_kind:
  "db_visit v = Inr JNull \<Longrightarrow> v = JNull" "db_visit v = Inr (JBool b) \<Longrightarrow> v = JBool b"
  "db_visit v = Inr (JNum n) \<Longrightarrow> v = JNum n" "db_visit v = Inr (JStr s) \<Longrightarrow> v = JStr s"
  "db_visit v = Inr (JArr ys) \<Longrightarrow> \<exists>xs. v = JArr xs \<and> map db_visit xs = map Inr ys"
  "db_visit v = Inr (JObj lvs) \<Longrightarrow> \<exists>kvs. v = JObj kvs"
  "db_visit v \<noteq> Inr JUndef"
  by (cases v; auto simp: collect_Inr split: if_splits sum.splits)+

lemma own_order_inject:
  assumes "own_order ks = own_order ls" and "distinct (map fst ks)" and "distinct (map fst ls)"
  shows "map_of ks = map_of ls"
  using assms by (metis map_of_same_set own_order_set)

text \<open>Values visited alike are the same.\<close>

lemma visit_same:
  "db_visit v = Inr u \<Longrightarrow> db_visit w = Inr u \<Longrightarrow> js_wf v \<Longrightarrow> js_wf w \<Longrightarrow> js_same v w"
proof (induction v arbitrary: w u)
  case (JArr xs)
  then obtain us where u: "u = JArr us" "map db_visit xs = map Inr us" by (auto simp: collect_Inr split: sum.splits)
  with JArr.prems visit_kind(5) obtain ys where w: "w = JArr ys" "map db_visit ys = map Inr us" by blast
  have l: "length xs = length us" "length ys = length us" using u(2) w(2) by (metis length_map)+
  have "js_same (xs ! i) (ys ! i)" if i: "i < length xs" for i
  proof (rule JArr.IH)
    show "db_visit (xs ! i) = Inr (us ! i)" "db_visit (ys ! i) = Inr (us ! i)"
      using u(2) w(2) i l by (metis nth_map)+
  qed (use i l JArr.prems w in \<open>auto simp: list_all_iff\<close>)
  with l w show ?case by (simp add: list_all2_conv_all_nth)
next
  case (JObj kvs)
  have dk: "distinct (map fst kvs)" using JObj.prems(3) by simp
  from JObj.prems(1) obtain ks where k: "u = JObj (own_order ks)" "distinct (map fst ks)"
    "\<And>k. map_option db_visit (map_of kvs k) = map_option Inr (map_of ks k)"
    unfolding visit_obj [OF dk] by blast
  from JObj.prems(2) k(1) visit_kind(6) obtain lvs where w: "w = JObj lvs" by blast
  have dl: "distinct (map fst lvs)" using JObj.prems(4) w by simp
  from JObj.prems(2) obtain ls where l: "u = JObj (own_order ls)" "distinct (map fst ls)"
    "\<And>k. map_option db_visit (map_of lvs k) = map_option Inr (map_of ls k)"
    unfolding w visit_obj [OF dl] by blast
  have same: "map_of ks = map_of ls" using k l by (intro own_order_inject) simp_all
  have "rel_option js_same (map_of kvs k) (map_of lvs k)" for k
  proof (cases "map_of ks k")
    case None
    with k(3) [of k] l(3) [of k] same show ?thesis by simp
  next
    case (Some z)
    with k(3) [of k] l(3) [of k] same obtain x y where
      x: "map_of kvs k = Some x" "db_visit x = Inr z" and y: "map_of lvs k = Some y" "db_visit y = Inr z"
      by auto
    have "js_same x y"
    proof (rule JObj.IH [OF map_of_SomeD [OF x(1)] _ x(2) y(2)])
      show "js_wf x" "js_wf y"
        using JObj.prems(3,4) w map_of_SomeD [OF x(1)] map_of_SomeD [OF y(1)] by (auto simp: list_all_iff)
    qed simp
    with x y show ?thesis by simp
  qed
  with w show ?case by (simp add: same_obj)
qed (auto split: if_splits dest: visit_kind(1-4))

section \<open>Decoding the text\<close>

definition num_char :: "char \<Rightarrow> bool" where
  "num_char c \<longleftrightarrow> is_digit c \<or> c \<in> {CHR ''-'', CHR ''+'', CHR ''.'', CHR ''e''}"

text \<open>What the proofs need of \<open>Number.prototype.toString\<close>: finite numbers print differently, with these characters.\<close>

definition numeric :: "platform \<Rightarrow> bool" where
  "numeric pf \<longleftrightarrow> (\<forall>a b. num_finite a \<longrightarrow> num_finite b \<longrightarrow> num_str pf a = num_str pf b \<longrightarrow> a = b) \<and>
     (\<forall>a. num_finite a \<longrightarrow> num_str pf a \<noteq> [] \<and> (\<forall>c \<in> set (num_str pf a). num_char c))"

definition stop :: "string \<Rightarrow> bool" where
  "stop x \<longleftrightarrow> x = [] \<or> hd x \<in> {CHR '','', CHR '']'', CHR ''}''}"

lemma stop_Cons [simp]: "stop (c # x) \<longleftrightarrow> c \<in> {CHR '','', CHR '']'', CHR ''}''}"
  by (simp add: stop_def)

text \<open>Reading one character back.\<close>

definition hex_value :: "char \<Rightarrow> nat" where
  "hex_value c = (if code c < 58 then code c - 48 else code c - 87)"

definition short_escape :: "char \<Rightarrow> nat" where
  "short_escape c = (if c = CHR ''b'' then 8 else if c = CHR ''f'' then 12 else if c = CHR ''n'' then 10
     else if c = CHR ''r'' then 13 else if c = CHR ''t'' then 9 else code c)"

definition read_char :: "string \<Rightarrow> nat \<times> string" where
  "read_char s = (if code (hd s) \<noteq> 92 then (code (hd s), tl s)
     else if hd (tl s) = CHR ''u'' then (16 * hex_value (s ! 4) + hex_value (s ! 5), drop 6 s)
     else (short_escape (hd (tl s)), drop 2 s))"

lemma hex_value_digit: "n < 16 \<Longrightarrow> hex_value (hex_digit n) = n"
  by (simp add: hex_value_def hex_digit_def)

lemma read_char_esc: "read_char (json_esc c @ x) = (code c, x)"
proof (cases "code c \<in> {34, 92, 8, 12, 10, 13, 9}")
  case True
  then show ?thesis
    by auto (simp_all add: json_esc_def read_char_def short_escape_def)
next
  case False
  show ?thesis
  proof (cases "code c < 32")
    case True
    then have "code c div 16 < 16" "code c mod 16 < 16" by auto
    with True False show ?thesis
      by (simp add: json_esc_def read_char_def hex_value_digit)
  qed (use False in \<open>simp add: json_esc_def read_char_def\<close>)
qed

lemma json_esc_decode: "json_esc c @ x = json_esc d @ y \<longleftrightarrow> c = d \<and> x = y"
  by (metis prod.inject read_char_esc of_char_eq_iff)

lemma json_esc_quote: "json_esc c @ x \<noteq> CHR 34 # y"
  by (auto simp: json_esc_def)

lemma json_quote_decode: "json_quote s @ x = json_quote t @ y \<longleftrightarrow> s = t \<and> x = y"
proof -
  have "concat (map json_esc s) @ CHR 34 # x = concat (map json_esc t) @ CHR 34 # y \<longleftrightarrow> s = t \<and> x = y"
  proof (induction s arbitrary: t)
    case Nil
    show ?case by (cases t) (auto simp: json_esc_quote dest: sym)
  next
    case (Cons c s)
    show ?case
    proof (cases t)
      case Nil
      then show ?thesis by (simp add: json_esc_quote)
    next
      case (Cons d t')
      with Cons.IH [of t'] show ?thesis by (auto simp: json_esc_decode)
    qed
  qed
  then show ?thesis by (simp add: json_quote_def)
qed

lemma num_decode:
  assumes "numeric pf" and "num_finite a" and "num_finite b"
    and "num_str pf a @ x = num_str pf b @ y" and "stop x" and "stop y"
  shows "a = b \<and> x = y"
proof -
  have n: "\<not> num_char c" if "c \<in> {CHR '','', CHR '']'', CHR ''}''}" for c
    using that by (auto simp: num_char_def is_digit_def)
  have t: "takeWhile num_char (num_str pf e @ z) = num_str pf e" if "num_finite e" "stop z" for e z
  proof -
    have "takeWhile num_char z = []" using that(2) n by (cases z) auto
    then show ?thesis using assms(1) that(1) by (simp add: numeric_def)
  qed
  have "num_str pf a = num_str pf b" using t [OF assms(2,5)] t [OF assms(3,6)] assms(4) by simp
  with assms show ?thesis by (auto simp: numeric_def)
qed

text \<open>A list of texts between delimiters.\<close>

lemma js_join_Cons: "js_join sep (w # ws) = w @ concat (map (\<lambda>u. sep @ u) ws)"
  by (induction ws arbitrary: w) auto

lemma joined_decode:
  assumes c: "c \<in> {CHR '']'', CHR ''}''}"
    and t: "\<And>a b x y. a \<in> set as \<Longrightarrow> b \<in> set bs \<Longrightarrow> t a @ x = t b @ y \<Longrightarrow> stop x \<Longrightarrow> stop y \<Longrightarrow> a = b \<and> x = y"
    and h: "\<And>a. a \<in> set as \<union> set bs \<Longrightarrow> t a \<noteq> [] \<and> hd (t a) \<noteq> c"
    and eq: "js_join '','' (map t as) @ c # x = js_join '','' (map t bs) @ c # y"
  shows "as = bs \<and> x = y"
proof -
  have tail: "as = bs \<and> x = y" if "concat (map (\<lambda>u. '','' @ t u) as) @ c # x = concat (map (\<lambda>u. '','' @ t u) bs) @ c # y"
    "\<And>a b x y. a \<in> set as \<Longrightarrow> b \<in> set bs \<Longrightarrow> t a @ x = t b @ y \<Longrightarrow> stop x \<Longrightarrow> stop y \<Longrightarrow> a = b \<and> x = y" for as bs
    using that
  proof (induction as arbitrary: bs)
    case Nil
    then show ?case using c by (cases bs) auto
  next
    case (Cons a as)
    then obtain b bs' where bs: "bs = b # bs'" using c by (cases bs) auto
    have st: "stop (concat (map (\<lambda>u. '','' @ t u) us) @ c # z)" for us z
      using c by (cases us) auto
    from Cons.prems(1) bs have "t a @ concat (map (\<lambda>u. '','' @ t u) as) @ c # x = t b @ concat (map (\<lambda>u. '','' @ t u) bs') @ c # y"
      by simp
    from Cons.prems(2) [OF _ _ this st st] bs have "a = b"
      "concat (map (\<lambda>u. '','' @ t u) as) @ c # x = concat (map (\<lambda>u. '','' @ t u) bs') @ c # y" by auto
    moreover from this(2) have "as = bs' \<and> x = y"
      by (rule Cons.IH) (use Cons.prems(2) bs in auto)
    ultimately show ?case using bs by simp
  qed
  show ?thesis
  proof (cases as)
    case Nil
    then show ?thesis
    proof (cases bs)
      case (Cons b bs')
      with h [of b] eq Nil show ?thesis by (cases "t b") (auto simp: js_join_Cons)
    qed (use eq Nil in simp)
  next
    case (Cons a as')
    then obtain b bs' where bs: "bs = b # bs'" using h [of a] eq by (cases bs; cases "t a") (auto simp: js_join_Cons)
    with Cons eq have "concat (map (\<lambda>u. '','' @ t u) as) @ c # x = concat (map (\<lambda>u. '','' @ t u) bs) @ c # y"
      by (simp add: js_join_Cons comp_def)
    then show ?thesis by (rule tail) (use t in blast)
  qed
qed

text \<open>What \<open>visit\<close> returns, and the first character of its text.\<close>

primrec json_ok :: "js \<Rightarrow> bool" where
  "json_ok JUndef = False"
| "json_ok JNull = True"
| "json_ok (JBool b) = True"
| "json_ok (JNum x) = num_finite x"
| "json_ok (JStr s) = True"
| "json_ok (JArr xs) = list_all id (map json_ok xs)"
| "json_ok (JObj kvs) = list_all snd (map (map_prod id json_ok) kvs)"

lemma visit_ok: "db_visit v = Inr u \<Longrightarrow> json_ok u"
proof (induction v arbitrary: u)
  case (JArr xs)
  then obtain us where u: "u = JArr us" "map db_visit xs = map Inr us" by (auto simp: collect_Inr split: sum.splits)
  have "json_ok z" if "z \<in> set us" for z
  proof -
    from that u(2) obtain x where "x \<in> set xs" "db_visit x = Inr z" by (metis (mono_tags, lifting) imageE image_eqI list.set_map)
    with JArr.IH show ?thesis by blast
  qed
  with u(1) show ?case by (simp add: list_all_iff)
next
  case (JObj kvs)
  then obtain lvs where u: "u = JObj (own_order lvs)" "sort_key fst (map (map_prod id db_visit) kvs) = map (map_prod id Inr) lvs"
    by (auto simp: collect_Inr keyed_Inr split: sum.splits)
  have "json_ok z" if "(k, z) \<in> set lvs" for k z
  proof -
    from that have "(k, Inr z) \<in> set (sort_key fst (map (map_prod id db_visit) kvs))" unfolding u(2) by force
    then obtain x where "(k, x) \<in> set kvs" "db_visit x = Inr z" by auto
    with JObj.IH show ?thesis by fastforce
  qed
  with u(1) show ?case by (auto simp: list_all_iff)
qed (auto split: if_splits)

fun js_tag :: "js \<Rightarrow> nat" where
  "js_tag JUndef = 0"
| "js_tag JNull = 1"
| "js_tag (JBool b) = (if b then 2 else 3)"
| "js_tag (JNum x) = 4"
| "js_tag (JStr s) = 5"
| "js_tag (JArr xs) = 6"
| "js_tag (JObj kvs) = 7"

definition char_tag :: "char \<Rightarrow> nat" where
  "char_tag c = (if num_char c then 4 else if c = CHR ''n'' then 1 else if c = CHR ''t'' then 2 else if c = CHR ''f'' then 3
     else if c = CHR 34 then 5 else if c = CHR ''['' then 6 else if c = CHR ''{'' then 7 else 0)"

lemma json_text_head:
  assumes "numeric pf" and "json_ok v"
  shows "json_text pf v \<noteq> [] \<and> char_tag (hd (json_text pf v)) = js_tag v"
  using assms
  by (cases v) (auto simp: char_tag_def num_char_def is_digit_def json_quote_def numeric_def)

lemma tags_of_texts:
  assumes "numeric pf" and "json_ok v" and "json_ok w" and "json_text pf v @ x = json_text pf w @ y"
  shows "js_tag v = js_tag w"
  using json_text_head [OF assms(1,2)] json_text_head [OF assms(1,3)] assms(4) by (metis hd_append2)

lemma json_text_close:
  assumes "numeric pf" and "json_ok v" and "c \<in> {CHR '']'', CHR ''}''}"
  shows "json_text pf v \<noteq> [] \<and> hd (json_text pf v) \<noteq> c"
proof -
  have "char_tag (CHR '']'') = 0" "char_tag (CHR ''}'') = 0" by code_simp+
  with assms(3) have "char_tag c = 0" by (elim insertE emptyE) simp_all
  moreover have "js_tag v \<noteq> 0" using assms(2) by (cases v) auto
  ultimately show ?thesis using json_text_head [OF assms(1,2)] by auto
qed

definition entry_text :: "platform \<Rightarrow> string \<times> js \<Rightarrow> string" where
  "entry_text pf kv = json_quote (fst kv) @ CHR '':'' # json_text pf (snd kv)"

lemma json_text_obj: "json_text pf (JObj kvs) = CHR ''{'' # js_join '','' (map (entry_text pf) kvs) @ ''}''"
proof -
  have "map (\<lambda>(k, t). json_quote k @ CHR '':'' # t) (map (map_prod id (json_text pf)) kvs) = map (entry_text pf) kvs"
    by (auto simp: entry_text_def)
  then show ?thesis by (simp del: map_map)
qed

lemma entry_head: "entry_text pf kv \<noteq> [] \<and> hd (entry_text pf kv) \<noteq> CHR ''}''"
  by (simp add: entry_text_def json_quote_def)

lemma tag_cases:
  "js_tag w = 1 \<Longrightarrow> w = JNull" "js_tag w = 2 \<Longrightarrow> w = JBool True" "js_tag w = 3 \<Longrightarrow> w = JBool False"
  "js_tag w = 4 \<Longrightarrow> \<exists>n. w = JNum n" "js_tag w = 5 \<Longrightarrow> \<exists>s. w = JStr s" "js_tag w = 6 \<Longrightarrow> \<exists>xs. w = JArr xs"
  "js_tag w = 7 \<Longrightarrow> \<exists>kvs. w = JObj kvs"
  by (cases w; auto split: if_splits)+

lemma json_decode:
  assumes "numeric pf"
  shows "json_ok v \<Longrightarrow> json_ok w \<Longrightarrow> json_text pf v @ x = json_text pf w @ y \<Longrightarrow> stop x \<Longrightarrow> stop y \<Longrightarrow> v = w \<and> x = y"
proof (induction v arbitrary: w x y)
  case (JNum n)
  then obtain m where "w = JNum m" using tags_of_texts [OF assms JNum.prems(1-3)] tag_cases(4) [of w] by auto
  with num_decode [OF assms, of n m x y] JNum.prems show ?case by simp
next
  case (JStr s)
  then obtain t where "w = JStr t" using tags_of_texts [OF assms JStr.prems(1-3)] tag_cases(5) [of w] by auto
  with JStr show ?case by (simp add: json_quote_decode)
next
  case (JArr xs)
  then obtain ys where w: "w = JArr ys" using tags_of_texts [OF assms JArr.prems(1-3)] tag_cases(6) [of w] by auto
  have ok: "\<And>a. a \<in> set xs \<union> set ys \<Longrightarrow> json_ok a" using JArr.prems(1,2) w by (auto simp: list_all_iff)
  have "js_join '','' (map (json_text pf) xs) @ CHR '']'' # x = js_join '','' (map (json_text pf) ys) @ CHR '']'' # y"
    using JArr.prems(3) w by simp
  then have "xs = ys \<and> x = y"
  proof (rule joined_decode [rotated 3])
    show "a = b \<and> x' = y'" if "a \<in> set xs" "b \<in> set ys" "json_text pf a @ x' = json_text pf b @ y'" "stop x'" "stop y'" for a b x' y'
      using that ok by (intro JArr.IH) simp_all
    show "json_text pf a \<noteq> [] \<and> hd (json_text pf a) \<noteq> CHR '']''" if "a \<in> set xs \<union> set ys" for a
      using json_text_close [OF assms ok [OF that]] by blast
  qed simp
  with w show ?case by simp
next
  case (JObj kvs)
  then obtain lvs where w: "w = JObj lvs" using tags_of_texts [OF assms JObj.prems(1-3)] tag_cases(7) [of w] by auto
  have ok: "\<And>k a. (k, a) \<in> set kvs \<union> set lvs \<Longrightarrow> json_ok a" using JObj.prems(1,2) w by (auto simp: list_all_iff)
  have eq: "js_join '','' (map (entry_text pf) kvs) @ CHR ''}'' # x = js_join '','' (map (entry_text pf) lvs) @ CHR ''}'' # y"
    using JObj.prems(3) unfolding w json_text_obj by simp
  have entry: "a = b \<and> x' = y'" if "a \<in> set kvs" "b \<in> set lvs" "entry_text pf a @ x' = entry_text pf b @ y'" "stop x'" "stop y'" for a b x' y'
  proof -
    obtain k u l z where a: "a = (k, u)" and b: "b = (l, z)" by fastforce
    from that(3) have "k = l" "json_text pf u @ x' = json_text pf z @ y'"
      by (auto simp: a b entry_text_def json_quote_decode)
    moreover have "u = z \<and> x' = y'"
      using that a b ok calculation(2) by (intro JObj.IH [of a u]) auto
    ultimately show ?thesis by (simp add: a b)
  qed
  from eq have "kvs = lvs \<and> x = y"
    by (rule joined_decode [rotated 3]) (simp, rule entry, assumption+, rule entry_head)
  with w show ?case by simp
next
  case (JBool b)
  with tags_of_texts [OF assms JBool.prems(1-3)] tag_cases(2,3) [of w] show ?case by (cases b) auto
next
  case JNull
  with tags_of_texts [OF assms JNull.prems(1-3)] tag_cases(1) [of w] show ?case by auto
qed simp

text \<open>Equal texts, equal values.\<close>

lemma databaseRecordJson_same:
  assumes "numeric pf" and "js_wf v" and "js_wf w" and "databaseRecordJson pf v = Inr s"
  shows "databaseRecordJson pf w = Inr s \<longleftrightarrow> js_same v w"
proof -
  from assms(4) obtain u where u: "db_visit v = Inr u" "s = json_text pf u"
    by (auto simp: databaseRecordJson_def split: sum.splits)
  show ?thesis
  proof
    assume "databaseRecordJson pf w = Inr s"
    then obtain z where z: "db_visit w = Inr z" "json_text pf z = json_text pf u"
      using u by (auto simp: databaseRecordJson_def split: sum.splits)
    have "z = u"
      using json_decode [OF assms(1) visit_ok [OF z(1)] visit_ok [OF u(1)], of "[]" "[]"] z(2) by (simp add: stop_def)
    with z(1) u(1) assms(2,3) show "js_same v w" by (intro visit_same) simp_all
  next
    assume "js_same v w"
    then have "db_visit v = db_visit w" using assms(2,3) by (rule same_visit)
    with assms(4) show "databaseRecordJson pf w = Inr s" by (simp add: databaseRecordJson_def)
  qed
qed

end
