(* ===== verification/Database_Laws.thy ===== *)
theory Database_Laws
  imports Database_Json
begin

text \<open>
  The laws of conditional commits and pages. A commit compares every expected record with the
  database it started from and then replaces all of them, although the code goes through the writes
  one by one: the checks make the written keys distinct. The pages of a table, followed by their
  cursors, are its sorted rows.
\<close>

section \<open>One write\<close>

definition wtab :: "js \<Rightarrow> string" where
  "wtab w = js_str (jget w ''table'')"

abbreviation wid :: "js \<Rightarrow> js" where
  "wid w \<equiv> jget w ''id''"

definition db_row :: "database \<Rightarrow> string \<Rightarrow> js \<Rightarrow> js" where
  "db_row db t i = current_row i (case map_of db t of Some rows \<Rightarrow> rows | None \<Rightarrow> [])"

definition plain_json :: "js \<Rightarrow> bool" where
  "plain_json v \<longleftrightarrow> js_wf v \<and> (\<exists>u. db_visit v = Inr u)"

definition db_ok :: "database \<Rightarrow> bool" where
  "db_ok db \<longleftrightarrow> (\<forall>t rows. map_of db t = Some rows \<longrightarrow> (\<forall>r \<in> set rows. plain_json r))"

definition reachable_table :: "database \<Rightarrow> string \<Rightarrow> bool" where
  "reachable_table db t \<longleftrightarrow> map_of db t \<noteq> None \<or> t \<notin> set object_methods"

definition unchanged :: "database \<Rightarrow> js \<Rightarrow> bool" where
  "unchanged db w \<longleftrightarrow> js_same (db_row db (wtab w) (wid w)) (jget w ''expected'')"

definition find_write :: "js list \<Rightarrow> string \<Rightarrow> js \<Rightarrow> js option" where
  "find_write ws t i = find (\<lambda>w. wtab w = t \<and> wid w = i) ws"

text \<open>A write that passed the checks, of well-formed values.\<close>

definition write_ok :: "js \<Rightarrow> bool" where
  "write_ok w \<longleftrightarrow> write_named w \<and>
     (\<forall>v \<in> {jget w ''record'', jget w ''expected''}. plain_json v \<and> (v = JNull \<or> isObject v \<and> jget v ''id'' = wid w))"

lemma find_in: "find P xs = Some x \<Longrightarrow> x \<in> set xs \<and> P x"
  by (induction xs) (auto split: if_splits)

lemma db_row_cases: "db_row db t i = JNull \<or> (\<exists>rows. map_of db t = Some rows \<and> db_row db t i \<in> set rows)"
proof (cases "map_of db t")
  case (Some rows)
  then show ?thesis
    by (cases "find (has_id i) rows") (auto simp: db_row_def current_row_def dest: find_in)
qed (simp add: db_row_def current_row_def)

lemma plain_null [simp]: "plain_json JNull"
  by (simp add: plain_json_def)

lemma db_row_plain: "db_ok db \<Longrightarrow> plain_json (db_row db t i)"
  using db_row_cases [of db t i] by (auto simp: db_ok_def)

lemma plain_text: "plain_json v \<Longrightarrow> \<exists>s. databaseRecordJson pf v = Inr s"
  by (auto simp: plain_json_def databaseRecordJson_def)

lemma plain_same:
  assumes "numeric pf" and "plain_json v" and "plain_json w"
  shows "databaseRecordJson pf v = databaseRecordJson pf w \<longleftrightarrow> js_same v w"
proof -
  obtain s where "databaseRecordJson pf v = Inr s" using plain_text [OF assms(2)] by blast
  with databaseRecordJson_same [OF assms(1) _ _ this, of w] assms show ?thesis by (auto simp: plain_json_def)
qed

lemma truthy_object: "isObject v \<Longrightarrow> truthy v" "\<not> truthy JNull"
  by (auto simp: isObject_def truthy_def split: js.splits)

lemma find_filter: "(\<And>x. x \<in> set xs \<Longrightarrow> P x \<Longrightarrow> Q x) \<Longrightarrow> find P (filter Q xs) = find P xs"
  by (induction xs) auto

lemma find_append: "find P (xs @ ys) = (case find P xs of Some x \<Rightarrow> Some x | None \<Rightarrow> find P ys)"
  by (induction xs) auto

lemma apply_write_effect:
  assumes "numeric pf" and "db_ok db" and w: "write_ok w" and "reachable_table db (wtab w)"
  shows "if unchanged db w
    then \<exists>db'. apply_write pf w db = Inr db' \<and> db_ok db' \<and> (\<forall>t. reachable_table db t \<longrightarrow> reachable_table db' t) \<and>
      (\<forall>t i. db_row db' t i = (if t = wtab w \<and> i = wid w then jget w ''record'' else db_row db t i))
    else apply_write pf w db = Inl databaseConflict"
proof -
  let ?rows = "case map_of db (wtab w) of Some rows \<Rightarrow> rows | None \<Rightarrow> []"
  let ?keep = "filter (\<lambda>r. \<not> has_id (wid w) r) ?rows" and ?rec = "jget w ''record''"
  let ?new = "?keep @ (if truthy ?rec then [?rec] else [])"
  have rows: "table_rows db (wtab w) = Inr ?rows"
    using assms(4) by (auto simp: table_rows_def reachable_table_def split: option.splits)
  have cur: "current_row (wid w) ?rows = db_row db (wtab w) (wid w)" by (simp add: db_row_def)
  have p: "plain_json (db_row db (wtab w) (wid w))" "plain_json (jget w ''expected'')" "plain_json ?rec"
    using db_row_plain [OF assms(2)] w by (auto simp: write_ok_def)
  obtain f e where f: "databaseRecordJson pf (db_row db (wtab w) (wid w)) = Inr f"
    and e: "databaseRecordJson pf (jget w ''expected'') = Inr e"
    using plain_text p by metis
  have run: "apply_write pf w db = (if f \<noteq> e then Inl databaseConflict else Inr (AList.update (wtab w) ?new db))"
    unfolding apply_write_def Let_def wtab_def [symmetric] using rows cur f e by simp
  have eq: "f = e \<longleftrightarrow> unchanged db w"
    using plain_same [OF assms(1) p(1,2)] f e by (simp add: unchanged_def)
  have m: "map_of (AList.update (wtab w) ?new db) t = (if t = wtab w then Some ?new else map_of db t)" for t
    by (simp add: update_conv')
  have "\<forall>r \<in> set ?rows. plain_json r"
    using assms(2) by (cases "map_of db (wtab w)") (auto simp: db_ok_def)
  then have "db_ok (AList.update (wtab w) ?new db)"
    using assms(2) p(3) unfolding db_ok_def m by auto
  moreover have "reachable_table (AList.update (wtab w) ?new db) t" if "reachable_table db t" for t
    using that unfolding reachable_table_def m by auto
  moreover have "db_row (AList.update (wtab w) ?new db) t i =
      (if t = wtab w \<and> i = wid w then ?rec else db_row db t i)" for t i
  proof (cases "t = wtab w")
    case True
    have rec: "?rec = JNull \<or> isObject ?rec \<and> has_id (wid w) ?rec" using w by (auto simp: write_ok_def has_id_def)
    have "current_row i ?new = (if i = wid w then ?rec else current_row i ?rows)"
    proof (cases "i = wid w")
      case i: True
      have "find (has_id i) ?keep = None" by (simp add: i find_None_iff)
      then show ?thesis using rec i by (auto simp: current_row_def find_append truthy_object)
    next
      case i: False
      then have keep: "find (has_id i) ?keep = find (has_id i) ?rows" by (intro find_filter) (auto simp: has_id_def)
      have add: "find (has_id i) (if truthy ?rec then [?rec] else []) = None"
        using rec i by (auto simp: has_id_def truthy_object)
      show ?thesis unfolding current_row_def find_append keep add using i by (simp split: option.split)
    qed
    with True show ?thesis unfolding db_row_def m by simp
  qed (simp add: db_row_def m)
  ultimately show ?thesis using run eq by auto
qed

section \<open>All writes\<close>

lemma json_quote_inject: "json_quote s = json_quote t \<longleftrightarrow> s = t"
  using json_quote_decode [of s "[]" t "[]"] by simp

lemma write_key_inject:
  assumes "write_named v" and "write_named w"
  shows "write_key v = write_key w \<longleftrightarrow> wtab v = wtab w \<and> wid v = wid w"
proof -
  have s: "isString (wid v)" "isString (wid w)" using assms by (simp_all add: write_named_def)
  then have "js_str (wid v) = js_str (wid w) \<longleftrightarrow> wid v = wid w" by (auto elim!: isStringE)
  then show ?thesis
    by (auto simp: write_key_def wtab_def json_quote_decode json_quote_inject)
qed

definition wf_write :: "js \<Rightarrow> bool" where
  "wf_write w \<longleftrightarrow> js_wf (jget w ''record'') \<and> js_wf (jget w ''expected'')"

lemma check_record_ok: "check_record pf i r = Inr u \<Longrightarrow> js_wf r \<Longrightarrow> plain_json r \<and> (r = JNull \<or> isObject r \<and> jget r ''id'' = i)"
  by (auto simp: check_record_def plain_json_def databaseRecordJson_def split: if_splits sum.splits)

lemma check_writes_ok:
  "check_writes pf keys ws = Inr () \<Longrightarrow> (\<And>w. w \<in> set ws \<Longrightarrow> wf_write w) \<Longrightarrow>
     (\<forall>w \<in> set ws. write_ok w \<and> write_key w \<notin> set keys) \<and> distinct (map write_key ws)"
proof (induction ws arbitrary: keys)
  case (Cons w ws)
  from Cons.prems(1) have n: "write_named w" "write_key w \<notin> set keys"
    and c: "check_record pf (wid w) (jget w ''record'') = Inr ()" "check_record pf (wid w) (jget w ''expected'') = Inr ()"
    and r: "check_writes pf (write_key w # keys) ws = Inr ()"
    by (auto split: if_splits sum.splits)
  from Cons.IH [OF r] Cons.prems(2) have "\<forall>v \<in> set ws. write_ok v \<and> write_key v \<notin> set (write_key w # keys)" "distinct (map write_key ws)"
    by auto
  moreover have "write_ok w"
    using n check_record_ok [OF c(1)] check_record_ok [OF c(2)] Cons.prems(2) [of w] by (simp add: write_ok_def wf_write_def)
  ultimately show ?case using n by auto
qed simp

text \<open>
  The effect of a commit: all comparisons are with the database it started from, and afterwards
  every written key has its new record and every other key its old one.
\<close>

lemma apply_writes_effect:
  assumes "numeric pf"
  shows "\<forall>w \<in> set ws. write_ok w \<Longrightarrow> distinct (map write_key ws) \<Longrightarrow> db_ok db \<Longrightarrow> \<forall>w \<in> set ws. reachable_table db (wtab w) \<Longrightarrow>
    (case apply_writes pf ws db of
       Inl e \<Rightarrow> e = databaseConflict \<and> (\<exists>w \<in> set ws. \<not> unchanged db w)
     | Inr db' \<Rightarrow> (\<forall>w \<in> set ws. unchanged db w) \<and> db_ok db' \<and>
         (\<forall>t i. db_row db' t i = (case find_write ws t i of Some w \<Rightarrow> jget w ''record'' | None \<Rightarrow> db_row db t i)))"
proof (induction ws arbitrary: db)
  case (Cons w ws)
  have w: "write_ok w" "reachable_table db (wtab w)" using Cons.prems by simp_all
  note eff = apply_write_effect [OF assms Cons.prems(3) w]
  show ?case
  proof (cases "unchanged db w")
    case False
    with eff show ?thesis by simp
  next
    case True
    with eff obtain db' where db': "apply_write pf w db = Inr db'" "db_ok db'"
      "\<And>t. reachable_table db t \<Longrightarrow> reachable_table db' t"
      "\<And>t i. db_row db' t i = (if t = wtab w \<and> i = wid w then jget w ''record'' else db_row db t i)" by auto
    have other: "wtab v \<noteq> wtab w \<or> wid v \<noteq> wid w" if "v \<in> set ws" for v
    proof -
      have "write_key w \<notin> write_key ` set ws" using Cons.prems(2) by simp
      with that have "write_key v \<noteq> write_key w" by (metis imageI)
      with that w(1) Cons.prems(1) write_key_inject [of v w] show ?thesis by (auto simp: write_ok_def)
    qed
    then have same: "unchanged db' v = unchanged db v" if "v \<in> set ws" for v
      using that by (auto simp: unchanged_def db'(4))
    have "find_write ws (wtab w) (wid w) = None"
      using other by (auto simp: find_write_def find_None_iff)
    then have row: "(case find_write ws t i of Some v \<Rightarrow> jget v ''record'' | None \<Rightarrow> db_row db' t i) =
      (case find_write (w # ws) t i of Some v \<Rightarrow> jget v ''record'' | None \<Rightarrow> db_row db t i)" for t i
      by (auto simp: find_write_def db'(4) split: option.split)
    have "case apply_writes pf ws db' of
       Inl e \<Rightarrow> e = databaseConflict \<and> (\<exists>v \<in> set ws. \<not> unchanged db' v)
     | Inr db'' \<Rightarrow> (\<forall>v \<in> set ws. unchanged db' v) \<and> db_ok db'' \<and>
         (\<forall>t i. db_row db'' t i = (case find_write ws t i of Some v \<Rightarrow> jget v ''record'' | None \<Rightarrow> db_row db' t i))"
      by (rule Cons.IH) (use Cons.prems db'(2,3) in auto)
    then show ?thesis using same True by (cases "apply_writes pf ws db'") (simp_all add: db'(1) row)
  qed
qed (simp add: find_write_def)

text \<open>A commit that returns wrote only to tables its snapshot has or may get.\<close>

lemma apply_write_reachable:
  assumes "apply_write pf w db = Inr db'"
  shows "reachable_table db (wtab w)" and "reachable_table db' t \<Longrightarrow> reachable_table db t"
proof -
  show r: "reachable_table db (wtab w)"
    using assms by (auto simp: apply_write_def table_rows_def reachable_table_def wtab_def Let_def split: option.splits if_splits)
  obtain rows where "db' = AList.update (wtab w) rows db"
    using assms by (auto simp: apply_write_def wtab_def Let_def split: sum.splits if_splits)
  with r show "reachable_table db' t \<Longrightarrow> reachable_table db t"
    by (auto simp: reachable_table_def update_conv' split: if_splits)
qed

lemma apply_writes_reachable:
  "apply_writes pf ws db = Inr db' \<Longrightarrow> \<forall>w \<in> set ws. reachable_table db (wtab w)"
proof (induction ws arbitrary: db)
  case (Cons w ws)
  then obtain d where d: "apply_write pf w db = Inr d" "apply_writes pf ws d = Inr db'" by (auto split: sum.splits)
  from Cons.IH [OF d(2)] apply_write_reachable [OF d(1)] show ?case by auto
qed simp

text \<open>The rows of a table afterwards are old ones or written ones.\<close>

definition rows_of :: "database \<Rightarrow> string \<Rightarrow> js list" where
  "rows_of db t = (case map_of db t of Some rows \<Rightarrow> rows | None \<Rightarrow> [])"

lemma apply_write_rows:
  "apply_write pf w db = Inr db' \<Longrightarrow> r \<in> set (rows_of db' t) \<Longrightarrow>
     r \<in> set (rows_of db t) \<or> (t = wtab w \<and> r = jget w ''record'' \<and> truthy r)"
  by (auto simp: apply_write_def table_rows_def rows_of_def wtab_def Let_def update_conv' split: sum.splits option.splits if_splits)

lemma apply_writes_rows:
  "apply_writes pf ws db = Inr db' \<Longrightarrow> r \<in> set (rows_of db' t) \<Longrightarrow>
     r \<in> set (rows_of db t) \<or> (\<exists>w \<in> set ws. t = wtab w \<and> r = jget w ''record'' \<and> truthy r)"
proof (induction ws arbitrary: db)
  case (Cons w ws)
  then obtain d where d: "apply_write pf w db = Inr d" "apply_writes pf ws d = Inr db'" by (auto split: sum.splits)
  from Cons.IH [OF d(2) Cons.prems(2)] apply_write_rows [OF d(1)] show ?case by auto
qed simp

lemma db_row_in: "db_row db t i = JNull \<or> db_row db t i \<in> set (rows_of db t)"
  using db_row_cases [of db t i] by (auto simp: rows_of_def)

lemma db_row_id: "db_row db t i = JNull \<or> jget (db_row db t i) ''id'' = i"
  by (cases "find (has_id i) (rows_of db t)")
    (auto simp: db_row_def current_row_def rows_of_def has_id_def dest: find_in)

text \<open>What a commit that returned has checked and done.\<close>

lemma commit_effect:
  assumes "numeric pf" and "db_ok db" and a: "applyDatabaseWrites pf db (JArr ws) = Inr db'" and "\<forall>w \<in> set ws. wf_write w"
  shows "\<forall>w \<in> set ws. write_ok w \<and> unchanged db w" and "distinct (map write_key ws)" and "db_ok db'"
    and "db_row db' t i = (case find_write ws t i of Some w \<Rightarrow> jget w ''record'' | None \<Rightarrow> db_row db t i)"
    and "r \<in> set (rows_of db' t) \<Longrightarrow> r \<in> set (rows_of db t) \<or> (\<exists>w \<in> set ws. t = wtab w \<and> r = jget w ''record'' \<and> truthy r)"
proof -
  from a have v: "validateDatabaseWrites pf (JArr ws) = Inr ()" and w: "apply_writes pf ws db = Inr db'"
    by (auto simp: applyDatabaseWrites_def js_items_def split: sum.splits)
  from v have "check_writes pf [] ws = Inr ()"
    by (auto simp: validateDatabaseWrites_def js_items_def split: if_splits sum.splits)
  from check_writes_ok [OF this] assms(4) have c: "\<forall>w \<in> set ws. write_ok w" "distinct (map write_key ws)" by auto
  from apply_writes_effect [OF assms(1) c assms(2) apply_writes_reachable [OF w]] w c
  show "\<forall>w \<in> set ws. write_ok w \<and> unchanged db w" and "distinct (map write_key ws)" and "db_ok db'"
    and "db_row db' t i = (case find_write ws t i of Some w \<Rightarrow> jget w ''record'' | None \<Rightarrow> db_row db t i)" by simp_all
  show "r \<in> set (rows_of db' t) \<Longrightarrow> r \<in> set (rows_of db t) \<or> (\<exists>w \<in> set ws. t = wtab w \<and> r = jget w ''record'' \<and> truthy r)"
    by (rule apply_writes_rows [OF w])
qed

section \<open>Pages\<close>

lemma nil_less: "[] < as \<longleftrightarrow> as \<noteq> ([] :: 'a :: linorder list)"
  by (cases as) auto

lemma compare_bytes_le: "compare_bytes a b \<le> 0 \<longleftrightarrow> a \<le> b" "compare_bytes a b > 0 \<longleftrightarrow> b < a"
  by (induction a b rule: compare_bytes.induct) (auto simp: nil_less)

definition sort_id :: "platform \<Rightarrow> js \<Rightarrow> bytes" where
  "sort_id pf r = utf8 (row_id pf r)"

lemma js_sort_key:
  assumes "\<And>x y. cmp x y \<le> 0 \<longleftrightarrow> f x \<le> (f y :: 'b :: linorder)"
  shows "js_sort cmp xs = sort_key f xs"
proof -
  have "sort_into cmp x ys = insort_key f x ys" for x ys
    using assms by (induction ys) auto
  then have "sort_into cmp = insort_key f" by blast
  then show ?thesis by (simp add: js_sort_def sort_key_def)
qed

definition page_limit_ok :: "js \<Rightarrow> nat \<Rightarrow> bool" where
  "page_limit_ok l n \<longleftrightarrow> (l \<in> {JUndef, JNull} \<and> n = 100) \<or> (l = JNum (num_of_int (int n)) \<and> 1 \<le> n \<and> n \<le> 100)"

lemma page_run:
  assumes "page_limit_ok l n" and "c = JUndef \<or> (\<exists>s. c = JStr s \<and> s \<noteq> [])"
  shows "pageDatabaseRecords pf rows \<lparr>po_limit = l, po_cursor = c\<rparr> =
    (let ordered = filter (\<lambda>r. c = JUndef \<or> utf8 (js_str c) < sort_id pf r) (sort_key (sort_id pf) rows) in
     Inr \<lparr>pg_records = take n ordered,
       pg_cursor = (if length ordered > n then Some (row_id pf (last (take n ordered))) else None)\<rparr>)"
proof -
  have l: "databasePageLimit \<lparr>po_limit = l, po_cursor = c\<rparr> = Inr n"
    using assms by (auto simp: databasePageLimit_def page_limit_ok_def)
  have s: "js_sort (\<lambda>a b. compareIds (row_id pf a) (row_id pf b)) xs = sort_key (sort_id pf) xs" for xs
    by (rule js_sort_key) (simp add: compareIds_def sort_id_def compare_bytes_le)
  show ?thesis
    unfolding pageDatabaseRecords_def l sum.case Let_def s
    by (simp add: filter_sort compareIds_def compare_bytes_le sort_id_def)
qed

text \<open>The rows after a row, in a list sorted by distinct ids.\<close>

lemma filter_after:
  assumes "sorted (map f xs)" and "distinct (map f xs)" and "k < length xs"
  shows "filter (\<lambda>r. f (xs ! k) < (f r :: 'b :: linorder)) xs = drop (Suc k) xs"
proof -
  have t: "\<not> f (xs ! k) < f r" if "r \<in> set (take (Suc k) xs)" for r
  proof -
    from that obtain i where "i < Suc k" "i < length xs" "r = xs ! i" by (auto simp: in_set_conv_nth)
    with assms(1,3) show ?thesis by (auto simp: sorted_iff_nth_mono not_less)
  qed
  have d: "f (xs ! k) < f r" if "r \<in> set (drop (Suc k) xs)" for r
  proof -
    from that obtain j where "j < length (drop (Suc k) xs)" "r = drop (Suc k) xs ! j" by (metis in_set_conv_nth)
    then obtain i where i: "Suc k + i < length xs" "r = xs ! (Suc k + i)" by (intro that [of j]) simp_all
    then have "f (xs ! k) \<le> f r" using assms(1) by (simp add: sorted_iff_nth_mono)
    moreover have "f (xs ! k) \<noteq> f r"
      using i assms(2,3) by (simp add: distinct_conv_nth)
    ultimately show ?thesis by simp
  qed
  have "filter (\<lambda>r. f (xs ! k) < f r) xs = filter (\<lambda>r. f (xs ! k) < f r) (take (Suc k) xs @ drop (Suc k) xs)"
    by simp
  also have "\<dots> = drop (Suc k) xs" unfolding filter_append using t d by (simp add: filter_id_conv)
  finally show ?thesis .
qed

text \<open>
  Following the cursors, as the reader of a whole table does (\<open>all\<close> of
  \<open>packages/cloudflare/src/database.ts\<close>), with a bound on the number of pages.
\<close>

fun all_pages :: "(js \<Rightarrow> rt_exn + page) \<Rightarrow> nat \<Rightarrow> js \<Rightarrow> (rt_exn + js list) option" where
  "all_pages page 0 cursor = None"
| "all_pages page (Suc fuel) cursor = (case page cursor of
      Inl e \<Rightarrow> Some (Inl e)
    | Inr p \<Rightarrow> (case pg_cursor p of
        None \<Rightarrow> Some (Inr (pg_records p))
      | Some c \<Rightarrow> (case all_pages page fuel (JStr c) of
          Some (Inr rest) \<Rightarrow> Some (Inr (pg_records p @ rest))
        | r \<Rightarrow> r)))"

lemma pages_from:
  assumes l: "page_limit_ok l n" and d: "distinct (map (sort_id pf) rows)" and ne: "\<And>r. r \<in> set rows \<Longrightarrow> row_id pf r \<noteq> []"
  shows "k \<le> length rows \<Longrightarrow> (k = 0 \<and> c = JUndef) \<or> (0 < k \<and> c = JStr (row_id pf (sort_key (sort_id pf) rows ! (k - 1)))) \<Longrightarrow>
    length rows - k < fuel \<Longrightarrow>
    all_pages (\<lambda>c. pageDatabaseRecords pf rows \<lparr>po_limit = l, po_cursor = c\<rparr>) fuel c = Some (Inr (drop k (sort_key (sort_id pf) rows)))"
proof (induction fuel arbitrary: k c)
  case (Suc fuel)
  let ?s = "sort_key (sort_id pf) rows"
  have n: "1 \<le> n" using l by (auto simp: page_limit_ok_def)
  have ds: "distinct (map (sort_id pf) ?s)" using d by (metis distinct_map distinct_sort set_sort)
  have c: "c = JUndef \<or> (\<exists>s. c = JStr s \<and> s \<noteq> [])"
  proof -
    have "?s ! (k - 1) \<in> set rows" if "0 < k"
      using that Suc.prems(1) nth_mem [of "k - 1" ?s] by simp
    then show ?thesis using Suc.prems(2) ne by auto
  qed
  have f: "filter (\<lambda>r. c = JUndef \<or> utf8 (js_str c) < sort_id pf r) ?s = drop k ?s"
  proof (cases "k = 0")
    case False
    then have "filter (\<lambda>r. sort_id pf (?s ! (k - 1)) < sort_id pf r) ?s = drop (Suc (k - 1)) ?s"
      by (intro filter_after [OF _ ds]) (use Suc.prems(1) in auto)
    with False Suc.prems(2) show ?thesis by (simp add: sort_id_def [symmetric])
  qed (use Suc.prems(2) in simp)
  have run: "pageDatabaseRecords pf rows \<lparr>po_limit = l, po_cursor = c\<rparr> = Inr \<lparr>pg_records = take n (drop k ?s),
      pg_cursor = (if length (drop k ?s) > n then Some (row_id pf (last (take n (drop k ?s)))) else None)\<rparr>"
    using page_run [OF l c, of pf rows] unfolding f Let_def .
  show ?case
  proof (cases "length (drop k ?s) > n")
    case False
    then show ?thesis by (simp add: run)
  next
    case True
    have last: "last (take n (drop k ?s)) = ?s ! (k + n - 1)"
      using True n by (simp add: last_conv_nth)
    have "all_pages (\<lambda>c. pageDatabaseRecords pf rows \<lparr>po_limit = l, po_cursor = c\<rparr>) fuel (JStr (row_id pf (?s ! (k + n - 1)))) =
        Some (Inr (drop (k + n) ?s))"
      by (rule Suc.IH) (use True n Suc.prems(3) in auto)
    with True show ?thesis by (simp add: run last add.commute)
      (metis add.commute append_take_drop_id drop_drop)
  qed
qed simp

end
