(* ===== verification/Job_Outbox.thy ===== *)
theory Job_Outbox
  imports Database_Laws
begin

text \<open>
  \<open>packages/runtime/src/job-outbox.ts\<close>: jobs written beside the records that need them, and the
  recovery pass that hands them to the queue.

  The pass runs beside other passes and beside the application, so it is a program in the calls it
  awaits: a tree whose nodes are the host's operations and whose branches are their answers. Between
  two nodes anything may happen to the database. \<open>outbox_step\<close> runs any number of such programs
  together over one database (\<open>applyDatabaseWrites\<close>, \<open>pageDatabaseRecords\<close>) and one queue, with
  failures at every call: an operation may fail, or take effect and lose its answer, and a process
  may stop anywhere.
\<close>

section \<open>The program of a pass\<close>

definition JOB_OUTBOX_TABLE :: string where
  "JOB_OUTBOX_TABLE = ''__mezair_job_outbox''"

record outbox_result =
  or_cursor :: "string option"
  or_published :: nat
  or_failed :: nat

datatype outbox_prog =
    Finished "rt_exn + outbox_result"
  | ReadPage page_options "rt_exn + page \<Rightarrow> outbox_prog"
  | ReadClock "jsnum \<Rightarrow> outbox_prog"
  | NewToken "string \<Rightarrow> outbox_prog"
  | Commit js "rt_exn + unit \<Rightarrow> outbox_prog"
  | Enqueue string js string "rt_exn + unit \<Rightarrow> outbox_prog"

definition db_write :: "string \<Rightarrow> string \<Rightarrow> js \<Rightarrow> js \<Rightarrow> js" where
  "db_write t i expected record =
     JObj [(''table'', JStr t), (''id'', JStr i), (''expected'', expected), (''record'', record)]"

definition jobOutboxWrite :: "platform \<Rightarrow> js \<Rightarrow> rt_exn + js" where
  "jobOutboxWrite pf input =
     (if \<not> isString (jget input ''id'') \<or> js_str (jget input ''id'') = [] \<or>
        \<not> isString (jget input ''name'') \<or> js_str (jget input ''name'') = []
      then Inl (rt_invalid ''An outbox job needs an id and a handler name.'')
      else (case databaseRecordJson pf input of
          Inl e \<Rightarrow> Inl e
        | Inr json \<Rightarrow>
            if encoded_length json > 64 * 1024
            then Inl (rt_invalid ''Outbox job messages cannot exceed 64 KiB. Store large input in files and send its key.'')
            else Inr (db_write JOB_OUTBOX_TABLE (js_str (jget input ''id'')) JNull
              (js_put ''leaseUntil'' (JNum (Fin 0)) (js_put ''attempts'' (JNum (Fin 0))
                (js_put ''state'' (JStr ''pending'') input))))))"

record outbox_options =
  oo_cursor :: js
  oo_limit :: js
  oo_now :: "jsnum option"
  oo_leaseMs :: "jsnum option"
  oo_maxAttempts :: "jsnum option"

definition is_conflict :: "rt_exn \<Rightarrow> bool" where
  "is_conflict e \<longleftrightarrow> (case e of RuntimeError c _ _ \<Rightarrow> c = RtConflict | ForeignError _ \<Rightarrow> False)"

definition num_ge :: "jsnum \<Rightarrow> jsnum \<Rightarrow> bool" where
  "num_ge a b \<longleftrightarrow> a \<noteq> NaN \<and> b \<noteq> NaN \<and> \<not> num_lt a b"

definition attempts_of :: "platform \<Rightarrow> js \<Rightarrow> jsnum" where
  "attempts_of pf record = js_to_number pf (jget record ''attempts'')"

definition claimed_record :: "platform \<Rightarrow> jsnum \<Rightarrow> jsnum \<Rightarrow> string \<Rightarrow> js \<Rightarrow> js" where
  "claimed_record pf now leaseMs token record =
     js_put ''token'' (JStr token) (js_put ''leaseUntil'' (JNum (num_add now leaseMs))
       (js_put ''attempts'' (JNum (num_add (attempts_of pf record) (Fin 1)))
         (js_put ''state'' (JStr ''publishing'') record)))"

text \<open>One record of the page; \<open>k\<close> goes on with what it adds to the two counters.\<close>

definition outbox_settle ::
  "platform \<Rightarrow> jsnum \<Rightarrow> string \<Rightarrow> js \<Rightarrow> (nat \<Rightarrow> nat \<Rightarrow> outbox_prog) \<Rightarrow> outbox_prog" where
  "outbox_settle pf maxAttempts i claimed k =
     Commit (JArr [db_write JOB_OUTBOX_TABLE i claimed (js_put ''state''
         (JStr (if num_ge (attempts_of pf claimed) maxAttempts then ''failed'' else ''pending'')) claimed)])
       (\<lambda>r. case r of Inr _ \<Rightarrow> k 0 1 | Inl e \<Rightarrow> if is_conflict e then k 0 1 else Finished (Inl e))"

definition outbox_publish ::
  "platform \<Rightarrow> jsnum \<Rightarrow> string \<Rightarrow> js \<Rightarrow> (nat \<Rightarrow> nat \<Rightarrow> outbox_prog) \<Rightarrow> outbox_prog" where
  "outbox_publish pf maxAttempts i claimed k =
     Enqueue (js_to_string pf (jget claimed ''name'')) (jget claimed ''payload'') i (\<lambda>r. case r of
        Inl _ \<Rightarrow> outbox_settle pf maxAttempts i claimed k
      | Inr _ \<Rightarrow> Commit (JArr [db_write JOB_OUTBOX_TABLE i claimed JNull]) (\<lambda>r. case r of
            Inr _ \<Rightarrow> k 1 0 | Inl _ \<Rightarrow> outbox_settle pf maxAttempts i claimed k))"

definition outbox_record ::
  "platform \<Rightarrow> jsnum option \<Rightarrow> jsnum \<Rightarrow> jsnum \<Rightarrow> js \<Rightarrow> (nat \<Rightarrow> nat \<Rightarrow> outbox_prog) \<Rightarrow> outbox_prog" where
  "outbox_record pf fixedNow leaseMs maxAttempts record k =
     (let go = (\<lambda>now.
        if jget record ''state'' = JStr ''failed'' \<or> num_lt now (js_to_number pf (jget record ''leaseUntil''))
        then k 0 0
        else
          (let i = js_to_string pf (jget record ''id'') in
           if num_ge (attempts_of pf record) maxAttempts
           then Commit (JArr [db_write JOB_OUTBOX_TABLE i record (js_put ''state'' (JStr ''failed'') record)])
             (\<lambda>r. case r of Inr _ \<Rightarrow> k 0 1 | Inl e \<Rightarrow> if is_conflict e then k 0 0 else Finished (Inl e))
           else NewToken (\<lambda>token.
             let claimed = claimed_record pf now leaseMs token record in
             Commit (JArr [db_write JOB_OUTBOX_TABLE i record claimed])
              (\<lambda>r. case r of
                 Inl e \<Rightarrow> if is_conflict e then k 0 0 else Finished (Inl e)
               | Inr _ \<Rightarrow> outbox_publish pf maxAttempts i claimed k)))) in
      case fixedNow of Some now \<Rightarrow> go now | None \<Rightarrow> ReadClock go)"

fun outbox_records ::
  "platform \<Rightarrow> jsnum option \<Rightarrow> jsnum \<Rightarrow> jsnum \<Rightarrow> string option \<Rightarrow> js list \<Rightarrow> nat \<Rightarrow> nat \<Rightarrow> outbox_prog" where
  "outbox_records pf fixedNow leaseMs maxAttempts cursor [] published failed =
     Finished (Inr \<lparr>or_cursor = cursor, or_published = published, or_failed = failed\<rparr>)"
| "outbox_records pf fixedNow leaseMs maxAttempts cursor (record # records) published failed =
     outbox_record pf fixedNow leaseMs maxAttempts record
       (\<lambda>p f. outbox_records pf fixedNow leaseMs maxAttempts cursor records (published + p) (failed + f))"

definition lease_ms :: "outbox_options \<Rightarrow> jsnum" where
  "lease_ms options = (case oo_leaseMs options of Some n \<Rightarrow> n | None \<Rightarrow> Fin 60000)"

definition max_attempts :: "outbox_options \<Rightarrow> jsnum" where
  "max_attempts options = (case oo_maxAttempts options of Some n \<Rightarrow> n | None \<Rightarrow> Fin 5)"

definition outbox_options_ok :: "outbox_options \<Rightarrow> bool" where
  "outbox_options_ok options \<longleftrightarrow> num_finite (lease_ms options) \<and> \<not> num_lt (lease_ms options) (Fin 1000) \<and>
     (case max_attempts options of Fin r \<Rightarrow> of_int \<lfloor>r\<rfloor> = r \<and> 1 \<le> r \<and> r \<le> 100 | _ \<Rightarrow> False)"

definition dispatchJobOutbox :: "platform \<Rightarrow> bool \<Rightarrow> outbox_options \<Rightarrow> outbox_prog" where
  "dispatchJobOutbox pf can_commit options =
     (if \<not> can_commit
      then Finished (Inl (RuntimeError RtAdapterError ''Job outbox requires conditional database commits.'' 501))
      else if \<not> outbox_options_ok options
      then Finished (Inl (rt_invalid ''Outbox lease must be at least 1000 ms and attempts must be 1 to 100.''))
      else ReadPage \<lparr>po_limit = (if oo_limit options = JUndef \<or> oo_limit options = JNull then JNum (Fin 25) else oo_limit options),
          po_cursor = oo_cursor options\<rparr>
        (\<lambda>r. case r of
           Inl e \<Rightarrow> Finished (Inl e)
         | Inr page \<Rightarrow> outbox_records pf (oo_now options) (lease_ms options) (max_attempts options) (pg_cursor page)
             (pg_records page) 0 0))"

section \<open>Running programs together\<close>

type_synonym queued = "string \<times> string \<times> js"

record outbox_sys =
  os_db :: database
  os_queue :: "queued list"
  os_procs :: "outbox_prog list"
  os_used :: "string set"

text \<open>
  What the application commits: writes to other tables, and outbox writes of jobs with an id never
  used before.
\<close>

definition app_write :: "platform \<Rightarrow> string set \<Rightarrow> js \<Rightarrow> bool" where
  "app_write pf used w \<longleftrightarrow> wf_write w \<and> (wtab w \<noteq> JOB_OUTBOX_TABLE \<or>
     (\<exists>input i. js_wf input \<and> isObject input \<and> jobOutboxWrite pf input = Inr w \<and> wid w = JStr i \<and> i \<notin> used))"

definition used_ids :: "js list \<Rightarrow> string set" where
  "used_ids ws = {i. \<exists>w \<in> set ws. wtab w = JOB_OUTBOX_TABLE \<and> wid w = JStr i}"

text \<open>One step; every pass tries a record at most \<open>M\<close> times.\<close>

inductive outbox_step :: "platform \<Rightarrow> nat \<Rightarrow> outbox_sys \<Rightarrow> outbox_sys \<Rightarrow> bool" for pf :: platform and M :: nat where
  app: "applyDatabaseWrites pf (os_db s) (JArr ws) = Inr db \<Longrightarrow> \<forall>w \<in> set ws. app_write pf (os_used s) w \<Longrightarrow>
      outbox_step pf M s (s\<lparr>os_db := db, os_used := os_used s \<union> used_ids ws\<rparr>)"
| spawn: "outbox_options_ok options \<longrightarrow> max_attempts options = num_of_int (int m) \<and> m \<le> M \<Longrightarrow>
      outbox_step pf M s (s\<lparr>os_procs := os_procs s @ [dispatchJobOutbox pf c options]\<rparr>)"
| crash: "i < length (os_procs s) \<Longrightarrow>
      outbox_step pf M s (s\<lparr>os_procs := (os_procs s)[i := Finished (Inl e)]\<rparr>)"
| page: "i < length (os_procs s) \<Longrightarrow> os_procs s ! i = ReadPage opts k \<Longrightarrow>
      rows = (case map_of (os_db s) JOB_OUTBOX_TABLE of Some rows \<Rightarrow> rows | None \<Rightarrow> []) \<Longrightarrow>
      r = pageDatabaseRecords pf rows opts \<or> r = Inl e \<Longrightarrow>
      outbox_step pf M s (s\<lparr>os_procs := (os_procs s)[i := k r]\<rparr>)"
| clock: "i < length (os_procs s) \<Longrightarrow> os_procs s ! i = ReadClock k \<Longrightarrow> num_finite t \<Longrightarrow>
      outbox_step pf M s (s\<lparr>os_procs := (os_procs s)[i := k t]\<rparr>)"
| token: "i < length (os_procs s) \<Longrightarrow> os_procs s ! i = NewToken k \<Longrightarrow>
      outbox_step pf M s (s\<lparr>os_procs := (os_procs s)[i := k token]\<rparr>)"
| commit: "i < length (os_procs s) \<Longrightarrow> os_procs s ! i = Commit ws k \<Longrightarrow>
      applyDatabaseWrites pf (os_db s) ws = Inr db \<Longrightarrow> r = Inr () \<or> r = Inl e \<Longrightarrow>
      outbox_step pf M s (s\<lparr>os_db := db, os_procs := (os_procs s)[i := k r]\<rparr>)"
| commit_fails: "i < length (os_procs s) \<Longrightarrow> os_procs s ! i = Commit ws k \<Longrightarrow>
      outbox_step pf M s (s\<lparr>os_procs := (os_procs s)[i := k (Inl e)]\<rparr>)"
| enqueue: "i < length (os_procs s) \<Longrightarrow> os_procs s ! i = Enqueue n p j k \<Longrightarrow> r = Inr () \<or> r = Inl e \<Longrightarrow>
      outbox_step pf M s (s\<lparr>os_queue := os_queue s @ [(j, n, p)], os_procs := (os_procs s)[i := k r]\<rparr>)"
| enqueue_fails: "i < length (os_procs s) \<Longrightarrow> os_procs s ! i = Enqueue n p j k \<Longrightarrow>
      outbox_step pf M s (s\<lparr>os_procs := (os_procs s)[i := k (Inl e)]\<rparr>)"

definition outbox_start :: outbox_sys where
  "outbox_start = \<lparr>os_db = [], os_queue = [], os_procs = [], os_used = {}\<rparr>"

end
