(* ===== verification/Job_Outbox_Laws.thy ===== *)
theory Job_Outbox_Laws
  imports Job_Outbox
begin

text \<open>
  The invariant of passes running together. \<open>prog_ok\<close> says what a program may still do: change an
  outbox row only with the row it read as condition, keep its job, count an attempt before it
  publishes, and delete it only after the job reached the queue. Every step keeps
  \<open>outbox_inv\<close>, from which the properties of the outbox follow.
\<close>

section \<open>Rows and jobs\<close>

type_synonym job = "js \<times> js \<times> (rt_exn + js)"

definition job_of :: "js \<Rightarrow> job" where
  "job_of r = (jget r ''id'', jget r ''name'', db_visit (jget r ''payload''))"

definition queued_job :: "queued \<Rightarrow> job" where
  "queued_job q = (case q of (i, n, p) \<Rightarrow> (JStr i, JStr n, db_visit p))"

definition has_attempts :: "js \<Rightarrow> nat \<Rightarrow> bool" where
  "has_attempts r a \<longleftrightarrow> jget r ''attempts'' = JNum (num_of_int (int a))"

definition shaped :: "js \<Rightarrow> bool" where
  "shaped r \<longleftrightarrow> js_wf r \<and> isObject r \<and> isString (jget r ''id'') \<and> isString (jget r ''name'') \<and> (\<exists>a. has_attempts r a)"

lemma wf_put: "js_wf v \<Longrightarrow> js_wf x \<Longrightarrow> js_wf (js_put k x v)"
  using update_subset [of k x] by (cases v) (fastforce simp: js_put_def list_all_iff intro: distinct_update)+

lemma shaped_put:
  "shaped r \<Longrightarrow> js_wf x \<Longrightarrow> k \<notin> {''id'', ''name'', ''attempts''} \<Longrightarrow> shaped (js_put k x r)"
  by (auto simp: shaped_def wf_put has_attempts_def)

lemma job_of_put: "isObject r \<Longrightarrow> k \<notin> {''id'', ''name'', ''payload''} \<Longrightarrow> job_of (js_put k x r) = job_of r"
  by (auto simp: job_of_def)

lemma has_attempts_unique: "has_attempts r a \<Longrightarrow> has_attempts r b \<Longrightarrow> a = b"
  by (simp add: has_attempts_def)

text \<open>A row that is the same as the record a program read has its job and its attempts.\<close>

lemma same_record:
  assumes "js_same r e" and "js_wf r" and "shaped e"
  shows "shaped r \<and> job_of r = job_of e \<and> (\<forall>a. has_attempts r a \<longleftrightarrow> has_attempts e a)"
proof -
  obtain lvs where e: "e = JObj lvs" using assms(3) by (cases e) (auto simp: shaped_def isObject_def)
  obtain kvs where r: "r = JObj kvs" and f: "\<And>k. rel_option js_same (map_of kvs k) (map_of lvs k)"
    using assms(1) by (cases rule: js_same.cases) (auto simp: e)
  have same: "jget r k = jget e k \<or> js_same (jget r k) (jget e k)" for k
    using f [of k] by (cases "map_of kvs k"; cases "map_of lvs k") (auto simp: jget_def r e)
  have wf: "js_wf (jget v k)" if "js_wf v" for v k
    using that by (cases v) (auto simp: jget_def list_all_iff split: option.split dest: map_of_SomeD)
  have str: "jget r k = jget e k" if "isString (jget e k) \<or> (\<exists>x. jget e k = JNum x)" for k
    using same [of k] that by (auto elim!: isStringE elim: js_same.cases)
  have "db_visit (jget r ''payload'') = db_visit (jget e ''payload'')"
    using same [of "''payload''"] wf [OF assms(2)] wf [of e] assms(3) same_visit by (auto simp: shaped_def)
  moreover have "jget r ''id'' = jget e ''id''" "jget r ''name'' = jget e ''name''" "jget r ''attempts'' = jget e ''attempts''"
    using assms(3) by (auto intro!: str simp: shaped_def has_attempts_def)
  ultimately show ?thesis using assms(2,3) by (simp add: shaped_def job_of_def has_attempts_def r)
qed

section \<open>What a program may still do\<close>

fun enqueues :: "outbox_prog \<Rightarrow> job option" where
  "enqueues (Enqueue n p i k) = Some (queued_job (i, n, p))"
| "enqueues _ = None"

definition change_ok :: "nat \<Rightarrow> job set \<Rightarrow> js \<Rightarrow> js \<Rightarrow> outbox_prog \<Rightarrow> bool" where
  "change_ok M P e r next \<longleftrightarrow>
     (r = JNull \<and> job_of e \<in> P \<and> enqueues next = None) \<or>
     (shaped r \<and> job_of r = job_of e \<and>
       ((\<forall>a. has_attempts e a \<longrightarrow> has_attempts r a) \<and> enqueues next = None \<or>
        (\<exists>a. has_attempts e a \<and> has_attempts r (Suc a) \<and> Suc a \<le> M) \<and> enqueues next \<in> {None, Some (job_of e)}))"

inductive prog_ok :: "nat \<Rightarrow> job set \<Rightarrow> outbox_prog \<Rightarrow> bool" for M where
  finished_ok: "prog_ok M P (Finished r)"
| page_ok: "(\<And>r. (\<And>p x. r = Inr p \<Longrightarrow> x \<in> set (pg_records p) \<Longrightarrow> shaped x) \<Longrightarrow> prog_ok M P (k r) \<and> enqueues (k r) = None) \<Longrightarrow>
    prog_ok M P (ReadPage opts k)"
| clock_ok: "(\<And>t. prog_ok M P (k t) \<and> enqueues (k t) = None) \<Longrightarrow> prog_ok M P (ReadClock k)"
| token_ok: "(\<And>t. prog_ok M P (k t) \<and> enqueues (k t) = None) \<Longrightarrow> prog_ok M P (NewToken k)"
| commit_ok: "shaped e \<Longrightarrow> jget e ''id'' = JStr i \<Longrightarrow> change_ok M P e r (k (Inr ())) \<Longrightarrow>
    (\<And>x. prog_ok M P (k x)) \<Longrightarrow> (\<And>x. enqueues (k (Inl x)) = None) \<Longrightarrow>
    prog_ok M P (Commit (JArr [db_write JOB_OUTBOX_TABLE i e r]) k)"
| enqueue_ok: "(\<And>x. enqueues (k x) = None) \<Longrightarrow> (\<And>x. prog_ok M P (k (Inl x))) \<Longrightarrow>
    prog_ok M (insert (queued_job (i, n, p)) P) (k (Inr ())) \<Longrightarrow> prog_ok M P (Enqueue n p i k)"

inductive_cases prog_okE:
  "prog_ok M P (ReadPage opts k)" "prog_ok M P (ReadClock k)" "prog_ok M P (NewToken k)"
  "prog_ok M P (Commit ws k)" "prog_ok M P (Enqueue n p i k)"

lemma change_ok_mono: "change_ok M P e r next \<Longrightarrow> P \<subseteq> Q \<Longrightarrow> change_ok M Q e r next"
  by (auto simp: change_ok_def)

lemma prog_ok_mono: "prog_ok M P p \<Longrightarrow> P \<subseteq> Q \<Longrightarrow> prog_ok M Q p"
proof (induction arbitrary: Q rule: prog_ok.induct)
  case (commit_ok e i P r k)
  then show ?case by (intro prog_ok.commit_ok) (auto intro: change_ok_mono)
next
  case (enqueue_ok k P i n p)
  then have "prog_ok M (insert (queued_job (i, n, p)) Q) (k (Inr ()))" by (simp add: subset_insertI2)
  with enqueue_ok show ?case by (intro prog_ok.enqueue_ok) simp_all
qed (auto intro!: prog_ok.intros)

text \<open>Publishing a claimed record, and a whole pass.\<close>

lemma settle_ok:
  assumes c: "shaped c" "jget c ''id'' = JStr i" and k: "\<And>p f Q. prog_ok M Q (k p f) \<and> enqueues (k p f) = None"
  shows "prog_ok M P (outbox_settle pf m i c k)" and "enqueues (outbox_settle pf m i c k) = None"
proof -
  have s: "shaped (js_put ''state'' (JStr st) c)" "job_of (js_put ''state'' (JStr st) c) = job_of c"
    "has_attempts c a \<longrightarrow> has_attempts (js_put ''state'' (JStr st) c) a" for st a
    using shaped_put [OF c(1), of "JStr st" "''state''"] c(1) by (simp_all add: job_of_put shaped_def has_attempts_def)
  show "prog_ok M P (outbox_settle pf m i c k)"
    unfolding outbox_settle_def using s c k by (intro commit_ok) (auto simp: change_ok_def intro: finished_ok split: sum.split)
qed (simp add: outbox_settle_def)

lemma publish_ok:
  assumes c: "shaped c" "jget c ''id'' = JStr i" and k: "\<And>p f Q. prog_ok M Q (k p f) \<and> enqueues (k p f) = None"
  shows "prog_ok M P (outbox_publish pf m i c k)" and "enqueues (outbox_publish pf m i c k) = Some (job_of c)"
proof -
  have "isString (jget c ''name'')" using c by (simp add: shaped_def)
  then have n: "JStr (js_to_string pf (jget c ''name'')) = jget c ''name''" by (auto elim: isStringE)
  have j: "queued_job (i, js_to_string pf (jget c ''name''), jget c ''payload'') = job_of c"
    by (simp add: queued_job_def job_of_def n c)
  note settle = settle_ok [where k = k, OF c k]
  have "prog_ok M (insert (job_of c) P) (Commit (JArr [db_write JOB_OUTBOX_TABLE i c JNull])
      (\<lambda>r. case r of Inr _ \<Rightarrow> k 1 0 | Inl _ \<Rightarrow> outbox_settle pf m i c k))"
    using c k settle by (intro commit_ok) (auto simp: change_ok_def split: sum.split)
  then show "prog_ok M P (outbox_publish pf m i c k)"
    unfolding outbox_publish_def using settle by (intro enqueue_ok) (auto simp: j simp del: One_nat_def split: sum.split)
  show "enqueues (outbox_publish pf m i c k) = Some (job_of c)"
    by (simp add: outbox_publish_def j)
qed

lemma claim_ok:
  assumes c: "shaped r" "has_attempts r a" "num_of_int (int m) = maxAttempts" "\<not> num_ge (attempts_of pf r) maxAttempts"
  shows "shaped (claimed_record pf now lease token r) \<and> job_of (claimed_record pf now lease token r) = job_of r \<and>
    has_attempts (claimed_record pf now lease token r) (Suc a) \<and> Suc a \<le> m"
proof -
  have o: "isObject r" and wf: "js_wf r" using c(1) by (simp_all add: shaped_def)
  have a: "attempts_of pf r = num_of_int (int a)"
    using c(2) by (simp add: attempts_of_def has_attempts_def js_to_number_def)
  have at: "has_attempts (claimed_record pf now lease token r) (Suc a)"
    using o by (simp add: claimed_record_def has_attempts_def a add.commute)
  have "js_wf (claimed_record pf now lease token r)"
    unfolding claimed_record_def using wf by (intro wf_put) simp_all
  with c(1) at have "shaped (claimed_record pf now lease token r)"
    using o by (auto simp: shaped_def claimed_record_def)
  moreover have "job_of (claimed_record pf now lease token r) = job_of r"
    using o by (simp add: claimed_record_def job_of_put)
  moreover have "Suc a \<le> m"
    using c(4) unfolding a c(3) [symmetric] by (simp add: num_ge_def)
  ultimately show ?thesis using at by simp
qed

lemma record_ok:
  assumes r: "shaped r" and m: "num_of_int (int m) = maxAttempts" "m \<le> M"
    and k: "\<And>p f Q. prog_ok M Q (k p f) \<and> enqueues (k p f) = None"
  shows "prog_ok M P (outbox_record pf fixed lease maxAttempts r k) \<and>
    enqueues (outbox_record pf fixed lease maxAttempts r k) = None"
proof -
  obtain i where i: "jget r ''id'' = JStr i" using r by (auto simp: shaped_def elim: isStringE)
  obtain a where a: "has_attempts r a" using r by (auto simp: shaped_def)
  have st: "shaped (js_put ''state'' (JStr st) r)" "job_of (js_put ''state'' (JStr st) r) = job_of r"
    "has_attempts r b \<longrightarrow> has_attempts (js_put ''state'' (JStr st) r) b" for st b
    using shaped_put [OF r, of "JStr st" "''state''"] r by (simp_all add: job_of_put shaped_def has_attempts_def)
  have give_up: "prog_ok M P (Commit (JArr [db_write JOB_OUTBOX_TABLE i r (js_put ''state'' (JStr st) r)])
      (\<lambda>x. case x of Inr _ \<Rightarrow> k 0 1 | Inl e \<Rightarrow> if is_conflict e then k 0 0 else Finished (Inl e)))" for st
    using st r i k by (intro commit_ok) (auto simp: change_ok_def intro: finished_ok split: sum.split)
  have claim: "prog_ok M P (Commit (JArr [db_write JOB_OUTBOX_TABLE i r (claimed_record pf now lease token r)])
      (\<lambda>x. case x of Inl e \<Rightarrow> if is_conflict e then k 0 0 else Finished (Inl e)
         | Inr _ \<Rightarrow> outbox_publish pf maxAttempts i (claimed_record pf now lease token r) k))"
    if "\<not> num_ge (attempts_of pf r) maxAttempts" for now token
  proof -
    note c = claim_ok [OF r a m(1) that, of now lease token]
    then have id: "jget (claimed_record pf now lease token r) ''id'' = JStr i" using i by (simp add: job_of_def)
    note p = publish_ok [where k = k, OF _ id k]
    show ?thesis
      using c p r i a m(2) k by (intro commit_ok) (auto simp: change_ok_def intro: finished_ok split: sum.split)
  qed
  have "js_to_string pf (jget r ''id'') = i" by (simp add: i)
  with give_up claim k show ?thesis
    unfolding outbox_record_def Let_def
    by (auto intro!: clock_ok token_ok simp del: One_nat_def split: option.split)
qed

lemma records_ok:
  assumes m: "num_of_int (int m) = maxAttempts" "m \<le> M"
  shows "\<forall>r \<in> set rs. shaped r \<Longrightarrow> prog_ok M P (outbox_records pf fixed lease maxAttempts cursor rs p f) \<and>
    enqueues (outbox_records pf fixed lease maxAttempts cursor rs p f) = None"
proof (induction rs arbitrary: P p f)
  case (Cons r rs)
  then show ?case unfolding outbox_records.simps by (intro record_ok [OF _ m]) auto
qed (simp add: finished_ok)

lemma dispatch_ok:
  assumes "outbox_options_ok options \<longrightarrow> max_attempts options = num_of_int (int m) \<and> m \<le> M"
  shows "prog_ok M P (dispatchJobOutbox pf c options) \<and> enqueues (dispatchJobOutbox pf c options) = None"
proof (cases "outbox_options_ok options")
  case True
  with assms have m: "num_of_int (int m) = max_attempts options" "m \<le> M" by auto
  show ?thesis
    unfolding dispatchJobOutbox_def using True
    by (auto intro!: page_ok finished_ok records_ok [OF m, THEN conjunct1] records_ok [OF m, THEN conjunct2] split: sum.split)
qed (simp add: dispatchJobOutbox_def finished_ok)

section \<open>The invariant of the system\<close>

abbreviation outbox_row :: "outbox_sys \<Rightarrow> string \<Rightarrow> js" where
  "outbox_row s i \<equiv> db_row (os_db s) JOB_OUTBOX_TABLE (JStr i)"

definition published :: "outbox_sys \<Rightarrow> job set" where
  "published s = queued_job ` set (os_queue s)"

definition enqueued :: "outbox_sys \<Rightarrow> string \<Rightarrow> nat" where
  "enqueued s i = length (filter (\<lambda>q. fst q = i) (os_queue s))"

definition flying :: "string \<Rightarrow> outbox_prog \<Rightarrow> bool" where
  "flying i p \<longleftrightarrow> (\<exists>j. enqueues p = Some j \<and> fst j = JStr i)"

definition in_flight :: "outbox_sys \<Rightarrow> string \<Rightarrow> nat" where
  "in_flight s i = length (filter (flying i) (os_procs s))"

definition spent_ok :: "nat \<Rightarrow> outbox_sys \<Rightarrow> string \<Rightarrow> bool" where
  "spent_ok M s i \<longleftrightarrow>
     (if outbox_row s i = JNull then enqueued s i + in_flight s i \<le> (if i \<in> os_used s then M else 0)
      else i \<in> os_used s \<and> (\<exists>a. has_attempts (outbox_row s i) a \<and> enqueued s i + in_flight s i \<le> a \<and> a \<le> M))"

definition outbox_inv :: "nat \<Rightarrow> outbox_sys \<Rightarrow> bool" where
  "outbox_inv M s \<longleftrightarrow> db_ok (os_db s) \<and> (\<forall>r \<in> set (rows_of (os_db s) JOB_OUTBOX_TABLE). shaped r) \<and>
     (\<forall>p \<in> set (os_procs s). prog_ok M (published s) p) \<and> (\<forall>i. spent_ok M s i)"

lemma outbox_inv_start: "outbox_inv M outbox_start"
  by (simp add: outbox_inv_def outbox_start_def db_ok_def rows_of_def spent_ok_def enqueued_def in_flight_def db_row_def
      current_row_def)

lemma length_filter_update:
  "i < length xs \<Longrightarrow> length (filter P (xs[i := x])) + (if P (xs ! i) then 1 else 0) =
     length (filter P xs) + (if P x then 1 else 0)"
proof (induction xs arbitrary: i)
  case (Cons y ys)
  then show ?case by (cases i) auto
qed simp

lemma in_flight_update:
  "i < length (os_procs s) \<Longrightarrow> in_flight (s\<lparr>os_procs := (os_procs s)[i := q]\<rparr>) j + (if flying j (os_procs s ! i) then 1 else 0) =
     in_flight s j + (if flying j q then 1 else 0)"
  unfolding in_flight_def using length_filter_update [of i "os_procs s" "flying j" q] by simp

lemma flying_simps [simp]:
  "flying j (Finished r) = False" "flying j (ReadPage o1 k1) = False" "flying j (ReadClock k2) = False"
  "flying j (NewToken k3) = False" "flying j (Commit ws k4) = False"
  "flying j (Enqueue n p i k) = (i = j)"
  by (simp_all add: flying_def queued_job_def)

lemma not_flying: "enqueues q = None \<Longrightarrow> \<not> flying j q"
  by (simp add: flying_def)

lemma spent_ok_le:
  assumes "spent_ok M s j" and "outbox_row t j = outbox_row s j" and "j \<in> os_used t \<longleftrightarrow> j \<in> os_used s"
    and le: "enqueued t j + in_flight t j \<le> enqueued s j + in_flight s j"
  shows "spent_ok M t j"
proof (cases "outbox_row s j = JNull")
  case False
  with assms(1) obtain a where "j \<in> os_used s" "has_attempts (outbox_row s j) a" "enqueued s j + in_flight s j \<le> a" "a \<le> M"
    by (auto simp: spent_ok_def)
  with False assms(2,3) le show ?thesis unfolding spent_ok_def by (metis order_trans)
qed (use assms in \<open>simp add: spent_ok_def\<close>)

text \<open>A process goes on without publishing anything.\<close>

lemma inv_proceed:
  assumes inv: "outbox_inv M s" and i: "i < length (os_procs s)" and q: "prog_ok M (published s) q" "enqueues q = None"
  shows "outbox_inv M (s\<lparr>os_procs := (os_procs s)[i := q]\<rparr>)"
proof -
  let ?t = "s\<lparr>os_procs := (os_procs s)[i := q]\<rparr>"
  have le: "in_flight ?t j \<le> in_flight s j" for j
    using in_flight_update [OF i, of q j] not_flying [OF q(2), of j] by (auto split: if_splits)
  have "spent_ok M ?t j" if "spent_ok M s j" for j
    using le [of j] by (intro spent_ok_le [OF that]) (simp_all add: enqueued_def)
  moreover have "\<forall>p \<in> set (os_procs ?t). prog_ok M (published ?t) p"
    using inv q(1) by (auto simp: outbox_inv_def published_def dest!: set_update_subset_insert [THEN subsetD])
  ultimately show ?thesis using inv by (simp add: outbox_inv_def)
qed

lemma inv_prog: "outbox_inv M s \<Longrightarrow> i < length (os_procs s) \<Longrightarrow> prog_ok M (published s) (os_procs s ! i)"
  by (simp add: outbox_inv_def)

lemma orow_shaped: "outbox_inv M s \<Longrightarrow> outbox_row s i = JNull \<or> (shaped (outbox_row s i) \<and> js_wf (outbox_row s i))"
  using db_row_in [of "os_db s" JOB_OUTBOX_TABLE "JStr i"] by (auto simp: outbox_inv_def shaped_def)

text \<open>Publishing.\<close>

lemma inv_enqueue:
  assumes inv: "outbox_inv M s" and i: "i < length (os_procs s)" "os_procs s ! i = Enqueue n p j k" and r: "r = Inr () \<or> r = Inl e"
  shows "outbox_inv M (s\<lparr>os_queue := os_queue s @ [(j, n, p)], os_procs := (os_procs s)[i := k r]\<rparr>)" (is "outbox_inv M ?t")
proof -
  have ok: "prog_ok M (published s) (Enqueue n p j k)" using inv_prog [OF inv i(1)] i(2) by simp
  have pub: "published ?t = insert (queued_job (j, n, p)) (published s)" by (auto simp: published_def)
  from ok r have k: "prog_ok M (published ?t) (k r)" "enqueues (k r) = None"
    unfolding pub by (auto elim!: prog_okE intro: prog_ok_mono)
  have procs: "\<forall>p \<in> set (os_procs ?t). prog_ok M (published ?t) p"
  proof
    fix q assume "q \<in> set (os_procs ?t)"
    then have "q = k r \<or> q \<in> set (os_procs s)" by (auto dest!: set_update_subset_insert [THEN subsetD])
    moreover have "prog_ok M (published ?t) q" if "q \<in> set (os_procs s)"
      using that inv unfolding pub by (auto simp: outbox_inv_def intro: prog_ok_mono)
    ultimately show "prog_ok M (published ?t) q" using k(1) by blast
  qed
  have "in_flight ?t l = in_flight (s\<lparr>os_procs := (os_procs s)[i := k r]\<rparr>) l" for l by (simp add: in_flight_def)
  then have sum: "enqueued ?t l + in_flight ?t l = enqueued s l + in_flight s l" for l
    using in_flight_update [OF i(1), of "k r" l] not_flying [OF k(2), of l] i(2) by (auto simp: enqueued_def)
  have "spent_ok M ?t l" if "spent_ok M s l" for l
    using that by (simp add: spent_ok_def sum)
  with inv procs show ?thesis by (simp add: outbox_inv_def)
qed

text \<open>The commits of a program.\<close>

lemma write_fields [simp]:
  "wtab (db_write t i e r) = t" "jget (db_write t i e r) ''id'' = JStr i"
  "jget (db_write t i e r) ''expected'' = e" "jget (db_write t i e r) ''record'' = r"
  by (simp_all add: db_write_def wtab_def jget_def)

lemma inv_commit:
  assumes num: "numeric pf" and inv: "outbox_inv M s" and i: "i < length (os_procs s)" "os_procs s ! i = Commit ws k"
    and a: "applyDatabaseWrites pf (os_db s) ws = Inr db" and x: "x = Inr () \<or> x = Inl err"
    and t: "t = s\<lparr>os_db := db, os_procs := (os_procs s)[i := k x]\<rparr>"
  shows "outbox_inv M t"
    and "\<exists>j e r. (\<forall>l. outbox_row t l = (if l = j then r else outbox_row s l)) \<and> job_of (outbox_row s j) = job_of e \<and>
      (r = JNull \<and> job_of e \<in> published s \<or> r \<noteq> JNull \<and> job_of r = job_of e)"
proof -
  have ok: "prog_ok M (published s) (Commit ws k)" using inv_prog [OF inv i(1)] i(2) by simp
  then obtain e j r where w: "ws = JArr [db_write JOB_OUTBOX_TABLE j e r]" and e: "shaped e" "jget e ''id'' = JStr j"
    and c: "change_ok M (published s) e r (k (Inr ()))" and k: "\<And>x. prog_ok M (published s) (k x)" "\<And>x. enqueues (k (Inl x)) = None"
    by (auto elim!: prog_okE)
  have db: "db_ok (os_db s)" using inv by (simp add: outbox_inv_def)
  have r: "r = JNull \<or> shaped r" using c by (auto simp: change_ok_def)
  have wf: "\<forall>w \<in> set [db_write JOB_OUTBOX_TABLE j e r]. wf_write w"
    using e(1) r by (auto simp: wf_write_def shaped_def)
  note eff = commit_effect [OF num db a [unfolded w] wf]
  have same: "js_same (outbox_row s j) e" using eff(1) by (simp add: unchanged_def)
  have old: "outbox_row s j \<noteq> JNull" using same e(1) by (auto simp: shaped_def isObject_def elim: js_same.cases)
  then have "js_wf (outbox_row s j)" using orow_shaped [OF inv, of j] by simp
  note rec = same_record [OF same this e(1)]
  have row: "outbox_row t l = (if l = j then r else outbox_row s l)" for l
    using eff(4) by (simp add: find_write_def t)
  have nr: "r \<noteq> JNull" if "shaped r" using that by (auto simp: shaped_def isObject_def)
  show "\<exists>j e r. (\<forall>l. outbox_row t l = (if l = j then r else outbox_row s l)) \<and> job_of (outbox_row s j) = job_of e \<and>
      (r = JNull \<and> job_of e \<in> published s \<or> r \<noteq> JNull \<and> job_of r = job_of e)"
    using row rec c nr by (intro exI [of _ j] exI [of _ e] exI [of _ r]) (auto simp: change_ok_def)
  have j: "fst (job_of e) = JStr j" using e(2) by (simp add: job_of_def)
  have sp: "spent_ok M s j" using inv by (simp add: outbox_inv_def)
  with old obtain b where b: "j \<in> os_used s" "has_attempts (outbox_row s j) b" "enqueued s j + in_flight s j \<le> b" "b \<le> M"
    by (auto simp: spent_ok_def)
  have fl: "in_flight t l = in_flight s l + (if flying l (k x) then 1 else 0)" for l
    using in_flight_update [OF i(1), of "k x" l] i(2) by (simp add: in_flight_def t)
  have enq: "enqueued t l = enqueued s l" for l by (simp add: enqueued_def t)
  have used: "os_used t = os_used s" by (simp add: t)
  have quiet: "\<not> flying l (k x)" if "l \<noteq> j" for l
    using x c k(2) that j by (auto simp: change_ok_def flying_def)
  have "spent_ok M t l" for l
  proof (cases "l = j")
    case False
    have "spent_ok M s l" using inv by (simp add: outbox_inv_def)
    then show ?thesis by (rule spent_ok_le) (use False row quiet fl enq used in simp_all)
  next
    case True
    show ?thesis
    proof (cases "r = JNull")
      case r: True
      with c have "enqueues (k (Inr ())) = None" using nr by (auto simp: change_ok_def)
      with x k(2) have "enqueues (k x) = None" by auto
      then have "\<not> flying j (k x)" by (rule not_flying)
      with True r b show ?thesis by (auto simp: spent_ok_def row fl enq used)
    next
      case False
      have "\<exists>a. has_attempts r a \<and> enqueued t j + in_flight t j \<le> a \<and> a \<le> M"
      proof (cases "enqueues (k x) = None")
        case n: True
        have "\<exists>a. has_attempts r a \<and> b \<le> a \<and> a \<le> M"
          using c False rec b has_attempts_unique unfolding change_ok_def by (metis Suc_leD le_refl le_SucI)
        with b n not_flying show ?thesis by (auto simp: fl enq intro: order_trans)
      next
        case n: False
        with x k(2) have "x = Inr ()" by auto
        with n c False obtain a where "has_attempts e a" "has_attempts r (Suc a)" "Suc a \<le> M"
          by (auto simp: change_ok_def)
        with b rec has_attempts_unique have "has_attempts r (Suc b)" "Suc b \<le> M" by auto
        with b show ?thesis by (intro exI [of _ "Suc b"]) (auto simp: fl enq)
      qed
      with False True b show ?thesis by (simp add: spent_ok_def row used)
    qed
  qed
  moreover have "\<forall>q \<in> set (rows_of (os_db t) JOB_OUTBOX_TABLE). shaped q"
  proof
    fix q assume q: "q \<in> set (rows_of (os_db t) JOB_OUTBOX_TABLE)"
    then have "q \<in> set (rows_of (os_db s) JOB_OUTBOX_TABLE) \<or> q = r \<and> truthy r" using eff(5) [of q JOB_OUTBOX_TABLE] by (auto simp: t)
    then show "shaped q" using inv r by (auto simp: outbox_inv_def truthy_def)
  qed
  moreover have "\<forall>p \<in> set (os_procs t). prog_ok M (published t) p"
    using inv k(1) by (auto simp: outbox_inv_def published_def t dest!: set_update_subset_insert [THEN subsetD])
  ultimately show "outbox_inv M t" using eff(3) by (simp add: outbox_inv_def t)
qed

text \<open>The application's commits.\<close>

lemma outbox_write:
  assumes "jobOutboxWrite pf input = Inr w" and "js_wf input" and "isObject input"
  obtains i r where "w = db_write JOB_OUTBOX_TABLE i JNull r" and "shaped r" and "has_attempts r 0" and "job_of r = job_of input"
proof -
  let ?r = "js_put ''leaseUntil'' (JNum (Fin 0)) (js_put ''attempts'' (JNum (Fin 0)) (js_put ''state'' (JStr ''pending'') input))"
  have w: "w = db_write JOB_OUTBOX_TABLE (js_str (jget input ''id'')) JNull ?r"
    and s: "isString (jget input ''id'')" "isString (jget input ''name'')"
    using assms(1) by (auto simp: jobOutboxWrite_def split: if_splits sum.splits)
  have "has_attempts ?r 0" using assms(3) by (simp add: has_attempts_def)
  moreover have "shaped ?r" using assms(2,3) s calculation by (auto simp: shaped_def wf_put)
  moreover have "job_of ?r = job_of input" using assms(3) by (simp add: job_of_put)
  ultimately show ?thesis using that w by blast
qed

lemma app_row:
  assumes num: "numeric pf" and db: "db_ok (os_db s)" and a: "applyDatabaseWrites pf (os_db s) (JArr ws) = Inr db"
    and w: "\<forall>w \<in> set ws. app_write pf (os_used s) w"
  shows "db_row db JOB_OUTBOX_TABLE (JStr j) = outbox_row s j \<and> (j \<notin> os_used s \<longrightarrow> j \<notin> used_ids ws) \<or>
    j \<notin> os_used s \<and> j \<in> used_ids ws \<and> has_attempts (db_row db JOB_OUTBOX_TABLE (JStr j)) 0 \<and>
      shaped (db_row db JOB_OUTBOX_TABLE (JStr j))"
proof -
  have wf: "\<forall>w \<in> set ws. wf_write w" using w by (simp add: app_write_def)
  note eff = commit_effect [OF num db a wf]
  show ?thesis
  proof (cases "find_write ws JOB_OUTBOX_TABLE (JStr j)")
    case None
    then have "j \<notin> used_ids ws" by (auto simp: find_write_def find_None_iff used_ids_def)
    with None eff(4) show ?thesis by simp
  next
    case (Some v)
    then have v: "v \<in> set ws" "wtab v = JOB_OUTBOX_TABLE" "wid v = JStr j" by (auto simp: find_write_def dest: find_in)
    with w obtain input where i: "js_wf input" "isObject input" "jobOutboxWrite pf input = Inr v" "j \<notin> os_used s"
      by (auto simp: app_write_def)
    obtain i r where "v = db_write JOB_OUTBOX_TABLE i JNull r" "shaped r" "has_attempts r 0"
      by (rule outbox_write [OF i(3,1,2)])
    moreover have "j \<in> used_ids ws" using v by (auto simp: used_ids_def)
    ultimately show ?thesis using Some eff(4) i(4) by simp
  qed
qed

lemma inv_app:
  assumes num: "numeric pf" and inv: "outbox_inv M s" and a: "applyDatabaseWrites pf (os_db s) (JArr ws) = Inr db"
    and w: "\<forall>w \<in> set ws. app_write pf (os_used s) w"
  shows "outbox_inv M (s\<lparr>os_db := db, os_used := os_used s \<union> used_ids ws\<rparr>)" (is "outbox_inv M ?t")
proof -
  have db: "db_ok (os_db s)" using inv by (simp add: outbox_inv_def)
  have wf: "\<forall>w \<in> set ws. wf_write w" using w by (simp add: app_write_def)
  note eff = commit_effect [OF num db a wf] and row = app_row [OF num db a w]
  have cnt: "enqueued ?t j + in_flight ?t j = enqueued s j + in_flight s j" for j
    by (simp add: enqueued_def in_flight_def)
  have "spent_ok M ?t j" for j
  proof -
    have sp: "spent_ok M s j" using inv by (simp add: outbox_inv_def)
    from row [of j] show ?thesis
    proof (elim disjE conjE)
      assume r: "db_row db JOB_OUTBOX_TABLE (JStr j) = outbox_row s j" and u: "j \<notin> os_used s \<longrightarrow> j \<notin> used_ids ws"
      show ?thesis by (rule spent_ok_le [OF sp]) (use r u cnt [of j] in auto)
    next
      assume u: "j \<notin> os_used s" "j \<in> used_ids ws" and r: "has_attempts (db_row db JOB_OUTBOX_TABLE (JStr j)) 0"
        "shaped (db_row db JOB_OUTBOX_TABLE (JStr j))"
      have "enqueued s j + in_flight s j = 0" using sp u(1) by (auto simp: spent_ok_def split: if_splits)
      moreover have "outbox_row ?t j \<noteq> JNull" using r(2) by (auto simp: shaped_def isObject_def)
      ultimately show ?thesis using u(2) r(1) cnt [of j] unfolding spent_ok_def by auto
    qed
  qed
  moreover have "\<forall>q \<in> set (rows_of (os_db ?t) JOB_OUTBOX_TABLE). shaped q"
  proof
    fix q assume "q \<in> set (rows_of (os_db ?t) JOB_OUTBOX_TABLE)"
    then consider "q \<in> set (rows_of (os_db s) JOB_OUTBOX_TABLE)" | v where "v \<in> set ws" "wtab v = JOB_OUTBOX_TABLE" "q = jget v ''record''"
      using eff(5) [of q JOB_OUTBOX_TABLE] by auto
    then show "shaped q"
    proof cases
      case 2
      with w obtain input where i: "js_wf input" "isObject input" "jobOutboxWrite pf input = Inr v"
        by (auto simp: app_write_def)
      show ?thesis by (rule outbox_write [OF i(3,1,2)]) (simp add: 2(3))
    qed (use inv in \<open>simp add: outbox_inv_def\<close>)
  qed
  ultimately show ?thesis using inv eff(3) by (simp add: outbox_inv_def published_def)
qed

text \<open>Starting a pass, and reading a page.\<close>

lemma inv_spawn:
  assumes "outbox_inv M s" and "prog_ok M (published s) p" and "enqueues p = None"
  shows "outbox_inv M (s\<lparr>os_procs := os_procs s @ [p]\<rparr>)"
proof -
  have "\<not> flying j p" for j using assms(3) by (rule not_flying)
  then have "spent_ok M (s\<lparr>os_procs := os_procs s @ [p]\<rparr>) j" if "spent_ok M s j" for j
    using that by (intro spent_ok_le [OF that]) (simp_all add: enqueued_def in_flight_def)
  with assms show ?thesis by (auto simp: outbox_inv_def published_def)
qed

lemma page_rows: "pageDatabaseRecords pf rows opts = Inr p \<Longrightarrow> x \<in> set (pg_records p) \<Longrightarrow> x \<in> set rows"
proof -
  have into: "set (sort_into cmp y ys) = insert y (set ys)" for cmp and y :: js and ys by (induction ys) auto
  have "set (js_sort cmp ys) = set ys" for cmp and ys :: "js list"
    unfolding js_sort_def by (induction ys) (simp_all add: into)
  then show "pageDatabaseRecords pf rows opts = Inr p \<Longrightarrow> x \<in> set (pg_records p) \<Longrightarrow> x \<in> set rows"
    by (auto simp: pageDatabaseRecords_def Let_def split: sum.splits dest!: in_set_takeD)
qed

lemma step_inv: "outbox_step pf M s t \<Longrightarrow> numeric pf \<Longrightarrow> outbox_inv M s \<Longrightarrow> outbox_inv M t"
proof (induction rule: outbox_step.induct)
  case (spawn options m s c)
  then show ?case by (intro inv_spawn dispatch_ok [THEN conjunct1] dispatch_ok [THEN conjunct2])
next
  case (crash i s e)
  then show ?case by (intro inv_proceed) (simp_all add: finished_ok)
next
  case (page i s opts k rows r e)
  have "prog_ok M (published s) (ReadPage opts k)" using inv_prog [OF page(6,1)] page(2) by simp
  moreover have "shaped x" if "r = Inr p" "x \<in> set (pg_records p)" for p x
  proof -
    have "pageDatabaseRecords pf rows opts = Inr p" using that(1) page(4) by auto
    then have "x \<in> set rows" using that(2) by (rule page_rows)
    then show ?thesis using page(3,6) by (simp add: outbox_inv_def rows_of_def)
  qed
  ultimately have "prog_ok M (published s) (k r)" "enqueues (k r) = None" by (auto elim: prog_okE)
  with page show ?case by (intro inv_proceed)
next
  case (clock i s k t)
  then have "prog_ok M (published s) (ReadClock k)" using inv_prog by fastforce
  with clock show ?case by (intro inv_proceed) (auto elim: prog_okE)
next
  case (token i s k x)
  then have "prog_ok M (published s) (NewToken k)" using inv_prog by fastforce
  with token show ?case by (intro inv_proceed) (auto elim: prog_okE)
next
  case (commit i s ws k db r e)
  then show ?case by (intro inv_commit(1) [OF _ _ _ _ _ _ refl])
next
  case (commit_fails i s ws k e)
  then have "prog_ok M (published s) (Commit ws k)" using inv_prog by fastforce
  with commit_fails show ?case by (intro inv_proceed) (auto elim: prog_okE)
next
  case (enqueue_fails i s n p j k e)
  then have "prog_ok M (published s) (Enqueue n p j k)" using inv_prog by fastforce
  with enqueue_fails show ?case by (intro inv_proceed) (auto elim: prog_okE)
qed (auto intro: inv_app inv_enqueue)

lemma reach_inv: "(outbox_step pf M)\<^sup>*\<^sup>* s t \<Longrightarrow> numeric pf \<Longrightarrow> outbox_inv M s \<Longrightarrow> outbox_inv M t"
  by (induction rule: rtranclp_induct) (auto intro: step_inv)

section \<open>Jobs are kept\<close>

text \<open>A job is held while its row is in the table or it is in the queue.\<close>

definition held :: "outbox_sys \<Rightarrow> string \<Rightarrow> job \<Rightarrow> bool" where
  "held s i j \<longleftrightarrow> (outbox_row s i \<noteq> JNull \<and> job_of (outbox_row s i) = j) \<or> j \<in> published s"

lemma step_held:
  "outbox_step pf M s t \<Longrightarrow> numeric pf \<Longrightarrow> outbox_inv M s \<Longrightarrow> held s i j \<Longrightarrow> held t i j"
proof (induction rule: outbox_step.induct)
  case (app s ws db)
  have db: "db_ok (os_db s)" using app(4) by (simp add: outbox_inv_def)
  have "db_row db JOB_OUTBOX_TABLE (JStr i) = outbox_row s i" if "outbox_row s i \<noteq> JNull"
  proof -
    have "i \<in> os_used s" using app(4) that by (auto simp: outbox_inv_def spent_ok_def split: if_splits dest!: spec [of _ i])
    with app_row [OF app(3) db app(1,2), of i] show ?thesis by auto
  qed
  with app(5) show ?case by (auto simp: held_def published_def)
next
  case (commit p s ws k db r e)
  let ?t = "s\<lparr>os_db := db, os_procs := (os_procs s)[p := k r]\<rparr>"
  obtain l d v where row: "\<And>i. outbox_row ?t i = (if i = l then v else outbox_row s i)" and d: "job_of (outbox_row s l) = job_of d"
    and v: "v = JNull \<and> job_of d \<in> published s \<or> v \<noteq> JNull \<and> job_of v = job_of d"
    using inv_commit(2) [OF commit(5,6,1,2,3,4) refl] by blast
  have pub: "published ?t = published s" by (simp add: published_def)
  from commit(7) show ?case unfolding held_def row pub using d v by auto
qed (auto simp: held_def published_def)

lemma reach_held:
  "(outbox_step pf M)\<^sup>*\<^sup>* s t \<Longrightarrow> numeric pf \<Longrightarrow> outbox_inv M s \<Longrightarrow> held s i j \<Longrightarrow> held t i j"
  by (induction rule: rtranclp_induct) (auto intro: step_held reach_inv)

end
