(* ===== verification/Database_Properties.thy ===== *)
theory Database_Properties
  imports Database_Laws
begin

text \<open>
  The properties of the runtime's database layer: the JSON by which records are compared tells
  records apart exactly, a commit is atomic, and the pages of a table are the table.
\<close>

section \<open>A platform whose numbers print as fractions\<close>

definition plain_pf :: platform where
  "plain_pf = \<lparr>pf_num_str = (\<lambda>x. case x of Fin r \<Rightarrow> int_str (fst (quotient_of r)) @ CHR ''e'' # int_str (snd (quotient_of r)) | _ \<Rightarrow> []),
     pf_str_num = (\<lambda>_. NaN), pf_url = (\<lambda>_. None), pf_sha256 = (\<lambda>_. []), pf_iso = int_str, pf_date = (\<lambda>_. None),
     pf_b64_enc = (\<lambda>_. []), pf_b64_dec = (\<lambda>_. []), pf_hex_dec = (\<lambda>_. []), pf_uri_enc = id, pf_uri_dec = Some,
     pf_collation_key = id\<rparr>"

lemma int_str_num: "int_str i \<noteq> [] \<and> (\<forall>c \<in> set (int_str i). num_char c \<and> c \<noteq> CHR ''e'')"
proof -
  have "num_char c \<and> c \<noteq> CHR ''e''" if "is_digit c" for c
    using that by (auto simp: num_char_def is_digit_def)
  moreover have "num_char (CHR ''-'')" by (simp add: num_char_def)
  ultimately show ?thesis using nat_str_digits by (auto simp: int_str_def)
qed

lemma int_str_inject: "int_str a = int_str b \<Longrightarrow> a = b"
proof -
  have "digits_val 0 (if hd (int_str i) = CHR ''-'' then tl (int_str i) else int_str i) = nat \<bar>i\<bar> \<and>
      (hd (int_str i) = CHR ''-'' \<longleftrightarrow> i < 0)" for i
  proof -
    have "hd (nat_str n) \<noteq> CHR ''-''" for n
    proof
      assume "hd (nat_str n) = CHR ''-''"
      then have "is_digit (CHR ''-'')" using nat_str_digits [of n] hd_in_set [of "nat_str n"] by simp
      then show False by (simp add: is_digit_def)
    qed
    then show ?thesis by (simp add: int_str_def digits_val_nat_str)
  qed
  then show "int_str a = int_str b \<Longrightarrow> a = b" by (smt (verit) nat_eq_iff)
qed

lemma fraction_decode:
  assumes "int_str a @ CHR ''e'' # s = int_str b @ CHR ''e'' # t"
  shows "int_str a = int_str b \<and> s = t"
proof -
  have "takeWhile (\<lambda>c. c \<noteq> CHR ''e'') (int_str i @ CHR ''e'' # u) = int_str i" for i u
    using int_str_num [of i] by (simp add: takeWhile_append2)
  with assms show ?thesis by (metis append_same_eq list.inject same_append_eq)
qed

lemma plain_numeric: "numeric plain_pf"
proof -
  let ?frac = "\<lambda>r. int_str (fst (quotient_of r)) @ CHR ''e'' # int_str (snd (quotient_of r))"
  have f: "?frac r = ?frac s \<Longrightarrow> r = s" for r s
    using fraction_decode int_str_inject by (metis prod_eqI quotient_of_inject)
  have i: "int_str i \<noteq> ?frac r" for i r
    using int_str_num [of i] by (metis in_set_conv_decomp)
  have str: "num_str plain_pf (Fin r) = (if of_int \<lfloor>r\<rfloor> = r \<and> \<bar>\<lfloor>r\<rfloor>\<bar> \<le> max_safe then int_str \<lfloor>r\<rfloor> else ?frac r)" for r
    by (simp add: num_str_def plain_pf_def)
  have "num_str plain_pf (Fin r) = num_str plain_pf (Fin s) \<Longrightarrow> r = s" for r s
    unfolding str using f [of r s] i i [symmetric] int_str_inject by (metis)
  moreover have "num_str plain_pf (Fin r) \<noteq> [] \<and> (\<forall>c \<in> set (num_str plain_pf (Fin r)). num_char c)" for r
    unfolding str using int_str_num by (auto simp: num_char_def)
  ultimately show ?thesis unfolding numeric_def by (auto simp: num_finite_def split: jsnum.splits)
qed

section \<open>Comparing records\<close>

text \<open>C25: Two records have the same stable JSON exactly when they are the same value up to the order
  of object keys; so comparing texts, as a conditional commit does, never takes a changed record
  for the expected one and never sees a conflict in a mere reordering.\<close>

theorem record_text_exact:
  assumes "numeric pf" and "js_wf v" and "js_wf w" and "databaseRecordJson pf v = Inr s"
  shows "databaseRecordJson pf w = Inr s \<longleftrightarrow> js_same v w"
  using assms by (rule databaseRecordJson_same)

theorem record_text_exact_witness:
  "databaseRecordJson plain_pf (JObj [(''b'', JArr [JBool True]), (''a'', JStr ''x'')]) = Inr ''{\"a\":\"x\",\"b\":[true]}'' \<longleftrightarrow>
     js_same (JObj [(''a'', JStr ''x''), (''b'', JArr [JBool True])]) (JObj [(''b'', JArr [JBool True]), (''a'', JStr ''x'')])"
  by (rule record_text_exact [OF plain_numeric]) code_simp+

section \<open>Commits\<close>

text \<open>Small writes pass the checks.\<close>

definition small :: "platform \<Rightarrow> js \<Rightarrow> bool" where
  "small pf v \<longleftrightarrow> (case databaseRecordJson pf v of Inl _ \<Rightarrow> False | Inr json \<Rightarrow> encoded_length json \<le> 800)"

definition fits :: "platform \<Rightarrow> js \<Rightarrow> js \<Rightarrow> bool" where
  "fits pf i v \<longleftrightarrow> v = JNull \<or> isObject v \<and> jget v ''id'' = i \<and> small pf v"

lemma check_small: "fits pf i v \<Longrightarrow> check_record pf i v = Inr ()"
  by (auto simp: fits_def check_record_def small_def split: sum.splits)

lemma checks_small:
  "\<forall>w \<in> set ws. write_named w \<and> fits pf (wid w) (jget w ''record'') \<and> fits pf (wid w) (jget w ''expected'') \<Longrightarrow>
    distinct (map write_key ws) \<Longrightarrow> write_key ` set ws \<inter> set keys = {} \<Longrightarrow> check_writes pf keys ws = Inr ()"
  by (induction ws arbitrary: keys) (auto simp: check_small)

lemma validate_small:
  assumes "1 \<le> length ws" and "length ws \<le> 25" and "small pf (JArr ws)" and "distinct (map write_key ws)"
    and "\<forall>w \<in> set ws. write_named w \<and> fits pf (wid w) (jget w ''record'') \<and> fits pf (wid w) (jget w ''expected'')"
  shows "validateDatabaseWrites pf (JArr ws) = Inr ()"
  using assms checks_small [OF assms(5,4), of "[]"]
  by (auto simp: validateDatabaseWrites_def isArray_def js_items_def MAX_DATABASE_COMMIT_WRITES_def small_def split: sum.splits)

text \<open>C26: A commit is atomic. A batch that does not pass the checks fails with their error; a checked
  batch that writes to a table that is not there and is named like a method of \<open>Object.prototype\<close> fails;
  any other checked batch fails, with the conflict, exactly when some expected record differs from the one
  in the snapshot the commit started from, whatever the earlier writes of the same batch did. When a batch
  fails there is no new database; otherwise every written key has its new record (or none) and every other
  key the record it had.\<close>

theorem commit_atomic:
  assumes "numeric pf" and "db_ok db" and "list_all wf_write (js_items writes)"
  shows "case validateDatabaseWrites pf writes of
      Inl e \<Rightarrow> applyDatabaseWrites pf db writes = Inl e
    | Inr _ \<Rightarrow>
        if \<exists>w \<in> set (js_items writes). \<not> reachable_table db (wtab w) then \<exists>e. applyDatabaseWrites pf db writes = Inl e
        else if \<exists>w \<in> set (js_items writes). \<not> unchanged db w then applyDatabaseWrites pf db writes = Inl databaseConflict
        else (\<exists>db'. applyDatabaseWrites pf db writes = Inr db' \<and>
          (\<forall>t i. db_row db' t i = (case find_write (js_items writes) t i of Some w \<Rightarrow> jget w ''record'' | None \<Rightarrow> db_row db t i)))"
proof (cases "validateDatabaseWrites pf writes")
  case (Inr u)
  let ?ws = "js_items writes"
  have run: "applyDatabaseWrites pf db writes = apply_writes pf ?ws db" by (simp add: applyDatabaseWrites_def Inr)
  have "check_writes pf [] ?ws = Inr ()"
    using Inr by (auto simp: validateDatabaseWrites_def split: if_splits sum.splits)
  from check_writes_ok [OF this] assms(3) have c: "\<forall>w \<in> set ?ws. write_ok w" "distinct (map write_key ?ws)"
    by (auto simp: list_all_iff)
  show ?thesis
  proof (cases "\<forall>w \<in> set ?ws. reachable_table db (wtab w)")
    case True
    from apply_writes_effect [OF assms(1) c assms(2) True] True show ?thesis
      by (auto simp: run Inr split: sum.splits)
  next
    case False
    then have "\<exists>e. apply_writes pf ?ws db = Inl e"
      using apply_writes_reachable by (cases "apply_writes pf ?ws db") blast+
    with False show ?thesis by (auto simp: run Inr)
  qed
qed (simp add: applyDatabaseWrites_def)

definition two_writes :: "js list" where
  "two_writes = [JObj [(''table'', JStr ''a''), (''id'', JStr ''1''), (''expected'', JObj [(''id'', JStr ''1'')]), (''record'', JNull)],
     JObj [(''table'', JStr ''a''), (''id'', JStr ''2''), (''expected'', JNull), (''record'', JObj [(''id'', JStr ''2'')])]]"

definition one_row :: database where
  "one_row = [(''a'', [JObj [(''id'', JStr ''1'')]])]"

theorem commit_atomic_witness:
  "case validateDatabaseWrites plain_pf (JArr two_writes) of
      Inl e \<Rightarrow> applyDatabaseWrites plain_pf one_row (JArr two_writes) = Inl e
    | Inr _ \<Rightarrow>
        if \<exists>w \<in> set (js_items (JArr two_writes)). \<not> reachable_table one_row (wtab w) then \<exists>e. applyDatabaseWrites plain_pf one_row (JArr two_writes) = Inl e
        else if \<exists>w \<in> set (js_items (JArr two_writes)). \<not> unchanged one_row w then applyDatabaseWrites plain_pf one_row (JArr two_writes) = Inl databaseConflict
        else (\<exists>db'. applyDatabaseWrites plain_pf one_row (JArr two_writes) = Inr db' \<and>
          (\<forall>t i. db_row db' t i = (case find_write (js_items (JArr two_writes)) t i of Some w \<Rightarrow> jget w ''record'' | None \<Rightarrow> db_row one_row t i)))"
proof (rule commit_atomic [OF plain_numeric])
  show "db_ok one_row"
    by (auto simp: one_row_def db_ok_def plain_json_def keyed_def split: if_splits)
  show "list_all wf_write (js_items (JArr two_writes))" by code_simp
qed

text \<open>The batch of the witness passes the checks, and its commit succeeds.\<close>

lemma two_writes_run:
  "validateDatabaseWrites plain_pf (JArr two_writes) = Inr ()" "list_all (\<lambda>w. reachable_table one_row (wtab w)) two_writes"
  by (rule validate_small; code_simp) code_simp

section \<open>Pages\<close>

text \<open>C27: Reading a table page by page ends, and returns every row once, in the byte order of the
  ids: for every page size, following the cursors from the start yields the sorted rows within as many
  pages as there are rows, and one.\<close>

theorem pages_complete:
  assumes "page_limit_ok l n" and "distinct (map (sort_id pf) rows)" and "\<forall>r \<in> set rows. row_id pf r \<noteq> []"
  shows "all_pages (\<lambda>c. pageDatabaseRecords pf rows \<lparr>po_limit = l, po_cursor = c\<rparr>) (Suc (length rows)) JUndef =
    Some (Inr (sort_key (sort_id pf) rows))"
  using pages_from [OF assms(1,2), of 0 JUndef "Suc (length rows)"] assms(3) by simp

theorem pages_complete_witness:
  "all_pages (\<lambda>c. pageDatabaseRecords plain_pf [JObj [(''id'', JStr ''b'')], JObj [(''id'', JStr ''a'')]]
       \<lparr>po_limit = JNum (Fin 1), po_cursor = c\<rparr>) (Suc (length [JObj [(''id'', JStr ''b'')], JObj [(''id'', JStr ''a'')]])) JUndef =
    Some (Inr (sort_key (sort_id plain_pf) [JObj [(''id'', JStr ''b'')], JObj [(''id'', JStr ''a'')]]))"
proof (rule pages_complete [where n = 1])
  show "page_limit_ok (JNum (Fin 1)) 1" by (simp add: page_limit_ok_def)
  show "distinct (map (sort_id plain_pf) [JObj [(''id'', JStr ''b'')], JObj [(''id'', JStr ''a'')]])" by code_simp
  show "\<forall>r \<in> set [JObj [(''id'', JStr ''b'')], JObj [(''id'', JStr ''a'')]]. row_id plain_pf r \<noteq> []" by code_simp
qed

end
