(* ===== verification/Job_Outbox_Properties.thy ===== *)
theory Job_Outbox_Properties
  imports Job_Outbox_Laws Database_Properties
begin

text \<open>
  The properties of the job outbox: under every interleaving of passes, crashes and lost answers a
  job is never lost and is published at most as often as the passes may try; and a pass whose calls
  all succeed publishes each due job of its page once and leaves the other rows as they should be.
\<close>

section \<open>A host whose calls succeed\<close>

text \<open>The program run alone: every operation takes effect and answers, the clock stands at \<open>now\<close>.\<close>

primrec drive :: "platform \<Rightarrow> jsnum \<Rightarrow> string \<Rightarrow> outbox_prog \<Rightarrow> database \<times> queued list \<Rightarrow>
    (database \<times> queued list) \<times> (rt_exn + outbox_result)" where
  "drive pf now token (Finished r) s = (s, r)"
| "drive pf now token (ReadPage options k) s =
     drive pf now token (k (pageDatabaseRecords pf (rows_of (fst s) JOB_OUTBOX_TABLE) options)) s"
| "drive pf now token (ReadClock k) s = drive pf now token (k now) s"
| "drive pf now token (NewToken k) s = drive pf now token (k token) s"
| "drive pf now token (Commit ws k) s = (case applyDatabaseWrites pf (fst s) ws of
     Inl e \<Rightarrow> drive pf now token (k (Inl e)) s
   | Inr db \<Rightarrow> drive pf now token (k (Inr ())) (db, snd s))"
| "drive pf now token (Enqueue n p i k) s = drive pf now token (k (Inr ())) (fst s, snd s @ [(i, n, p)])"

text \<open>A row the pass is going to publish, a row without attempts left, and the sizes of the commits they need.\<close>

definition due :: "platform \<Rightarrow> jsnum \<Rightarrow> jsnum \<Rightarrow> js \<Rightarrow> bool" where
  "due pf now maxAttempts r \<longleftrightarrow> jget r ''state'' \<noteq> JStr ''failed'' \<and>
     \<not> num_lt now (js_to_number pf (jget r ''leaseUntil'')) \<and> \<not> num_ge (attempts_of pf r) maxAttempts"

definition exhausted :: "platform \<Rightarrow> jsnum \<Rightarrow> jsnum \<Rightarrow> js \<Rightarrow> bool" where
  "exhausted pf now maxAttempts r \<longleftrightarrow> jget r ''state'' \<noteq> JStr ''failed'' \<and>
     \<not> num_lt now (js_to_number pf (jget r ''leaseUntil'')) \<and> num_ge (attempts_of pf r) maxAttempts"

definition claim_fits :: "platform \<Rightarrow> jsnum \<Rightarrow> jsnum \<Rightarrow> string \<Rightarrow> js \<Rightarrow> bool" where
  "claim_fits pf now lease token r \<longleftrightarrow>
     (let i = js_str (jget r ''id''); claimed = claimed_record pf now lease token r in
      validateDatabaseWrites pf (JArr [db_write JOB_OUTBOX_TABLE i r claimed]) = Inr () \<and>
      validateDatabaseWrites pf (JArr [db_write JOB_OUTBOX_TABLE i claimed JNull]) = Inr ())"

definition give_up :: "js \<Rightarrow> js" where
  "give_up r = js_put ''state'' (JStr ''failed'') r"

definition pass_fits :: "platform \<Rightarrow> jsnum \<Rightarrow> jsnum \<Rightarrow> jsnum \<Rightarrow> string \<Rightarrow> js \<Rightarrow> bool" where
  "pass_fits pf now lease maxAttempts token r \<longleftrightarrow>
     (due pf now maxAttempts r \<longrightarrow> claim_fits pf now lease token r) \<and>
     (exhausted pf now maxAttempts r \<longrightarrow>
        validateDatabaseWrites pf (JArr [db_write JOB_OUTBOX_TABLE (js_str (jget r ''id'')) r (give_up r)]) = Inr ())"

text \<open>What a pass leaves of a row: nothing of a due one, an exhausted one marked failed, any other as it is.\<close>

definition row_after :: "platform \<Rightarrow> jsnum \<Rightarrow> jsnum \<Rightarrow> js \<Rightarrow> js" where
  "row_after pf now maxAttempts r =
     (if due pf now maxAttempts r then JNull else if exhausted pf now maxAttempts r then give_up r else r)"

definition job_message :: "js \<Rightarrow> queued" where
  "job_message r = (js_str (jget r ''id''), js_str (jget r ''name''), jget r ''payload'')"

lemma same_refl: "plain_json v \<Longrightarrow> js_same v v"
  by (auto simp: plain_json_def intro: visit_same)

lemma commit_runs:
  assumes "numeric pf" and "db_ok db" and v: "validateDatabaseWrites pf (JArr [w]) = Inr ()" and "wf_write w"
    and t: "wtab w = JOB_OUTBOX_TABLE" and u: "db_row db (wtab w) (wid w) = jget w ''expected''"
  obtains db' where "applyDatabaseWrites pf db (JArr [w]) = Inr db'" and "db_ok db'"
    and "\<And>t i. db_row db' t i = (if t = wtab w \<and> i = wid w then jget w ''record'' else db_row db t i)"
proof -
  have "check_writes pf [] [w] = Inr ()"
    using v by (auto simp: validateDatabaseWrites_def js_items_def split: if_splits sum.splits)
  then have "write_ok w" using check_writes_ok [of pf "[]" "[w]"] assms(4) by simp
  moreover from this have "unchanged db w"
    unfolding unchanged_def u by (intro same_refl) (auto simp: write_ok_def)
  moreover have "reachable_table db (wtab w)"
    unfolding t by (simp add: reachable_table_def JOB_OUTBOX_TABLE_def object_methods_def)
  ultimately show ?thesis
    using apply_write_effect [OF assms(1,2), of w] that v by (auto simp: applyDatabaseWrites_def js_items_def)
qed

lemma record_published:
  assumes num: "numeric pf" and db: "db_ok db" and r: "shaped r" "db_row db JOB_OUTBOX_TABLE (jget r ''id'') = r"
    and d: "due pf now maxAttempts r" and f: "claim_fits pf now lease token r" and now: "fixed \<in> {None, Some now}"
  obtains db' where "drive pf now token (outbox_record pf fixed lease maxAttempts r k) (db, q) =
      drive pf now token (k 1 0) (db', q @ [job_message r])"
    and "db_ok db'" and "\<And>t i. db_row db' t i = (if t = JOB_OUTBOX_TABLE \<and> i = jget r ''id'' then JNull else db_row db t i)"
proof -
  obtain i n where i: "jget r ''id'' = JStr i" and n: "jget r ''name'' = JStr n"
    using r(1) by (auto simp: shaped_def elim!: isStringE)
  let ?c = "claimed_record pf now lease token r"
  have o: "isObject r" using r(1) by (simp add: shaped_def)
  have c: "jget ?c ''id'' = JStr i" "jget ?c ''name'' = JStr n" "jget ?c ''payload'' = jget r ''payload''" "js_wf ?c" "js_wf r"
    using o r(1) i n by (auto simp: claimed_record_def shaped_def intro!: wf_put)
  have v: "validateDatabaseWrites pf (JArr [db_write JOB_OUTBOX_TABLE i r ?c]) = Inr ()"
    "validateDatabaseWrites pf (JArr [db_write JOB_OUTBOX_TABLE i ?c JNull]) = Inr ()"
    using f i by (simp_all add: claim_fits_def Let_def)
  obtain d1 where d1: "applyDatabaseWrites pf db (JArr [db_write JOB_OUTBOX_TABLE i r ?c]) = Inr d1" "db_ok d1"
    "\<And>t j. db_row d1 t j = (if t = JOB_OUTBOX_TABLE \<and> j = JStr i then ?c else db_row db t j)"
    by (rule commit_runs [OF num db v(1)]) (use c r i in \<open>auto simp: wf_write_def\<close>)
  obtain d2 where d2: "applyDatabaseWrites pf d1 (JArr [db_write JOB_OUTBOX_TABLE i ?c JNull]) = Inr d2" "db_ok d2"
    "\<And>t j. db_row d2 t j = (if t = JOB_OUTBOX_TABLE \<and> j = JStr i then JNull else db_row d1 t j)"
    by (rule commit_runs [OF num d1(2) v(2)]) (use c d1(3) in \<open>auto simp: wf_write_def\<close>)
  have "drive pf now token (outbox_record pf fixed lease maxAttempts r k) (db, q) =
      drive pf now token (k 1 0) (d2, q @ [job_message r])"
    using d now d1(1) d2(1) i n c
    by (auto simp: outbox_record_def Let_def due_def outbox_publish_def job_message_def js_str_def simp del: One_nat_def)
  then show ?thesis by (rule that) (simp_all add: d2 d1 i)
qed

text \<open>One record, whatever its state.\<close>

lemma record_passed:
  assumes num: "numeric pf" and db: "db_ok db" and r: "shaped r" "db_row db JOB_OUTBOX_TABLE (jget r ''id'') = r"
    and f: "pass_fits pf now lease maxAttempts token r" and now: "fixed \<in> {None, Some now}"
  obtains db' where "drive pf now token (outbox_record pf fixed lease maxAttempts r k) (db, q) =
      drive pf now token (k (if due pf now maxAttempts r then 1 else 0) (if exhausted pf now maxAttempts r then 1 else 0))
        (db', q @ (if due pf now maxAttempts r then [job_message r] else []))"
    and "db_ok db'"
    and "\<And>t i. db_row db' t i = (if t = JOB_OUTBOX_TABLE \<and> i = jget r ''id'' then row_after pf now maxAttempts r else db_row db t i)"
proof -
  consider (due) "due pf now maxAttempts r" "\<not> exhausted pf now maxAttempts r"
    | (spent) "\<not> due pf now maxAttempts r" "exhausted pf now maxAttempts r"
    | (idle) "\<not> due pf now maxAttempts r" "\<not> exhausted pf now maxAttempts r"
    by (auto simp: due_def exhausted_def)
  then show thesis
  proof cases
    case due
    from f due(1) have c: "claim_fits pf now lease token r" by (simp add: pass_fits_def)
    obtain d where d: "drive pf now token (outbox_record pf fixed lease maxAttempts r k) (db, q) =
        drive pf now token (k 1 0) (d, q @ [job_message r])" "db_ok d"
      "\<And>t i. db_row d t i = (if t = JOB_OUTBOX_TABLE \<and> i = jget r ''id'' then JNull else db_row db t i)"
      by (rule record_published [OF num db r due(1) c now, of k q]) (rule that)
    show thesis by (rule that [of d]) (simp_all add: d due row_after_def)
  next
    case spent
    obtain i where i: "jget r ''id'' = JStr i" using r(1) by (auto simp: shaped_def elim!: isStringE)
    have wf: "js_wf (give_up r)" "js_wf r" using r(1) by (auto simp: give_up_def shaped_def intro!: wf_put)
    have v: "validateDatabaseWrites pf (JArr [db_write JOB_OUTBOX_TABLE i r (give_up r)]) = Inr ()"
      using f spent(2) i by (simp add: pass_fits_def)
    obtain d where d: "applyDatabaseWrites pf db (JArr [db_write JOB_OUTBOX_TABLE i r (give_up r)]) = Inr d" "db_ok d"
      "\<And>t j. db_row d t j = (if t = JOB_OUTBOX_TABLE \<and> j = JStr i then give_up r else db_row db t j)"
      by (rule commit_runs [OF num db v]) (use wf r i in \<open>auto simp: wf_write_def\<close>)
    have "drive pf now token (outbox_record pf fixed lease maxAttempts r k) (db, q) = drive pf now token (k 0 1) (d, q)"
      using spent(2) now d(1) i by (auto simp: outbox_record_def Let_def exhausted_def give_up_def)
    then show thesis by (intro that [of d] d(2)) (simp_all add: spent row_after_def d(3) i)
  next
    case idle
    have "drive pf now token (outbox_record pf fixed lease maxAttempts r k) (db, q) = drive pf now token (k 0 0) (db, q)"
      using idle now by (auto simp: outbox_record_def Let_def exhausted_def due_def)
    then show thesis by (intro that [of db] db) (simp_all add: idle row_after_def r(2))
  qed
qed

definition page_after :: "platform \<Rightarrow> jsnum \<Rightarrow> jsnum \<Rightarrow> js list \<Rightarrow> database \<Rightarrow> string \<Rightarrow> js \<Rightarrow> js" where
  "page_after pf now maxAttempts rs db t i =
     (case find (has_id i) rs of
        Some r \<Rightarrow> if t = JOB_OUTBOX_TABLE then row_after pf now maxAttempts r else db_row db t i
      | None \<Rightarrow> db_row db t i)"

lemma records_passed:
  assumes num: "numeric pf" and now: "fixed \<in> {None, Some now}"
  shows "db_ok db \<Longrightarrow> distinct (map (\<lambda>r. jget r ''id'') rs) \<Longrightarrow>
    \<forall>r \<in> set rs. shaped r \<and> db_row db JOB_OUTBOX_TABLE (jget r ''id'') = r \<and> pass_fits pf now lease maxAttempts token r \<Longrightarrow>
    \<exists>db'. drive pf now token (outbox_records pf fixed lease maxAttempts cursor rs p f) (db, q) =
        ((db', q @ map job_message (filter (due pf now maxAttempts) rs)),
         Inr \<lparr>or_cursor = cursor, or_published = p + length (filter (due pf now maxAttempts) rs),
           or_failed = f + length (filter (exhausted pf now maxAttempts) rs)\<rparr>) \<and>
      (\<forall>t i. db_row db' t i = page_after pf now maxAttempts rs db t i)"
proof (induction rs arbitrary: db q p f)
  case (Cons r rs)
  let ?due = "due pf now maxAttempts" and ?spent = "exhausted pf now maxAttempts"
  let ?rest = "\<lambda>a b. outbox_records pf fixed lease maxAttempts cursor rs (p + a) (f + b)"
  from Cons.prems(3) have r: "shaped r" "db_row db JOB_OUTBOX_TABLE (jget r ''id'') = r" "pass_fits pf now lease maxAttempts token r"
    by simp_all
  obtain d where run: "drive pf now token (outbox_record pf fixed lease maxAttempts r ?rest) (db, q) =
      drive pf now token (?rest (if ?due r then 1 else 0) (if ?spent r then 1 else 0)) (d, q @ (if ?due r then [job_message r] else []))"
    and d: "db_ok d" "\<And>t i. db_row d t i = (if t = JOB_OUTBOX_TABLE \<and> i = jget r ''id'' then row_after pf now maxAttempts r else db_row db t i)"
    by (rule record_passed [OF num Cons.prems(1) r now, of ?rest q]) (rule that)
  have other: "jget x ''id'' \<noteq> jget r ''id''" if "x \<in> set rs" for x
    using Cons.prems(2) that by (auto simp: image_iff)
  have later: "\<forall>x \<in> set rs. shaped x \<and> db_row d JOB_OUTBOX_TABLE (jget x ''id'') = x \<and> pass_fits pf now lease maxAttempts token x"
  proof
    fix x assume x: "x \<in> set rs"
    with other have "db_row d JOB_OUTBOX_TABLE (jget x ''id'') = db_row db JOB_OUTBOX_TABLE (jget x ''id'')" by (simp add: d(2))
    with Cons.prems(3) x show "shaped x \<and> db_row d JOB_OUTBOX_TABLE (jget x ''id'') = x \<and> pass_fits pf now lease maxAttempts token x"
      by (metis list.set_intros(2))
  qed
  have dist: "distinct (map (\<lambda>r. jget r ''id'') rs)" using Cons.prems(2) by simp
  have first: "find (has_id (jget r ''id'')) rs = None" using other by (auto simp: find_None_iff has_id_def)
  obtain db' where run': "drive pf now token (?rest (if ?due r then 1 else 0) (if ?spent r then 1 else 0))
        (d, q @ (if ?due r then [job_message r] else [])) =
      ((db', (q @ (if ?due r then [job_message r] else [])) @ map job_message (filter ?due rs)),
       Inr \<lparr>or_cursor = cursor, or_published = p + (if ?due r then 1 else 0) + length (filter ?due rs),
         or_failed = f + (if ?spent r then 1 else 0) + length (filter ?spent rs)\<rparr>)"
    and rows: "\<forall>t i. db_row db' t i = page_after pf now maxAttempts rs d t i"
    using Cons.IH [OF d(1) dist later, of "p + (if ?due r then 1 else 0)" "f + (if ?spent r then 1 else 0)"
        "q @ (if ?due r then [job_message r] else [])"] by (elim exE conjE) (rule that)
  have "db_row db' t i = page_after pf now maxAttempts (r # rs) db t i" for t i
    using rows first by (auto simp: page_after_def d(2) has_id_def split: option.split)
  moreover have "drive pf now token (outbox_records pf fixed lease maxAttempts cursor (r # rs) p f) (db, q) =
      ((db', q @ map job_message (filter ?due (r # rs))),
       Inr \<lparr>or_cursor = cursor, or_published = p + length (filter ?due (r # rs)), or_failed = f + length (filter ?spent (r # rs))\<rparr>)"
    unfolding outbox_records.simps run run' by simp
  ultimately show ?case by blast
qed (simp add: page_after_def)

lemma row_of_member:
  assumes "distinct (map (\<lambda>r. jget r ''id'') (rows_of db t))" and "r \<in> set (rows_of db t)"
  shows "db_row db t (jget r ''id'') = r"
proof -
  have "find (has_id (jget r ''id'')) xs = Some r" if "distinct (map (\<lambda>r. jget r ''id'') xs)" "r \<in> set xs" for xs
    using that by (induction xs) (auto simp: has_id_def image_iff)
  with assms show ?thesis by (simp add: db_row_def rows_of_def current_row_def split: option.splits)
qed

lemma page_distinct:
  assumes "pageDatabaseRecords pf rows opts = Inr p" and "distinct (map f rows)"
  shows "distinct (map f (pg_records p))"
proof -
  have s: "js_sort (\<lambda>a b. compareIds (row_id pf a) (row_id pf b)) xs = sort_key (sort_id pf) xs" for xs
    by (rule js_sort_key) (simp add: compareIds_def sort_id_def compare_bytes_le)
  have "distinct (map f (sort_key (sort_id pf) (filter Q rows)))" for Q
    using assms(2) distinct_map_filter [OF assms(2), of Q] by (simp add: distinct_map)
  then have "distinct (map f (take n (sort_key (sort_id pf) (filter Q rows))))" for n Q
    by (simp add: take_map [symmetric] distinct_take)
  with assms(1) show ?thesis
    by (auto simp: pageDatabaseRecords_def Let_def s split: sum.splits)
qed

section \<open>Concrete rows\<close>

definition job_input :: js where
  "job_input = JObj [(''id'', JStr ''j1''), (''name'', JStr ''send''), (''payload'', JStr ''hi'')]"

definition job_row :: js where
  "job_row = js_put ''leaseUntil'' (JNum (Fin 0)) (js_put ''attempts'' (JNum (Fin 0)) (js_put ''state'' (JStr ''pending'') job_input))"

definition job_db :: database where
  "job_db = [(JOB_OUTBOX_TABLE, [job_row])]"

definition job_options :: outbox_options where
  "job_options = \<lparr>oo_cursor = JUndef, oo_limit = JUndef, oo_now = None, oo_leaseMs = Some (Fin 1000), oo_maxAttempts = None\<rparr>"

definition job_state :: outbox_sys where
  "job_state = \<lparr>os_db = job_db, os_queue = [], os_procs = [], os_used = {''j1''}\<rparr>"

lemma job_written: "jobOutboxWrite plain_pf job_input = Inr (db_write JOB_OUTBOX_TABLE ''j1'' JNull job_row)"
proof -
  have "small plain_pf job_input" by code_simp
  then show ?thesis
    by (auto simp: jobOutboxWrite_def small_def job_row_def job_input_def jget_def isString_def js_str_def split: sum.splits)
qed

lemma job_applied: "applyDatabaseWrites plain_pf [] (JArr [db_write JOB_OUTBOX_TABLE ''j1'' JNull job_row]) = Inr job_db"
proof -
  have "validateDatabaseWrites plain_pf (JArr [db_write JOB_OUTBOX_TABLE ''j1'' JNull job_row]) = Inr ()"
    by (rule validate_small) code_simp+
  moreover have "apply_writes plain_pf [db_write JOB_OUTBOX_TABLE ''j1'' JNull job_row] [] = Inr job_db"
    by code_simp
  ultimately show ?thesis
    by (simp add: applyDatabaseWrites_def js_items_def del: apply_writes.simps)
qed

lemma job_reached: "(outbox_step plain_pf M)\<^sup>*\<^sup>* outbox_start job_state"
proof -
  have o: "isObject job_input" "js_wf job_input" by code_simp+
  have w: "wtab (db_write JOB_OUTBOX_TABLE ''j1'' JNull job_row) = JOB_OUTBOX_TABLE" "wid (db_write JOB_OUTBOX_TABLE ''j1'' JNull job_row) = JStr ''j1''"
    by simp_all
  have "wf_write (db_write JOB_OUTBOX_TABLE ''j1'' JNull job_row)" by code_simp
  with o w job_written have "app_write plain_pf {} (db_write JOB_OUTBOX_TABLE ''j1'' JNull job_row)"
    by (auto simp: app_write_def)
  moreover have "used_ids [db_write JOB_OUTBOX_TABLE ''j1'' JNull job_row] = {''j1''}"
    by (auto simp: used_ids_def)
  ultimately have "outbox_step plain_pf M outbox_start job_state"
    using outbox_step.app [of plain_pf outbox_start "[db_write JOB_OUTBOX_TABLE ''j1'' JNull job_row]" job_db M] job_applied
    by (simp add: outbox_start_def job_state_def)
  then show ?thesis by blast
qed

section \<open>No job is lost\<close>

text \<open>C28: A job is never lost: once its row is in the outbox, then after any number of passes running
  together, commits of the application, crashed processes, failed calls and calls whose answer was
  lost, the row is still there with the same id, handler and payload, or the job has reached the
  queue.\<close>

theorem outbox_never_lost:
  assumes "numeric pf" and "(outbox_step pf M)\<^sup>*\<^sup>* outbox_start s" and "outbox_row s i \<noteq> JNull"
    and "(outbox_step pf M)\<^sup>*\<^sup>* s t"
  shows "outbox_row t i \<noteq> JNull \<and> job_of (outbox_row t i) = job_of (outbox_row s i) \<or>
    (\<exists>q \<in> set (os_queue t). queued_job q = job_of (outbox_row s i))"
proof -
  have "outbox_inv M s" using assms(1,2) outbox_inv_start by (auto intro: reach_inv)
  moreover have "held s i (job_of (outbox_row s i))" using assms(3) by (simp add: held_def)
  ultimately have "held t i (job_of (outbox_row s i))" using assms(1,4) by (auto intro: reach_held)
  then show ?thesis by (auto simp: held_def published_def)
qed

definition crashed_state :: outbox_sys where
  "crashed_state = job_state\<lparr>os_procs := [Finished (Inl (ForeignError ''down''))]\<rparr>"

lemma crashed_reached: "(outbox_step plain_pf 5)\<^sup>*\<^sup>* job_state crashed_state"
proof -
  have "outbox_step plain_pf 5 job_state (job_state\<lparr>os_procs := os_procs job_state @ [dispatchJobOutbox plain_pf True job_options]\<rparr>)"
    by (rule outbox_step.spawn [where m = 5]) (simp add: job_options_def max_attempts_def)
  moreover have "outbox_step plain_pf 5 (job_state\<lparr>os_procs := os_procs job_state @ [dispatchJobOutbox plain_pf True job_options]\<rparr>)
      crashed_state"
    using outbox_step.crash [of 0 "job_state\<lparr>os_procs := os_procs job_state @ [dispatchJobOutbox plain_pf True job_options]\<rparr>"
        plain_pf 5 "ForeignError ''down''"]
    by (simp add: job_state_def crashed_state_def)
  ultimately show ?thesis by (meson rtranclp.simps)
qed

lemma job_there: "outbox_row job_state ''j1'' = job_row" "job_row \<noteq> JNull"
  by code_simp+

theorem outbox_never_lost_witness:
  "outbox_row crashed_state ''j1'' \<noteq> JNull \<and> job_of (outbox_row crashed_state ''j1'') = job_of (outbox_row job_state ''j1'') \<or>
    (\<exists>q \<in> set (os_queue crashed_state). queued_job q = job_of (outbox_row job_state ''j1''))"
  by (rule outbox_never_lost [OF plain_numeric job_reached _ crashed_reached]) (simp add: job_there)

text \<open>C29: A job is handed to the queue at most as often as the passes may try it: in every reachable
  state, the queue has received an id at most \<open>maxAttempts\<close> times (the largest of the running
  passes), however many passes run at once and wherever they stop.\<close>

theorem outbox_attempts_bounded:
  assumes "numeric pf" and "(outbox_step pf M)\<^sup>*\<^sup>* outbox_start s"
  shows "length (filter (\<lambda>q. fst q = i) (os_queue s)) \<le> M"
proof -
  have "outbox_inv M s" using assms outbox_inv_start by (auto intro: reach_inv)
  then have "spent_ok M s i" by (simp add: outbox_inv_def)
  then show ?thesis by (auto simp: spent_ok_def enqueued_def split: if_splits)
qed

theorem outbox_attempts_bounded_witness: "length (filter (\<lambda>q. fst q = ''j1'') (os_queue job_state)) \<le> 5"
  by (rule outbox_attempts_bounded [OF plain_numeric job_reached])

section \<open>A healthy pass\<close>

text \<open>C30: A pass whose calls succeed goes through the whole of its page: the due jobs are handed to the
  queue in the order of the page, once each, and their rows removed; a job whose attempts are used up is
  marked failed and counted; a job that is leased or has failed, and every row not of the page, stays as it
  is; and the answer has the numbers of the published and the given-up jobs and the cursor of the page.
  The commits of the pass must fit the size limits.\<close>

theorem outbox_healthy_pass:
  assumes "numeric pf" and "db_ok db" and "\<forall>r \<in> set (rows_of db JOB_OUTBOX_TABLE). shaped r"
    and "distinct (map (\<lambda>r. jget r ''id'') (rows_of db JOB_OUTBOX_TABLE))"
    and "outbox_options_ok options" and "oo_now options \<in> {None, Some now}"
    and "pageDatabaseRecords pf (rows_of db JOB_OUTBOX_TABLE)
      \<lparr>po_limit = (if oo_limit options = JUndef \<or> oo_limit options = JNull then JNum (Fin 25) else oo_limit options),
       po_cursor = oo_cursor options\<rparr> = Inr p"
    and "\<forall>r \<in> set (pg_records p). pass_fits pf now (lease_ms options) (max_attempts options) token r"
  shows "\<exists>db'. drive pf now token (dispatchJobOutbox pf True options) (db, q) =
      ((db', q @ map job_message (filter (due pf now (max_attempts options)) (pg_records p))),
       Inr \<lparr>or_cursor = pg_cursor p, or_published = length (filter (due pf now (max_attempts options)) (pg_records p)),
         or_failed = length (filter (exhausted pf now (max_attempts options)) (pg_records p))\<rparr>) \<and>
    (\<forall>t i. db_row db' t i = (case find (has_id i) (pg_records p) of
        Some r \<Rightarrow> if t = JOB_OUTBOX_TABLE then row_after pf now (max_attempts options) r else db_row db t i
      | None \<Rightarrow> db_row db t i))"
proof -
  have d: "distinct (map (\<lambda>r. jget r ''id'') (pg_records p))" by (rule page_distinct [OF assms(7,4)])
  have r: "\<forall>r \<in> set (pg_records p). shaped r \<and> db_row db JOB_OUTBOX_TABLE (jget r ''id'') = r \<and>
      pass_fits pf now (lease_ms options) (max_attempts options) token r"
    using assms(3,8) row_of_member [OF assms(4)] page_rows [OF assms(7)] by blast
  have "drive pf now token (dispatchJobOutbox pf True options) (db, q) =
      drive pf now token (outbox_records pf (oo_now options) (lease_ms options) (max_attempts options) (pg_cursor p) (pg_records p) 0 0) (db, q)"
    using assms(5,7) by (simp add: dispatchJobOutbox_def)
  with records_passed [OF assms(1,6,2) d r, of "pg_cursor p" 0 0 q] show ?thesis by (simp add: page_after_def)
qed

text \<open>A page of a leased job, a due one and one whose attempts are used up.\<close>

definition leased_row :: js where
  "leased_row = js_put ''id'' (JStr ''j0'') (js_put ''leaseUntil'' (JNum (Fin 9)) job_row)"

definition spent_row :: js where
  "spent_row = js_put ''id'' (JStr ''j2'') (js_put ''attempts'' (JNum (Fin 5)) job_row)"

definition mixed_db :: database where
  "mixed_db = [(JOB_OUTBOX_TABLE, [spent_row, leased_row, job_row])]"

lemma mixed_page: "pageDatabaseRecords plain_pf (rows_of mixed_db JOB_OUTBOX_TABLE)
    \<lparr>po_limit = (if oo_limit job_options = JUndef \<or> oo_limit job_options = JNull then JNum (Fin 25) else oo_limit job_options),
     po_cursor = oo_cursor job_options\<rparr> = Inr \<lparr>pg_records = [leased_row, job_row, spent_row], pg_cursor = None\<rparr>"
proof -
  have "databasePageLimit \<lparr>po_limit = JNum (Fin 25), po_cursor = JUndef\<rparr> = Inr 25"
    by (simp add: databasePageLimit_def)
  moreover have "js_sort (\<lambda>a b. compareIds (row_id plain_pf a) (row_id plain_pf b)) [spent_row, leased_row, job_row] =
      [leased_row, job_row, spent_row]" by code_simp
  ultimately show ?thesis
    by (simp add: pageDatabaseRecords_def job_options_def mixed_db_def rows_of_def)
qed

lemma job_claim_fits: "claim_fits plain_pf (Fin 0) (Fin 1000) ''t'' job_row"
proof -
  let ?c = "claimed_record plain_pf (Fin 0) (Fin 1000) ''t'' job_row"
  have i: "js_str (jget job_row ''id'') = ''j1''" by code_simp
  have "validateDatabaseWrites plain_pf (JArr [db_write JOB_OUTBOX_TABLE ''j1'' job_row ?c]) = Inr ()"
    by (rule validate_small; code_simp)
  moreover have "validateDatabaseWrites plain_pf (JArr [db_write JOB_OUTBOX_TABLE ''j1'' ?c JNull]) = Inr ()"
    by (rule validate_small; code_simp)
  ultimately show ?thesis by (simp add: claim_fits_def i)
qed

lemma spent_fits: "validateDatabaseWrites plain_pf (JArr [db_write JOB_OUTBOX_TABLE ''j2'' spent_row (give_up spent_row)]) = Inr ()"
  by (rule validate_small; code_simp)

lemma mixed_shaped: "list_all shaped [leased_row, job_row, spent_row]"
proof -
  have "list_all (\<lambda>r. js_wf r \<and> isObject r \<and> isString (jget r ''id'') \<and> isString (jget r ''name'')) [leased_row, job_row, spent_row]"
    "has_attempts leased_row 0" "has_attempts job_row 0" "has_attempts spent_row 5" by code_simp+
  then show ?thesis by (auto simp: shaped_def)
qed

lemma mixed_plain: "list_all plain_json [leased_row, job_row, spent_row]"
proof -
  have "list_all (\<lambda>r. case db_visit r of Inr _ \<Rightarrow> True | Inl _ \<Rightarrow> False) [leased_row, job_row, spent_row]" by code_simp
  with mixed_shaped show ?thesis by (auto simp: plain_json_def shaped_def split: sum.splits)
qed

lemma mixed_states:
  "map (due plain_pf (Fin 0) (Fin 5)) [leased_row, job_row, spent_row] = [False, True, False]"
  "map (exhausted plain_pf (Fin 0) (Fin 5)) [leased_row, job_row, spent_row] = [False, False, True]"
  by code_simp+

theorem outbox_healthy_pass_witness:
  "\<exists>db'. drive plain_pf (Fin 0) ''t'' (dispatchJobOutbox plain_pf True job_options) (mixed_db, []) =
      ((db', [job_message job_row]), Inr \<lparr>or_cursor = None, or_published = 1, or_failed = 1\<rparr>) \<and>
    db_row db' JOB_OUTBOX_TABLE (JStr ''j0'') = leased_row \<and> db_row db' JOB_OUTBOX_TABLE (JStr ''j1'') = JNull \<and>
    db_row db' JOB_OUTBOX_TABLE (JStr ''j2'') = give_up spent_row"
proof -
  have rows: "rows_of mixed_db JOB_OUTBOX_TABLE = [spent_row, leased_row, job_row]" by (simp add: rows_of_def mixed_db_def)
  have o: "max_attempts job_options = Fin 5" "lease_ms job_options = Fin 1000"
    by (simp_all add: job_options_def max_attempts_def lease_ms_def)
  have i: "jget spent_row ''id'' = JStr ''j2''" "jget leased_row ''id'' = JStr ''j0''" "jget job_row ''id'' = JStr ''j1''" by code_simp+
  have db: "db_ok mixed_db" using mixed_plain by (auto simp: db_ok_def mixed_db_def split: if_splits)
  have sh: "\<forall>r \<in> set (rows_of mixed_db JOB_OUTBOX_TABLE). shaped r" using mixed_shaped by (simp add: rows)
  have di: "distinct (map (\<lambda>r. jget r ''id'') (rows_of mixed_db JOB_OUTBOX_TABLE))" by (simp add: rows i)
  have ok: "outbox_options_ok job_options" by (simp add: o outbox_options_ok_def num_finite_def)
  have now: "oo_now job_options \<in> {None, Some (Fin 0)}" by (simp add: job_options_def)
  have fits: "\<forall>r \<in> set (pg_records \<lparr>pg_records = [leased_row, job_row, spent_row], pg_cursor = None\<rparr>).
      pass_fits plain_pf (Fin 0) (lease_ms job_options) (max_attempts job_options) ''t'' r"
    using mixed_states job_claim_fits spent_fits by (simp add: pass_fits_def o i)
  have after: "row_after plain_pf (Fin 0) (Fin 5) leased_row = leased_row" "row_after plain_pf (Fin 0) (Fin 5) job_row = JNull"
    "row_after plain_pf (Fin 0) (Fin 5) spent_row = give_up spent_row" using mixed_states by (simp_all add: row_after_def)
  obtain db' where run: "drive plain_pf (Fin 0) ''t'' (dispatchJobOutbox plain_pf True job_options) (mixed_db, []) =
      ((db', [job_message job_row]), Inr \<lparr>or_cursor = None, or_published = 1, or_failed = 1\<rparr>)"
    and row: "\<And>t j. db_row db' t j = (case find (has_id j) [leased_row, job_row, spent_row] of
        Some r \<Rightarrow> if t = JOB_OUTBOX_TABLE then row_after plain_pf (Fin 0) (Fin 5) r else db_row mixed_db t j
      | None \<Rightarrow> db_row mixed_db t j)"
    using outbox_healthy_pass [OF plain_numeric db sh di ok now mixed_page fits, of "[]"] mixed_states by (auto simp: o)
  show ?thesis using row by (intro exI [of _ db'] conjI run) (simp_all add: has_id_def i after)
qed

end
