(* ===== verification/Workflow.thy ===== *)
theory Workflow
  imports Database_Commit
begin

text \<open>
  \<open>packages/runtime/src/workflow.ts\<close>, with the error conversion of \<open>errors.ts\<close>: sequential workflow
  runs with retries, timeouts and a saved state after every transition, so that a run whose process
  stopped can be resumed.

  As in \<open>Job_Outbox\<close>, the execution is a program in the calls it awaits, here the clock, the
  \<open>save\<close> callback, the step handlers, the trace, the log and the pause between two attempts. The
  run is the object the program mutates, passed on updated. A step with a retry schedule is the loop
  that the schedule documents: the attempt, and after a failure up to \<open>retries\<close> more. Handlers
  read the state they are given and do not change it.
\<close>

section \<open>Errors\<close>

definition rt_code_names :: "(string \<times> rt_code) list" where
  "rt_code_names = [(''VALIDATION_ERROR'', RtValidation), (''CONFLICT'', RtConflict), (''AUTH_REQUIRED'', RtAuthRequired),
     (''FORBIDDEN'', RtForbidden), (''NOT_FOUND'', RtNotFound), (''HANDLER_NOT_FOUND'', RtHandlerNotFound),
     (''CAPABILITY_NOT_DECLARED'', RtCapabilityNotDeclared), (''OUTBOUND_FETCH_NOT_ALLOWED'', RtOutboundFetchNotAllowed),
     (''ADAPTER_ERROR'', RtAdapterError), (''INTERNAL_ERROR'', RtInternalError)]"

definition rt_code_str :: "rt_code \<Rightarrow> string" where
  "rt_code_str c = (case find (\<lambda>(_, d). d = c) rt_code_names of Some (n, _) \<Rightarrow> n | None \<Rightarrow> [])"

text \<open>
  What a callee may throw: an error of this runtime, another \<open>Error\<close> with its own data properties,
  or anything else (a value that is no error, or one that cannot be inspected).
\<close>

datatype thrown =
    ThrownRuntime rt_code string int
  | ThrownError "(string \<times> js) list"
  | ThrownOther

definition readForeignRuntimeError :: "(string \<times> js) list \<Rightarrow> rt_exn option" where
  "readForeignRuntimeError own =
     (let data = (\<lambda>k. case map_of own k of Some v \<Rightarrow> v | None \<Rightarrow> JUndef) in
      case (data ''code'', data ''message'', data ''status'') of
        (JStr c, JStr m, JNum (Fin r)) \<Rightarrow>
          (case map_of rt_code_names c of
             None \<Rightarrow> None
           | Some rc \<Rightarrow>
               if data ''name'' \<noteq> JStr ''RuntimeError'' \<or> length m = 0 \<or> length m > 512 \<or>
                 of_int \<lfloor>r\<rfloor> \<noteq> r \<or> r < 400 \<or> r > 599
               then None else Some (RuntimeError rc m \<lfloor>r\<rfloor>))
      | _ \<Rightarrow> None)"

definition normaliseRuntimeError :: "thrown \<Rightarrow> rt_exn" where
  "normaliseRuntimeError e =
     (let unexpected = RuntimeError RtInternalError ''Handler failed during runtime execution.'' 500 in
      case e of
        ThrownRuntime c m s \<Rightarrow> RuntimeError c m s
      | ThrownError own \<Rightarrow> (case readForeignRuntimeError own of Some r \<Rightarrow> r | None \<Rightarrow> unexpected)
      | ThrownOther \<Rightarrow> unexpected)"

section \<open>Runs\<close>

datatype wf_status = WRunning | WCompleted | WFailed

datatype wf_step_status = StPending | StRunning | StCompleted | StFailed

record step_run =
  sn_name :: string
  sn_status :: wf_step_status
  sn_attempts :: nat
  sn_result :: js
  sn_error :: "(string \<times> string) option"
  sn_startedAt :: "string option"
  sn_completedAt :: "string option"

record wf_run =
  wr_runId :: string
  wr_workflow :: string
  wr_status :: wf_status
  wr_input :: js
  wr_steps :: "step_run list"
  wr_createdAt :: string
  wr_updatedAt :: string

record wf_step =
  wp_name :: string
  wp_retries :: "int option"
  wp_timeoutMs :: "int option"

definition new_step :: "string \<Rightarrow> step_run" where
  "new_step name = \<lparr>sn_name = name, sn_status = StPending, sn_attempts = 0, sn_result = JUndef, sn_error = None,
     sn_startedAt = None, sn_completedAt = None\<rparr>"

definition createWorkflowRun :: "string \<Rightarrow> string \<Rightarrow> wf_step list \<Rightarrow> js \<Rightarrow> string \<Rightarrow> wf_run" where
  "createWorkflowRun runId workflow steps input now =
     \<lparr>wr_runId = runId, wr_workflow = workflow, wr_status = WRunning, wr_input = input,
      wr_steps = map (\<lambda>d. new_step (wp_name d)) steps, wr_createdAt = now, wr_updatedAt = now\<rparr>"

fun find_index :: "('a \<Rightarrow> bool) \<Rightarrow> 'a list \<Rightarrow> nat option" where
  "find_index P [] = None"
| "find_index P (x # xs) = (if P x then Some 0 else map_option Suc (find_index P xs))"

datatype wf_lifecycle = LcCompleted | LcFailed | LcInFlight | LcResumable

record wf_progress =
  pg_lifecycle :: wf_lifecycle
  pg_resumable :: bool
  pg_inFlight :: bool
  pg_currentStep :: "string option"
  pg_currentStepIndex :: "nat option"
  pg_nextStep :: "string option"
  pg_nextStepIndex :: "nat option"
  pg_completedSteps :: nat
  pg_failedSteps :: nat
  pg_runningSteps :: nat
  pg_pendingSteps :: nat
  pg_totalSteps :: nat

definition count_steps :: "wf_step_status \<Rightarrow> wf_run \<Rightarrow> nat" where
  "count_steps st run = length (filter (\<lambda>s. sn_status s = st) (wr_steps run))"

definition summarizeWorkflowRun :: "wf_run \<Rightarrow> bool \<Rightarrow> wf_progress" where
  "summarizeWorkflowRun run active =
     (let currentStepIndex = find_index (\<lambda>s. sn_status s = StRunning \<or> sn_status s = StFailed) (wr_steps run);
          nextStepIndex = find_index (\<lambda>s. sn_status s = StPending \<or> sn_status s = StRunning) (wr_steps run);
          lifecycle = (if wr_status run = WCompleted then LcCompleted else if wr_status run = WFailed then LcFailed
            else if active then LcInFlight else LcResumable)
      in \<lparr>pg_lifecycle = lifecycle, pg_resumable = (wr_status run = WRunning \<and> \<not> active), pg_inFlight = (lifecycle = LcInFlight),
          pg_currentStep = map_option (\<lambda>i. sn_name (wr_steps run ! i)) currentStepIndex, pg_currentStepIndex = currentStepIndex,
          pg_nextStep = map_option (\<lambda>i. sn_name (wr_steps run ! i)) nextStepIndex, pg_nextStepIndex = nextStepIndex,
          pg_completedSteps = count_steps StCompleted run, pg_failedSteps = count_steps StFailed run,
          pg_runningSteps = count_steps StRunning run, pg_pendingSteps = count_steps StPending run,
          pg_totalSteps = length (wr_steps run)\<rparr>)"

text \<open>\<open>ensureStepRun\<close> hands out the object in \<open>run.steps\<close>; writing through it is \<open>put_step\<close>.\<close>

definition ensureStepRun :: "wf_run \<Rightarrow> string \<Rightarrow> wf_run \<times> step_run" where
  "ensureStepRun run name = (case find (\<lambda>s. sn_name s = name) (wr_steps run) of
      Some existing \<Rightarrow> (run, existing)
    | None \<Rightarrow> (run\<lparr>wr_steps := wr_steps run @ [new_step name]\<rparr>, new_step name))"

fun replace_step :: "step_run \<Rightarrow> step_run list \<Rightarrow> step_run list" where
  "replace_step s [] = []"
| "replace_step s (t # ts) = (if sn_name t = sn_name s then s # ts else t # replace_step s ts)"

definition put_step :: "step_run \<Rightarrow> wf_run \<Rightarrow> wf_run" where
  "put_step s run = run\<lparr>wr_steps := replace_step s (wr_steps run)\<rparr>"

section \<open>The program of an execution\<close>

record wf_ctx =
  wc_name :: string
  wc_input :: js
  wc_requestId :: string
  wc_handler :: string

record wf_state =
  wt_input :: js
  wt_steps :: "(string \<times> js) list"

datatype answer = Returned js | Raised thrown | TimedOut

datatype trace_call =
    TraceStart string js
  | TraceEvent string string string "int option" js
  | TraceComplete string

datatype wf_prog =
    WfReturn wf_run
  | WfThrow thrown
  | WfClock "string \<Rightarrow> wf_prog"
  | WfSave wf_run "thrown + unit \<Rightarrow> wf_prog"
  | WfTrace trace_call "thrown + unit \<Rightarrow> wf_prog"
  | WfLog js "thrown + unit \<Rightarrow> wf_prog"
  | WfSleep int wf_prog
  | WfHandle string wf_ctx wf_state "int option" "answer \<Rightarrow> wf_prog"

record wf_options =
  wo_steps :: "wf_step list"
  wo_traces :: bool
  wo_retryDelayMs :: "int option"

definition persist :: "wf_run \<Rightarrow> (wf_run \<Rightarrow> thrown + unit \<Rightarrow> wf_prog) \<Rightarrow> wf_prog" where
  "persist run k = WfClock (\<lambda>now. WfSave (run\<lparr>wr_updatedAt := now\<rparr>) (k (run\<lparr>wr_updatedAt := now\<rparr>)))"

definition traced :: "wf_options \<Rightarrow> trace_call \<Rightarrow> (thrown + unit \<Rightarrow> wf_prog) \<Rightarrow> wf_prog" where
  "traced opts c k = (if wo_traces opts then WfTrace c k else k (Inr ()))"

definition or_throw :: "wf_prog \<Rightarrow> thrown + unit \<Rightarrow> wf_prog" where
  "or_throw k r = (case r of Inl e \<Rightarrow> WfThrow e | Inr _ \<Rightarrow> k)"

definition durationBetween :: "platform \<Rightarrow> string option \<Rightarrow> string option \<Rightarrow> int option" where
  "durationBetween pf startedAt completedAt = (case (startedAt, completedAt) of
      (Some a, Some b) \<Rightarrow> (if a = [] \<or> b = [] then None else
        (case (pf_date pf a, pf_date pf b) of
           (Some x, Some y) \<Rightarrow> if 0 \<le> y - x then Some (y - x) else None
         | _ \<Rightarrow> None))
    | _ \<Rightarrow> None)"

definition trace_step :: "platform \<Rightarrow> wf_run \<Rightarrow> string \<Rightarrow> string \<Rightarrow> step_run \<Rightarrow> (string \<times> js) list \<Rightarrow> trace_call" where
  "trace_step pf run type status s extra = TraceEvent type (sn_name s) status
     (durationBetween pf (sn_startedAt s) (sn_completedAt s))
     (JObj ([(''workflow'', JStr (wr_workflow run)), (''step'', JStr (sn_name s)),
        (''attempts'', JNum (num_of_int (int (sn_attempts s))))] @ extra))"

definition step_started :: "wf_run \<Rightarrow> step_run \<Rightarrow> trace_call" where
  "step_started run s = TraceEvent ''workflow.step.started'' (sn_name s) ''running'' None
     (JObj [(''workflow'', JStr (wr_workflow run)), (''step'', JStr (sn_name s)),
        (''attempt'', JNum (num_of_int (int (sn_attempts s) + 1)))])"

definition step_timeout :: "string \<Rightarrow> int \<Rightarrow> rt_exn" where
  "step_timeout name ms = RuntimeError RtInternalError
     (''Workflow step '' @ [CHR 39] @ name @ [CHR 39] @ '' timed out after '' @ int_str ms @ ''ms.'') 500"

definition step_ctx :: "wf_run \<Rightarrow> step_run \<Rightarrow> wf_ctx" where
  "step_ctx run s = \<lparr>wc_name = wr_workflow run, wc_input = wr_input run,
     wc_requestId = wr_runId run @ '':'' @ sn_name s @ '':'' @ nat_str (sn_attempts s),
     wc_handler = wr_workflow run @ ''.'' @ sn_name s\<rparr>"

text \<open>One attempt and its \<open>n\<close> retries, with what follows a result and what follows the last error.\<close>

definition retryDelay :: "wf_options \<Rightarrow> int" where
  "retryDelay opts = (case wo_retryDelayMs opts of Some d \<Rightarrow> d | None \<Rightarrow> 50)"

definition pause :: "wf_options \<Rightarrow> wf_prog \<Rightarrow> wf_prog" where
  "pause opts k = (if retryDelay opts \<le> 0 then k else WfSleep (retryDelay opts) k)"

primrec step_attempts ::
  "wf_options \<Rightarrow> wf_step \<Rightarrow> wf_state \<Rightarrow> (wf_run \<Rightarrow> step_run \<Rightarrow> js \<Rightarrow> wf_prog) \<Rightarrow>
    (wf_run \<Rightarrow> step_run \<Rightarrow> rt_exn \<Rightarrow> wf_prog) \<Rightarrow> nat \<Rightarrow> wf_run \<Rightarrow> step_run \<Rightarrow> wf_prog" where
  "step_attempts opts d state ok bad 0 run s =
     (let s' = s\<lparr>sn_attempts := sn_attempts s + 1\<rparr> in
      persist (put_step s' run) (\<lambda>run'. \<lambda>r. case r of
          Inl e \<Rightarrow> bad run' s' (normaliseRuntimeError e)
        | Inr _ \<Rightarrow> WfHandle (wp_name d) (step_ctx run' s') state (wp_timeoutMs d) (\<lambda>a. case a of
              Returned v \<Rightarrow> ok run' s' v
            | Raised e \<Rightarrow> bad run' s' (normaliseRuntimeError e)
            | TimedOut \<Rightarrow> bad run' s' (step_timeout (sn_name s) (case wp_timeoutMs d of Some t \<Rightarrow> t | None \<Rightarrow> 0)))))"
| "step_attempts opts d state ok bad (Suc n) run s =
     (let s' = s\<lparr>sn_attempts := sn_attempts s + 1\<rparr> in
      persist (put_step s' run) (\<lambda>run'. \<lambda>r. case r of
          Inl e \<Rightarrow> pause opts (step_attempts opts d state ok bad n run' s')
        | Inr _ \<Rightarrow> WfHandle (wp_name d) (step_ctx run' s') state (wp_timeoutMs d) (\<lambda>a. case a of
              Returned v \<Rightarrow> ok run' s' v
            | Raised e \<Rightarrow> pause opts (step_attempts opts d state ok bad n run' s')
            | TimedOut \<Rightarrow> pause opts (step_attempts opts d state ok bad n run' s'))))"

definition error_code :: "rt_exn \<Rightarrow> string" where
  "error_code e = (case e of RuntimeError c _ _ \<Rightarrow> rt_code_str c | ForeignError _ \<Rightarrow> [])"

definition error_message :: "rt_exn \<Rightarrow> string" where
  "error_message e = (case e of RuntimeError _ m _ \<Rightarrow> m | ForeignError m \<Rightarrow> m)"

definition traceWorkflowStepFailed :: "platform \<Rightarrow> wf_options \<Rightarrow> wf_run \<Rightarrow> step_run \<Rightarrow> rt_exn \<Rightarrow> wf_prog \<Rightarrow> wf_prog" where
  "traceWorkflowStepFailed pf opts run s err k =
     traced opts (trace_step pf run ''workflow.step.failed'' ''failed'' s
         [(''error'', JObj [(''code'', JStr (error_code err)), (''message'', JStr (error_message err))])])
      (or_throw (traced opts (TraceEvent ''workflow.failed'' (wr_workflow run) ''failed'' None
           (JObj [(''workflow'', JStr (wr_workflow run)), (''step'', JStr (sn_name s)), (''code'', JStr (error_code err))]))
        (or_throw (traced opts (TraceComplete ''failed'') (or_throw k)))))"

definition writeWorkflowErrorLog :: "wf_run \<Rightarrow> step_run \<Rightarrow> rt_exn \<Rightarrow> wf_prog \<Rightarrow> wf_prog" where
  "writeWorkflowErrorLog run s err k =
     WfClock (\<lambda>now. WfLog (JObj [(''timestamp'', JStr now), (''level'', JStr ''error''), (''requestId'', JStr (wr_runId run)),
         (''kind'', JStr ''workflow''), (''handler'', JStr (wr_workflow run @ ''.'' @ sn_name s)),
         (''message'', JStr (error_message err)),
         (''meta'', JObj [(''code'', JStr (error_code err)), (''runId'', JStr (wr_runId run)), (''step'', JStr (sn_name s)),
            (''attempts'', JNum (num_of_int (int (sn_attempts s))))])])
      (or_throw k))"

definition step_failed :: "platform \<Rightarrow> wf_options \<Rightarrow> wf_run \<Rightarrow> step_run \<Rightarrow> rt_exn \<Rightarrow> wf_prog" where
  "step_failed pf opts run s err =
     WfClock (\<lambda>now.
       let s' = s\<lparr>sn_status := StFailed, sn_error := Some (error_code err, error_message err), sn_completedAt := Some now\<rparr> in
       persist ((put_step s' run)\<lparr>wr_status := WFailed\<rparr>) (\<lambda>run'. or_throw
         (traceWorkflowStepFailed pf opts run' s' err (writeWorkflowErrorLog run' s' err (WfReturn run')))))"

definition step_completed ::
  "platform \<Rightarrow> wf_options \<Rightarrow> (wf_run \<Rightarrow> wf_prog) \<Rightarrow> wf_run \<Rightarrow> step_run \<Rightarrow> js \<Rightarrow> wf_prog" where
  "step_completed pf opts k run s v =
     WfClock (\<lambda>now.
       let s' = s\<lparr>sn_status := StCompleted, sn_result := v, sn_completedAt := Some now\<rparr> in
       persist (put_step s' run) (\<lambda>run'. \<lambda>r. case r of
           Inl e \<Rightarrow> step_failed pf opts run' s' (normaliseRuntimeError e)
         | Inr _ \<Rightarrow> traced opts (trace_step pf run' ''workflow.step.completed'' ''completed'' s' [(''result'', sn_result s')])
             (\<lambda>r. case r of Inl e \<Rightarrow> step_failed pf opts run' s' (normaliseRuntimeError e) | Inr _ \<Rightarrow> k run')))"

definition retries_of :: "wf_step \<Rightarrow> nat" where
  "retries_of d = nat (max 0 (case wp_retries d of Some n \<Rightarrow> n | None \<Rightarrow> 0))"

fun run_steps :: "platform \<Rightarrow> wf_options \<Rightarrow> wf_step list \<Rightarrow> wf_state \<Rightarrow> wf_run \<Rightarrow> wf_prog" where
  "run_steps pf opts [] state run =
     persist (run\<lparr>wr_status := WCompleted\<rparr>) (\<lambda>run'. or_throw
       (traced opts (TraceEvent ''workflow.completed'' (wr_workflow run') ''completed'' None
            (JObj [(''workflow'', JStr (wr_workflow run')), (''steps'', JNum (num_of_int (int (length (wr_steps run')))))])) (or_throw
         (traced opts (TraceComplete ''completed'') (or_throw (WfReturn run'))))))"
| "run_steps pf opts (d # ds) state run =
     (let (run, s) = ensureStepRun run (wp_name d) in
      if sn_status s = StCompleted
      then run_steps pf opts ds (state\<lparr>wt_steps := AList.update (sn_name s) (sn_result s) (wt_steps state)\<rparr>) run
      else WfClock (\<lambda>now.
        let s1 = s\<lparr>sn_status := StRunning, sn_startedAt := Some now\<rparr> in
        persist (put_step s1 run) (\<lambda>run1. or_throw
         (traced opts (step_started run1 s1) (or_throw
           (step_attempts opts d state
             (\<lambda>run2 s2 v. step_completed pf opts
                (run_steps pf opts ds (state\<lparr>wt_steps := AList.update (sn_name s2) v (wt_steps state)\<rparr>)) run2 s2 v)
             (step_failed pf opts) (retries_of d) run1 s1))))))"

definition executeWorkflowRun :: "platform \<Rightarrow> wf_options \<Rightarrow> wf_run \<Rightarrow> wf_prog" where
  "executeWorkflowRun pf opts run =
     persist (run\<lparr>wr_status := WRunning\<rparr>) (\<lambda>run'. or_throw
       (traced opts (TraceStart (wr_runId run') (JObj [(''workflow'', JStr (wr_workflow run')), (''input'', wr_input run')])) (or_throw
         (run_steps pf opts (wo_steps opts) \<lparr>wt_input = wr_input run', wt_steps = []\<rparr> run'))))"

end
