(* ===== verification/Workflow_Laws.thy ===== *)
theory Workflow_Laws
  imports Workflow
begin

text \<open>
  A workflow run over its stored state. \<open>wf_move\<close> is one step of the system: the program goes on with
  some answer of the call it awaits (a save may fail, or take effect and lose its answer), the process
  stops, or a run left with status \<open>running\<close> is started again from what is stored. \<open>wf_ok\<close> says of a
  program what every continuation of it keeps; \<open>stored_ok\<close> is the invariant of the stored run.
\<close>

section \<open>The steps of a run\<close>

definition lookup :: "wf_run \<Rightarrow> string \<Rightarrow> step_run option" where
  "lookup run n = find (\<lambda>s. sn_name s = n) (wr_steps run)"

definition step_done :: "wf_run \<Rightarrow> string \<Rightarrow> bool" where
  "step_done run n \<longleftrightarrow> (case lookup run n of Some s \<Rightarrow> sn_status s = StCompleted | None \<Rightarrow> False)"

definition result_of :: "wf_run \<Rightarrow> string \<Rightarrow> js" where
  "result_of run n = (case lookup run n of Some s \<Rightarrow> sn_result s | None \<Rightarrow> JUndef)"

definition tries :: "wf_run \<Rightarrow> string \<Rightarrow> nat" where
  "tries run n = (case lookup run n of Some s \<Rightarrow> sn_attempts s | None \<Rightarrow> 0)"

definition seen :: "wf_run \<Rightarrow> wf_step list \<Rightarrow> (string \<times> js) list" where
  "seen run ds = map (\<lambda>d. (wp_name d, result_of run (wp_name d))) ds"

lemma find_name: "find (\<lambda>s. sn_name s = n) ts = Some s \<Longrightarrow> sn_name s = n"
  by (induction ts) (auto split: if_splits)

lemma lookup_name: "lookup run n = Some s \<Longrightarrow> sn_name s = n"
  unfolding lookup_def by (rule find_name)

lemma find_replace:
  "find (\<lambda>t. sn_name t = n) (replace_step s ts) =
     (if n = sn_name s \<and> find (\<lambda>t. sn_name t = n) ts \<noteq> None then Some s else find (\<lambda>t. sn_name t = n) ts)"
  by (induction ts) auto

lemma lookup_put [simp]:
  "lookup (put_step s run) n = (if n = sn_name s \<and> lookup run n \<noteq> None then Some s else lookup run n)"
  by (auto simp: lookup_def put_step_def find_replace)

lemma lookup_update [simp]:
  "lookup (run\<lparr>wr_updatedAt := a\<rparr>) n = lookup run n" "lookup (run\<lparr>wr_status := st\<rparr>) n = lookup run n"
  by (simp_all add: lookup_def)

lemma put_step_simps [simp]:
  "wr_status (put_step s run) = wr_status run" "wr_input (put_step s run) = wr_input run"
  by (simp_all add: put_step_def)

lemma find_append_step: "find P (xs @ ys) = (case find P xs of Some x \<Rightarrow> Some x | None \<Rightarrow> find P ys)"
  by (induction xs) auto

lemma ensure_step:
  assumes "ensureStepRun run n = (r, s)"
  shows "lookup r n = Some s" and "sn_name s = n" and "wr_status r = wr_status run" and "wr_input r = wr_input run"
    and "m \<noteq> n \<Longrightarrow> lookup r m = lookup run m" and "step_done r m = step_done run m" and "result_of r m = result_of run m"
    and "tries r m = tries run m"
proof -
  have l: "lookup r m = (if m = n then Some s else lookup run m)" for m
    using assms by (cases "find (\<lambda>s. sn_name s = n) (wr_steps run)")
      (auto simp: ensureStepRun_def lookup_def find_append_step new_step_def split: option.split)
  show 1: "lookup r n = Some s" "m \<noteq> n \<Longrightarrow> lookup r m = lookup run m" using l by auto
  show "sn_name s = n" using 1(1) by (rule lookup_name)
  show "wr_status r = wr_status run" "wr_input r = wr_input run"
    using assms by (auto simp: ensureStepRun_def split: option.splits)
  have "lookup run n = Some s \<or> lookup run n = None \<and> s = new_step n"
    using assms by (auto simp: ensureStepRun_def lookup_def split: option.splits)
  then show "step_done r m = step_done run m" "result_of r m = result_of run m" "tries r m = tries run m"
    using l [of m] by (auto simp: step_done_def result_of_def tries_def new_step_def)
qed

section \<open>The system\<close>

record wf_call =
  ca_step :: string
  ca_state :: wf_state
  ca_answer :: "answer option"

record wf_sys =
  wy_disk :: wf_run
  wy_prog :: "wf_prog option"
  wy_calls :: "wf_call list"
  wy_starts :: nat

inductive wf_move :: "platform \<Rightarrow> wf_options \<Rightarrow> wf_sys \<Rightarrow> wf_sys \<Rightarrow> bool" for pf :: platform and opts :: wf_options where
  started: "wy_prog s = None \<Longrightarrow> wr_status (wy_disk s) = WRunning \<Longrightarrow>
      wf_move pf opts s (s\<lparr>wy_prog := Some (executeWorkflowRun pf opts (wy_disk s)), wy_starts := Suc (wy_starts s)\<rparr>)"
| crashed: "wf_move pf opts s (s\<lparr>wy_prog := None\<rparr>)"
| clocked: "wy_prog s = Some (WfClock k) \<Longrightarrow> wf_move pf opts s (s\<lparr>wy_prog := Some (k now)\<rparr>)"
| slept: "wy_prog s = Some (WfSleep ms k) \<Longrightarrow> wf_move pf opts s (s\<lparr>wy_prog := Some k\<rparr>)"
| traced: "wy_prog s = Some (WfTrace c kt) \<Longrightarrow> wf_move pf opts s (s\<lparr>wy_prog := Some (kt r)\<rparr>)"
| logged: "wy_prog s = Some (WfLog j kl) \<Longrightarrow> wf_move pf opts s (s\<lparr>wy_prog := Some (kl r)\<rparr>)"
| saved: "wy_prog s = Some (WfSave run ks) \<Longrightarrow> wf_move pf opts s (s\<lparr>wy_disk := run, wy_prog := Some (ks r)\<rparr>)"
| save_failed: "wy_prog s = Some (WfSave run ks) \<Longrightarrow> wf_move pf opts s (s\<lparr>wy_prog := Some (ks (Inl e))\<rparr>)"
| handled: "wy_prog s = Some (WfHandle n ctx st tm kh) \<Longrightarrow> a = TimedOut \<longrightarrow> tm \<noteq> None \<Longrightarrow>
      wf_move pf opts s (s\<lparr>wy_calls := wy_calls s @ [\<lparr>ca_step = n, ca_state = st, ca_answer = Some a\<rparr>], wy_prog := Some (kh a)\<rparr>)"
| interrupted: "wy_prog s = Some (WfHandle n ctx st tm kh) \<Longrightarrow>
      wf_move pf opts s (s\<lparr>wy_calls := wy_calls s @ [\<lparr>ca_step = n, ca_state = st, ca_answer = None\<rparr>], wy_prog := None\<rparr>)"

definition wf_created :: "string \<Rightarrow> string \<Rightarrow> wf_options \<Rightarrow> js \<Rightarrow> string \<Rightarrow> wf_sys" where
  "wf_created runId workflow opts input now = \<lparr>wy_disk = createWorkflowRun runId workflow (wo_steps opts) input now,
     wy_prog = None, wy_calls = [], wy_starts = 0\<rparr>"

definition calls_of :: "wf_call list \<Rightarrow> string \<Rightarrow> nat" where
  "calls_of c n = length (filter (\<lambda>ca. ca_step ca = n) c)"

lemma calls_of_append [simp]: "calls_of (c @ [ca]) n = calls_of c n + (if ca_step ca = n then 1 else 0)"
  by (simp add: calls_of_def)

section \<open>The invariant of the stored run\<close>

definition stored_ok :: "wf_options \<Rightarrow> js \<Rightarrow> wf_run \<Rightarrow> wf_call list \<Rightarrow> bool" where
  "stored_ok opts inp d c \<longleftrightarrow> wr_input d = inp \<and> (\<forall>n. calls_of c n \<le> tries d n) \<and>
     (wr_status d = WCompleted \<longrightarrow> (\<forall>x \<in> set (wo_steps opts). step_done d (wp_name x))) \<and>
     (\<forall>pre x post. wo_steps opts = pre @ x # post \<longrightarrow> step_done d (wp_name x) \<longrightarrow>
        (\<forall>y \<in> set pre. step_done d (wp_name y)) \<and>
        \<lparr>ca_step = wp_name x, ca_state = \<lparr>wt_input = inp, wt_steps = seen d pre\<rparr>,
          ca_answer = Some (Returned (result_of d (wp_name x)))\<rparr> \<in> set c)"

definition kept :: "wf_run \<Rightarrow> wf_run \<Rightarrow> bool" where
  "kept d r \<longleftrightarrow> wr_status r = WFailed \<or> (\<forall>n. step_done d n \<longrightarrow> step_done r n \<and> result_of r n = result_of d n)"

primrec wf_ok :: "wf_options \<Rightarrow> js \<Rightarrow> wf_prog \<Rightarrow> wf_run \<Rightarrow> wf_call list \<Rightarrow> bool" where
  "wf_ok opts inp (WfReturn r) d c = (r = d)"
| "wf_ok opts inp (WfThrow e) d c = True"
| "wf_ok opts inp (WfClock k) d c = (\<forall>now. wf_ok opts inp (k now) d c)"
| "wf_ok opts inp (WfTrace tc k) d c = (\<forall>r. wf_ok opts inp (k r) d c)"
| "wf_ok opts inp (WfLog j k) d c = (\<forall>r. wf_ok opts inp (k r) d c)"
| "wf_ok opts inp (WfSleep ms k) d c = wf_ok opts inp k d c"
| "wf_ok opts inp (WfSave run k) d c = (wr_status d = WRunning \<and> stored_ok opts inp run c \<and> kept d run \<and>
     (\<forall>r. wf_ok opts inp (k r) run c) \<and> (\<forall>e. wf_ok opts inp (k (Inl e)) d c))"
| "wf_ok opts inp (WfHandle n ctx st tm k) d c = (wr_status d = WRunning \<and> \<not> step_done d n \<and>
     (\<forall>a. stored_ok opts inp d (c @ [\<lparr>ca_step = n, ca_state = st, ca_answer = a\<rparr>])) \<and>
     (\<forall>a. wf_ok opts inp (k a) d (c @ [\<lparr>ca_step = n, ca_state = st, ca_answer = Some a\<rparr>])))"

lemma wf_ok_persist:
  "wf_ok opts inp (persist run k) d c \<longleftrightarrow> (\<forall>now. wf_ok opts inp (WfSave (run\<lparr>wr_updatedAt := now\<rparr>) (k (run\<lparr>wr_updatedAt := now\<rparr>))) d c)"
  by (simp add: persist_def)

lemma wf_ok_traced: "(\<And>r. wf_ok opts inp (k r) d c) \<Longrightarrow> wf_ok opts inp (traced o' tc k) d c"
  by (simp add: traced_def)

lemma wf_ok_or_throw [simp]: "wf_ok opts inp (or_throw k r) d c \<longleftrightarrow> (case r of Inl _ \<Rightarrow> True | Inr _ \<Rightarrow> wf_ok opts inp k d c)"
  by (simp add: or_throw_def split: sum.split)

lemma wf_ok_pause: "wf_ok opts inp k d c \<Longrightarrow> wf_ok opts inp (pause o' k) d c"
  by (simp add: pause_def)

lemma stored_ok_lookup:
  "stored_ok opts inp r c \<Longrightarrow> (\<And>n. lookup r' n = lookup r n) \<Longrightarrow> wr_input r' = wr_input r \<Longrightarrow>
    (wr_status r' = WCompleted \<longrightarrow> wr_status r = WCompleted) \<Longrightarrow> stored_ok opts inp r' c"
  by (simp add: stored_ok_def step_done_def result_of_def tries_def seen_def)

lemma stored_ok_updated [simp]: "stored_ok opts inp (r\<lparr>wr_updatedAt := a\<rparr>) c = stored_ok opts inp r c"
  using stored_ok_lookup [of opts inp r c "r\<lparr>wr_updatedAt := a\<rparr>"] stored_ok_lookup [of opts inp "r\<lparr>wr_updatedAt := a\<rparr>" c r]
  by auto

lemma kept_lookup: "kept d r \<Longrightarrow> (\<And>n. lookup r' n = lookup r n) \<Longrightarrow> wr_status r' = wr_status r \<Longrightarrow> kept d r'"
  by (simp add: kept_def step_done_def result_of_def)

lemma kept_refl [simp]: "kept d d"
  by (simp add: kept_def)

section \<open>The program keeps the invariant\<close>

definition distinct_steps :: "wf_options \<Rightarrow> bool" where
  "distinct_steps opts \<longleftrightarrow> distinct (map wp_name (wo_steps opts))"

text \<open>Where the program stands between two steps, and inside the step \<open>x\<close>.\<close>

definition between :: "wf_options \<Rightarrow> js \<Rightarrow> wf_step list \<Rightarrow> wf_step list \<Rightarrow> wf_run \<Rightarrow> wf_call list \<Rightarrow> wf_run \<Rightarrow> bool" where
  "between opts inp pre ds d c r \<longleftrightarrow> wo_steps opts = pre @ ds \<and> distinct_steps opts \<and>
     stored_ok opts inp d c \<and> stored_ok opts inp r c \<and> wr_status d = WRunning \<and> wr_status r = WRunning \<and> kept d r \<and>
     (\<forall>y \<in> set pre. step_done r (wp_name y))"

definition inside :: "wf_options \<Rightarrow> js \<Rightarrow> wf_step list \<Rightarrow> wf_step \<Rightarrow> wf_step list \<Rightarrow> (string \<times> js) list \<Rightarrow>
    wf_run \<Rightarrow> wf_call list \<Rightarrow> wf_run \<Rightarrow> bool" where
  "inside opts inp pre x post R d c r \<longleftrightarrow> between opts inp pre (x # post) d c r \<and> seen r pre = R \<and>
     (\<forall>y \<in> set post. \<not> step_done r (wp_name y)) \<and> lookup r (wp_name x) \<noteq> None"

lemma seen_cong: "(\<And>y. y \<in> set pre \<Longrightarrow> lookup r' (wp_name y) = lookup r (wp_name y)) \<Longrightarrow> seen r' pre = seen r pre"
  by (simp add: seen_def result_of_def)

text \<open>Changing the step \<open>x\<close> alone, without completing it.\<close>

lemma stored_ok_change:
  assumes r: "stored_ok opts inp r c" and ds: "wo_steps opts = pre @ x # post" "distinct_steps opts"
    and l: "\<And>n. n \<noteq> wp_name x \<Longrightarrow> lookup r' n = lookup r n" and "wr_input r' = wr_input r" and st: "wr_status r' \<noteq> WCompleted"
    and x: "\<not> step_done r' (wp_name x)" and post: "\<forall>y \<in> set post. \<not> step_done r (wp_name y)"
    and t: "tries r (wp_name x) \<le> tries r' (wp_name x)"
  shows "stored_ok opts inp r' c"
proof -
  have same: "step_done r' n = step_done r n" "result_of r' n = result_of r n" "tries r' n = tries r n" if "n \<noteq> wp_name x" for n
    using l [OF that] by (simp_all add: step_done_def result_of_def tries_def)
  have calls: "calls_of c n \<le> tries r' n" for n
    using r t same(3) [of n] by (cases "n = wp_name x") (auto simp: stored_ok_def intro: order_trans)
  have prov: "(\<forall>z \<in> set pre'. step_done r' (wp_name z)) \<and>
      \<lparr>ca_step = wp_name y, ca_state = \<lparr>wt_input = inp, wt_steps = seen r' pre'\<rparr>,
        ca_answer = Some (Returned (result_of r' (wp_name y)))\<rparr> \<in> set c"
    if y: "wo_steps opts = pre' @ y # post'" "step_done r' (wp_name y)" for pre' y post'
  proof -
    have yx: "wp_name y \<noteq> wp_name x" using y(2) x by auto
    then have dy: "step_done r (wp_name y)" using y(2) same(1) by simp
    have "y \<notin> set post" using dy post by blast
    then have "x \<notin> set pre'"
    proof -
      assume "y \<notin> set post"
      from ds(1) y(1) have eq: "pre @ x # post = pre' @ y # post'" by simp
      show "x \<notin> set pre'"
      proof
        assume "x \<in> set pre'"
        then obtain as bs where "pre' = as @ x # bs" by (auto dest: split_list)
        with eq have "pre @ x # post = as @ x # bs @ y # post'" by simp
        moreover have "distinct (pre @ x # post)" using ds by (metis distinct_map distinct_steps_def)
        then have "x \<notin> set pre" "x \<notin> set post" by auto
        ultimately have "post = bs @ y # post'" by (simp add: append_Cons_eq_iff)
        with \<open>y \<notin> set post\<close> show False by simp
      qed
    qed
    then have nx: "wp_name z \<noteq> wp_name x" if "z \<in> set pre'" for z
    proof -
      have "x \<in> set (wo_steps opts)" using ds(1) by simp
      moreover have "z \<in> set (wo_steps opts)" using that y(1) by simp
      moreover have "inj_on wp_name (set (wo_steps opts))" using ds(2) by (simp add: distinct_steps_def distinct_map)
      ultimately show ?thesis using that \<open>x \<notin> set pre'\<close> by (metis inj_onD)
    qed
    then have "seen r' pre' = seen r pre'" by (intro seen_cong l)
    with r y(1) dy nx same yx show ?thesis unfolding stored_ok_def by metis
  qed
  show ?thesis using r assms(5) calls prov st unfolding stored_ok_def by simp
qed

lemma insideD:
  assumes "inside opts inp pre x post R d c r"
  shows "wo_steps opts = pre @ x # post" and "distinct_steps opts" and "stored_ok opts inp d c"
    and "stored_ok opts inp r c" and "wr_status d = WRunning" and "wr_status r = WRunning" and "kept d r"
    and "\<forall>y \<in> set pre. step_done r (wp_name y)" and "seen r pre = R" and "\<forall>y \<in> set post. \<not> step_done r (wp_name y)"
    and "lookup r (wp_name x) \<noteq> None"
  using assms by (simp_all add: inside_def between_def)

lemma inside_lookup:
  assumes "inside opts inp pre x post R d c r" and "\<And>n. lookup r' n = lookup r n" and "wr_input r' = wr_input r"
    and "wr_status r' = wr_status r"
  shows "inside opts inp pre x post R d c r'"
proof -
  have "stored_ok opts inp r' c" "kept d r'" "seen r' pre = seen r pre"
    using insideD(4) [OF assms(1)] insideD(7) [OF assms(1)] assms(2-4)
    by (auto intro: stored_ok_lookup kept_lookup seen_cong)
  with assms show ?thesis by (simp add: inside_def between_def step_done_def)
qed

lemma inside_updated [simp]: "inside opts inp pre x post R d c r \<Longrightarrow> inside opts inp pre x post R d c (r\<lparr>wr_updatedAt := a\<rparr>)"
  by (erule inside_lookup) simp_all

lemma inside_saved: "inside opts inp pre x post R d c r \<Longrightarrow> inside opts inp pre x post R r c r"
  by (simp add: inside_def between_def)

lemma inside_others:
  assumes "inside opts inp pre x post R d c r" and "y \<in> set (pre @ post)"
  shows "wp_name y \<noteq> wp_name x"
  using insideD(1,2) [OF assms(1)] assms(2) by (auto simp: distinct_steps_def image_iff)

text \<open>Writing through the step object of \<open>x\<close> without completing it.\<close>

lemma put_open:
  assumes i: "inside opts inp pre x post R d c r" and s: "sn_name s = wp_name x" "sn_status s \<noteq> StCompleted"
    and t: "tries r (wp_name x) \<le> sn_attempts s" and st: "st \<noteq> WCompleted"
  shows "stored_ok opts inp ((put_step s r)\<lparr>wr_status := st\<rparr>) c"
    and "\<not> step_done r (wp_name x) \<Longrightarrow> inside opts inp pre x post R d c (put_step s r)"
proof -
  note D = insideD [OF i]
  have l: "lookup (put_step s r) n = lookup r n" if "n \<noteq> wp_name x" for n using that s(1) by simp
  have lx: "lookup (put_step s r) (wp_name x) = Some s" using D(11) s(1) by simp
  have ok: "stored_ok opts inp ((put_step s r)\<lparr>wr_status := q\<rparr>) c" if "q \<noteq> WCompleted" for q
    by (rule stored_ok_change [OF D(4,1,2)])
      (use lx s t that D(10) in \<open>simp_all add: step_done_def tries_def\<close>)
  then show "stored_ok opts inp ((put_step s r)\<lparr>wr_status := st\<rparr>) c" using st by simp
  assume nd: "\<not> step_done r (wp_name x)"
  have same: "step_done (put_step s r) n = step_done r n" for n
    using nd lx l [of n] s(2) by (cases "n = wp_name x") (auto simp: step_done_def)
  have res: "step_done r n \<Longrightarrow> result_of (put_step s r) n = result_of r n" for n
    using nd l [of n] by (cases "n = wp_name x") (auto simp: result_of_def)
  have "stored_ok opts inp (put_step s r) c"
    using ok [of WRunning] by (rule stored_ok_lookup) (simp_all add: D(6))
  moreover have "kept d (put_step s r)"
    using D(6,7) same res by (auto simp: kept_def)
  moreover have "seen (put_step s r) pre = seen r pre"
    using inside_others [OF i] by (intro seen_cong l) auto
  ultimately show "inside opts inp pre x post R d c (put_step s r)"
    using i same lx by (simp add: inside_def between_def)
qed

section \<open>Failing and completing a step\<close>

lemma failed_ok:
  assumes i: "inside opts inp pre x post R d c r" and s: "lookup r (wp_name x) = Some s"
  shows "wf_ok opts inp (step_failed pf o' r s err) d c"
proof -
  note D = insideD [OF i]
  have "stored_ok opts inp ((put_step (s\<lparr>sn_status := StFailed, sn_error := er, sn_completedAt := co\<rparr>) r)\<lparr>wr_status := WFailed\<rparr>) c" for er co
    by (rule put_open(1) [OF i]) (use s lookup_name [OF s] in \<open>simp_all add: tries_def\<close>)
  then show ?thesis
    using D(5) unfolding step_failed_def traceWorkflowStepFailed_def writeWorkflowErrorLog_def Let_def
    by (auto simp: wf_ok_persist kept_def intro!: wf_ok_traced split: sum.split)
qed

lemma completed_ok:
  assumes i: "inside opts inp pre x post R d c r" and s: "lookup r (wp_name x) = Some s" and nd: "\<not> step_done r (wp_name x)"
    and call: "\<lparr>ca_step = wp_name x, ca_state = \<lparr>wt_input = inp, wt_steps = R\<rparr>, ca_answer = Some (Returned v)\<rparr> \<in> set c"
    and k: "\<And>r'. between opts inp (pre @ [x]) post r' c r' \<Longrightarrow> seen r' (pre @ [x]) = R @ [(wp_name x, v)] \<Longrightarrow> wf_ok opts inp (k r') r' c"
  shows "wf_ok opts inp (step_completed pf o' k r s v) d c"
proof -
  note D = insideD [OF i]
  have main: "wf_ok opts inp (persist (put_step s' r) (\<lambda>run'. \<lambda>q. case q of
           Inl e \<Rightarrow> step_failed pf o' run' s' (normaliseRuntimeError e)
         | Inr _ \<Rightarrow> traced o' (tc run')
             (\<lambda>q. case q of Inl e \<Rightarrow> step_failed pf o' run' s' (normaliseRuntimeError e) | Inr _ \<Rightarrow> k run'))) d c"
    if s': "s' = s\<lparr>sn_status := StCompleted, sn_result := v, sn_completedAt := Some now\<rparr>" for s' now tc
  proof -
    have n: "sn_name s' = wp_name x" using lookup_name [OF s] s' by simp
    have l: "lookup (put_step s' r) m = lookup r m" if "m \<noteq> wp_name x" for m using that n by simp
    have lx: "lookup (put_step s' r) (wp_name x) = Some s'" using D(11) n by simp
    have x: "step_done (put_step s' r) (wp_name x)" "result_of (put_step s' r) (wp_name x) = v"
      "tries (put_step s' r) (wp_name x) = tries r (wp_name x)"
      using lx s' s by (simp_all add: step_done_def result_of_def tries_def)
    have same: "step_done (put_step s' r) m = step_done r m" "result_of (put_step s' r) m = result_of r m"
      "tries (put_step s' r) m = tries r m" if "m \<noteq> wp_name x" for m
      using l [OF that] by (simp_all add: step_done_def result_of_def tries_def)
    have others: "wp_name y \<noteq> wp_name x" if "y \<in> set pre \<union> set post" for y using inside_others [OF i] that by auto
    have seen: "seen (put_step s' r) pre = R"
      using D(9) others by (metis UnI1 seen_cong l)
    have ok: "stored_ok opts inp (put_step s' r) c"
    proof -
      have t: "calls_of c m \<le> tries (put_step s' r) m" for m
        using D(4) same(3) [of m] x(3) by (cases "m = wp_name x") (auto simp: stored_ok_def)
      have "(\<forall>z \<in> set pre'. step_done (put_step s' r) (wp_name z)) \<and>
          \<lparr>ca_step = wp_name y, ca_state = \<lparr>wt_input = inp, wt_steps = seen (put_step s' r) pre'\<rparr>,
            ca_answer = Some (Returned (result_of (put_step s' r) (wp_name y)))\<rparr> \<in> set c"
        if y: "wo_steps opts = pre' @ y # post'" "step_done (put_step s' r) (wp_name y)" for pre' y post'
      proof (cases "wp_name y = wp_name x")
        case True
        have "y \<in> set (pre @ x # post)" using D(1) y(1) by (metis in_set_conv_decomp)
        with True others have "y = x" by auto
        have "x \<notin> set pre" "x \<notin> set post" using others by blast+
        moreover have "pre @ x # post = pre' @ x # post'" using D(1) y(1) \<open>y = x\<close> by simp
        ultimately have "pre' = pre" by (simp add: append_Cons_eq_iff)
        with \<open>y = x\<close> D(8) seen x call same(1) others show ?thesis by auto
      next
        case False
        then have dy: "step_done r (wp_name y)" using y(2) same(1) by simp
        then have "\<forall>z \<in> set pre'. step_done r (wp_name z)"
          and p: "\<lparr>ca_step = wp_name y, ca_state = \<lparr>wt_input = inp, wt_steps = seen r pre'\<rparr>,
            ca_answer = Some (Returned (result_of r (wp_name y)))\<rparr> \<in> set c"
          using D(4) y(1) unfolding stored_ok_def by blast+
        then have nx: "wp_name z \<noteq> wp_name x" "step_done r (wp_name z)" if "z \<in> set pre'" for z
          using that nd by auto
        then have "seen (put_step s' r) pre' = seen r pre'" by (intro seen_cong l) auto
        with nx p False same show ?thesis by simp
      qed
      with D(4,6) t show ?thesis unfolding stored_ok_def by simp
    qed
    have kd: "kept d (put_step s' r)"
      using D(6,7) nd same x(1) unfolding kept_def by (metis put_step_simps(1) wf_status.distinct(3))
    have ins: "inside opts inp pre x post R e c (put_step s' r)"
      if "stored_ok opts inp e c" "wr_status e = WRunning" "kept e (put_step s' r)" for e
      using D(1,2,6,8,10) ok lx same seen others that by (simp add: inside_def between_def)
    have post: "between opts inp (pre @ [x]) post r' c r'" "seen r' (pre @ [x]) = R @ [(wp_name x, v)]"
      if r': "r' = (put_step s' r)\<lparr>wr_updatedAt := a\<rparr>" for r' a
    proof -
      have "inside opts inp pre x post R r' c r'"
        using inside_saved [OF inside_updated [OF ins [OF D(3,5) kd], of a]] unfolding r' .
      moreover have "step_done r' (wp_name x)" "result_of r' (wp_name x) = v"
        using x(1,2) by (simp_all add: r' step_done_def result_of_def)
      ultimately show "between opts inp (pre @ [x]) post r' c r'" "seen r' (pre @ [x]) = R @ [(wp_name x, v)]"
        by (auto simp: inside_def between_def seen_def)
    qed
    have fail: "wf_ok opts inp (step_failed pf o' ((put_step s' r)\<lparr>wr_updatedAt := a\<rparr>) s' e) f c"
      if "f = d \<or> f = (put_step s' r)\<lparr>wr_updatedAt := a\<rparr>" for a e f
    proof -
      have "inside opts inp pre x post R f c ((put_step s' r)\<lparr>wr_updatedAt := a\<rparr>)"
        using that inside_updated [OF ins [OF D(3,5) kd], of a] inside_saved by auto
      then show ?thesis by (rule failed_ok) (simp only: lookup_update lx)
    qed
    have "kept d ((put_step s' r)\<lparr>wr_updatedAt := a\<rparr>)" for a by (rule kept_lookup [OF kd]) simp_all
    then show ?thesis
      unfolding wf_ok_persist using D(5) ok fail k [OF post] by (auto intro!: wf_ok_traced split: sum.split)
  qed
  show ?thesis unfolding step_completed_def Let_def by (auto intro: main)
qed

section \<open>Attempts, steps and the execution\<close>

lemma attempts_ok:
  assumes "inside opts inp pre x post R d c r" and "lookup r (wp_name x) = Some s" and "sn_status s = StRunning"
    and ok: "\<And>d c r s v. inside opts inp pre x post R d c r \<Longrightarrow> lookup r (wp_name x) = Some s \<Longrightarrow> sn_status s = StRunning \<Longrightarrow>
      \<lparr>ca_step = wp_name x, ca_state = \<lparr>wt_input = inp, wt_steps = R\<rparr>, ca_answer = Some (Returned v)\<rparr> \<in> set c \<Longrightarrow>
      wf_ok opts inp (good r s v) d c"
    and bad: "\<And>d c r s e. inside opts inp pre x post R d c r \<Longrightarrow> lookup r (wp_name x) = Some s \<Longrightarrow>
      wf_ok opts inp (bad r s e) d c"
  shows "wf_ok opts inp (step_attempts o' x \<lparr>wt_input = inp, wt_steps = R\<rparr> good bad n r s) d c"
  using assms(1-3)
proof (induction n arbitrary: r s d c)
  have attempt: "wf_ok opts inp (persist (put_step s' r) (\<lambda>run'. \<lambda>q. case q of
          Inl e \<Rightarrow> lost run' e
        | Inr _ \<Rightarrow> WfHandle (wp_name x) (ctx run') \<lparr>wt_input = inp, wt_steps = R\<rparr> (wp_timeoutMs x) (\<lambda>a. case a of
              Returned v \<Rightarrow> good run' s' v | Raised e \<Rightarrow> lost' run' e | TimedOut \<Rightarrow> timed run'))) d c"
    if i: "inside opts inp pre x post R d c r" and s: "lookup r (wp_name x) = Some s" "sn_status s = StRunning"
      and s': "s' = s\<lparr>sn_attempts := sn_attempts s + 1\<rparr>"
      and b: "\<And>d c r e. inside opts inp pre x post R d c r \<Longrightarrow> lookup r (wp_name x) = Some s' \<Longrightarrow>
        wf_ok opts inp (lost r e) d c \<and> wf_ok opts inp (lost' r e) d c \<and> wf_ok opts inp (timed r) d c"
    for r s s' d c lost lost' timed ctx
  proof -
    note D = insideD [OF i]
    have n: "sn_name s' = wp_name x" "sn_status s' \<noteq> StCompleted" "tries r (wp_name x) < sn_attempts s'"
      using lookup_name [OF s(1)] s s' by (simp_all add: tries_def)
    have nd: "\<not> step_done r (wp_name x)" using s by (simp add: step_done_def)
    have lx: "lookup (put_step s' r) (wp_name x) = Some s'" using D(11) n by auto
    have put: "inside opts inp pre x post R d c (put_step s' r)"
      using put_open(2) [OF i n(1,2) less_imp_le [OF n(3)], of WRunning] nd by simp
    have run: "wf_ok opts inp (WfSave q (\<lambda>z. case z of
          Inl e \<Rightarrow> lost q e
        | Inr _ \<Rightarrow> WfHandle (wp_name x) (ctx q) \<lparr>wt_input = inp, wt_steps = R\<rparr> (wp_timeoutMs x) (\<lambda>a. case a of
              Returned v \<Rightarrow> good q s' v | Raised e \<Rightarrow> lost' q e | TimedOut \<Rightarrow> timed q))) d c"
      if q: "q = (put_step s' r)\<lparr>wr_updatedAt := a\<rparr>" for q a
    proof -
      have iq: "inside opts inp pre x post R d c q" unfolding q by (rule inside_updated [OF put])
      note Q = insideD [OF iq] and qq = inside_saved [OF iq]
      have lq: "lookup q (wp_name x) = Some s'" unfolding q lookup_update by (rule lx)
      have ndq: "\<not> step_done q (wp_name x)" using lq n(2) by (simp add: step_done_def)
      let ?call = "\<lambda>a. \<lparr>ca_step = wp_name x, ca_state = \<lparr>wt_input = inp, wt_steps = R\<rparr>, ca_answer = a\<rparr>"
      have more: "stored_ok opts inp q (c @ [?call a])" for a
      proof -
        have "calls_of c (wp_name x) \<le> tries r (wp_name x)" using D(4) by (simp add: stored_ok_def)
        with n(3) have "calls_of (c @ [?call a]) m \<le> tries q m" for m
          using Q(4) lq by (cases "m = wp_name x") (auto simp: stored_ok_def tries_def)
        with Q(4) show ?thesis by (simp add: stored_ok_def)
      qed
      have qc: "inside opts inp pre x post R q (c @ [?call a]) q" for a
        using qq more [of a] by (simp add: inside_def between_def)
      have "wf_ok opts inp (case a of Returned v \<Rightarrow> good q s' v | Raised e \<Rightarrow> lost' q e | TimedOut \<Rightarrow> timed q) q (c @ [?call (Some a)])" for a
        using ok [OF qc lq] b [OF qc lq] n s(2) s' by (cases a) simp_all
      then show ?thesis
        using Q(4,5,6,7) more ndq b [OF qq lq] b [OF iq lq] by (auto split: sum.split)
    qed
    show ?thesis unfolding wf_ok_persist by (intro allI run [OF refl])
  qed
  {
    case 0
    show ?case unfolding step_attempts.simps Let_def
      by (rule attempt [OF 0 refl]) (use bad in simp)
  next
    case (Suc n)
    show ?case unfolding step_attempts.simps Let_def
      by (rule attempt [OF Suc.prems refl]) (use Suc in \<open>simp add: wf_ok_pause\<close>)
  }
qed

lemma steps_ok:
  "between opts inp pre ds d c r \<Longrightarrow> seen r pre = R \<Longrightarrow> wf_ok opts inp (run_steps pf o' ds \<lparr>wt_input = inp, wt_steps = R\<rparr> r) d c"
proof (induction ds arbitrary: pre d c r R)
  case Nil
  then have "stored_ok opts inp (r\<lparr>wr_status := WCompleted, wr_updatedAt := a\<rparr>) c" for a
    by (simp add: between_def stored_ok_def step_done_def result_of_def tries_def seen_def lookup_def)
  moreover have "kept d (r\<lparr>wr_status := WCompleted, wr_updatedAt := a\<rparr>)" for a
    using Nil by (auto simp: between_def kept_def step_done_def result_of_def)
  ultimately show ?case
    using Nil by (auto simp: wf_ok_persist between_def intro!: wf_ok_traced split: sum.split)
next
  case (Cons x ds)
  obtain r1 s where e: "ensureStepRun r (wp_name x) = (r1, s)" by fastforce
  note E = ensure_step [OF e]
  have s1: "seen r1 pre = R" using Cons.prems(2) E(7) by (simp add: seen_def)
  have so: "stored_ok opts inp r1 c"
    using Cons.prems(1) E(3,4,6,7,8) by (simp add: between_def stored_ok_def seen_def)
  have b1: "between opts inp pre (x # ds) d c r1"
    using Cons.prems(1) so E(3,6,7) by (auto simp: between_def kept_def)
  have names: "wp_name x \<notin> wp_name ` set pre" using b1 by (auto simp: between_def distinct_steps_def)
  have upd: "AList.update (wp_name x) v R = R @ [(wp_name x, v)]" for v
  proof -
    have "wp_name x \<notin> fst ` set R" using names Cons.prems(2) by (auto simp: seen_def)
    then show ?thesis by (induction R) auto
  qed
  show ?case
  proof (cases "sn_status s = StCompleted")
    case True
    then have "step_done r1 (wp_name x)" "result_of r1 (wp_name x) = sn_result s" using E(1) by (simp_all add: step_done_def result_of_def)
    then have "between opts inp (pre @ [x]) ds d c r1" "seen r1 (pre @ [x]) = R @ [(wp_name x, sn_result s)]"
      using b1 s1 by (auto simp: between_def seen_def)
    from Cons.IH [OF this] True show ?thesis by (simp add: e E(2) upd)
  next
    case False
    have nd: "\<not> step_done r1 (wp_name x)" using False E(1) by (simp add: step_done_def)
    have "\<not> step_done r1 (wp_name y)" if "y \<in> set ds" for y
    proof
      assume y: "step_done r1 (wp_name y)"
      from split_list [OF that] obtain as bs where "ds = as @ y # bs" by blast
      then have "wo_steps opts = (pre @ x # as) @ y # bs" using b1 by (simp add: between_def)
      with so y have "step_done r1 (wp_name x)" unfolding stored_ok_def by (metis in_set_conv_decomp)
      with nd show False by simp
    qed
    then have i: "inside opts inp pre x ds R d c r1" using b1 s1 E(1) by (simp add: inside_def)
    have main: "wf_ok opts inp (persist (put_step s' r1) (\<lambda>run1. or_throw (traced o' (step_started run1 s') (or_throw
           (step_attempts o' x \<lparr>wt_input = inp, wt_steps = R\<rparr>
             (\<lambda>run2 s2 v. step_completed pf o' (run_steps pf o' ds \<lparr>wt_input = inp, wt_steps = AList.update (sn_name s2) v R\<rparr>) run2 s2 v)
             (step_failed pf o') n run1 s'))))) d c"
      if s': "s' = s\<lparr>sn_status := StRunning, sn_startedAt := Some now\<rparr>" for s' now n
    proof -
      have m: "sn_name s' = wp_name x" "sn_status s' \<noteq> StCompleted" "tries r1 (wp_name x) \<le> sn_attempts s'" "sn_status s' = StRunning"
        using E(1,2) s' by (simp_all add: tries_def)
      have lx: "lookup (put_step s' r1) (wp_name x) = Some s'" using E(1) m(1) by auto
      have put: "inside opts inp pre x ds R d c (put_step s' r1)"
        using put_open(2) [OF i m(1-3), of WRunning] nd by simp
      have "wf_ok opts inp (step_attempts o' x \<lparr>wt_input = inp, wt_steps = R\<rparr>
             (\<lambda>run2 s2 v. step_completed pf o' (run_steps pf o' ds \<lparr>wt_input = inp, wt_steps = AList.update (sn_name s2) v R\<rparr>) run2 s2 v)
             (step_failed pf o') n q s') q c" if q: "q = (put_step s' r1)\<lparr>wr_updatedAt := a\<rparr>" for q a
      proof (rule attempts_ok [OF _ _ m(4)])
        show "inside opts inp pre x ds R q c q" unfolding q by (rule inside_saved [OF inside_updated [OF put]])
        show "lookup q (wp_name x) = Some s'" unfolding q lookup_update by (rule lx)
        fix d c r s v
        assume a: "inside opts inp pre x ds R d c r" "lookup r (wp_name x) = Some s"
        then show "wf_ok opts inp (step_failed pf o' r s e) d c" for e by (rule failed_ok)
        assume st: "sn_status s = StRunning"
          and call: "\<lparr>ca_step = wp_name x, ca_state = \<lparr>wt_input = inp, wt_steps = R\<rparr>, ca_answer = Some (Returned v)\<rparr> \<in> set c"
        have "\<not> step_done r (wp_name x)" using a(2) st by (simp add: step_done_def)
        then show "wf_ok opts inp (step_completed pf o' (run_steps pf o' ds \<lparr>wt_input = inp, wt_steps = AList.update (sn_name s) v R\<rparr>) r s v) d c"
          unfolding lookup_name [OF a(2)] upd by (intro completed_ok [OF a _ call] Cons.IH)
      qed
      moreover have "stored_ok opts inp ((put_step s' r1)\<lparr>wr_updatedAt := a\<rparr>) c" "kept d ((put_step s' r1)\<lparr>wr_updatedAt := a\<rparr>)" for a
        using insideD(4,7) [OF inside_updated [OF put, of a]] by simp_all
      ultimately show ?thesis
        unfolding wf_ok_persist using insideD(5) [OF i] by (auto intro!: wf_ok_traced split: sum.split)
    qed
    show ?thesis using False by (simp add: e Let_def main)
  qed
qed

lemma execute_ok:
  assumes "stored_ok opts inp d c" and "wr_status d = WRunning" and "distinct_steps opts"
  shows "wf_ok opts inp (executeWorkflowRun pf opts d) d c"
proof -
  have so: "stored_ok opts inp (d\<lparr>wr_status := WRunning, wr_updatedAt := a\<rparr>) c" "kept d (d\<lparr>wr_status := WRunning, wr_updatedAt := a\<rparr>)" for a
    using assms(1,2) by (auto intro: stored_ok_lookup kept_lookup [OF kept_refl])
  then have "between opts inp [] (wo_steps opts) (d\<lparr>wr_status := WRunning, wr_updatedAt := a\<rparr>) c (d\<lparr>wr_status := WRunning, wr_updatedAt := a\<rparr>)" for a
    using assms(3) by (simp add: between_def)
  then have "wf_ok opts inp (run_steps pf opts (wo_steps opts) \<lparr>wt_input = inp, wt_steps = []\<rparr> (d\<lparr>wr_status := WRunning, wr_updatedAt := a\<rparr>))
      (d\<lparr>wr_status := WRunning, wr_updatedAt := a\<rparr>) c" for a
    by (rule steps_ok) (simp add: seen_def)
  moreover have "wr_input d = inp" using assms(1) by (simp add: stored_ok_def)
  ultimately show ?thesis
    using so assms(2) unfolding executeWorkflowRun_def wf_ok_persist by (auto intro!: wf_ok_traced split: sum.split)
qed

section \<open>Reachable states\<close>

definition wf_inv :: "wf_options \<Rightarrow> js \<Rightarrow> wf_sys \<Rightarrow> bool" where
  "wf_inv opts inp s \<longleftrightarrow> stored_ok opts inp (wy_disk s) (wy_calls s) \<and>
     (case wy_prog s of None \<Rightarrow> True | Some p \<Rightarrow> wf_ok opts inp p (wy_disk s) (wy_calls s))"

lemma find_created: "find (\<lambda>s. sn_name s = n) (map (\<lambda>d. new_step (wp_name d)) ds) = Some s \<Longrightarrow> s = new_step n"
  by (induction ds) (auto simp: new_step_def split: if_splits)

lemma created_fields:
  "\<not> step_done (createWorkflowRun i w ds inp now) n" "wr_status (createWorkflowRun i w ds inp now) = WRunning"
  "wr_input (createWorkflowRun i w ds inp now) = inp"
proof -
  have "lookup (createWorkflowRun i w ds inp now) n = None \<or> lookup (createWorkflowRun i w ds inp now) n = Some (new_step n)"
    by (cases "lookup (createWorkflowRun i w ds inp now) n") (auto simp: createWorkflowRun_def lookup_def dest: find_created)
  then show "\<not> step_done (createWorkflowRun i w ds inp now) n" by (auto simp: step_done_def new_step_def)
qed (simp_all add: createWorkflowRun_def)

lemma wf_inv_created: "wf_inv opts inp (wf_created i w opts inp now)"
  by (simp add: wf_inv_def wf_created_def stored_ok_def created_fields calls_of_def)

lemma move_inv: "wf_move pf opts s t \<Longrightarrow> distinct_steps opts \<Longrightarrow> wf_inv opts inp s \<Longrightarrow> wf_inv opts inp t"
  by (induction rule: wf_move.induct) (auto simp: wf_inv_def intro: execute_ok)

lemma reach_wf_inv: "(wf_move pf opts)\<^sup>*\<^sup>* s t \<Longrightarrow> distinct_steps opts \<Longrightarrow> wf_inv opts inp s \<Longrightarrow> wf_inv opts inp t"
  by (induction rule: rtranclp_induct) (auto intro: move_inv)

text \<open>What is settled stays: a completed step keeps its result and is not called again, unless the run failed.\<close>

definition settled :: "wf_sys \<Rightarrow> wf_sys \<Rightarrow> string \<Rightarrow> bool" where
  "settled s t n \<longleftrightarrow> calls_of (wy_calls t) n = calls_of (wy_calls s) n \<and>
     (wr_status (wy_disk t) = WFailed \<or> step_done (wy_disk t) n \<and> result_of (wy_disk t) n = result_of (wy_disk s) n)"

lemma move_settled:
  assumes "wf_move pf opts t u" and "wf_inv opts inp t" and "settled s t n" and "distinct_steps opts"
  shows "settled s u n"
  using assms by (induction rule: wf_move.induct) (auto simp: wf_inv_def settled_def kept_def)

lemma reach_settled:
  assumes "(wf_move pf opts)\<^sup>*\<^sup>* s t" and "distinct_steps opts" and "wf_inv opts inp s" and "step_done (wy_disk s) n"
  shows "settled s t n"
  using assms
proof (induction rule: rtranclp_induct)
  case (step t u)
  then show ?case by (meson move_settled reach_wf_inv)
qed (simp add: settled_def)

section \<open>The budget of an execution\<close>

primrec at_most :: "string \<Rightarrow> wf_prog \<Rightarrow> nat \<Rightarrow> bool" where
  "at_most n (WfReturn r) b = True"
| "at_most n (WfThrow e) b = True"
| "at_most n (WfClock k) b = (\<forall>now. at_most n (k now) b)"
| "at_most n (WfTrace tc k) b = (\<forall>r. at_most n (k r) b)"
| "at_most n (WfLog j k) b = (\<forall>r. at_most n (k r) b)"
| "at_most n (WfSleep ms k) b = at_most n k b"
| "at_most n (WfSave run k) b = (\<forall>r. at_most n (k r) b)"
| "at_most n (WfHandle m ctx st tm k) b = (if m = n then 0 < b \<and> (\<forall>a. at_most n (k a) (b - 1)) else (\<forall>a. at_most n (k a) b))"

lemma at_most_mono: "at_most n p b \<Longrightarrow> b \<le> b' \<Longrightarrow> at_most n p b'"
proof (induction p arbitrary: b b')
  case (WfHandle m ctx st tm k)
  have "at_most n (k a) c \<Longrightarrow> c \<le> c' \<Longrightarrow> at_most n (k a) c'" for a c c' using WfHandle.IH [of "k a"] by simp
  moreover have "b - 1 \<le> b' - 1" using WfHandle.prems(2) by simp
  ultimately show ?case using WfHandle.prems by (cases "m = n") auto
qed (simp_all, (metis rangeI)+)

lemma at_most_simps [simp]:
  "at_most n (or_throw p r) b \<longleftrightarrow> (case r of Inl _ \<Rightarrow> True | Inr _ \<Rightarrow> at_most n p b)"
  "at_most n (pause o' p) b \<longleftrightarrow> at_most n p b"
  by (simp_all add: or_throw_def pause_def split: sum.split)

lemma at_most_traced: "(\<And>r. at_most n (k r) b) \<Longrightarrow> at_most n (traced o' tc k) b"
  by (simp add: traced_def)

lemma at_most_persist: "(\<And>run r. at_most n (k run r) b) \<Longrightarrow> at_most n (persist run k) b"
  by (simp add: persist_def)

lemma at_most_failed: "at_most n (step_failed pf o' r s e) b"
  unfolding step_failed_def traceWorkflowStepFailed_def writeWorkflowErrorLog_def Let_def
  by (auto intro!: at_most_persist at_most_traced split: sum.split)

lemma at_most_completed: "(\<And>r. at_most n (k r) b) \<Longrightarrow> at_most n (step_completed pf o' k r s v) b"
  unfolding step_completed_def Let_def
  by (auto intro!: at_most_persist at_most_traced at_most_failed split: sum.split)

lemma at_most_attempts:
  assumes "\<And>r s v b. a \<le> b \<Longrightarrow> at_most n (good r s v) b" and "N = wp_name x"
  shows "at_most n (step_attempts o' x st good (step_failed pf o') m r s) (if N = n then a + Suc m else a)"
proof (induction m arbitrary: r s)
  case 0
  show ?case unfolding step_attempts.simps Let_def assms(2) [symmetric]
    by (auto intro!: at_most_persist at_most_failed assms(1) split: sum.split answer.split)
next
  case (Suc m)
  have "at_most n (step_attempts o' x st good (step_failed pf o') m r s) (a + Suc m)" for r s
    using Suc [of r s] by (rule at_most_mono) simp
  moreover from this have "at_most n (step_attempts o' x st good (step_failed pf o') m r s) (a + Suc (Suc m))" for r s
    by (rule at_most_mono) simp
  ultimately show ?case using Suc unfolding step_attempts.simps Let_def assms(2) [symmetric]
    by (cases "N = n") (auto intro!: at_most_persist assms(1) split: sum.split answer.split)
qed

definition budget :: "wf_step list \<Rightarrow> string \<Rightarrow> nat" where
  "budget ds n = sum_list (map (\<lambda>d. if wp_name d = n then Suc (retries_of d) else 0) ds)"

lemma at_most_steps: "at_most n (run_steps pf o' ds st r) (budget ds n)"
proof (induction ds arbitrary: st r)
  case Nil
  show ?case by (auto intro!: at_most_persist at_most_traced split: sum.split)
next
  case (Cons x ds)
  obtain r1 s where e: "ensureStepRun r (wp_name x) = (r1, s)" by fastforce
  let ?b = "if wp_name x = n then budget ds n + Suc (retries_of x) else budget ds n"
  have b: "budget (x # ds) n = ?b" by (simp add: budget_def)
  have skip: "at_most n (run_steps pf o' ds st r) ?b" for st r
    using Cons.IH by (rule at_most_mono) simp
  have "at_most n (step_attempts o' x st (\<lambda>run2 s2 v. step_completed pf o'
      (run_steps pf o' ds (st\<lparr>wt_steps := AList.update (sn_name s2) v (wt_steps st)\<rparr>)) run2 s2 v)
      (step_failed pf o') (retries_of x) r s) ?b" for r s
    by (rule at_most_attempts [OF _ refl]) (rule at_most_completed, rule at_most_mono [OF Cons.IH])
  with skip show ?case
    unfolding b by (auto simp: e Let_def intro!: at_most_persist at_most_traced split: sum.split)
qed

lemma at_most_execute: "at_most n (executeWorkflowRun pf opts d) (budget (wo_steps opts) n)"
  unfolding executeWorkflowRun_def
  by (auto intro!: at_most_persist at_most_traced at_most_steps split: sum.split)

text \<open>Counted from \<open>c\<close> calls and \<open>k\<close> starts on, with no execution under way: what the executions since then
  have called, and what the one under way may still call, is within their budgets.\<close>

definition budget_inv :: "wf_options \<Rightarrow> string \<Rightarrow> nat \<Rightarrow> nat \<Rightarrow> wf_sys \<Rightarrow> bool" where
  "budget_inv opts n c k s \<longleftrightarrow> k \<le> wy_starts s \<and> (case wy_prog s of
      None \<Rightarrow> calls_of (wy_calls s) n \<le> c + (wy_starts s - k) * budget (wo_steps opts) n
    | Some p \<Rightarrow> (\<exists>b. at_most n p b \<and> calls_of (wy_calls s) n + b \<le> c + (wy_starts s - k) * budget (wo_steps opts) n))"

lemma move_budget: "wf_move pf opts s t \<Longrightarrow> budget_inv opts n c k s \<Longrightarrow> budget_inv opts n c k t"
proof (induction rule: wf_move.induct)
  case (started s)
  then show ?case
    using at_most_execute [of n pf opts "wy_disk s"]
    by (auto simp: budget_inv_def Suc_diff_le intro!: exI [of _ "budget (wo_steps opts) n"])
next
  case (handled s m ctx st tm kh a)
  then obtain b where b: "at_most n (WfHandle m ctx st tm kh) b" "k \<le> wy_starts s"
    "calls_of (wy_calls s) n + b \<le> c + (wy_starts s - k) * budget (wo_steps opts) n"
    by (auto simp: budget_inv_def)
  show ?case
  proof (cases "m = n")
    case True
    with b have "at_most n (kh a) (b - 1)" "0 < b" by (auto split: if_splits)
    with b True show ?thesis by (auto simp: budget_inv_def intro!: exI [of _ "b - 1"])
  next
    case False
    with b show ?thesis by (auto simp: budget_inv_def intro!: exI [of _ b])
  qed
qed (auto simp: budget_inv_def split: option.splits if_splits)

lemma reach_budget: "(wf_move pf opts)\<^sup>*\<^sup>* s t \<Longrightarrow> budget_inv opts n c k s \<Longrightarrow> budget_inv opts n c k t"
  by (induction rule: rtranclp_induct) (auto intro: move_budget)

end
