(* ===== verification/Workflow_Properties.thy ===== *)
theory Workflow_Properties
  imports Workflow_Laws Database_Properties
begin

text \<open>
  The properties of workflow runs under crashes, lost answers of saves and failing handlers: stored
  results come from handlers that saw the stored results before them, a stored result is final, the
  handler calls are bounded, and a run that was interrupted anywhere ends with the results of a run
  that was not.
\<close>

section \<open>A healthy host\<close>

text \<open>Every call answers; the handler of a step is the function \<open>h\<close> of its name and state.\<close>

primrec wf_drive :: "string \<Rightarrow> (string \<Rightarrow> wf_state \<Rightarrow> js) \<Rightarrow> wf_prog \<Rightarrow> thrown + wf_run" where
  "wf_drive now h (WfReturn r) = Inr r"
| "wf_drive now h (WfThrow e) = Inl e"
| "wf_drive now h (WfClock k) = wf_drive now h (k now)"
| "wf_drive now h (WfTrace c k) = wf_drive now h (k (Inr ()))"
| "wf_drive now h (WfLog j k) = wf_drive now h (k (Inr ()))"
| "wf_drive now h (WfSleep ms k) = wf_drive now h k"
| "wf_drive now h (WfSave run k) = wf_drive now h (k (Inr ()))"
| "wf_drive now h (WfHandle n ctx st tm k) = wf_drive now h (k (Returned (h n st)))"

text \<open>One step of that host, as a move of the system.\<close>

definition wf_next :: "platform \<Rightarrow> wf_options \<Rightarrow> string \<Rightarrow> (string \<Rightarrow> wf_state \<Rightarrow> js) \<Rightarrow> wf_sys \<Rightarrow> wf_sys" where
  "wf_next pf opts now h s = (case wy_prog s of
      None \<Rightarrow> if wr_status (wy_disk s) = WRunning
        then s\<lparr>wy_prog := Some (executeWorkflowRun pf opts (wy_disk s)), wy_starts := Suc (wy_starts s)\<rparr> else s
    | Some (WfClock k) \<Rightarrow> s\<lparr>wy_prog := Some (k now)\<rparr>
    | Some (WfTrace c k) \<Rightarrow> s\<lparr>wy_prog := Some (k (Inr ()))\<rparr>
    | Some (WfLog j k) \<Rightarrow> s\<lparr>wy_prog := Some (k (Inr ()))\<rparr>
    | Some (WfSleep ms k) \<Rightarrow> s\<lparr>wy_prog := Some k\<rparr>
    | Some (WfSave run k) \<Rightarrow> s\<lparr>wy_disk := run, wy_prog := Some (k (Inr ()))\<rparr>
    | Some (WfHandle n ctx st tm k) \<Rightarrow>
        s\<lparr>wy_calls := wy_calls s @ [\<lparr>ca_step = n, ca_state = st, ca_answer = Some (Returned (h n st))\<rparr>], wy_prog := Some (k (Returned (h n st)))\<rparr>
    | Some _ \<Rightarrow> s)"

lemma next_move: "(wf_move pf opts)\<^sup>*\<^sup>* s (wf_next pf opts now h s)"
proof (cases "wy_prog s")
  case None
  then show ?thesis using wf_move.started [of s pf opts] by (auto simp: wf_next_def)
next
  case (Some p)
  then show ?thesis
    by (cases p) (auto simp: wf_next_def intro: r_into_rtranclp wf_move.intros(3-7,9))
qed

lemma nexts_move: "(wf_move pf opts)\<^sup>*\<^sup>* s ((wf_next pf opts now h ^^ n) s)"
  by (induction n) (auto intro: rtranclp_trans next_move)

definition answered :: "(string \<Rightarrow> wf_state \<Rightarrow> js) \<Rightarrow> wf_call list \<Rightarrow> bool" where
  "answered h c \<longleftrightarrow> (\<forall>ca \<in> set c. \<forall>v. ca_answer ca = Some (Returned v) \<longrightarrow> v = h (ca_step ca) (ca_state ca))"

lemma drive_moves:
  "wf_drive now h p = Inr r \<Longrightarrow> wy_prog s = Some p \<Longrightarrow> answered h (wy_calls s) \<Longrightarrow>
    \<exists>t. (wf_move pf opts)\<^sup>*\<^sup>* s t \<and> wy_prog t = Some (WfReturn r) \<and> answered h (wy_calls t)"
proof (induction p arbitrary: s)
  case (WfReturn q)
  then show ?case by (intro exI [of _ s]) simp
next
  case (WfClock k)
  with WfClock.IH [of "k now" "s\<lparr>wy_prog := Some (k now)\<rparr>"] wf_move.clocked [of s k pf opts now]
  show ?case by (auto intro: converse_rtranclp_into_rtranclp)
next
  case (WfTrace c k)
  with WfTrace.IH [of "k (Inr ())" "s\<lparr>wy_prog := Some (k (Inr ()))\<rparr>"] wf_move.traced [of s c k pf opts "Inr ()"]
  show ?case by (auto intro: converse_rtranclp_into_rtranclp)
next
  case (WfLog j k)
  with WfLog.IH [of "k (Inr ())" "s\<lparr>wy_prog := Some (k (Inr ()))\<rparr>"] wf_move.logged [of s j k pf opts "Inr ()"]
  show ?case by (auto intro: converse_rtranclp_into_rtranclp)
next
  case (WfSleep ms k)
  then have "\<exists>t. (wf_move pf opts)\<^sup>*\<^sup>* (s\<lparr>wy_prog := Some k\<rparr>) t \<and> wy_prog t = Some (WfReturn r) \<and> answered h (wy_calls t)"
    by (intro WfSleep.IH) simp_all
  with wf_move.slept [OF WfSleep.prems(2), of pf opts] show ?case by (auto intro: converse_rtranclp_into_rtranclp)
next
  case (WfSave run k)
  with WfSave.IH [of "k (Inr ())" "s\<lparr>wy_disk := run, wy_prog := Some (k (Inr ()))\<rparr>"] wf_move.saved [of s run k pf opts "Inr ()"]
  show ?case by (auto intro: converse_rtranclp_into_rtranclp)
next
  case (WfHandle n ctx st tm k)
  let ?t = "s\<lparr>wy_calls := wy_calls s @ [\<lparr>ca_step = n, ca_state = st, ca_answer = Some (Returned (h n st))\<rparr>],
      wy_prog := Some (k (Returned (h n st)))\<rparr>"
  have "wf_move pf opts s ?t" by (rule wf_move.handled) (use WfHandle.prems(2) in auto)
  moreover have "answered h (wy_calls ?t)" using WfHandle.prems(3) by (auto simp: answered_def)
  then have "\<exists>t. (wf_move pf opts)\<^sup>*\<^sup>* ?t t \<and> wy_prog t = Some (WfReturn r) \<and> answered h (wy_calls t)"
    using WfHandle.IH [of "k (Returned (h n st))" ?t] WfHandle.prems(1) by simp
  ultimately show ?case by (auto intro: converse_rtranclp_into_rtranclp)
qed simp

text \<open>It completes every run.\<close>

lemma drive_simps [simp]:
  "wf_drive now h (persist run k) = wf_drive now h (k (run\<lparr>wr_updatedAt := now\<rparr>) (Inr ()))"
  "wf_drive now h (traced opts c kt) = wf_drive now h (kt (Inr ()))"
  "wf_drive now h (pause opts p) = wf_drive now h p"
  by (simp_all add: persist_def traced_def pause_def)

lemma drive_attempts:
  "\<exists>r' s'. wf_drive now h (step_attempts opts d st good bad n r s) = wf_drive now h (good r' s' (h (wp_name d) st))"
  by (cases n) (auto simp: Let_def)

lemma drive_steps: "\<exists>r'. wf_drive now h (run_steps pf opts ds st r) = Inr r' \<and> wr_status r' = WCompleted"
proof (induction ds arbitrary: st r)
  case Nil
  then show ?case by (simp add: or_throw_def)
next
  case (Cons d ds)
  obtain r1 s where e: "ensureStepRun r (wp_name d) = (r1, s)" by fastforce
  have "\<exists>r'. wf_drive now h (step_completed pf opts (run_steps pf opts ds st') r s v) = Inr r' \<and> wr_status r' = WCompleted" for st' r s v
    using Cons.IH by (simp add: step_completed_def Let_def)
  then have "\<exists>r'. wf_drive now h (step_attempts opts d st (\<lambda>run2 s2 v. step_completed pf opts
      (run_steps pf opts ds (st\<lparr>wt_steps := AList.update (sn_name s2) v (wt_steps st)\<rparr>)) run2 s2 v) bad n r s) = Inr r' \<and>
      wr_status r' = WCompleted" for bad n r s
    using drive_attempts [of now h opts d st "\<lambda>run2 s2 v. step_completed pf opts
      (run_steps pf opts ds (st\<lparr>wt_steps := AList.update (sn_name s2) v (wt_steps st)\<rparr>)) run2 s2 v" bad n r s] by auto
  then show ?case using Cons.IH by (simp add: e Let_def or_throw_def)
qed

lemma drive_execute: "\<exists>r'. wf_drive now h (executeWorkflowRun pf opts r) = Inr r' \<and> wr_status r' = WCompleted"
  using drive_steps by (simp add: executeWorkflowRun_def or_throw_def)

text \<open>The results of the steps one after the other, with nothing stored or interrupted.\<close>

fun sequential :: "(string \<Rightarrow> wf_state \<Rightarrow> js) \<Rightarrow> js \<Rightarrow> wf_step list \<Rightarrow> (string \<times> js) list \<Rightarrow> (string \<times> js) list" where
  "sequential h input [] results = results"
| "sequential h input (d # ds) results =
     sequential h input ds (results @ [(wp_name d, h (wp_name d) \<lparr>wt_input = input, wt_steps = results\<rparr>)])"

lemma seen_sequential:
  assumes "stored_ok opts inp d c" and "answered h c" and "\<forall>x \<in> set (wo_steps opts). step_done d (wp_name x)"
  shows "wo_steps opts = pre @ ds \<Longrightarrow> sequential h inp ds (seen d pre) = seen d (wo_steps opts)"
proof (induction ds arbitrary: pre)
  case (Cons x ds)
  then have "step_done d (wp_name x)" using assms(3) by simp
  with assms(1) Cons.prems have "\<lparr>ca_step = wp_name x, ca_state = \<lparr>wt_input = inp, wt_steps = seen d pre\<rparr>,
      ca_answer = Some (Returned (result_of d (wp_name x)))\<rparr> \<in> set c"
    unfolding stored_ok_def by blast
  with assms(2) have "result_of d (wp_name x) = h (wp_name x) \<lparr>wt_input = inp, wt_steps = seen d pre\<rparr>"
    by (fastforce simp: answered_def)
  with Cons.IH [of "pre @ [x]"] Cons.prems show ?case by (simp add: seen_def)
qed simp

section \<open>An example\<close>

definition two_steps :: wf_options where
  "two_steps = \<lparr>wo_steps = [\<lparr>wp_name = ''a'', wp_retries = Some 1, wp_timeoutMs = None\<rparr>,
     \<lparr>wp_name = ''b'', wp_retries = None, wp_timeoutMs = Some 5\<rparr>], wo_traces = False, wo_retryDelayMs = None\<rparr>"

definition count_results :: "string \<Rightarrow> wf_state \<Rightarrow> js" where
  "count_results n st = JArr (wt_input st # map snd (wt_steps st))"

definition two_created :: wf_sys where
  "two_created = wf_created ''r'' ''w'' two_steps JNull ''0''"

text \<open>The process stops after the first step has been stored.\<close>

definition two_stopped :: wf_sys where
  "two_stopped = ((wf_next plain_pf two_steps ''1'' count_results ^^ 13) two_created)\<lparr>wy_prog := None\<rparr>"

lemma two_reached: "(wf_move plain_pf two_steps)\<^sup>*\<^sup>* two_created two_stopped"
  unfolding two_stopped_def by (rule rtranclp.rtrancl_into_rtrancl [OF nexts_move wf_move.crashed])

lemma two_distinct: "distinct_steps two_steps"
  by (simp add: distinct_steps_def two_steps_def)

text \<open>
  Evaluating a program one call at a time: as congruence rules, these keep the simplifier out of what
  follows a call until the call is answered.
\<close>

lemma wf_lazy:
  "WfClock k = WfClock k" "WfSave r ks = WfSave r ks" "WfHandle n ctx st tm kh = WfHandle n ctx st tm kh"
  "WfTrace c kt = WfTrace c kt" "WfLog j kl = WfLog j kl" "persist r kp = persist r kp" "traced opts c kq = traced opts c kq"
  "or_throw p q = or_throw p q" "pause opts p = pause opts p"
  "step_completed pf opts kc r s v = step_completed pf opts kc r s v"
  by (rule refl)+

lemma attempts_lazy: "m = m' \<Longrightarrow> step_attempts opts d st good bad m r s = step_attempts opts d st good bad m' r s"
  by simp

lemmas wf_eval = wf_next_def executeWorkflowRun_def persist_def traced_def or_throw_def ensureStepRun_def put_step_def
  step_completed_def retries_of_def step_ctx_def Let_def

lemma two_stopped_eq:
  "two_stopped = \<lparr>wy_disk = \<lparr>wr_runId = ''r'', wr_workflow = ''w'', wr_status = WRunning, wr_input = JNull,
       wr_steps = [(new_step ''a'')\<lparr>sn_status := StCompleted, sn_attempts := 1, sn_result := JArr [JNull],
          sn_startedAt := Some ''1'', sn_completedAt := Some ''1''\<rparr>, new_step ''b''],
       wr_createdAt = ''0'', wr_updatedAt = ''1''\<rparr>,
     wy_prog = None,
     wy_calls = [\<lparr>ca_step = ''a'', ca_state = \<lparr>wt_input = JNull, wt_steps = []\<rparr>, ca_answer = Some (Returned (JArr [JNull]))\<rparr>],
     wy_starts = 1\<rparr>"
  by (simp add: two_stopped_def eval_nat_numeral two_created_def wf_created_def createWorkflowRun_def two_steps_def new_step_def
      count_results_def wf_eval cong: wf_lazy attempts_lazy)

lemma two_done: "step_done (wy_disk two_stopped) ''a''" "wr_status (wy_disk two_stopped) = WRunning"
  "answered count_results (wy_calls two_stopped)"
  by (simp_all add: two_stopped_eq step_done_def lookup_def answered_def count_results_def new_step_def)

section \<open>Stored results\<close>

text \<open>C31: A stored result is the answer of a handler that saw the stored results before it: in every
  reachable state, if a step is stored as completed, then so are the steps before it in the
  definition, and its handler was called with the input and exactly their stored results and returned
  the stored result; and a run stored as completed has completed all its steps.\<close>

theorem workflow_results:
  assumes "distinct_steps opts" and "(wf_move pf opts)\<^sup>*\<^sup>* (wf_created i w opts inp now) t"
  shows "(\<forall>pre x post. wo_steps opts = pre @ x # post \<and> step_done (wy_disk t) (wp_name x) \<longrightarrow>
      (\<forall>y \<in> set pre. step_done (wy_disk t) (wp_name y)) \<and>
      \<lparr>ca_step = wp_name x, ca_state = \<lparr>wt_input = inp, wt_steps = seen (wy_disk t) pre\<rparr>,
        ca_answer = Some (Returned (result_of (wy_disk t) (wp_name x)))\<rparr> \<in> set (wy_calls t)) \<and>
    (wr_status (wy_disk t) = WCompleted \<longrightarrow> (\<forall>x \<in> set (wo_steps opts). step_done (wy_disk t) (wp_name x)))"
proof -
  have "wf_inv opts inp t" using assms wf_inv_created by (auto intro: reach_wf_inv)
  then show ?thesis unfolding wf_inv_def stored_ok_def by blast
qed

theorem workflow_results_witness:
  "\<lparr>ca_step = ''a'', ca_state = \<lparr>wt_input = JNull, wt_steps = []\<rparr>,
    ca_answer = Some (Returned (result_of (wy_disk two_stopped) ''a''))\<rparr> \<in> set (wy_calls two_stopped)"
proof -
  obtain x post where x: "wo_steps two_steps = [] @ x # post" "wp_name x = ''a''"
    by (simp add: two_steps_def)
  from workflow_results [OF two_distinct two_reached [unfolded two_created_def]] x two_done(1)
  show ?thesis by (force simp: seen_def)
qed

text \<open>C32: A stored result is final: once a step is stored as completed, its handler is never called
  again, through any number of crashes and restarts, and the step keeps its result unless the run is
  marked as failed.\<close>

theorem workflow_step_once:
  assumes "distinct_steps opts" and "(wf_move pf opts)\<^sup>*\<^sup>* (wf_created i w opts inp now) s"
    and "step_done (wy_disk s) n" and "(wf_move pf opts)\<^sup>*\<^sup>* s t"
  shows "calls_of (wy_calls t) n = calls_of (wy_calls s) n \<and>
    (wr_status (wy_disk t) = WFailed \<or> step_done (wy_disk t) n \<and> result_of (wy_disk t) n = result_of (wy_disk s) n)"
proof -
  have "wf_inv opts inp s" using assms(1,2) wf_inv_created by (auto intro: reach_wf_inv)
  from reach_settled [OF assms(4,1) this assms(3)] show ?thesis by (simp add: settled_def)
qed

definition two_resumed :: wf_sys where
  "two_resumed = (wf_next plain_pf two_steps ''2'' count_results ^^ 20) two_stopped"

theorem workflow_step_once_witness:
  "calls_of (wy_calls two_resumed) ''a'' = calls_of (wy_calls two_stopped) ''a'' \<and>
    (wr_status (wy_disk two_resumed) = WFailed \<or>
      step_done (wy_disk two_resumed) ''a'' \<and> result_of (wy_disk two_resumed) ''a'' = result_of (wy_disk two_stopped) ''a'')"
  by (rule workflow_step_once [OF two_distinct two_reached [unfolded two_created_def] two_done(1)])
    (simp add: two_resumed_def nexts_move)

section \<open>Handler calls\<close>

text \<open>C33: Handler calls are counted and bounded per execution: in every reachable state the stored attempts
  of a step are at least the calls of its handler; and from any reachable state in which no execution is
  under way, the executions started from then on call the handler at most \<open>retries + 1\<close> times each - a
  single execution, whatever was left unused or used up before it, at most \<open>retries + 1\<close> times.\<close>

theorem workflow_calls_bounded:
  assumes "distinct_steps opts" and "(wf_move pf opts)\<^sup>*\<^sup>* (wf_created i w opts inp now) s"
    and "wy_prog s = None" and "(wf_move pf opts)\<^sup>*\<^sup>* s t" and "wo_steps opts = pre @ x # post"
  shows "calls_of (wy_calls t) (wp_name x) \<le> tries (wy_disk t) (wp_name x) \<and> wy_starts s \<le> wy_starts t \<and>
    calls_of (wy_calls t) (wp_name x) \<le>
      calls_of (wy_calls s) (wp_name x) + (wy_starts t - wy_starts s) * Suc (retries_of x)"
proof -
  let ?n = "wp_name x"
  from assms(2,4) have "(wf_move pf opts)\<^sup>*\<^sup>* (wf_created i w opts inp now) t" by simp
  then have "wf_inv opts inp t" using assms(1) wf_inv_created by (auto intro: reach_wf_inv)
  then have "calls_of (wy_calls t) ?n \<le> tries (wy_disk t) ?n"
    by (simp add: wf_inv_def stored_ok_def)
  moreover have "budget_inv opts ?n (calls_of (wy_calls s) ?n) (wy_starts s) t"
    by (rule reach_budget [OF assms(4)]) (simp add: budget_inv_def assms(3))
  then have "wy_starts s \<le> wy_starts t" and
    "calls_of (wy_calls t) ?n \<le> calls_of (wy_calls s) ?n + (wy_starts t - wy_starts s) * budget (wo_steps opts) ?n"
    by (auto simp: budget_inv_def split: option.splits)
  moreover have "budget (wo_steps opts) (wp_name x) = Suc (retries_of x)"
  proof -
    have "budget ds (wp_name x) = 0" if "wp_name x \<notin> wp_name ` set ds" for ds
      using that by (induction ds) (auto simp: budget_def)
    then have "budget pre (wp_name x) = 0" "budget post (wp_name x) = 0"
      using assms(1) unfolding distinct_steps_def assms(5) by simp_all
    moreover have "budget (pre @ x # post) (wp_name x) = budget pre (wp_name x) + Suc (retries_of x) + budget post (wp_name x)"
      by (simp add: budget_def)
    ultimately show ?thesis unfolding assms(5) by simp
  qed
  ultimately show ?thesis by simp
qed

text \<open>The execution that resumes the stopped run of two steps.\<close>

theorem workflow_calls_bounded_witness:
  "calls_of (wy_calls two_resumed) (wp_name \<lparr>wp_name = ''a'', wp_retries = Some 1, wp_timeoutMs = None\<rparr>) \<le>
      tries (wy_disk two_resumed) (wp_name \<lparr>wp_name = ''a'', wp_retries = Some 1, wp_timeoutMs = None\<rparr>) \<and>
    wy_starts two_stopped \<le> wy_starts two_resumed \<and>
    calls_of (wy_calls two_resumed) (wp_name \<lparr>wp_name = ''a'', wp_retries = Some 1, wp_timeoutMs = None\<rparr>) \<le>
      calls_of (wy_calls two_stopped) (wp_name \<lparr>wp_name = ''a'', wp_retries = Some 1, wp_timeoutMs = None\<rparr>) +
        (wy_starts two_resumed - wy_starts two_stopped) * Suc (retries_of \<lparr>wp_name = ''a'', wp_retries = Some 1, wp_timeoutMs = None\<rparr>)"
  by (rule workflow_calls_bounded [OF two_distinct two_reached [unfolded two_created_def], of _ "[]"])
    (simp_all add: two_steps_def two_resumed_def two_stopped_def nexts_move)

section \<open>Resuming\<close>

text \<open>C34: An interrupted run ends as an uninterrupted one: from every reachable stored state that is
  still running, whatever failed or crashed before, executing the run again on a healthy host
  completes it, and the results of its steps are those of calling the handlers once, one after the
  other, each with the results before it.\<close>

theorem workflow_resumes:
  assumes "distinct_steps opts" and "(wf_move pf opts)\<^sup>*\<^sup>* (wf_created i w opts inp now0) s"
    and "wr_status (wy_disk s) = WRunning" and "answered h (wy_calls s)"
  shows "\<exists>r. wf_drive now h (executeWorkflowRun pf opts (wy_disk s)) = Inr r \<and> wr_status r = WCompleted \<and>
    (\<forall>x \<in> set (wo_steps opts). step_done r (wp_name x)) \<and>
    seen r (wo_steps opts) = sequential h inp (wo_steps opts) []"
proof -
  obtain r where r: "wf_drive now h (executeWorkflowRun pf opts (wy_disk s)) = Inr r" "wr_status r = WCompleted"
    using drive_execute by blast
  let ?s = "s\<lparr>wy_prog := Some (executeWorkflowRun pf opts (wy_disk s)), wy_starts := Suc (wy_starts s)\<rparr>"
  have "wf_move pf opts s (s\<lparr>wy_prog := None\<rparr>)" by (rule wf_move.crashed)
  moreover have "wf_move pf opts (s\<lparr>wy_prog := None\<rparr>) ?s"
    using wf_move.started [of "s\<lparr>wy_prog := None\<rparr>" pf opts] assms(3) by simp
  moreover obtain t where t: "(wf_move pf opts)\<^sup>*\<^sup>* ?s t" "wy_prog t = Some (WfReturn r)" "answered h (wy_calls t)"
    using drive_moves [OF r(1), of ?s pf opts] assms(4) by auto
  ultimately have "(wf_move pf opts)\<^sup>*\<^sup>* (wf_created i w opts inp now0) t"
    using assms(2) by (meson rtranclp.rtrancl_into_rtrancl rtranclp_trans)
  then have "wf_inv opts inp t" using assms(1) wf_inv_created by (auto intro: reach_wf_inv)
  then have i: "stored_ok opts inp r (wy_calls t)" using t(2) by (simp add: wf_inv_def)
  then have d: "\<forall>x \<in> set (wo_steps opts). step_done r (wp_name x)" using r(2) by (simp add: stored_ok_def)
  have "sequential h inp (wo_steps opts) [] = seen r (wo_steps opts)"
    using seen_sequential [OF i t(3) d, of "[]"] by (simp add: seen_def)
  with r d show ?thesis by auto
qed

theorem workflow_resumes_witness:
  "\<exists>r. wf_drive ''2'' count_results (executeWorkflowRun plain_pf two_steps (wy_disk two_stopped)) = Inr r \<and> wr_status r = WCompleted \<and>
    (\<forall>x \<in> set (wo_steps two_steps). step_done r (wp_name x)) \<and>
    seen r (wo_steps two_steps) = sequential count_results JNull (wo_steps two_steps) []"
  by (rule workflow_resumes [OF two_distinct two_reached [unfolded two_created_def] two_done(2,3)])

end
