(* ===== verification/Account_State.thy ===== *)
theory Account_State
  imports Database_Commit
begin

text \<open>
  The state of one account in the cloud backend of the desktop application:
  \<open>mezair-app/cloud/backend/src/account-coordinator.ts\<close> keeps it in the SQLite tables of \<open>schema.ts\<close>,
  inside a durable object that handles one synchronous block at a time.

  \<^item> A table is the list of its rows in insertion order. A column that holds a JSON document the code
    only writes and reads back (a stored result, a page, a plan) is the document; the payload of an
    entity is its JSON text, because the code compares and measures the text.
  \<^item> A row of \<open>sync_meta\<close> is a field. Counters are only read for diagnostics.
  \<^item> \<open>commit\<close> runs a computation in \<open>transactionSync\<close>: an exception undoes its writes.
  \<^item> The clock does not advance inside a synchronous block, so \<open>Date.now()\<close> is an argument; so are the
    random identifiers.
\<close>

section \<open>Errors (\<open>contract/envelope.ts\<close>, \<open>rpc.ts\<close>)\<close>

datatype rpc_code =
    E_unauthenticated | E_forbidden | E_conflict | E_payload_too_large | E_throttled | E_unavailable
  | E_malformed_request | E_unsupported_version | E_unsupported_operation | E_reset_required
  | E_receipt_expired | E_epoch_mismatch | E_not_found | E_quota_exceeded | E_stale_generation
  | E_invalid_transition

fun httpStatusForErrorCode :: "rpc_code \<Rightarrow> nat" where
  "httpStatusForErrorCode E_unauthenticated = 401"
| "httpStatusForErrorCode E_forbidden = 403"
| "httpStatusForErrorCode E_conflict = 409"
| "httpStatusForErrorCode E_reset_required = 409"
| "httpStatusForErrorCode E_receipt_expired = 409"
| "httpStatusForErrorCode E_epoch_mismatch = 409"
| "httpStatusForErrorCode E_stale_generation = 409"
| "httpStatusForErrorCode E_invalid_transition = 409"
| "httpStatusForErrorCode E_payload_too_large = 413"
| "httpStatusForErrorCode E_quota_exceeded = 413"
| "httpStatusForErrorCode E_throttled = 429"
| "httpStatusForErrorCode E_unavailable = 503"
| "httpStatusForErrorCode E_malformed_request = 400"
| "httpStatusForErrorCode E_unsupported_version = 400"
| "httpStatusForErrorCode E_unsupported_operation = 400"
| "httpStatusForErrorCode E_not_found = 404"

definition retryableFor :: "rpc_code \<Rightarrow> bool" where
  "retryableFor c \<longleftrightarrow> c \<in> {E_throttled, E_unavailable}"

text \<open>
  What a handler throws: an \<open>RpcFailure\<close> with its code and details, or another error (of SQLite or
  of a library), which the dispatcher reports as \<open>unavailable\<close>.
\<close>

datatype acct_exn = RpcFailure rpc_code js | OtherError string

definition fail_reason :: "rpc_code \<Rightarrow> string \<Rightarrow> acct_exn" where
  "fail_reason c r = RpcFailure c (JObj [(''reason'', JStr r)])"

abbreviation malformed :: "string \<Rightarrow> acct_exn" where
  "malformed r \<equiv> fail_reason E_malformed_request r"

definition unique_violation :: acct_exn where
  "unique_violation = OtherError ''UNIQUE constraint failed''"

definition jint :: "int \<Rightarrow> js" where
  "jint i = JNum (num_of_int i)"

definition jopt :: "('a \<Rightarrow> js) \<Rightarrow> 'a option \<Rightarrow> js" where
  "jopt f x = (case x of None \<Rightarrow> JNull | Some v \<Rightarrow> f v)"

section \<open>Rows\<close>

datatype sync_op = SyncCreate | SyncUpdate | SyncDelete

fun op_name :: "sync_op \<Rightarrow> string" where
  "op_name SyncCreate = ''create''"
| "op_name SyncUpdate = ''update''"
| "op_name SyncDelete = ''delete''"

definition isSyncOperation :: "js \<Rightarrow> sync_op option" where
  "isSyncOperation v =
     (if v = JStr ''create'' then Some SyncCreate else if v = JStr ''update'' then Some SyncUpdate
      else if v = JStr ''delete'' then Some SyncDelete else None)"

record auth =
  au_account :: string
  au_enrollment :: string
  au_class :: "string option"
  au_environment :: "string option"

record enrollment_row =
  enr_id :: string
  enr_account :: string
  enr_high_water :: int
  enr_created :: int
  enr_class :: string
  enr_environment :: "string option"

record entity_row =
  ent_type :: string
  ent_id :: string
  ent_revision :: int
  ent_operation :: sync_op
  ent_schema :: int
  ent_payload :: "string option"
  ent_sequence :: int
  ent_updated :: int

record change_row =
  chg_sequence :: int
  chg_type :: string
  chg_id :: string
  chg_revision :: int
  chg_operation :: sync_op
  chg_schema :: int
  chg_payload :: "string option"
  chg_created :: int

datatype push_result =
    Accepted string int "js option"
  | Conflicted string int js
  | Rejected string string
  | ResetRequired string string
  | ReceiptExpired string

record receipt_row =
  rcp_enrollment :: string
  rcp_sequence :: int
  rcp_change_id :: string
  rcp_status :: string
  rcp_revision :: "int option"
  rcp_hash :: string
  rcp_result :: push_result
  rcp_created :: int

record scanned =
  scd_type :: string
  scd_id :: string
  scd_revision :: int
  scd_operation :: sync_op
  scd_schema :: int
  scd_payload :: "js option"

record scan_page =
  pg_entities :: "scanned list"
  pg_next :: "string option"
  pg_done :: bool

record scan_row =
  scn_id :: string
  scn_start :: int
  scn_epoch :: string
  scn_created :: int
  scn_done :: bool
  scn_cursor :: "string option"
  scn_end :: "int option"
  scn_request :: "string option"
  scn_result :: "scan_page option"

record exported =
  exp_type :: string
  exp_id :: string
  exp_revision :: jsnum
  exp_schema :: jsnum
  exp_payload :: js

datatype import_outcome = ImpCreate | ImpIdentical | ImpConflict | ImpInvalid

record plan_entry =
  pl_entity :: exported
  pl_outcome :: import_outcome
  pl_reason :: "string option"

record import_result =
  ir_operation :: string
  ir_applied :: int
  ir_conflicts :: int
  ir_skipped :: int

record operation_row =
  dop_id :: string
  dop_kind :: string
  dop_state :: string
  dop_enrollment :: string
  dop_created :: int
  dop_watermark :: "int option"
  dop_cursor :: "string option"
  dop_plan :: "plan_entry list option"
  dop_result :: "import_result option"
  dop_finished :: "int option"

section \<open>The account\<close>

record account =
  meta_epoch :: string
  meta_next_sequence :: int
  meta_retention_floor :: int
  meta_key_version :: int
  meta_history_bytes :: int
  meta_compaction_target :: "int option"
  meta_fair_use :: "string option"
  active_snapshot :: "(string \<times> int) option"
  counters :: "(string \<times> int) list"
  enrollments :: "enrollment_row list"
  entities :: "entity_row list"
  changes :: "change_row list"
  receipts :: "receipt_row list"
  scans :: "scan_row list"
  operations :: "operation_row list"

definition SPIKE_INITIAL_EPOCH :: string where
  "SPIKE_INITIAL_EPOCH = ''spike-epoch-1''"

text \<open>The constructor of the coordinator on an object without tables.\<close>

definition new_account :: account where
  "new_account = \<lparr>meta_epoch = SPIKE_INITIAL_EPOCH, meta_next_sequence = 1, meta_retention_floor = 0,
     meta_key_version = 0, meta_history_bytes = 0, meta_compaction_target = None, meta_fair_use = None,
     active_snapshot = None, counters = [], enrollments = [], entities = [], changes = [],
     receipts = [], scans = [], operations = []\<rparr>"

text \<open>
  What the backend gets from outside: the platform, \<open>JSON.parse\<close> (\<open>None\<close> for a syntax error), the
  hash, and whether the deployment is a hosted one.
\<close>

record backend_env =
  be_pf :: platform
  be_json :: "string \<Rightarrow> js option"
  be_sha256 :: "string \<Rightarrow> string"
  be_hosted :: bool

type_synonym 'a acct = "(account, acct_exn, 'a) comp"

definition commit :: "'a acct \<Rightarrow> 'a acct" where
  "commit m s = (case m s of (Inl e, _) \<Rightarrow> (Inl e, s) | (Inr x, s') \<Rightarrow> (Inr x, s'))"

definition utf8ByteLength :: "string \<Rightarrow> int" where
  "utf8ByteLength t = int (length (utf8 t))"

definition json_parse :: "backend_env \<Rightarrow> string \<Rightarrow> acct_exn + js" where
  "json_parse env t = (case be_json env t of Some v \<Rightarrow> Inr v | None \<Rightarrow> Inl (OtherError ''SyntaxError''))"

definition currentWatermark :: "account \<Rightarrow> int" where
  "currentWatermark s = (if meta_next_sequence s > 1 then meta_next_sequence s - 1 else 0)"

definition bumpCounter :: "string \<Rightarrow> int \<Rightarrow> account \<Rightarrow> account" where
  "bumpCounter k n s =
     (if n = 0 then s
      else s\<lparr>counters := AList.update k ((case map_of (counters s) k of None \<Rightarrow> 0 | Some v \<Rightarrow> v) + n) (counters s)\<rparr>)"

definition addHistoryBytes :: "int \<Rightarrow> account \<Rightarrow> account" where
  "addHistoryBytes d s = s\<lparr>meta_history_bytes := max 0 (meta_history_bytes s + d)\<rparr>"

definition provisionEnrollment :: "int \<Rightarrow> auth \<Rightarrow> account \<Rightarrow> account" where
  "provisionEnrollment now au s =
     (if \<exists>r \<in> set (enrollments s). enr_id r = au_enrollment au then s
      else s\<lparr>enrollments := enrollments s @ [\<lparr>enr_id = au_enrollment au, enr_account = au_account au,
         enr_high_water = 0, enr_created = now,
         enr_class = (case au_class au of None \<Rightarrow> ''device'' | Some c \<Rightarrow> c),
         enr_environment = au_environment au\<rparr>]\<rparr>)"

definition readEnrollment :: "string \<Rightarrow> enrollment_row acct" where
  "readEnrollment i s = (case find (\<lambda>r. enr_id r = i) (enrollments s) of
     None \<Rightarrow> (Inl (OtherError ''Expected exactly one result from SQL query, but got no results.''), s)
   | Some r \<Rightarrow> (Inr r, s))"

definition readEntity :: "string \<Rightarrow> string \<Rightarrow> account \<Rightarrow> entity_row option" where
  "readEntity t i s = find (\<lambda>r. ent_type r = t \<and> ent_id r = i) (entities s)"

definition advanceHighWater :: "string \<Rightarrow> int \<Rightarrow> account \<Rightarrow> account" where
  "advanceHighWater i n s = s\<lparr>enrollments := map (\<lambda>r. if enr_id r = i \<and> enr_high_water r < n
     then r\<lparr>enr_high_water := n\<rparr> else r) (enrollments s)\<rparr>"

text \<open>\<open>Number.isInteger\<close> of a value whose type is known to be number, and the number as an integer.\<close>

definition num_integer :: "js \<Rightarrow> int option" where
  "num_integer v = (case v of JNum (Fin r) \<Rightarrow> if of_int \<lfloor>r\<rfloor> = r then Some \<lfloor>r\<rfloor> else None | _ \<Rightarrow> None)"

definition has_own :: "js \<Rightarrow> string \<Rightarrow> bool" where
  "has_own v k = (case v of JObj kvs \<Rightarrow> map_of kvs k \<noteq> None | _ \<Rightarrow> False)"

definition isRecord :: "js \<Rightarrow> bool" where
  "isRecord v \<longleftrightarrow> isObject v"

definition nonempty_str :: "js \<Rightarrow> bool" where
  "nonempty_str v \<longleftrightarrow> isString v \<and> js_str v \<noteq> []"

end
