(* ===== verification/Account_Sync.thy ===== *)
theory Account_Sync
  imports Account_State "HOL-Library.Product_Lexorder"
begin

text \<open>
  Synchronisation of an account: the push, pull and scan operations of
  \<open>account-coordinator.ts\<close>, with the request parsers at the end of that file, the payload checks of
  \<open>contract/sealed.ts\<close>, the canonical change text of \<open>contract/sync.ts\<close>, and the part of the
  retention sweep that works on the tables of the synchronisation.

  Every device pushes changes under its own increasing sequence numbers; the account keeps the head of
  each entity, the journal of changes with account-wide sequence numbers, and a receipt per pushed
  change. A device pulls the journal from its cursor, or scans all entities in pages and then pulls the
  changes made since the scan began.
\<close>

definition LIMIT_entityBytes :: int where
  "LIMIT_entityBytes = 65536"

definition LIMIT_pageBytes :: int where
  "LIMIT_pageBytes = 262144"

definition LIMIT_batchChanges :: int where
  "LIMIT_batchChanges = 50"

definition HISTORY_QUOTA_BYTES :: int where
  "HISTORY_QUOTA_BYTES = 64 * 1024 * 1024"

definition RETENTION_MS :: int where
  "RETENTION_MS = 90 * 24 * 60 * 60 * 1000"

definition SWEEP_BATCH_ROWS :: nat where
  "SWEEP_BATCH_ROWS = 500"

definition SNAPSHOT_LIFETIME_MS :: int where
  "SNAPSHOT_LIFETIME_MS = 15 * 60 * 1000"

definition SYNC_SNAPSHOT_MAX_KEY_VERSION :: int where
  "SYNC_SNAPSHOT_MAX_KEY_VERSION = 2 ^ 31 - 1"

section \<open>Request parameters\<close>

record pending_change =
  pc_change_id :: string
  pc_sequence :: int
  pc_type :: string
  pc_id :: string
  pc_schema :: int
  pc_base :: "int option"
  pc_operation :: sync_op
  pc_payload :: "js option"
  pc_hash :: string

definition HASH_PATTERN :: "string \<Rightarrow> bool" where
  "HASH_PATTERN s \<longleftrightarrow> length s = 64 \<and> list_all (\<lambda>c. is_digit c \<or> (97 \<le> code c \<and> code c \<le> 102)) s"

definition positive_integer :: "js \<Rightarrow> int option" where
  "positive_integer v = (case num_integer v of Some i \<Rightarrow> if i < 1 then None else Some i | None \<Rightarrow> None)"

definition parse_base :: "js \<Rightarrow> int option option" where
  "parse_base v = (if v = JNull then Some None else map_option Some (num_integer v))"

definition parsePendingChange :: "js \<Rightarrow> acct_exn + pending_change" where
  "parsePendingChange v =
     (if \<not> isRecord v then Inl (malformed ''change-object'')
      else if \<not> nonempty_str (jget v ''changeId'') then Inl (malformed ''changeId'')
      else (case positive_integer (jget v ''enrollmentSequence'') of
        None \<Rightarrow> Inl (malformed ''enrollmentSequence'')
      | Some n \<Rightarrow>
        if \<not> nonempty_str (jget v ''entityType'') then Inl (malformed ''entityType'')
        else if \<not> nonempty_str (jget v ''entityId'') then Inl (malformed ''entityId'')
        else (case positive_integer (jget v ''schemaVersion'') of
          None \<Rightarrow> Inl (malformed ''schemaVersion'')
        | Some schema \<Rightarrow>
          (case parse_base (jget v ''baseRevision'') of
            None \<Rightarrow> Inl (malformed ''baseRevision'')
          | Some base \<Rightarrow>
            (case isSyncOperation (jget v ''operation'') of
              None \<Rightarrow> Inl (malformed ''operation'')
            | Some operation \<Rightarrow>
              if \<not> isString (jget v ''payloadHash'') \<or> \<not> HASH_PATTERN (js_str (jget v ''payloadHash''))
              then Inl (malformed ''payloadHash'')
              else let change = \<lparr>pc_change_id = js_str (jget v ''changeId''), pc_sequence = n,
                       pc_type = js_str (jget v ''entityType''), pc_id = js_str (jget v ''entityId''),
                       pc_schema = schema, pc_base = base, pc_operation = operation,
                       pc_payload = None, pc_hash = js_str (jget v ''payloadHash'')\<rparr> in
                if operation = SyncDelete then
                  (if base = None then Inl (malformed ''delete-base'')
                   else if has_own v ''payload'' then Inl (malformed ''delete-payload'')
                   else Inr change)
                else if operation = SyncCreate \<and> base \<noteq> None then Inl (malformed ''create-base'')
                else if operation = SyncUpdate \<and> base = None then Inl (malformed ''update-base'')
                else if \<not> has_own v ''payload'' then Inl (malformed ''payload-required'')
                else Inr (change\<lparr>pc_payload := Some (jget v ''payload'')\<rparr>))))))"

definition parseSpikePushParams :: "js \<Rightarrow> acct_exn + (pending_change list \<times> string option)" where
  "parseSpikePushParams v =
     (if \<not> isRecord v \<or> \<not> isArray (jget v ''changes'') then Inl (malformed ''changes-required'')
      else if jget v ''epoch'' \<noteq> JUndef \<and> \<not> isString (jget v ''epoch'') then Inl (malformed ''epoch-type'')
      else (case collect (map parsePendingChange (js_items (jget v ''changes''))) of
         Inl e \<Rightarrow> Inl e
       | Inr cs \<Rightarrow> Inr (cs, if jget v ''epoch'' = JUndef then None else Some (js_str (jget v ''epoch'')))))"

record pull_params =
  pp_cursor :: int
  pp_max_bytes :: int
  pp_max_changes :: "int option"

definition parse_cursor :: "js \<Rightarrow> acct_exn + int" where
  "parse_cursor v =
     (if v = JNull then Inr 0
      else if \<not> isString v then Inl (malformed ''cursor-type'')
      else if js_str v = [] then Inr 0
      else if \<not> list_all is_digit (js_str v) then Inl (malformed ''cursor-format'')
      else if int (digits_val 0 (js_str v)) > max_safe then Inl (malformed ''cursor-range'')
      else Inr (int (digits_val 0 (js_str v))))"

definition parseSpikePullParams :: "js \<Rightarrow> acct_exn + pull_params" where
  "parseSpikePullParams v =
     (if \<not> isRecord v then Inl (malformed ''pull-params'')
      else if \<not> has_own v ''cursor'' then Inl (malformed ''cursor-required'')
      else (case parse_cursor (jget v ''cursor'') of
        Inl e \<Rightarrow> Inl e
      | Inr c \<Rightarrow>
        (case positive_integer (jget v ''maxBytes'') of
          None \<Rightarrow> Inl (malformed ''maxBytes'')
        | Some b \<Rightarrow>
          if jget v ''maxChanges'' = JUndef
          then Inr \<lparr>pp_cursor = c, pp_max_bytes = b, pp_max_changes = None\<rparr>
          else (case positive_integer (jget v ''maxChanges'') of
              None \<Rightarrow> Inl (malformed ''maxChanges'')
            | Some m \<Rightarrow> Inr \<lparr>pp_cursor = c, pp_max_bytes = b, pp_max_changes = Some m\<rparr>))))"

definition parseScanBeginParams :: "js \<Rightarrow> acct_exn + string option" where
  "parseScanBeginParams v =
     (if \<not> isRecord v then Inl (malformed ''scan-begin-params'')
      else if \<not> has_own v ''epoch'' then Inr None
      else if jget v ''epoch'' = JNull then Inr None
      else if \<not> isString (jget v ''epoch'') then Inl (malformed ''epoch-type'')
      else Inr (Some (js_str (jget v ''epoch''))))"

definition parseScanPageParams :: "js \<Rightarrow> acct_exn + (string \<times> string option \<times> int)" where
  "parseScanPageParams v =
     (if \<not> isRecord v then Inl (malformed ''scan-page-params'')
      else if \<not> nonempty_str (jget v ''scanId'') then Inl (malformed ''scanId'')
      else if \<not> has_own v ''cursor'' then Inl (malformed ''cursor-required'')
      else if jget v ''cursor'' \<noteq> JNull \<and> \<not> isString (jget v ''cursor'') then Inl (malformed ''cursor-type'')
      else if jget v ''cursor'' = JStr [] then Inl (malformed ''cursor-format'')
      else (case positive_integer (jget v ''maxBytes'') of
        None \<Rightarrow> Inl (malformed ''maxBytes'')
      | Some b \<Rightarrow> Inr (js_str (jget v ''scanId''),
          if jget v ''cursor'' = JNull then None else Some (js_str (jget v ''cursor'')), b)))"

definition parseScanFinishParams :: "js \<Rightarrow> acct_exn + string" where
  "parseScanFinishParams v =
     (if \<not> isRecord v then Inl (malformed ''scan-finish-params'')
      else if \<not> nonempty_str (jget v ''scanId'') then Inl (malformed ''scanId'')
      else Inr (js_str (jget v ''scanId'')))"

section \<open>Payload checks (\<open>contract/sealed.ts\<close>)\<close>

definition b64_char :: "char \<Rightarrow> bool" where
  "b64_char c \<longleftrightarrow> is_digit c \<or> is_lower c \<or> is_upper c \<or> c = CHR ''+'' \<or> c = CHR ''/''"

definition base64ByteLength :: "string \<Rightarrow> int option" where
  "base64ByteLength s =
     (let padding = dropWhile b64_char s in
      if padding \<notin> {[], ''='', ''==''} \<or> length s mod 4 \<noteq> 0 then None
      else Some (int (length s) div 4 * 3 - int (length padding)))"

definition base64UrlByteLength :: "js \<Rightarrow> int option" where
  "base64UrlByteLength v =
     (if \<not> nonempty_str v \<or> length (js_str v) mod 4 = 1 \<or>
         \<not> list_all (\<lambda>c. is_digit c \<or> is_lower c \<or> is_upper c \<or> c = CHR ''_'' \<or> c = CHR ''-'') (js_str v)
      then None
      else base64ByteLength
        (map (\<lambda>c. if c = CHR ''-'' then CHR ''+'' else if c = CHR ''_'' then CHR ''/'' else c) (js_str v) @
         replicate ((4 - length (js_str v) mod 4) mod 4) (CHR ''='')))"

definition base64ByteLengthValue :: "js \<Rightarrow> int \<Rightarrow> string \<Rightarrow> string option" where
  "base64ByteLengthValue v expected issue =
     (if isString v \<and> base64ByteLength (js_str v) = Some expected then None else Some issue)"

definition base64ByteLengthAtLeast :: "js \<Rightarrow> int \<Rightarrow> string \<Rightarrow> string option" where
  "base64ByteLengthAtLeast v least issue =
     (if isString v \<and> (case base64ByteLength (js_str v) of None \<Rightarrow> -1 | Some n \<Rightarrow> n) \<ge> least
      then None else Some issue)"

definition MAX_ID_FIELD_LENGTH :: nat where
  "MAX_ID_FIELD_LENGTH = 128"

definition isBoundedId :: "js \<Rightarrow> bool" where
  "isBoundedId v \<longleftrightarrow> nonempty_str v \<and> length (js_str v) \<le> MAX_ID_FIELD_LENGTH"

definition SEALED_NONCE_BYTES :: int where
  "SEALED_NONCE_BYTES = 12"

definition sealedEnvelopeIssue :: "js \<Rightarrow> string option" where
  "sealedEnvelopeIssue v =
     (if \<not> isObject v then Some ''envelope-not-object''
      else if jget v ''enc'' \<noteq> JStr ''aes-256-gcm'' then Some ''envelope-unknown-alg''
      else if positive_integer (jget v ''keyVersion'') = None then Some ''envelope-bad-key-version''
      else if \<not> isString (jget v ''nonce'') then Some ''envelope-bad-nonce''
      else if base64ByteLength (js_str (jget v ''nonce'')) \<noteq> Some SEALED_NONCE_BYTES then Some ''envelope-bad-nonce''
      else if \<not> nonempty_str (jget v ''ct'') then Some ''envelope-bad-ct''
      else base64ByteLengthAtLeast (jget v ''ct'') 16 ''envelope-bad-ct'')"

definition isCryptoBoundaryEntityType :: "string \<Rightarrow> bool" where
  "isCryptoBoundaryEntityType t \<longleftrightarrow>
     t \<in> {''device-identity'', ''keyring-wrap'', ''keyring-pairing'', ''keyring-rotation'', ''keyring-paired''}"

text \<open>A safe integer that is at least 1.\<close>

definition key_version_of :: "js \<Rightarrow> int option" where
  "key_version_of v = (case num_integer v of
     Some i \<Rightarrow> if 1 \<le> i \<and> i \<le> max_safe then Some i else None | None \<Rightarrow> None)"

text \<open>The first issue of a list of checks.\<close>

fun first_issue :: "string option list \<Rightarrow> string option" where
  "first_issue [] = None"
| "first_issue (None # is) = first_issue is"
| "first_issue (Some i # is) = Some i"

definition unless_ok :: "bool \<Rightarrow> string \<Rightarrow> string option" where
  "unless_ok b issue = (if b then None else Some issue)"

definition MAX_ROTATION_REVOKED_IDS :: nat where
  "MAX_ROTATION_REVOKED_IDS = 128"

definition cryptoBoundaryPayloadIssue :: "platform \<Rightarrow> string \<Rightarrow> string \<Rightarrow> js \<Rightarrow> string option" where
  "cryptoBoundaryPayloadIssue pf t i p =
     (if \<not> isCryptoBoundaryEntityType t then None
      else if \<not> isRecord p then Some ''payload-object''
      else if t = ''device-identity'' then first_issue
        [unless_ok (jget p ''v'' = jint 1) ''device-identity-version'',
         unless_ok (isBoundedId (jget p ''enrollmentId'') \<and> jget p ''enrollmentId'' = JStr i) ''device-identity-enrollment'',
         base64ByteLengthValue (jget p ''pub'') 32 ''device-identity-pub'']
      else if t = ''keyring-wrap'' then first_issue
        [unless_ok (jget p ''v'' = jint 1 \<and> jget p ''enc'' = JStr ''x25519-aes-256-gcm'') ''keyring-wrap-version'',
         unless_ok (key_version_of (jget p ''keyVersion'') \<noteq> None) ''keyring-wrap-key-version'',
         base64ByteLengthValue (jget p ''ephPub'') 32 ''keyring-wrap-eph-pub'',
         base64ByteLengthValue (jget p ''nonce'') SEALED_NONCE_BYTES ''keyring-wrap-nonce'',
         base64ByteLengthAtLeast (jget p ''ct'') 16 ''keyring-wrap-ct'',
         unless_ok (isBoundedId (jget p ''senderEnrollmentId'')) ''keyring-wrap-sender'',
         base64ByteLengthValue (jget p ''senderPub'') 32 ''keyring-wrap-sender-pub'',
         unless_ok (base64UrlByteLength (jget p ''senderMac'') = Some 32) ''keyring-wrap-sender-mac'']
      else if t = ''keyring-pairing'' then first_issue
        [unless_ok (jget p ''v'' = jint 1 \<and> jget p ''enc'' = JStr ''pairing-aes-256-gcm'') ''keyring-pairing-version'',
         base64ByteLengthValue (jget p ''nonce'') SEALED_NONCE_BYTES ''keyring-pairing-nonce'',
         base64ByteLengthAtLeast (jget p ''ct'') 16 ''keyring-pairing-ct'']
      else if t = ''keyring-paired'' then first_issue
        [unless_ok (jget p ''v'' = jint 1) ''keyring-paired-version'',
         unless_ok (isBoundedId (jget p ''enrollmentId'') \<and> jget p ''enrollmentId'' = JStr i) ''keyring-paired-enrollment'',
         base64ByteLengthValue (jget p ''pub'') 32 ''keyring-paired-pub'',
         unless_ok (isBoundedId (jget p ''proofNonce'')) ''keyring-paired-proof'',
         unless_ok (base64UrlByteLength (jget p ''mac'') = Some 32) ''keyring-paired-mac'']
      else first_issue
        [unless_ok (jget p ''v'' = jint 1) ''keyring-rotation-version'',
         unless_ok (isBoundedId (jget p ''rotationId'') \<and> jget p ''rotationId'' = JStr i) ''keyring-rotation-id'',
         unless_ok (isBoundedId (jget p ''rotorEnrollmentId'')) ''keyring-rotation-rotor'',
         unless_ok (key_version_of (jget p ''fromVersion'') \<noteq> None \<and> key_version_of (jget p ''toVersion'') \<noteq> None)
           ''keyring-rotation-version-range'',
         unless_ok (isArray (jget p ''revokedEnrollmentIds'') \<and>
             length (js_items (jget p ''revokedEnrollmentIds'')) \<le> MAX_ROTATION_REVOKED_IDS \<and>
             list_all isBoundedId (js_items (jget p ''revokedEnrollmentIds''))) ''keyring-rotation-revoked'',
         unless_ok (isString (jget p ''rotatedAt'') \<and> pf_date pf (js_str (jget p ''rotatedAt'')) \<noteq> None)
           ''keyring-rotation-time''])"

section \<open>The canonical text of a change (\<open>contract/sync.ts\<close>)\<close>

fun canonicalize :: "platform \<Rightarrow> js \<Rightarrow> string"
and canonicalize_items :: "platform \<Rightarrow> js list \<Rightarrow> string list"
and canonicalize_entries :: "platform \<Rightarrow> (string \<times> js) list \<Rightarrow> (string \<times> string) list" where
  "canonicalize pf JUndef = ''null''"
| "canonicalize pf JNull = ''null''"
| "canonicalize pf (JStr s) = json_quote s"
| "canonicalize pf (JNum x) = (if num_finite x then num_str pf x else ''null'')"
| "canonicalize pf (JBool b) = (if b then ''true'' else ''false'')"
| "canonicalize pf (JArr xs) = ''['' @ js_join '','' (canonicalize_items pf xs) @ '']''"
| "canonicalize pf (JObj kvs) =
     ''{'' @ js_join '',''
       (map (\<lambda>(k, t). json_quote k @ '':'' @ t) (sort_key fst (canonicalize_entries pf kvs))) @ ''}''"
| "canonicalize_items pf [] = []"
| "canonicalize_items pf (x # xs) = canonicalize pf x # canonicalize_items pf xs"
| "canonicalize_entries pf [] = []"
| "canonicalize_entries pf ((k, v) # kvs) =
     (if v = JUndef then canonicalize_entries pf kvs
      else (k, canonicalize pf v) # canonicalize_entries pf kvs)"

definition canonicalChangeHashInput :: "platform \<Rightarrow> pending_change \<Rightarrow> string" where
  "canonicalChangeHashInput pf c = canonicalize pf (JObj
     [(''baseRevision'', jopt jint (pc_base c)),
      (''entityId'', JStr (pc_id c)),
      (''entityType'', JStr (pc_type c)),
      (''operation'', JStr (op_name (pc_operation c))),
      (''payload'', case pc_payload c of None \<Rightarrow> JNull | Some v \<Rightarrow> if v = JUndef then JNull else v),
      (''schemaVersion'', jint (pc_schema c))])"

section \<open>Fair use (\<open>hosted/fair-use-policy.ts\<close>)\<close>

record fair_use_notice =
  fu_code :: string
  fu_message :: string
  fu_notice_at :: string
  fu_restrict_at :: string
  fu_emergency :: bool

definition canonicalTimestamp :: "platform \<Rightarrow> js \<Rightarrow> bool" where
  "canonicalTimestamp pf v \<longleftrightarrow> isString v \<and> length (js_str v) \<le> 32 \<and>
     (case pf_date pf (js_str v) of None \<Rightarrow> False | Some t \<Rightarrow> pf_iso pf t = js_str v)"

definition isRestrictionCode :: "js \<Rightarrow> bool" where
  "isRestrictionCode v \<longleftrightarrow>
     v \<in> {JStr ''storage-usage'', JStr ''sustained-excessive-usage'', JStr ''service-protection''}"

definition parseStoredFairUseNotice :: "backend_env \<Rightarrow> string option \<Rightarrow> acct_exn + fair_use_notice option" where
  "parseStoredFairUseNotice env raw = (case raw of
     None \<Rightarrow> Inr None
   | Some t \<Rightarrow> (case be_json env t of
       None \<Rightarrow> Inl (OtherError ''Stored fair-use restriction is not valid JSON.'')
     | Some v \<Rightarrow>
       if \<not> isRecord v \<or> \<not> isRestrictionCode (jget v ''code'') \<or> \<not> isString (jget v ''message'') \<or>
          js_trim (js_str (jget v ''message'')) = [] \<or> length (js_str (jget v ''message'')) > 500 \<or>
          \<not> canonicalTimestamp (be_pf env) (jget v ''noticeAt'') \<or>
          \<not> canonicalTimestamp (be_pf env) (jget v ''restrictAt'') \<or> \<not> isBool (jget v ''emergency'')
       then Inl (OtherError ''Stored fair-use restriction is malformed.'')
       else Inr (Some \<lparr>fu_code = js_str (jget v ''code''), fu_message = js_str (jget v ''message''),
          fu_notice_at = js_str (jget v ''noticeAt''), fu_restrict_at = js_str (jget v ''restrictAt''),
          fu_emergency = (jget v ''emergency'' = JBool True)\<rparr>)))"

definition restricted_at :: "platform \<Rightarrow> int \<Rightarrow> fair_use_notice \<Rightarrow> bool" where
  "restricted_at pf now n = (case pf_date pf (fu_restrict_at n) of None \<Rightarrow> False | Some t \<Rightarrow> now \<ge> t)"

definition activeFairUseRestriction :: "backend_env \<Rightarrow> int \<Rightarrow> fair_use_notice option acct" where
  "activeFairUseRestriction env now s =
     (if \<not> be_hosted env then (Inr None, s)
      else (case parseStoredFairUseNotice env (meta_fair_use s) of
         Inl e \<Rightarrow> (Inl e, s)
       | Inr None \<Rightarrow> (Inr None, s)
       | Inr (Some n) \<Rightarrow> (Inr (if restricted_at (be_pf env) now n then Some n else None), s)))"

definition fair_use_denial :: "fair_use_notice \<Rightarrow> acct_exn" where
  "fair_use_denial n = RpcFailure E_forbidden (JObj [(''reason'', JStr ''fair-use-restricted''),
     (''code'', JStr (fu_code n)), (''message'', JStr (fu_message n)), (''restrictAt'', JStr (fu_restrict_at n))])"

definition assertFairUseWritesAllowed :: "backend_env \<Rightarrow> int \<Rightarrow> unit acct" where
  "assertFairUseWritesAllowed env now = bindE (activeFairUseRestriction env now)
     (\<lambda>r. case r of None \<Rightarrow> ret () | Some n \<Rightarrow> throw (fair_use_denial n))"

section \<open>Push\<close>

record prepared =
  pre_change :: pending_change
  pre_json :: "string option"
  pre_bytes :: int
  pre_hash :: string

definition prepare_change :: "backend_env \<Rightarrow> pending_change \<Rightarrow> prepared" where
  "prepare_change env c =
     (let json = (if pc_operation c = SyncDelete then None
                  else map_option (json_text (be_pf env)) (pc_payload c))
      in \<lparr>pre_change = c, pre_json = json,
          pre_bytes = (case json of None \<Rightarrow> 0 | Some t \<Rightarrow> utf8ByteLength t),
          pre_hash = be_sha256 env (canonicalChangeHashInput (be_pf env) c)\<rparr>)"

definition assertPendingChange :: "pending_change \<Rightarrow> acct_exn option" where
  "assertPendingChange c = (case pc_operation c of
     SyncCreate \<Rightarrow> if pc_base c \<noteq> None then Some (malformed ''create-base'') else None
   | SyncUpdate \<Rightarrow> if pc_base c = None then Some (malformed ''update-base'') else None
   | SyncDelete \<Rightarrow> if pc_base c = None then Some (malformed ''delete-base'') else None)"

definition too_large :: "int \<Rightarrow> int \<Rightarrow> acct_exn" where
  "too_large limit actual = RpcFailure E_payload_too_large
     (JObj [(''limitBytes'', jint limit), (''actualBytes'', jint actual)])"

definition malformed_change :: "string \<Rightarrow> pending_change \<Rightarrow> acct_exn" where
  "malformed_change r c = RpcFailure E_malformed_request
     (JObj [(''reason'', JStr r), (''changeId'', JStr (pc_change_id c))])"

definition check_item :: "backend_env \<Rightarrow> prepared \<Rightarrow> acct_exn option" where
  "check_item env item =
     (let c = pre_change item;
          p = (case pc_payload c of None \<Rightarrow> JUndef | Some v \<Rightarrow> v) in
      case assertPendingChange c of Some e \<Rightarrow> Some e
      | None \<Rightarrow>
        (case (if pc_operation c = SyncDelete then None
               else cryptoBoundaryPayloadIssue (be_pf env) (pc_type c) (pc_id c) p) of
          Some issue \<Rightarrow> Some (RpcFailure E_malformed_request
            (JObj [(''reason'', JStr ''crypto-boundary-invalid''), (''entityType'', JStr (pc_type c)),
              (''issue'', JStr issue), (''changeId'', JStr (pc_change_id c))]))
        | None \<Rightarrow>
          if \<not> isCryptoBoundaryEntityType (pc_type c) \<and> has_own p ''enc'' \<and> sealedEnvelopeIssue p \<noteq> None
          then Some (malformed_change ''envelope-invalid'' c)
          else if pre_hash item \<noteq> pc_hash c then Some (malformed_change ''payload-hash-mismatch'' c)
          else if pre_bytes item > LIMIT_entityBytes
          then Some (RpcFailure E_payload_too_large (JObj [(''limitBytes'', jint LIMIT_entityBytes),
            (''actualBytes'', jint (pre_bytes item)), (''entityType'', JStr (pc_type c))]))
          else None))"

fun check_items :: "backend_env \<Rightarrow> int \<Rightarrow> prepared list \<Rightarrow> acct_exn + int" where
  "check_items env used [] = Inr used"
| "check_items env used (item # items) = (case check_item env item of
     Some e \<Rightarrow> Inl e | None \<Rightarrow> check_items env (used + pre_bytes item) items)"

definition assertBatchStructure :: "backend_env \<Rightarrow> prepared list \<Rightarrow> acct_exn + unit" where
  "assertBatchStructure env items =
     (if int (length items) > LIMIT_batchChanges
      then Inl (RpcFailure E_payload_too_large
        (JObj [(''limit'', jint LIMIT_batchChanges), (''actual'', jint (int (length items)))]))
      else (case check_items env 0 items of
         Inl e \<Rightarrow> Inl e
       | Inr used \<Rightarrow> if used > LIMIT_pageBytes then Inl (too_large LIMIT_pageBytes used) else Inr ()))"

definition parseRemoteContent :: "backend_env \<Rightarrow> string option \<Rightarrow> acct_exn + js" where
  "parseRemoteContent env p = (case p of None \<Rightarrow> Inr JNull | Some t \<Rightarrow> json_parse env t)"

definition conflict_with :: "backend_env \<Rightarrow> pending_change \<Rightarrow> entity_row \<Rightarrow> acct_exn + push_result option" where
  "conflict_with env c e = (case parseRemoteContent env (ent_payload e) of
     Inl x \<Rightarrow> Inl x | Inr v \<Rightarrow> Inr (Some (Conflicted (pc_change_id c) (ent_revision e) v)))"

definition compareBaseRevision ::
  "backend_env \<Rightarrow> pending_change \<Rightarrow> entity_row option \<Rightarrow> acct_exn + push_result option" where
  "compareBaseRevision env c existing =
     (if pc_operation c = SyncCreate then
       (case existing of None \<Rightarrow> Inr None | Some e \<Rightarrow> conflict_with env c e)
      else (case existing of
         None \<Rightarrow> Inr (Some (Conflicted (pc_change_id c) 0 JNull))
       | Some e \<Rightarrow> if pc_base c \<noteq> Some (ent_revision e) then conflict_with env c e else Inr None))"

fun push_status :: "push_result \<Rightarrow> string" where
  "push_status (Accepted _ _ _) = ''accepted''"
| "push_status (Conflicted _ _ _) = ''conflict''"
| "push_status (Rejected _ _) = ''rejected''"
| "push_status (ResetRequired _ _) = ''reset-required''"
| "push_status (ReceiptExpired _) = ''receipt-expired''"

fun result_revision :: "push_result \<Rightarrow> int option" where
  "result_revision (Accepted _ r _) = Some r"
| "result_revision _ = None"

definition find_receipt :: "string \<Rightarrow> int \<Rightarrow> account \<Rightarrow> receipt_row option" where
  "find_receipt e n s = find (\<lambda>r. rcp_enrollment r = e \<and> rcp_sequence r = n) (receipts s)"

definition writeReceipt :: "int \<Rightarrow> string \<Rightarrow> prepared \<Rightarrow> push_result \<Rightarrow> unit acct" where
  "writeReceipt now e item result s =
     (if find_receipt e (pc_sequence (pre_change item)) s \<noteq> None then (Inl unique_violation, s)
      else (Inr (), s\<lparr>receipts := receipts s @ [\<lparr>rcp_enrollment = e,
        rcp_sequence = pc_sequence (pre_change item), rcp_change_id = pc_change_id (pre_change item),
        rcp_status = push_status result, rcp_revision = result_revision result,
        rcp_hash = pc_hash (pre_change item), rcp_result = result, rcp_created = now\<rparr>]\<rparr>))"

definition observeSyncKeyVersion :: "js \<Rightarrow> account \<Rightarrow> account" where
  "observeSyncKeyVersion p s = (if \<not> isRecord p then s
     else (case key_version_of (jget p ''keyVersion'') of
         None \<Rightarrow> s
       | Some v \<Rightarrow> if v > SYNC_SNAPSHOT_MAX_KEY_VERSION then s
                   else if v > meta_key_version s then s\<lparr>meta_key_version := v\<rparr> else s))"

text \<open>
  The payload of the head that is about to be replaced moves into its journal row, which had none.
\<close>

definition keep_old_payload :: "entity_row \<Rightarrow> account \<Rightarrow> account" where
  "keep_old_payload e s =
     (if ent_operation e = SyncDelete \<or> ent_payload e = None then s
      else s\<lparr>changes := map (\<lambda>r. if chg_sequence r = ent_sequence e \<and> chg_payload r = None
             then r\<lparr>chg_payload := ent_payload e\<rparr> else r) (changes s)\<rparr>)"

definition put_entity :: "entity_row \<Rightarrow> account \<Rightarrow> account" where
  "put_entity e s =
     (if readEntity (ent_type e) (ent_id e) s = None then s\<lparr>entities := entities s @ [e]\<rparr>
      else s\<lparr>entities := map (\<lambda>r. if ent_type r = ent_type e \<and> ent_id r = ent_id e then e else r) (entities s)\<rparr>)"

definition insert_change :: "change_row \<Rightarrow> unit acct" where
  "insert_change c s =
     (if chg_sequence c \<in> chg_sequence ` set (changes s) then (Inl unique_violation, s)
      else (Inr (), s\<lparr>changes := changes s @ [c]\<rparr>))"

definition store_change ::
  "int \<Rightarrow> pending_change \<Rightarrow> string option \<Rightarrow> entity_row option \<Rightarrow> (int \<times> int) acct" where
  "store_change now c json existing =
     bindE (gets meta_next_sequence) (\<lambda>sequence.
     let revision = (case existing of None \<Rightarrow> 1 | Some e \<Rightarrow> ent_revision e + 1) in
     thenE (modify (\<lambda>s. case existing of None \<Rightarrow> s | Some e \<Rightarrow> keep_old_payload e s))
     (thenE (modify (put_entity \<lparr>ent_type = pc_type c, ent_id = pc_id c, ent_revision = revision,
         ent_operation = pc_operation c, ent_schema = pc_schema c, ent_payload = json,
         ent_sequence = sequence, ent_updated = now\<rparr>))
     (thenE (insert_change \<lparr>chg_sequence = sequence, chg_type = pc_type c, chg_id = pc_id c,
         chg_revision = revision, chg_operation = pc_operation c, chg_schema = pc_schema c,
         chg_payload = None, chg_created = now\<rparr>)
     (ret (sequence, revision)))))"

definition refuse_change :: "int \<Rightarrow> string \<Rightarrow> prepared \<Rightarrow> push_result \<Rightarrow> (push_result \<times> int option) acct" where
  "refuse_change now e item result =
     thenE (writeReceipt now e item result)
     (thenE (modify (advanceHighWater e (pc_sequence (pre_change item)))) (ret (result, None)))"

definition accept_change ::
  "int \<Rightarrow> string \<Rightarrow> prepared \<Rightarrow> entity_row option \<Rightarrow> (push_result \<times> int option) acct" where
  "accept_change now e item existing =
     (let c = pre_change item in
      bindE (store_change now c (pre_json item) existing) (\<lambda>(sequence, revision).
      let accepted = Accepted (pc_change_id c) revision
            (if pc_operation c = SyncDelete then None else pc_payload c) in
      thenE (writeReceipt now e item accepted)
      (thenE (modify (\<lambda>s. s\<lparr>meta_next_sequence := sequence + 1\<rparr>))
      (thenE (modify (advanceHighWater e (pc_sequence c)))
      (thenE (modify (addHistoryBytes (pre_bytes item)))
      (thenE (modify (if pc_operation c = SyncDelete then id
         else observeSyncKeyVersion (case pc_payload c of None \<Rightarrow> JUndef | Some p \<Rightarrow> p)))
      (ret (accepted, Some sequence))))))))"

definition applyPrepared :: "backend_env \<Rightarrow> int \<Rightarrow> auth \<Rightarrow> prepared \<Rightarrow> (push_result \<times> int option) acct" where
  "applyPrepared env now au item =
     (let c = pre_change item; e = au_enrollment au in
      bindE (gets (find_receipt e (pc_sequence c))) (\<lambda>receipt. case receipt of
        Some r \<Rightarrow> if rcp_hash r = pc_hash c then ret (rcp_result r, None)
                  else ret (Rejected (pc_change_id c) ''changed-content'', None)
      | None \<Rightarrow>
        bindE (readEnrollment e) (\<lambda>enrollment.
        if pc_sequence c \<le> enr_high_water enrollment
        then thenE (writeReceipt now e item (ReceiptExpired (pc_change_id c)))
               (ret (ReceiptExpired (pc_change_id c), None))
        else bindE (gets meta_history_bytes) (\<lambda>history.
        if \<not> be_hosted env \<and> history + pre_bytes item > HISTORY_QUOTA_BYTES
        then refuse_change now e item (Rejected (pc_change_id c) ''quota-exceeded'')
        else bindE (gets (readEntity (pc_type c) (pc_id c))) (\<lambda>existing.
        bindE (lift_sum (compareBaseRevision env c existing)) (\<lambda>compared. case compared of
          Some result \<Rightarrow> refuse_change now e item result
        | None \<Rightarrow> accept_change now e item existing))))))"

definition push_item :: "backend_env \<Rightarrow> int \<Rightarrow> auth \<Rightarrow> string \<Rightarrow> prepared \<Rightarrow> (push_result \<times> int option) acct" where
  "push_item env now au epoch item =
     (let c = pre_change item; e = au_enrollment au in
      bindE
       (if epoch \<noteq> SPIKE_INITIAL_EPOCH
        then let result = ResetRequired (pc_change_id c) epoch in
          thenE (writeReceipt now e item result)
          (thenE (modify (advanceHighWater e (pc_sequence c))) (ret (result, None)))
        else bindE (applyPrepared env now au item) (\<lambda>(result, accepted).
          thenE (modify (if accepted = None then id else bumpCounter ''bytes_accepted'' (pre_bytes item)))
            (ret (result, accepted))))
       (\<lambda>(result, accepted).
          thenE (modify (bumpCounter (''push_'' @ push_status result) 1)) (ret (result, accepted))))"

fun push_items ::
  "backend_env \<Rightarrow> int \<Rightarrow> auth \<Rightarrow> string \<Rightarrow> int option \<Rightarrow> prepared list \<Rightarrow> (push_result list \<times> int option) acct" where
  "push_items env now au epoch wm [] = ret ([], wm)"
| "push_items env now au epoch wm (item # items) =
     bindE (push_item env now au epoch item) (\<lambda>(result, accepted).
     bindE (push_items env now au epoch (if accepted = None then wm else accepted) items)
       (\<lambda>(results, wm'). ret (result # results, wm')))"

definition pushInTransaction ::
  "backend_env \<Rightarrow> int \<Rightarrow> auth \<Rightarrow> string option \<Rightarrow> prepared list \<Rightarrow> (push_result list \<times> int option) acct" where
  "pushInTransaction env now au epoch items =
     thenE (modify (provisionEnrollment now au))
     (thenE (lift_sum (assertBatchStructure env items))
     (bindE (gets meta_epoch) (\<lambda>stored.
      if epoch \<noteq> None \<and> epoch \<noteq> Some stored
      then throw (RpcFailure E_epoch_mismatch (JObj [(''expected'', JStr stored), (''actual'', jopt JStr epoch)]))
      else thenE (if \<exists>item \<in> set items. pc_operation (pre_change item) \<noteq> SyncDelete
                  then assertFairUseWritesAllowed env now else ret ())
           (push_items env now au stored None items))))"

text \<open>
  \<open>handlePush\<close>: the results in the order of the batch, and the watermark that is announced to the
  other devices when something was accepted.
\<close>

definition handlePush :: "backend_env \<Rightarrow> int \<Rightarrow> auth \<Rightarrow> js \<Rightarrow> (push_result list \<times> int option) acct" where
  "handlePush env now au params =
     bindE (lift_sum (parseSpikePushParams params)) (\<lambda>(cs, epoch).
     bindE (activeFairUseRestriction env now) (\<lambda>notice.
     case notice of
       Some n \<Rightarrow> if \<exists>c \<in> set cs. pc_operation c \<noteq> SyncDelete then throw (fair_use_denial n)
                 else commit (pushInTransaction env now au epoch (map (prepare_change env) cs))
     | None \<Rightarrow> commit (pushInTransaction env now au epoch (map (prepare_change env) cs))))"

section \<open>Pull\<close>

record syncedChange =
  sy_type :: string
  sy_id :: string
  sy_revision :: int
  sy_operation :: sync_op
  sy_schema :: int
  sy_sequence :: int
  sy_payload :: "js option"

record pull_page =
  pull_changes :: "syncedChange list"
  pull_next :: string
  pull_more :: bool
  pull_floor :: int

definition payload_field :: "js option \<Rightarrow> (string \<times> js) list" where
  "payload_field p = (case p of None \<Rightarrow> [] | Some v \<Rightarrow> [(''payload'', v)])"

definition synced_js :: "syncedChange \<Rightarrow> js" where
  "synced_js c = JObj ([(''entityType'', JStr (sy_type c)), (''entityId'', JStr (sy_id c)),
     (''revision'', jint (sy_revision c)), (''operation'', JStr (op_name (sy_operation c))),
     (''schemaVersion'', jint (sy_schema c)), (''sequence'', jint (sy_sequence c))] @ payload_field (sy_payload c))"

text \<open>The payload of a journal row: its own, or that of the head it still is.\<close>

definition change_payload :: "backend_env \<Rightarrow> account \<Rightarrow> change_row \<Rightarrow> acct_exn + js option" where
  "change_payload env s row =
     (if chg_operation row = SyncDelete then Inr None
      else (case chg_payload row of
        Some t \<Rightarrow> (case json_parse env t of Inl e \<Rightarrow> Inl e | Inr v \<Rightarrow> Inr (Some v))
      | None \<Rightarrow>
        let missing = RpcFailure E_unavailable (JObj [(''reason'', JStr ''compacted-change-payload-missing''),
              (''sequence'', jint (chg_sequence row))]) in
        (case readEntity (chg_type row) (chg_id row) s of
          None \<Rightarrow> Inl missing
        | Some head \<Rightarrow>
          if ent_sequence head \<noteq> chg_sequence row then Inl missing
          else (case ent_payload head of
            None \<Rightarrow> Inl missing
          | Some t \<Rightarrow> (case json_parse env t of Inl e \<Rightarrow> Inl e | Inr v \<Rightarrow> Inr (Some v))))))"

definition synced_change :: "backend_env \<Rightarrow> account \<Rightarrow> change_row \<Rightarrow> acct_exn + syncedChange" where
  "synced_change env s row = (case change_payload env s row of
     Inl e \<Rightarrow> Inl e
   | Inr p \<Rightarrow> Inr \<lparr>sy_type = chg_type row, sy_id = chg_id row, sy_revision = chg_revision row,
       sy_operation = chg_operation row, sy_schema = chg_schema row, sy_sequence = chg_sequence row,
       sy_payload = p\<rparr>)"

fun pull_rows ::
  "backend_env \<Rightarrow> account \<Rightarrow> int \<Rightarrow> int \<Rightarrow> syncedChange list \<Rightarrow> int \<Rightarrow> change_row list \<Rightarrow> acct_exn + (syncedChange list \<times> bool)" where
  "pull_rows env s maxBytes maxChanges acc used [] = Inr (acc, False)"
| "pull_rows env s maxBytes maxChanges acc used (row # rows) =
     (case synced_change env s row of
        Inl e \<Rightarrow> Inl e
      | Inr c \<Rightarrow>
        let size = utf8ByteLength (json_text (be_pf env) (synced_js c)) in
        if acc \<noteq> [] \<and> used + size > maxBytes \<or> int (length acc) \<ge> maxChanges then Inr (acc, True)
        else pull_rows env s maxBytes maxChanges (acc @ [c]) (used + size) rows)"

definition journal_after :: "int \<Rightarrow> account \<Rightarrow> change_row list" where
  "journal_after after s = sort_key chg_sequence (filter (\<lambda>r. chg_sequence r > after) (changes s))"

definition snapshot_fields :: "account \<Rightarrow> (string \<times> js) list" where
  "snapshot_fields s = (case active_snapshot s of None \<Rightarrow> []
     | Some (i, c) \<Rightarrow> [(''snapshotId'', JStr i), (''committedCursor'', jint c)])"

definition handlePull :: "backend_env \<Rightarrow> js \<Rightarrow> pull_page acct" where
  "handlePull env params =
     bindE (lift_sum (parseSpikePullParams params)) (\<lambda>pull.
     thenE (modify (bumpCounter ''pulls'' 1))
     (bindE (gets id) (\<lambda>s.
      let after = pp_cursor pull; fl = meta_retention_floor s in
      if after < fl
      then throw (RpcFailure E_reset_required (JObj ([(''reason'', JStr ''snapshot-required''),
        (''floor'', jint fl), (''cursor'', jint after)] @ snapshot_fields s)))
      else
        let maxChanges = (case pp_max_changes pull of None \<Rightarrow> LIMIT_batchChanges | Some m \<Rightarrow> m);
            maxBytes = min (pp_max_bytes pull) LIMIT_pageBytes;
            rows = journal_after after s in
        bindE (lift_sum (pull_rows env s maxBytes maxChanges [] 0 rows)) (\<lambda>(cs, remaining).
        ret \<lparr>pull_changes = cs,
          pull_next = int_str (if cs = [] then after else sy_sequence (last cs)),
          pull_more = (remaining \<or> length cs < length rows), pull_floor = fl\<rparr>))))"

section \<open>Scan\<close>

record scan_begin =
  sb_scan :: string
  sb_start :: int
  sb_cursor :: string
  sb_epoch :: string

definition epoch_mismatch :: "string \<Rightarrow> string \<Rightarrow> acct_exn" where
  "epoch_mismatch expected actual =
     RpcFailure E_epoch_mismatch (JObj [(''expected'', JStr expected), (''actual'', JStr actual)])"

definition below_floor :: "int \<Rightarrow> int \<Rightarrow> acct_exn" where
  "below_floor fl start = RpcFailure E_reset_required (JObj [(''reason'', JStr ''retention-floor''),
     (''floor'', jint fl), (''watermarkStart'', jint start)])"

definition beginScan :: "int \<Rightarrow> string \<Rightarrow> string option \<Rightarrow> scan_begin acct" where
  "beginScan now uuid epoch =
     bindE (gets id) (\<lambda>s.
      if epoch \<noteq> None \<and> epoch \<noteq> Some (meta_epoch s) then throw (epoch_mismatch (meta_epoch s) (the epoch))
      else if currentWatermark s < meta_retention_floor s
      then throw (below_floor (meta_retention_floor s) (currentWatermark s))
      else if \<exists>r \<in> set (scans s). scn_id r = uuid then throw unique_violation
      else thenE (modify (\<lambda>s. s\<lparr>scans := scans s @ [\<lparr>scn_id = uuid, scn_start = currentWatermark s,
          scn_epoch = meta_epoch s, scn_created = now, scn_done = False, scn_cursor = None, scn_end = None,
          scn_request = None, scn_result = None\<rparr>]\<rparr>))
        (ret \<lparr>sb_scan = uuid, sb_start = currentWatermark s, sb_cursor = int_str (currentWatermark s),
          sb_epoch = meta_epoch s\<rparr>))"

definition handleScanBegin :: "int \<Rightarrow> string \<Rightarrow> js \<Rightarrow> scan_begin acct" where
  "handleScanBegin now uuid params = bindE (lift_sum (parseScanBeginParams params)) (\<lambda>epoch.
     thenE (modify (bumpCounter ''scan_begins'' 1)) (commit (beginScan now uuid epoch)))"

definition loadScan :: "int \<Rightarrow> string \<Rightarrow> scan_row acct" where
  "loadScan now i s = (case find (\<lambda>r. scn_id r = i) (scans s) of
     None \<Rightarrow> (Inl (fail_reason E_not_found ''scan''), s)
   | Some r \<Rightarrow> if now - scn_created r > SNAPSHOT_LIFETIME_MS
               then (Inl (fail_reason E_not_found ''scan-expired''), s) else (Inr r, s))"

definition assertScanEpochAndRetention :: "scan_row \<Rightarrow> unit acct" where
  "assertScanEpochAndRetention r = bindE (gets id) (\<lambda>s.
     if scn_epoch r \<noteq> meta_epoch s then throw (epoch_mismatch (meta_epoch s) (scn_epoch r))
     else if scn_start r < meta_retention_floor s then throw (below_floor (meta_retention_floor s) (scn_start r))
     else ret ())"

definition encodeEntityCursor :: "string \<Rightarrow> string \<Rightarrow> string" where
  "encodeEntityCursor t i = ''['' @ json_quote t @ '','' @ json_quote i @ '']''"

definition decodeEntityCursor :: "backend_env \<Rightarrow> string \<Rightarrow> acct_exn + (string \<times> string)" where
  "decodeEntityCursor env c = (case be_json env c of
     Some (JArr [JStr t, JStr i]) \<Rightarrow> if t = [] \<or> i = [] then Inl (malformed ''cursor-format'') else Inr (t, i)
   | _ \<Rightarrow> Inl (malformed ''cursor-format''))"

definition ent_key :: "entity_row \<Rightarrow> string \<times> string" where
  "ent_key e = (ent_type e, ent_id e)"

definition entities_after :: "(string \<times> string) option \<Rightarrow> account \<Rightarrow> entity_row list" where
  "entities_after after s = sort_key ent_key (case after of
     None \<Rightarrow> entities s | Some k \<Rightarrow> filter (\<lambda>e. ent_key e > k) (entities s))"

definition scanned_entity :: "backend_env \<Rightarrow> entity_row \<Rightarrow> acct_exn + scanned" where
  "scanned_entity env e = (case (case ent_payload e of None \<Rightarrow> Inr None
       | Some t \<Rightarrow> (case json_parse env t of Inl x \<Rightarrow> Inl x | Inr v \<Rightarrow> Inr (Some v))) of
     Inl x \<Rightarrow> Inl x
   | Inr p \<Rightarrow> Inr \<lparr>scd_type = ent_type e, scd_id = ent_id e, scd_revision = ent_revision e,
       scd_operation = ent_operation e, scd_schema = ent_schema e, scd_payload = p\<rparr>)"

definition scanned_js :: "scanned \<Rightarrow> js" where
  "scanned_js c = JObj ([(''entityType'', JStr (scd_type c)), (''entityId'', JStr (scd_id c)),
     (''revision'', jint (scd_revision c)), (''operation'', JStr (op_name (scd_operation c))),
     (''schemaVersion'', jint (scd_schema c))] @ payload_field (scd_payload c))"

fun scan_rows ::
  "backend_env \<Rightarrow> int \<Rightarrow> scanned list \<Rightarrow> int \<Rightarrow> entity_row list \<Rightarrow> acct_exn + (scanned list \<times> bool)" where
  "scan_rows env maxBytes acc used [] = Inr (acc, False)"
| "scan_rows env maxBytes acc used (e # es) =
     (case scanned_entity env e of
        Inl x \<Rightarrow> Inl x
      | Inr c \<Rightarrow>
        let size = utf8ByteLength (json_text (be_pf env) (scanned_js c)) in
        if acc \<noteq> [] \<and> used + size > maxBytes then Inr (acc, True)
        else scan_rows env maxBytes (acc @ [c]) (used + size) es)"

definition update_scan :: "string \<Rightarrow> (scan_row \<Rightarrow> scan_row) \<Rightarrow> account \<Rightarrow> account" where
  "update_scan i f s = s\<lparr>scans := map (\<lambda>r. if scn_id r = i then f r else r) (scans s)\<rparr>"

text \<open>The page after a cursor, read from the tables and remembered in the row of the scan.\<close>

definition read_page :: "backend_env \<Rightarrow> string \<Rightarrow> scan_row \<Rightarrow> string option \<Rightarrow> int \<Rightarrow> scan_page acct" where
  "read_page env scanId scan cursor requestedMaxBytes =
     bindE (lift_sum (case cursor of None \<Rightarrow> Inr None
         | Some c \<Rightarrow> (case decodeEntityCursor env c of Inl e \<Rightarrow> Inl e | Inr k \<Rightarrow> Inr (Some k)))) (\<lambda>after.
      bindE (gets (entities_after after)) (\<lambda>rows.
      bindE (lift_sum (scan_rows env (min requestedMaxBytes LIMIT_pageBytes) [] 0 rows)) (\<lambda>(es, remaining0).
      let remaining = (remaining0 \<or> length es < length rows);
          entityCursor = (if es = [] then scn_cursor scan
            else Some (encodeEntityCursor (scd_type (last es)) (scd_id (last es))));
          page = \<lparr>pg_entities = es, pg_next = (if remaining then entityCursor else None), pg_done = (\<not> remaining)\<rparr> in
      thenE (modify (update_scan scanId (\<lambda>r. r\<lparr>scn_cursor := entityCursor, scn_done := \<not> remaining,
         scn_request := cursor, scn_result := Some page\<rparr>))) (ret page))))"

definition pageScan :: "backend_env \<Rightarrow> int \<Rightarrow> string \<Rightarrow> string option \<Rightarrow> int \<Rightarrow> scan_page acct" where
  "pageScan env now scanId cursor requestedMaxBytes =
     bindE (loadScan now scanId) (\<lambda>scan.
     thenE (assertScanEpochAndRetention scan)
     (if scn_request scan = cursor \<and> scn_result scan \<noteq> None then ret (the (scn_result scan))
      else if cursor \<noteq> scn_cursor scan
      then throw (RpcFailure E_conflict (JObj [(''reason'', JStr ''scan-cursor-mismatch''),
        (''expectedCursor'', jopt JStr (scn_cursor scan))]))
      else if scn_done scan then ret \<lparr>pg_entities = [], pg_next = None, pg_done = True\<rparr>
      else read_page env scanId scan cursor requestedMaxBytes))"

definition handleScanPage :: "backend_env \<Rightarrow> int \<Rightarrow> js \<Rightarrow> scan_page acct" where
  "handleScanPage env now params = bindE (lift_sum (parseScanPageParams params))
     (\<lambda>(i, cursor, maxBytes). commit (pageScan env now i cursor maxBytes))"

record scan_finish =
  sf_scan :: string
  sf_complete :: bool
  sf_end :: int
  sf_epoch :: string
  sf_next :: string

definition finishScan :: "int \<Rightarrow> string \<Rightarrow> scan_finish acct" where
  "finishScan now scanId =
     bindE (loadScan now scanId) (\<lambda>scan0.
     thenE (assertScanEpochAndRetention scan0)
     (if \<not> scn_done scan0 then throw (malformed ''scan-incomplete'')
      else bindE (if scn_end scan0 = None
          then thenE (modify (\<lambda>s. update_scan scanId (\<lambda>r. if scn_end r = None then r\<lparr>scn_end := Some (currentWatermark s)\<rparr> else r) s))
                 (loadScan now scanId)
          else ret scan0) (\<lambda>scan.
       (case scn_end scan of
          None \<Rightarrow> throw (fail_reason E_unavailable ''scan-watermark-missing'')
        | Some w \<Rightarrow> bindE (gets meta_epoch) (\<lambda>epoch.
            ret \<lparr>sf_scan = scn_id scan, sf_complete = True, sf_end = w, sf_epoch = epoch, sf_next = int_str w\<rparr>)))))"

definition handleScanFinish :: "int \<Rightarrow> js \<Rightarrow> scan_finish acct" where
  "handleScanFinish now params = bindE (lift_sum (parseScanFinishParams params)) (\<lambda>i. commit (finishScan now i))"

section \<open>Retention\<close>

text \<open>
  The part of \<open>runSweep\<close> that concerns the synchronisation, inside its transaction: journal rows and
  receipts older than 90 days and finished scans go, the journal up to the compaction target goes, and
  the floor below which no cursor can be served moves up. The return value is what each phase deleted.
\<close>

definition row_bytes :: "change_row \<Rightarrow> int" where
  "row_bytes r = (case chg_payload r of None \<Rightarrow> 0 | Some t \<Rightarrow> utf8ByteLength t)"

definition delete_changes :: "change_row list \<Rightarrow> account \<Rightarrow> account" where
  "delete_changes rows s =
     s\<lparr>changes := filter (\<lambda>r. chg_sequence r \<notin> chg_sequence ` set rows) (changes s)\<rparr>"

definition expired_changes :: "int \<Rightarrow> account \<Rightarrow> change_row list" where
  "expired_changes cutoff s =
     take SWEEP_BATCH_ROWS (sort_key chg_sequence (filter (\<lambda>r. chg_created r < cutoff) (changes s)))"

definition sweep_expired :: "int \<Rightarrow> account \<Rightarrow> change_row list \<times> account" where
  "sweep_expired cutoff s =
     (let rows = expired_changes cutoff s; s' = delete_changes rows s in
      (rows, if rows = [] then s'
             else s'\<lparr>meta_retention_floor := max (meta_retention_floor s') (chg_sequence (last rows))\<rparr>))"

definition sweep_compacted :: "account \<Rightarrow> change_row list \<times> account" where
  "sweep_compacted s =
     (let target = (case meta_compaction_target s of None \<Rightarrow> 0 | Some t \<Rightarrow> t);
          current = meta_retention_floor s in
      if target > current then
        (let rows = take SWEEP_BATCH_ROWS (sort_key chg_sequence
               (filter (\<lambda>r. chg_sequence r > current \<and> chg_sequence r \<le> target) (changes s)));
             newFloor = (if rows = [] then target else chg_sequence (last rows));
             s' = (delete_changes rows s)\<lparr>meta_retention_floor := max current newFloor\<rparr>
         in (rows, if newFloor \<ge> target then s'\<lparr>meta_compaction_target := None\<rparr> else s'))
      else ([], s))"

definition sweepSync :: "int \<Rightarrow> account \<Rightarrow> account" where
  "sweepSync now s0 =
     (let cutoff = now - RETENTION_MS;
          (rows1, s1) = sweep_expired cutoff s0;
          (rows2, s2) = sweep_compacted s1;
          stale = take SWEEP_BATCH_ROWS (filter (\<lambda>r. rcp_created r < cutoff) (receipts s2));
          s3 = s2\<lparr>receipts := filter (\<lambda>r. (rcp_enrollment r, rcp_sequence r) \<notin>
                 (\<lambda>q. (rcp_enrollment q, rcp_sequence q)) ` set stale) (receipts s2)\<rparr>;
          old = take SWEEP_BATCH_ROWS (filter (\<lambda>r. scn_done r \<and> scn_created r < cutoff) (scans s3));
          s4 = s3\<lparr>scans := filter (\<lambda>r. scn_id r \<notin> scn_id ` set old) (scans s3)\<rparr>;
          s5 = s4\<lparr>operations := filter (\<lambda>r. \<not> dop_created r < now - SNAPSHOT_LIFETIME_MS) (operations s4)\<rparr>;
          freed = sum_list (map row_bytes (rows1 @ rows2));
          s6 = (if freed > 0 then addHistoryBytes (- freed) s5 else s5) in
      bumpCounter ''sweep_scans_deleted'' (int (length old))
       (bumpCounter ''sweep_receipts_deleted'' (int (length stale))
        (bumpCounter ''sweep_changes_deleted'' (int (length rows1 + length rows2)) s6)))"

end
