(* ===== verification/Account_Portability.thy ===== *)
theory Account_Portability
  imports Account_Sync
begin

text \<open>
  Data portability of an account (\<open>contract/data.ts\<close>, the \<open>data.*\<close> handlers of
  \<open>account-coordinator.ts\<close>): an export pages through the live entities, an import stages a plan and then
  applies the entries that are still new.
\<close>

definition DATA_IMPORT_PREVIEW_ENTRY_CAP :: nat where
  "DATA_IMPORT_PREVIEW_ENTRY_CAP = 200"

definition DATA_EXPORT_FORMAT_VERSION :: int where
  "DATA_EXPORT_FORMAT_VERSION = 1"

section \<open>Request parameters\<close>

definition parseDataExportBeginParams :: "js \<Rightarrow> acct_exn + int option" where
  "parseDataExportBeginParams v =
     (if v = JUndef \<or> v = JNull then Inr None
      else if \<not> isRecord v then Inl (malformed ''export-begin-params'')
      else if jget v ''maxBytes'' = JUndef then Inr None
      else (case positive_integer (jget v ''maxBytes'') of
         None \<Rightarrow> Inl (malformed ''maxBytes'') | Some b \<Rightarrow> Inr (Some b)))"

definition parseDataExportPageParams :: "js \<Rightarrow> acct_exn + (string \<times> string option \<times> int)" where
  "parseDataExportPageParams v =
     (if \<not> isRecord v then Inl (malformed ''export-page-params'')
      else if \<not> nonempty_str (jget v ''operationId'') then Inl (malformed ''operationId'')
      else if jget v ''cursor'' \<notin> {JNull, JUndef} \<and> \<not> isString (jget v ''cursor'')
      then Inl (malformed ''cursor-type'')
      else let cursor = (if jget v ''cursor'' \<in> {JNull, JUndef} then None else Some (js_str (jget v ''cursor''))) in
        if jget v ''maxBytes'' = JUndef then Inr (js_str (jget v ''operationId''), cursor, LIMIT_pageBytes)
        else (case positive_integer (jget v ''maxBytes'') of
            None \<Rightarrow> Inl (malformed ''maxBytes'')
          | Some b \<Rightarrow> Inr (js_str (jget v ''operationId''), cursor, b)))"

definition parseExportedEntity :: "js \<Rightarrow> acct_exn + exported" where
  "parseExportedEntity v =
     (if \<not> isRecord v then Inl (malformed ''entity-shape'')
      else (case (jget v ''entityType'', jget v ''entityId'', jget v ''revision'', jget v ''schemaVersion'') of
        (JStr t, JStr i, JNum r, JNum n) \<Rightarrow>
          if has_own v ''payload''
          then Inr \<lparr>exp_type = t, exp_id = i, exp_revision = r, exp_schema = n, exp_payload = jget v ''payload''\<rparr>
          else Inl (malformed ''entity-shape'')
      | _ \<Rightarrow> Inl (malformed ''entity-shape'')))"

definition parseDataImportPreviewParams :: "js \<Rightarrow> acct_exn + exported list" where
  "parseDataImportPreviewParams v =
     (if \<not> isRecord v then Inl (malformed ''import-preview-params'')
      else if jget v ''formatVersion'' \<noteq> jint DATA_EXPORT_FORMAT_VERSION
      then Inl (RpcFailure E_malformed_request (JObj [(''reason'', JStr ''unsupported-format-version''),
        (''expected'', jint DATA_EXPORT_FORMAT_VERSION)]))
      else if \<not> isArray (jget v ''entities'') \<or> int (length (js_items (jget v ''entities''))) > LIMIT_batchChanges
      then Inl (RpcFailure E_malformed_request (JObj [(''reason'', JStr ''entities''),
        (''limit'', jint LIMIT_batchChanges)]))
      else collect (map parseExportedEntity (js_items (jget v ''entities''))))"

definition parse_operation_id :: "string \<Rightarrow> js \<Rightarrow> acct_exn + string" where
  "parse_operation_id shape v =
     (if \<not> isRecord v then Inl (malformed shape)
      else if \<not> nonempty_str (jget v ''operationId'') then Inl (malformed ''operationId'')
      else Inr (js_str (jget v ''operationId'')))"

definition parseDataImportCommitParams :: "js \<Rightarrow> acct_exn + string" where
  "parseDataImportCommitParams = parse_operation_id ''import-commit-params''"

definition parseDataOperationStatusParams :: "js \<Rightarrow> acct_exn + string" where
  "parseDataOperationStatusParams = parse_operation_id ''operation-status-params''"

section \<open>Export\<close>

definition find_operation :: "string \<Rightarrow> account \<Rightarrow> operation_row option" where
  "find_operation i s = find (\<lambda>r. dop_id r = i) (operations s)"

definition update_operation :: "string \<Rightarrow> (operation_row \<Rightarrow> operation_row) \<Rightarrow> account \<Rightarrow> account" where
  "update_operation i f s = s\<lparr>operations := map (\<lambda>r. if dop_id r = i then f r else r) (operations s)\<rparr>"

definition insert_operation :: "operation_row \<Rightarrow> unit acct" where
  "insert_operation r s =
     (if find_operation (dop_id r) s \<noteq> None then (Inl unique_violation, s)
      else (Inr (), s\<lparr>operations := operations s @ [r]\<rparr>))"

definition loadDataOperation :: "int \<Rightarrow> string \<Rightarrow> string \<Rightarrow> operation_row acct" where
  "loadDataOperation now i kind s = (case find_operation i s of
     None \<Rightarrow> (Inl (fail_reason E_not_found ''data-operation''), s)
   | Some r \<Rightarrow>
       if dop_kind r \<noteq> kind then (Inl (malformed ''operation-kind-mismatch''), s)
       else if now - dop_created r > SNAPSHOT_LIFETIME_MS
       then (Inl (fail_reason E_not_found ''operation-expired''), s) else (Inr r, s))"

record export_begin =
  xb_operation :: string
  xb_epoch :: string
  xb_start :: int

definition handleDataExportBegin :: "int \<Rightarrow> string \<Rightarrow> auth \<Rightarrow> js \<Rightarrow> export_begin acct" where
  "handleDataExportBegin now uuid au params =
     bindE (lift_sum (parseDataExportBeginParams params)) (\<lambda>_.
     bindE (gets id) (\<lambda>s.
     thenE (insert_operation \<lparr>dop_id = ''exp_'' @ uuid, dop_kind = ''export'', dop_state = ''open'',
        dop_enrollment = au_enrollment au, dop_created = now, dop_watermark = Some (currentWatermark s),
        dop_cursor = None, dop_plan = None, dop_result = None, dop_finished = None\<rparr>)
     (ret \<lparr>xb_operation = ''exp_'' @ uuid, xb_epoch = meta_epoch s, xb_start = currentWatermark s\<rparr>)))"

definition exported_entity :: "backend_env \<Rightarrow> entity_row \<Rightarrow> acct_exn + exported" where
  "exported_entity env e = (case (case ent_payload e of None \<Rightarrow> Inr JNull | Some t \<Rightarrow> json_parse env t) of
     Inl x \<Rightarrow> Inl x
   | Inr p \<Rightarrow> Inr \<lparr>exp_type = ent_type e, exp_id = ent_id e, exp_revision = num_of_int (ent_revision e),
       exp_schema = num_of_int (ent_schema e), exp_payload = p\<rparr>)"

definition exported_js :: "exported \<Rightarrow> js" where
  "exported_js x = JObj [(''entityType'', JStr (exp_type x)), (''entityId'', JStr (exp_id x)),
     (''revision'', JNum (exp_revision x)), (''schemaVersion'', JNum (exp_schema x)),
     (''payload'', exp_payload x)]"

fun export_rows ::
  "backend_env \<Rightarrow> int \<Rightarrow> exported list \<Rightarrow> int \<Rightarrow> entity_row list \<Rightarrow> acct_exn + (exported list \<times> bool)" where
  "export_rows env maxBytes acc used [] = Inr (acc, False)"
| "export_rows env maxBytes acc used (e # es) =
     (case exported_entity env e of
        Inl x \<Rightarrow> Inl x
      | Inr c \<Rightarrow>
        let size = utf8ByteLength (json_text (be_pf env) (exported_js c)) in
        if acc \<noteq> [] \<and> used + size > maxBytes then Inr (acc, True)
        else export_rows env maxBytes (acc @ [c]) (used + size) es)"

record export_page =
  xp_operation :: string
  xp_version :: int
  xp_epoch :: string
  xp_entities :: "exported list"
  xp_next :: "string option"
  xp_done :: bool

definition live_after :: "(string \<times> string) option \<Rightarrow> account \<Rightarrow> entity_row list" where
  "live_after after s = filter (\<lambda>e. ent_operation e \<noteq> SyncDelete) (entities_after after s)"

definition pageExport ::
  "backend_env \<Rightarrow> int \<Rightarrow> string \<Rightarrow> string option \<Rightarrow> int \<Rightarrow> (exported list \<times> string option \<times> bool) acct" where
  "pageExport env now i cursor requestedMaxBytes =
     bindE (loadDataOperation now i ''export'') (\<lambda>op.
     if dop_state op = ''done'' then ret ([], None, True)
     else if dop_state op \<noteq> ''open''
     then throw (RpcFailure E_invalid_transition (JObj [(''reason'', JStr ''export-not-open''), (''state'', JStr (dop_state op))]))
     else bindE (lift_sum (case cursor of None \<Rightarrow> Inr None
         | Some c \<Rightarrow> (case decodeEntityCursor env c of Inl e \<Rightarrow> Inl e | Inr k \<Rightarrow> Inr (Some k)))) (\<lambda>after.
      bindE (gets (live_after after)) (\<lambda>rows.
      bindE (lift_sum (export_rows env (min requestedMaxBytes LIMIT_pageBytes) [] 0 rows)) (\<lambda>(es, remaining0).
      let remaining = (remaining0 \<or> length es < length rows);
          nextCursor = (if es = [] then dop_cursor op
            else Some (encodeEntityCursor (exp_type (last es)) (exp_id (last es)))) in
      thenE (modify (update_operation i (\<lambda>r. r\<lparr>dop_cursor := nextCursor,
         dop_state := (if remaining then ''open'' else ''done''),
         dop_finished := (if remaining then None else Some now)\<rparr>)))
      (ret (es, if remaining then nextCursor else None, \<not> remaining))))))"

definition handleDataExportPage :: "backend_env \<Rightarrow> int \<Rightarrow> js \<Rightarrow> export_page acct" where
  "handleDataExportPage env now params =
     bindE (lift_sum (parseDataExportPageParams params)) (\<lambda>(i, cursor, maxBytes).
     bindE (commit (pageExport env now i cursor maxBytes)) (\<lambda>(es, next, fin).
     bindE (gets meta_epoch) (\<lambda>epoch.
     ret \<lparr>xp_operation = i, xp_version = DATA_EXPORT_FORMAT_VERSION, xp_epoch = epoch, xp_entities = es,
       xp_next = next, xp_done = fin\<rparr>)))"

section \<open>Import\<close>

definition int_of :: "jsnum \<Rightarrow> int option" where
  "int_of x = num_integer (JNum x)"

definition at_least_one :: "jsnum \<Rightarrow> bool" where
  "at_least_one x = (case int_of x of None \<Rightarrow> False | Some i \<Rightarrow> i \<ge> 1)"

definition classifyImportEntity :: "backend_env \<Rightarrow> account \<Rightarrow> exported \<Rightarrow> plan_entry" where
  "classifyImportEntity env s x =
     (let entry = (\<lambda>out reason. \<lparr>pl_entity = x, pl_outcome = out, pl_reason = reason\<rparr>);
          json = json_text (be_pf env) (exp_payload x) in
      if exp_type x = [] \<or> exp_id x = [] \<or> length (exp_type x) > 128 \<or> length (exp_id x) > 512 \<or>
         \<not> at_least_one (exp_revision x) \<or> \<not> at_least_one (exp_schema x) \<or> exp_payload x = JUndef
      then entry ImpInvalid (Some ''malformed-entity'')
      else if utf8ByteLength json > LIMIT_entityBytes then entry ImpInvalid (Some ''payload-too-large'')
      else (case readEntity (exp_type x) (exp_id x) s of
          None \<Rightarrow> entry ImpCreate None
        | Some e \<Rightarrow>
            if ent_operation e = SyncDelete then entry ImpCreate None
            else if ent_payload e = Some json then entry ImpIdentical None
            else entry ImpConflict (Some ''exists-different-content'')))"

record import_preview =
  ip_operation :: string
  ip_creates :: int
  ip_identical :: int
  ip_conflicts :: int
  ip_invalid :: int
  ip_entries :: "(string \<times> string \<times> import_outcome \<times> string option) list"
  ip_truncated :: bool

definition plan_count :: "import_outcome \<Rightarrow> plan_entry list \<Rightarrow> int" where
  "plan_count out plan = int (length (filter (\<lambda>e. pl_outcome e = out) plan))"

definition preview_entry :: "plan_entry \<Rightarrow> string \<times> string \<times> import_outcome \<times> string option" where
  "preview_entry e = (exp_type (pl_entity e), exp_id (pl_entity e), pl_outcome e, pl_reason e)"

definition handleDataImportPreview :: "backend_env \<Rightarrow> int \<Rightarrow> string \<Rightarrow> auth \<Rightarrow> js \<Rightarrow> import_preview acct" where
  "handleDataImportPreview env now uuid au params =
     bindE (lift_sum (parseDataImportPreviewParams params)) (\<lambda>es.
     commit (bindE (gets (\<lambda>s. map (classifyImportEntity env s) es)) (\<lambda>plan.
      thenE (insert_operation \<lparr>dop_id = ''imp_'' @ uuid, dop_kind = ''import'', dop_state = ''previewed'',
         dop_enrollment = au_enrollment au, dop_created = now, dop_watermark = None, dop_cursor = None,
         dop_plan = Some plan, dop_result = None, dop_finished = None\<rparr>)
      (ret \<lparr>ip_operation = ''imp_'' @ uuid, ip_creates = plan_count ImpCreate plan,
         ip_identical = plan_count ImpIdentical plan, ip_conflicts = plan_count ImpConflict plan,
         ip_invalid = plan_count ImpInvalid plan,
         ip_entries = map preview_entry (take DATA_IMPORT_PREVIEW_ENTRY_CAP plan),
         ip_truncated = (length plan > DATA_IMPORT_PREVIEW_ENTRY_CAP)\<rparr>))))"

definition insert_entity :: "entity_row \<Rightarrow> unit acct" where
  "insert_entity e s =
     (if readEntity (ent_type e) (ent_id e) s \<noteq> None then (Inl unique_violation, s)
      else (Inr (), s\<lparr>entities := entities s @ [e]\<rparr>))"

definition import_entity :: "backend_env \<Rightarrow> int \<Rightarrow> exported \<Rightarrow> int acct" where
  "import_entity env now x =
     (let json = json_text (be_pf env) (exp_payload x);
          schema = (case int_of (exp_schema x) of None \<Rightarrow> 0 | Some i \<Rightarrow> i) in
      bindE (gets (readEntity (exp_type x) (exp_id x))) (\<lambda>previous.
      bindE (gets meta_next_sequence) (\<lambda>sequence.
      thenE (modify (\<lambda>s. case previous of None \<Rightarrow> s | Some e \<Rightarrow> keep_old_payload e s))
      (thenE (insert_entity \<lparr>ent_type = exp_type x, ent_id = exp_id x, ent_revision = 1,
          ent_operation = SyncCreate, ent_schema = schema, ent_payload = Some json,
          ent_sequence = sequence, ent_updated = now\<rparr>)
      (thenE (insert_change \<lparr>chg_sequence = sequence, chg_type = exp_type x, chg_id = exp_id x,
          chg_revision = 1, chg_operation = SyncCreate, chg_schema = schema, chg_payload = None,
          chg_created = now\<rparr>)
      (thenE (modify (\<lambda>s. s\<lparr>meta_next_sequence := sequence + 1\<rparr>))
      (thenE (modify (addHistoryBytes (utf8ByteLength json)))
      (thenE (modify (observeSyncKeyVersion (exp_payload x)))
      (ret sequence)))))))))"

text \<open>The loop over the plan: how many entries were applied, were in conflict and were skipped, and the
  last sequence number.\<close>

fun import_entries ::
  "backend_env \<Rightarrow> int \<Rightarrow> int \<times> int \<times> int \<times> int option \<Rightarrow> plan_entry list \<Rightarrow> (int \<times> int \<times> int \<times> int option) acct" where
  "import_entries env now acc [] = ret acc"
| "import_entries env now (applied, conflicts, skipped, wm) (entry # entries) =
     bindE (gets (\<lambda>s. if pl_outcome entry \<noteq> ImpCreate then pl_outcome entry
                      else pl_outcome (classifyImportEntity env s (pl_entity entry)))) (\<lambda>out.
     if out = ImpConflict then import_entries env now (applied, conflicts + 1, skipped, wm) entries
     else if out \<noteq> ImpCreate then import_entries env now (applied, conflicts, skipped + 1, wm) entries
     else bindE (import_entity env now (pl_entity entry)) (\<lambda>sequence.
       import_entries env now (applied + 1, conflicts, skipped, Some sequence) entries))"

definition commitImport :: "backend_env \<Rightarrow> int \<Rightarrow> auth \<Rightarrow> string \<Rightarrow> (import_result \<times> int option) acct" where
  "commitImport env now au i =
     bindE (loadDataOperation now i ''import'') (\<lambda>op.
     if dop_state op = ''committed'' \<and> dop_result op \<noteq> None then ret (the (dop_result op), None)
     else if dop_state op \<noteq> ''previewed''
     then throw (RpcFailure E_invalid_transition (JObj [(''reason'', JStr ''import-not-previewed''), (''state'', JStr (dop_state op))]))
     else thenE (modify (provisionEnrollment now au))
       (bindE (import_entries env now (0, 0, 0, None) (case dop_plan op of None \<Rightarrow> [] | Some p \<Rightarrow> p))
         (\<lambda>(applied, conflicts, skipped, wm).
          let result = \<lparr>ir_operation = dop_id op, ir_applied = applied, ir_conflicts = conflicts, ir_skipped = skipped\<rparr> in
          thenE (modify (update_operation i (\<lambda>r. r\<lparr>dop_state := ''committed'', dop_finished := Some now,
             dop_result := Some result\<rparr>))) (ret (result, wm)))))"

definition handleDataImportCommit :: "backend_env \<Rightarrow> int \<Rightarrow> auth \<Rightarrow> js \<Rightarrow> (import_result \<times> int option) acct" where
  "handleDataImportCommit env now au params =
     bindE (lift_sum (parseDataImportCommitParams params)) (\<lambda>i. commit (commitImport env now au i))"

section \<open>Status\<close>

record operation_status =
  os_operation :: string
  os_kind :: string
  os_state :: string
  os_created :: string
  os_finished :: "string option"
  os_watermark :: "int option"
  os_cursor :: "string option"
  os_result :: "import_result option"

definition handleDataOperationStatus :: "backend_env \<Rightarrow> js \<Rightarrow> operation_status acct" where
  "handleDataOperationStatus env params =
     bindE (lift_sum (parseDataOperationStatusParams params)) (\<lambda>i.
     bindE (gets (find_operation i)) (\<lambda>found. case found of
       None \<Rightarrow> throw (fail_reason E_not_found ''data-operation'')
     | Some op \<Rightarrow> ret \<lparr>os_operation = dop_id op, os_kind = dop_kind op, os_state = dop_state op,
         os_created = pf_iso (be_pf env) (dop_created op),
         os_finished = map_option (pf_iso (be_pf env)) (dop_finished op),
         os_watermark = dop_watermark op, os_cursor = dop_cursor op,
         os_result = (if dop_state op = ''committed'' then dop_result op else None)\<rparr>))"

end
