(* ===== verification/Account_Journal.thy ===== *)
theory Account_Journal
  imports Account_Portability
begin

text \<open>
  The journal of an account and the heads of its entities: the invariant that ties them together, what
  an accepted change and the retention sweep do to them, and how the heads may move from one state to a
  later one.
\<close>

section \<open>Heads\<close>

type_synonym entity_key = "string \<times> string"

definition chg_key :: "change_row \<Rightarrow> entity_key" where
  "chg_key c = (chg_type c, chg_id c)"

definition head :: "entity_row list \<Rightarrow> entity_key \<Rightarrow> entity_row option" where
  "head es k = find (\<lambda>e. ent_key e = k) es"

lemma readEntity_head: "readEntity t i s = head (entities s) (t, i)"
  by (simp add: readEntity_def head_def ent_key_def)

lemma head_key: "head es k = Some e \<Longrightarrow> ent_key e = k"
  by (auto simp: head_def find_Some_iff)

lemma head_in: "head es k = Some e \<Longrightarrow> e \<in> set es"
  by (auto simp: head_def find_Some_iff)

lemma head_None: "head es k = None \<longleftrightarrow> k \<notin> ent_key ` set es"
  by (auto simp: head_def find_None_iff)

lemma head_distinct: "distinct (map ent_key es) \<Longrightarrow> e \<in> set es \<Longrightarrow> head es (ent_key e) = Some e"
  unfolding head_def by (induction es) auto

lemma head_append: "head (es @ [e]) = (\<lambda>k. case head es k of Some x \<Rightarrow> Some x | None \<Rightarrow> if ent_key e = k then Some e else None)"
  unfolding head_def by (induction es) (auto simp: fun_eq_iff)

lemma head_snoc: "head es (ent_key e) = None \<Longrightarrow> head (es @ [e]) = (head es)(ent_key e \<mapsto> e)"
  by (auto simp: head_append fun_eq_iff split: option.splits)

lemma head_replace_other:
  "k \<noteq> ent_key e \<Longrightarrow> head (map (\<lambda>r. if ent_key r = ent_key e then e else r) es) k = head es k"
  unfolding head_def by (induction es) auto

lemma head_replace_same:
  "ent_key e \<in> ent_key ` set es \<Longrightarrow> head (map (\<lambda>r. if ent_key r = ent_key e then e else r) es) (ent_key e) = Some e"
  unfolding head_def by (induction es) auto

lemma head_replace:
  assumes "head es (ent_key e) \<noteq> None"
  shows "head (map (\<lambda>r. if ent_key r = ent_key e then e else r) es) = (head es)(ent_key e \<mapsto> e)"
proof
  fix k
  show "head (map (\<lambda>r. if ent_key r = ent_key e then e else r) es) k = ((head es)(ent_key e \<mapsto> e)) k"
    using head_replace_other [of k e es] head_replace_same [of e es] assms head_None [of es "ent_key e"]
    by (cases "k = ent_key e") auto
qed

lemma map_key_replace: "map ent_key (map (\<lambda>r. if ent_key r = ent_key e then e else r) es) = map ent_key es"
  by (induction es) auto

section \<open>The invariant\<close>

text \<open>
  \<open>head_ok\<close>: a head is a known sequence number, and has a payload unless it is a tombstone.
  \<open>row_ok\<close>: a journal row belongs to an entity and is either its head, described by the same data, or
  older: then its revision is smaller and it has its own payload.
\<close>

definition head_ok :: "(string \<Rightarrow> bool) \<Rightarrow> int \<Rightarrow> entity_row \<Rightarrow> bool" where
  "head_ok P n e \<longleftrightarrow> 0 < ent_sequence e \<and> ent_sequence e < n \<and> ent_type e \<noteq> [] \<and> ent_id e \<noteq> [] \<and>
     (ent_payload e = None \<longleftrightarrow> ent_operation e = SyncDelete) \<and> (\<forall>t. ent_payload e = Some t \<longrightarrow> P t)"

definition same_row :: "change_row \<Rightarrow> entity_row \<Rightarrow> bool" where
  "same_row c e \<longleftrightarrow> chg_payload c = None \<and> chg_revision c = ent_revision e \<and>
     chg_operation c = ent_operation e \<and> chg_schema c = ent_schema e"

definition row_ok :: "(string \<Rightarrow> bool) \<Rightarrow> (entity_key \<Rightarrow> entity_row option) \<Rightarrow> int \<Rightarrow> change_row \<Rightarrow> bool" where
  "row_ok P H n c \<longleftrightarrow> 0 < chg_sequence c \<and> chg_sequence c < n \<and>
     (\<exists>e. H (chg_key c) = Some e \<and> chg_sequence c \<le> ent_sequence e \<and>
        (if chg_sequence c = ent_sequence e then same_row c e
         else chg_revision c < ent_revision e \<and>
           (chg_operation c = SyncDelete \<or> (\<exists>t. chg_payload c = Some t \<and> P t))))"

definition journal_ok :: "(string \<Rightarrow> bool) \<Rightarrow> entity_row list \<Rightarrow> change_row list \<Rightarrow> int \<Rightarrow> int \<Rightarrow> bool" where
  "journal_ok P es cs n fl \<longleftrightarrow>
     distinct (map ent_key es) \<and> sorted_wrt (<) (map chg_sequence cs) \<and> 0 \<le> fl \<and> fl < n \<and>
     (\<forall>e \<in> set es. head_ok P n e) \<and>
     (\<forall>c \<in> set cs. row_ok P (head es) n c) \<and>
     (\<forall>c \<in> set cs. \<forall>e \<in> set es. chg_sequence c = ent_sequence e \<longrightarrow> chg_key c = ent_key e) \<and>
     (\<forall>q. fl < q \<and> q < n \<longrightarrow> q \<in> chg_sequence ` set cs)"

text \<open>
  How heads move: an entity never disappears, and a head that is not an old one is newer than every
  sequence number of before and has a larger revision than the head it replaced.
\<close>

definition newer :: "entity_row option \<Rightarrow> entity_row \<Rightarrow> bool" where
  "newer old e \<longleftrightarrow> (case old of None \<Rightarrow> True | Some e0 \<Rightarrow> ent_revision e0 < ent_revision e)"

definition heads_grow :: "entity_row list \<Rightarrow> int \<Rightarrow> entity_row list \<Rightarrow> int \<Rightarrow> bool" where
  "heads_grow es n es' n' \<longleftrightarrow> n \<le> n' \<and>
     (\<forall>k e'. head es' k = Some e' \<longrightarrow> head es k = Some e' \<or> n \<le> ent_sequence e' \<and> newer (head es k) e') \<and>
     (\<forall>k. head es k \<noteq> None \<longrightarrow> head es' k \<noteq> None)"

lemma heads_grow_refl [simp]: "heads_grow es n es n"
  by (simp add: heads_grow_def)

lemma heads_growD:
  assumes "heads_grow es n es' n'"
  shows "n \<le> n'" "head es' k = Some e \<Longrightarrow> head es k = Some e \<or> n \<le> ent_sequence e \<and> newer (head es k) e"
    "head es k = Some e \<Longrightarrow> \<exists>e'. head es' k = Some e' \<and> (e' = e \<or> ent_revision e < ent_revision e')"
proof -
  show "n \<le> n'" using assms by (simp add: heads_grow_def)
  show was: "head es k = Some e \<or> n \<le> ent_sequence e \<and> newer (head es k) e" if "head es' k = Some e" for k e
    using assms that unfolding heads_grow_def by blast
  assume e: "head es k = Some e"
  with assms have "head es' k \<noteq> None" unfolding heads_grow_def by blast
  then obtain e' where "head es' k = Some e'" by blast
  with was [OF this] e show "\<exists>e'. head es' k = Some e' \<and> (e' = e \<or> ent_revision e < ent_revision e')"
    by (auto simp: newer_def)
qed

lemma heads_grow_trans:
  assumes G: "heads_grow es n es' n'" and G': "heads_grow es' n' es'' n''"
  shows "heads_grow es n es'' n''"
proof -
  have "head es k = Some e \<or> n \<le> ent_sequence e \<and> newer (head es k) e" if e: "head es'' k = Some e" for k e
  proof (cases "head es' k = Some e")
    case True
    then show ?thesis using heads_growD(2) [OF G] by simp
  next
    case False
    then have e': "n' \<le> ent_sequence e" "newer (head es' k) e" and n: "n \<le> n'"
      using heads_growD(1) [OF G] heads_growD(2) [OF G' e] by simp_all
    have "newer (head es k) e"
    proof (cases "head es k")
      case (Some x)
      then show ?thesis using e'(2) heads_growD(3) [OF G Some] by (auto simp: newer_def)
    qed (simp add: newer_def)
    then show ?thesis using e' n by simp
  qed
  then show ?thesis
    using G G' unfolding heads_grow_def by (meson order_trans)
qed

section \<open>An accepted change\<close>

definition fill :: "entity_row option \<Rightarrow> change_row list \<Rightarrow> change_row list" where
  "fill existing cs = (case existing of None \<Rightarrow> cs
     | Some e \<Rightarrow> if ent_operation e = SyncDelete \<or> ent_payload e = None then cs
         else map (\<lambda>r. if chg_sequence r = ent_sequence e \<and> chg_payload r = None
                then r\<lparr>chg_payload := ent_payload e\<rparr> else r) cs)"

lemma map_sequence_fill [simp]: "map chg_sequence (fill existing cs) = map chg_sequence cs"
  by (auto simp: fill_def split: option.splits)

lemma image_sequence_fill [simp]: "chg_sequence ` set (fill existing cs) = chg_sequence ` set cs"
  using map_sequence_fill [of existing cs] by (metis set_map)

lemma in_fill:
  assumes "c \<in> set (fill existing cs)"
  obtains c0 where "c0 \<in> set cs" "chg_sequence c = chg_sequence c0" "chg_key c = chg_key c0"
    "chg_revision c = chg_revision c0" "chg_operation c = chg_operation c0" "chg_schema c = chg_schema c0"
    "chg_payload c = (case existing of Some e \<Rightarrow>
        if ent_operation e \<noteq> SyncDelete \<and> ent_payload e \<noteq> None \<and> chg_sequence c0 = ent_sequence e \<and> chg_payload c0 = None
        then ent_payload e else chg_payload c0 | None \<Rightarrow> chg_payload c0)"
  using assms by (auto simp: fill_def chg_key_def split: option.splits if_splits)

definition put_head :: "entity_row \<Rightarrow> entity_row list \<Rightarrow> entity_row list" where
  "put_head e es = (if head es (ent_key e) = None then es @ [e]
     else map (\<lambda>r. if ent_key r = ent_key e then e else r) es)"

lemma head_put [simp]: "head (put_head e es) = (head es)(ent_key e \<mapsto> e)"
  by (simp add: put_head_def head_snoc head_replace)

lemma distinct_put [simp]: "distinct (map ent_key es) \<Longrightarrow> distinct (map ent_key (put_head e es))"
  by (auto simp: put_head_def map_key_replace head_None simp del: map_map)

lemma set_put: "set (put_head e es) \<subseteq> insert e (set es)"
  by (auto simp: put_head_def)

lemma in_put: "distinct (map ent_key es) \<Longrightarrow> x \<in> set (put_head e es) \<Longrightarrow> x = e \<or> x \<in> set es \<and> ent_key x \<noteq> ent_key e"
  using head_distinct [of "put_head e es" x] by (auto split: if_splits dest: head_in)

text \<open>The new head and its journal row are for the next sequence number, and the revision is new.\<close>

definition new_pair :: "(string \<Rightarrow> bool) \<Rightarrow> entity_row list \<Rightarrow> int \<Rightarrow> entity_row \<Rightarrow> change_row \<Rightarrow> bool" where
  "new_pair P es n e c \<longleftrightarrow> newer (head es (ent_key e)) e \<and> head_ok P (n + 1) e \<and> ent_sequence e = n \<and> chg_sequence c = n \<and>
     chg_key c = ent_key e \<and> same_row c e"

lemma journal_okD:
  assumes "journal_ok P es cs n fl"
  shows "distinct (map ent_key es)" "sorted_wrt (<) (map chg_sequence cs)" "0 \<le> fl" "fl < n"
    "\<And>e. e \<in> set es \<Longrightarrow> head_ok P n e" "\<And>c. c \<in> set cs \<Longrightarrow> row_ok P (head es) n c"
    "\<And>c e. c \<in> set cs \<Longrightarrow> e \<in> set es \<Longrightarrow> chg_sequence c = ent_sequence e \<Longrightarrow> chg_key c = ent_key e"
    "\<And>q. fl < q \<Longrightarrow> q < n \<Longrightarrow> q \<in> chg_sequence ` set cs"
  using assms unfolding journal_ok_def by blast+

lemma journalled_row: "row_ok P H n c \<Longrightarrow> H (chg_key c) = Some e \<Longrightarrow> chg_sequence c = ent_sequence e \<Longrightarrow> same_row c e"
  by (auto simp: row_ok_def)

lemma head_journalled:
  assumes J: "journal_ok P es cs n fl" and e: "e \<in> set es" "fl < ent_sequence e" and n: "ent_sequence e < n"
  shows "\<exists>c \<in> set cs. chg_sequence c = ent_sequence e \<and> (chg_type c, chg_id c) = ent_key e \<and>
    chg_revision c = ent_revision e \<and> chg_operation c = ent_operation e \<and> chg_schema c = ent_schema e"
proof -
  from journal_okD(8) [OF J e(2) n] obtain c where c: "c \<in> set cs" "chg_sequence c = ent_sequence e" by auto
  have k: "chg_key c = ent_key e" by (rule journal_okD(7) [OF J c(1) e(1) c(2)])
  have "head es (ent_key e) = Some e" by (rule head_distinct [OF journal_okD(1) [OF J] e(1)])
  with journalled_row [OF journal_okD(6) [OF J c(1)]] k c(2) have "same_row c e" by simp
  with c k show ?thesis by (auto simp: same_row_def chg_key_def)
qed

lemma row_ok_fill:
  assumes J: "journal_ok P es cs n fl" and N: "new_pair P es n e c"
    and D: "d \<in> set (fill (head es (ent_key e)) cs)"
  shows "row_ok P ((head es)(ent_key e \<mapsto> e)) (n + 1) d"
proof -
  from D obtain d0 where d0: "d0 \<in> set cs" "chg_sequence d = chg_sequence d0" "chg_key d = chg_key d0"
    "chg_revision d = chg_revision d0" "chg_operation d = chg_operation d0" "chg_schema d = chg_schema d0"
    and p: "chg_payload d = (case head es (ent_key e) of Some x \<Rightarrow>
        if ent_operation x \<noteq> SyncDelete \<and> ent_payload x \<noteq> None \<and> chg_sequence d0 = ent_sequence x \<and> chg_payload d0 = None
        then ent_payload x else chg_payload d0 | None \<Rightarrow> chg_payload d0)"
    by (rule in_fill)
  from journal_okD(6) [OF J d0(1)] obtain h where
    r: "0 < chg_sequence d0" "chg_sequence d0 < n" and h: "head es (chg_key d0) = Some h"
    "chg_sequence d0 \<le> ent_sequence h"
    "if chg_sequence d0 = ent_sequence h then same_row d0 h
     else chg_revision d0 < ent_revision h \<and>
       (chg_operation d0 = SyncDelete \<or> (\<exists>t. chg_payload d0 = Some t \<and> P t))"
    by (auto simp: row_ok_def)
  from journal_okD(5) [OF J head_in [OF h(1)]] have hok: "head_ok P n h" .
  show ?thesis
  proof (cases "chg_key d0 = ent_key e")
    case True
    with h p have p': "chg_payload d = (if ent_operation h \<noteq> SyncDelete \<and> ent_payload h \<noteq> None \<and>
        chg_sequence d0 = ent_sequence h \<and> chg_payload d0 = None then ent_payload h else chg_payload d0)"
      by simp
    have "chg_operation d = SyncDelete \<or> (\<exists>t. chg_payload d = Some t \<and> P t)"
      using h(3) hok p' d0(5) by (auto simp: same_row_def head_ok_def split: if_splits)
    moreover have "ent_revision h < ent_revision e"
      using N h(1) True by (simp add: new_pair_def newer_def)
    then have "chg_revision d0 < ent_revision e"
      using h(3) by (auto simp: same_row_def split: if_splits)
    ultimately show ?thesis
      using True N r d0 by (auto simp: row_ok_def new_pair_def)
  next
    case False
    have "chg_payload d = chg_payload d0"
    proof (cases "head es (ent_key e)")
      case (Some x)
      have "chg_sequence d0 \<noteq> ent_sequence x"
        using journal_okD(7) [OF J d0(1) head_in [OF Some]] head_key [OF Some] False by auto
      with p Some show ?thesis by simp
    qed (use p in simp)
    with False r h d0 show ?thesis
      by (auto simp: row_ok_def same_row_def)
  qed
qed

lemma journal_ok_accept:
  assumes J: "journal_ok P es cs n fl" and N: "new_pair P es n e c"
  shows "journal_ok P (put_head e es) (fill (head es (ent_key e)) cs @ [c]) (n + 1) fl"
proof -
  note D = journal_okD [OF J]
  have seqs: "\<forall>d \<in> set cs. chg_sequence d < n"
    using D(6) by (auto simp: row_ok_def)
  have rows: "\<forall>d \<in> set (fill (head es (ent_key e)) cs @ [c]). row_ok P (head (put_head e es)) (n + 1) d"
    using row_ok_fill [OF J N] N D(3,4) by (auto simp: row_ok_def new_pair_def)
  have heads: "\<forall>x \<in> set (put_head e es). head_ok P (n + 1) x"
  proof
    fix x assume "x \<in> set (put_head e es)"
    from in_put [OF D(1) this] consider "x = e" | "x \<in> set es" by blast
    then show "head_ok P (n + 1) x"
      by cases (use N D(5) [of x] in \<open>simp_all add: new_pair_def head_ok_def\<close>)
  qed
  have uniq: "\<forall>d \<in> set (fill (head es (ent_key e)) cs @ [c]). \<forall>x \<in> set (put_head e es).
      chg_sequence d = ent_sequence x \<longrightarrow> chg_key d = ent_key x"
  proof (intro ballI impI)
    fix d x assume d: "d \<in> set (fill (head es (ent_key e)) cs @ [c])" and x: "x \<in> set (put_head e es)"
      and eq: "chg_sequence d = ent_sequence x"
    from d consider "d = c" | d0 where "d0 \<in> set cs" "chg_sequence d = chg_sequence d0" "chg_key d = chg_key d0"
      by (auto elim: in_fill)
    then show "chg_key d = ent_key x"
    proof cases
      case 1
      then show ?thesis
        using in_put [OF D(1) x] eq N D(5) by (fastforce simp: new_pair_def head_ok_def)
    next
      case 2
      then show ?thesis
        using in_put [OF D(1) x] eq N seqs D(7) [OF 2(1)] by (auto simp: new_pair_def)
    qed
  qed
  have full: "\<forall>q. fl < q \<and> q < n + 1 \<longrightarrow> q \<in> chg_sequence ` set (fill (head es (ent_key e)) cs @ [c])"
    using D(8) N by (force simp: new_pair_def)
  show ?thesis
    unfolding journal_ok_def
    using D(1-4) rows heads uniq full seqs N
    by (simp add: sorted_wrt_append new_pair_def)
qed

lemma heads_grow_accept:
  assumes "new_pair P es n e c"
  shows "heads_grow es n (put_head e es) (n + 1)"
  using assms by (auto simp: heads_grow_def new_pair_def)

section \<open>Retention\<close>

lemma journal_ok_delete:
  assumes J: "journal_ok P es cs n fl" and old: "\<And>r. r \<in> set rows \<Longrightarrow> chg_sequence r \<le> fl'"
    and fl': "fl \<le> fl'" "fl' < n"
  shows "journal_ok P es (filter (\<lambda>r. chg_sequence r \<notin> chg_sequence ` set rows) cs) n fl'"
proof -
  note D = journal_okD [OF J]
  have "sorted_wrt (<) (map chg_sequence (filter (\<lambda>r. chg_sequence r \<notin> chg_sequence ` set rows) cs))"
    using D(2) by (simp add: sorted_wrt_map sorted_wrt_filter)
  moreover have "q \<in> chg_sequence ` set (filter (\<lambda>r. chg_sequence r \<notin> chg_sequence ` set rows) cs)"
    if "fl' < q" "q < n" for q
    using D(8) [of q] that fl' old by force
  ultimately show ?thesis
    unfolding journal_ok_def using D fl' by auto
qed

lemma sorted_le_last: "sorted (map f ys) \<Longrightarrow> r \<in> set ys \<Longrightarrow> f r \<le> f (last ys)"
  by (induction ys) auto

lemma last_take_sorted:
  "r \<in> set (take k (sort_key f xs)) \<Longrightarrow> f r \<le> f (last (take k (sort_key f xs)))"
  by (rule sorted_le_last) (simp_all add: take_map [symmetric] sorted_wrt_take)

lemma set_take_sorted: "r \<in> set (take k (sort_key f xs)) \<Longrightarrow> r \<in> set xs"
  by (metis in_set_takeD set_sort)

end
