(* ===== verification/Account_Laws.thy ===== *)
theory Account_Laws
  imports Account_Journal
begin

text \<open>
  The invariant of an account and the proof that every handler and the sweep keep it. A scan row also
  remembers the last page it answered with; the invariant says what that page covers, whatever was
  pushed since.
\<close>

section \<open>Contents\<close>

type_synonym content = "int \<times> sync_op \<times> int \<times> js option"

definition readable :: "backend_env \<Rightarrow> string \<Rightarrow> bool" where
  "readable env t \<longleftrightarrow> be_json env t \<noteq> None"

definition content :: "backend_env \<Rightarrow> entity_row \<Rightarrow> content" where
  "content env e = (ent_revision e, ent_operation e, ent_schema e,
     case ent_payload e of None \<Rightarrow> None | Some t \<Rightarrow> be_json env t)"

definition scd_key :: "scanned \<Rightarrow> entity_key" where
  "scd_key c = (scd_type c, scd_id c)"

definition scd_content :: "scanned \<Rightarrow> content" where
  "scd_content c = (scd_revision c, scd_operation c, scd_schema c, scd_payload c)"

definition cursor_key :: "backend_env \<Rightarrow> string option \<Rightarrow> entity_key option" where
  "cursor_key env c = (case c of None \<Rightarrow> None | Some t \<Rightarrow>
     (case decodeEntityCursor env t of Inl _ \<Rightarrow> None | Inr k \<Rightarrow> Some k))"

text \<open>What \<open>JSON.parse\<close> is relied on: it reads the texts \<open>JSON.stringify\<close> makes of JSON values.\<close>

primrec is_json :: "js \<Rightarrow> bool" where
  "is_json JUndef = False"
| "is_json JNull = True"
| "is_json (JBool b) = True"
| "is_json (JNum x) = num_finite x"
| "is_json (JStr s) = True"
| "is_json (JArr xs) = list_all id (map is_json xs)"
| "is_json (JObj kvs) = list_all snd (map (map_prod id is_json) kvs)"

definition json_reads :: "backend_env \<Rightarrow> bool" where
  "json_reads env \<longleftrightarrow> (\<forall>v. is_json v \<longrightarrow> readable env (json_text (be_pf env) v)) \<and>
     (\<forall>t i. be_json env (encodeEntityCursor t i) = Some (JArr [JStr t, JStr i]))"

lemma cursor_key_encode:
  "json_reads env \<Longrightarrow> t \<noteq> [] \<Longrightarrow> i \<noteq> [] \<Longrightarrow> cursor_key env (Some (encodeEntityCursor t i)) = Some (t, i)"
  by (simp add: cursor_key_def decodeEntityCursor_def json_reads_def)

lemma is_json_jget: "is_json v \<Longrightarrow> has_own v k \<Longrightarrow> is_json (jget v k)"
  by (auto simp: has_own_def jget_def list_all_iff split: js.splits option.splits dest!: map_of_SomeD)

lemma is_json_get: "is_json v \<Longrightarrow> jget v k \<noteq> JUndef \<Longrightarrow> is_json (jget v k)"
  by (auto simp: jget_def list_all_iff split: js.splits option.splits dest!: map_of_SomeD)

lemma is_json_items: "is_json v \<Longrightarrow> x \<in> set (js_items v) \<Longrightarrow> is_json x"
  by (cases v) (auto simp: js_items_def list_all_iff)

section \<open>The invariant\<close>

definition key_in :: "entity_key option \<Rightarrow> entity_key \<Rightarrow> bool" where
  "key_in lo k \<longleftrightarrow> (case lo of None \<Rightarrow> True | Some l \<Rightarrow> l < k)"

definition in_page :: "backend_env \<Rightarrow> entity_key option \<Rightarrow> scan_page \<Rightarrow> entity_key \<Rightarrow> bool" where
  "in_page env lo p k \<longleftrightarrow> key_in lo k \<and> (pg_done p \<or> (\<exists>hi. cursor_key env (pg_next p) = Some hi \<and> k \<le> hi))"

text \<open>A content that a device read is that of the head, or of an older revision.\<close>

definition below :: "backend_env \<Rightarrow> entity_row option \<Rightarrow> content \<Rightarrow> bool" where
  "below env h x \<longleftrightarrow> (\<exists>e. h = Some e \<and> (fst x < ent_revision e \<or> x = content env e))"

definition page_covers ::
  "backend_env \<Rightarrow> entity_row list \<Rightarrow> int \<Rightarrow> entity_key option \<Rightarrow> scan_page \<Rightarrow> bool" where
  "page_covers env es start lo p \<longleftrightarrow>
     (\<forall>e \<in> set es. ent_sequence e \<le> start \<and> in_page env lo p (ent_key e) \<longrightarrow>
        (\<exists>c \<in> set (pg_entities p). scd_key c = ent_key e \<and> scd_content c = content env e)) \<and>
     (\<forall>c \<in> set (pg_entities p). in_page env lo p (scd_key c) \<and> below env (head es (scd_key c)) (scd_content c)) \<and>
     distinct (map scd_key (pg_entities p)) \<and>
     (\<not> pg_done p \<longrightarrow> cursor_key env (pg_next p) \<noteq> None)"

definition scan_ok :: "backend_env \<Rightarrow> entity_row list \<Rightarrow> int \<Rightarrow> scan_row \<Rightarrow> bool" where
  "scan_ok env es n r \<longleftrightarrow> 0 \<le> scn_start r \<and> scn_start r < n \<and>
     (\<forall>w. scn_end r = Some w \<longrightarrow> 0 \<le> w \<and> w < n) \<and>
     (\<forall>p. scn_result r = Some p \<longrightarrow> page_covers env es (scn_start r) (cursor_key env (scn_request r)) p) \<and>
     (scn_done r \<longrightarrow> (\<forall>e \<in> set es. ent_sequence e \<le> scn_start r \<longrightarrow>
        \<not> key_in (cursor_key env (scn_cursor r)) (ent_key e)))"

text \<open>The entries of a staged import hold JSON values.\<close>

definition plan_ok :: "operation_row \<Rightarrow> bool" where
  "plan_ok r \<longleftrightarrow> (\<forall>plan. dop_plan r = Some plan \<longrightarrow> (\<forall>p \<in> set plan. is_json (exp_payload (pl_entity p))))"

definition account_ok :: "backend_env \<Rightarrow> account \<Rightarrow> bool" where
  "account_ok env s \<longleftrightarrow>
     journal_ok (readable env) (entities s) (changes s) (meta_next_sequence s) (meta_retention_floor s) \<and>
     (\<forall>t. meta_compaction_target s = Some t \<longrightarrow> t < meta_next_sequence s) \<and>
     distinct (map scn_id (scans s)) \<and>
     (\<forall>r \<in> set (scans s). scan_ok env (entities s) (meta_next_sequence s) r) \<and>
     (\<forall>r \<in> set (operations s). plan_ok r)"

text \<open>A scan keeps its start, and one that begins later starts later.\<close>

definition scans_grow :: "scan_row list \<Rightarrow> int \<Rightarrow> scan_row list \<Rightarrow> bool" where
  "scans_grow rs n rs' \<longleftrightarrow> (\<forall>r' \<in> set rs'.
     (\<exists>r \<in> set rs. scn_id r = scn_id r' \<and> scn_start r = scn_start r') \<or> n \<le> scn_start r' + 1)"

lemma scans_grow_refl [simp]: "scans_grow rs n rs"
  by (auto simp: scans_grow_def)

lemma scans_grow_filter [simp]: "scans_grow rs n (filter Q rs)"
  by (auto simp: scans_grow_def)

lemma scans_grow_trans: "scans_grow rs n rs' \<Longrightarrow> n \<le> n' \<Longrightarrow> scans_grow rs' n' rs'' \<Longrightarrow> scans_grow rs n rs''"
  unfolding scans_grow_def by (metis order_trans)

definition acct_grows :: "account \<Rightarrow> account \<Rightarrow> bool" where
  "acct_grows s s' \<longleftrightarrow>
     heads_grow (entities s) (meta_next_sequence s) (entities s') (meta_next_sequence s') \<and>
     meta_retention_floor s \<le> meta_retention_floor s' \<and>
     scans_grow (scans s) (meta_next_sequence s) (scans s')"

lemma acct_grows_refl [simp]: "acct_grows s s"
  by (simp add: acct_grows_def)

lemma acct_grows_trans: "acct_grows s t \<Longrightarrow> acct_grows t u \<Longrightarrow> acct_grows s u"
  unfolding acct_grows_def
  by (metis heads_grow_def heads_grow_trans order_trans scans_grow_trans)

lemma new_account_ok: "account_ok env new_account"
  by (simp add: account_ok_def new_account_def journal_ok_def)

lemma old_head_stays:
  assumes "heads_grow es n es' n'" "distinct (map ent_key es')" "e \<in> set es'" "ent_sequence e < n"
  shows "e \<in> set es"
proof -
  have "head es' (ent_key e) = Some e"
    by (rule head_distinct [OF assms(2,3)])
  then have "head es (ent_key e) = Some e"
    using assms(1,4) unfolding heads_grow_def by (meson not_le)
  then show ?thesis by (rule head_in)
qed

lemma below_grow: "heads_grow es n es' n' \<Longrightarrow> below env (head es k) x \<Longrightarrow> below env (head es' k) x"
  unfolding below_def by (fastforce simp: content_def dest: heads_growD(3))

lemma page_covers_grow:
  assumes P: "page_covers env es start lo p" and G: "heads_grow es n es' n'" "distinct (map ent_key es')"
    and start: "start < n"
  shows "page_covers env es' start lo p"
proof -
  have "e \<in> set es" if "e \<in> set es'" "ent_sequence e \<le> start" for e
    by (rule old_head_stays [OF G that(1)]) (use that start in simp)
  then show ?thesis
    using P below_grow [OF G(1)] unfolding page_covers_def by blast
qed

lemma scan_ok_grow:
  assumes S: "scan_ok env es n r" and G: "heads_grow es n es' n'" "distinct (map ent_key es')"
  shows "scan_ok env es' n' r"
proof -
  have start: "scn_start r < n" and n: "n \<le> n'"
    using S G(1) by (auto simp: scan_ok_def heads_grow_def)
  have "e \<in> set es" if "e \<in> set es'" "ent_sequence e \<le> scn_start r" for e
    by (rule old_head_stays [OF G that(1)]) (use that start in simp)
  then show ?thesis
    using S page_covers_grow [OF _ G start] n unfolding scan_ok_def by (auto dest: order_less_le_trans)
qed

section \<open>Computations that keep the invariant\<close>

text \<open>
  \<open>evolves\<close>: a computation that returns leads from a good account to a good account whose heads have
  only grown; one that throws is undone by \<open>commit\<close>.
\<close>

definition evolves :: "backend_env \<Rightarrow> 'a acct \<Rightarrow> bool" where
  "evolves env m \<longleftrightarrow> (\<forall>s. account_ok env s \<longrightarrow>
     wp m (\<lambda>_ s'. account_ok env s' \<and> acct_grows s s') (\<lambda>_ _. True) s)"

lemma evolvesD: "evolves env m \<Longrightarrow> account_ok env s \<Longrightarrow> wp m (\<lambda>_ s'. account_ok env s' \<and> acct_grows s s') (\<lambda>_ _. True) s"
  by (simp add: evolves_def)

lemma evolvesI: "(\<And>s. account_ok env s \<Longrightarrow> wp m (\<lambda>_ s'. account_ok env s' \<and> acct_grows s s') (\<lambda>_ _. True) s) \<Longrightarrow> evolves env m"
  by (simp add: evolves_def)

lemma evolves_bind:
  assumes "evolves env m" "\<And>x. evolves env (f x)"
  shows "evolves env (bindE m f)"
proof (rule evolvesI)
  fix s assume "account_ok env s"
  from evolvesD [OF assms(1) this]
  have "wp m (\<lambda>x. wp (f x) (\<lambda>_ s'. account_ok env s' \<and> acct_grows s s') (\<lambda>_ _. True)) (\<lambda>_ _. True) s"
  proof (rule wp_mono)
    fix x t assume "account_ok env t \<and> acct_grows s t"
    then show "wp (f x) (\<lambda>_ s'. account_ok env s' \<and> acct_grows s s') (\<lambda>_ _. True) t"
      using evolvesD [OF assms(2) [of x], of t] by (auto elim!: wp_mono intro: acct_grows_trans)
  qed simp
  then show "wp (bindE m f) (\<lambda>_ s'. account_ok env s' \<and> acct_grows s s') (\<lambda>_ _. True) s"
    by (simp add: wp_simps)
qed

lemma evolves_then: "evolves env m \<Longrightarrow> evolves env k \<Longrightarrow> evolves env (thenE m k)"
  using evolves_bind [of env m "\<lambda>_. k"] by (simp add: thenE_def bindE_def)

lemma evolves_ret: "evolves env (ret x)"
  by (simp add: evolves_def wp_simps)

lemma evolves_throw: "evolves env (throw x)"
  by (simp add: evolves_def wp_simps)

lemma evolves_gets: "evolves env (gets f)"
  by (simp add: evolves_def wp_simps)

lemma evolves_lift: "evolves env (lift_sum r)"
  by (cases r) (simp_all add: evolves_def wp_simps)

lemma evolves_if: "evolves env m \<Longrightarrow> evolves env k \<Longrightarrow> evolves env (if b then m else k)"
  by simp

definition same_core :: "account \<Rightarrow> account \<Rightarrow> bool" where
  "same_core s s' \<longleftrightarrow> entities s' = entities s \<and> changes s' = changes s \<and>
     meta_next_sequence s' = meta_next_sequence s \<and> meta_retention_floor s' = meta_retention_floor s \<and>
     meta_compaction_target s' = meta_compaction_target s \<and> scans s' = scans s \<and>
     ((\<forall>r \<in> set (operations s). plan_ok r) \<longrightarrow> (\<forall>r \<in> set (operations s'). plan_ok r))"

lemma same_core_refl [simp]: "same_core s s"
  by (simp add: same_core_def)

lemma same_core_trans: "same_core s t \<Longrightarrow> same_core t u \<Longrightarrow> same_core s u"
  by (simp add: same_core_def)

lemma same_core_ok: "same_core s s' \<Longrightarrow> account_ok env s \<Longrightarrow> account_ok env s' \<and> acct_grows s s'"
  by (simp add: same_core_def account_ok_def acct_grows_def)

lemma same_core_updates [simp]:
  "same_core s (bumpCounter k n s)" "same_core s (addHistoryBytes d s)"
  "same_core s (provisionEnrollment now au s)" "same_core s (advanceHighWater i n s)"
  "same_core s (observeSyncKeyVersion p s)"
  by (auto simp: same_core_def bumpCounter_def addHistoryBytes_def provisionEnrollment_def
      advanceHighWater_def observeSyncKeyVersion_def split: option.splits)

lemma same_core_update_operation [simp]:
  "(\<And>r. dop_plan (f r) = dop_plan r) \<Longrightarrow> same_core s (update_operation i f s)"
  by (auto simp: same_core_def update_operation_def plan_ok_def)

lemma evolves_modify: "(\<And>s. same_core s (f s)) \<Longrightarrow> evolves env (modify f)"
  using same_core_ok by (fastforce simp: evolves_def wp_simps)

lemmas evolves_intros = evolves_bind evolves_then evolves_ret evolves_throw evolves_gets evolves_lift
  evolves_if evolves_modify

section \<open>The primitives\<close>

lemma wp_commit [wp_simps]: "wp (commit m) Q E s = wp m Q (\<lambda>e _. E e s) s"
  by (auto simp: wp_def commit_def split: prod.splits sum.splits)

lemma evolves_commit: "evolves env m \<Longrightarrow> evolves env (commit m)"
  by (simp add: evolves_def wp_simps)

lemma wp_readEnrollment [wp_simps]:
  "wp (readEnrollment i) Q E s = (case find (\<lambda>r. enr_id r = i) (enrollments s) of
     None \<Rightarrow> E (OtherError ''Expected exactly one result from SQL query, but got no results.'') s
   | Some r \<Rightarrow> Q r s)"
  by (simp add: wp_def readEnrollment_def split: option.split)

definition receipt_for :: "int \<Rightarrow> string \<Rightarrow> prepared \<Rightarrow> push_result \<Rightarrow> receipt_row" where
  "receipt_for now e item result = \<lparr>rcp_enrollment = e, rcp_sequence = pc_sequence (pre_change item),
     rcp_change_id = pc_change_id (pre_change item), rcp_status = push_status result,
     rcp_revision = result_revision result, rcp_hash = pc_hash (pre_change item), rcp_result = result,
     rcp_created = now\<rparr>"

lemma wp_writeReceipt [wp_simps]:
  "wp (writeReceipt now e item result) Q E s =
     (if find_receipt e (pc_sequence (pre_change item)) s \<noteq> None then E unique_violation s
      else Q () (s\<lparr>receipts := receipts s @ [receipt_for now e item result]\<rparr>))"
  by (simp add: wp_def writeReceipt_def receipt_for_def)

lemma wp_insert_change [wp_simps]:
  "wp (insert_change c) Q E s = (if chg_sequence c \<in> chg_sequence ` set (changes s) then E unique_violation s
     else Q () (s\<lparr>changes := changes s @ [c]\<rparr>))"
  by (simp add: wp_def insert_change_def)

lemma wp_insert_entity [wp_simps]:
  "wp (insert_entity e) Q E s = (if head (entities s) (ent_key e) \<noteq> None then E unique_violation s
     else Q () (s\<lparr>entities := entities s @ [e]\<rparr>))"
  by (simp add: wp_def insert_entity_def readEntity_head ent_key_def)

lemma wp_insert_operation [wp_simps]:
  "wp (insert_operation r) Q E s = (if find_operation (dop_id r) s \<noteq> None then E unique_violation s
     else Q () (s\<lparr>operations := operations s @ [r]\<rparr>))"
  by (simp add: wp_def insert_operation_def)

lemma keep_old_payload_fill: "keep_old_payload e s = s\<lparr>changes := fill (Some e) (changes s)\<rparr>"
  by (simp add: keep_old_payload_def fill_def)

lemma put_entity_head: "put_entity e s = s\<lparr>entities := put_head e (entities s)\<rparr>"
  by (simp add: put_entity_def put_head_def readEntity_head ent_key_def)

text \<open>What an accepted change does, whoever brings it.\<close>

lemma account_ok_accept:
  assumes ok: "account_ok env s" and N: "new_pair (readable env) (entities s) (meta_next_sequence s) e c"
    and s': "entities s' = put_head e (entities s)"
      "changes s' = fill (head (entities s) (ent_key e)) (changes s) @ [c]"
      "meta_next_sequence s' = meta_next_sequence s + 1"
      "meta_retention_floor s' = meta_retention_floor s" "meta_compaction_target s' = meta_compaction_target s"
      "scans s' = scans s" "operations s' = operations s"
  shows "account_ok env s' \<and> acct_grows s s'"
proof -
  have J: "journal_ok (readable env) (entities s) (changes s) (meta_next_sequence s) (meta_retention_floor s)"
    using ok by (simp add: account_ok_def)
  note J' = journal_ok_accept [OF J N]
  have G: "heads_grow (entities s) (meta_next_sequence s) (entities s') (meta_next_sequence s')"
    using heads_grow_accept [OF N] s' by simp
  have "scan_ok env (entities s') (meta_next_sequence s') r" if "r \<in> set (scans s)" for r
    by (rule scan_ok_grow [OF _ G]) (use ok that J' s' in \<open>auto simp: account_ok_def journal_okD(1)\<close>)
  then show ?thesis
    using ok J' G s' by (auto simp: account_ok_def acct_grows_def)
qed

section \<open>Push\<close>

definition item_ok :: "backend_env \<Rightarrow> prepared \<Rightarrow> bool" where
  "item_ok env item \<longleftrightarrow> pc_type (pre_change item) \<noteq> [] \<and> pc_id (pre_change item) \<noteq> [] \<and>
     (pre_json item = None \<longleftrightarrow> pc_operation (pre_change item) = SyncDelete) \<and>
     (\<forall>t. pre_json item = Some t \<longrightarrow> readable env t)"

definition new_head :: "int \<Rightarrow> account \<Rightarrow> pending_change \<Rightarrow> string option \<Rightarrow> int \<Rightarrow> entity_row" where
  "new_head now s c json revision = \<lparr>ent_type = pc_type c, ent_id = pc_id c, ent_revision = revision,
     ent_operation = pc_operation c, ent_schema = pc_schema c, ent_payload = json,
     ent_sequence = meta_next_sequence s, ent_updated = now\<rparr>"

definition new_row :: "int \<Rightarrow> account \<Rightarrow> pending_change \<Rightarrow> int \<Rightarrow> change_row" where
  "new_row now s c revision = \<lparr>chg_sequence = meta_next_sequence s, chg_type = pc_type c, chg_id = pc_id c,
     chg_revision = revision, chg_operation = pc_operation c, chg_schema = pc_schema c,
     chg_payload = None, chg_created = now\<rparr>"

definition next_revision :: "entity_row option \<Rightarrow> int" where
  "next_revision existing = (case existing of None \<Rightarrow> 1 | Some e \<Rightarrow> ent_revision e + 1)"

lemma fill_None [simp]: "fill None cs = cs"
  by (simp add: fill_def)

lemma wp_store_change [wp_simps]:
  "wp (store_change now c json existing) Q E s =
     (let v = next_revision existing;
          s1 = s\<lparr>changes := fill existing (changes s),
                 entities := put_head (new_head now s c json v) (entities s)\<rparr> in
      if meta_next_sequence s \<in> chg_sequence ` set (changes s) then E unique_violation s1
      else Q (meta_next_sequence s, v) (s1\<lparr>changes := fill existing (changes s) @ [new_row now s c v]\<rparr>))"
  by (cases existing)
     (simp_all add: store_change_def wp_simps Let_def put_entity_head keep_old_payload_fill next_revision_def
       new_head_def new_row_def)

lemma new_pair_pushed:
  assumes "account_ok env s" "item_ok env item"
    "v = next_revision (head (entities s) (pc_type (pre_change item), pc_id (pre_change item)))"
  shows "new_pair (readable env) (entities s) (meta_next_sequence s)
     (new_head now s (pre_change item) (pre_json item) v) (new_row now s (pre_change item) v)"
  using assms
  by (auto simp: new_pair_def new_head_def new_row_def head_ok_def item_ok_def chg_key_def ent_key_def
      same_row_def account_ok_def journal_ok_def newer_def next_revision_def split: option.splits)

text \<open>The state after an accepted change, up to its receipt and the counters.\<close>

definition accepted_into :: "account \<Rightarrow> account \<Rightarrow> entity_row \<Rightarrow> change_row \<Rightarrow> bool" where
  "accepted_into s s' e c \<longleftrightarrow> entities s' = put_head e (entities s) \<and>
     changes s' = fill (head (entities s) (ent_key e)) (changes s) @ [c] \<and>
     meta_next_sequence s' = meta_next_sequence s + 1 \<and>
     meta_retention_floor s' = meta_retention_floor s \<and>
     meta_compaction_target s' = meta_compaction_target s \<and> scans s' = scans s \<and>
     operations s' = operations s"

lemma accepted_into_simps:
  "accepted_into s (bumpCounter k n t) e c = accepted_into s t e c"
  "accepted_into s (addHistoryBytes d t) e c = accepted_into s t e c"
  "accepted_into s (advanceHighWater i n t) e c = accepted_into s t e c"
  "accepted_into s (observeSyncKeyVersion p t) e c = accepted_into s t e c"
  by (auto simp: accepted_into_def bumpCounter_def addHistoryBytes_def advanceHighWater_def
      observeSyncKeyVersion_def split: option.splits)

lemma ent_key_new_head [simp]: "ent_key (new_head now s c json v) = (pc_type c, pc_id c)"
  by (simp add: new_head_def ent_key_def)

text \<open>What \<open>applyPrepared\<close> can do: leave the heads and the journal alone and accept nothing, or accept.\<close>

definition applied :: "int \<Rightarrow> prepared \<Rightarrow> account \<Rightarrow> push_result \<times> int option \<Rightarrow> account \<Rightarrow> bool" where
  "applied now item s r s' \<longleftrightarrow>
     (snd r = None \<and> same_core s s') \<or>
     (\<exists>v cont. r = (Accepted (pc_change_id (pre_change item)) v cont, Some (meta_next_sequence s)) \<and>
        v = next_revision (head (entities s) (pc_type (pre_change item), pc_id (pre_change item))) \<and>
        accepted_into s s' (new_head now s (pre_change item) (pre_json item) v) (new_row now s (pre_change item) v))"

lemma same_core_receipts [simp]: "same_core s (s\<lparr>receipts := rs\<rparr>)"
  by (simp add: same_core_def)

lemma same_core_chain:
  "same_core s t \<Longrightarrow> same_core s (bumpCounter k n t)"
  "same_core s t \<Longrightarrow> same_core s (addHistoryBytes d t)"
  "same_core s t \<Longrightarrow> same_core s (provisionEnrollment now au t)"
  "same_core s t \<Longrightarrow> same_core s (advanceHighWater i n t)"
  "same_core s t \<Longrightarrow> same_core s (observeSyncKeyVersion p t)"
  by (blast intro: same_core_trans same_core_updates)+

lemma applied_refused:
  "applied now item s (r, None) (advanceHighWater i n (s\<lparr>receipts := rs\<rparr>))"
  "applied now item s (r, None) (s\<lparr>receipts := rs\<rparr>)"
  "applied now item s (r, None) s"
  using same_core_trans [OF same_core_receipts same_core_updates(4)] by (auto simp: applied_def)

lemma wp_refuse_change:
  "wp (refuse_change now e item r) (applied now item s) (\<lambda>_ _. True) s"
  by (simp add: refuse_change_def wp_simps applied_refused)

lemma wp_accept_change:
  assumes "existing = head (entities s) (pc_type (pre_change item), pc_id (pre_change item))"
  shows "wp (accept_change now e item existing) (applied now item s) (\<lambda>_ _. True) s"
  using assms
  by (auto simp: accept_change_def wp_simps Let_def applied_def accepted_into_simps)
     (simp_all add: accepted_into_def)

lemma wp_applyPrepared:
  "wp (applyPrepared env now au item) (applied now item s) (\<lambda>_ _. True) s"
  by (auto simp: applyPrepared_def wp_simps Let_def readEntity_head applied_refused wp_refuse_change
      wp_accept_change split: option.split sum.split)

lemma parse_change_ok:
  "parsePendingChange v = Inr c \<Longrightarrow> is_json v \<Longrightarrow> pc_type c \<noteq> [] \<and> pc_id c \<noteq> [] \<and>
     (pc_operation c \<noteq> SyncDelete \<longrightarrow> (\<exists>p. pc_payload c = Some p \<and> is_json p))"
  by (auto simp: parsePendingChange_def nonempty_str_def Let_def is_json_jget split: if_splits option.splits)

lemma item_ok_prepare:
  assumes "json_reads env" "parsePendingChange v = Inr c" "is_json v"
  shows "item_ok env (prepare_change env c)"
  using parse_change_ok [OF assms(2,3)] assms(1)
  by (auto simp: item_ok_def prepare_change_def json_reads_def Let_def)

lemma collect_changes_Inr: "collect (map f xs) = Inr ys \<Longrightarrow> y \<in> set ys \<Longrightarrow> \<exists>x \<in> set xs. f x = Inr y"
proof (induction xs arbitrary: ys)
  case (Cons x xs)
  then show ?case by (fastforce split: sum.splits)
qed simp

lemma items_ok_push:
  assumes "json_reads env" "parseSpikePushParams params = Inr (cs, epoch)" "is_json params"
  shows "\<forall>item \<in> set (map (prepare_change env) cs). item_ok env item"
proof
  fix item assume "item \<in> set (map (prepare_change env) cs)"
  then obtain c where c: "c \<in> set cs" "item = prepare_change env c" by auto
  have "collect (map parsePendingChange (js_items (jget params ''changes''))) = Inr cs"
    and arr: "isArray (jget params ''changes'')"
    using assms(2) by (auto simp: parseSpikePushParams_def split: if_splits sum.splits)
  from collect_changes_Inr [OF this(1) c(1)] obtain v where
    v: "v \<in> set (js_items (jget params ''changes''))" "parsePendingChange v = Inr c" by auto
  have "is_json (jget params ''changes'')"
    using arr by (intro is_json_get [OF assms(3)]) (auto simp: isArray_def)
  then show "item_ok env item"
    using item_ok_prepare [OF assms(1) v(2)] is_json_items v(1) c(2) by blast
qed

lemma evolves_applied:
  assumes "applied now item s r s'" "account_ok env s" "item_ok env item"
  shows "account_ok env s' \<and> acct_grows s s'"
  using assms(1)
proof (unfold applied_def, elim disjE conjE exE)
  assume "same_core s s'"
  then show ?thesis using same_core_ok assms(2) by blast
next
  fix v cont
  assume v: "v = next_revision (head (entities s) (pc_type (pre_change item), pc_id (pre_change item)))"
  assume "accepted_into s s' (new_head now s (pre_change item) (pre_json item) v) (new_row now s (pre_change item) v)"
  then show ?thesis
    by (intro account_ok_accept [OF assms(2) new_pair_pushed [OF assms(2,3) v]])
       (simp_all add: accepted_into_def)
qed

lemma evolves_push_item:
  assumes "item_ok env item"
  shows "evolves env (push_item env now au epoch item)"
proof -
  have "evolves env (applyPrepared env now au item)"
    by (rule evolvesI, rule wp_mono [OF wp_applyPrepared]) (use evolves_applied assms in auto)
  moreover have "evolves env (writeReceipt now e item r)" for e r
    by (rule evolvesI) (auto simp: wp_simps dest: same_core_ok [OF same_core_receipts])
  ultimately show ?thesis
    unfolding push_item_def Let_def
    by (auto intro!: evolves_intros split: prod.splits)
qed

lemma evolves_push_items: "\<forall>item \<in> set items. item_ok env item \<Longrightarrow> evolves env (push_items env now au epoch wm items)"
proof (induction items arbitrary: wm)
  case (Cons item items)
  then show ?case
    by (auto intro!: evolves_bind evolves_ret evolves_push_item split: prod.splits)
qed (simp add: evolves_ret)

lemma evolves_fairUse: "evolves env (activeFairUseRestriction env now)"
  by (auto simp: evolves_def wp_def activeFairUseRestriction_def split: sum.splits option.splits)

lemma evolves_pushInTransaction:
  "\<forall>item \<in> set items. item_ok env item \<Longrightarrow> evolves env (pushInTransaction env now au epoch items)"
  unfolding pushInTransaction_def assertFairUseWritesAllowed_def
  by (auto intro!: evolves_intros evolves_push_items evolves_fairUse split: option.splits)

lemma evolves_lift_bind: "(\<And>x. r = Inr x \<Longrightarrow> evolves env (f x)) \<Longrightarrow> evolves env (bindE (lift_sum r) f)"
  by (cases r) (simp_all add: evolves_def wp_simps)

lemma evolves_handlePush:
  assumes "json_reads env" "is_json params"
  shows "evolves env (handlePush env now au params)"
  unfolding handlePush_def
proof (rule evolves_lift_bind)
  fix r assume r: "parseSpikePushParams params = Inr r"
  have ok: "\<forall>item \<in> set (map (prepare_change env) (fst r)). item_ok env item"
    by (rule items_ok_push [of env params "fst r" "snd r"]) (use assms r in simp_all)
  show "evolves env (case r of (cs, epoch) \<Rightarrow> bindE (activeFairUseRestriction env now) (\<lambda>notice. case notice of
       Some n \<Rightarrow> if \<exists>c \<in> set cs. pc_operation c \<noteq> SyncDelete then throw (fair_use_denial n)
                 else commit (pushInTransaction env now au epoch (map (prepare_change env) cs))
     | None \<Rightarrow> commit (pushInTransaction env now au epoch (map (prepare_change env) cs))))"
    using ok by (auto intro!: evolves_bind evolves_fairUse evolves_throw evolves_commit
        evolves_pushInTransaction split: prod.splits option.splits)
qed

section \<open>Retention\<close>

lemma account_ok_swept:
  assumes ok: "account_ok env s" and old: "\<And>r. r \<in> set rows \<Longrightarrow> chg_sequence r \<le> fl'"
    and fl': "meta_retention_floor s \<le> fl'" "fl' < meta_next_sequence s"
    and s': "s' = (delete_changes rows s)\<lparr>meta_retention_floor := fl'\<rparr>"
  shows "account_ok env s' \<and> acct_grows s s'"
  using ok journal_ok_delete [of "readable env" "entities s" "changes s", OF _ old fl'] fl'
  by (auto simp: s' account_ok_def acct_grows_def delete_changes_def)

lemma rows_before: "account_ok env s \<Longrightarrow> r \<in> set (changes s) \<Longrightarrow> chg_sequence r < meta_next_sequence s"
  by (auto simp: account_ok_def journal_ok_def row_ok_def)

lemma last_take_in: "take k (sort_key f xs) \<noteq> [] \<Longrightarrow> last (take k (sort_key f xs)) \<in> set xs"
  by (rule set_take_sorted, rule last_in_set)

lemma account_ok_sweep_expired:
  assumes ok: "account_ok env s"
  shows "account_ok env (snd (sweep_expired cutoff s)) \<and> acct_grows s (snd (sweep_expired cutoff s))"
proof (cases "expired_changes cutoff s = []")
  case True
  have "account_ok env s \<and> acct_grows s s" using ok by simp
  then show ?thesis
    using True by (auto simp: sweep_expired_def Let_def delete_changes_def account_ok_def acct_grows_def)
next
  case False
  let ?rows = "expired_changes cutoff s"
  have "last ?rows \<in> set (filter (\<lambda>r. chg_created r < cutoff) (changes s))"
    using False unfolding expired_changes_def by (rule last_take_in)
  then have "last ?rows \<in> set (changes s)" by simp
  then have "chg_sequence (last ?rows) < meta_next_sequence s"
    by (rule rows_before [OF ok])
  moreover have "0 \<le> meta_retention_floor s" "meta_retention_floor s < meta_next_sequence s"
    using ok by (auto simp: account_ok_def journal_ok_def)
  moreover have "chg_sequence r \<le> chg_sequence (last ?rows)" if "r \<in> set ?rows" for r
    using that unfolding expired_changes_def by (rule last_take_sorted)
  ultimately show ?thesis
    using account_ok_swept [OF ok, of ?rows "max (meta_retention_floor s) (chg_sequence (last ?rows))"] False
    by (auto simp: sweep_expired_def Let_def delete_changes_def max.coboundedI2)
qed

lemma account_ok_sweep_compacted:
  assumes ok: "account_ok env s"
  shows "account_ok env (snd (sweep_compacted s)) \<and> acct_grows s (snd (sweep_compacted s))"
proof (cases "meta_compaction_target s")
  case None
  then show ?thesis
    using ok by (auto simp: sweep_compacted_def account_ok_def journal_ok_def acct_grows_def)
next
  case (Some t)
  have fl: "0 \<le> meta_retention_floor s" "meta_retention_floor s < meta_next_sequence s" and t: "t < meta_next_sequence s"
    using ok Some by (auto simp: account_ok_def journal_ok_def)
  define rows where "rows = take SWEEP_BATCH_ROWS (sort_key chg_sequence
     (filter (\<lambda>r. chg_sequence r > meta_retention_floor s \<and> chg_sequence r \<le> t) (changes s)))"
  define newFloor where "newFloor = (if rows = [] then t else chg_sequence (last rows))"
  show ?thesis
  proof (cases "t > meta_retention_floor s")
    case True
    have "newFloor < meta_next_sequence s"
    proof (cases "rows = []")
      case False
      then have "last rows \<in> set (filter (\<lambda>r. chg_sequence r > meta_retention_floor s \<and> chg_sequence r \<le> t) (changes s))"
        unfolding rows_def by (rule last_take_in)
      then have "last rows \<in> set (changes s)" by simp
      then show ?thesis using rows_before [OF ok] False by (simp add: newFloor_def)
    qed (simp add: newFloor_def t)
    moreover have "chg_sequence r \<le> newFloor" if "r \<in> set rows" for r
      using that last_take_sorted [of r] unfolding rows_def newFloor_def by auto
    ultimately have "account_ok env ((delete_changes rows s)\<lparr>meta_retention_floor := max (meta_retention_floor s) newFloor\<rparr>) \<and>
        acct_grows s ((delete_changes rows s)\<lparr>meta_retention_floor := max (meta_retention_floor s) newFloor\<rparr>)"
      by (intro account_ok_swept [OF ok]) (use fl in \<open>auto simp: max.coboundedI2\<close>)
    then show ?thesis
      using Some True unfolding sweep_compacted_def rows_def [symmetric] newFloor_def [symmetric]
      by (auto simp: Let_def rows_def [symmetric] newFloor_def [symmetric] account_ok_def acct_grows_def max_def
          split: if_splits)
  qed (use Some ok in \<open>simp add: sweep_compacted_def\<close>)
qed

lemma account_ok_drop_scans:
  "account_ok env s \<Longrightarrow> account_ok env (s\<lparr>scans := filter Q (scans s)\<rparr>) \<and> acct_grows s (s\<lparr>scans := filter Q (scans s)\<rparr>)"
  by (auto simp: account_ok_def acct_grows_def distinct_map_filter)

lemma account_ok_sweepSync:
  assumes ok: "account_ok env s"
  shows "account_ok env (sweepSync now s) \<and> acct_grows s (sweepSync now s)"
proof -
  obtain rows1 s1 where 1: "sweep_expired (now - RETENTION_MS) s = (rows1, s1)" by force
  obtain rows2 s2 where 2: "sweep_compacted s1 = (rows2, s2)" by force
  have a: "account_ok env s1 \<and> acct_grows s s1"
    using account_ok_sweep_expired [OF ok, of "now - RETENTION_MS"] 1 by simp
  then have b: "account_ok env s2 \<and> acct_grows s1 s2"
    using account_ok_sweep_compacted [of env s1] 2 by simp
  define Q :: "scan_row \<Rightarrow> bool" where "Q = (\<lambda>r. scn_id r \<notin> scn_id ` set (take SWEEP_BATCH_ROWS
     (filter (\<lambda>r. scn_done r \<and> scn_created r < now - RETENTION_MS) (scans s2))))"
  have t: "same_core (s2\<lparr>scans := filter Q (scans s2)\<rparr>) (sweepSync now s)"
    unfolding sweepSync_def Let_def 1 2 prod.case
    by (intro same_core_chain(1), cases "sum_list (map row_bytes (rows1 @ rows2)) > 0")
       (simp_all only: if_True if_False same_core_chain(2), simp_all add: same_core_def addHistoryBytes_def Q_def)
  show ?thesis
    using account_ok_drop_scans [of env s2 Q] same_core_ok [OF t, of env] a b
    by (meson acct_grows_trans)
qed

section \<open>Scans\<close>

lemma set_entities_after: "set (entities_after after s) = {e \<in> set (entities s). key_in after (ent_key e)}"
  by (auto simp: entities_after_def key_in_def split: option.splits)

lemma sorted_entities_after:
  assumes "distinct (map ent_key (entities s))"
  shows "sorted_wrt (<) (map ent_key (entities_after after s))"
proof -
  have "distinct (map ent_key (entities_after after s))"
    using assms by (auto simp: entities_after_def distinct_map_filter distinct_map split: option.splits
        intro: inj_on_subset)
  moreover have "sorted (map ent_key (entities_after after s))"
    by (simp add: entities_after_def)
  ultimately show ?thesis
    by (simp add: strict_sorted_iff)
qed

lemma scanned_entity_Inr:
  "scanned_entity env e = Inr c \<Longrightarrow> scd_key c = ent_key e \<and> scd_content c = content env e"
  by (auto simp: scanned_entity_def json_parse_def scd_key_def ent_key_def scd_content_def content_def
      split: option.splits sum.splits)

lemma scan_rows_prefix:
  "scan_rows env b acc used rows = Inr (out, rest) \<Longrightarrow>
     \<exists>n ys. out = acc @ ys \<and> n \<le> length rows \<and> rest = (n < length rows) \<and> (acc = [] \<and> rows \<noteq> [] \<longrightarrow> n \<noteq> 0) \<and>
       list_all2 (\<lambda>e c. scd_key c = ent_key e \<and> scd_content c = content env e) (take n rows) ys"
proof (induction env b acc used rows rule: scan_rows.induct)
  case (2 env b acc used e es)
  obtain c where c: "scanned_entity env e = Inr c"
    using 2(2) by (auto split: sum.splits)
  show ?case
  proof (cases "acc \<noteq> [] \<and> used + utf8ByteLength (json_text (be_pf env) (scanned_js c)) > b")
    case True
    then have "out = acc \<and> rest" using 2(2) c by (auto simp: Let_def)
    then show ?thesis using True by (intro exI [of _ 0] exI [of _ "[]"]) auto
  next
    case False
    have eq: "scan_rows env b (acc @ [c]) (used + utf8ByteLength (json_text (be_pf env) (scanned_js c))) es = Inr (out, rest)"
      using 2(2) c False by (auto simp: Let_def split: if_splits)
    from 2(1) [OF c refl False eq] obtain n ys where
      n: "out = (acc @ [c]) @ ys" "n \<le> length es" "rest = (n < length es)"
      "list_all2 (\<lambda>e c. scd_key c = ent_key e \<and> scd_content c = content env e) (take n es) ys"
      by blast
    show ?thesis
      using n scanned_entity_Inr [OF c] by (intro exI [of _ "Suc n"] exI [of _ "c # ys"]) auto
  qed
qed auto

lemma scan_rows_rest: "scan_rows env b [] 0 rows = Inr (es, rest) \<Longrightarrow> (rest \<or> length es < length rows) = rest"
  using scan_rows_prefix [of env b "[]" 0 rows es rest] by (auto dest!: list_all2_lengthD)

lemma list_all2_keys:
  "list_all2 (\<lambda>e c. scd_key c = ent_key e \<and> scd_content c = content env e) xs ys \<Longrightarrow> map scd_key ys = map ent_key xs"
  by (induction rule: list_all2_induct) auto

lemma list_all2_ex: "list_all2 P xs ys \<Longrightarrow> x \<in> set xs \<Longrightarrow> \<exists>y \<in> set ys. P x y"
  by (induction rule: list_all2_induct) auto

lemma list_all2_ex2: "list_all2 P xs ys \<Longrightarrow> y \<in> set ys \<Longrightarrow> \<exists>x \<in> set xs. P x y"
  by (induction rule: list_all2_induct) auto

text \<open>A fresh page covers the keys between its cursor and the last row it holds.\<close>

lemma sorted_prefix_bound:
  assumes "sorted_wrt (<) (map f xs)" "n \<noteq> 0" "n \<le> length xs" "x \<in> set xs"
  shows "x \<in> set (take n xs) \<longleftrightarrow> (f x :: 'k :: linorder) \<le> f (last (take n xs))"
proof -
  have ne: "take n xs \<noteq> []" using assms(2,3) by auto
  have sw: "sorted_wrt (<) (map f (take n xs) @ map f (drop n xs))"
    using assms(1) by (metis append_take_drop_id map_append)
  have "f x \<le> f (last (take n xs))" if "x \<in> set (take n xs)"
    by (rule sorted_le_last [OF _ that]) (use sw in \<open>auto simp: sorted_wrt_append strict_sorted_imp_sorted\<close>)
  moreover have "f (last (take n xs)) < f x" if "x \<in> set (drop n xs)"
    using sw that last_in_set [OF ne] by (auto simp: sorted_wrt_append)
  moreover have "x \<in> set (take n xs) \<or> x \<in> set (drop n xs)"
    using assms(4) by (metis Un_iff append_take_drop_id set_append)
  ultimately show ?thesis by (meson not_le)
qed

lemma page_covers_fresh:
  assumes D: "distinct (map ent_key (entities s))" and json: "json_reads env"
    and ne: "\<forall>e \<in> set (entities s). ent_type e \<noteq> [] \<and> ent_id e \<noteq> []"
    and rows: "scan_rows env b [] 0 (entities_after lo s) = Inr (es, rest)"
    and p: "pg_entities p = es" "pg_done p = (\<not> rest)"
      "rest \<Longrightarrow> pg_next p = Some (encodeEntityCursor (scd_type (last es)) (scd_id (last es)))"
  shows "page_covers env (entities s) start lo p"
proof -
  from scan_rows_prefix [OF rows] obtain n where n: "n \<le> length (entities_after lo s)"
    "rest = (n < length (entities_after lo s))" "entities_after lo s \<noteq> [] \<longrightarrow> n \<noteq> 0"
    and A: "list_all2 (\<lambda>e c. scd_key c = ent_key e \<and> scd_content c = content env e) (take n (entities_after lo s)) es"
    by auto
  note keys = list_all2_keys [OF A]
  have S: "sorted_wrt (<) (map ent_key (entities_after lo s))"
    by (rule sorted_entities_after [OF D])
  have nxt: "cursor_key env (pg_next p) = Some (ent_key (last (take n (entities_after lo s))))"
    and n0: "n \<noteq> 0" if rest
  proof -
    show "n \<noteq> 0" using n that by auto
    then have ne1: "take n (entities_after lo s) \<noteq> []" using n that by auto
    then have es: "es \<noteq> []" using keys by auto
    have k: "scd_key (last es) = ent_key (last (take n (entities_after lo s)))"
      using keys es ne1 by (metis last_map)
    have "last (take n (entities_after lo s)) \<in> set (entities s)"
      using last_in_set [OF ne1] by (auto dest!: in_set_takeD simp: set_entities_after)
    with ne k have "scd_type (last es) \<noteq> []" "scd_id (last es) \<noteq> []"
      by (auto simp: scd_key_def ent_key_def)
    then show "cursor_key env (pg_next p) = Some (ent_key (last (take n (entities_after lo s))))"
      using k cursor_key_encode [OF json] p(3) [OF that] by (simp add: scd_key_def)
  qed
  have in_take: "in_page env lo p (ent_key e) \<longleftrightarrow> e \<in> set (take n (entities_after lo s))"
    if "e \<in> set (entities s)" for e
  proof (cases rest)
    case True
    have "e \<in> set (entities_after lo s) \<Longrightarrow> e \<in> set (take n (entities_after lo s)) \<longleftrightarrow>
        ent_key e \<le> ent_key (last (take n (entities_after lo s)))"
      by (rule sorted_prefix_bound [OF S n0 [OF True] n(1)])
    then show ?thesis
      using that True nxt p(2) in_set_takeD [of e n "entities_after lo s"]
      by (auto simp: in_page_def set_entities_after)
  next
    case False
    then show ?thesis using that n p(2) by (auto simp: in_page_def set_entities_after)
  qed
  have "\<exists>c \<in> set es. scd_key c = ent_key e \<and> scd_content c = content env e"
    if "e \<in> set (take n (entities_after lo s))" for e
    by (rule list_all2_ex [OF A that])
  moreover have "in_page env lo p (scd_key c) \<and> below env (head (entities s) (scd_key c)) (scd_content c)"
    if c: "c \<in> set es" for c
  proof -
    from list_all2_ex2 [OF A c] obtain e where
      e: "e \<in> set (take n (entities_after lo s))" "scd_key c = ent_key e" "scd_content c = content env e" by auto
    then have "e \<in> set (entities s)" by (auto dest!: in_set_takeD simp: set_entities_after)
    then show ?thesis using e in_take head_distinct [OF D] by (simp add: below_def)
  qed
  moreover have "distinct (map scd_key es)"
    using keys S by (metis distinct_take strict_sorted_iff take_map)
  ultimately show ?thesis
    using in_take nxt p unfolding page_covers_def by auto
qed

lemma wp_loadScan [wp_simps]:
  "wp (loadScan now i) Q E s = (case find (\<lambda>r. scn_id r = i) (scans s) of
     None \<Rightarrow> E (fail_reason E_not_found ''scan'') s
   | Some r \<Rightarrow> if now - scn_created r > SNAPSHOT_LIFETIME_MS
       then E (fail_reason E_not_found ''scan-expired'') s else Q r s)"
  by (simp add: wp_def loadScan_def split: option.split)

lemma wp_assertScan:
  "wp (assertScanEpochAndRetention r) Q (\<lambda>_ _. True) s \<longleftrightarrow>
     (scn_epoch r = meta_epoch s \<and> meta_retention_floor s \<le> scn_start r \<longrightarrow> Q () s)"
  by (auto simp: assertScanEpochAndRetention_def wp_simps)

text \<open>What a page request may do to the account, and what the page it returns covers.\<close>

definition page_for :: "backend_env \<Rightarrow> string \<Rightarrow> string option \<Rightarrow> account \<Rightarrow> scan_page \<Rightarrow> bool" where
  "page_for env i c s p \<longleftrightarrow> (\<exists>r \<in> set (scans s). scn_id r = i \<and>
     page_covers env (entities s) (scn_start r) (cursor_key env c) p)"

definition answers_page :: "backend_env \<Rightarrow> string \<Rightarrow> string option \<Rightarrow> account \<Rightarrow> scan_page \<Rightarrow> account \<Rightarrow> bool" where
  "answers_page env i c s p s' \<longleftrightarrow> account_ok env s' \<and> acct_grows s s' \<and>
     entities s' = entities s \<and> meta_next_sequence s' = meta_next_sequence s \<and> page_for env i c s p"

lemma account_ok_update_scan:
  assumes "account_ok env s" "\<And>r. scn_id (f r) = scn_id r" "\<And>r. scn_start (f r) = scn_start r"
    and "\<And>r. r \<in> set (scans s) \<Longrightarrow> scn_id r = i \<Longrightarrow> scan_ok env (entities s) (meta_next_sequence s) (f r)"
  shows "account_ok env (update_scan i f s) \<and> acct_grows s (update_scan i f s)"
  using assms
  by (auto simp: account_ok_def update_scan_def acct_grows_def scans_grow_def comp_def if_distrib cong: if_cong)

lemma wp_pageScan:
  assumes ok: "account_ok env s" and json: "json_reads env"
  shows "wp (pageScan env now i c b) (\<lambda>p s'. answers_page env i c s p s') (\<lambda>_ _. True) s"
proof -
  have answer: "answers_page env i c s p s" if "page_for env i c s p" for p
    using ok that by (simp add: answers_page_def)
  show ?thesis
  proof (cases "find (\<lambda>r. scn_id r = i) (scans s)")
    case None
    then show ?thesis by (simp add: pageScan_def wp_simps)
  next
    case (Some r)
    then have r: "r \<in> set (scans s)" "scn_id r = i" by (auto simp: find_Some_iff)
    then have rok: "scan_ok env (entities s) (meta_next_sequence s) r"
      using ok by (auto simp: account_ok_def)
    have only: "r' = r" if "r' \<in> set (scans s)" "scn_id r' = i" for r'
      using ok that r by (auto simp: account_ok_def distinct_map dest: inj_onD)
    have replay: "page_for env i c s p" if "scn_request r = c" "scn_result r = Some p" for p
      using rok that r by (auto simp: page_for_def scan_ok_def)
    have empty: "page_for env i c s \<lparr>pg_entities = [], pg_next = None, pg_done = True\<rparr>"
      if "scn_done r" "c = scn_cursor r"
      using rok that r by (auto simp: page_for_def scan_ok_def page_covers_def in_page_def)
    have D: "distinct (map ent_key (entities s))" "\<forall>e \<in> set (entities s). ent_type e \<noteq> [] \<and> ent_id e \<noteq> []"
      using ok by (auto simp: account_ok_def journal_ok_def head_ok_def)
    have fresh: "answers_page env i c s p (update_scan i (\<lambda>r. r\<lparr>scn_cursor := cur, scn_done := \<not> rest, scn_request := c, scn_result := Some p\<rparr>) s)"
      if lo: "cursor_key env c = lo" and rows: "scan_rows env m [] 0 (entities_after lo s) = Inr (es, rest)"
        and cur: "cur = (if es = [] then scn_cursor r else Some (encodeEntityCursor (scd_type (last es)) (scd_id (last es))))"
        and c: "c = scn_cursor r"
        and p: "p = \<lparr>pg_entities = es, pg_next = (if rest then cur else None), pg_done = (\<not> rest)\<rparr>"
      for p cur rest lo es m
    proof -
      obtain n where n: "rest = (n < length (entities_after lo s))" "entities_after lo s \<noteq> [] \<longrightarrow> n \<noteq> 0"
        "list_all2 (\<lambda>e c. scd_key c = ent_key e \<and> scd_content c = content env e) (take n (entities_after lo s)) es"
        using scan_rows_prefix [OF rows] by auto
      note keys = list_all2_keys [OF n(3)]
      have es: "es \<noteq> []" if rest
        using n that keys by auto
      have P: "page_covers env (entities s) start lo p" for start
        by (rule page_covers_fresh [OF D(1) json D(2) rows]) (use es cur in \<open>auto simp: p\<close>)
      have fin: "\<not> key_in (cursor_key env cur) (ent_key e)" if "\<not> rest" "e \<in> set (entities s)" for e
      proof (cases "es = []")
        case True
        then show ?thesis
          using keys n that set_entities_after [of lo s] cur c lo by auto
      next
        case False
        have all: "take n (entities_after lo s) = entities_after lo s" using n that by simp
        have ne: "entities_after lo s \<noteq> []" using keys all False by auto
        have k: "scd_key (last es) = ent_key (last (entities_after lo s))"
          using keys all False ne by (metis last_map)
        have "last (entities_after lo s) \<in> set (entities s)"
          using last_in_set [OF ne] by (simp add: set_entities_after)
        then have "scd_type (last es) \<noteq> []" "scd_id (last es) \<noteq> []"
          using D(2) k by (auto simp: scd_key_def ent_key_def)
        then have ck: "cursor_key env cur = Some (ent_key (last (entities_after lo s)))"
          using cursor_key_encode [OF json] cur False k by (simp add: scd_key_def)
        show ?thesis
        proof
          assume gt: "key_in (cursor_key env cur) (ent_key e)"
          then have less: "ent_key (last (entities_after lo s)) < ent_key e" by (simp add: ck key_in_def)
          have "key_in lo (ent_key (last (entities_after lo s)))"
            using last_in_set [OF ne] by (simp add: set_entities_after)
          then have "e \<in> set (entities_after lo s)"
            using less that(2) by (auto simp: set_entities_after key_in_def split: option.splits)
          moreover have "sorted (map ent_key (entities_after lo s))"
            using sorted_entities_after [OF D(1)] strict_sorted_imp_sorted by blast
          ultimately show False using sorted_le_last less by (meson not_le)
        qed
      qed
      have "scan_ok env (entities s) (meta_next_sequence s)
          (r\<lparr>scn_cursor := cur, scn_done := \<not> rest, scn_request := c, scn_result := Some p\<rparr>)"
        using rok P fin lo by (auto simp: scan_ok_def)
      then have "account_ok env (update_scan i (\<lambda>r. r\<lparr>scn_cursor := cur, scn_done := \<not> rest, scn_request := c, scn_result := Some p\<rparr>) s) \<and>
          acct_grows s (update_scan i (\<lambda>r. r\<lparr>scn_cursor := cur, scn_done := \<not> rest, scn_request := c, scn_result := Some p\<rparr>) s)"
        using only by (intro account_ok_update_scan [OF ok]) auto
      moreover have "page_for env i c s p"
        unfolding page_for_def lo using r P by blast
      ultimately show ?thesis
        by (simp add: answers_page_def update_scan_def)
    qed
    have lo: "cursor_key env c = after"
      if "(case c of None \<Rightarrow> Inr None | Some t \<Rightarrow> (case decodeEntityCursor env t of Inl e \<Rightarrow> Inl e | Inr k \<Rightarrow> Inr (Some k))) = Inr after"
      for after
      using that by (auto simp: cursor_key_def split: option.splits sum.splits)
    have read: "wp (read_page env i r c b) (\<lambda>p s'. answers_page env i c s p s') (\<lambda>_ _. True) s" if c: "c = scn_cursor r"
    proof (cases "case c of None \<Rightarrow> Inr None | Some t \<Rightarrow> (case decodeEntityCursor env t of Inl e \<Rightarrow> Inl e | Inr k \<Rightarrow> Inr (Some k))")
      case after: (Inr after)
      show ?thesis
      proof (cases "scan_rows env (min b LIMIT_pageBytes) [] 0 (entities_after after s)")
        case rows: (Inr esr)
        then have rows': "scan_rows env (min b LIMIT_pageBytes) [] 0 (entities_after after s) = Inr (fst esr, snd esr)"
          by simp
        show ?thesis
          using fresh [OF lo [OF after] rows' refl c refl] scan_rows_rest [OF rows']
          by (cases "fst esr = []"; cases "snd esr"; simp add: read_page_def wp_simps Let_def after rows case_prod_beta)
      qed (simp add: read_page_def wp_simps after)
    qed (simp add: read_page_def wp_simps)
    show ?thesis
      unfolding pageScan_def
      using answer replay answer [OF empty] read
      by (simp add: wp_simps wp_assertScan Some)
  qed
qed

lemma evolves_pageScan: "json_reads env \<Longrightarrow> evolves env (pageScan env now i c b)"
  by (rule evolvesI, rule wp_mono [OF wp_pageScan]) (auto simp: answers_page_def)

lemma evolves_handleScanPage: "json_reads env \<Longrightarrow> evolves env (handleScanPage env now params)"
  unfolding handleScanPage_def
  by (auto intro!: evolves_lift_bind evolves_commit evolves_pageScan split: prod.splits)

lemma currentWatermark_range:
  "account_ok env s \<Longrightarrow> 0 \<le> currentWatermark s \<and> currentWatermark s < meta_next_sequence s \<and>
     meta_next_sequence s \<le> currentWatermark s + 1"
  by (auto simp: currentWatermark_def account_ok_def journal_ok_def)

text \<open>No scan with this identifier starts before.\<close>

definition scan_from :: "account \<Rightarrow> string \<Rightarrow> int \<Rightarrow> bool" where
  "scan_from s i start \<longleftrightarrow> 0 \<le> start \<and> start < meta_next_sequence s \<and>
     (\<forall>r \<in> set (scans s). scn_id r = i \<longrightarrow> start \<le> scn_start r)"

lemma scan_from_grow: "acct_grows s s' \<Longrightarrow> scan_from s i start \<Longrightarrow> scan_from s' i start"
  unfolding scan_from_def acct_grows_def scans_grow_def heads_grow_def by fastforce

lemma wp_beginScan:
  assumes ok: "account_ok env s"
  shows "wp (beginScan now uuid epoch)
    (\<lambda>b s'. account_ok env s' \<and> acct_grows s s' \<and> sb_cursor b = int_str (sb_start b) \<and> scan_from s' (sb_scan b) (sb_start b))
    (\<lambda>_ _. True) s"
proof -
  have "scan_ok env (entities s) (meta_next_sequence s) \<lparr>scn_id = uuid, scn_start = currentWatermark s,
      scn_epoch = meta_epoch s, scn_created = now, scn_done = False, scn_cursor = None, scn_end = None,
      scn_request = None, scn_result = None\<rparr>"
    using currentWatermark_range [OF ok] by (auto simp: scan_ok_def)
  then show ?thesis
    using ok currentWatermark_range [OF ok]
    by (auto simp: beginScan_def wp_simps account_ok_def acct_grows_def scans_grow_def scan_from_def)
qed

lemma evolves_handleScanBegin: "evolves env (handleScanBegin now uuid params)"
proof -
  have "evolves env (beginScan now uuid epoch)" for epoch
    by (rule evolvesI, rule wp_mono [OF wp_beginScan]) auto
  then show ?thesis
    unfolding handleScanBegin_def by (auto intro!: evolves_intros evolves_commit)
qed

text \<open>The finish watermark is remembered in the row, and is one of the account's.\<close>

definition finish_ok :: "account \<Rightarrow> scan_finish \<Rightarrow> bool" where
  "finish_ok s f \<longleftrightarrow> sf_next f = int_str (sf_end f) \<and> 0 \<le> sf_end f \<and> sf_end f < meta_next_sequence s"

lemma find_update_scan:
  "find (\<lambda>r. scn_id r = i) rs = Some r \<Longrightarrow> (\<And>r. scn_id (f r) = scn_id r) \<Longrightarrow>
     find (\<lambda>r. scn_id r = i) (map (\<lambda>r. if scn_id r = i then f r else r) rs) = Some (f r)"
  by (induction rs) (auto split: if_splits)

lemma wp_finishScan:
  assumes ok: "account_ok env s"
  shows "wp (finishScan now i) (\<lambda>f s'. account_ok env s' \<and> acct_grows s s' \<and> finish_ok s' f) (\<lambda>_ _. True) s"
proof (cases "find (\<lambda>r. scn_id r = i) (scans s)")
  case None
  then show ?thesis by (simp add: finishScan_def wp_simps)
next
  case (Some r)
  then have r: "r \<in> set (scans s)" by (auto simp: find_Some_iff)
  then have old: "0 \<le> w \<and> w < meta_next_sequence s" if "scn_end r = Some w" for w
    using ok that by (auto simp: account_ok_def scan_ok_def)
  let ?f = "\<lambda>r. if scn_end r = None then r\<lparr>scn_end := Some (currentWatermark s)\<rparr> else r"
  have new: "account_ok env (update_scan i ?f s) \<and> acct_grows s (update_scan i ?f s)"
    by (rule account_ok_update_scan [OF ok])
       (use ok currentWatermark_range [OF ok] in \<open>auto simp: account_ok_def scan_ok_def\<close>)
  have found: "find (\<lambda>r. scn_id r = i) (scans (update_scan i ?f s)) = Some (?f r)"
    unfolding update_scan_def using find_update_scan [OF Some, of ?f] by simp
  show ?thesis
    using Some new old ok currentWatermark_range [OF ok] found
    by (auto simp: finishScan_def wp_simps wp_assertScan finish_ok_def update_scan_def
        split: option.split)
qed

lemma evolves_handleScanFinish: "evolves env (handleScanFinish now params)"
proof -
  have "evolves env (finishScan now i)" for i
    by (rule evolvesI, rule wp_mono [OF wp_finishScan]) auto
  then show ?thesis
    unfolding handleScanFinish_def by (auto intro!: evolves_lift_bind evolves_commit)
qed

section \<open>Pull and portability\<close>

lemma evolves_handlePull: "evolves env (handlePull env params)"
  unfolding handlePull_def Let_def
  by (auto intro!: evolves_intros split: prod.splits)

lemma evolves_insert_operation: "plan_ok r \<Longrightarrow> evolves env (insert_operation r)"
  by (rule evolvesI) (auto simp: wp_simps account_ok_def acct_grows_def)

lemma evolves_loadDataOperation: "evolves env (loadDataOperation now i k)"
  by (auto simp: evolves_def wp_def loadDataOperation_def split: option.splits)

lemma evolves_handleDataExportBegin: "evolves env (handleDataExportBegin now uuid au params)"
  unfolding handleDataExportBegin_def
  by (auto intro!: evolves_intros evolves_insert_operation simp: plan_ok_def)

lemma evolves_handleDataExportPage: "evolves env (handleDataExportPage env now params)"
  unfolding handleDataExportPage_def pageExport_def Let_def
  by (auto intro!: evolves_intros evolves_commit evolves_loadDataOperation split: prod.splits)

lemma exported_json: "parseExportedEntity v = Inr x \<Longrightarrow> is_json v \<Longrightarrow> is_json (exp_payload x)"
  by (auto simp: parseExportedEntity_def is_json_jget split: if_splits js.splits)

lemma entities_json:
  assumes "parseDataImportPreviewParams params = Inr es" "is_json params" "x \<in> set es"
  shows "is_json (exp_payload x)"
proof -
  have es: "collect (map parseExportedEntity (js_items (jget params ''entities''))) = Inr es"
    and arr: "isArray (jget params ''entities'')"
    using assms(1) by (auto simp: parseDataImportPreviewParams_def split: if_splits)
  from collect_changes_Inr [OF es assms(3)] obtain v where
    v: "v \<in> set (js_items (jget params ''entities''))" "parseExportedEntity v = Inr x" by auto
  have "is_json (jget params ''entities'')"
    using arr by (intro is_json_get [OF assms(2)]) (auto simp: isArray_def)
  then show ?thesis using exported_json [OF v(2)] is_json_items v(1) by blast
qed

lemma classify_entity [simp]: "pl_entity (classifyImportEntity env s x) = x"
  by (simp add: classifyImportEntity_def Let_def split: option.split)

lemma evolves_handleDataImportPreview:
  assumes "is_json params"
  shows "evolves env (handleDataImportPreview env now uuid au params)"
  unfolding handleDataImportPreview_def
proof (rule evolves_lift_bind, rule evolves_commit, rule evolvesI)
  fix es s assume es: "parseDataImportPreviewParams params = Inr es" and ok: "account_ok env s"
  show "wp (bindE (gets (\<lambda>s. map (classifyImportEntity env s) es)) (\<lambda>plan.
      thenE (insert_operation \<lparr>dop_id = ''imp_'' @ uuid, dop_kind = ''import'', dop_state = ''previewed'',
         dop_enrollment = au_enrollment au, dop_created = now, dop_watermark = None, dop_cursor = None,
         dop_plan = Some plan, dop_result = None, dop_finished = None\<rparr>)
      (ret \<lparr>ip_operation = ''imp_'' @ uuid, ip_creates = plan_count ImpCreate plan,
         ip_identical = plan_count ImpIdentical plan, ip_conflicts = plan_count ImpConflict plan,
         ip_invalid = plan_count ImpInvalid plan,
         ip_entries = map preview_entry (take DATA_IMPORT_PREVIEW_ENTRY_CAP plan),
         ip_truncated = (length plan > DATA_IMPORT_PREVIEW_ENTRY_CAP)\<rparr>)))
      (\<lambda>_ s'. account_ok env s' \<and> acct_grows s s') (\<lambda>_ _. True) s"
    using ok entities_json [OF es assms]
    by (auto simp: wp_simps account_ok_def acct_grows_def plan_ok_def)
qed

lemma new_pair_imported:
  assumes "account_ok env s" "json_reads env" "is_json (exp_payload x)" "exp_type x \<noteq> []" "exp_id x \<noteq> []"
    and "head (entities s) (exp_type x, exp_id x) = None"
  shows "new_pair (readable env) (entities s) (meta_next_sequence s)
     \<lparr>ent_type = exp_type x, ent_id = exp_id x, ent_revision = 1, ent_operation = SyncCreate,
       ent_schema = schema, ent_payload = Some (json_text (be_pf env) (exp_payload x)),
       ent_sequence = meta_next_sequence s, ent_updated = now\<rparr>
     \<lparr>chg_sequence = meta_next_sequence s, chg_type = exp_type x, chg_id = exp_id x, chg_revision = 1,
       chg_operation = SyncCreate, chg_schema = schema, chg_payload = None, chg_created = now\<rparr>"
  using assms by (auto simp: new_pair_def head_ok_def same_row_def chg_key_def ent_key_def json_reads_def
      account_ok_def journal_ok_def newer_def)

lemma put_head_new: "head es (ent_key e) = None \<Longrightarrow> es @ [e] = put_head e es"
  by (simp add: put_head_def)

lemma evolves_import_entity:
  assumes "json_reads env" "is_json (exp_payload x)" "exp_type x \<noteq> []" "exp_id x \<noteq> []"
  shows "evolves env (import_entity env now x)"
proof (rule evolvesI)
  fix s assume ok: "account_ok env s"
  let ?sc = "case int_of (exp_schema x) of None \<Rightarrow> 0 | Some i \<Rightarrow> i"
  let ?e = "\<lparr>ent_type = exp_type x, ent_id = exp_id x, ent_revision = 1, ent_operation = SyncCreate,
       ent_schema = ?sc, ent_payload = Some (json_text (be_pf env) (exp_payload x)),
       ent_sequence = meta_next_sequence s, ent_updated = now\<rparr>"
  let ?c = "\<lparr>chg_sequence = meta_next_sequence s, chg_type = exp_type x, chg_id = exp_id x, chg_revision = 1,
       chg_operation = SyncCreate, chg_schema = ?sc, chg_payload = None, chg_created = now\<rparr>"
  have k: "ent_key ?e = (exp_type x, exp_id x)" by (simp add: ent_key_def)
  have "account_ok env s' \<and> acct_grows s s'"
    if "accepted_into s s' ?e ?c" "head (entities s) (exp_type x, exp_id x) = None" for s'
    using that(1)
    by (intro account_ok_accept [OF ok new_pair_imported [OF ok assms that(2)]]) (simp_all add: accepted_into_def)
  moreover have "accepted_into s (observeSyncKeyVersion p (addHistoryBytes d
      (s\<lparr>entities := entities s @ [?e], changes := changes s @ [?c], meta_next_sequence := meta_next_sequence s + 1\<rparr>))) ?e ?c"
    if "head (entities s) (exp_type x, exp_id x) = None" for p d
    unfolding accepted_into_simps using that by (simp add: accepted_into_def put_head_def k)
  ultimately show "wp (import_entity env now x) (\<lambda>_ s'. account_ok env s' \<and> acct_grows s s') (\<lambda>_ _. True) s"
    by (cases "head (entities s) (exp_type x, exp_id x)")
       (simp_all add: import_entity_def wp_simps Let_def readEntity_head k keep_old_payload_fill)
qed

lemma classify_create:
  "pl_outcome (classifyImportEntity env s x) = ImpCreate \<Longrightarrow> exp_type x \<noteq> [] \<and> exp_id x \<noteq> []"
  by (auto simp: classifyImportEntity_def Let_def split: if_splits option.splits)

lemma evolves_import_entries:
  assumes "json_reads env" "\<forall>p \<in> set plan. is_json (exp_payload (pl_entity p))"
  shows "evolves env (import_entries env now acc plan)"
  using assms(2)
proof (induction plan arbitrary: acc)
  case (Cons p plan)
  obtain a c k w where acc: "acc = (a, c, k, w)" by (cases acc)
  show ?case
  proof (rule evolvesI)
    fix s assume ok: "account_ok env s"
    define out where "out = (if pl_outcome p \<noteq> ImpCreate then pl_outcome p
      else pl_outcome (classifyImportEntity env s (pl_entity p)))"
    have entity: "evolves env (bindE (import_entity env now (pl_entity p)) (\<lambda>sequence.
        import_entries env now (a + 1, c, k, Some sequence) plan))" if "out = ImpCreate"
      using that Cons classify_create [of env s "pl_entity p"] assms(1)
      by (intro evolves_bind evolves_import_entity) (auto simp: out_def split: if_splits)
    have "wp (import_entries env now acc (p # plan)) (\<lambda>_ s'. account_ok env s' \<and> acct_grows s s') (\<lambda>_ _. True) s =
      wp (if out = ImpConflict then import_entries env now (a, c + 1, k, w) plan
          else if out \<noteq> ImpCreate then import_entries env now (a, c, k + 1, w) plan
          else bindE (import_entity env now (pl_entity p)) (\<lambda>sequence.
            import_entries env now (a + 1, c, k, Some sequence) plan))
        (\<lambda>_ s'. account_ok env s' \<and> acct_grows s s') (\<lambda>_ _. True) s"
      by (simp add: acc wp_bindE wp_gets out_def)
    then show "wp (import_entries env now acc (p # plan)) (\<lambda>_ s'. account_ok env s' \<and> acct_grows s s') (\<lambda>_ _. True) s"
      using entity Cons ok by (auto intro!: evolvesD)
  qed
qed (simp add: evolves_ret)

lemma wp_loadDataOperation [wp_simps]:
  "wp (loadDataOperation now i kind) Q E s = (case find_operation i s of
     None \<Rightarrow> E (fail_reason E_not_found ''data-operation'') s
   | Some r \<Rightarrow> if dop_kind r \<noteq> kind then E (malformed ''operation-kind-mismatch'') s
       else if now - dop_created r > SNAPSHOT_LIFETIME_MS then E (fail_reason E_not_found ''operation-expired'') s
       else Q r s)"
  by (simp add: wp_def loadDataOperation_def split: option.split)

lemma evolves_commitImport:
  assumes "json_reads env"
  shows "evolves env (commitImport env now au i)"
proof (rule evolvesI)
  fix s assume ok: "account_ok env s"
  show "wp (commitImport env now au i) (\<lambda>_ s'. account_ok env s' \<and> acct_grows s s') (\<lambda>_ _. True) s"
  proof (cases "find_operation i s")
    case (Some r)
    then have "plan_ok r"
      using ok by (auto simp: find_operation_def find_Some_iff account_ok_def)
    then have "evolves env (import_entries env now (0, 0, 0, None) (case dop_plan r of None \<Rightarrow> [] | Some p \<Rightarrow> p))"
      by (cases "dop_plan r") (auto intro!: evolves_import_entries [OF assms] evolves_ret simp: plan_ok_def)
    then have "evolves env (thenE (modify (provisionEnrollment now au))
       (bindE (import_entries env now (0, 0, 0, None) (case dop_plan r of None \<Rightarrow> [] | Some p \<Rightarrow> p))
         (\<lambda>(applied, conflicts, skipped, wm).
          let result = \<lparr>ir_operation = dop_id r, ir_applied = applied, ir_conflicts = conflicts, ir_skipped = skipped\<rparr> in
          thenE (modify (update_operation i (\<lambda>r. r\<lparr>dop_state := ''committed'', dop_finished := Some now,
             dop_result := Some result\<rparr>))) (ret (result, wm)))))"
      by (auto intro!: evolves_intros simp: Let_def split: prod.splits)
    from evolvesD [OF this ok] show ?thesis
      unfolding commitImport_def using ok Some by (auto simp: wp_simps)
  qed (simp add: commitImport_def wp_simps)
qed

lemma evolves_handleDataImportCommit: "json_reads env \<Longrightarrow> evolves env (handleDataImportCommit env now au params)"
  unfolding handleDataImportCommit_def by (auto intro!: evolves_lift_bind evolves_commit evolves_commitImport)

end
