(* ===== verification/Account_System.thy ===== *)
theory Account_System
  imports Account_Laws
begin

text \<open>
  The account as a system: the synchronous blocks that devices and the clock run on it, in any order.
  Every handler of \<open>Account_Sync\<close> and \<open>Account_Portability\<close> is an event; what is outside the model
  (the publication of a snapshot and the fair-use administration) is an event that may set the few
  fields it writes to any value its checks admit.
\<close>

section \<open>Events\<close>

datatype acct_event =
    PushCall int auth js
  | PullCall js
  | ScanBeginCall int string js
  | ScanPageCall int js
  | ScanFinishCall int js
  | ExportBeginCall int string auth js
  | ExportPageCall int js
  | ImportPreviewCall int string auth js
  | ImportCommitCall int auth js
  | StatusCall js
  | Connected int auth
  | SweepAlarm int
  | SnapshotPublished string int int
  | RestrictionStored "string option"

fun serve :: "backend_env \<Rightarrow> acct_event \<Rightarrow> account \<Rightarrow> account" where
  "serve env (PushCall now au ps) s = snd (handlePush env now au ps s)"
| "serve env (PullCall ps) s = snd (handlePull env ps s)"
| "serve env (ScanBeginCall now uuid ps) s = snd (handleScanBegin now uuid ps s)"
| "serve env (ScanPageCall now ps) s = snd (handleScanPage env now ps s)"
| "serve env (ScanFinishCall now ps) s = snd (handleScanFinish now ps s)"
| "serve env (ExportBeginCall now uuid au ps) s = snd (handleDataExportBegin now uuid au ps s)"
| "serve env (ExportPageCall now ps) s = snd (handleDataExportPage env now ps s)"
| "serve env (ImportPreviewCall now uuid au ps) s = snd (handleDataImportPreview env now uuid au ps s)"
| "serve env (ImportCommitCall now au ps) s = snd (handleDataImportCommit env now au ps s)"
| "serve env (StatusCall ps) s = snd (handleDataOperationStatus env ps s)"
| "serve env (Connected now au) s = provisionEnrollment now au s"
| "serve env (SweepAlarm now) s = sweepSync now s"
| "serve env (SnapshotPublished i c t) s = (if t > currentWatermark s then s
     else s\<lparr>active_snapshot := Some (i, c), meta_compaction_target := Some t\<rparr>)"
| "serve env (RestrictionStored f) s = s\<lparr>meta_fair_use := f\<rparr>"

text \<open>The parameters of a request are what the transport parsed from its body.\<close>

fun event_ok :: "acct_event \<Rightarrow> bool" where
  "event_ok (PushCall now au ps) = is_json ps"
| "event_ok (ImportPreviewCall now uuid au ps) = is_json ps"
| "event_ok _ = True"

inductive acct_steps :: "backend_env \<Rightarrow> account \<Rightarrow> account \<Rightarrow> bool" for env where
  here: "acct_steps env s s"
| serve: "acct_steps env s t \<Longrightarrow> event_ok ev \<Longrightarrow> acct_steps env s (serve env ev t)"

lemma acct_steps_trans: "acct_steps env t u \<Longrightarrow> acct_steps env s t \<Longrightarrow> acct_steps env s u"
  by (induction rule: acct_steps.induct) (auto intro: acct_steps.serve)

lemma acct_steps_one: "event_ok ev \<Longrightarrow> acct_steps env s (serve env ev s)"
  by (rule acct_steps.serve [OF acct_steps.here])

definition acct_reachable :: "backend_env \<Rightarrow> account \<Rightarrow> bool" where
  "acct_reachable env s \<longleftrightarrow> acct_steps env new_account s"

section \<open>Every event keeps the invariant\<close>

text \<open>
  \<open>unmoved\<close>: whatever the outcome, the heads, the journal and the scans are as before. \<open>undone\<close>: they are
  as before when the computation throws.
\<close>

definition unmoved :: "'a acct \<Rightarrow> bool" where
  "unmoved m \<longleftrightarrow> (\<forall>s. wp m (\<lambda>_. same_core s) (\<lambda>_. same_core s) s)"

definition undone :: "'a acct \<Rightarrow> bool" where
  "undone m \<longleftrightarrow> (\<forall>s. wp m (\<lambda>_ _. True) (\<lambda>_. same_core s) s)"

lemma unmoved_undone: "unmoved m \<Longrightarrow> undone m"
  unfolding unmoved_def undone_def by (auto elim: wp_mono)

lemma unmoved_bind:
  assumes "unmoved m" "\<And>x. unmoved (f x)"
  shows "unmoved (bindE m f)"
  unfolding unmoved_def wp_bindE
proof
  fix s
  from assms(1) have "wp m (\<lambda>_. same_core s) (\<lambda>_. same_core s) s" by (simp add: unmoved_def)
  then show "wp m (\<lambda>x. wp (f x) (\<lambda>_. same_core s) (\<lambda>_. same_core s)) (\<lambda>_. same_core s) s"
  proof (rule wp_mono)
    fix x t assume t: "same_core s t"
    from assms(2) have "wp (f x) (\<lambda>_. same_core t) (\<lambda>_. same_core t) t" by (simp add: unmoved_def)
    then show "wp (f x) (\<lambda>_. same_core s) (\<lambda>_. same_core s) t"
      by (rule wp_mono) (rule same_core_trans [OF t], assumption)+
  qed
qed

lemma undone_bind:
  assumes "unmoved m" "\<And>x. undone (f x)"
  shows "undone (bindE m f)"
  unfolding undone_def wp_bindE
proof
  fix s
  from assms(1) have "wp m (\<lambda>_. same_core s) (\<lambda>_. same_core s) s" by (simp add: unmoved_def)
  then show "wp m (\<lambda>x. wp (f x) (\<lambda>_ _. True) (\<lambda>_. same_core s)) (\<lambda>_. same_core s) s"
  proof (rule wp_mono)
    fix x t assume t: "same_core s t"
    from assms(2) have "wp (f x) (\<lambda>_ _. True) (\<lambda>_. same_core t) t" by (simp add: undone_def)
    then show "wp (f x) (\<lambda>_ _. True) (\<lambda>_. same_core s) t"
      by (rule wp_mono) (simp, rule same_core_trans [OF t], assumption)
  qed
qed

lemma unmoved_then: "unmoved m \<Longrightarrow> unmoved k \<Longrightarrow> unmoved (thenE m k)"
  using unmoved_bind [of m "\<lambda>_. k"] by (simp add: thenE_def bindE_def)

lemma undone_then: "unmoved m \<Longrightarrow> undone k \<Longrightarrow> undone (thenE m k)"
  using undone_bind [of m "\<lambda>_. k"] by (simp add: thenE_def bindE_def)

lemma unmoved_basic:
  "unmoved (ret x)" "unmoved (throw e)" "unmoved (gets f)" "unmoved (lift_sum r)"
  "(\<And>s. same_core s (g s)) \<Longrightarrow> unmoved (modify g)"
  by (cases r; simp add: unmoved_def wp_simps)+

lemma undone_commit: "undone (commit m)"
  by (auto simp: undone_def wp_def commit_def split: prod.splits sum.splits)

lemma unmoved_commit: "unmoved m \<Longrightarrow> unmoved (commit m)"
  unfolding unmoved_def wp_commit by (fastforce elim: wp_mono)

lemma unmoved_fairUse: "unmoved (activeFairUseRestriction env now)"
  by (auto simp: unmoved_def wp_def activeFairUseRestriction_def split: sum.splits option.splits)

lemma unmoved_loadDataOperation: "unmoved (loadDataOperation now i k)"
  by (auto simp: unmoved_def wp_def loadDataOperation_def split: option.splits)

lemma unmoved_insert_operation: "plan_ok r \<Longrightarrow> unmoved (insert_operation r)"
  by (auto simp: unmoved_def wp_simps same_core_def)

lemmas unmoved_intros = unmoved_bind unmoved_then unmoved_basic undone_bind undone_then undone_commit unmoved_commit

lemma undone_handlers:
  "undone (handlePush env now au ps)" "undone (handlePull env ps)" "undone (handleScanBegin now uuid ps)"
  "undone (handleScanPage env now ps)" "undone (handleScanFinish now ps)"
  "undone (handleDataExportBegin now uuid au ps)" "undone (handleDataExportPage env now ps)"
  "undone (handleDataImportPreview env now uuid au ps)" "undone (handleDataImportCommit env now au ps)"
  "undone (handleDataOperationStatus env ps)"
proof -
  show "undone (handlePush env now au ps)"
    unfolding handlePush_def
    by (auto intro!: undone_bind unmoved_basic unmoved_fairUse undone_commit unmoved_undone [OF unmoved_basic(2)]
        split: prod.splits option.splits)
  show "undone (handlePull env ps)"
    unfolding handlePull_def Let_def
    by (rule unmoved_undone) (auto intro!: unmoved_bind unmoved_then unmoved_basic split: prod.splits)
  show "undone (handleScanBegin now uuid ps)" "undone (handleScanPage env now ps)"
    "undone (handleScanFinish now ps)" "undone (handleDataImportPreview env now uuid au ps)"
    "undone (handleDataImportCommit env now au ps)"
    unfolding handleScanBegin_def handleScanPage_def handleScanFinish_def handleDataImportPreview_def
      handleDataImportCommit_def
    by (auto intro!: undone_bind undone_then unmoved_basic undone_commit split: prod.splits)
  show "undone (handleDataExportBegin now uuid au ps)"
    unfolding handleDataExportBegin_def
    by (rule unmoved_undone) (auto intro!: unmoved_bind unmoved_then unmoved_basic unmoved_insert_operation simp: plan_ok_def)
  show "undone (handleDataExportPage env now ps)"
    unfolding handleDataExportPage_def pageExport_def Let_def
    by (rule unmoved_undone)
       (auto intro!: unmoved_bind unmoved_then unmoved_basic unmoved_commit unmoved_loadDataOperation split: prod.splits)
  show "undone (handleDataOperationStatus env ps)"
    unfolding handleDataOperationStatus_def
    by (rule unmoved_undone) (auto intro!: unmoved_bind unmoved_basic split: option.splits)
qed

lemma evolves_handleDataOperationStatus: "evolves env (handleDataOperationStatus env ps)"
  unfolding handleDataOperationStatus_def by (auto intro!: evolves_intros split: option.splits)

lemma evolves_serve:
  assumes "evolves env m" "undone m" "account_ok env s"
  shows "account_ok env (snd (m s)) \<and> acct_grows s (snd (m s))"
proof -
  have "wp m (\<lambda>_ _. True) (\<lambda>_. same_core s) s" using assms(2) by (simp add: undone_def)
  then show ?thesis
    using evolvesD [OF assms(1,3)] same_core_ok [OF _ assms(3)]
    by (cases "m s") (auto simp: wp_def split: sum.splits)
qed

theorem serve_ok:
  assumes json: "json_reads env" and ev: "event_ok ev" and ok: "account_ok env s"
  shows "account_ok env (serve env ev s) \<and> acct_grows s (serve env ev s)"
proof -
  note run = evolves_serve [OF _ _ ok]
  show ?thesis
  proof (cases ev)
    case (SnapshotPublished i c t)
    have "currentWatermark s < meta_next_sequence s"
      using ok by (auto simp: currentWatermark_def account_ok_def journal_ok_def)
    then show ?thesis
      using ok SnapshotPublished by (auto simp: account_ok_def acct_grows_def)
  next
    case (RestrictionStored f)
    then show ?thesis using ok by (simp add: account_ok_def acct_grows_def)
  next
    case (Connected now au)
    then show ?thesis using same_core_ok [OF same_core_updates(3) ok] by simp
  next
    case (SweepAlarm now)
    then show ?thesis using account_ok_sweepSync [OF ok] by simp
  qed (use ev in \<open>simp_all add: run undone_handlers evolves_handlePush [OF json] evolves_handlePull
      evolves_handleScanBegin evolves_handleScanPage [OF json] evolves_handleScanFinish
      evolves_handleDataExportBegin evolves_handleDataExportPage evolves_handleDataImportPreview
      evolves_handleDataImportCommit [OF json] evolves_handleDataOperationStatus\<close>)
qed

lemma acct_steps_ok:
  "acct_steps env s s' \<Longrightarrow> json_reads env \<Longrightarrow> account_ok env s \<Longrightarrow> account_ok env s' \<and> acct_grows s s'"
  by (induction rule: acct_steps.induct) (use serve_ok in \<open>auto intro: acct_grows_trans\<close>)

lemma account_reachable_ok: "acct_reachable env s \<Longrightarrow> json_reads env \<Longrightarrow> account_ok env s"
  using acct_steps_ok new_account_ok unfolding acct_reachable_def by blast

lemma reachable_steps: "acct_reachable env s \<Longrightarrow> acct_steps env s s' \<Longrightarrow> acct_reachable env s'"
  unfolding acct_reachable_def by (rule acct_steps_trans)

end
