(* ===== verification/Account_Pull.thy ===== *)
theory Account_Pull
  imports Account_System
begin

text \<open>
  What a pull answers. In a good account the journal above the retention floor has every sequence
  number, each row can be read, and a page is a prefix of it: so a device that applies the page has, of
  every entity whose head is not newer than the next cursor, that head.
\<close>

definition sy_key :: "syncedChange \<Rightarrow> entity_key" where
  "sy_key c = (sy_type c, sy_id c)"

definition sy_content :: "syncedChange \<Rightarrow> content" where
  "sy_content c = (sy_revision c, sy_operation c, sy_schema c, sy_payload c)"

definition reads_row :: "backend_env \<Rightarrow> entity_row list \<Rightarrow> change_row \<Rightarrow> syncedChange \<Rightarrow> bool" where
  "reads_row env es row c \<longleftrightarrow> sy_sequence c = chg_sequence row \<and> sy_key c = chg_key row \<and>
     below env (head es (sy_key c)) (sy_content c) \<and>
     (\<forall>e. head es (sy_key c) = Some e \<and> ent_sequence e = chg_sequence row \<longrightarrow> sy_content c = content env e)"

lemma synced_change_ok:
  assumes ok: "account_ok env s" and row: "row \<in> set (changes s)"
  shows "\<exists>c. synced_change env s row = Inr c \<and> reads_row env (entities s) row c"
proof -
  have J: "journal_ok (readable env) (entities s) (changes s) (meta_next_sequence s) (meta_retention_floor s)"
    using ok by (simp add: account_ok_def)
  from journal_okD(6) [OF J row] obtain e where e: "head (entities s) (chg_key row) = Some e"
    and r: "if chg_sequence row = ent_sequence e then same_row row e
      else chg_revision row < ent_revision e \<and>
        (chg_operation row = SyncDelete \<or> (\<exists>t. chg_payload row = Some t \<and> readable env t))"
    by (auto simp: row_ok_def)
  have hok: "head_ok (readable env) (meta_next_sequence s) e"
    by (rule journal_okD(5) [OF J head_in [OF e]])
  obtain p where p: "change_payload env s row = Inr p"
    "chg_sequence row = ent_sequence e \<Longrightarrow> p = (case ent_payload e of None \<Rightarrow> None | Some t \<Rightarrow> be_json env t)"
  proof (cases "chg_sequence row = ent_sequence e")
    case True
    then show ?thesis
      using r e hok that
      by (cases "chg_operation row = SyncDelete")
         (auto simp: change_payload_def same_row_def head_ok_def readEntity_head chg_key_def readable_def
           json_parse_def Let_def split: option.splits)
  next
    case False
    then have "\<exists>p. change_payload env s row = Inr p"
      using r by (auto simp: change_payload_def readable_def json_parse_def)
    then show ?thesis using that False by blast
  qed
  show ?thesis
    using p e r
    by (auto simp: synced_change_def reads_row_def below_def sy_key_def chg_key_def sy_content_def content_def
        same_row_def split: if_splits)
qed

lemma pull_rows_prefix:
  assumes "\<And>row. row \<in> set rows \<Longrightarrow> \<exists>c. synced_change env s row = Inr c \<and> reads_row env (entities s) row c"
    and "1 \<le> m"
  shows "\<exists>n ys. pull_rows env s b m acc used rows = Inr (acc @ ys, n < length rows) \<and> n \<le> length rows \<and>
     (acc = [] \<and> rows \<noteq> [] \<longrightarrow> n \<noteq> 0) \<and> list_all2 (reads_row env (entities s)) (take n rows) ys"
  using assms
proof (induction env s b m acc used rows rule: pull_rows.induct)
  case (2 env s b m acc used row rows)
  from 2(2) obtain c where c: "synced_change env s row = Inr c" "reads_row env (entities s) row c" by force
  let ?size = "utf8ByteLength (json_text (be_pf env) (synced_js c))"
  show ?case
  proof (cases "acc \<noteq> [] \<and> used + ?size > b \<or> int (length acc) \<ge> m")
    case True
    then have "acc \<noteq> []" using 2(3) by auto
    then show ?thesis
      using True c by (intro exI [of _ 0] exI [of _ "[]"]) (auto simp: Let_def)
  next
    case False
    from 2(1) [OF c(1) refl False] 2(2,3) obtain n ys where
      n: "pull_rows env s b m (acc @ [c]) (used + ?size) rows = Inr ((acc @ [c]) @ ys, n < length rows)"
      "n \<le> length rows" "list_all2 (reads_row env (entities s)) (take n rows) ys"
      by auto
    show ?thesis
      using False n c by (intro exI [of _ "Suc n"] exI [of _ "c # ys"]) (auto simp: Let_def)
  qed
qed auto

definition pull_covers :: "backend_env \<Rightarrow> entity_row list \<Rightarrow> int \<Rightarrow> int \<Rightarrow> syncedChange list \<Rightarrow> bool" where
  "pull_covers env es c0 c1 cs \<longleftrightarrow> c0 \<le> c1 \<and> sorted_wrt (<) (map sy_sequence cs) \<and>
     (\<forall>c \<in> set cs. c0 < sy_sequence c \<and> sy_sequence c \<le> c1 \<and> sy_type c \<noteq> [] \<and> sy_id c \<noteq> [] \<and>
        below env (head es (sy_key c)) (sy_content c)) \<and>
     (\<forall>e \<in> set es. c0 < ent_sequence e \<and> ent_sequence e \<le> c1 \<longrightarrow>
        (\<exists>c \<in> set cs. sy_sequence c = ent_sequence e \<and> sy_key c = ent_key e \<and> sy_content c = content env e))"

lemma list_all2_sequences: "list_all2 (reads_row env es) rows cs \<Longrightarrow> map sy_sequence cs = map chg_sequence rows"
  by (induction rule: list_all2_induct) (auto simp: reads_row_def)

lemma sorted_journal_after:
  assumes "account_ok env s"
  shows "sorted_wrt (<) (map chg_sequence (journal_after c s))"
proof -
  have "sorted_wrt (<) (map chg_sequence (changes s))"
    using assms by (simp add: account_ok_def journal_ok_def)
  then have "sorted_wrt (<) (map chg_sequence (filter (\<lambda>r. chg_sequence r > c) (changes s)))"
    by (simp add: sorted_wrt_map sorted_wrt_filter)
  then have "distinct (map chg_sequence (filter (\<lambda>r. chg_sequence r > c) (changes s)))"
    by (simp add: strict_sorted_iff)
  then have "distinct (map chg_sequence (journal_after c s))"
    unfolding journal_after_def by (auto simp: distinct_map)
  moreover have "sorted (map chg_sequence (journal_after c s))"
    by (simp add: journal_after_def)
  ultimately show ?thesis by (simp add: strict_sorted_iff)
qed

text \<open>A prefix of the journal after a cursor that is not below the floor covers what lies in between.\<close>

lemma pull_covers_prefix:
  assumes ok: "account_ok env s" and fl: "meta_retention_floor s \<le> c0"
    and n: "n \<le> length (journal_after c0 s)"
    and A: "list_all2 (reads_row env (entities s)) (take n (journal_after c0 s)) cs"
    and c1: "c1 = (if cs = [] then c0 else sy_sequence (last cs))"
  shows "pull_covers env (entities s) c0 c1 cs"
proof -
  note seqs = list_all2_sequences [OF A]
  have J: "journal_ok (readable env) (entities s) (changes s) (meta_next_sequence s) (meta_retention_floor s)"
    using ok by (simp add: account_ok_def)
  have S: "sorted_wrt (<) (map sy_sequence cs)"
    using sorted_journal_after [OF ok, of c0] seqs by (metis sorted_wrt_take take_map)
  have elem: "c0 < sy_sequence c \<and> sy_sequence c \<le> c1 \<and> sy_type c \<noteq> [] \<and> sy_id c \<noteq> [] \<and>
      below env (head (entities s) (sy_key c)) (sy_content c)" if c: "c \<in> set cs" for c
  proof -
    from list_all2_ex2 [OF A c] obtain row where
      row: "row \<in> set (take n (journal_after c0 s))" "reads_row env (entities s) row c" by blast
    then have "row \<in> set (journal_after c0 s)" by (auto dest: in_set_takeD)
    then have in_rows: "row \<in> set (changes s)" "c0 < chg_sequence row" by (auto simp: journal_after_def)
    from row(2) obtain e where e: "head (entities s) (sy_key c) = Some e"
      by (auto simp: reads_row_def below_def)
    then have "ent_type e \<noteq> [] \<and> ent_id e \<noteq> []"
      using journal_okD(5) [OF J head_in [OF e]] by (simp add: head_ok_def)
    then have "sy_type c \<noteq> [] \<and> sy_id c \<noteq> []"
      using head_key [OF e] by (auto simp: ent_key_def sy_key_def)
    moreover have "sy_sequence c \<le> sy_sequence (last cs)"
      by (rule sorted_le_last [OF strict_sorted_imp_sorted [OF S] c])
    ultimately show ?thesis
      using c c1 row(2) in_rows by (auto simp: reads_row_def)
  qed
  moreover have "\<exists>c \<in> set cs. sy_sequence c = ent_sequence e \<and> sy_key c = ent_key e \<and> sy_content c = content env e"
    if e: "e \<in> set (entities s)" and lo: "c0 < ent_sequence e" and hi: "ent_sequence e \<le> c1" for e
  proof -
    have "ent_sequence e < meta_next_sequence s"
      using journal_okD(5) [OF J e] by (simp add: head_ok_def)
    then have "ent_sequence e \<in> chg_sequence ` set (changes s)"
      using journal_okD(8) [OF J] fl lo by simp
    then obtain row where row: "row \<in> set (changes s)" "chg_sequence row = ent_sequence e" by force
    then have J': "row \<in> set (journal_after c0 s)" using lo by (simp add: journal_after_def)
    have ne: "cs \<noteq> []" using c1 lo hi by auto
    have len: "length cs = n" using list_all2_lengthD [OF A] n by simp
    with ne n have ne': "take n (journal_after c0 s) \<noteq> []" and n0: "n \<noteq> 0" by auto
    have "chg_sequence (last (take n (journal_after c0 s))) = c1"
      using seqs ne ne' c1 by (metis last_map)
    moreover have "row \<in> set (take n (journal_after c0 s)) \<longleftrightarrow>
        chg_sequence row \<le> chg_sequence (last (take n (journal_after c0 s)))"
      by (rule sorted_prefix_bound [OF sorted_journal_after [OF ok] n0 n J'])
    ultimately have "row \<in> set (take n (journal_after c0 s))" using hi row by simp
    from list_all2_ex [OF A this] obtain c where c: "c \<in> set cs" "reads_row env (entities s) row c" by blast
    have k: "chg_key row = ent_key e"
      by (rule journal_okD(7) [OF J row(1) e row(2)])
    then have "head (entities s) (sy_key c) = Some e"
      using c(2) head_distinct [OF journal_okD(1) [OF J] e] by (simp add: reads_row_def)
    then show ?thesis
      using c k row by (auto simp: reads_row_def)
  qed
  moreover have "c0 \<le> c1"
  proof (cases "cs = []")
    case False
    then show ?thesis using elem [of "last cs"] c1 by auto
  qed (simp add: c1)
  ultimately show ?thesis
    unfolding pull_covers_def using S by blast
qed

text \<open>
  A pull answers with a page that covers the journal up to its next cursor, or, exactly for a cursor
  below the retention floor, demands a reset.
\<close>

definition pull_page_ok :: "backend_env \<Rightarrow> account \<Rightarrow> int \<Rightarrow> pull_page \<Rightarrow> bool" where
  "pull_page_ok env s c p \<longleftrightarrow> (\<exists>c'. pull_covers env (entities s) c c' (pull_changes p) \<and>
     pull_next p = int_str c' \<and> (c < meta_next_sequence s \<longrightarrow> c' < meta_next_sequence s) \<and>
     pull_floor p = meta_retention_floor s \<and>
     (\<not> pull_more p \<longrightarrow> (\<forall>e \<in> set (entities s). c < ent_sequence e \<longrightarrow> ent_sequence e \<le> c')) \<and>
     (c + 1 < meta_next_sequence s \<longrightarrow> c < c'))"

lemma pull_parsed: "parseSpikePullParams ps = Inr pull \<Longrightarrow> 0 \<le> pp_cursor pull \<and> 1 \<le> pp_max_bytes pull \<and>
    (\<forall>m. pp_max_changes pull = Some m \<longrightarrow> 1 \<le> m)"
  by (auto simp: parseSpikePullParams_def parse_cursor_def positive_integer_def split: if_splits sum.splits option.splits)

lemma bump_fields [simp]:
  "entities (bumpCounter k n s) = entities s" "changes (bumpCounter k n s) = changes s"
  "meta_retention_floor (bumpCounter k n s) = meta_retention_floor s"
  "meta_next_sequence (bumpCounter k n s) = meta_next_sequence s" "meta_epoch (bumpCounter k n s) = meta_epoch s"
  "active_snapshot (bumpCounter k n s) = active_snapshot s"
  by (simp_all add: bumpCounter_def)

lemma account_ok_bump [simp]: "account_ok env (bumpCounter k n s) = account_ok env s"
  by (simp add: bumpCounter_def account_ok_def)

lemma page_of_journal:
  assumes ok: "account_ok env s" and fl: "meta_retention_floor s \<le> c" and m: "1 \<le> m"
  obtains n cs where "pull_rows env s b m [] 0 (journal_after c s) = Inr (cs, n < length (journal_after c s))"
    "length cs = n" "n \<le> length (journal_after c s)"
    "pull_page_ok env s c \<lparr>pull_changes = cs, pull_next = int_str (if cs = [] then c else sy_sequence (last cs)),
       pull_more = (n < length (journal_after c s) \<or> length cs < length (journal_after c s)),
       pull_floor = meta_retention_floor s\<rparr>"
proof -
  have rows: "\<exists>x. synced_change env s row = Inr x \<and> reads_row env (entities s) row x"
    if "row \<in> set (journal_after c s)" for row
    using synced_change_ok [OF ok, of row] that by (simp add: journal_after_def)
  from pull_rows_prefix [OF rows m, of "journal_after c s" b "[]" 0] obtain n cs where
    n: "pull_rows env s b m [] 0 (journal_after c s) = Inr (cs, n < length (journal_after c s))"
      "n \<le> length (journal_after c s)" "journal_after c s \<noteq> [] \<longrightarrow> n \<noteq> 0"
    and A: "list_all2 (reads_row env (entities s)) (take n (journal_after c s)) cs"
    by auto
  have len: "length cs = n" using list_all2_lengthD [OF A] n(2) by simp
  note seqs = list_all2_sequences [OF A]
  let ?c' = "if cs = [] then c else sy_sequence (last cs)"
  have cov: "pull_covers env (entities s) c ?c' cs"
    by (rule pull_covers_prefix [OF ok fl n(2) A refl])
  have J: "journal_ok (readable env) (entities s) (changes s) (meta_next_sequence s) (meta_retention_floor s)"
    using ok by (simp add: account_ok_def)
  have last_row: "\<exists>row \<in> set (journal_after c s). sy_sequence (last cs) = chg_sequence row" if "cs \<noteq> []"
  proof -
    from list_all2_ex2 [OF A last_in_set [OF that]] obtain row where
      "row \<in> set (take n (journal_after c s))" "reads_row env (entities s) row (last cs)" by blast
    then show ?thesis by (auto simp: reads_row_def dest: in_set_takeD)
  qed
  have lt: "c < meta_next_sequence s \<longrightarrow> ?c' < meta_next_sequence s"
    using last_row rows_before [OF ok] by (auto simp: journal_after_def)
  have all: "ent_sequence e \<le> ?c'"
    if all: "\<not> n < length (journal_after c s)" and e: "e \<in> set (entities s)" "c < ent_sequence e" for e
  proof -
    have "ent_sequence e \<in> chg_sequence ` set (changes s)"
      using journal_okD(5,8) [OF J] e fl by (simp add: head_ok_def)
    then have "ent_sequence e \<in> chg_sequence ` set (journal_after c s)"
      using e by (force simp: journal_after_def)
    moreover have "take n (journal_after c s) = journal_after c s" using all by simp
    ultimately have s: "ent_sequence e \<in> set (map sy_sequence cs)" using seqs by simp
    then have "cs \<noteq> []" by auto
    with s cov show ?thesis by (auto simp: pull_covers_def)
  qed
  have prog: "c < ?c'" if "c + 1 < meta_next_sequence s"
  proof -
    have "c + 1 \<in> chg_sequence ` set (changes s)"
      using journal_okD(8) [OF J, of "c + 1"] fl that by simp
    then obtain row where "row \<in> set (changes s)" "chg_sequence row = c + 1" by force
    then have "row \<in> set (journal_after c s)" by (simp add: journal_after_def)
    then have "journal_after c s \<noteq> []" by auto
    then have "cs \<noteq> []" using n(3) len by auto
    then show ?thesis using cov by (auto simp: pull_covers_def)
  qed
  show ?thesis
  proof (rule that [OF n(1) len n(2)])
    show "pull_page_ok env s c \<lparr>pull_changes = cs, pull_next = int_str ?c',
       pull_more = (n < length (journal_after c s) \<or> length cs < length (journal_after c s)),
       pull_floor = meta_retention_floor s\<rparr>"
      unfolding pull_page_ok_def by (rule exI [of _ ?c']) (use cov lt all prog in simp)
  qed
qed

lemma handlePull_run:
  assumes ok: "account_ok env s" and ps: "parseSpikePullParams ps = Inr pull"
  shows "if pp_cursor pull < meta_retention_floor s
    then handlePull env ps s = (Inl (RpcFailure E_reset_required (JObj ([(''reason'', JStr ''snapshot-required''),
      (''floor'', jint (meta_retention_floor s)), (''cursor'', jint (pp_cursor pull))] @ snapshot_fields s))),
      bumpCounter ''pulls'' 1 s)
    else \<exists>p. handlePull env ps s = (Inr p, bumpCounter ''pulls'' 1 s) \<and> pull_page_ok env s (pp_cursor pull) p"
proof (cases "pp_cursor pull < meta_retention_floor s")
  case True
  then show ?thesis
    by (simp add: handlePull_def ps bindE_def thenE_def gets_def modify_def ret_def throw_def lift_sum_def snapshot_fields_def Let_def)
next
  case False
  let ?s = "bumpCounter ''pulls'' 1 s"
  let ?m = "case pp_max_changes pull of None \<Rightarrow> LIMIT_batchChanges | Some m \<Rightarrow> m"
  have "account_ok env ?s" "meta_retention_floor ?s \<le> pp_cursor pull" "1 \<le> ?m"
    using ok False pull_parsed [OF ps] by (auto simp: LIMIT_batchChanges_def split: option.split)
  from page_of_journal [OF this, of "min (pp_max_bytes pull) LIMIT_pageBytes"] obtain n cs where
    n: "pull_rows env ?s (min (pp_max_bytes pull) LIMIT_pageBytes) ?m [] 0 (journal_after (pp_cursor pull) ?s) =
        Inr (cs, n < length (journal_after (pp_cursor pull) ?s))"
    and P: "pull_page_ok env ?s (pp_cursor pull)
      \<lparr>pull_changes = cs, pull_next = int_str (if cs = [] then pp_cursor pull else sy_sequence (last cs)),
       pull_more = (n < length (journal_after (pp_cursor pull) ?s) \<or> length cs < length (journal_after (pp_cursor pull) ?s)),
       pull_floor = meta_retention_floor ?s\<rparr>" by metis
  have "pull_page_ok env s = pull_page_ok env ?s"
    by (simp add: pull_page_ok_def fun_eq_iff)
  with n P False show ?thesis
    by (simp add: handlePull_def ps bindE_def thenE_def gets_def modify_def ret_def throw_def lift_sum_def Let_def)
qed

end
