(* ===== verification/Sync_Engine.thy ===== *)
theory Sync_Engine
  imports Account_Pull
begin

text \<open>
  The device's side of the synchronisation: \<open>sync-engine.service.ts\<close> of the desktop application's main
  process, with the scan staging of \<open>sync-persistence.service.ts\<close>.

  \<open>scanCycle\<close> rebuilds a device: it begins a scan, stages its pages, finishes it, pulls the changes made
  meanwhile up to the finish watermark onto the staging, and activates. The asynchronous function is a
  machine that is at one of its remote calls: \<open>engine_request\<close> is the call, \<open>engine_receive\<close> the code
  from its answer to the next call. The upload of a compact snapshot before the activation is left
  out; it reads the staging only. The keys of the account, the cipher and \<open>JSON.parse\<close> are parameters.
\<close>

section \<open>Answers on the wire\<close>

definition pull_page_js :: "pull_page \<Rightarrow> js" where
  "pull_page_js p = JObj [(''changes'', JArr (map synced_js (pull_changes p))), (''nextCursor'', JStr (pull_next p)),
     (''hasMore'', JBool (pull_more p)), (''recoveryFloor'', jint (pull_floor p))]"

definition scan_begin_js :: "scan_begin \<Rightarrow> js" where
  "scan_begin_js b = JObj [(''scanId'', JStr (sb_scan b)), (''watermarkStart'', jint (sb_start b)),
     (''resumeCursor'', JStr (sb_cursor b)), (''epoch'', JStr (sb_epoch b))]"

definition scan_page_js :: "scan_page \<Rightarrow> js" where
  "scan_page_js p = JObj [(''entities'', JArr (map scanned_js (pg_entities p))),
     (''nextCursor'', jopt JStr (pg_next p)), (''done'', JBool (pg_done p))]"

definition scan_finish_js :: "scan_finish \<Rightarrow> js" where
  "scan_finish_js f = JObj [(''scanId'', JStr (sf_scan f)), (''complete'', JBool (sf_complete f)),
     (''watermarkEnd'', jint (sf_end f)), (''epoch'', JStr (sf_epoch f)), (''nextCursor'', JStr (sf_next f))]"

section \<open>Validation of a change\<close>

definition syncCursorNumber :: "string \<Rightarrow> int option" where
  "syncCursorNumber c =
     (if c = ''0'' then Some 0
      else if c \<noteq> [] \<and> list_all is_digit c \<and> c ! 0 \<noteq> CHR ''0'' \<and> int (digits_val 0 c) \<le> max_safe
      then Some (int (digits_val 0 c)) else None)"

definition toSyncedChange :: "js \<Rightarrow> syncedChange option" where
  "toSyncedChange v =
     (if \<not> isRecord v \<or> \<not> nonempty_str (jget v ''entityType'') \<or> \<not> nonempty_str (jget v ''entityId'') then None
      else (case (num_integer (jget v ''revision''), num_integer (jget v ''schemaVersion''),
                  num_integer (jget v ''sequence''), isSyncOperation (jget v ''operation'')) of
         (Some revision, Some schema, Some sequence, Some operation) \<Rightarrow>
           Some \<lparr>sy_type = js_str (jget v ''entityType''), sy_id = js_str (jget v ''entityId''),
             sy_revision = revision, sy_operation = operation, sy_schema = schema, sy_sequence = sequence,
             sy_payload = (if has_own v ''payload'' then Some (jget v ''payload'') else None)\<rparr>
       | _ \<Rightarrow> None))"

definition is_number :: "js \<Rightarrow> bool" where
  "is_number v \<longleftrightarrow> (case v of JNum _ \<Rightarrow> True | _ \<Rightarrow> False)"

section \<open>Opening payloads\<close>

record engine_env =
  ge_pf :: platform
  ge_json :: "string \<Rightarrow> js option"
  ge_backend :: string
  ge_account :: string
  ge_key :: "int \<Rightarrow> string option"
  ge_open :: "string \<Rightarrow> string \<Rightarrow> string \<Rightarrow> string \<Rightarrow> string option"
  ge_page_bytes :: int

definition isSealedEntityPayload :: "js \<Rightarrow> bool" where
  "isSealedEntityPayload v \<longleftrightarrow> isObject v \<and> jget v ''enc'' = JStr ''aes-256-gcm''"

definition entitySealAssociatedData :: "string \<Rightarrow> string \<Rightarrow> string \<Rightarrow> string \<Rightarrow> int \<Rightarrow> string" where
  "entitySealAssociatedData b a t i v =
     js_join ''|'' [''mezair/entity-seal/v1'', b, a, t, i, int_str v]"

text \<open>\<open>Inl\<close> is the reason of an \<open>UnsealError\<close>.\<close>

definition unsealEntityPayload :: "engine_env \<Rightarrow> string \<Rightarrow> string \<Rightarrow> js \<Rightarrow> string + js" where
  "unsealEntityPayload g t i v =
     (if \<not> isSealedEntityPayload v \<or> sealedEnvelopeIssue v \<noteq> None then Inl ''malformed-envelope''
      else (case num_integer (jget v ''keyVersion'') of
         None \<Rightarrow> Inl ''malformed-envelope''
       | Some version \<Rightarrow> (case ge_key g version of
           None \<Rightarrow> Inl ''unknown-key-version''
         | Some key \<Rightarrow> (case ge_open g key (entitySealAssociatedData (ge_backend g) (ge_account g) t i version)
               (js_str (jget v ''nonce'')) (js_str (jget v ''ct'')) of
             None \<Rightarrow> Inl ''auth-failed''
           | Some plain \<Rightarrow> (case ge_json g plain of
               None \<Rightarrow> Inl ''malformed-plaintext'' | Some w \<Rightarrow> Inr w)))))"

datatype wire_domain = Domain "string option" | Quarantined string string

definition wirePayloadToDomain :: "engine_env \<Rightarrow> string \<Rightarrow> string \<Rightarrow> js \<Rightarrow> wire_domain" where
  "wirePayloadToDomain g t i p =
     (if p = JUndef then Domain None
      else if isCryptoBoundaryEntityType t then Domain (Some (canonicalize (ge_pf g) p))
      else if \<not> isSealedEntityPayload p then Quarantined ''unsealed-payload'' (canonicalize (ge_pf g) p)
      else (case unsealEntityPayload g t i p of
          Inr d \<Rightarrow> Domain (Some (canonicalize (ge_pf g) d))
        | Inl r \<Rightarrow> Quarantined (''unseal-'' @ r) (canonicalize (ge_pf g) p)))"

section \<open>Staging\<close>

record staged =
  stg_revision :: int
  stg_schema :: int
  stg_operation :: sync_op
  stg_payload :: "string option"
  stg_wire :: "string option"

type_synonym staging = "(entity_key \<times> staged) list"

text \<open>The upsert of \<open>stageScanEntities\<close> and \<open>stageScanChange\<close>: a row is only replaced by a newer revision.\<close>

definition stage_put :: "entity_key \<times> staged \<Rightarrow> staging \<Rightarrow> staging" where
  "stage_put kx m = (case map_of m (fst kx) of
     None \<Rightarrow> m @ [kx]
   | Some y \<Rightarrow> if stg_revision (snd kx) > stg_revision y
       then map (\<lambda>jz. if fst jz = fst kx then kx else jz) m else m)"

definition stageScanEntities :: "(entity_key \<times> staged) list \<Rightarrow> staging \<Rightarrow> staging" where
  "stageScanEntities xs m = fold stage_put xs m"

text \<open>A quarantined payload is staged with its envelope and revision.\<close>

definition quarantine_json :: "engine_env \<Rightarrow> string \<Rightarrow> int \<Rightarrow> int \<Rightarrow> string option" where
  "quarantine_json g raw revision schema = map_option (\<lambda>v. canonicalize (ge_pf g) (JObj
     [(''envelope'', v), (''revision'', jint revision), (''schemaVersion'', jint schema)])) (ge_json g raw)"

definition staged_row :: "engine_env \<Rightarrow> string \<Rightarrow> string \<Rightarrow> int \<Rightarrow> int \<Rightarrow> sync_op \<Rightarrow> js \<Rightarrow> staged option" where
  "staged_row g t i revision schema operation p =
     (let wire = (if operation = SyncDelete then None else Some (canonicalize (ge_pf g) p));
          row = \<lparr>stg_revision = revision, stg_schema = schema, stg_operation = operation,
                 stg_payload = None, stg_wire = wire\<rparr> in
      if operation = SyncDelete then Some row
      else if isCryptoBoundaryEntityType t then Some (row\<lparr>stg_payload := wire\<rparr>)
      else (case wirePayloadToDomain g t i p of
          Domain json \<Rightarrow> Some (row\<lparr>stg_payload := json\<rparr>)
        | Quarantined reason raw \<Rightarrow>
            map_option (\<lambda>q. row\<lparr>stg_payload := Some q\<rparr>) (quarantine_json g raw revision schema)))"

text \<open>
  \<open>stagedEntitiesForWire\<close>: an item that is not an entity is skipped. \<open>None\<close> is the \<open>SyntaxError\<close> of a
  quarantined payload that cannot be read back.
\<close>

definition stagedEntityForWire :: "engine_env \<Rightarrow> js \<Rightarrow> (entity_key \<times> staged) option option" where
  "stagedEntityForWire g v =
     (if \<not> isRecord v \<or> \<not> nonempty_str (jget v ''entityType'') \<or> \<not> nonempty_str (jget v ''entityId'') then Some None
      else (case (num_integer (jget v ''revision''), num_integer (jget v ''schemaVersion''),
                  isSyncOperation (jget v ''operation'')) of
         (Some revision, Some schema, Some operation) \<Rightarrow>
           let t = js_str (jget v ''entityType''); i = js_str (jget v ''entityId'') in
           map_option (\<lambda>x. Some ((t, i), x)) (staged_row g t i revision schema operation (jget v ''payload''))
       | _ \<Rightarrow> Some None))"

fun stagedEntitiesForWire :: "engine_env \<Rightarrow> js list \<Rightarrow> (entity_key \<times> staged) list option" where
  "stagedEntitiesForWire g [] = Some []"
| "stagedEntitiesForWire g (v # vs) = (case stagedEntityForWire g v of
     None \<Rightarrow> None
   | Some x \<Rightarrow> (case stagedEntitiesForWire g vs of
       None \<Rightarrow> None
     | Some xs \<Rightarrow> Some (case x of None \<Rightarrow> xs | Some y \<Rightarrow> y # xs)))"

definition stagePulledChange :: "engine_env \<Rightarrow> syncedChange \<Rightarrow> staging \<Rightarrow> staging option" where
  "stagePulledChange g c m =
     map_option (\<lambda>x. stage_put ((sy_type c, sy_id c), x) m)
       (staged_row g (sy_type c) (sy_id c) (sy_revision c) (sy_schema c) (sy_operation c)
          (case sy_payload c of None \<Rightarrow> JUndef | Some v \<Rightarrow> v))"

section \<open>The machine of \<open>scanCycle\<close>\<close>

definition SCAN_PAGE_LIMIT :: nat where
  "SCAN_PAGE_LIMIT = 500"

definition CATCHUP_PAGE_LIMIT :: nat where
  "CATCHUP_PAGE_LIMIT = 500"

datatype engine =
    AwaitBegin
  | AwaitPage string string "string option" nat
  | AwaitFinish string string
  | AwaitCatchUp string string nat
  | Activated string
  | Failed string

text \<open>The answer the machine waits for: the begin; a page (scan, resume cursor, cursor, number of the page);
  the finish (scan, resume cursor); a pull (cursor, finish cursor, number of the page).\<close>

record scan_device =
  sd_epoch :: string
  sd_run :: "(string \<times> int) option"
  sd_staging :: staging
  sd_engine :: engine

definition engine_request :: "engine_env \<Rightarrow> scan_device \<Rightarrow> (string \<times> js) option" where
  "engine_request g d = (case sd_engine d of
     AwaitBegin \<Rightarrow> Some (''sync.scan.begin'', JObj [(''epoch'', JStr (sd_epoch d))])
   | AwaitPage i resume c n \<Rightarrow> Some (''sync.scan.page'',
       JObj [(''scanId'', JStr i), (''cursor'', jopt JStr c), (''maxBytes'', jint (ge_page_bytes g))])
   | AwaitFinish i resume \<Rightarrow> Some (''sync.scan.finish'', JObj [(''scanId'', JStr i)])
   | AwaitCatchUp c w n \<Rightarrow> Some (''sync.pull'', JObj [(''cursor'', JStr c), (''maxBytes'', jint (ge_page_bytes g))])
   | _ \<Rightarrow> None)"

definition fail_engine :: "string \<Rightarrow> scan_device \<Rightarrow> scan_device" where
  "fail_engine e d = d\<lparr>sd_engine := Failed e\<rparr>"

text \<open>\<open>beginScanStaging\<close>: what an earlier scan staged is discarded.\<close>

definition receive_begin :: "js \<Rightarrow> scan_device \<Rightarrow> scan_device" where
  "receive_begin r d =
     (if \<not> isRecord r \<or> \<not> isString (jget r ''scanId'') \<or> num_integer (jget r ''watermarkStart'') = None \<or>
         \<not> isString (jget r ''epoch'') \<or> \<not> isString (jget r ''resumeCursor'')
      then fail_engine ''malformed'' d
      else if jget r ''epoch'' \<noteq> JStr (sd_epoch d) then fail_engine ''epoch-mismatch'' d
      else d\<lparr>sd_run := Some (js_str (jget r ''scanId''), the (num_integer (jget r ''watermarkStart''))),
             sd_staging := [],
             sd_engine := AwaitPage (js_str (jget r ''scanId'')) (js_str (jget r ''resumeCursor'')) None 0\<rparr>)"

definition receive_page :: "engine_env \<Rightarrow> string \<Rightarrow> string \<Rightarrow> nat \<Rightarrow> js \<Rightarrow> scan_device \<Rightarrow> scan_device" where
  "receive_page g i resume n r d =
     (if \<not> isRecord r \<or> \<not> isArray (jget r ''entities'') \<or> \<not> isBool (jget r ''done'')
      then fail_engine ''malformed'' d
      else (case stagedEntitiesForWire g (js_items (jget r ''entities'')) of
         None \<Rightarrow> fail_engine ''SyntaxError'' d
       | Some xs \<Rightarrow>
           let d' = d\<lparr>sd_staging := stageScanEntities xs (sd_staging d)\<rparr> in
           if jget r ''done'' = JBool True then d'\<lparr>sd_engine := AwaitFinish i resume\<rparr>
           else if \<not> isString (jget r ''nextCursor'') then fail_engine ''malformed'' d'
           else if n = SCAN_PAGE_LIMIT - 1 then fail_engine ''malformed'' d'
           else d'\<lparr>sd_engine := AwaitPage i resume (Some (js_str (jget r ''nextCursor''))) (n + 1)\<rparr>))"

definition receive_finish :: "string \<Rightarrow> js \<Rightarrow> scan_device \<Rightarrow> scan_device" where
  "receive_finish resume r d =
     (if \<not> isRecord r \<or> \<not> isString (jget r ''nextCursor'') \<or> num_integer (jget r ''watermarkEnd'') = None \<or>
         \<not> isString (jget r ''epoch'')
      then fail_engine ''malformed'' d
      else if jget r ''epoch'' \<noteq> JStr (sd_epoch d) then fail_engine ''epoch-mismatch'' d
      else if syncCursorNumber (js_str (jget r ''nextCursor'')) = None \<or> syncCursorNumber resume = None
      then fail_engine ''malformed'' d
      else d\<lparr>sd_engine := AwaitCatchUp resume (js_str (jget r ''nextCursor'')) 0\<rparr>)"

text \<open>
  The changes of a page of \<open>catchUpStagedState\<close>: those up to the finish watermark are staged; whether one
  past it was seen, or what was thrown. What was staged before an error stays staged.
\<close>

fun catch_up_changes :: "engine_env \<Rightarrow> int \<Rightarrow> js list \<Rightarrow> staging \<Rightarrow> staging \<times> (string + bool)" where
  "catch_up_changes g w [] m = (m, Inr False)"
| "catch_up_changes g w (v # vs) m = (case toSyncedChange v of
     None \<Rightarrow> (m, Inl ''malformed'')
   | Some c \<Rightarrow>
       if sy_sequence c > w then (m, Inr True)
       else (case stagePulledChange g c m of
         None \<Rightarrow> (m, Inl ''SyntaxError'')
       | Some m' \<Rightarrow> catch_up_changes g w vs m'))"

definition receive_catch_up :: "engine_env \<Rightarrow> string \<Rightarrow> nat \<Rightarrow> js \<Rightarrow> scan_device \<Rightarrow> scan_device" where
  "receive_catch_up g w n r d =
     (if \<not> isRecord r \<or> \<not> isArray (jget r ''changes'') \<or> \<not> isString (jget r ''nextCursor'') \<or>
         \<not> isBool (jget r ''hasMore'') \<or> \<not> is_number (jget r ''recoveryFloor'')
      then fail_engine ''malformed'' d
      else (case syncCursorNumber w of
         None \<Rightarrow> fail_engine ''malformed'' d
       | Some finish \<Rightarrow>
         (case catch_up_changes g finish (js_items (jget r ''changes'')) (sd_staging d) of
            (m, Inl e) \<Rightarrow> fail_engine e (d\<lparr>sd_staging := m\<rparr>)
          | (m, Inr past) \<Rightarrow>
              let d' = d\<lparr>sd_staging := m\<rparr>; cursor = js_str (jget r ''nextCursor'') in
              if past \<or> (case syncCursorNumber cursor of None \<Rightarrow> False | Some next \<Rightarrow> next \<ge> finish)
              then d'\<lparr>sd_engine := Activated w\<rparr>
              else if jget r ''hasMore'' \<noteq> JBool True then fail_engine ''malformed'' d'
              else if n = CATCHUP_PAGE_LIMIT - 1 then fail_engine ''malformed'' d'
              else d'\<lparr>sd_engine := AwaitCatchUp cursor w (n + 1)\<rparr>)))"

definition engine_receive :: "engine_env \<Rightarrow> js \<Rightarrow> scan_device \<Rightarrow> scan_device" where
  "engine_receive g r d = (case sd_engine d of
     AwaitBegin \<Rightarrow> receive_begin r d
   | AwaitPage i resume c n \<Rightarrow> receive_page g i resume n r d
   | AwaitFinish i resume \<Rightarrow> receive_finish resume r d
   | AwaitCatchUp c w n \<Rightarrow> receive_catch_up g w n r d
   | _ \<Rightarrow> d)"

section \<open>The calls on the account\<close>

definition rpc_answer :: "('a \<Rightarrow> js) \<Rightarrow> (acct_exn + 'a) \<times> account \<Rightarrow> (acct_exn + js) \<times> account" where
  "rpc_answer f r = ((case fst r of Inl e \<Rightarrow> Inl e | Inr x \<Rightarrow> Inr (f x)), snd r)"

definition sync_rpc :: "backend_env \<Rightarrow> int \<Rightarrow> string \<Rightarrow> string \<Rightarrow> js \<Rightarrow> account \<Rightarrow> (acct_exn + js) \<times> account" where
  "sync_rpc env now uuid op ps s =
     (if op = ''sync.scan.begin'' then rpc_answer scan_begin_js (handleScanBegin now uuid ps s)
      else if op = ''sync.scan.page'' then rpc_answer scan_page_js (handleScanPage env now ps s)
      else if op = ''sync.scan.finish'' then rpc_answer scan_finish_js (handleScanFinish now ps s)
      else if op = ''sync.pull'' then rpc_answer pull_page_js (handlePull env ps s)
      else (Inl (fail_reason E_unsupported_operation op), s))"

end
