(* ===== verification/Sync_Convergence.thy ===== *)
theory Sync_Convergence
  imports Sync_Engine
begin

text \<open>
  The account and a device that rebuilds itself, together: between any two steps of the device the
  account serves other devices, imports, sweeps and publications. Whatever happens, a device that reaches
  the activation of its staging at a watermark has, of every entity whose head is not newer than that
  watermark, exactly that head.
\<close>

section \<open>Staged rows and heads\<close>

definition wire_text :: "engine_env \<Rightarrow> sync_op \<Rightarrow> js option \<Rightarrow> string option" where
  "wire_text g operation p = (if operation = SyncDelete then None
     else Some (canonicalize (ge_pf g) (case p of None \<Rightarrow> JUndef | Some v \<Rightarrow> v)))"

definition staged_as :: "engine_env \<Rightarrow> staged \<Rightarrow> content \<Rightarrow> bool" where
  "staged_as g x = (\<lambda>(r, operation, schema, p). stg_revision x = r \<and> stg_operation x = operation \<and>
     stg_schema x = schema \<and> stg_wire x = wire_text g operation p)"

definition staged_below :: "backend_env \<Rightarrow> engine_env \<Rightarrow> entity_row option \<Rightarrow> staged \<Rightarrow> bool" where
  "staged_below env g h x \<longleftrightarrow>
     (\<exists>e. h = Some e \<and> (stg_revision x < ent_revision e \<or> staged_as g x (content env e)))"

definition staging_ok :: "backend_env \<Rightarrow> engine_env \<Rightarrow> entity_row list \<Rightarrow> staging \<Rightarrow> bool" where
  "staging_ok env g es m \<longleftrightarrow> distinct (map fst m) \<and> (\<forall>kx \<in> set m. staged_below env g (head es (fst kx)) (snd kx))"

definition got :: "backend_env \<Rightarrow> engine_env \<Rightarrow> staging \<Rightarrow> entity_row \<Rightarrow> bool" where
  "got env g m e \<longleftrightarrow> (\<exists>x. map_of m (ent_key e) = Some x \<and> staged_as g x (content env e))"

lemma staged_as_revision: "staged_as g x (content env e) \<Longrightarrow> stg_revision x = ent_revision e"
  by (simp add: staged_as_def content_def)

lemma staged_below_grow: "heads_grow es n es' n' \<Longrightarrow> staged_below env g (head es k) x \<Longrightarrow> staged_below env g (head es' k) x"
  unfolding staged_below_def by (fastforce dest: heads_growD(3) staged_as_revision)

lemma staging_ok_grow: "heads_grow es n es' n' \<Longrightarrow> staging_ok env g es m \<Longrightarrow> staging_ok env g es' m"
  unfolding staging_ok_def by (auto intro: staged_below_grow)

lemma staged_below_content: "below env h c \<Longrightarrow> staged_as g x c \<Longrightarrow> staged_below env g h x"
  unfolding below_def staged_below_def by (cases c) (auto simp: staged_as_def)

lemma staged_row_as:
  "staged_row g t i r schema operation (case p of None \<Rightarrow> JUndef | Some v \<Rightarrow> v) = Some x \<Longrightarrow>
     staged_as g x (r, operation, schema, p)"
  by (auto simp: staged_row_def Let_def staged_as_def wire_text_def split: if_splits wire_domain.splits)

section \<open>The upsert\<close>

lemma map_of_stage_put:
  "map_of (stage_put (k, x) m) = (map_of m)(k \<mapsto> (case map_of m k of None \<Rightarrow> x
     | Some y \<Rightarrow> if stg_revision x > stg_revision y then x else y))"
proof -
  have rep: "map_of (map (\<lambda>jz. if fst jz = k then (k, x) else jz) m) = (map_of m)(k := map_option (\<lambda>_. x) (map_of m k))"
    by (induction m) (auto simp: fun_eq_iff)
  have new: "map_of (m @ [(k, x)]) = (map_of m)(k \<mapsto> x)" if "map_of m k = None"
  proof
    fix j
    show "map_of (m @ [(k, x)]) j = ((map_of m)(k \<mapsto> x)) j"
      using that by (cases "j = k"; cases "map_of m j") (simp_all add: map_add_def)
  qed
  show ?thesis
    by (cases "map_of m k") (auto simp: stage_put_def rep new fun_upd_idem simp del: map_of_append)
qed

lemma distinct_stage_put: "distinct (map fst m) \<Longrightarrow> distinct (map fst (stage_put kx m))"
proof (cases "map_of m (fst kx)")
  case None
  moreover have "fst kx \<notin> fst ` set m" using None by (simp add: map_of_eq_None_iff)
  ultimately show "distinct (map fst m) \<Longrightarrow> ?thesis" by (simp add: stage_put_def)
next
  case (Some y)
  have "map fst (map (\<lambda>jz. if fst jz = fst kx then kx else jz) m) = map fst m"
    by (induction m) auto
  then show "distinct (map fst m) \<Longrightarrow> ?thesis" using Some by (auto simp: stage_put_def simp del: map_map)
qed

lemma in_stage_put: "y \<in> set (stage_put kx m) \<Longrightarrow> y = kx \<or> y \<in> set m"
  by (auto simp: stage_put_def split: option.splits if_splits)

lemma staging_ok_put:
  "staging_ok env g es m \<Longrightarrow> staged_below env g (head es (fst kx)) (snd kx) \<Longrightarrow> staging_ok env g es (stage_put kx m)"
  unfolding staging_ok_def by (auto dest!: in_stage_put simp: distinct_stage_put)

lemma got_put:
  assumes D: "distinct (map ent_key es)" "e \<in> set es" and m: "staging_ok env g es m"
    and b: "staged_below env g (head es (fst kx)) (snd kx)"
  shows "got env g m e \<Longrightarrow> got env g (stage_put kx m) e"
    and "fst kx = ent_key e \<Longrightarrow> staged_as g (snd kx) (content env e) \<Longrightarrow> got env g (stage_put kx m) e"
proof -
  obtain k x where kx: "kx = (k, x)" by (cases kx)
  have h: "head es (ent_key e) = Some e" by (rule head_distinct [OF D])
  show "got env g m e \<Longrightarrow> got env g (stage_put kx m) e"
    using b h by (fastforce simp: got_def map_of_stage_put kx staged_below_def dest: staged_as_revision)
  assume k: "fst kx = ent_key e" and a: "staged_as g (snd kx) (content env e)"
  show "got env g (stage_put kx m) e"
  proof (cases "map_of m k")
    case (Some y)
    then have "staged_below env g (head es k) y"
      using m map_of_SomeD [OF Some] unfolding staging_ok_def by fastforce
    then show ?thesis
      using Some k a h by (auto simp: got_def map_of_stage_put kx staged_below_def dest: staged_as_revision)
  qed (use k a in \<open>auto simp: got_def map_of_stage_put kx\<close>)
qed

lemma stageScanEntities_ok:
  assumes "distinct (map ent_key es)" "staging_ok env g es m"
    and "\<forall>kx \<in> set xs. staged_below env g (head es (fst kx)) (snd kx)"
  shows "staging_ok env g es (stageScanEntities xs m) \<and>
    (\<forall>e \<in> set es. got env g m e \<or> (\<exists>kx \<in> set xs. fst kx = ent_key e \<and> staged_as g (snd kx) (content env e))
       \<longrightarrow> got env g (stageScanEntities xs m) e)"
  using assms(2,3)
proof (induction xs arbitrary: m)
  case (Cons kx xs)
  have b: "staged_below env g (head es (fst kx)) (snd kx)" using Cons.prems by simp
  have "staging_ok env g es (stage_put kx m)" using Cons.prems by (simp add: staging_ok_put)
  from Cons.IH [OF this] show ?case
    using Cons.prems got_put [OF assms(1) _ Cons.prems(1) b] by (auto simp: stageScanEntities_def)
qed (simp add: stageScanEntities_def)

section \<open>Reading the answers\<close>

lemma num_integer_jint [simp]: "num_integer (jint i) = Some i"
  by (simp add: num_integer_def jint_def)

lemma isSyncOperation_name [simp]: "isSyncOperation (JStr (op_name x)) = Some x"
  by (cases x) (simp_all add: isSyncOperation_def)

lemma toSyncedChange_js: "sy_type c \<noteq> [] \<Longrightarrow> sy_id c \<noteq> [] \<Longrightarrow> toSyncedChange (synced_js c) = Some c"
  by (cases "sy_payload c")
     (simp_all add: toSyncedChange_def synced_js_def payload_field_def jget_def isRecord_def isObject_def
       nonempty_str_def isString_def js_str_def has_own_def)

lemma staged_scanned_js:
  assumes "scd_type c \<noteq> []" "scd_id c \<noteq> []"
  shows "stagedEntityForWire g (scanned_js c) = map_option (\<lambda>x. Some (scd_key c, x))
    (staged_row g (scd_type c) (scd_id c) (scd_revision c) (scd_schema c) (scd_operation c)
      (case scd_payload c of None \<Rightarrow> JUndef | Some v \<Rightarrow> v))"
  using assms by (cases "scd_payload c")
     (simp_all add: stagedEntityForWire_def scanned_js_def payload_field_def jget_def isRecord_def isObject_def
       nonempty_str_def isString_def js_str_def scd_key_def Let_def)

lemma staged_page:
  "stagedEntitiesForWire g (map scanned_js cs) = Some xs \<Longrightarrow> \<forall>c \<in> set cs. scd_type c \<noteq> [] \<and> scd_id c \<noteq> [] \<Longrightarrow>
     list_all2 (\<lambda>c kx. fst kx = scd_key c \<and> staged_as g (snd kx) (scd_content c)) cs xs"
proof (induction cs arbitrary: xs)
  case (Cons c cs)
  then show ?case
    by (auto simp: staged_scanned_js scd_content_def dest: staged_row_as [where p = None, simplified]
        staged_row_as [where p = "Some p" for p, simplified] split: option.splits)
qed simp

text \<open>A page covers its interval on the device, too.\<close>

lemma page_staged:
  assumes D: "distinct (map ent_key es)" and m: "staging_ok env g es m"
    and P: "page_covers env es start lo p" and ne: "\<forall>e \<in> set es. ent_type e \<noteq> [] \<and> ent_id e \<noteq> []"
    and xs: "stagedEntitiesForWire g (map scanned_js (pg_entities p)) = Some xs"
  shows "staging_ok env g es (stageScanEntities xs m)"
    and "e \<in> set es \<Longrightarrow> got env g m e \<or> ent_sequence e \<le> start \<and> in_page env lo p (ent_key e) \<Longrightarrow>
      got env g (stageScanEntities xs m) e"
proof -
  have b: "below env (head es (scd_key c)) (scd_content c)" if "c \<in> set (pg_entities p)" for c
    using P that unfolding page_covers_def by blast
  have "scd_type c \<noteq> [] \<and> scd_id c \<noteq> []" if "c \<in> set (pg_entities p)" for c
  proof -
    from b [OF that] obtain e where e: "head es (scd_key c) = Some e" by (auto simp: below_def)
    from ne head_in [OF e] have "ent_type e \<noteq> [] \<and> ent_id e \<noteq> []" by blast
    then show ?thesis using head_key [OF e] by (simp add: ent_key_def scd_key_def)
  qed
  then have A: "list_all2 (\<lambda>c kx. fst kx = scd_key c \<and> staged_as g (snd kx) (scd_content c)) (pg_entities p) xs"
    by (intro staged_page [OF xs]) blast
  have below: "\<forall>kx \<in> set xs. staged_below env g (head es (fst kx)) (snd kx)"
  proof
    fix kx assume "kx \<in> set xs"
    from list_all2_ex2 [OF A this] obtain c where
      c: "c \<in> set (pg_entities p)" "fst kx = scd_key c" "staged_as g (snd kx) (scd_content c)" by blast
    show "staged_below env g (head es (fst kx)) (snd kx)"
      using staged_below_content [OF b [OF c(1)] c(3)] c(2) by simp
  qed
  note S = stageScanEntities_ok [OF D m below]
  show "staging_ok env g es (stageScanEntities xs m)" using S by blast
  assume e: "e \<in> set es" and h: "got env g m e \<or> ent_sequence e \<le> start \<and> in_page env lo p (ent_key e)"
  show "got env g (stageScanEntities xs m) e"
  proof (cases "got env g m e")
    case False
    then obtain c where c: "c \<in> set (pg_entities p)" "scd_key c = ent_key e" "scd_content c = content env e"
      using P e h unfolding page_covers_def by blast
    then show ?thesis using S e list_all2_ex [OF A c(1)] by auto
  qed (use S e in blast)
qed

text \<open>The changes of a page up to the watermark are on the device.\<close>

lemma catch_up_staged:
  assumes "distinct (map ent_key es)" "staging_ok env g es m" "sorted_wrt (<) (map sy_sequence cs)"
    and "\<forall>c \<in> set cs. sy_type c \<noteq> [] \<and> sy_id c \<noteq> [] \<and> below env (head es (sy_key c)) (sy_content c)"
    and "catch_up_changes g w (map synced_js cs) m = (m', out)"
  shows "staging_ok env g es m' \<and> (\<forall>e \<in> set es. got env g m e \<longrightarrow> got env g m' e) \<and>
    (\<forall>past. out = Inr past \<longrightarrow> past = (\<exists>c \<in> set cs. sy_sequence c > w) \<and>
       (\<forall>c \<in> set cs. \<forall>e \<in> set es. sy_sequence c \<le> w \<and> sy_key c = ent_key e \<and> sy_content c = content env e
          \<longrightarrow> got env g m' e))"
  using assms(2-5)
proof (induction cs arbitrary: m)
  case (Cons c cs)
  have read: "toSyncedChange (synced_js c) = Some c"
    using Cons.prems(3) by (simp add: toSyncedChange_js)
  have b: "below env (head es (sy_key c)) (sy_content c)" using Cons.prems(3) by simp
  show ?case
  proof (cases "sy_sequence c > w")
    case True
    then have "\<forall>d \<in> set cs. sy_sequence d > w" using Cons.prems(2) by (auto intro: less_trans)
    then show ?thesis using True read Cons.prems by auto
  next
    case False
    show ?thesis
    proof (cases "stagePulledChange g c m")
      case None
      then show ?thesis using False read Cons.prems by auto
    next
      case (Some m1)
      then obtain x where x: "m1 = stage_put (sy_key c, x) m" "staged_as g x (sy_content c)"
        using staged_row_as [of g "sy_type c" "sy_id c" "sy_revision c" "sy_schema c" "sy_operation c" "sy_payload c"]
        by (auto simp: stagePulledChange_def sy_key_def sy_content_def)
      have xb: "staged_below env g (head es (fst (sy_key c, x))) (snd (sy_key c, x))"
        using staged_below_content [OF b x(2)] by simp
      have m1: "staging_ok env g es m1" using staging_ok_put [OF Cons.prems(1) xb] x(1) by simp
      have g1: "got env g m1 e" if "e \<in> set es" "got env g m e" for e
        using got_put(1) [OF assms(1) that(1) Cons.prems(1) xb that(2)] x(1) by simp
      have g2: "got env g m1 e" if "e \<in> set es" "sy_key c = ent_key e" "sy_content c = content env e" for e
        using got_put(2) [OF assms(1) that(1) Cons.prems(1) xb] that x by simp
      have rest: "catch_up_changes g w (map synced_js cs) m1 = (m', out)"
        using Cons.prems(4) read False Some by simp
      have "staging_ok env g es m' \<and> (\<forall>e \<in> set es. got env g m1 e \<longrightarrow> got env g m' e) \<and>
        (\<forall>past. out = Inr past \<longrightarrow> past = (\<exists>c \<in> set cs. sy_sequence c > w) \<and>
           (\<forall>c \<in> set cs. \<forall>e \<in> set es. sy_sequence c \<le> w \<and> sy_key c = ent_key e \<and> sy_content c = content env e
              \<longrightarrow> got env g m' e))"
        by (rule Cons.IH [OF m1 _ _ rest]) (use Cons.prems in simp_all)
      then show ?thesis using g1 g2 False by auto
    qed
  qed
qed auto

section \<open>Growth\<close>

lemma pull_covers_grow:
  assumes P: "pull_covers env es c0 c1 cs" and G: "heads_grow es n es' n'" "distinct (map ent_key es')" and c1: "c1 < n"
  shows "pull_covers env es' c0 c1 cs"
proof -
  have "e \<in> set es" if "e \<in> set es'" "ent_sequence e \<le> c1" for e
    by (rule old_head_stays [OF G that(1)]) (use that c1 in simp)
  then show ?thesis
    using P below_grow [OF G(1)] unfolding pull_covers_def by blast
qed

lemma got_grow:
  assumes G: "heads_grow es n es' n'" "distinct (map ent_key es')" and w: "w < n"
    and a: "\<And>e. e \<in> set es \<Longrightarrow> ent_sequence e \<le> w \<Longrightarrow> Q e \<Longrightarrow> got env g m e"
  shows "e \<in> set es' \<Longrightarrow> ent_sequence e \<le> w \<Longrightarrow> Q e \<Longrightarrow> got env g m e"
  by (rule a) (use old_head_stays [OF G] w in auto)

section \<open>The system\<close>

text \<open>
  The account, the device, and the answer on its way to the device. A call that is abandoned (\<open>sys_lost\<close>)
  may still reach the account: it is then one of the other events.
\<close>

type_synonym sync_sys = "account \<times> scan_device \<times> (acct_exn + js) option"

inductive sync_step :: "backend_env \<Rightarrow> engine_env \<Rightarrow> sync_sys \<Rightarrow> sync_sys \<Rightarrow> bool" for env g where
  sys_other: "event_ok ev \<Longrightarrow> sync_step env g (s, d, r) (serve env ev s, d, r)"
| sys_call: "engine_request g d = Some (op, ps) \<Longrightarrow> sync_rpc env now uuid op ps s = (res, s') \<Longrightarrow>
     sync_step env g (s, d, None) (s', d, Some res)"
| sys_answer: "sync_step env g (s, d, Some (Inr v)) (s, engine_receive g v d, None)"
| sys_refusal: "sync_step env g (s, d, Some (Inl e)) (s, fail_engine why d, None)"
| sys_lost: "sync_step env g (s, d, r) (s, fail_engine why d, None)"
| sys_again: "engine_request g d = None \<Longrightarrow> sync_step env g (s, d, None) (s, d\<lparr>sd_engine := AwaitBegin\<rparr>, None)"

inductive sync_reach :: "backend_env \<Rightarrow> engine_env \<Rightarrow> sync_sys \<Rightarrow> bool" for env g where
  start: "sync_reach env g (new_account, \<lparr>sd_epoch = epoch, sd_run = None, sd_staging = [], sd_engine = AwaitBegin\<rparr>, None)"
| step: "sync_reach env g x \<Longrightarrow> sync_step env g x y \<Longrightarrow> sync_reach env g y"

inductive_cases sync_stepE: "sync_step env g (s, d, r) y"

definition has_up_to :: "backend_env \<Rightarrow> engine_env \<Rightarrow> account \<Rightarrow> scan_device \<Rightarrow> int \<Rightarrow> bool" where
  "has_up_to env g s d w \<longleftrightarrow> 0 \<le> w \<and> w < meta_next_sequence s \<and> staging_ok env g (entities s) (sd_staging d) \<and>
     (\<forall>e \<in> set (entities s). ent_sequence e \<le> w \<longrightarrow> got env g (sd_staging d) e)"

text \<open>\<open>brings f P r\<close>: an answer under way is the wire form of a result for which \<open>P\<close> holds.\<close>

definition brings :: "('a \<Rightarrow> js) \<Rightarrow> ('a \<Rightarrow> bool) \<Rightarrow> js option \<Rightarrow> bool" where
  "brings f P r \<longleftrightarrow> (case r of None \<Rightarrow> True | Some v \<Rightarrow> \<exists>x. v = f x \<and> P x)"

lemma brings_None [simp]: "brings f P None"
  by (simp add: brings_def)

lemma brings_result: "P x \<Longrightarrow> brings f P (Some (f x))"
  by (auto simp: brings_def)

lemma brings_mono: "brings f P r \<Longrightarrow> (\<And>x. P x \<Longrightarrow> Q x) \<Longrightarrow> brings f Q r"
  by (auto simp: brings_def split: option.splits)

text \<open>The invariant: what the machine knows at each of its calls, and what the answer under way tells it.\<close>

definition staged_to :: "backend_env \<Rightarrow> engine_env \<Rightarrow> account \<Rightarrow> scan_device \<Rightarrow> int \<Rightarrow> entity_key option \<Rightarrow> bool" where
  "staged_to env g s d start k \<longleftrightarrow> staging_ok env g (entities s) (sd_staging d) \<and>
     (\<forall>e \<in> set (entities s). ent_sequence e \<le> start \<and> \<not> key_in k (ent_key e) \<longrightarrow> got env g (sd_staging d) e)"

definition page_ok :: "backend_env \<Rightarrow> account \<Rightarrow> int \<Rightarrow> entity_key option \<Rightarrow> scan_page \<Rightarrow> bool" where
  "page_ok env s start k p \<longleftrightarrow> (\<exists>w. start \<le> w \<and> w < meta_next_sequence s \<and> page_covers env (entities s) w k p)"

definition begun_ok :: "account \<Rightarrow> scan_begin \<Rightarrow> bool" where
  "begun_ok s b \<longleftrightarrow> sb_cursor b = int_str (sb_start b) \<and> scan_from s (sb_scan b) (sb_start b)"

definition pulled_ok :: "backend_env \<Rightarrow> account \<Rightarrow> int \<Rightarrow> pull_page \<Rightarrow> bool" where
  "pulled_ok env s c p \<longleftrightarrow> (\<exists>c1. pull_covers env (entities s) c c1 (pull_changes p) \<and>
     pull_next p = int_str c1 \<and> c1 < meta_next_sequence s)"

fun engine_ok :: "backend_env \<Rightarrow> engine_env \<Rightarrow> account \<Rightarrow> scan_device \<Rightarrow> js option \<Rightarrow> engine \<Rightarrow> bool" where
  "engine_ok env g s d r AwaitBegin \<longleftrightarrow> brings scan_begin_js (begun_ok s) r"
| "engine_ok env g s d r (AwaitPage i resume c n) \<longleftrightarrow> (\<exists>start. resume = int_str start \<and> scan_from s i start \<and>
     staged_to env g s d start (cursor_key env c) \<and> brings scan_page_js (page_ok env s start (cursor_key env c)) r)"
| "engine_ok env g s d r (AwaitFinish i resume) \<longleftrightarrow> (\<exists>start. resume = int_str start \<and> has_up_to env g s d start \<and>
     brings scan_finish_js (finish_ok s) r)"
| "engine_ok env g s d r (AwaitCatchUp c w n) \<longleftrightarrow> (\<exists>c0 w0. c = int_str c0 \<and> w = int_str w0 \<and>
     0 \<le> w0 \<and> w0 < meta_next_sequence s \<and> has_up_to env g s d c0 \<and> brings pull_page_js (pulled_ok env s c0) r)"
| "engine_ok env g s d r (Activated w) \<longleftrightarrow> (\<exists>w0. w = int_str w0 \<and> has_up_to env g s d w0)"
| "engine_ok env g s d r (Failed e) \<longleftrightarrow> True"

definition reply_js :: "(acct_exn + js) option \<Rightarrow> js option" where
  "reply_js r = (case r of Some (Inr v) \<Rightarrow> Some v | _ \<Rightarrow> None)"

definition sys_ok :: "backend_env \<Rightarrow> engine_env \<Rightarrow> sync_sys \<Rightarrow> bool" where
  "sys_ok env g = (\<lambda>(s, d, r). account_ok env s \<and> engine_ok env g s d (reply_js r) (sd_engine d))"

lemma has_up_to_grow:
  assumes "acct_grows s s'" "account_ok env s'" "has_up_to env g s d w"
  shows "has_up_to env g s' d w"
proof -
  have G: "heads_grow (entities s) (meta_next_sequence s) (entities s') (meta_next_sequence s')"
    and D: "distinct (map ent_key (entities s'))"
    using assms by (auto simp: acct_grows_def account_ok_def journal_ok_def)
  show ?thesis
    using assms(3) staging_ok_grow [OF G] got_grow [OF G D, where Q = "\<lambda>_. True" and w = w] heads_growD(1) [OF G]
    unfolding has_up_to_def by fastforce
qed

lemma growth_parts:
  assumes "acct_grows s s'" "account_ok env s'"
  shows "heads_grow (entities s) (meta_next_sequence s) (entities s') (meta_next_sequence s')"
    "distinct (map ent_key (entities s'))" "meta_next_sequence s \<le> meta_next_sequence s'"
  using assms by (auto simp: acct_grows_def account_ok_def journal_ok_def heads_grow_def)

lemma staged_to_grow:
  assumes "acct_grows s s'" "account_ok env s'" "staged_to env g s d start k" "start < meta_next_sequence s"
  shows "staged_to env g s' d start k"
proof -
  note G = growth_parts [OF assms(1,2)]
  have "got env g (sd_staging d) e"
    if "e \<in> set (entities s')" "ent_sequence e \<le> start" "\<not> key_in k (ent_key e)" for e
    by (rule got_grow [OF G(1,2) assms(4), where Q = "\<lambda>e. \<not> key_in k (ent_key e)"])
       (use assms(3) that in \<open>auto simp: staged_to_def\<close>)
  then show ?thesis
    using assms(3) staging_ok_grow [OF G(1)] by (auto simp: staged_to_def)
qed

lemma answers_grow:
  assumes "acct_grows s s'" "account_ok env s'"
  shows "begun_ok s b \<Longrightarrow> begun_ok s' b" "page_ok env s start k p \<Longrightarrow> page_ok env s' start k p"
    "finish_ok s f \<Longrightarrow> finish_ok s' f" "pulled_ok env s c q \<Longrightarrow> pulled_ok env s' c q"
proof -
  note G = growth_parts [OF assms]
  show "begun_ok s b \<Longrightarrow> begun_ok s' b" using scan_from_grow [OF assms(1)] by (simp add: begun_ok_def)
  show "finish_ok s f \<Longrightarrow> finish_ok s' f" using G(3) by (simp add: finish_ok_def)
  assume "page_ok env s start k p"
  then obtain w where w: "start \<le> w" "w < meta_next_sequence s" "page_covers env (entities s) w k p"
    by (auto simp: page_ok_def)
  then show "page_ok env s' start k p"
    unfolding page_ok_def using page_covers_grow [OF w(3) G(1,2) w(2)] G(3) by (intro exI [of _ w]) simp
next
  note G = growth_parts [OF assms]
  assume "pulled_ok env s c q"
  then obtain c1 where c1: "pull_covers env (entities s) c c1 (pull_changes q)" "pull_next q = int_str c1"
    "c1 < meta_next_sequence s" by (auto simp: pulled_ok_def)
  then show "pulled_ok env s' c q"
    unfolding pulled_ok_def using pull_covers_grow [OF c1(1) G(1,2) c1(3)] G(3) by (intro exI [of _ c1]) simp
qed

lemma engine_ok_grow:
  assumes "acct_grows s s'" "account_ok env s'" "engine_ok env g s d r st"
  shows "engine_ok env g s' d r st"
proof -
  note G = growth_parts [OF assms(1,2)]
  note A = answers_grow [OF assms(1,2)]
  note H = has_up_to_grow [OF assms(1,2)]
  show ?thesis
  proof (cases st)
    case AwaitBegin
    then show ?thesis using assms(3) brings_mono [OF _ A(1)] by simp
  next
    case (AwaitPage i resume c n)
    then obtain start where st: "resume = int_str start" "scan_from s i start"
      "staged_to env g s d start (cursor_key env c)" "brings scan_page_js (page_ok env s start (cursor_key env c)) r"
      using assms(3) by auto
    moreover have "start < meta_next_sequence s" using st(2) by (simp add: scan_from_def)
    ultimately have "scan_from s' i start \<and> staged_to env g s' d start (cursor_key env c) \<and>
        brings scan_page_js (page_ok env s' start (cursor_key env c)) r"
      using scan_from_grow [OF assms(1)] staged_to_grow [OF assms(1,2)] brings_mono [OF st(4) A(2)] by simp
    then show ?thesis using AwaitPage st(1) by auto
  next
    case (AwaitFinish i resume)
    then obtain start where st: "resume = int_str start" "has_up_to env g s d start" "brings scan_finish_js (finish_ok s) r"
      using assms(3) by auto
    then show ?thesis using AwaitFinish H [OF st(2)] brings_mono [OF st(3) A(3)] by auto
  next
    case (AwaitCatchUp c w n)
    then obtain c0 w0 where st: "c = int_str c0" "w = int_str w0" "0 \<le> w0" "w0 < meta_next_sequence s"
      "has_up_to env g s d c0" "brings pull_page_js (pulled_ok env s c0) r"
      using assms(3) by auto
    have "w0 < meta_next_sequence s'" using st(4) G(3) by simp
    moreover have "brings pull_page_js (pulled_ok env s' c0) r" by (rule brings_mono [OF st(6) A(4)])
    ultimately show ?thesis using AwaitCatchUp st(1-3) H [OF st(5)] by auto
  next
    case (Activated w)
    then show ?thesis using assms(3) H by auto
  qed simp
qed

section \<open>The steps keep the invariant\<close>

lemma handlers_ok:
  assumes "json_reads env" "account_ok env s"
  shows "account_ok env (snd (handleScanBegin now uuid ps s)) \<and> acct_grows s (snd (handleScanBegin now uuid ps s))"
    "account_ok env (snd (handleScanPage env now ps s)) \<and> acct_grows s (snd (handleScanPage env now ps s))"
    "account_ok env (snd (handleScanFinish now ps s)) \<and> acct_grows s (snd (handleScanFinish now ps s))"
    "account_ok env (snd (handlePull env ps s)) \<and> acct_grows s (snd (handlePull env ps s))"
  using serve_ok [OF assms(1) _ assms(2), of "ScanBeginCall now uuid ps"]
    serve_ok [OF assms(1) _ assms(2), of "ScanPageCall now ps"]
    serve_ok [OF assms(1) _ assms(2), of "ScanFinishCall now ps"]
    serve_ok [OF assms(1) _ assms(2), of "PullCall ps"] by simp_all

lemma rpc_answer_Inr: "rpc_answer f x = (Inr v, s') \<Longrightarrow> \<exists>y. x = (Inr y, s') \<and> v = f y"
  by (cases x) (auto simp: rpc_answer_def split: sum.splits)

lemma wp_result: "wp m Q E s \<Longrightarrow> m s = (Inr y, s') \<Longrightarrow> Q y s'"
  by (simp add: wp_def)

lemma rpc_grows:
  assumes "json_reads env" "account_ok env s" "sync_rpc env now uuid op ps s = (res, s')"
  shows "account_ok env s' \<and> acct_grows s s'"
  using assms(2,3) handlers_ok [OF assms(1,2)]
  by (auto simp: sync_rpc_def rpc_answer_def split: if_splits)

lemma begin_answer:
  assumes "account_ok env s" "handleScanBegin now uuid ps s = (Inr b, s')"
  shows "sb_cursor b = int_str (sb_start b) \<and> scan_from s' (sb_scan b) (sb_start b)"
proof -
  have "wp (handleScanBegin now uuid ps) (\<lambda>b s'. sb_cursor b = int_str (sb_start b) \<and> scan_from s' (sb_scan b) (sb_start b))
      (\<lambda>_ _. True) s"
  proof (cases "parseScanBeginParams ps")
    case (Inr epoch)
    have "account_ok env (bumpCounter ''scan_begins'' 1 s)" using assms(1) by simp
    from wp_mono [OF wp_beginScan [OF this, of now uuid epoch]] show ?thesis
      by (simp add: handleScanBegin_def wp_simps Inr)
  qed (simp add: handleScanBegin_def wp_simps)
  then show ?thesis using wp_result assms(2) by fastforce
qed

lemma page_answer:
  assumes "account_ok env s" "json_reads env" "parseScanPageParams ps = Inr (i, c, b)"
    "handleScanPage env now ps s = (Inr p, s')"
  shows "page_for env i c s p \<and> entities s' = entities s \<and> meta_next_sequence s' = meta_next_sequence s"
proof -
  have "wp (handleScanPage env now ps) (\<lambda>p s'. page_for env i c s p \<and> entities s' = entities s \<and>
      meta_next_sequence s' = meta_next_sequence s) (\<lambda>_ _. True) s"
    using wp_mono [OF wp_pageScan [OF assms(1,2), of now i c b]]
    by (simp add: handleScanPage_def wp_simps assms(3) answers_page_def)
  then show ?thesis using wp_result assms(4) by fastforce
qed

lemma finish_answer:
  assumes "account_ok env s" "handleScanFinish now ps s = (Inr f, s')"
  shows "finish_ok s' f"
proof -
  have "wp (handleScanFinish now ps) (\<lambda>f s'. finish_ok s' f) (\<lambda>_ _. True) s"
  proof (cases "parseScanFinishParams ps")
    case (Inr i)
    then show ?thesis
      using wp_mono [OF wp_finishScan [OF assms(1), of now i]] by (simp add: handleScanFinish_def wp_simps)
  qed (simp add: handleScanFinish_def wp_simps)
  then show ?thesis using wp_result assms(2) by fastforce
qed

lemma int_str_eq: "int_str a = int_str b \<Longrightarrow> 0 \<le> a \<Longrightarrow> 0 \<le> b \<Longrightarrow> a = b"
  by (metis digits_val_nat_str int_str_def nat_eq_iff2 not_less)

lemma digits_int_str: "0 \<le> c \<Longrightarrow> list_all is_digit (int_str c) \<and> int_str c \<noteq> [] \<and> int (digits_val 0 (int_str c)) = c"
  by (simp add: int_str_def list_all_iff nat_str_digits)

lemma pull_cursor:
  assumes "parseSpikePullParams (JObj [(''cursor'', JStr (int_str c)), (''maxBytes'', jint b)]) = Inr pull" "0 \<le> c"
  shows "pp_cursor pull = c"
  using assms(1) digits_int_str [OF assms(2)]
  by (auto simp: parseSpikePullParams_def has_own_def jget_def parse_cursor_def js_str_def isString_def
      split: if_splits option.splits)

lemma page_params:
  assumes "parseScanPageParams (JObj [(''scanId'', JStr i), (''cursor'', jopt JStr c), (''maxBytes'', jint b)]) = Inr (i', c', b')"
  shows "i' = i \<and> c' = c"
  using assms by (cases c) (auto simp: parseScanPageParams_def jget_def jopt_def js_str_def split: if_splits option.splits)

lemma sync_rpc_Inr:
  assumes "sync_rpc env now uuid op ps s = (Inr v, s')"
  shows "op = ''sync.scan.begin'' \<Longrightarrow> \<exists>b. handleScanBegin now uuid ps s = (Inr b, s') \<and> v = scan_begin_js b"
    "op = ''sync.scan.page'' \<Longrightarrow> \<exists>p. handleScanPage env now ps s = (Inr p, s') \<and> v = scan_page_js p"
    "op = ''sync.scan.finish'' \<Longrightarrow> \<exists>f. handleScanFinish now ps s = (Inr f, s') \<and> v = scan_finish_js f"
    "op = ''sync.pull'' \<Longrightarrow> \<exists>p. handlePull env ps s = (Inr p, s') \<and> v = pull_page_js p"
  using assms by (simp_all add: sync_rpc_def rpc_answer_Inr)

lemma engine_request_calls:
  assumes "engine_request g d = Some (op, ps)"
  shows "sd_engine d = AwaitBegin \<Longrightarrow> op = ''sync.scan.begin''"
    "sd_engine d = AwaitPage i resume c n \<Longrightarrow> op = ''sync.scan.page'' \<and>
       ps = JObj [(''scanId'', JStr i), (''cursor'', jopt JStr c), (''maxBytes'', jint (ge_page_bytes g))]"
    "sd_engine d = AwaitFinish i resume \<Longrightarrow> op = ''sync.scan.finish''"
    "sd_engine d = AwaitCatchUp u w n \<Longrightarrow> op = ''sync.pull'' \<and>
       ps = JObj [(''cursor'', JStr u), (''maxBytes'', jint (ge_page_bytes g))]"
  using assms by (simp_all add: engine_request_def)

lemma account_parts:
  assumes "account_ok env s"
  shows "distinct (map ent_key (entities s))" "\<forall>e \<in> set (entities s). ent_type e \<noteq> [] \<and> ent_id e \<noteq> []"
    "e \<in> set (entities s) \<Longrightarrow> ent_sequence e < meta_next_sequence s"
  using assms by (auto simp: account_ok_def journal_ok_def head_ok_def)

lemma sys_call_ok:
  assumes json: "json_reads env" and I: "sys_ok env g (s, d, None)"
    and req: "engine_request g d = Some (op, ps)" and rpc: "sync_rpc env now uuid op ps s = (res, s')"
  shows "sys_ok env g (s', d, Some res)"
proof -
  have ok: "account_ok env s" and E: "engine_ok env g s d None (sd_engine d)"
    using I by (auto simp: sys_ok_def reply_js_def)
  from rpc_grows [OF json ok rpc] have ok': "account_ok env s'" and gr: "acct_grows s s'" by auto
  have E': "engine_ok env g s' d None (sd_engine d)" by (rule engine_ok_grow [OF gr ok' E])
  show ?thesis
  proof (cases res)
    case (Inl e)
    then show ?thesis using ok' E' by (simp add: sys_ok_def reply_js_def)
  next
    case (Inr v)
    note rpc' = rpc [unfolded Inr]
    have "engine_ok env g s' d (Some v) (sd_engine d)"
    proof (cases "sd_engine d")
      case AwaitBegin
      obtain b where b: "handleScanBegin now uuid ps s = (Inr b, s')" "v = scan_begin_js b"
        using sync_rpc_Inr(1) [OF rpc' engine_request_calls(1) [OF req AwaitBegin]] by blast
      have "begun_ok s' b" using begin_answer [OF ok b(1)] by (simp add: begun_ok_def)
      then show ?thesis unfolding AwaitBegin b(2) by (simp add: brings_result)
    next
      case (AwaitPage i resume c n)
      obtain p where p: "handleScanPage env now ps s = (Inr p, s')" "v = scan_page_js p"
        and ps: "ps = JObj [(''scanId'', JStr i), (''cursor'', jopt JStr c), (''maxBytes'', jint (ge_page_bytes g))]"
        using sync_rpc_Inr(2) [OF rpc'] engine_request_calls(2) [OF req AwaitPage] by blast
      obtain i' c' b' where parsed: "parseScanPageParams ps = Inr (i', c', b')"
        using p(1) by (cases "parseScanPageParams ps") (auto simp: handleScanPage_def bindE_def lift_sum_def)
      then have parsed: "parseScanPageParams ps = Inr (i, c, b')" using page_params ps by blast
      from page_answer [OF ok json parsed p(1)] obtain r where
        r: "r \<in> set (scans s)" "scn_id r = i" "page_covers env (entities s) (scn_start r) (cursor_key env c) p"
        and same: "entities s' = entities s" "meta_next_sequence s' = meta_next_sequence s"
        by (auto simp: page_for_def)
      from E' AwaitPage obtain start where st: "resume = int_str start" "scan_from s' i start"
        "staged_to env g s' d start (cursor_key env c)" by auto
      from E AwaitPage obtain start' where st': "resume = int_str start'" "scan_from s i start'" by auto
      have "start' = start" using int_str_eq st st' by (auto simp: scan_from_def)
      then have "start \<le> scn_start r" using st'(2) r by (auto simp: scan_from_def)
      moreover have "scn_start r < meta_next_sequence s" using ok r(1) by (auto simp: account_ok_def scan_ok_def)
      ultimately have "page_ok env s' start (cursor_key env c) p"
        using same r(3) by (auto simp: page_ok_def)
      then have "brings scan_page_js (page_ok env s' start (cursor_key env c)) (Some v)"
        unfolding p(2) by (rule brings_result)
      then show ?thesis using AwaitPage st by auto
    next
      case (AwaitFinish i resume)
      obtain f where f: "handleScanFinish now ps s = (Inr f, s')" "v = scan_finish_js f"
        using sync_rpc_Inr(3) [OF rpc' engine_request_calls(3) [OF req AwaitFinish]] by blast
      have "brings scan_finish_js (finish_ok s') (Some v)"
        unfolding f(2) by (rule brings_result) (rule finish_answer [OF ok f(1)])
      then show ?thesis using AwaitFinish E' by auto
    next
      case (AwaitCatchUp c w n)
      obtain p where p: "handlePull env ps s = (Inr p, s')" "v = pull_page_js p"
        and ps: "ps = JObj [(''cursor'', JStr c), (''maxBytes'', jint (ge_page_bytes g))]"
        using sync_rpc_Inr(4) [OF rpc'] engine_request_calls(4) [OF req AwaitCatchUp] by blast
      from E AwaitCatchUp obtain c0 w0 where c0: "c = int_str c0" "has_up_to env g s d c0" "w = int_str w0"
        "0 \<le> w0" "w0 < meta_next_sequence s" by auto
      obtain pull where pull: "parseSpikePullParams ps = Inr pull"
        using p(1) by (cases "parseSpikePullParams ps") (auto simp: handlePull_def bindE_def lift_sum_def)
      have cur: "pp_cursor pull = c0"
        by (rule pull_cursor) (use pull ps c0 in \<open>auto simp: has_up_to_def\<close>)
      have P: "pull_page_ok env s c0 p" and s': "s' = bumpCounter ''pulls'' 1 s"
        using handlePull_run [OF ok pull] p(1) cur by (auto split: if_splits)
      have "c0 < meta_next_sequence s" using c0(2) by (simp add: has_up_to_def)
      with P have "pulled_ok env s' c0 p" by (auto simp: pull_page_ok_def pulled_ok_def s')
      then have "brings pull_page_js (pulled_ok env s' c0) (Some v)"
        unfolding p(2) by (rule brings_result)
      moreover have "w0 < meta_next_sequence s'" using c0(5) s' by simp
      ultimately show ?thesis
        using AwaitCatchUp c0(1,3,4) has_up_to_grow [OF gr ok' c0(2)] by auto
    qed (use req in \<open>simp_all add: engine_request_def\<close>)
    then show ?thesis using ok' Inr by (simp add: sys_ok_def reply_js_def)
  qed
qed

section \<open>Receiving an answer\<close>

lemma syncCursorNumber_int_str: "0 \<le> n \<Longrightarrow> syncCursorNumber (int_str n) = Some m \<Longrightarrow> m = n"
proof -
  assume n: "0 \<le> n" and m: "syncCursorNumber (int_str n) = Some m"
  have "int (digits_val 0 (int_str n)) = n" using digits_int_str [OF n] by blast
  moreover have "digits_val 0 ''0'' = 0" by simp
  ultimately show "m = n" using m by (auto simp: syncCursorNumber_def split: if_splits)
qed

lemmas wire_simps = jget_def js_items_def isRecord_def isObject_def isString_def isArray_def isBool_def
  is_number_def js_str_def

lemma receive_begin_ok:
  assumes "begun_ok s b"
  shows "engine_ok env g s (receive_begin (scan_begin_js b) d) None (sd_engine (receive_begin (scan_begin_js b) d))"
proof (cases "sb_epoch b = sd_epoch d")
  case True
  have "staged_to env g s (d\<lparr>sd_run := x, sd_staging := [], sd_engine := y\<rparr>) start (cursor_key env None)" for x y start
    by (simp add: staged_to_def staging_ok_def cursor_key_def key_in_def)
  then show ?thesis
    using True assms by (auto simp: receive_begin_def scan_begin_js_def wire_simps begun_ok_def)
qed (simp add: receive_begin_def scan_begin_js_def wire_simps fail_engine_def)

lemma receive_page_ok:
  assumes ok: "account_ok env s" and sf: "scan_from s i start" and st: "staged_to env g s d start (cursor_key env c)"
    and P: "page_ok env s start (cursor_key env c) p"
  shows "engine_ok env g s (receive_page g i (int_str start) n (scan_page_js p) d) None
    (sd_engine (receive_page g i (int_str start) n (scan_page_js p) d))"
proof (cases "stagedEntitiesForWire g (map scanned_js (pg_entities p))")
  case None
  then show ?thesis by (simp add: receive_page_def scan_page_js_def wire_simps fail_engine_def)
next
  case (Some xs)
  from P obtain w where w: "start \<le> w" "page_covers env (entities s) w (cursor_key env c) p"
    by (auto simp: page_ok_def)
  have m: "staging_ok env g (entities s) (sd_staging d)" using st by (simp add: staged_to_def)
  note S = page_staged [OF account_parts(1) [OF ok] m w(2) account_parts(2) [OF ok] Some]
  let ?m = "stageScanEntities xs (sd_staging d)"
  have got: "got env g ?m e" if "e \<in> set (entities s)" "ent_sequence e \<le> start"
    "in_page env (cursor_key env c) p (ent_key e) \<or> \<not> key_in (cursor_key env c) (ent_key e)" for e
    by (rule S(2) [OF that(1)]) (use that w(1) st in \<open>auto simp: staged_to_def\<close>)
  show ?thesis
  proof (cases "pg_done p")
    case True
    then have "has_up_to env g s (d\<lparr>sd_staging := ?m, sd_engine := AwaitFinish i (int_str start)\<rparr>) start"
      using S(1) got sf by (auto simp: has_up_to_def scan_from_def in_page_def)
    then show ?thesis
      using True Some by (auto simp: receive_page_def scan_page_js_def wire_simps)
  next
    case False
    show ?thesis
    proof (cases "pg_next p")
      case None
      then show ?thesis
        using False Some by (simp add: receive_page_def scan_page_js_def wire_simps jopt_def fail_engine_def)
    next
      case nxt: (Some t)
      from w(2) False obtain hi where hi: "cursor_key env (pg_next p) = Some hi"
        unfolding page_covers_def by blast
      have "in_page env (cursor_key env c) p (ent_key e) \<or> \<not> key_in (cursor_key env c) (ent_key e)"
        if "\<not> key_in (cursor_key env (Some t)) (ent_key e)" for e
      proof -
        have "ent_key e \<le> hi" using that hi nxt by (simp add: key_in_def not_less)
        then show ?thesis using hi unfolding in_page_def by blast
      qed
      then have "staged_to env g s (d\<lparr>sd_staging := ?m, sd_engine := y\<rparr>) start (cursor_key env (Some t))" for y
        using S(1) got by (simp add: staged_to_def)
      then show ?thesis
        using False Some nxt sf
        by (auto simp: receive_page_def scan_page_js_def wire_simps jopt_def fail_engine_def Let_def)
    qed
  qed
qed

lemma receive_finish_ok:
  assumes "has_up_to env g s d start" "finish_ok s f"
  shows "engine_ok env g s (receive_finish (int_str start) (scan_finish_js f) d) None
    (sd_engine (receive_finish (int_str start) (scan_finish_js f) d))"
proof -
  have "has_up_to env g s (d\<lparr>sd_engine := y\<rparr>) start" for y
    using assms(1) by (simp add: has_up_to_def)
  then show ?thesis
    using assms(2) by (auto simp: receive_finish_def scan_finish_js_def wire_simps fail_engine_def finish_ok_def)
qed

lemma receive_catch_up_ok:
  assumes ok: "account_ok env s" and up: "has_up_to env g s d c0" and w0: "0 \<le> w0" "w0 < meta_next_sequence s"
    and P: "pulled_ok env s c0 p"
  shows "engine_ok env g s (receive_catch_up g (int_str w0) n (pull_page_js p) d) None
    (sd_engine (receive_catch_up g (int_str w0) n (pull_page_js p) d))"
proof (cases "syncCursorNumber (int_str w0)")
  case None
  then show ?thesis by (simp add: receive_catch_up_def pull_page_js_def wire_simps fail_engine_def jint_def)
next
  case (Some finish)
  then have fin: "finish = w0" by (rule syncCursorNumber_int_str [OF w0(1)])
  from P obtain c1 where C: "pull_covers env (entities s) c0 c1 (pull_changes p)" "pull_next p = int_str c1"
    "c1 < meta_next_sequence s" by (auto simp: pulled_ok_def)
  obtain m out where run: "catch_up_changes g w0 (map synced_js (pull_changes p)) (sd_staging d) = (m, out)"
    by force
  have "sorted_wrt (<) (map sy_sequence (pull_changes p))" "\<forall>c \<in> set (pull_changes p). sy_type c \<noteq> [] \<and> sy_id c \<noteq> [] \<and>
      below env (head (entities s) (sy_key c)) (sy_content c)" and c01: "0 \<le> c0" "c0 \<le> c1"
    and m0: "staging_ok env g (entities s) (sd_staging d)"
    using C(1) up by (auto simp: pull_covers_def has_up_to_def)
  note S = catch_up_staged [OF account_parts(1) [OF ok] m0 this(1,2) run]
  show ?thesis
  proof (cases out)
    case (Inl e)
    then show ?thesis
      using run Some fin by (simp add: receive_catch_up_def pull_page_js_def wire_simps fail_engine_def jint_def)
  next
    case (Inr past)
    have past: "past \<longleftrightarrow> (\<exists>c \<in> set (pull_changes p). w0 < sy_sequence c)" using S Inr by blast
    have got: "got env g m e" if e: "e \<in> set (entities s)" "ent_sequence e \<le> w0" "ent_sequence e \<le> c1" for e
    proof (cases "ent_sequence e \<le> c0")
      case True
      then show ?thesis using S up e(1) by (auto simp: has_up_to_def)
    next
      case False
      with C(1) e obtain c where "c \<in> set (pull_changes p)" "sy_sequence c = ent_sequence e"
        "sy_key c = ent_key e" "sy_content c = content env e"
        unfolding pull_covers_def by (metis not_le)
      then show ?thesis using S Inr e by auto
    qed
    show ?thesis
    proof (cases "past \<or> (case syncCursorNumber (int_str c1) of None \<Rightarrow> False | Some k \<Rightarrow> k \<ge> w0)")
      case True
      have "w0 \<le> c1"
      proof (cases past)
        case True
        then show ?thesis using past C(1) unfolding pull_covers_def by force
      next
        case False
        then show ?thesis
          using True syncCursorNumber_int_str [of c1] c01 by (auto split: option.splits)
      qed
      then have "has_up_to env g s (d\<lparr>sd_staging := m, sd_engine := Activated (int_str w0)\<rparr>) w0"
        using got S w0 by (auto simp: has_up_to_def)
      then show ?thesis
        using run Some fin Inr True C(2)
        by (auto simp: receive_catch_up_def pull_page_js_def wire_simps jint_def Let_def)
    next
      case False
      then have "\<not> past" by blast
      have "ent_sequence e \<le> w0" if e: "e \<in> set (entities s)" "c0 < ent_sequence e" "ent_sequence e \<le> c1" for e
      proof -
        from C(1) e obtain c where "c \<in> set (pull_changes p)" "sy_sequence c = ent_sequence e"
          unfolding pull_covers_def by blast
        then show ?thesis using past \<open>\<not> past\<close> by (metis not_le)
      qed
      then have "has_up_to env g s (d\<lparr>sd_staging := m, sd_engine := y\<rparr>) c1" for y
        using got S C(3) c01 up by (auto simp: has_up_to_def not_le)
      then show ?thesis
        using run Some fin Inr False C(2) w0
        by (auto simp: receive_catch_up_def pull_page_js_def wire_simps jint_def Let_def fail_engine_def)
    qed
  qed
qed

lemma sys_answer_ok:
  assumes I: "sys_ok env g (s, d, Some (Inr v))"
  shows "sys_ok env g (s, engine_receive g v d, None)"
proof -
  have ok: "account_ok env s" and E: "engine_ok env g s d (Some v) (sd_engine d)"
    using I by (auto simp: sys_ok_def reply_js_def)
  have "engine_ok env g s (engine_receive g v d) None (sd_engine (engine_receive g v d))"
  proof (cases "sd_engine d")
    case AwaitBegin
    then show ?thesis using E receive_begin_ok by (auto simp: engine_receive_def brings_def)
  next
    case (AwaitPage i resume c n)
    then obtain start p where "resume = int_str start" "v = scan_page_js p" "scan_from s i start"
      "staged_to env g s d start (cursor_key env c)" "page_ok env s start (cursor_key env c) p"
      using E by (auto simp: brings_def)
    then show ?thesis using AwaitPage receive_page_ok [OF ok] by (simp add: engine_receive_def)
  next
    case (AwaitFinish i resume)
    then obtain start f where "resume = int_str start" "v = scan_finish_js f" "has_up_to env g s d start" "finish_ok s f"
      using E by (auto simp: brings_def)
    then show ?thesis using AwaitFinish receive_finish_ok by (simp add: engine_receive_def)
  next
    case (AwaitCatchUp c w n)
    then obtain c0 w0 p where "w = int_str w0" "v = pull_page_js p" "0 \<le> w0" "w0 < meta_next_sequence s"
      "has_up_to env g s d c0" "pulled_ok env s c0 p"
      using E by (auto simp: brings_def)
    then show ?thesis using AwaitCatchUp receive_catch_up_ok [OF ok] by (simp add: engine_receive_def)
  qed (use E in \<open>simp_all add: engine_receive_def\<close>)
  then show ?thesis using ok by (simp add: sys_ok_def reply_js_def)
qed

lemma sync_step_ok:
  assumes "sync_step env g x y" "json_reads env" "sys_ok env g x"
  shows "sys_ok env g y"
  using assms
proof (induction rule: sync_step.induct)
  case (sys_other ev s d r)
  then show ?case using serve_ok [of env ev s] engine_ok_grow by (auto simp: sys_ok_def)
next
  case (sys_call d op ps now uuid s res s')
  then show ?case by (intro sys_call_ok)
next
  case (sys_answer s d v)
  then show ?case by (intro sys_answer_ok)
qed (auto simp: sys_ok_def reply_js_def fail_engine_def)

lemma sync_reach_ok: "sync_reach env g x \<Longrightarrow> json_reads env \<Longrightarrow> sys_ok env g x"
proof (induction rule: sync_reach.induct)
  case (start epoch)
  then show ?case by (simp add: sys_ok_def reply_js_def new_account_ok)
qed (rule sync_step_ok)

end
