(* ===== verification/Account_Once.thy ===== *)
theory Account_Once
  imports Account_System
begin

text \<open>
  The high-water marks of the enrollments only rise, whatever is served; and what the application of one
  pushed change does, branch by branch. Together they make a push idempotent.
\<close>

section \<open>High-water marks\<close>

definition high_water :: "account \<Rightarrow> string \<Rightarrow> int option" where
  "high_water s i = map_option enr_high_water (find (\<lambda>r. enr_id r = i) (enrollments s))"

definition waters_rise :: "account \<Rightarrow> account \<Rightarrow> bool" where
  "waters_rise s s' \<longleftrightarrow> (\<forall>i n. high_water s i = Some n \<longrightarrow> (\<exists>m. high_water s' i = Some m \<and> n \<le> m))"

lemma waters_rise_refl [simp]: "waters_rise s s"
  by (simp add: waters_rise_def)

lemma waters_rise_trans: "waters_rise s t \<Longrightarrow> waters_rise t u \<Longrightarrow> waters_rise s u"
  unfolding waters_rise_def by (meson order_trans)

lemma waters_rise_same: "enrollments s' = enrollments s \<Longrightarrow> waters_rise s s'"
  unfolding waters_rise_def high_water_def by auto

lemma waters_rise_updates [simp]:
  "waters_rise s (s\<lparr>receipts := rs\<rparr>)" "waters_rise s (s\<lparr>changes := cs\<rparr>)" "waters_rise s (s\<lparr>entities := es\<rparr>)"
  "waters_rise s (s\<lparr>scans := sc\<rparr>)" "waters_rise s (s\<lparr>operations := ops\<rparr>)" "waters_rise s (s\<lparr>meta_next_sequence := n\<rparr>)"
  by (rule waters_rise_same, simp)+

lemma find_enrollment_append: "find Q (xs @ ys) = (case find Q xs of None \<Rightarrow> find Q ys | Some x \<Rightarrow> Some x)"
  by (induction xs) auto

lemma waters_rise_provision [simp]: "waters_rise s (provisionEnrollment now au s)"
  by (auto simp: waters_rise_def high_water_def provisionEnrollment_def find_enrollment_append)

lemma high_water_advance:
  "high_water (advanceHighWater i n s) j = map_option (\<lambda>w. if i = j then max w n else w) (high_water s j)"
proof -
  have "find (\<lambda>r. enr_id r = j) (map (\<lambda>r. if enr_id r = i \<and> enr_high_water r < n then r\<lparr>enr_high_water := n\<rparr> else r) rs) =
      map_option (\<lambda>r. if i = j \<and> enr_high_water r < n then r\<lparr>enr_high_water := n\<rparr> else r) (find (\<lambda>r. enr_id r = j) rs)" for rs
    by (induction rs) auto
  note this [of "enrollments s"]
  then show ?thesis
    by (cases "find (\<lambda>r. enr_id r = j) (enrollments s)") (auto simp: high_water_def advanceHighWater_def max_def)
qed

lemma waters_rise_advance [simp]: "waters_rise s (advanceHighWater i n s)"
  by (auto simp: waters_rise_def high_water_advance)

lemma waters_rise_fields [simp]:
  "waters_rise s (bumpCounter k n s)" "waters_rise s (addHistoryBytes d s)" "waters_rise s (observeSyncKeyVersion p s)"
  "waters_rise s (keep_old_payload e s)" "waters_rise s (put_entity e s)" "waters_rise s (update_scan i f s)"
  "waters_rise s (update_operation i h s)"
  by (auto intro!: waters_rise_same simp: bumpCounter_def addHistoryBytes_def observeSyncKeyVersion_def
      keep_old_payload_def put_entity_def update_scan_def update_operation_def split: option.split)

lemma waters_rise_branch [simp]:
  "waters_rise s (case x of None \<Rightarrow> s | Some e \<Rightarrow> keep_old_payload e s)"
  "waters_rise s ((if b then id else observeSyncKeyVersion p) s)" "waters_rise s ((if b then id else bumpCounter k n) s)"
  by (cases x; simp)+

text \<open>\<open>rising\<close>: a computation that never lowers a mark.\<close>

abbreviation rising :: "account \<Rightarrow> 'a acct \<Rightarrow> bool" where
  "rising s0 \<equiv> keeps (waters_rise s0)"

lemma rising_modify [keeps_intros]: "(\<And>s. waters_rise s (f s)) \<Longrightarrow> rising s0 (modify f)"
  by (auto simp: keeps_def modify_def intro: waters_rise_trans)

lemma rising_commit [keeps_intros]: "rising s0 m \<Longrightarrow> rising s0 (commit m)"
  by (auto simp: keeps_def commit_def split: prod.splits sum.splits)

lemma rising_primitives [keeps_intros]:
  "rising s0 (activeFairUseRestriction env now)" "rising s0 (readEnrollment i)" "rising s0 (writeReceipt now e item x)"
  "rising s0 (insert_change c)" "rising s0 (insert_entity h)" "rising s0 (insert_operation r)" "rising s0 (loadScan now i)"
  "rising s0 (loadDataOperation now i k)"
  by (auto simp: keeps_def activeFairUseRestriction_def readEnrollment_def writeReceipt_def insert_change_def
      insert_entity_def insert_operation_def loadScan_def loadDataOperation_def
      intro: waters_rise_trans [OF _ waters_rise_same] split: sum.splits option.splits)

lemma rising_push_item: "rising s0 (push_item env now au epoch item)"
  unfolding push_item_def applyPrepared_def refuse_change_def accept_change_def store_change_def
  by (auto intro!: keeps_intros split: option.split)

lemma rising_push_items [keeps_intros]: "rising s0 (push_items env now au epoch wm items)"
  by (induction items arbitrary: wm) (auto intro!: keeps_intros rising_push_item)

lemma rising_import_entries [keeps_intros]: "rising s0 (import_entries env now acc plan)"
proof (induction plan arbitrary: acc)
  case (Cons p plan)
  have "rising s0 (import_entity env now x)" for x
    unfolding import_entity_def by (auto intro!: keeps_intros split: option.split)
  then show ?case by (cases acc) (auto intro!: keeps_intros Cons)
qed (auto intro!: keeps_intros)

lemma rising_handlers:
  "rising s0 (handlePush env now au ps)" "rising s0 (handlePull env ps)" "rising s0 (handleScanBegin now uuid ps)"
  "rising s0 (handleScanPage env now ps)" "rising s0 (handleScanFinish now ps)"
  "rising s0 (handleDataExportBegin now uuid au ps)" "rising s0 (handleDataExportPage env now ps)"
  "rising s0 (handleDataImportPreview env now uuid au ps)" "rising s0 (handleDataImportCommit env now au ps)"
  "rising s0 (handleDataOperationStatus env ps)"
  unfolding handlePush_def pushInTransaction_def assertFairUseWritesAllowed_def handlePull_def handleScanBegin_def
    beginScan_def handleScanPage_def pageScan_def read_page_def assertScanEpochAndRetention_def handleScanFinish_def
    finishScan_def handleDataExportBegin_def handleDataExportPage_def pageExport_def handleDataImportPreview_def
    handleDataImportCommit_def commitImport_def handleDataOperationStatus_def
  by (auto intro!: keeps_intros)

lemma enrollments_sweep [simp]: "enrollments (sweepSync now s) = enrollments s"
proof -
  have fields: "enrollments (bumpCounter k n t) = enrollments t" "enrollments (addHistoryBytes d t) = enrollments t"
    "enrollments (delete_changes rows t) = enrollments t" for k n d rows t
    by (simp_all add: bumpCounter_def addHistoryBytes_def delete_changes_def)
  have phases: "enrollments (snd (sweep_expired c t)) = enrollments t" "enrollments (snd (sweep_compacted t)) = enrollments t"
    for c t
    by (simp_all add: sweep_expired_def sweep_compacted_def Let_def fields)
  show ?thesis
    using phases(1) [of "now - RETENTION_MS" s] phases(2) [of "snd (sweep_expired (now - RETENTION_MS) s)"]
    by (simp add: sweepSync_def Let_def case_prod_beta fields)
qed

lemma serve_rises: "waters_rise s (serve env ev s)"
proof -
  have "waters_rise s (sweepSync now s)" for now
    by (rule waters_rise_same) simp
  then show ?thesis
    by (cases ev) (auto intro: waters_rise_same keepsD [OF rising_handlers(1)] keepsD [OF rising_handlers(2)]
        keepsD [OF rising_handlers(3)] keepsD [OF rising_handlers(4)] keepsD [OF rising_handlers(5)]
        keepsD [OF rising_handlers(6)] keepsD [OF rising_handlers(7)] keepsD [OF rising_handlers(8)]
        keepsD [OF rising_handlers(9)] keepsD [OF rising_handlers(10)])
qed

lemma steps_rise: "acct_steps env s s' \<Longrightarrow> waters_rise s s'"
  by (induction rule: acct_steps.induct) (auto intro: waters_rise_trans serve_rises)

section \<open>One pushed change\<close>

text \<open>What the base of a change must be for it to be applied.\<close>

definition base_matches :: "pending_change \<Rightarrow> entity_row option \<Rightarrow> bool" where
  "base_matches c existing \<longleftrightarrow> (case existing of None \<Rightarrow> pc_operation c = SyncCreate
     | Some e \<Rightarrow> pc_operation c \<noteq> SyncCreate \<and> pc_base c = Some (ent_revision e))"

lemma compare_base: "compareBaseRevision env c existing = Inr None \<Longrightarrow> base_matches c existing"
  by (auto simp: compareBaseRevision_def base_matches_def conflict_with_def split: option.splits if_splits sum.splits)

lemma high_water_fields [simp]:
  "high_water (bumpCounter k n s) i = high_water s i" "high_water (addHistoryBytes d s) i = high_water s i"
  "high_water (observeSyncKeyVersion p s) i = high_water s i" "high_water (s\<lparr>receipts := rs\<rparr>) i = high_water s i"
  "high_water (s\<lparr>changes := cs\<rparr>) i = high_water s i" "high_water (s\<lparr>entities := es\<rparr>) i = high_water s i"
  "high_water (s\<lparr>meta_next_sequence := m\<rparr>) i = high_water s i"
  by (auto simp: high_water_def bumpCounter_def addHistoryBytes_def observeSyncKeyVersion_def split: option.split)

lemma wp_readEnrollment_water:
  "wp (readEnrollment i) Q (\<lambda>_ _. True) s \<longleftrightarrow>
     (\<forall>r. find (\<lambda>r. enr_id r = i) (enrollments s) = Some r \<longrightarrow> Q r s)"
  by (simp add: wp_readEnrollment split: option.split)

definition accepts :: "auth \<Rightarrow> prepared \<Rightarrow> account \<Rightarrow> push_result \<times> int option \<Rightarrow> account \<Rightarrow> bool" where
  "accepts au item s r s' \<longleftrightarrow> (snd r \<noteq> None \<longrightarrow>
     base_matches (pre_change item) (head (entities s) (pc_type (pre_change item), pc_id (pre_change item))) \<and>
     find_receipt (au_enrollment au) (pc_sequence (pre_change item)) s = None \<and>
     (\<exists>w. high_water s (au_enrollment au) = Some w \<and> w < pc_sequence (pre_change item)) \<and>
     high_water s' (au_enrollment au) = Some (pc_sequence (pre_change item)))"

lemma wp_accepts: "wp (applyPrepared env now au item) (accepts au item s) (\<lambda>_ _. True) s"
proof (cases "find_receipt (au_enrollment au) (pc_sequence (pre_change item)) s")
  case (Some r)
  then show ?thesis by (simp add: applyPrepared_def wp_simps accepts_def Let_def)
next
  case None
  show ?thesis
  proof (cases "find (\<lambda>r. enr_id r = au_enrollment au) (enrollments s)")
    case None
    with \<open>find_receipt _ _ s = None\<close> show ?thesis
      by (simp add: applyPrepared_def wp_simps Let_def)
  next
    case (Some r)
    then have w: "high_water s (au_enrollment au) = Some (enr_high_water r)" by (simp add: high_water_def)
    have refuse: "wp (refuse_change now (au_enrollment au) item x) (accepts au item s) (\<lambda>_ _. True) s" for x
      by (simp add: refuse_change_def wp_simps accepts_def)
    have accept: "wp (accept_change now (au_enrollment au) item ex) (accepts au item s) (\<lambda>_ _. True) s"
      if "\<not> pc_sequence (pre_change item) \<le> enr_high_water r"
        "base_matches (pre_change item) (head (entities s) (pc_type (pre_change item), pc_id (pre_change item)))" for ex
      using that None w
      by (auto simp: accept_change_def wp_simps Let_def accepts_def high_water_advance)
    show ?thesis
      using None Some refuse accept compare_base
      by (auto simp: applyPrepared_def wp_simps readEntity_head accepts_def Let_def split: option.split sum.split)
  qed
qed

text \<open>A sequence number that was used is never applied again.\<close>

lemma apply_used:
  assumes w: "high_water s (au_enrollment au) = Some w" and used: "pc_sequence (pre_change item) \<le> w"
  shows "applyPrepared env now au item s =
    (case find_receipt (au_enrollment au) (pc_sequence (pre_change item)) s of
       Some r \<Rightarrow> (Inr (if rcp_hash r = pc_hash (pre_change item) then rcp_result r
           else Rejected (pc_change_id (pre_change item)) ''changed-content'', None), s)
     | None \<Rightarrow> (Inr (ReceiptExpired (pc_change_id (pre_change item)), None), s\<lparr>receipts := receipts s @
           [receipt_for now (au_enrollment au) item (ReceiptExpired (pc_change_id (pre_change item)))]\<rparr>))"
proof -
  from w obtain r where "find (\<lambda>r. enr_id r = au_enrollment au) (enrollments s) = Some r" "enr_high_water r = w"
    by (auto simp: high_water_def)
  then show ?thesis
    using used by (auto simp: applyPrepared_def bindE_def thenE_def gets_def ret_def readEnrollment_def
        writeReceipt_def receipt_for_def Let_def split: option.split)
qed

end
