(* ===== verification/Account_Properties.thy ===== *)
theory Account_Properties
  imports Sync_Convergence Account_Once Database_Json
begin

text \<open>
  The properties of the account's synchronisation and portability, and of a device that rebuilds itself
  from it. The witnesses run a small account: two devices, a note that is created, changed and deleted.
\<close>

section \<open>A backend whose reader is executable\<close>

text \<open>\<open>JSON.parse\<close> is relied on for the pair of strings of a cursor; another text is read as a string.\<close>

fun unquote :: "nat \<Rightarrow> string \<Rightarrow> (string \<times> string) option" where
  "unquote 0 t = None"
| "unquote (Suc n) [] = None"
| "unquote (Suc n) (c # cs) = (if c = CHR 34 then Some ([], cs)
     else map_option (\<lambda>(s, x). (char_of (fst (read_char (c # cs))) # s, x)) (unquote n (snd (read_char (c # cs)))))"

lemma unquote_quoted: "length s < n \<Longrightarrow> unquote n (concat (map json_esc s) @ CHR 34 # x) = Some (s, x)"
proof (induction s arbitrary: n)
  case Nil
  then show ?case by (cases n) auto
next
  case (Cons c s)
  then obtain m where m: "n = Suc m" "length s < m" by (cases n) auto
  obtain d ds where d: "json_esc c @ concat (map json_esc s) @ CHR 34 # x = d # ds"
    by (cases "json_esc c @ concat (map json_esc s) @ CHR 34 # x") (auto simp: json_esc_def split: if_splits)
  have "d \<noteq> CHR 34" using d json_esc_quote by metis
  moreover have "read_char (d # ds) = (code c, concat (map json_esc s) @ CHR 34 # x)"
    using read_char_esc [of c "concat (map json_esc s) @ CHR 34 # x"] d by simp
  ultimately show ?case
    using d m Cons.IH [OF m(2)] by simp
qed

definition read_pair :: "string \<Rightarrow> (string \<times> string) option" where
  "read_pair t = (if take 2 t \<noteq> [CHR ''['', CHR 34] then None
     else (case unquote (length t) (drop 2 t) of
        None \<Rightarrow> None
      | Some (a, r) \<Rightarrow> if take 2 r \<noteq> [CHR '','', CHR 34] then None
          else (case unquote (length t) (drop 2 r) of
             None \<Rightarrow> None | Some (b, q) \<Rightarrow> if q = '']'' then Some (a, b) else None)))"

lemma json_quote_size: "length s < length (json_quote s)"
proof -
  have "length s \<le> length (concat (map json_esc s))"
  proof (induction s)
    case (Cons c s)
    have "0 < length (json_esc c)" by (simp add: json_esc_def)
    with Cons show ?case unfolding list.map concat.simps length_append list.size by linarith
  qed simp
  then show ?thesis by (simp add: json_quote_def)
qed

lemma read_pair_cursor: "read_pair (encodeEntityCursor a b) = Some (a, b)"
proof -
  let ?t = "encodeEntityCursor a b"
  have sizes: "length a < length ?t" "length b < length ?t"
    using json_quote_size [of a] json_quote_size [of b] by (simp_all add: encodeEntityCursor_def)
  have t: "?t = [CHR ''['', CHR 34] @ (concat (map json_esc a) @ CHR 34 # ([CHR '','', CHR 34] @
      (concat (map json_esc b) @ CHR 34 # '']'')))"
    by (simp add: encodeEntityCursor_def json_quote_def)
  have "take 2 ?t = [CHR ''['', CHR 34]" "drop 2 ?t = concat (map json_esc a) @ CHR 34 # ([CHR '','', CHR 34] @
      (concat (map json_esc b) @ CHR 34 # '']''))"
    by (simp_all add: t)
  then show ?thesis
    using unquote_quoted [OF sizes(1)] unquote_quoted [OF sizes(2)] by (simp add: read_pair_def)
qed

definition read_text :: "string \<Rightarrow> js option" where
  "read_text t = Some (case read_pair t of Some (a, b) \<Rightarrow> JArr [JStr a, JStr b] | None \<Rightarrow> JStr t)"

definition small_pf :: platform where
  "small_pf = \<lparr>pf_num_str = (\<lambda>_. ''0.5''), pf_str_num = (\<lambda>_. NaN), pf_url = (\<lambda>_. None), pf_sha256 = (\<lambda>_. []),
     pf_iso = int_str, pf_date = (\<lambda>_. None), pf_b64_enc = (\<lambda>_. []), pf_b64_dec = (\<lambda>_. []), pf_hex_dec = (\<lambda>_. []),
     pf_uri_enc = id, pf_uri_dec = Some, pf_collation_key = id\<rparr>"

definition zeros :: string where
  "zeros = replicate 64 (CHR ''0'')"

definition small_backend :: backend_env where
  "small_backend = \<lparr>be_pf = small_pf, be_json = read_text, be_sha256 = (\<lambda>_. zeros), be_hosted = False\<rparr>"

lemma small_reads: "json_reads small_backend"
  by (simp add: json_reads_def readable_def small_backend_def read_text_def read_pair_cursor)

definition small_device :: engine_env where
  "small_device = \<lparr>ge_pf = small_pf, ge_json = read_text, ge_backend = ''b'', ge_account = ''a'',
     ge_key = (\<lambda>_. None), ge_open = (\<lambda>_ _ _ _. None), ge_page_bytes = 1000\<rparr>"

definition phone :: auth where
  "phone = \<lparr>au_account = ''a'', au_enrollment = ''phone'', au_class = None, au_environment = None\<rparr>"

definition note_change :: "string \<Rightarrow> int \<Rightarrow> js \<Rightarrow> string \<Rightarrow> (string \<times> js) list \<Rightarrow> js" where
  "note_change i n base operation payload = JObj ([(''changeId'', JStr i), (''enrollmentSequence'', jint n),
     (''entityType'', JStr ''note''), (''entityId'', JStr ''n1''), (''schemaVersion'', jint 1), (''baseRevision'', base),
     (''operation'', JStr operation), (''payloadHash'', JStr zeros)] @ payload)"

definition push_params :: "js list \<Rightarrow> js" where
  "push_params cs = JObj [(''changes'', JArr cs)]"

definition note_created :: js where
  "note_created = note_change ''c1'' 1 JNull ''create'' [(''payload'', JStr ''hello'')]"

definition note_deleted :: js where
  "note_deleted = note_change ''c2'' 2 (jint 1) ''delete'' []"

fun serve_all :: "backend_env \<Rightarrow> acct_event list \<Rightarrow> account \<Rightarrow> account" where
  "serve_all env [] s = s"
| "serve_all env (ev # evs) s = serve_all env evs (serve env ev s)"

lemma serve_all_steps: "list_all event_ok evs \<Longrightarrow> acct_steps env s (serve_all env evs s)"
proof (induction evs arbitrary: s)
  case (Cons ev evs)
  then show ?case by (auto intro: acct_steps_trans [OF _ acct_steps_one])
qed (simp add: acct_steps.here)

definition one_note :: account where
  "one_note = serve_all small_backend [Connected 0 phone, PushCall 1 phone (push_params [note_created])] new_account"

definition no_note :: account where
  "no_note = serve_all small_backend [PushCall 2 phone (push_params [note_deleted])] one_note"

lemma one_note_reachable: "acct_reachable small_backend one_note"
  unfolding acct_reachable_def one_note_def by (rule serve_all_steps) code_simp

lemma no_note_steps: "acct_steps small_backend one_note no_note"
  unfolding no_note_def by (rule serve_all_steps) code_simp

lemma one_note_run: "map ent_payload (entities one_note) = [Some (json_quote ''hello'')] \<and> meta_next_sequence one_note = 2"
  by code_simp

lemma no_note_run: "map ent_operation (entities no_note) = [SyncDelete] \<and> meta_next_sequence no_note = 3"
  by code_simp

section \<open>The account\<close>

text \<open>C5: In every state an account can reach, its tables are well formed: one head per entity, with a
  payload unless it is a tombstone and a sequence number between 1 and the watermark; the journal
  strictly ordered, with a row for every sequence number above the retention floor; above the floor the
  row of each head is in the journal and says the same; every journal row is about an entity that has a
  head, not older than the row in sequence or revision. (Rows at or below the floor may have been swept.)\<close>

theorem account_well_formed:
  assumes "json_reads env" "acct_reachable env s"
  shows "distinct (map ent_key (entities s)) \<and> sorted_wrt (<) (map chg_sequence (changes s)) \<and>
     0 \<le> meta_retention_floor s \<and> meta_retention_floor s \<le> currentWatermark s \<and>
     (\<forall>e \<in> set (entities s). 1 \<le> ent_sequence e \<and> ent_sequence e \<le> currentWatermark s \<and>
        (ent_payload e = None \<longleftrightarrow> ent_operation e = SyncDelete)) \<and>
     {q. meta_retention_floor s < q \<and> q \<le> currentWatermark s} \<subseteq> chg_sequence ` set (changes s) \<and>
     (\<forall>e \<in> set (entities s). meta_retention_floor s < ent_sequence e \<longrightarrow>
        (\<exists>c \<in> set (changes s). chg_sequence c = ent_sequence e \<and> (chg_type c, chg_id c) = ent_key e \<and>
           chg_revision c = ent_revision e \<and> chg_operation c = ent_operation e \<and> chg_schema c = ent_schema e)) \<and>
     (\<forall>c \<in> set (changes s). \<exists>e \<in> set (entities s). ent_key e = (chg_type c, chg_id c) \<and>
        chg_sequence c \<le> ent_sequence e \<and> chg_revision c \<le> ent_revision e)"
proof -
  have J: "journal_ok (readable env) (entities s) (changes s) (meta_next_sequence s) (meta_retention_floor s)"
    using account_reachable_ok [OF assms(2,1)] by (simp add: account_ok_def)
  note D = journal_okD [OF J]
  have w: "currentWatermark s = meta_next_sequence s - 1"
    using D(3,4) by (simp add: currentWatermark_def)
  have heads: "1 \<le> ent_sequence e \<and> ent_sequence e \<le> currentWatermark s \<and>
      (ent_payload e = None \<longleftrightarrow> ent_operation e = SyncDelete)" if "e \<in> set (entities s)" for e
    using D(5) [OF that] by (simp add: head_ok_def w)
  have journalled: "\<exists>c \<in> set (changes s). chg_sequence c = ent_sequence e \<and> (chg_type c, chg_id c) = ent_key e \<and>
      chg_revision c = ent_revision e \<and> chg_operation c = ent_operation e \<and> chg_schema c = ent_schema e"
    if e: "e \<in> set (entities s)" "meta_retention_floor s < ent_sequence e" for e
    by (rule head_journalled [OF J e]) (use heads [OF e(1)] w in simp)
  have rows: "\<exists>e \<in> set (entities s). ent_key e = (chg_type c, chg_id c) \<and> chg_sequence c \<le> ent_sequence e \<and>
      chg_revision c \<le> ent_revision e" if c: "c \<in> set (changes s)" for c
  proof -
    from D(6) [OF c] obtain e where e: "head (entities s) (chg_key c) = Some e" "chg_sequence c \<le> ent_sequence e"
      "chg_revision c \<le> ent_revision e" by (auto simp: row_ok_def same_row_def split: if_splits)
    then show ?thesis using head_in [OF e(1)] head_key [OF e(1)] by (auto simp: chg_key_def)
  qed
  show ?thesis
    using D(1-4) D(8) heads rows journalled by (simp add: w subset_iff)
qed

theorem account_well_formed_witness:
  "map chg_sequence (changes no_note) = [1, 2] \<and> sorted_wrt (<) (map chg_sequence (changes no_note))"
proof -
  have "map chg_sequence (changes no_note) = [1, 2]" by code_simp
  then show ?thesis
    using account_well_formed [OF small_reads reachable_steps [OF one_note_reachable no_note_steps]] by simp
qed

text \<open>C4: A pull from a reachable account demands a reset exactly for a cursor below the retention floor, and
  otherwise always answers with a page: changes in journal order between the cursor and the next cursor,
  among them the current head of every entity that changed in between; the next cursor advances whenever
  there is anything to read, and without \<open>hasMore\<close> nothing newer is left.\<close>

theorem pull_answers:
  assumes "json_reads env" "acct_reachable env s" "parseSpikePullParams ps = Inr pull"
  shows "if pp_cursor pull < meta_retention_floor s
    then handlePull env ps s = (Inl (RpcFailure E_reset_required (JObj ([(''reason'', JStr ''snapshot-required''),
      (''floor'', jint (meta_retention_floor s)), (''cursor'', jint (pp_cursor pull))] @ snapshot_fields s))),
      bumpCounter ''pulls'' 1 s)
    else \<exists>p c'. handlePull env ps s = (Inr p, bumpCounter ''pulls'' 1 s) \<and> pull_next p = int_str c' \<and>
      pp_cursor pull \<le> c' \<and> sorted_wrt (<) (map sy_sequence (pull_changes p)) \<and>
      (\<forall>c \<in> set (pull_changes p). pp_cursor pull < sy_sequence c \<and> sy_sequence c \<le> c') \<and>
      (\<forall>e \<in> set (entities s). pp_cursor pull < ent_sequence e \<and> ent_sequence e \<le> c' \<longrightarrow>
         (\<exists>c \<in> set (pull_changes p). sy_sequence c = ent_sequence e \<and> sy_key c = ent_key e \<and>
            sy_content c = content env e)) \<and>
      (pp_cursor pull < currentWatermark s \<longrightarrow> pp_cursor pull < c') \<and>
      (\<not> pull_more p \<longrightarrow> (\<forall>e \<in> set (entities s). pp_cursor pull < ent_sequence e \<longrightarrow> ent_sequence e \<le> c'))"
proof -
  have ok: "account_ok env s" by (rule account_reachable_ok [OF assms(2,1)])
  have w: "currentWatermark s = meta_next_sequence s - 1"
    using ok by (simp add: currentWatermark_def account_ok_def journal_ok_def)
  show ?thesis
  proof (cases "pp_cursor pull < meta_retention_floor s")
    case False
    then obtain p c' where p: "handlePull env ps s = (Inr p, bumpCounter ''pulls'' 1 s)"
      "pull_covers env (entities s) (pp_cursor pull) c' (pull_changes p)" "pull_next p = int_str c'"
      "\<not> pull_more p \<longrightarrow> (\<forall>e \<in> set (entities s). pp_cursor pull < ent_sequence e \<longrightarrow> ent_sequence e \<le> c')"
      "pp_cursor pull + 1 < meta_next_sequence s \<longrightarrow> pp_cursor pull < c'"
      using handlePull_run [OF ok assms(3)] by (auto simp: pull_page_ok_def)
    then show ?thesis
      using False unfolding pull_covers_def w by (auto intro!: exI [of _ p] exI [of _ c'])
  qed (use handlePull_run [OF ok assms(3)] in simp)
qed

definition pull_from_start :: js where
  "pull_from_start = JObj [(''cursor'', JNull), (''maxBytes'', jint 1000)]"

theorem pull_answers_witness:
  "\<exists>p c'. handlePull small_backend pull_from_start one_note = (Inr p, bumpCounter ''pulls'' 1 one_note) \<and>
     pull_next p = int_str c' \<and> 0 < c'"
proof -
  have ps: "parseSpikePullParams pull_from_start = Inr \<lparr>pp_cursor = 0, pp_max_bytes = 1000, pp_max_changes = None\<rparr>"
    by code_simp
  have run: "meta_retention_floor one_note = 0 \<and> currentWatermark one_note = 1" by code_simp
  show ?thesis
    using pull_answers [OF small_reads one_note_reachable ps] run by auto
qed

text \<open>C3: A change is accepted only if its base is the current revision of its entity (no entity yet for a
  creation); then the head becomes the change with the next revision under the next sequence number, and
  no other head moves. A conflict reports the revision it lost against and leaves every head alone.\<close>

theorem no_lost_update:
  assumes "applyPrepared env now au item s = (Inr (result, accepted), s')"
  shows "(case accepted of
      Some q \<Rightarrow> q = meta_next_sequence s \<and> meta_next_sequence s' = q + 1 \<and>
        (\<exists>v p. result = Accepted (pc_change_id (pre_change item)) v p \<and>
          (case readEntity (pc_type (pre_change item)) (pc_id (pre_change item)) s of
             None \<Rightarrow> pc_operation (pre_change item) = SyncCreate \<and> v = 1
           | Some e \<Rightarrow> pc_operation (pre_change item) \<noteq> SyncCreate \<and> pc_base (pre_change item) = Some (ent_revision e) \<and>
               v = ent_revision e + 1) \<and>
          head (entities s') = (head (entities s))((pc_type (pre_change item), pc_id (pre_change item)) \<mapsto>
            \<lparr>ent_type = pc_type (pre_change item), ent_id = pc_id (pre_change item), ent_revision = v,
              ent_operation = pc_operation (pre_change item), ent_schema = pc_schema (pre_change item),
              ent_payload = pre_json item, ent_sequence = q, ent_updated = now\<rparr>))
    | None \<Rightarrow> entities s' = entities s \<and> changes s' = changes s \<and> meta_next_sequence s' = meta_next_sequence s)"
proof -
  have A: "applied now item s (result, accepted) s'" by (rule wp_result [OF wp_applyPrepared assms])
  have B: "accepts au item s (result, accepted) s'" by (rule wp_result [OF wp_accepts assms])
  show ?thesis
  proof (cases accepted)
    case None
    then show ?thesis using A by (auto simp: applied_def same_core_def)
  next
    case (Some q)
    then obtain v cont where r: "result = Accepted (pc_change_id (pre_change item)) v cont" "q = meta_next_sequence s"
      "v = next_revision (head (entities s) (pc_type (pre_change item), pc_id (pre_change item)))"
      "accepted_into s s' (new_head now s (pre_change item) (pre_json item) v) (new_row now s (pre_change item) v)"
      using A by (auto simp: applied_def)
    moreover have "base_matches (pre_change item) (head (entities s) (pc_type (pre_change item), pc_id (pre_change item)))"
      using B Some by (simp add: accepts_def)
    ultimately show ?thesis
      using Some by (auto simp: accepted_into_def base_matches_def next_revision_def readEntity_head new_head_def
          ent_key_def split: option.splits)
  qed
qed

definition created_item :: prepared where
  "created_item = \<lparr>pre_change = \<lparr>pc_change_id = ''c1'', pc_sequence = 1, pc_type = ''note'', pc_id = ''n1'', pc_schema = 1,
     pc_base = None, pc_operation = SyncCreate, pc_payload = Some (JStr ''hello''), pc_hash = zeros\<rparr>,
     pre_json = Some (json_quote ''hello''), pre_bytes = 7, pre_hash = zeros\<rparr>"

definition connected :: account where
  "connected = provisionEnrollment 0 phone new_account"

definition first_push :: account where
  "first_push = snd (applyPrepared small_backend 1 phone created_item connected)"

lemma first_push_run:
  "applyPrepared small_backend 1 phone created_item connected =
     (Inr (Accepted ''c1'' 1 (Some (JStr ''hello'')), Some 1), first_push)"
proof -
  have "fst (applyPrepared small_backend 1 phone created_item connected) =
      Inr (Accepted ''c1'' 1 (Some (JStr ''hello'')), Some 1)" by code_simp
  then show ?thesis by (simp add: first_push_def prod_eq_iff)
qed

theorem no_lost_update_witness:
  "meta_next_sequence first_push = 2 \<and> map_option ent_revision (head (entities first_push) (''note'', ''n1'')) = Some 1"
proof -
  have "readEntity ''note'' ''n1'' connected = None" by code_simp
  then show ?thesis
    using no_lost_update [OF first_push_run] by (auto simp: created_item_def connected_def)
qed

text \<open>C2: Once a change was accepted under a sequence number of an enrollment, no change under that number is
  ever applied again, whatever the account serves in between: it is answered with the stored result, or
  rejected when its content differs, or reported expired when the receipt was swept; heads and journal
  stay as they are.\<close>

theorem push_once:
  assumes "applyPrepared env now au item s = (Inr (result, Some q), s1)" "acct_steps env s1 s2"
    and "au_enrollment au' = au_enrollment au" "pc_sequence (pre_change again) = pc_sequence (pre_change item)"
  shows "\<exists>r s3. applyPrepared env now' au' again s2 = (Inr (r, None), s3) \<and> entities s3 = entities s2 \<and>
     changes s3 = changes s2 \<and> meta_next_sequence s3 = meta_next_sequence s2 \<and>
     r = (case find_receipt (au_enrollment au) (pc_sequence (pre_change item)) s2 of
        None \<Rightarrow> ReceiptExpired (pc_change_id (pre_change again))
      | Some receipt \<Rightarrow> if rcp_hash receipt = pc_hash (pre_change again) then rcp_result receipt
          else Rejected (pc_change_id (pre_change again)) ''changed-content'')"
proof -
  have "high_water s1 (au_enrollment au) = Some (pc_sequence (pre_change item))"
    using wp_result [OF wp_accepts assms(1)] by (simp add: accepts_def)
  then obtain w where "high_water s2 (au_enrollment au') = Some w" "pc_sequence (pre_change again) \<le> w"
    using steps_rise [OF assms(2)] assms(3,4) unfolding waters_rise_def by fastforce
  from apply_used [OF this] show ?thesis
    using assms(3,4) by (auto split: option.split)
qed

theorem push_once_witness:
  "\<exists>r s3. applyPrepared small_backend 9 phone created_item (serve small_backend (SweepAlarm 5) first_push) = (Inr (r, None), s3) \<and>
     entities s3 = entities (serve small_backend (SweepAlarm 5) first_push)"
  using push_once [OF first_push_run acct_steps_one [of "SweepAlarm 5"] refl refl, of 9] by fastforce

section \<open>The device\<close>

text \<open>C1: Whatever the account serves to other devices between the calls of a scan - pushes, imports, sweeps,
  publications - and whichever answers are lost, a device that reaches the activation of its staging does so
  at a watermark of the account, and has staged exactly the current content of every entity whose head is
  not newer than it; every other staged row is an entity's older revision. If nothing was accepted after
  the watermark, the staging is the account.\<close>

theorem scan_converges:
  assumes "json_reads env" "sync_reach env g (s, d, r)" "sd_engine d = Activated w"
  shows "\<exists>n. w = int_str n \<and> 0 \<le> n \<and> n \<le> currentWatermark s \<and>
     (\<forall>e \<in> set (entities s). ent_sequence e \<le> n \<longrightarrow>
        (\<exists>x. map_of (sd_staging d) (ent_key e) = Some x \<and> staged_as g x (content env e))) \<and>
     (\<forall>kx \<in> set (sd_staging d). \<exists>e \<in> set (entities s). ent_key e = fst kx \<and>
        stg_revision (snd kx) \<le> ent_revision e \<and>
        (stg_revision (snd kx) = ent_revision e \<longrightarrow> staged_as g (snd kx) (content env e))) \<and>
     (n = currentWatermark s \<longrightarrow> fst ` set (sd_staging d) = ent_key ` set (entities s))"
proof -
  have ok: "account_ok env s" and E: "engine_ok env g s d (reply_js r) (sd_engine d)"
    using sync_reach_ok [OF assms(2,1)] by (auto simp: sys_ok_def)
  from E assms(3) obtain n where w: "w = int_str n" and H: "has_up_to env g s d n" by auto
  have water: "currentWatermark s = meta_next_sequence s - 1"
    using ok by (simp add: currentWatermark_def account_ok_def journal_ok_def)
  have have_heads: "\<exists>x. map_of (sd_staging d) (ent_key e) = Some x \<and> staged_as g x (content env e)"
    if "e \<in> set (entities s)" "ent_sequence e \<le> n" for e
    using H that by (simp add: has_up_to_def got_def)
  have rows: "\<exists>e \<in> set (entities s). ent_key e = fst kx \<and> stg_revision (snd kx) \<le> ent_revision e \<and>
      (stg_revision (snd kx) = ent_revision e \<longrightarrow> staged_as g (snd kx) (content env e))"
    if kx: "kx \<in> set (sd_staging d)" for kx
  proof -
    from H kx obtain e where e: "head (entities s) (fst kx) = Some e"
      "stg_revision (snd kx) < ent_revision e \<or> staged_as g (snd kx) (content env e)"
      unfolding has_up_to_def staging_ok_def staged_below_def by blast
    then show ?thesis
      using head_in [OF e(1)] head_key [OF e(1)] staged_as_revision by (intro bexI [of _ e]) auto
  qed
  have all: "fst ` set (sd_staging d) = ent_key ` set (entities s)" if n: "n = currentWatermark s"
  proof -
    have "ent_key e \<in> fst ` set (sd_staging d)" if "e \<in> set (entities s)" for e
      using have_heads [OF that] account_parts(3) [OF ok that] water n by (force dest: map_of_SomeD)
    then show ?thesis using rows by force
  qed
  have "0 \<le> n \<and> n \<le> currentWatermark s" using H water by (simp add: has_up_to_def)
  then show ?thesis using w have_heads rows all by blast
qed

text \<open>A run: the device begins its scan, the phone deletes the note, the device goes on.\<close>

datatype move = Other acct_event | Call int string | Deliver

fun play :: "backend_env \<Rightarrow> engine_env \<Rightarrow> move list \<Rightarrow> sync_sys \<Rightarrow> sync_sys" where
  "play env g [] x = x"
| "play env g (Other ev # ms) (s, d, r) = play env g ms (serve env ev s, d, r)"
| "play env g (Call now uuid # ms) (s, d, r) = (case (r, engine_request g d) of
     (None, Some (op, ps)) \<Rightarrow> (case sync_rpc env now uuid op ps s of (res, s') \<Rightarrow> play env g ms (s', d, Some res))
   | _ \<Rightarrow> (s, d, r))"
| "play env g (Deliver # ms) (s, d, r) = (case r of
     Some (Inr v) \<Rightarrow> play env g ms (s, engine_receive g v d, None) | _ \<Rightarrow> (s, d, r))"

fun move_ok :: "move \<Rightarrow> bool" where
  "move_ok (Other ev) = event_ok ev"
| "move_ok _ = True"

lemma play_reach: "sync_reach env g x \<Longrightarrow> list_all move_ok ms \<Longrightarrow> sync_reach env g (play env g ms x)"
proof (induction env g ms x rule: play.induct)
  case (2 env g ev ms s d r)
  then show ?case by (auto intro: sync_reach.step [OF _ sys_other])
next
  case (3 env g now uuid ms s d r)
  have "sync_reach env g (s', d, Some res)"
    if "r = None" "engine_request g d = Some (op, ps)" "sync_rpc env now uuid op ps s = (res, s')" for op ps res s'
    using sync_reach.step [OF 3(2)] sys_call [OF that(2,3)] that(1) by blast
  with 3 show ?case by (auto split: option.split prod.split)
next
  case (4 env g ms s d r)
  have "sync_reach env g (s, engine_receive g v d, None)" if "r = Some (Inr v)" for v
    using sync_reach.step [OF 4(2)] sys_answer that by blast
  with 4 show ?case by (auto split: option.split sum.split)
qed simp

definition desktop :: scan_device where
  "desktop = \<lparr>sd_epoch = SPIKE_INITIAL_EPOCH, sd_run = None, sd_staging = [], sd_engine = AwaitBegin\<rparr>"

definition sample_run :: sync_sys where
  "sample_run = play small_backend small_device
     [Other (Connected 0 phone), Other (PushCall 1 phone (push_params [note_created])),
      Call 2 ''s'', Deliver, Call 3 [], Deliver, Other (PushCall 4 phone (push_params [note_deleted])),
      Call 5 [], Deliver, Call 6 [], Deliver] (new_account, desktop, None)"

lemma sample_run_reach: "sync_reach small_backend small_device sample_run"
  unfolding sample_run_def desktop_def by (rule play_reach [OF sync_reach.start]) code_simp

lemma sample_run_end:
  "sd_engine (fst (snd sample_run)) = Activated ''2'' \<and>
   sd_staging (fst (snd sample_run)) = [((''note'', ''n1''), \<lparr>stg_revision = 2, stg_schema = 1,
     stg_operation = SyncDelete, stg_payload = None, stg_wire = None\<rparr>)]"
  by code_simp

theorem scan_converges_witness:
  "\<exists>n. ''2'' = int_str n \<and> n \<le> currentWatermark (fst sample_run)"
  using scan_converges [OF small_reads, of small_device "fst sample_run" "fst (snd sample_run)" "snd (snd sample_run)" "''2''"]
    sample_run_reach sample_run_end by auto

section \<open>Import\<close>

text \<open>A creation in a plan adds its entity, or fails because the primary key is taken; no other entity moves.\<close>

lemma readEntity_fields:
  "readEntity t j (addHistoryBytes d s) = readEntity t j s"
  "readEntity t j (observeSyncKeyVersion p s) = readEntity t j s"
  "readEntity t j (keep_old_payload h s) = readEntity t j s"
  "readEntity t j (case q of None \<Rightarrow> s | Some h \<Rightarrow> keep_old_payload h s) = readEntity t j s"
  "readEntity t j (s\<lparr>changes := cs\<rparr>) = readEntity t j s"
  "readEntity t j (s\<lparr>meta_next_sequence := n\<rparr>) = readEntity t j s"
  by (simp_all add: readEntity_def addHistoryBytes_def observeSyncKeyVersion_def keep_old_payload_def split: option.split)

lemma readEntity_appended: "readEntity t j s = Some e \<Longrightarrow> readEntity t j (s\<lparr>entities := entities s @ [h]\<rparr>) = Some e"
  by (simp add: readEntity_head head_append)

lemma import_entity_adds:
  assumes "import_entity env now y s = (r, s')"
  shows "case r of Inl e \<Rightarrow> e = unique_violation
    | Inr _ \<Rightarrow> (\<forall>t j e. readEntity t j s = Some e \<longrightarrow> readEntity t j s' = Some e)"
proof -
  have "wp (import_entity env now y) (\<lambda>_ s'. \<forall>t j e. readEntity t j s = Some e \<longrightarrow> readEntity t j s' = Some e)
      (\<lambda>e _. e = unique_violation) s"
    by (auto simp: import_entity_def wp_simps Let_def readEntity_fields readEntity_appended)
  with assms show ?thesis by (auto simp: wp_def split: sum.splits)
qed

lemma import_entity_blocked:
  assumes "readEntity (exp_type y) (exp_id y) s = Some e"
  shows "fst (import_entity env now y s) = Inl unique_violation"
  using assms by (simp add: import_entity_def Let_def bindE_def thenE_def gets_def modify_def insert_entity_def readEntity_fields)

lemma import_entries_blocked:
  assumes create: "\<And>t. readEntity (exp_type x) (exp_id x) t = Some e \<Longrightarrow> pl_outcome (classifyImportEntity env t x) = ImpCreate"
    and "entry \<in> set plan" "pl_outcome entry = ImpCreate" "pl_entity entry = x"
    and "readEntity (exp_type x) (exp_id x) s = Some e"
  shows "fst (import_entries env now acc plan s) = Inl unique_violation"
  using assms(2,5)
proof (induction plan arbitrary: acc s)
  case (Cons p plan)
  obtain a c k w where acc: "acc = (a, c, k, w)" by (cases acc) auto
  define out where "out = (if pl_outcome p \<noteq> ImpCreate then pl_outcome p
      else pl_outcome (classifyImportEntity env s (pl_entity p)))"
  obtain r s' where run: "import_entity env now (pl_entity p) s = (r, s')" by fastforce
  have step: "fst (import_entries env now acc (p # plan) s) =
      fst ((if out = ImpConflict then import_entries env now (a, c + 1, k, w) plan
        else if out \<noteq> ImpCreate then import_entries env now (a, c, k + 1, w) plan
        else bindE (import_entity env now (pl_entity p)) (\<lambda>sequence. import_entries env now (a + 1, c, k, Some sequence) plan)) s)"
    by (simp add: acc out_def bindE_def gets_def)
  show ?case
  proof (cases "p = entry")
    case True
    with create [OF Cons.prems(2)] assms(3,4) have "out = ImpCreate" by (simp add: out_def)
    moreover have "r = Inl unique_violation"
      using import_entity_blocked [of "pl_entity p" s e env now] True assms(4) Cons.prems(2) run by simp
    ultimately show ?thesis using run step by (simp add: bindE_def)
  next
    case False
    with Cons.prems(1) have "entry \<in> set plan" by simp
    note IH = Cons.IH [OF this]
    show ?thesis
      using import_entity_adds [OF run] IH Cons.prems(2) run step by (cases r) (auto simp: bindE_def)
  qed
qed simp

text \<open>C35: An import with an entry that the preview planned as a creation, for an entity that is deleted
  when the import is committed, always fails as a whole, wherever the entry stands in the plan and
  whatever the other entries are: the entity is still classified as a creation, and its insertion
  violates the primary key of its tombstone.\<close>

theorem import_over_tombstone_fails:
  assumes "find_operation i s = Some op" "dop_kind op = ''import''" "dop_state op = ''previewed''"
    and "now - dop_created op \<le> SNAPSHOT_LIFETIME_MS" "dop_plan op = Some plan" "entry \<in> set plan"
    and "entry = classifyImportEntity env s0 x" "pl_outcome entry = ImpCreate"
    and "readEntity (exp_type x) (exp_id x) s = Some e" "ent_operation e = SyncDelete"
    and "parseDataImportCommitParams ps = Inr i"
  shows "pl_outcome (classifyImportEntity env s x) = ImpCreate \<and>
    handleDataImportCommit env now au ps s = (Inl unique_violation, s)"
proof -
  let ?s = "provisionEnrollment now au s"
  have same: "readEntity t j ?s = readEntity t j s" for t j
    by (simp add: readEntity_def provisionEnrollment_def)
  have create: "pl_outcome (classifyImportEntity env t x) = ImpCreate"
    if "readEntity (exp_type x) (exp_id x) t = Some e" for t
    using that assms(7,8,10) by (auto simp: classifyImportEntity_def Let_def split: if_splits)
  have "pl_entity entry = x" using assms(7) by simp
  then have "fst (import_entries env now (0, 0, 0, None) plan ?s) = Inl unique_violation"
    using import_entries_blocked [OF create assms(6,8), where s = ?s] assms(9) by (simp add: same)
  moreover have "loadDataOperation now i ''import'' s = (Inr op, s)"
    using assms(1,2,4) by (simp add: loadDataOperation_def)
  ultimately have "fst (commitImport env now au i s) = Inl unique_violation"
    using assms(3,5) by (auto simp: commitImport_def bindE_def thenE_def modify_def split: prod.splits)
  then show ?thesis
    using create assms(9,11) by (auto simp: handleDataImportCommit_def bindE_def lift_sum_def commit_def split: prod.splits)
qed

definition backup_params :: js where
  "backup_params = JObj [(''formatVersion'', jint 1), (''entities'', JArr [JObj [(''entityType'', JStr ''note''),
     (''entityId'', JStr ''n1''), (''revision'', jint 1), (''schemaVersion'', jint 1), (''payload'', JStr ''hello'')]])]"

definition previewed :: account where
  "previewed = serve small_backend (ImportPreviewCall 3 ''x'' phone backup_params) no_note"

definition backup_note :: exported where
  "backup_note = \<lparr>exp_type = ''note'', exp_id = ''n1'', exp_revision = num_of_int 1, exp_schema = num_of_int 1,
     exp_payload = JStr ''hello''\<rparr>"

definition preview_row :: operation_row where
  "preview_row = \<lparr>dop_id = ''imp_x'', dop_kind = ''import'', dop_state = ''previewed'', dop_enrollment = ''phone'',
     dop_created = 3, dop_watermark = None, dop_cursor = None,
     dop_plan = Some [\<lparr>pl_entity = backup_note, pl_outcome = ImpCreate, pl_reason = None\<rparr>],
     dop_result = None, dop_finished = None\<rparr>"

definition commit_params :: js where
  "commit_params = JObj [(''operationId'', JStr ''imp_x'')]"

lemma previewed_run:
  "find_operation ''imp_x'' previewed = Some preview_row \<and>
   classifyImportEntity small_backend previewed backup_note = \<lparr>pl_entity = backup_note, pl_outcome = ImpCreate, pl_reason = None\<rparr> \<and>
   map_option ent_operation (readEntity ''note'' ''n1'' previewed) = Some SyncDelete"
  by code_simp

theorem import_over_tombstone_fails_witness:
  "handleDataImportCommit small_backend 4 phone commit_params previewed = (Inl unique_violation, previewed)"
proof -
  obtain e where e: "readEntity ''note'' ''n1'' previewed = Some e" "ent_operation e = SyncDelete"
    using previewed_run by auto
  have entity: "exp_type backup_note = ''note''" "exp_id backup_note = ''n1''" by (simp_all add: backup_note_def)
  have ps: "parseDataImportCommitParams commit_params = Inr ''imp_x''" by code_simp
  have row: "dop_kind preview_row = ''import''" "dop_state preview_row = ''previewed''"
    "4 - dop_created preview_row \<le> SNAPSHOT_LIFETIME_MS"
    "dop_plan preview_row = Some [classifyImportEntity small_backend previewed backup_note]"
    using previewed_run by (simp_all add: preview_row_def SNAPSHOT_LIFETIME_MS_def)
  show ?thesis
    using import_over_tombstone_fails [OF _ row _ refl _ _ e(2) ps,
      where au = phone and s = previewed and env = small_backend and ?s0.0 = previewed and x = backup_note] previewed_run e(1) entity by simp
qed

end
