(* ===== verification/Spec2Isabelle.thy ===== *)
theory Spec2Isabelle
  imports Control_Plane_Properties Registry_Properties Snapshot_Delivery Execution_Worker_Properties Job_Outbox_Properties Workflow_Properties Account_Properties
begin

text \<open>
  A verification library for the services of the repository: the execution service and the runtime
  of \<open>src/mezair-cloud\<close>, the package registry of \<open>src/mezair-registry\<close>, and the synchronisation of
  the desktop application of \<open>src/mezair-app\<close> with its cloud backend. Theories come in families: one or more model a part of the code, \<open>..._Laws\<close> and similar theories hold its lemmas, and
  \<open>..._Properties\<close> the statements about the program, each applied to a concrete state by the theorem
  named \<open>..._witness\<close> that follows it.

  \<^bold>\<open>How code is translated.\<close> \<open>Prelude\<close> has the JavaScript layer: strings as lists of code units,
  numbers as rationals with NaN and the infinities, dynamically typed values \<open>js\<close>, objects as
  association lists in insertion order, and computations \<open>comp\<close> that thread a state and may throw,
  with weakest preconditions \<open>wp\<close>, invariants \<open>keeps\<close>, triples \<open>hoare\<close> and result predicates
  \<open>stays\<close>. What the code gets from its platform (hashing, dates, number printing beyond integers, URL
  parsing, base64) is the record \<open>platform\<close>, an argument of the definitions that use it. A clock
  reading and a random identifier are drawn from an outer world or passed as arguments. Awaited calls
  of other services are operations on the outer world that may fail.

  \<^bold>\<open>The execution service\<close> (\<open>packages/control-plane/src\<close>, \<open>packages/runtime/src/agent-execution.ts\<close>).
  A client asks the control plane for an execution of an agent; the control plane validates the
  request, selects a provider, has it start a sandbox, records the provider's events in an
  append-only log, and ends the execution on completion, budget, deadline or request.

  \<^item> \<open>Execution_Types\<close>, \<open>Text_Utils\<close>, \<open>Execution_Validation\<close>: the contract's records and literal
    unions, the text helpers and \<open>validateExecutionRequest\<close>.
  \<^item> \<open>Execution_Store\<close> (\<open>execution-store.ts\<close>): leases in memory or in a JSON file; the interface is
    the locale of that theory, interpreted for both.
  \<^item> \<open>Control_Plane\<close> (\<open>execution.ts\<close>): the class \<open>AgentExecutionControlPlane\<close>, method by method. Its
    state is the store, the lease the running method holds, and the outer world with the providers.
    \<open>Control_Plane_Invariants\<close>, \<open>_Api\<close>, \<open>_Start\<close>, \<open>_Stream\<close>, \<open>_End\<close> hold the store invariant, the
    transition system of API calls, and the laws of starting, reading and ending; \<open>Control_Plane_Budget\<close>
    shows what the event logs are made of.
  \<^item> \<open>Fake_Provider\<close> and \<open>Provider_Contract\<close>: the deterministic provider and, as locales, what the
    control plane relies on of any provider; \<open>Scenario\<close> is the concrete setting of the witnesses.
  \<^item> \<open>Snapshot_Store\<close>, \<open>_Laws\<close>, \<open>_Content\<close> (\<open>execution-snapshot-store.ts\<close>): uploads of source
    snapshots, single-use grants, and the refinement of the in-memory by the file store.
  \<^item> \<open>Execution_Http\<close>, \<open>_Client\<close>, \<open>_Laws\<close> (\<open>execution-http.ts\<close>): the router and the two clients;
    \<open>Execution_Node_Http\<close> (\<open>execution-node-http.ts\<close>): the adapter that serves the router over HTTP, and
    a client's call through it as JSON texts; \<open>Execution_Worker\<close> (\<open>execution-worker.ts\<close>): the boundary of a sandbox; \<open>Snapshot_Delivery\<close>
    composes upload, broker, router and worker.

  \<^bold>\<open>The runtime\<close> (\<open>packages/runtime/src\<close>).

  \<^item> \<open>Database_Commit\<close>, \<open>_Json\<close>, \<open>_Laws\<close> (\<open>database-commit.ts\<close>): conditional commits, the stable
    JSON records are compared by, and pages.
  \<^item> \<open>Job_Outbox\<close>, \<open>_Laws\<close> (\<open>job-outbox.ts\<close>): a recovery pass as a program in its awaited calls; any
    number of passes, commits, crashes and lost answers interleave.
  \<^item> \<open>Workflow\<close>, \<open>_Laws\<close> (\<open>workflow.ts\<close>): execution of a workflow over its stored run, with retries,
    timeouts, failing saves and crashes between any two steps.

  \<^bold>\<open>The registry\<close> (\<open>src/mezair-registry\<close>). A proxy for npm packages that decides for each version
  whether it may be installed.

  \<^item> \<open>Registry_Policy\<close>, \<open>_Laws\<close> (\<open>packages/policy-engine\<close>): \<open>evaluatePolicy\<close>.
  \<^item> \<open>Registry_Store\<close> (\<open>packages/persistence\<close>): the in-memory persistence.
  \<^item> \<open>Registry_Names\<close>, \<open>Registry_Distance\<close> (\<open>packages/name-squatting\<close>): name similarity, and the
    edit distance it rests on.
  \<^item> \<open>Registry_Gateway\<close> (\<open>apps/gateway/src/app.ts\<close>): metadata, tarball, explain and override requests;
    \<open>Registry_Laws\<close>, \<open>_Gate\<close>, \<open>_System\<close>, \<open>_Overrides\<close>, \<open>_Listing\<close> hold the lemmas.

  \<^bold>\<open>Synchronisation\<close> (\<open>src/mezair-app\<close>). An account is a durable object that holds the current row of
  every entity, a journal of changes, receipts of pushed changes and open scans; devices push changes,
  pull the journal, and rebuild themselves by a scan of the entities followed by the changes made meanwhile.

  \<^item> \<open>Account_State\<close>, \<open>Account_Sync\<close>, \<open>Account_Portability\<close> (\<open>cloud/backend/src/account-coordinator.ts\<close>,
    \<open>cloud/contract\<close>): the tables of the account and every call that touches the synchronised entities:
    push, pull, scan, export, import, and the sweep of what is past its retention. A call is a
    computation on the tables that answers or fails with the error of the contract; \<open>commit\<close> undoes a
    failed transaction.
  \<^item> \<open>Account_Journal\<close> says what a well-formed journal is and how the two ways of adding to it keep it;
    \<open>Account_Laws\<close> lifts this to every call, with the invariant of open scans; \<open>Account_System\<close> has the
    calls as events and the reachable accounts; \<open>Account_Pull\<close> what a page of the journal covers;
    \<open>Account_Once\<close> that sequence numbers of a device are used once.
  \<^item> \<open>Sync_Engine\<close> (\<open>sync-engine.service.ts\<close>, \<open>sync-persistence.service.ts\<close>): the scan of the desktop
    application as a machine between remote calls; \<open>Sync_Convergence\<close> runs it against an account that
    serves others between its calls, loses answers, and shows what is staged at each point.

  \<^bold>\<open>Bounds and fuel.\<close> The text scanners and the delegation of loops to recursion are total functions
  with termination proofs. Loops over services take their bound from the code (the page of an outbox
  pass, the retries of a step, the events of a run); the drain of a whole table follows cursors with as
  much fuel as there are rows and one, which \<open>pages_complete\<close> shows to be enough.

  \<^bold>\<open>Assumptions of the models.\<close>
  HTTP: the property of the client over the adapter asks that the URL parser and \<open>JSON.parse\<close> read back
  the path and the texts of the call it is about (\<open>carries\<close>); a property of the router sees decoded requests.
  Control plane: the calls of one control plane do not overlap in time, so a race of two
  \<open>createExecution\<close> calls with one idempotency token is outside the model.
  Workflows: one process at a time works on a run; a handler does not change the run it is given; a
  save stores a copy; the Effect library repeats an attempt as its schedule documents.
  Registry: requests are handled one after the other; the persistence is the in-memory one; package
  names and versions are those npm admits; readings of the clock are counted, in places where the
  code skips one too; sums and quotients are exact where the code rounds to doubles.
  Account: the synchronous blocks of a durable object do not interleave and read one clock; \<open>JSON.parse\<close>
  reads back what \<open>JSON.stringify\<close> wrote of the payloads, cursors and pages the account stores
  (\<open>json_reads\<close>); sequence numbers and revisions are exact; an administrator's restriction and the
  publication of a compact snapshot enter as events that set the stored values within their range; the
  calls of a deleted account are refused before they reach the modelled code. The transport between
  device and account delivers the JSON value that was sent, or nothing.
  Strings have code units below 256, numbers are exact, and an object has only own properties: the
  places where an inherited property matters are written out (\<open>object_methods\<close>).

  \<^bold>\<open>Not modelled.\<close> Opening and closing sockets, processes, user interfaces, command lines, the adapters over cloud
  services, the rest of the desktop application and of its cloud backend (jobs, workers, sessions,
  dashboards, snapshot publication, and the device's outbox and activation), the registry's worker, static analysis and
  provenance checks (the worker's effects on the persistence are arbitrary steps of
  \<open>Registry_System\<close>), and the registry gateway's administration endpoints.
\<close>

end
